(* ===== verification/Go_Prelude.thy ===== *)
theory Go_Prelude
  imports Main "HOL-Library.Char_ord" "HOL-Library.List_Lexorder"
    "HOL-Library.Multiset"
begin

text \<open>
  The vocabulary the component theories share: the parts of Go and of its standard
  library that the sources use (64-bit integer results, \<^verbatim>\<open>time.Time\<close> and
  \<^verbatim>\<open>time.Duration\<close>, byte-ordered strings, anchored regular expressions over one
  character class, loops that stop at the first error), with the generic lemmas the
  component proofs are built from.

  Conventions. A Go string is its list of bytes; a loop \<^verbatim>\<open>for _, r := range s\<close> that
  rejects every rune outside an ASCII class is the same check on bytes, because every byte
  of a multi-byte rune is outside ASCII. An error return is \<open>Inl\<close> of the sentinel error,
  a value return is \<open>Inr\<close>. Slices are lists; the defensive copies the code makes
  (\<^verbatim>\<open>slices.Clone\<close> and its \<^verbatim>\<open>clone*\<close> helpers) are identities on values.
\<close>

named_theorems go_time_simps "unfolds the time.Time operations"
named_theorems token_simps "unfolds the token and pattern matchers"

section \<open>Integers\<close>

text \<open>Two's complement wrap-around of a mathematical integer to Go's \<^verbatim>\<open>int64\<close>.\<close>

definition int64_max :: int where
  "int64_max = 9223372036854775807"

definition int64_min :: int where
  "int64_min = - 9223372036854775808"

definition i64 :: "int \<Rightarrow> int" where
  "i64 x = (x + 9223372036854775808) mod 18446744073709551616 - 9223372036854775808"

lemma i64_id [simp]: "int64_min \<le> x \<Longrightarrow> x \<le> int64_max \<Longrightarrow> i64 x = x"
  by (simp add: i64_def int64_min_def int64_max_def)

lemma i64_range: "int64_min \<le> i64 x \<and> i64 x \<le> int64_max"
proof -
  have "0 \<le> (x + 9223372036854775808) mod 18446744073709551616"
    by simp
  moreover have "(x + 9223372036854775808) mod 18446744073709551616 < 18446744073709551616"
    by (rule pos_mod_bound) simp
  ultimately show ?thesis
    by (simp add: i64_def int64_min_def int64_max_def)
qed

lemma i64_succ: "int64_min \<le> v \<Longrightarrow> v < int64_max \<Longrightarrow> i64 (v + 1) = v + 1"
  by (simp add: int64_min_def int64_max_def i64_def)

lemma i64_max_wraps: "i64 (int64_max + 1) = int64_min"
  by (simp add: i64_def int64_max_def int64_min_def)

section \<open>Time\<close>

text \<open>
  A \<^verbatim>\<open>time.Time\<close> is the instant it denotes, in nanoseconds since January 1, year 1, 00:00
  UTC (Go's zero time), together with whether its location is UTC (the code only ever asks
  \<^verbatim>\<open>t.Location() == time.UTC\<close>). A \<^verbatim>\<open>time.Duration\<close> is an integer count of nanoseconds;
  \<^verbatim>\<open>Sub\<close> saturates at the ends of \<^verbatim>\<open>int64\<close>.
\<close>

record go_time =
  t_ns :: int
  t_utc :: bool

type_synonym duration = int

abbreviation utc_at :: "int \<Rightarrow> go_time" where
  "utc_at n \<equiv> \<lparr>t_ns = n, t_utc = True\<rparr>"

definition time_zero :: go_time where
  "time_zero = utc_at 0"

definition IsZero :: "go_time \<Rightarrow> bool" where
  [go_time_simps]: "IsZero t \<longleftrightarrow> t_ns t = 0"

definition Before :: "go_time \<Rightarrow> go_time \<Rightarrow> bool" where
  [go_time_simps]: "Before a b \<longleftrightarrow> t_ns a < t_ns b"

definition After :: "go_time \<Rightarrow> go_time \<Rightarrow> bool" where
  [go_time_simps]: "After a b \<longleftrightarrow> t_ns b < t_ns a"

definition to_UTC :: "go_time \<Rightarrow> go_time" where
  [go_time_simps]: "to_UTC t = t\<lparr>t_utc := True\<rparr>"

definition Add :: "go_time \<Rightarrow> duration \<Rightarrow> go_time" where
  [go_time_simps]: "Add t d = t\<lparr>t_ns := t_ns t + d\<rparr>"

definition Sub :: "go_time \<Rightarrow> go_time \<Rightarrow> duration" where
  "Sub a b = max int64_min (min int64_max (t_ns a - t_ns b))"

text \<open>\<^verbatim>\<open>t.Truncate(d)\<close> rounds down to a multiple of \<open>d\<close> since the zero time.\<close>

definition Truncate :: "go_time \<Rightarrow> duration \<Rightarrow> go_time" where
  "Truncate t d = t\<lparr>t_ns := t_ns t - t_ns t mod d\<rparr>"

text \<open>What a \<^verbatim>\<open>timestamptz\<close> column keeps of a time: whole microseconds, in UTC.\<close>

definition pg_time :: "go_time \<Rightarrow> go_time" where
  "pg_time t = Truncate (to_UTC t) 1000"

definition Nanosecond :: "go_time \<Rightarrow> int" where
  [go_time_simps]: "Nanosecond t = t_ns t mod 1000000000"

definition microsecond_precise :: "go_time \<Rightarrow> bool" where
  "microsecond_precise t \<longleftrightarrow> Nanosecond t mod 1000 = 0"

definition utcNonZero :: "go_time \<Rightarrow> bool" where
  [go_time_simps]: "utcNonZero t \<longleftrightarrow> \<not> IsZero t \<and> t_utc t"

abbreviation millisecond :: duration where "millisecond \<equiv> 1000000"
abbreviation second :: duration where "second \<equiv> 1000000000"
abbreviation minute :: duration where "minute \<equiv> 60000000000"
abbreviation hour :: duration where "hour \<equiv> 3600000000000"

lemma Sub_small:
  "int64_min \<le> t_ns a - t_ns b \<Longrightarrow> t_ns a - t_ns b \<le> int64_max \<Longrightarrow> Sub a b = t_ns a - t_ns b"
  by (simp add: Sub_def)

lemma Sub_ge_iff:
  "int64_min < d \<Longrightarrow> d \<le> int64_max \<Longrightarrow> d \<le> Sub a b \<longleftrightarrow> d \<le> t_ns a - t_ns b"
  by (auto simp: Sub_def min_def max_def int64_min_def int64_max_def)

lemma Sub_le_iff:
  "int64_min \<le> d \<Longrightarrow> d < int64_max \<Longrightarrow> Sub a b \<le> d \<longleftrightarrow> t_ns a - t_ns b \<le> d"
  by (auto simp: Sub_def min_def max_def int64_min_def int64_max_def)

lemma Sub_less_iff:
  "int64_min < d \<Longrightarrow> d \<le> int64_max \<Longrightarrow> Sub a b < d \<longleftrightarrow> t_ns a - t_ns b < d"
  by (auto simp: Sub_def min_def max_def int64_min_def int64_max_def)

lemma to_UTC_simps [simp]:
  "t_ns (to_UTC t) = t_ns t" "t_utc (to_UTC t)" "to_UTC (to_UTC t) = to_UTC t"
  by (simp_all add: to_UTC_def)

lemma to_UTC_id: "t_utc t \<Longrightarrow> to_UTC t = t"
  by (simp add: to_UTC_def)

lemma pg_time_ns: "t_ns (pg_time t) = t_ns t - t_ns t mod 1000" "t_utc (pg_time t)"
  by (simp_all add: pg_time_def Truncate_def)

lemma pg_time_div: "t_ns (pg_time t) = 1000 * (t_ns t div 1000)"
  by (simp add: pg_time_ns minus_mod_eq_mult_div)

lemma pg_time_less: "b mod 1000 = 0 \<Longrightarrow> t_ns (pg_time t) < b \<longleftrightarrow> t_ns t < b" for b :: int
  unfolding pg_time_div by (auto simp: mod_eq_0_iff_dvd div_less_iff_less_mult mult.commute elim!: dvdE)

lemma pg_time_le: "b mod 1000 = 0 \<Longrightarrow> b \<le> t_ns (pg_time t) \<longleftrightarrow> b \<le> t_ns t" for b :: int
  using pg_time_less [of b t] by (simp add: linorder_not_less [symmetric])

lemma pg_time_room: "t_ns t + 1000 \<le> t_ns u \<Longrightarrow> t_ns (pg_time t) < t_ns (pg_time u)"
  unfolding pg_time_div using zdiv_mono1 [of "t_ns t + 1000" "t_ns u" 1000] by simp

lemma pg_time_mono: "t_ns t \<le> t_ns u \<Longrightarrow> t_ns (pg_time t) \<le> t_ns (pg_time u)"
  unfolding pg_time_div by (simp add: zdiv_mono1)

section \<open>Characters, strings and anchored patterns\<close>

definition is_lower :: "char \<Rightarrow> bool" where
  [token_simps]: "is_lower c \<longleftrightarrow> CHR ''a'' \<le> c \<and> c \<le> CHR ''z''"

definition is_upper :: "char \<Rightarrow> bool" where
  [token_simps]: "is_upper c \<longleftrightarrow> CHR ''A'' \<le> c \<and> c \<le> CHR ''Z''"

definition is_digit :: "char \<Rightarrow> bool" where
  [token_simps]: "is_digit c \<longleftrightarrow> CHR ''0'' \<le> c \<and> c \<le> CHR ''9''"

definition is_hex_lower :: "char \<Rightarrow> bool" where
  [token_simps]: "is_hex_lower c \<longleftrightarrow> is_digit c \<or> (CHR ''a'' \<le> c \<and> c \<le> CHR ''f'')"

text \<open>
  \<open>pattern f r m s\<close>: the whole string is one character of class \<open>f\<close> followed by at most
  \<open>m\<close> characters of class \<open>r\<close>: \<^verbatim>\<open>^[f][r]{0,m}$\<close>.
\<close>

fun pattern :: "(char \<Rightarrow> bool) \<Rightarrow> (char \<Rightarrow> bool) \<Rightarrow> nat \<Rightarrow> string \<Rightarrow> bool" where
  "pattern f r m [] = False"
| "pattern f r m (c # cs) = (f c \<and> list_all r cs \<and> length cs \<le> m)"

text \<open>The class \<^verbatim>\<open>[a-z0-9._:-]\<close> of the policy, review and audit token patterns.\<close>

definition token_char :: "char \<Rightarrow> bool" where
  [token_simps]: "token_char c \<longleftrightarrow> is_lower c \<or> is_digit c \<or> c = CHR ''.'' \<or> c = CHR ''_''
     \<or> c = CHR '':'' \<or> c = CHR ''-''"

text \<open>\<^verbatim>\<open>^[0-9a-f]{64}$\<close>\<close>

definition hex64 :: "string \<Rightarrow> bool" where
  [token_simps]: "hex64 s \<longleftrightarrow> length s = 64 \<and> list_all is_hex_lower s"

text \<open>A string that starts with a lower-case letter, digits and hyphens after it, 63 bytes at most.\<close>

definition validRegion :: "string \<Rightarrow> bool" where
  "validRegion s \<longleftrightarrow> pattern is_lower (\<lambda>c. is_lower c \<or> is_digit c \<or> c = CHR ''-'') 62 s"

definition bounded :: "string \<Rightarrow> nat \<Rightarrow> bool" where
  "bounded s m \<longleftrightarrow> 0 < length s \<and> length s \<le> m"

lemma pattern_nonempty: "pattern f r m s \<Longrightarrow> s \<noteq> []"
  by (cases s) simp_all

lemma pattern_length: "pattern f r m s \<Longrightarrow> 0 < length s \<and> length s \<le> Suc m"
  by (cases s) simp_all

lemma pattern_mono: "pattern f r m s \<Longrightarrow> m \<le> n \<Longrightarrow> pattern f r n s"
  by (cases s) auto

lemma hex64_nonempty: "hex64 s \<Longrightarrow> s \<noteq> []"
  by (auto simp: hex64_def)

lemma hex64_replicate: "hex64 (replicate 64 (CHR ''0''))"
  by (simp add: hex64_def is_hex_lower_def is_digit_def list_all_iff)

section \<open>Loops that stop at the first error\<close>

fun traverse :: "('a \<Rightarrow> 'e + 'b) \<Rightarrow> 'a list \<Rightarrow> 'e + 'b list" where
  "traverse f [] = Inr []"
| "traverse f (x # xs) =
     (case f x of Inl e \<Rightarrow> Inl e
      | Inr y \<Rightarrow> (case traverse f xs of Inl e \<Rightarrow> Inl e | Inr ys \<Rightarrow> Inr (y # ys)))"

lemma traverse_Inr: "traverse f xs = Inr ys \<Longrightarrow> list_all2 (\<lambda>x y. f x = Inr y) xs ys"
  by (induction xs arbitrary: ys) (auto split: sum.splits)

lemma traverse_Inr_iff: "traverse f xs = Inr ys \<longleftrightarrow> list_all2 (\<lambda>x y. f x = Inr y) xs ys"
proof
  assume "list_all2 (\<lambda>x y. f x = Inr y) xs ys"
  then show "traverse f xs = Inr ys"
    by (induction rule: list_all2_induct) auto
qed (rule traverse_Inr)

lemma traverse_length: "traverse f xs = Inr ys \<Longrightarrow> length ys = length xs"
  by (metis list_all2_lengthD traverse_Inr)

lemma traverse_id:
  assumes "\<And>x. x \<in> set xs \<Longrightarrow> f x = Inr x"
  shows "traverse f xs = Inr xs"
  using assms by (induction xs) auto

lemma traverse_fixpoint:
  assumes "traverse f xs = Inr ys" and "\<And>x y. f x = Inr y \<Longrightarrow> f y = Inr y"
  shows "traverse f ys = Inr ys"
  using assms by (induction xs arbitrary: ys) (auto split: sum.splits)

lemma traverse_mapD:
  assumes "traverse f xs = Inr ys" and "\<And>x y. f x = Inr y \<Longrightarrow> g y = h x"
  shows "map g ys = map h xs"
  using assms by (induction xs arbitrary: ys) (auto split: sum.splits)

lemma traverse_map_on:
  assumes "traverse f xs = Inr ys" and "\<And>x y. x \<in> set xs \<Longrightarrow> f x = Inr y \<Longrightarrow> g y = h x"
  shows "map g ys = map h xs"
  using assms by (induction xs arbitrary: ys) (auto split: sum.splits)

lemma traverse_memberE: "traverse f xs = Inr ys \<Longrightarrow> y \<in> set ys \<Longrightarrow> \<exists>x \<in> set xs. f x = Inr y"
  by (induction xs arbitrary: ys) (auto split: sum.splits)

lemma traverse_error: "traverse f xs = Inl e \<Longrightarrow> \<exists>x \<in> set xs. f x = Inl e"
  by (induction xs) (auto split: sum.splits)

section \<open>Sorted lists without repetition\<close>

text \<open>\<^verbatim>\<open>for i := 1; i < len(xs); i++ { if xs[i] == xs[i-1] ... }\<close>\<close>

fun adjacent_dup :: "'a list \<Rightarrow> bool" where
  "adjacent_dup (x # y # xs) = (x = y \<or> adjacent_dup (y # xs))"
| "adjacent_dup _ = False"

text \<open>\<^verbatim>\<open>slices.Compact\<close>: drop every element equal to its predecessor.\<close>

fun compact :: "'a list \<Rightarrow> 'a list" where
  "compact (x # y # xs) = (if x = y then compact (y # xs) else x # compact (y # xs))"
| "compact xs = xs"

lemma adjacent_dup_sorted: "sorted xs \<Longrightarrow> adjacent_dup xs \<longleftrightarrow> \<not> distinct xs"
  for xs :: "'a::linorder list"
proof (induction xs rule: adjacent_dup.induct)
  case (1 x y xs)
  then have "adjacent_dup (y # xs) \<longleftrightarrow> \<not> distinct (y # xs)" by simp
  moreover have "x \<in> set xs \<Longrightarrow> x = y"
    using "1.prems" by auto
  ultimately show ?case by auto
qed auto

lemma adjacent_dup_sort: "adjacent_dup (sort xs) \<longleftrightarrow> \<not> distinct xs"
  for xs :: "'a::linorder list"
  by (simp add: adjacent_dup_sorted)

lemma set_compact [simp]: "set (compact xs) = set xs"
  by (induction xs rule: compact.induct) auto

lemma compact_id: "\<not> adjacent_dup xs \<Longrightarrow> compact xs = xs"
  by (induction xs rule: compact.induct) auto

lemma hd_compact [simp]: "hd (compact (x # xs)) = x"
  by (induction "x # xs" arbitrary: x xs rule: compact.induct) auto

lemma compact_neq_Nil [simp]: "compact (x # xs) \<noteq> []"
  by (induction "x # xs" arbitrary: x xs rule: compact.induct) auto

lemma sorted_compact: "sorted xs \<Longrightarrow> sorted (compact xs) \<and> distinct (compact xs)"
  for xs :: "'a::linorder list"
  by (induction xs rule: compact.induct) (auto simp: less_le)

lemma sort_key_distinct_unique:
  fixes f :: "'a \<Rightarrow> 'k::linorder"
  assumes "mset xs = mset ys" and "distinct (map f xs)"
  shows "sort_key f xs = sort_key f ys"
proof (rule map_sorted_distinct_set_unique [where f = f])
  have s: "set xs = set ys"
    using assms(1) by (metis set_mset_mset)
  have d: "distinct (map f ys)"
    using assms by (metis mset_eq_imp_distinct_iff mset_map)
  show "distinct (map f (sort_key f xs))"
    using assms(2) by (simp add: distinct_map)
  show "distinct (map f (sort_key f ys))"
    using d by (simp add: distinct_map)
  show "set (sort_key f xs) = set (sort_key f ys)"
    using s by simp
  show "inj_on f (set (sort_key f xs) \<union> set (sort_key f ys))"
    using s assms(2) by (simp add: distinct_map)
qed simp_all

lemma sort_key_id: "sorted (map f xs) \<Longrightarrow> sort_key f xs = xs"
  by (rule sort_key_id_if_sorted)

lemma compact_sort_idem: "compact (sort (compact (sort xs))) = compact (sort xs)" for xs :: "'a::linorder list"
  using sorted_compact [of "sort xs"]
  by (simp add: sort_key_id compact_id adjacent_dup_sorted)

lemma sort_sort [simp]: "sort (sort xs) = sort xs"
  by (rule sort_key_id_if_sorted) simp

lemma sort_key_sort_key [simp]: "sort_key f (sort_key f xs) = sort_key f xs"
  by (rule sort_key_id_if_sorted) simp

lemma sort_eq_Nil [simp]: "sort_key f xs = [] \<longleftrightarrow> xs = []"
  by (metis length_0_conv length_sort)

lemma distinct_map_sort_key: "distinct (map f (sort_key g xs)) \<longleftrightarrow> distinct (map f xs)"
  by (simp add: distinct_map)

lemma sort_perm: "mset xs = mset ys \<Longrightarrow> sort xs = sort ys"
  by (rule properties_for_sort) simp_all

section \<open>Hexadecimal\<close>

definition hex_digit :: "nat \<Rightarrow> char" where
  "hex_digit n = ''0123456789abcdef'' ! n"

definition hex_value :: "char \<Rightarrow> nat option" where
  "hex_value = map_of (zip ''0123456789abcdefABCDEF'' ([0..<16] @ [10..<16]))"

text \<open>\<^verbatim>\<open>hex.EncodeToString\<close> and \<^verbatim>\<open>hex.DecodeString\<close>\<close>

fun hex_encode :: "string \<Rightarrow> string" where
  "hex_encode [] = []"
| "hex_encode (b # bs) = hex_digit (of_char b div 16) # hex_digit (of_char b mod 16) # hex_encode bs"

fun hex_decode :: "string \<Rightarrow> string option" where
  "hex_decode [] = Some []"
| "hex_decode [x] = None"
| "hex_decode (x # y # s) =
     (case (hex_value x, hex_value y) of
        (Some a, Some b) \<Rightarrow> map_option (Cons (char_of (16 * a + b))) (hex_decode s)
      | _ \<Rightarrow> None)"

lemma hex_digit_table:
  "list_all (\<lambda>n. hex_value (hex_digit n) = Some n \<and> is_hex_lower (hex_digit n)) [0..<16]"
  by (simp add: hex_value_def hex_digit_def upt_rec token_simps)

lemma hex_digit_value: "n < 16 \<Longrightarrow> hex_value (hex_digit n) = Some n"
  and hex_digit_lower: "n < 16 \<Longrightarrow> is_hex_lower (hex_digit n)"
  using hex_digit_table by (simp_all add: list_all_iff)

lemma of_char_div: "of_char c div 16 < (16 :: nat)"
  using nat_of_char_less_256 [of c] by (intro less_mult_imp_div_less) simp

lemma hex_roundtrip: "hex_decode (hex_encode bs) = Some bs"
proof (induction bs)
  case (Cons b bs)
  have "16 * (of_char b div 16) + of_char b mod 16 = (of_char b :: nat)"
    by (simp add: mult.commute)
  then show ?case
    using Cons of_char_div [of b] by (simp add: hex_digit_value)
qed simp

lemma hex_encode_inj: "hex_encode a = hex_encode b \<longleftrightarrow> a = b"
  by (metis hex_roundtrip option.inject)

lemma hex_encode_length: "length (hex_encode bs) = 2 * length bs"
  by (induction bs) auto

lemma hex_encode_lower: "list_all is_hex_lower (hex_encode bs)"
  by (induction bs) (auto simp: hex_digit_lower of_char_div)

lemma hex_encode_hex64: "length b = 32 \<Longrightarrow> hex64 (hex_encode b)"
  by (simp add: hex64_def hex_encode_length hex_encode_lower)

end
