(* ===== verification/Circuit_Breaker.thy ===== *)
theory Circuit_Breaker
  imports Go_Prelude Complex_Main
begin

text \<open>
  \<^verbatim>\<open>internal/platform/breaker/breaker.go\<close>: one bounded in-process circuit breaker, its
  policy, and the bounded registry of keyed breakers. The injected clock is an argument of
  every operation (the reading the operation takes); the mutex makes each operation atomic,
  so a concurrent history is a sequence of these operations. \<^verbatim>\<open>float64\<close> division is
  written out (round to nearest, ties to even, 53 significant bits).
\<close>

section \<open>States and policy\<close>

text \<open>\<open>State\<close> is a string type in Go: a value read back from storage may be any other label.\<close>

datatype breaker_state = StateUnknown | StateClosed | StateOpen | StateHalfOpen | StateOther string

fun Safe :: "breaker_state \<Rightarrow> string" where
  "Safe StateClosed = ''closed''"
| "Safe StateOpen = ''open''"
| "Safe StateHalfOpen = ''half_open''"
| "Safe _ = ''unknown''"

datatype breaker_error = ErrInvalidConfiguration

record breaker_policy =
  Window :: duration
  MinimumSamples :: int
  FailureRatio :: rat
  OpenDuration :: duration
  HalfOpenProbes :: int

definition DefaultPolicy :: breaker_policy where
  "DefaultPolicy = \<lparr>Window = minute, MinimumSamples = 4, FailureRatio = 1 / 2,
     OpenDuration = 30 * second, HalfOpenProbes = 1\<rparr>"

definition policy_Validate :: "breaker_policy \<Rightarrow> breaker_error option" where
  "policy_Validate p =
     (if Window p < second \<or> Window p > hour \<or> MinimumSamples p < 1 \<or> MinimumSamples p > 1000 \<or>
         FailureRatio p \<le> 0 \<or> FailureRatio p > 1 \<or> OpenDuration p < second \<or>
         OpenDuration p > hour \<or> HalfOpenProbes p < 1 \<or> HalfOpenProbes p > 32
      then Some ErrInvalidConfiguration else None)"

abbreviation policy_ok :: "breaker_policy \<Rightarrow> bool" where
  "policy_ok p \<equiv> policy_Validate p = None"

record transition =
  tr_From :: breaker_state
  tr_To :: breaker_state
  tr_At :: go_time
  tr_Changed :: bool

record outcome =
  oc_at :: go_time
  oc_success :: bool

record circuit =
  c_policy :: breaker_policy
  c_state :: breaker_state
  c_openedAt :: go_time
  c_halfOpenInFlight :: int
  c_outcomes :: "outcome list"

section \<open>The failure ratio in float64\<close>

definition round_half_even :: "nat \<Rightarrow> nat \<Rightarrow> nat" where
  "round_half_even n d =
     (let q = n div d; r = n mod d
      in if 2 * r < d \<or> (2 * r = d \<and> even q) then q else q + 1)"

text \<open>
  \<^verbatim>\<open>float64(f) / float64(s)\<close> for \<open>0 \<le> f \<le> s\<close>, as the rational it denotes: the exponent is
  the least \<open>k\<close> that makes the significand \<open>f * 2^k / s\<close> at least \<open>2^52\<close>. Counts are far
  below \<open>2^53\<close>, so the conversions of the operands are exact.
\<close>

definition float64_quotient :: "nat \<Rightarrow> nat \<Rightarrow> rat" where
  "float64_quotient f s =
     (case find (\<lambda>k. 2 ^ 52 * s \<le> f * 2 ^ k) [52..<180] of
        None \<Rightarrow> 0
      | Some k \<Rightarrow> of_nat (round_half_even (f * 2 ^ k) s) / 2 ^ k)"

section \<open>Operations of one circuit\<close>

definition prune :: "go_time \<Rightarrow> circuit \<Rightarrow> circuit" where
  "prune now c =
     (let cutoff = Add now (- Window (c_policy c))
      in c\<lparr>c_outcomes := filter (\<lambda>oc. \<not> Before (oc_at oc) cutoff) (c_outcomes c)\<rparr>)"

definition refresh :: "go_time \<Rightarrow> circuit \<Rightarrow> circuit" where
  "refresh now c0 =
     (let c = prune now c0
      in if c_state c = StateOpen \<and> \<not> IsZero (c_openedAt c) \<and>
            Sub now (c_openedAt c) \<ge> OpenDuration (c_policy c)
         then c\<lparr>c_state := StateHalfOpen, c_halfOpenInFlight := 0\<rparr> else c)"

definition failures :: "outcome list \<Rightarrow> nat" where
  "failures ocs = length (filter (\<lambda>oc. \<not> oc_success oc) ocs)"

definition shouldOpen :: "circuit \<Rightarrow> bool" where
  "shouldOpen c =
     (let samples = length (c_outcomes c)
      in if int samples < MinimumSamples (c_policy c) then False
         else float64_quotient (failures (c_outcomes c)) samples \<ge> FailureRatio (c_policy c))"

definition circuit_State :: "go_time \<Rightarrow> circuit \<Rightarrow> breaker_state \<times> circuit" where
  "circuit_State now c = (let c' = refresh now c in (c_state c', c'))"

definition Allow :: "go_time \<Rightarrow> circuit \<Rightarrow> bool \<times> circuit" where
  "Allow now c0 =
     (let c = refresh now c0
      in case c_state c of
           StateOpen \<Rightarrow> (False, c)
         | StateHalfOpen \<Rightarrow>
             (if c_halfOpenInFlight c \<ge> HalfOpenProbes (c_policy c) then (False, c)
              else (True, c\<lparr>c_halfOpenInFlight := i64 (c_halfOpenInFlight c + 1)\<rparr>))
         | _ \<Rightarrow> (True, c))"

definition Record :: "bool \<Rightarrow> go_time \<Rightarrow> circuit \<Rightarrow> transition \<times> circuit" where
  "Record success now c0 =
     (let c = refresh now c0;
          tr = \<lparr>tr_From = c_state c, tr_To = c_state c, tr_At = to_UTC now, tr_Changed = False\<rparr>
      in if c_state c = StateOpen then (tr, c)
         else if c_state c = StateHalfOpen then
           (let c1 = (if c_halfOpenInFlight c > 0
                      then c\<lparr>c_halfOpenInFlight := c_halfOpenInFlight c - 1\<rparr> else c);
                c2 = (if success
                      then c1\<lparr>c_state := StateClosed, c_openedAt := time_zero, c_outcomes := []\<rparr>
                      else c1\<lparr>c_state := StateOpen, c_openedAt := now\<rparr>)
            in (tr\<lparr>tr_To := c_state c2, tr_Changed := (c_state c2 \<noteq> tr_From tr)\<rparr>, c2))
         else
           (let c1 = prune now (c\<lparr>c_outcomes := c_outcomes c @ [\<lparr>oc_at = now, oc_success = success\<rparr>]\<rparr>)
            in if shouldOpen c1
               then (tr\<lparr>tr_To := StateOpen, tr_Changed := True\<rparr>,
                     c1\<lparr>c_state := StateOpen, c_openedAt := now\<rparr>)
               else (tr, c1)))"

definition Seed :: "breaker_state \<Rightarrow> go_time \<Rightarrow> go_time \<Rightarrow> circuit \<Rightarrow> circuit" where
  "Seed st seeded now c0 =
     (if st \<noteq> StateOpen \<and> st \<noteq> StateHalfOpen then c0
      else let c = refresh now c0
           in if c_state c \<noteq> StateOpen \<and> c_state c \<noteq> StateHalfOpen
              then c\<lparr>c_state := st, c_openedAt := seeded\<rparr> else c)"

section \<open>The registry of keyed circuits\<close>

text \<open>
  \<open>r_circuits\<close> is the Go map with one arbitrary iteration order (the order of the list);
  every theorem holds for every list, so for every order the runtime may choose.
\<close>

record 'k registry =
  r_policy :: breaker_policy
  r_validKey :: "'k \<Rightarrow> bool"
  r_limit :: int
  r_circuits :: "('k \<times> circuit) list"

definition NewRegistry :: "breaker_policy \<Rightarrow> int \<Rightarrow> ('k \<Rightarrow> bool) \<Rightarrow> breaker_error + 'k registry" where
  "NewRegistry p mx vk =
     (if policy_Validate p \<noteq> None \<or> mx < 1 \<or> mx > 1000000 then Inl ErrInvalidConfiguration
      else Inr \<lparr>r_policy = p, r_validKey = vk, r_limit = mx, r_circuits = []\<rparr>)"

definition new_circuit :: "breaker_policy \<Rightarrow> circuit" where
  "new_circuit p = \<lparr>c_policy = p, c_state = StateClosed, c_openedAt = time_zero,
     c_halfOpenInFlight = 0, c_outcomes = []\<rparr>"

definition opened_for_eviction :: "go_time \<Rightarrow> circuit \<Rightarrow> go_time" where
  "opened_for_eviction now c =
     (if IsZero (c_openedAt c) then Add now (- Window (c_policy c)) else c_openedAt c)"

text \<open>The loop of \<open>evictOldest\<close>: \<open>best\<close> is \<open>None\<close> while \<^verbatim>\<open>isFirst\<close> holds.\<close>

fun oldest_loop :: "go_time \<Rightarrow> ('k \<times> circuit) list \<Rightarrow> ('k \<times> go_time) option \<Rightarrow> ('k \<times> go_time) option" where
  "oldest_loop now [] best = best"
| "oldest_loop now ((k, c) # rest) best =
     (let opened = opened_for_eviction now (refresh now c)
      in oldest_loop now rest
           (case best of None \<Rightarrow> Some (k, opened)
            | Some (bk, bt) \<Rightarrow> if Before opened bt then Some (k, opened) else Some (bk, bt)))"

definition evictOldest :: "go_time \<Rightarrow> ('k \<times> circuit) list \<Rightarrow> ('k \<times> circuit) list" where
  "evictOldest now cs =
     (let refreshed = map (\<lambda>(k, c). (k, refresh now c)) cs
      in case oldest_loop now cs None of
           None \<Rightarrow> refreshed
         | Some (k, _) \<Rightarrow> filter (\<lambda>(k', _). k' \<noteq> k) refreshed)"

definition put_circuit :: "'k \<Rightarrow> circuit \<Rightarrow> ('k \<times> circuit) list \<Rightarrow> ('k \<times> circuit) list" where
  "put_circuit k c cs = map (\<lambda>(k', c'). (k', if k' = k then c else c')) cs"

text \<open>
  \<open>Registry.Breaker\<close>: the pointer it returns is the key's entry of the map, so the model
  returns the circuit and the registry that holds it.
\<close>

definition Breaker :: "go_time \<Rightarrow> 'k \<Rightarrow> 'k registry \<Rightarrow> circuit option \<times> 'k registry" where
  "Breaker now k r =
     (if \<not> r_validKey r k then (None, r)
      else case map_of (r_circuits r) k of
        Some c \<Rightarrow> (let c' = refresh now c
                  in (Some c', r\<lparr>r_circuits := put_circuit k c' (r_circuits r)\<rparr>))
      | None \<Rightarrow>
          (let cs = (if int (length (r_circuits r)) \<ge> r_limit r
                     then evictOldest now (r_circuits r) else r_circuits r);
               c = new_circuit (r_policy r)
           in (Some c, r\<lparr>r_circuits := (k, c) # cs\<rparr>)))"

definition registry_State :: "go_time \<Rightarrow> 'k \<Rightarrow> 'k registry \<Rightarrow> (breaker_state \<times> bool) \<times> 'k registry" where
  "registry_State now k r =
     (if \<not> r_validKey r k then ((StateUnknown, False), r)
      else case map_of (r_circuits r) k of
        None \<Rightarrow> ((StateUnknown, False), r)
      | Some c \<Rightarrow> (let c' = refresh now c
                  in ((c_state c', True), r\<lparr>r_circuits := put_circuit k c' (r_circuits r)\<rparr>)))"

text \<open>The registry's and the circuit's clock readings are two readings.\<close>

definition registry_Seed ::
  "'k \<Rightarrow> breaker_state \<Rightarrow> go_time \<Rightarrow> go_time \<Rightarrow> go_time \<Rightarrow> 'k registry \<Rightarrow> 'k registry" where
  "registry_Seed k st seeded now now' r =
     (if \<not> r_validKey r k \<or> IsZero seeded then r
      else case Breaker now k r of
        (None, r') \<Rightarrow> r'
      | (Some c, r') \<Rightarrow> r'\<lparr>r_circuits := put_circuit k (Seed st seeded now' c) (r_circuits r')\<rparr>)"

section \<open>Lemmas on single operations\<close>

lemma prune_simps [simp]:
  "c_policy (prune now c) = c_policy c" "c_state (prune now c) = c_state c"
  "c_openedAt (prune now c) = c_openedAt c"
  "c_halfOpenInFlight (prune now c) = c_halfOpenInFlight c"
  by (simp_all add: prune_def Let_def)

lemma refresh_policy [simp]: "c_policy (refresh now c) = c_policy c"
  and refresh_openedAt [simp]: "c_openedAt (refresh now c) = c_openedAt c"
  by (simp_all add: refresh_def Let_def)

lemma refresh_outcomes [simp]: "c_outcomes (refresh now c) = c_outcomes (prune now c)"
  by (simp add: refresh_def Let_def)

lemma refresh_state:
  "c_state (refresh now c) =
     (if c_state c = StateOpen \<and> \<not> IsZero (c_openedAt c) \<and>
         OpenDuration (c_policy c) \<le> Sub now (c_openedAt c) then StateHalfOpen else c_state c)"
  by (simp add: refresh_def Let_def)

lemma refresh_in_flight:
  "c_halfOpenInFlight (refresh now c) =
     (if c_state c = StateOpen \<and> \<not> IsZero (c_openedAt c) \<and>
         OpenDuration (c_policy c) \<le> Sub now (c_openedAt c) then 0 else c_halfOpenInFlight c)"
  by (simp add: refresh_def Let_def)

lemma refresh_not_open: "c_state c \<noteq> StateOpen \<Longrightarrow> refresh now c = prune now c"
  by (simp add: refresh_def Let_def)

lemma prune_within_window:
  "oc \<in> set (c_outcomes (prune now c)) \<Longrightarrow> t_ns now - Window (c_policy c) \<le> t_ns (oc_at oc)"
  by (auto simp: prune_def Let_def Before_def Add_def)

subsection \<open>The well-formedness of a circuit\<close>

definition circuit_ok :: "circuit \<Rightarrow> bool" where
  "circuit_ok c \<longleftrightarrow> policy_ok (c_policy c) \<and> c_state c \<in> {StateClosed, StateOpen, StateHalfOpen} \<and>
     0 \<le> c_halfOpenInFlight c \<and> c_halfOpenInFlight c \<le> HalfOpenProbes (c_policy c)"

lemma policy_ok_bounds:
  assumes "policy_ok p"
  shows "0 < OpenDuration p" "OpenDuration p \<le> int64_max" "1 \<le> HalfOpenProbes p"
    "HalfOpenProbes p \<le> 32" "1 \<le> MinimumSamples p" "0 < FailureRatio p" "FailureRatio p \<le> 1"
  using assms by (auto simp: policy_Validate_def int64_max_def split: if_splits)

lemma circuit_ok_new: "policy_ok p \<Longrightarrow> circuit_ok (new_circuit p)"
  using policy_ok_bounds(3) [of p] by (simp add: circuit_ok_def new_circuit_def)

lemma circuit_ok_prune [simp]: "circuit_ok (prune now c) = circuit_ok c"
  by (simp add: circuit_ok_def)

lemma circuit_ok_refresh: "circuit_ok c \<Longrightarrow> circuit_ok (refresh now c)"
  using policy_ok_bounds(3) [of "c_policy c"]
  by (auto simp: circuit_ok_def refresh_state refresh_in_flight)

lemma circuit_ok_Allow:
  assumes "circuit_ok c"
  shows "circuit_ok (snd (Allow now c))"
proof -
  have ok: "circuit_ok (refresh now c)"
    using assms by (rule circuit_ok_refresh)
  moreover have "i64 (v + 1) = v + 1" if "0 \<le> v" "v < HalfOpenProbes (c_policy c)" for v
    using that assms policy_ok_bounds(4) [of "c_policy c"]
    by (intro i64_succ) (auto simp: circuit_ok_def int64_min_def int64_max_def)
  ultimately show ?thesis
    by (auto simp: Allow_def Let_def circuit_ok_def split: breaker_state.splits)
qed

lemma circuit_ok_Record:
  assumes "circuit_ok c"
  shows "circuit_ok (snd (Record success now c))"
  using circuit_ok_refresh [OF assms, of now]
  by (auto simp: Record_def Let_def circuit_ok_def)

lemma circuit_ok_Seed: "circuit_ok c \<Longrightarrow> circuit_ok (Seed st seeded now c)"
  using circuit_ok_refresh [of c now] by (auto simp: Seed_def Let_def circuit_ok_def)

section \<open>Histories of one circuit\<close>

datatype breaker_event = EvState | EvAllow | EvRecord bool | EvSeed breaker_state go_time

fun apply_event :: "go_time \<Rightarrow> breaker_event \<Rightarrow> circuit \<Rightarrow> circuit" where
  "apply_event now EvState c = snd (circuit_State now c)"
| "apply_event now EvAllow c = snd (Allow now c)"
| "apply_event now (EvRecord success) c = snd (Record success now c)"
| "apply_event now (EvSeed st seeded) c = Seed st seeded now c"

inductive breaker_reachable :: "breaker_policy \<Rightarrow> circuit \<Rightarrow> bool" for p where
  breaker_start: "breaker_reachable p (new_circuit p)"
| breaker_next: "breaker_reachable p c \<Longrightarrow> breaker_reachable p (apply_event now e c)"

lemma circuit_ok_event: "circuit_ok c \<Longrightarrow> circuit_ok (apply_event now e c)"
  by (cases e) (simp_all add: circuit_State_def Let_def circuit_ok_refresh circuit_ok_Allow
      circuit_ok_Record circuit_ok_Seed)

lemma breaker_event_policy [simp]: "c_policy (apply_event now e c) = c_policy c"
  by (cases e) (auto simp: circuit_State_def Allow_def Record_def Seed_def Let_def
      split: breaker_state.splits)

lemma breaker_reachable_ok: "breaker_reachable p c \<Longrightarrow> policy_ok p \<Longrightarrow> circuit_ok c \<and> c_policy c = p"
  by (induction rule: breaker_reachable.induct)
    (auto simp: circuit_ok_event circuit_ok_new, simp add: new_circuit_def)

section \<open>Half-open admission\<close>

lemma Allow_half_open:
  assumes "c_state c = StateHalfOpen"
  shows "fst (Allow now c) \<longleftrightarrow> c_halfOpenInFlight c < HalfOpenProbes (c_policy c)"
    and "c_state (snd (Allow now c)) = StateHalfOpen"
    and "c_policy (snd (Allow now c)) = c_policy c"
  using assms by (auto simp: Allow_def Let_def refresh_not_open)

lemma Allow_half_open_in_flight:
  assumes "circuit_ok c" and "c_state c = StateHalfOpen"
  shows "c_halfOpenInFlight (snd (Allow now c)) =
     min (HalfOpenProbes (c_policy c)) (c_halfOpenInFlight c + 1)"
proof -
  have "c_halfOpenInFlight c < HalfOpenProbes (c_policy c) \<Longrightarrow>
      i64 (c_halfOpenInFlight c + 1) = c_halfOpenInFlight c + 1"
    using assms(1) policy_ok_bounds(4) [of "c_policy c"]
    by (intro i64_succ) (auto simp: circuit_ok_def int64_min_def int64_max_def)
  with assms show ?thesis
    by (auto simp: Allow_def Let_def refresh_not_open circuit_ok_def min_def)
qed

fun allow_burst :: "go_time list \<Rightarrow> circuit \<Rightarrow> bool list \<times> circuit" where
  "allow_burst [] c = ([], c)"
| "allow_burst (t # ts) c =
     (let (b, c') = Allow t c; (bs, c'') = allow_burst ts c' in (b # bs, c''))"

lemma allow_burst_half_open:
  assumes "circuit_ok c" and "c_state c = StateHalfOpen"
  shows "int (length (filter id (fst (allow_burst ts c)))) =
     min (int (length ts)) (HalfOpenProbes (c_policy c) - c_halfOpenInFlight c)"
  using assms
proof (induction ts arbitrary: c)
  case Nil
  then show ?case by (simp add: circuit_ok_def)
next
  case (Cons t ts)
  obtain b c' where a: "Allow t c = (b, c')" by fastforce
  have ok: "circuit_ok c'" and st: "c_state c' = StateHalfOpen" and pol: "c_policy c' = c_policy c"
    using circuit_ok_Allow [OF Cons.prems(1), of t] Allow_half_open [OF Cons.prems(2), of t] a
    by simp_all
  have fl: "c_halfOpenInFlight c' = min (HalfOpenProbes (c_policy c)) (c_halfOpenInFlight c + 1)"
    using Allow_half_open_in_flight [OF Cons.prems, of t] a by simp
  have b: "b \<longleftrightarrow> c_halfOpenInFlight c < HalfOpenProbes (c_policy c)"
    using Allow_half_open(1) [OF Cons.prems(2), of t] a by simp
  have "c_halfOpenInFlight c \<le> HalfOpenProbes (c_policy c)"
    using Cons.prems(1) by (simp add: circuit_ok_def)
  with Cons.IH [OF ok st] show ?case
    by (auto simp: a b fl pol split: prod.splits)
qed

text \<open>A half-open circuit with no free probe slot stays so: only \<open>Record\<close> frees one.\<close>

lemma half_open_full_stays:
  assumes "c_state c = StateHalfOpen" and "HalfOpenProbes (c_policy c) \<le> c_halfOpenInFlight c"
    and "\<forall>success. e \<noteq> EvRecord success"
  shows "c_state (apply_event now e c) = StateHalfOpen \<and>
     c_halfOpenInFlight (apply_event now e c) = c_halfOpenInFlight c"
  using assms
  by (cases e) (auto simp: circuit_State_def Allow_def Seed_def Let_def refresh_not_open)

section \<open>The failure ratio\<close>

lemma find_upt_least:
  assumes "a \<le> k" "k < b" "P k" "\<And>j. a \<le> j \<Longrightarrow> j < k \<Longrightarrow> \<not> P j"
  shows "find P [a..<b] = Some k"
  unfolding find_Some_iff using assms by (intro exI [of _ "k - a"]) auto

lemma round_half_even_exact: "0 < d \<Longrightarrow> round_half_even (d * q) d = q"
  by (simp add: round_half_even_def)

lemma round_half_even_ge: "0 < d \<Longrightarrow> d * q \<le> n \<Longrightarrow> q \<le> round_half_even n d"
proof -
  assume "0 < d" "d * q \<le> n"
  then have "q \<le> n div d"
    by (metis div_le_mono nonzero_mult_div_cancel_left not_gr_zero)
  then show ?thesis
    by (simp add: round_half_even_def Let_def)
qed

lemma round_half_even_le: "0 < d \<Longrightarrow> 2 * n + d < 2 * d * (q + 1) \<Longrightarrow> round_half_even n d \<le> q"
proof -
  assume d: "0 < d" and h: "2 * n + d < 2 * d * (q + 1)"
  have n: "n = d * (n div d) + n mod d"
    by simp
  show ?thesis
  proof (cases "n div d \<le> q")
    case True
    moreover have "2 * (n mod d) < d" if "n div d = q"
      using n h that by (simp add: algebra_simps)
    ultimately show ?thesis
      by (cases "n div d = q") (auto simp: round_half_even_def Let_def)
  next
    case False
    then have "d * (q + 1) \<le> d * (n div d)"
      by (intro mult_le_mono2) simp
    then have "d * (q + 1) \<le> n"
      using n by linarith
    with h d show ?thesis by linarith
  qed
qed

lemma float64_quotient_zero: "0 < s \<Longrightarrow> float64_quotient 0 s = 0"
  by (simp add: float64_quotient_def find_None_iff [THEN iffD2])

lemma float64_quotient_one: "0 < s \<Longrightarrow> float64_quotient s s = 1"
proof -
  assume s: "0 < s"
  have "find (\<lambda>k. 2 ^ 52 * s \<le> s * 2 ^ k) [52..<180] = Some 52"
    by (rule find_upt_least) auto
  moreover have "round_half_even (s * 2 ^ 52) s = 2 ^ 52"
    by (rule round_half_even_exact [OF s])
  ultimately show ?thesis
    by (simp add: float64_quotient_def)
qed

lemma find_upt_SomeD:
  assumes "find P [a..<b] = Some k"
  shows "a \<le> k" "k < b" "P k" "\<And>j. a \<le> j \<Longrightarrow> j < k \<Longrightarrow> \<not> P j"
proof -
  obtain i where i: "i < b - a" "P (a + i)" "k = a + i" "\<forall>j<i. \<not> P (a + j)"
    using assms unfolding find_Some_iff by auto
  show "a \<le> k" "k < b" "P k"
    using i by auto
  show "\<not> P j" if "a \<le> j" "j < k" for j
    using i(3,4) that by (metis add_diff_inverse_nat less_diff_conv2 not_le add.commute)
qed

lemma half_significand_54:
  assumes "2 * f < s" "s < (2 :: nat) ^ 53"
  shows "2 * (f * 2 ^ 54) + s < 2 * s * (2 ^ 53 - 1 + 1)"
proof -
  have "2 * f + 1 \<le> s" using assms(1) by simp
  then have "(2 * f + 1) * 2 ^ 54 \<le> s * 2 ^ 54" by (rule mult_le_mono1)
  with assms(2) show ?thesis by simp
qed

lemma half_significand_larger:
  assumes "f * 2 ^ k < 2 ^ 53 * s" "54 \<le> m" "0 < (s :: nat)"
  shows "2 * (f * 2 ^ k) + s < 2 * s * (2 ^ m - 1 + 1)"
proof -
  have "(2 :: nat) ^ 54 \<le> 2 ^ m"
    using assms(2) by (rule power_increasing) simp
  then have "2 * s * 2 ^ 54 \<le> 2 * s * (2 ^ m - 1 + 1)"
    by (intro mult_le_mono2) simp
  moreover have "2 * (f * 2 ^ k) + s < 2 * s * 2 ^ 54"
    using assms(1,3) by simp
  ultimately show ?thesis by (rule order.strict_trans2 [rotated])
qed

lemma float64_quotient_below_half:
  assumes "0 < f" "2 * f < s" "s < 2 ^ 53"
  shows "float64_quotient f s < 1 / 2"
proof (cases "find (\<lambda>k. 2 ^ 52 * s \<le> f * 2 ^ k) [52..<180]")
  case None
  then show ?thesis unfolding float64_quotient_def by simp
next
  case (Some k)
  note k = find_upt_SomeD [OF Some]
  have "k \<noteq> 52" "k \<noteq> 53"
    using k(3) assms(2) by auto
  with k(1) obtain e where e: "k = Suc e" "53 \<le> e"
    by (cases k) auto
  have "\<not> 2 ^ 52 * s \<le> f * 2 ^ e"
    using e by (intro k(4)) auto
  then have up: "f * 2 ^ k < 2 ^ 53 * s"
    using e(1) by simp
  have "2 * (f * 2 ^ k) + s < 2 * s * (2 ^ e - 1 + 1)"
  proof (cases "e = 53")
    case True
    then show ?thesis using half_significand_54 [OF assms(2,3)] e(1) by simp
  next
    case False
    with up e(2) assms show ?thesis by (intro half_significand_larger) auto
  qed
  then have "round_half_even (f * 2 ^ k) s \<le> 2 ^ e - 1"
    using assms by (intro round_half_even_le) auto
  then have "round_half_even (f * 2 ^ k) s < 2 ^ e"
    by (metis One_nat_def Suc_pred le_imp_less_Suc pos2 zero_less_power)
  then have "(of_nat (round_half_even (f * 2 ^ k) s) :: rat) < 2 ^ e"
    by (metis of_nat_less_iff of_nat_numeral of_nat_power)
  then have "of_nat (round_half_even (f * 2 ^ k) s) / 2 ^ k < (1 / 2 :: rat)"
    by (simp add: e(1) field_simps)
  then show ?thesis
    unfolding float64_quotient_def by (simp only: Some option.case)
qed

text \<open>Rounding does not move a quotient across one half while the counts are below \<open>2^53\<close>.\<close>

lemma float64_quotient_half:
  assumes "0 < s" "f \<le> s" "s < 2 ^ 53"
  shows "1 / 2 \<le> float64_quotient f s \<longleftrightarrow> s \<le> 2 * f"
proof -
  consider "f = 0" | "f = s" | "s \<le> 2 * f" "f < s" | "0 < f" "2 * f < s"
    using assms(2) by linarith
  then show ?thesis
  proof cases
    case 1
    with assms(1) show ?thesis by (simp add: float64_quotient_zero)
  next
    case 2
    with assms(1) show ?thesis by (simp add: float64_quotient_one)
  next
    case 3
    have "find (\<lambda>k. 2 ^ 52 * s \<le> f * 2 ^ k) [52..<180] = Some 53"
    proof (rule find_upt_least)
      show "2 ^ 52 * s \<le> f * 2 ^ 53" using 3(1) by simp
      fix j :: nat assume "52 \<le> j" "j < 53"
      then have "j = 52" by simp
      with 3(2) show "\<not> 2 ^ 52 * s \<le> f * 2 ^ j" by simp
    qed simp_all
    moreover have "2 ^ 52 \<le> round_half_even (f * 2 ^ 53) s"
      using 3(1) assms(1) by (intro round_half_even_ge) simp_all
    then have "(2 ^ 52 :: rat) \<le> of_nat (round_half_even (f * 2 ^ 53) s)"
      by (metis of_nat_le_iff of_nat_numeral of_nat_power)
    ultimately show ?thesis
      using 3(1) by (simp add: float64_quotient_def)
  next
    case 4
    with float64_quotient_below_half [OF 4 assms(3)] show ?thesis by simp
  qed
qed

section \<open>Properties\<close>

text \<open>
  In every state a circuit can reach from its creation by any sequence of operations, at
  any clock readings (the clock may even run backwards), the state is one of the three
  canonical ones and the number of half-open probes in flight is between zero and the
  policy's limit.
\<close>

theorem breaker_probes_bounded:
  assumes "breaker_reachable p c" and "policy_ok p"
  shows "c_state c \<in> {StateClosed, StateOpen, StateHalfOpen} \<and>
     0 \<le> c_halfOpenInFlight c \<and> c_halfOpenInFlight c \<le> HalfOpenProbes p"
  using breaker_reachable_ok [OF assms] by (auto simp: circuit_ok_def)

theorem breaker_probes_bounded_witness:
  "breaker_reachable DefaultPolicy (apply_event (utc_at 5) (EvRecord False) (new_circuit DefaultPolicy)) \<and>
   c_halfOpenInFlight (apply_event (utc_at 5) (EvRecord False) (new_circuit DefaultPolicy))
     \<le> HalfOpenProbes DefaultPolicy"
proof -
  have r: "breaker_reachable DefaultPolicy
      (apply_event (utc_at 5) (EvRecord False) (new_circuit DefaultPolicy))"
    by (intro breaker_reachable.intros)
  have "policy_ok DefaultPolicy"
    by (simp add: policy_Validate_def DefaultPolicy_def)
  with r show ?thesis
    using breaker_probes_bounded [OF r] by simp
qed

text \<open>
  An open circuit that recorded when it opened fails fast for exactly the open duration:
  before it has elapsed every request is refused and the circuit stays open; once it has
  elapsed the next request is admitted as the first half-open probe.
\<close>

theorem open_circuit_refuses_then_probes:
  assumes "policy_ok (c_policy c)" and "c_state c = StateOpen" and "\<not> IsZero (c_openedAt c)"
  shows "if t_ns now - t_ns (c_openedAt c) < OpenDuration (c_policy c)
         then \<not> fst (Allow now c) \<and> c_state (snd (Allow now c)) = StateOpen
         else fst (Allow now c) \<and> c_state (snd (Allow now c)) = StateHalfOpen \<and>
              c_halfOpenInFlight (snd (Allow now c)) = 1"
proof -
  note b = policy_ok_bounds [OF assms(1)]
  have "OpenDuration (c_policy c) \<le> Sub now (c_openedAt c) \<longleftrightarrow>
      OpenDuration (c_policy c) \<le> t_ns now - t_ns (c_openedAt c)"
    using b by (intro Sub_ge_iff) (auto simp: int64_min_def)
  with assms(2,3) b(3) show ?thesis
    by (auto simp: Allow_def Let_def refresh_state refresh_in_flight i64_def)
qed

theorem open_circuit_refuses_then_probes_witness:
  "fst (Allow (utc_at (31 * second))
     (new_circuit DefaultPolicy\<lparr>c_state := StateOpen, c_openedAt := utc_at second\<rparr>)) \<and>
   \<not> fst (Allow (utc_at (30 * second))
     (new_circuit DefaultPolicy\<lparr>c_state := StateOpen, c_openedAt := utc_at second\<rparr>))"
proof -
  let ?c = "new_circuit DefaultPolicy\<lparr>c_state := StateOpen, c_openedAt := utc_at second\<rparr>"
  have h: "policy_ok (c_policy ?c)" "c_state ?c = StateOpen" "\<not> IsZero (c_openedAt ?c)"
    by (simp_all add: new_circuit_def policy_Validate_def DefaultPolicy_def IsZero_def)
  show ?thesis
    using open_circuit_refuses_then_probes [OF h, of "utc_at (31 * second)"]
      open_circuit_refuses_then_probes [OF h, of "utc_at (30 * second)"]
    by (simp add: new_circuit_def DefaultPolicy_def)
qed

text \<open>
  Under the default policy a closed circuit opens on a recorded outcome exactly when at
  least four outcomes are left in the one-minute window and at least half of them are
  failures; the float64 division never changes that decision.
\<close>

theorem default_policy_opens_iff:
  fixes c :: circuit and success :: bool and now :: go_time
  defines "window \<equiv> c_outcomes (prune now
     (prune now c\<lparr>c_outcomes := c_outcomes (prune now c) @ [\<lparr>oc_at = now, oc_success = success\<rparr>]\<rparr>))"
  assumes "c_policy c = DefaultPolicy" and "c_state c = StateClosed" and "length window < 2 ^ 53"
  shows "c_state (snd (Record success now c)) = StateOpen \<longleftrightarrow>
     4 \<le> length window \<and> length window \<le> 2 * failures window"
proof -
  have "failures window \<le> length window"
    by (simp add: failures_def)
  then have "4 \<le> length window \<Longrightarrow>
      1 / 2 \<le> float64_quotient (failures window) (length window) \<longleftrightarrow> length window \<le> 2 * failures window"
    using assms(4) by (intro float64_quotient_half) auto
  with assms(2,3) show ?thesis
    by (auto simp: Record_def Let_def refresh_not_open shouldOpen_def window_def DefaultPolicy_def)
qed

theorem default_policy_opens_iff_witness:
  "c_state (snd (Record False (utc_at 50)
     (new_circuit DefaultPolicy\<lparr>c_outcomes := replicate 3 \<lparr>oc_at = utc_at 40, oc_success = False\<rparr>\<rparr>)))
   = StateOpen"
proof -
  let ?c = "new_circuit DefaultPolicy\<lparr>c_outcomes := replicate 3 \<lparr>oc_at = utc_at 40, oc_success = False\<rparr>\<rparr>"
  have "c_policy ?c = DefaultPolicy" "c_state ?c = StateClosed"
    by (simp_all add: new_circuit_def)
  then show ?thesis
    by (subst default_policy_opens_iff)
      (simp_all add: prune_def new_circuit_def DefaultPolicy_def Before_def Add_def failures_def
        numeral_3_eq_3)
qed

text \<open>
  However many requests arrive while a circuit is half-open, and whenever they arrive,
  exactly as many are admitted as there are free probe slots, until an outcome is recorded.
\<close>

theorem half_open_admits_free_slots:
  assumes "circuit_ok c" and "c_state c = StateHalfOpen"
  shows "int (length (filter id (fst (allow_burst ts c)))) =
     min (int (length ts)) (HalfOpenProbes (c_policy c) - c_halfOpenInFlight c)"
  using assms by (rule allow_burst_half_open)

theorem half_open_admits_free_slots_witness:
  "int (length (filter id (fst (allow_burst [utc_at 1, utc_at 2, utc_at 3]
     (new_circuit DefaultPolicy\<lparr>c_state := StateHalfOpen\<rparr>))))) = 1"
proof -
  have "circuit_ok (new_circuit DefaultPolicy\<lparr>c_state := StateHalfOpen\<rparr>)"
    "c_state (new_circuit DefaultPolicy\<lparr>c_state := StateHalfOpen\<rparr>) = StateHalfOpen"
    by (simp_all add: circuit_ok_def new_circuit_def DefaultPolicy_def policy_Validate_def)
  from half_open_admits_free_slots [OF this, of "[utc_at 1, utc_at 2, utc_at 3]"] show ?thesis
    by (simp add: new_circuit_def DefaultPolicy_def)
qed

end
