(* ===== verification/Aggregate_Contracts.thy ===== *)
theory Aggregate_Contracts
  imports Go_Prelude
begin

text \<open>
  The contracts that several aggregates of the program promise, stated once. A stored
  aggregate is changed by commands; a command either fails with an error or gives the next
  value of the aggregate. Three promises recur:
  \<^item> optimistic concurrency: a command names the version it was computed from and a
    successful command moves the version on by one (with the wrap-around of \<^verbatim>\<open>int64\<close>), so
    of two commands computed from the same version at most one can commit;
  \<^item> a workflow graph: a successful command either leaves the aggregate as it was (an
    idempotent replay) or follows an edge of the graph, and final phases have no edges out;
  \<^item> simulation: a detailed step system implements an abstract one.
  The session, the check, the review case, the appeal, the deletion, the privacy request, the
  processing declaration and the API key interpret the first two, the provider dispatch the third.
\<close>

section \<open>Running a sequence of commands\<close>

fun run_all :: "('c \<Rightarrow> 's \<Rightarrow> 'e + 's) \<Rightarrow> 'c list \<Rightarrow> 's \<Rightarrow> 'e + 's" where
  "run_all step [] s = Inr s"
| "run_all step (c # cs) s = (case step c s of Inl e \<Rightarrow> Inl e | Inr s' \<Rightarrow> run_all step cs s')"

lemma run_all_append:
  "run_all step (cs @ ds) s =
     (case run_all step cs s of Inl e \<Rightarrow> Inl e | Inr s' \<Rightarrow> run_all step ds s')"
  by (induction cs arbitrary: s) (auto split: sum.splits)

lemma run_all_invariant:
  assumes "run_all step cs s = Inr s'" and "P s"
    and "\<And>c s s'. P s \<Longrightarrow> step c s = Inr s' \<Longrightarrow> P s'"
  shows "P s'"
  using assms(1,2)
  by (induction cs arbitrary: s) (auto split: sum.splits intro: assms(3))

lemma wrap_mod: "((x + h) mod m - h) mod m = x mod m" for x h m :: int
  by (simp add: mod_diff_left_eq)

lemma i64_mod: "i64 x mod 18446744073709551616 = x mod 18446744073709551616"
  unfolding i64_def by (rule wrap_mod)

lemma i64_idem: "i64 (i64 x + y) = i64 (x + y)"
proof -
  have "(i64 x + (y + 9223372036854775808)) mod 18446744073709551616
      = (x + (y + 9223372036854775808)) mod 18446744073709551616"
    by (rule mod_add_cong [OF i64_mod refl])
  then show ?thesis by (simp only: i64_def [of "i64 x + y"] i64_def [of "x + y"] add.assoc)
qed

lemma i64_succ_neq: "i64 (v + 1) \<noteq> v"
proof
  assume "i64 (v + 1) = v"
  then have "(v + 1) mod 18446744073709551616 = v mod 18446744073709551616"
    using i64_mod [of "v + 1"] by simp
  then have "18446744073709551616 dvd (v + 1) - v"
    by (simp only: mod_eq_dvd_iff)
  then show False by simp
qed

section \<open>Optimistic concurrency\<close>

locale optimistic_aggregate =
  fixes step :: "'c \<Rightarrow> 's \<Rightarrow> 'e + 's"
    and version :: "'s \<Rightarrow> int"
    and expected :: "'c \<Rightarrow> int"
  assumes step_expected: "step c s = Inr s' \<Longrightarrow> expected c = version s"
    and step_version: "step c s = Inr s' \<Longrightarrow> version s' = i64 (version s + 1)"
begin

lemma stale_rejected: "expected c \<noteq> version s \<Longrightarrow> \<exists>e. step c s = Inl e"
  by (cases "step c s") (auto dest: step_expected)

lemma no_lost_update:
  assumes "step c s = Inr s'" and "expected d = expected c"
  shows "\<exists>e. step d s' = Inl e"
  using assms by (intro stale_rejected) (simp add: step_expected step_version i64_succ_neq [symmetric])

lemma run_version:
  assumes "run_all step cs s = Inr s'" and "int64_min \<le> version s" and "version s \<le> int64_max"
  shows "version s' = i64 (version s + int (length cs))"
  using assms
proof (induction cs arbitrary: s)
  case Nil
  then show ?case by simp
next
  case (Cons c cs)
  then obtain t where t: "step c s = Inr t" "run_all step cs t = Inr s'"
    by (auto split: sum.splits)
  have "version t = i64 (version s + 1)"
    using t(1) by (rule step_version)
  moreover from this have "version s' = i64 (version t + int (length cs))"
    using Cons.IH [OF t(2)] i64_range by simp
  ultimately show ?case
    by (simp only: i64_idem add.assoc length_Cons of_nat_Suc)
qed

end

section \<open>Workflow graphs\<close>

locale phased_workflow =
  fixes step :: "'c \<Rightarrow> 's \<Rightarrow> 'e + 's"
    and phase :: "'s \<Rightarrow> 'p"
    and edge :: "'p \<Rightarrow> 'p \<Rightarrow> bool"
    and final :: "'p \<Rightarrow> bool"
  assumes step_edge: "step c s = Inr s' \<Longrightarrow> s' = s \<or> edge (phase s) (phase s')"
    and final_no_edge: "final p \<Longrightarrow> \<not> edge p q"
begin

lemma final_absorbing: "final (phase s) \<Longrightarrow> step c s = Inr s' \<Longrightarrow> s' = s"
  using step_edge final_no_edge by blast

lemma run_final: "final (phase s) \<Longrightarrow> run_all step cs s = Inr s' \<Longrightarrow> s' = s"
  by (induction cs arbitrary: s) (auto split: sum.splits dest: final_absorbing)

lemma run_path: "run_all step cs s = Inr s' \<Longrightarrow> edge\<^sup>*\<^sup>* (phase s) (phase s')"
proof (induction cs arbitrary: s)
  case Nil
  then show ?case by simp
next
  case (Cons c cs)
  then obtain t where t: "step c s = Inr t" "run_all step cs t = Inr s'"
    by (auto split: sum.splits)
  from step_edge [OF t(1)] have "edge\<^sup>*\<^sup>* (phase s) (phase t)"
    by auto
  with Cons.IH [OF t(2)] show ?case
    by (rule rtranclp_trans [rotated])
qed

end

section \<open>Simulation\<close>

text \<open>
  A detailed system implements an abstract one when every step, seen through the abstraction, is
  a step of the abstract system; then every run is, and what the abstract system preserves the
  detailed one does.
\<close>

locale simulation =
  fixes cstep :: "'s \<Rightarrow> 's \<Rightarrow> bool"
    and astep :: "'a \<Rightarrow> 'a \<Rightarrow> bool"
    and abstraction :: "'s \<Rightarrow> 'a"
  assumes simulates: "cstep s t \<Longrightarrow> astep (abstraction s) (abstraction t)"
begin

lemma run_simulates: "cstep\<^sup>*\<^sup>* s t \<Longrightarrow> astep\<^sup>*\<^sup>* (abstraction s) (abstraction t)"
  by (induction rule: rtranclp_induct) (auto intro: rtranclp.rtrancl_into_rtrancl simulates)

lemma run_preserves:
  assumes "cstep\<^sup>*\<^sup>* s t" and "P (abstraction s)" and "\<And>a b. P a \<Longrightarrow> astep a b \<Longrightarrow> P b"
  shows "P (abstraction t)"
  using assms(1,2) by (induction rule: rtranclp_induct) (auto intro: assms(3) simulates)

end

end
