(* ===== verification/Identifiers.thy ===== *)
theory Identifiers
  imports Go_Prelude
begin

text \<open>
  \<^verbatim>\<open>internal/platform/id/id.go\<close>: opaque prefixed identifiers. The ULID package is not part
  of the repository: \<^verbatim>\<open>ulid.ParseStrict\<close>, \<^verbatim>\<open>ULID.String\<close> and the result of \<^verbatim>\<open>ulid.New\<close>
  are arguments. The 48 resource types are one datatype; every \<^verbatim>\<open>New*\<close> and \<^verbatim>\<open>Parse*\<close>
  function of the file is the same code at another prefix constant.

  The other theories write an identifier as its public string, the zero value as the empty
  string: \<open>ident_String_injective\<close> and \<open>ident_String_zero\<close> show that nothing is lost.
\<close>

datatype ident_error = PrefixLength | PrefixCharacter | PrefixMismatch | UlidInvalid | UlidUnavailable

definition prefixLength :: nat where
  "prefixLength = 3"

definition NewPrefix :: "string \<Rightarrow> ident_error + string" where
  "NewPrefix v =
     (if length v \<noteq> prefixLength then Inl PrefixLength
      else if \<not> list_all is_lower v then Inl PrefixCharacter
      else Inr v)"

record 'u ident_value =
  iv_prefix :: string
  iv_ulid :: 'u

text \<open>\<^verbatim>\<open>Parse\<close>; \<open>up\<close> is \<^verbatim>\<open>ulid.ParseStrict\<close>.\<close>

definition ident_Parse :: "(string \<Rightarrow> 'u option) \<Rightarrow> string \<Rightarrow> string \<Rightarrow> ident_error + 'u ident_value" where
  "ident_Parse up p encoded =
     (case NewPrefix p of Inl e \<Rightarrow> Inl e
      | Inr _ \<Rightarrow>
         (let want = p @ ''_'' in
          if take (length want) encoded \<noteq> want then Inl PrefixMismatch
          else case up (drop (length want) encoded) of
                 None \<Rightarrow> Inl UlidInvalid
               | Some u \<Rightarrow> Inr \<lparr>iv_prefix = p, iv_ulid = u\<rparr>))"

text \<open>\<^verbatim>\<open>String\<close>; \<open>us\<close> is \<^verbatim>\<open>ULID.String\<close>.\<close>

definition ident_String :: "('u \<Rightarrow> string) \<Rightarrow> 'u ident_value \<Rightarrow> string" where
  "ident_String us v = (if iv_prefix v = [] then [] else iv_prefix v @ ''_'' @ us (iv_ulid v))"

definition ident_IsZero :: "'u ident_value \<Rightarrow> bool" where
  "ident_IsZero v \<longleftrightarrow> iv_prefix v = []"

text \<open>\<^verbatim>\<open>Generator.New\<close>; \<open>generated\<close> is what \<^verbatim>\<open>ulid.New\<close> returned.\<close>

definition ident_New :: "'u option \<Rightarrow> string \<Rightarrow> ident_error + 'u ident_value" where
  "ident_New generated p =
     (case NewPrefix p of Inl e \<Rightarrow> Inl e
      | Inr _ \<Rightarrow> (case generated of None \<Rightarrow> Inl UlidUnavailable
                  | Some u \<Rightarrow> Inr \<lparr>iv_prefix = p, iv_ulid = u\<rparr>))"

section \<open>Resource types\<close>

datatype (plugins only: size) resource =
    R_Request | R_Tenant | R_APIKey | R_Profile | R_Verification | R_Evidence | R_Upload |
    R_CaptureToken | R_OutcomeToken | R_Event | R_Authority | R_Notice | R_Subject |
    R_Acknowledgement | R_Grant | R_Redemption | R_Connection | R_Message | R_Command |
    R_Challenge | R_WebSocketTicket | R_Task | R_Provider | R_ProviderRegistration |
    R_Model | R_Attempt | R_Check | R_Observation | R_Policy | R_Decision |
    R_WebhookEndpoint | R_Delivery | R_Deletion | R_LegalHold | R_ReviewCase | R_Finding |
    R_ProviderCallback | R_InputRequest | R_Proposal | R_AcceptedCommand | R_Prompt |
    R_Appeal | R_PrivacyRequest | R_PrivacyDecision | R_PrivacyRestriction |
    R_PrivacyDisclosure | R_Processor | R_Experience

fun resource_prefix :: "resource \<Rightarrow> string" where
  "resource_prefix R_Request = ''req''"
| "resource_prefix R_Tenant = ''ten''"
| "resource_prefix R_APIKey = ''key''"
| "resource_prefix R_Profile = ''prf''"
| "resource_prefix R_Verification = ''ver''"
| "resource_prefix R_Evidence = ''evd''"
| "resource_prefix R_Upload = ''upl''"
| "resource_prefix R_CaptureToken = ''ctk''"
| "resource_prefix R_OutcomeToken = ''otk''"
| "resource_prefix R_Event = ''evt''"
| "resource_prefix R_Authority = ''aut''"
| "resource_prefix R_Notice = ''ntc''"
| "resource_prefix R_Subject = ''sub''"
| "resource_prefix R_Acknowledgement = ''ack''"
| "resource_prefix R_Grant = ''grt''"
| "resource_prefix R_Redemption = ''rdm''"
| "resource_prefix R_Connection = ''con''"
| "resource_prefix R_Message = ''msg''"
| "resource_prefix R_Command = ''cmd''"
| "resource_prefix R_Challenge = ''chl''"
| "resource_prefix R_WebSocketTicket = ''wst''"
| "resource_prefix R_Task = ''tsk''"
| "resource_prefix R_Provider = ''pvd''"
| "resource_prefix R_ProviderRegistration = ''pvr''"
| "resource_prefix R_Model = ''mdl''"
| "resource_prefix R_Attempt = ''atm''"
| "resource_prefix R_Check = ''chk''"
| "resource_prefix R_Observation = ''obs''"
| "resource_prefix R_Policy = ''pol''"
| "resource_prefix R_Decision = ''dec''"
| "resource_prefix R_WebhookEndpoint = ''whk''"
| "resource_prefix R_Delivery = ''dlv''"
| "resource_prefix R_Deletion = ''del''"
| "resource_prefix R_LegalHold = ''hld''"
| "resource_prefix R_ReviewCase = ''rvc''"
| "resource_prefix R_Finding = ''fnd''"
| "resource_prefix R_ProviderCallback = ''pcb''"
| "resource_prefix R_InputRequest = ''inp''"
| "resource_prefix R_Proposal = ''prp''"
| "resource_prefix R_AcceptedCommand = ''acc''"
| "resource_prefix R_Prompt = ''prm''"
| "resource_prefix R_Appeal = ''apl''"
| "resource_prefix R_PrivacyRequest = ''prq''"
| "resource_prefix R_PrivacyDecision = ''prd''"
| "resource_prefix R_PrivacyRestriction = ''prs''"
| "resource_prefix R_PrivacyDisclosure = ''pdc''"
| "resource_prefix R_Processor = ''prc''"
| "resource_prefix R_Experience = ''exp''"

definition ParseResource :: "(string \<Rightarrow> 'u option) \<Rightarrow> resource \<Rightarrow> string \<Rightarrow> ident_error + 'u ident_value" where
  "ParseResource up r encoded = ident_Parse up (resource_prefix r) encoded"

definition NewResource :: "'u option \<Rightarrow> resource \<Rightarrow> ident_error + 'u ident_value" where
  "NewResource generated r = ident_New generated (resource_prefix r)"

text \<open>An identifier read into its public form; \<open>canon\<close> is \<^verbatim>\<open>ulid.ParseStrict\<close> followed by \<^verbatim>\<open>String\<close>.\<close>

definition ParsePublic :: "(string \<Rightarrow> string option) \<Rightarrow> resource \<Rightarrow> string \<Rightarrow> ident_error + string" where
  "ParsePublic canon r s =
     (case ParseResource canon r s of Inl e \<Rightarrow> Inl e | Inr v \<Rightarrow> Inr (ident_String (\<lambda>u. u) v))"

section \<open>Lemmas\<close>

definition all_resources :: "resource list" where
  "all_resources =
    [R_Request, R_Tenant, R_APIKey, R_Profile, R_Verification, R_Evidence, R_Upload,
     R_CaptureToken, R_OutcomeToken, R_Event, R_Authority, R_Notice, R_Subject,
     R_Acknowledgement, R_Grant, R_Redemption, R_Connection, R_Message, R_Command,
     R_Challenge, R_WebSocketTicket, R_Task, R_Provider, R_ProviderRegistration, R_Model,
     R_Attempt, R_Check, R_Observation, R_Policy, R_Decision, R_WebhookEndpoint,
     R_Delivery, R_Deletion, R_LegalHold, R_ReviewCase, R_Finding, R_ProviderCallback,
     R_InputRequest, R_Proposal, R_AcceptedCommand, R_Prompt, R_Appeal, R_PrivacyRequest,
     R_PrivacyDecision, R_PrivacyRestriction, R_PrivacyDisclosure, R_Processor,
     R_Experience]"

lemma NewPrefix_Inr: "NewPrefix p = Inr q \<longleftrightarrow> q = p \<and> length p = 3 \<and> list_all is_lower p"
  by (auto simp: NewPrefix_def prefixLength_def)

lemma NewPrefix_resource: "NewPrefix (resource_prefix r) = Inr (resource_prefix r)"
  by (cases r) (simp_all add: NewPrefix_def prefixLength_def is_lower_def)

lemma resource_prefix_left_inverse:
  "map_of (map (\<lambda>r. (resource_prefix r, r)) all_resources) (resource_prefix r) = Some r"
  by (cases r) (simp_all add: all_resources_def)

lemma resource_prefix_inj: "resource_prefix r = resource_prefix r' \<longleftrightarrow> r = r'"
  by (metis option.inject resource_prefix_left_inverse)

lemma ident_Parse_Inr:
  "ident_Parse up p s = Inr v \<longleftrightarrow>
     length p = 3 \<and> list_all is_lower p \<and>
     (\<exists>t u. s = p @ ''_'' @ t \<and> up t = Some u \<and> v = \<lparr>iv_prefix = p, iv_ulid = u\<rparr>)"
proof -
  have split: "take 4 s = p @ ''_'' \<longleftrightarrow> (\<exists>t. s = p @ ''_'' @ t)" if "length p = 3"
  proof
    assume "take 4 s = p @ ''_''"
    then have "s = p @ ''_'' @ drop 4 s"
      by (metis append.assoc append_take_drop_id)
    then show "\<exists>t. s = p @ ''_'' @ t" ..
  qed (use that in auto)
  show ?thesis
  proof (cases "length p = 3 \<and> list_all is_lower p")
    case True
    then show ?thesis
      using split by (auto simp: ident_Parse_def NewPrefix_def prefixLength_def Let_def
          split: option.splits)
  qed (auto simp: ident_Parse_def NewPrefix_def prefixLength_def)
qed

lemma ident_String_zero: "ident_String us v = [] \<longleftrightarrow> ident_IsZero v"
  by (simp add: ident_String_def ident_IsZero_def)

lemma ident_String_injective:
  assumes "inj us" and "NewPrefix (iv_prefix v) = Inr p" and "NewPrefix (iv_prefix w) = Inr q"
    and "ident_String us v = ident_String us w"
  shows "v = w"
proof -
  have l: "length (iv_prefix v) = 3" "length (iv_prefix w) = 3"
    using assms(2,3) by (simp_all add: NewPrefix_Inr)
  then have "iv_prefix v @ ''_'' @ us (iv_ulid v) = iv_prefix w @ ''_'' @ us (iv_ulid w)"
    using assms(4) by (auto simp: ident_String_def split: if_splits)
  then have "iv_prefix v = iv_prefix w \<and> us (iv_ulid v) = us (iv_ulid w)"
    using l by (simp add: append_eq_append_conv)
  with assms(1) show ?thesis
    by (cases v, cases w) (auto dest: injD)
qed

lemma ParsePublic_text:
  assumes "canon u = Some u"
  shows "ParsePublic canon r (resource_prefix r @ ''_'' @ u) = Inr (resource_prefix r @ ''_'' @ u)"
proof -
  have p: "length (resource_prefix r) = 3" "list_all is_lower (resource_prefix r)"
    using NewPrefix_resource [of r] by (simp_all add: NewPrefix_Inr)
  then have "ParseResource canon r (resource_prefix r @ ''_'' @ u) = Inr \<lparr>iv_prefix = resource_prefix r, iv_ulid = u\<rparr>"
    using assms by (auto simp: ParseResource_def ident_Parse_Inr)
  with p show ?thesis by (auto simp: ParsePublic_def ident_String_def)
qed

section \<open>Properties\<close>

text \<open>
  Printing and parsing identifiers are inverse: for every resource type, the public form
  of a generated identifier parses back, under the parser of that resource type, to the same
  identifier, provided the ULID package parses what it prints.
\<close>

theorem ident_roundtrip:
  assumes "\<And>u. up (us u) = Some u"
    and "NewResource generated r = Inr v"
  shows "ParseResource up r (ident_String us v) = Inr v \<and> \<not> ident_IsZero v"
proof -
  obtain u where v: "v = \<lparr>iv_prefix = resource_prefix r, iv_ulid = u\<rparr>"
    using assms(2) by (auto simp: NewResource_def ident_New_def split: sum.splits option.splits)
  have p: "length (resource_prefix r) = 3" "list_all is_lower (resource_prefix r)"
    using NewPrefix_resource [of r] by (simp_all add: NewPrefix_Inr)
  then have "resource_prefix r \<noteq> []" by auto
  then show ?thesis
    using p assms(1) by (auto simp: v ParseResource_def ident_Parse_Inr ident_String_def ident_IsZero_def)
qed

theorem ident_roundtrip_witness:
  "ParseResource (\<lambda>s. Some s) R_Tenant ''ten_01J'' = Inr \<lparr>iv_prefix = ''ten'', iv_ulid = ''01J''\<rparr>
   \<and> \<not> ident_IsZero \<lparr>iv_prefix = ''ten'', iv_ulid = ''01J''\<rparr>"
  using ident_roundtrip [of "\<lambda>s. Some s" "\<lambda>s. s" "Some ''01J''" R_Tenant
      "\<lparr>iv_prefix = ''ten'', iv_ulid = ''01J''\<rparr>"]
  by (simp add: NewResource_def ident_New_def NewPrefix_def prefixLength_def is_lower_def ident_String_def)

text \<open>
  Resource types cannot be confused: a string that parses as an identifier of two resource
  types shows that the types are the same, and the parsed identifiers are equal; whatever the
  ULID parser accepts.
\<close>

theorem ident_resource_unique:
  assumes "ParseResource up r s = Inr v" and "ParseResource up r' s = Inr v'"
  shows "r = r' \<and> v = v'"
proof -
  obtain t u t' u' where
    s: "s = resource_prefix r @ ''_'' @ t" "up t = Some u" "v = \<lparr>iv_prefix = resource_prefix r, iv_ulid = u\<rparr>"
    and s': "s = resource_prefix r' @ ''_'' @ t'" "up t' = Some u'"
      "v' = \<lparr>iv_prefix = resource_prefix r', iv_ulid = u'\<rparr>"
    and l: "length (resource_prefix r) = 3" "length (resource_prefix r') = 3"
    using assms by (auto simp: ParseResource_def ident_Parse_Inr)
  have "resource_prefix r = resource_prefix r' \<and> t = t'"
    using s(1) s'(1) l by (metis append_eq_append_conv same_append_eq)
  with s s' show ?thesis by (auto simp: resource_prefix_inj)
qed

theorem ident_resource_unique_witness:
  "ParseResource Some R_Task ''tsk_01J'' = Inr \<lparr>iv_prefix = ''tsk'', iv_ulid = ''01J''\<rparr> \<and>
   {r. \<exists>v. ParseResource Some r ''tsk_01J'' = Inr v} = {R_Task}"
proof -
  have p: "ParseResource Some R_Task ''tsk_01J'' = Inr \<lparr>iv_prefix = ''tsk'', iv_ulid = ''01J''\<rparr>"
    by (simp add: ParseResource_def ident_Parse_def NewPrefix_def prefixLength_def is_lower_def Let_def)
  then show ?thesis
    using ident_resource_unique [OF _ p] by blast
qed

end
