(* ===== verification/MRZ_Zone.thy ===== *)
theory MRZ_Zone
  imports Go_Prelude
begin

text \<open>
  \<^verbatim>\<open>internal/document/mrz/mrz.go\<close>: the parser of ICAO 9303 machine-readable zones (TD1, TD2,
  TD3): normalisation, layout detection, check digits, two-digit dates resolved at a
  reference time, and the bounded issue list that every helper threads through.

  Lines are byte strings. \<^verbatim>\<open>strings.ToUpper\<close> maps an ASCII line letter by letter; its
  Unicode case tables, used only on a line that is not ASCII, are the argument \<open>uc\<close>.
  The calendar of package \<^verbatim>\<open>time\<close> is the proleptic Gregorian one, written out. The name
  transliteration table (\<^verbatim>\<open>Transliterate\<close>) is not modelled.
\<close>

section \<open>Data\<close>

datatype mrz_format = TD1 | TD2 | TD3

datatype issue_code = IssueLengthInvalid | IssueCharacterInvalid | IssueCheckDigitInvalid
  | IssueCompositeInvalid | IssueDateAbsent | IssueDateInvalid | IssueDateUnresolved
  | IssueNameAbsent | IssueDocumentNumberAbsent | IssueCountryInvalid | IssueSexInvalid

datatype field_label = FieldZone | FieldDocumentNumber | FieldDateOfBirth | FieldDateOfExpiry
  | FieldPersonalNumber | FieldComposite | FieldIssuingState | FieldNationality | FieldSex | FieldName

type_synonym issue = "issue_code \<times> field_label"

type_synonym mrz_date = "go_time option"

record mrz_name =
  Primary :: string
  Secondary :: string

record zone =
  Format :: mrz_format
  DocumentCode :: string
  IssuingState :: string
  DocumentNumber :: string
  Nationality :: string
  Sex :: string
  PersonalNumber :: string
  DateOfBirth :: mrz_date
  DateOfExpiry :: mrz_date
  Name :: mrz_name
  Issues :: "issue list"

definition empty_zone :: "mrz_format \<Rightarrow> zone" where
  "empty_zone f = \<lparr>Format = f, DocumentCode = [], IssuingState = [], DocumentNumber = [],
     Nationality = [], Sex = [], PersonalNumber = [], DateOfBirth = None, DateOfExpiry = None,
     Name = \<lparr>Primary = [], Secondary = []\<rparr>, Issues = []\<rparr>"

definition zone_Valid :: "zone \<Rightarrow> bool" where
  "zone_Valid z \<longleftrightarrow> Issues z = []"

definition td1Length :: nat where "td1Length = 30"
definition td2Length :: nat where "td2Length = 36"
definition td3Length :: nat where "td3Length = 44"
definition maximumIssues :: nat where "maximumIssues = 32"
definition maximumAge :: int where "maximumAge = 120"

section \<open>Bounded issue list\<close>

definition appendIssue :: "issue list \<Rightarrow> issue \<Rightarrow> issue list" where
  "appendIssue is i = (if length is \<ge> maximumIssues then is
                       else if i \<in> set is then is else is @ [i])"

definition appendIssues :: "issue list \<Rightarrow> issue list \<Rightarrow> issue list" where
  "appendIssues is extra = foldl appendIssue is extra"

section \<open>Strings\<close>

text \<open>\<^verbatim>\<open>s[a:b]\<close>\<close>

definition slice :: "string \<Rightarrow> nat \<Rightarrow> nat \<Rightarrow> string" where
  "slice s a b = take (b - a) (drop a s)"

definition is_space :: "char \<Rightarrow> bool" where
  "is_space c \<longleftrightarrow> c = CHR '' '' \<or> CHR 0x09 \<le> c \<and> c \<le> CHR 0x0D"

definition trim_right :: "(char \<Rightarrow> bool) \<Rightarrow> string \<Rightarrow> string" where
  "trim_right p s = rev (dropWhile p (rev s))"

definition TrimSpace :: "string \<Rightarrow> string" where
  "TrimSpace s = trim_right is_space (dropWhile is_space s)"

definition ascii_upper :: "char \<Rightarrow> char" where
  "ascii_upper c = (if is_lower c then char_of (of_char c - 32 :: nat) else c)"

definition ToUpper :: "(string \<Rightarrow> string) \<Rightarrow> string \<Rightarrow> string" where
  "ToUpper uc s = (if list_all (\<lambda>c. (of_char c :: nat) < 128) s then map ascii_upper s else uc s)"

text \<open>\<^verbatim>\<open>strings.Fields\<close> on ASCII: the maximal runs of non-space bytes.\<close>

fun Fields_go :: "string \<Rightarrow> string \<Rightarrow> string list" where
  "Fields_go w [] = (if w = [] then [] else [w])"
| "Fields_go w (c # cs) =
     (if is_space c then (if w = [] then Fields_go [] cs else w # Fields_go [] cs)
      else Fields_go (w @ [c]) cs)"

fun join_space :: "string list \<Rightarrow> string" where
  "join_space [] = []"
| "join_space [w] = w"
| "join_space (w # ws) = w @ '' '' @ join_space ws"

text \<open>\<^verbatim>\<open>strings.Cut(raw, "<<")\<close>; None when the separator does not occur.\<close>

fun Cut_filler :: "string \<Rightarrow> (string \<times> string) option" where
  "Cut_filler (a # b # cs) =
     (if a = CHR ''<'' \<and> b = CHR ''<'' then Some ([], cs)
      else map_option (\<lambda>(x, y). (a # x, y)) (Cut_filler (b # cs)))"
| "Cut_filler _ = None"

definition validCharacter :: "char \<Rightarrow> bool" where
  "validCharacter c \<longleftrightarrow> c = CHR ''<'' \<or> is_digit c \<or> is_upper c"

definition letters :: "string \<Rightarrow> bool" where
  "letters s \<longleftrightarrow> list_all is_upper s"

text \<open>\<^verbatim>\<open>strings.Trim(value, "<") == ""\<close>\<close>

definition allFillers :: "string \<Rightarrow> bool" where
  "allFillers s \<longleftrightarrow>
     trim_right (\<lambda>c. c = CHR ''<'') (dropWhile (\<lambda>c. c = CHR ''<'') s) = []"

definition allDigits :: "string \<Rightarrow> bool" where
  "allDigits s \<longleftrightarrow> s \<noteq> [] \<and> list_all is_digit s"

definition cleanField :: "string \<Rightarrow> string" where
  "cleanField raw = TrimSpace (filter (\<lambda>c. c \<noteq> CHR ''<'') raw)"

definition cleanNamePart :: "string \<Rightarrow> string" where
  "cleanNamePart raw =
     join_space (Fields_go [] (map (\<lambda>c. if c = CHR ''<'' then CHR '' '' else c) raw))"

section \<open>Check digits\<close>

definition char_value :: "char \<Rightarrow> nat option" where
  "char_value c =
     (if c = CHR ''<'' then Some 0
      else if is_digit c then Some (of_char c - 48)
      else if is_upper c then Some (of_char c - 65 + 10)
      else None)"

definition weight :: "nat \<Rightarrow> nat" where
  "weight i = [7, 3, 1] ! (i mod 3)"

fun check_loop :: "nat \<Rightarrow> nat \<Rightarrow> string \<Rightarrow> nat option" where
  "check_loop i acc [] = Some acc"
| "check_loop i acc (c # cs) =
     (case char_value c of None \<Rightarrow> None
      | Some d \<Rightarrow> check_loop (Suc i) (acc + d * weight i) cs)"

definition CheckDigit :: "string \<Rightarrow> char option" where
  "CheckDigit s =
     (case check_loop 0 0 s of None \<Rightarrow> None
      | Some n \<Rightarrow> Some (char_of (48 + n mod 10)))"

definition verifyField :: "string \<Rightarrow> char \<Rightarrow> field_label \<Rightarrow> issue list \<Rightarrow> issue list" where
  "verifyField raw expected label is =
     (case CheckDigit raw of
        Some computed \<Rightarrow>
          (if expected = computed \<or> (allFillers raw \<and> expected = CHR ''<'') then is
           else appendIssue is (IssueCheckDigitInvalid, label))
      | None \<Rightarrow> appendIssue is (IssueCheckDigitInvalid, label))"

definition verifyComposite :: "string \<Rightarrow> char \<Rightarrow> issue list \<Rightarrow> issue list" where
  "verifyComposite raw expected is =
     (case CheckDigit raw of
        Some computed \<Rightarrow> (if expected = computed then is
                          else appendIssue is (IssueCompositeInvalid, FieldComposite))
      | None \<Rightarrow> appendIssue is (IssueCompositeInvalid, FieldComposite))"

section \<open>Calendar\<close>

definition leap :: "int \<Rightarrow> bool" where
  "leap y \<longleftrightarrow> y mod 4 = 0 \<and> (y mod 100 \<noteq> 0 \<or> y mod 400 = 0)"

text \<open>Days from January 1 of year 1 to January 1 of year \<open>y\<close>.\<close>

definition days_before_year :: "int \<Rightarrow> int" where
  "days_before_year y = (let p = y - 1 in 365 * p + p div 4 - p div 100 + p div 400)"

definition month_lengths :: "bool \<Rightarrow> int list" where
  "month_lengths lp = [31, if lp then 29 else 28, 31, 30, 31, 30, 31, 31, 30, 31, 30, 31]"

fun find_month :: "int list \<Rightarrow> int \<Rightarrow> int \<Rightarrow> int \<times> int" where
  "find_month [] m k = (m, k + 1)"
| "find_month (l # ls) m k = (if k < l then (m, k + 1) else find_month ls (m + 1) (k - l))"

definition year_of_days :: "int \<Rightarrow> int" where
  "year_of_days n =
     (let c = n div 146097; r = n mod 146097;
          b = min 3 (r div 36524); r1 = r - 36524 * b;
          d = r1 div 1461; r2 = r1 mod 1461;
          e = min 3 (r2 div 365)
      in 400 * c + 100 * b + 4 * d + e + 1)"

text \<open>Year, month and day of a day number.\<close>

definition civil :: "int \<Rightarrow> int \<times> int \<times> int" where
  "civil n = (let y = year_of_days n; k = n - days_before_year y;
                  (m, d) = find_month (month_lengths (leap y)) 1 k in (y, m, d))"

abbreviation day_ns :: int where
  "day_ns \<equiv> 86400000000000"

definition Year :: "go_time \<Rightarrow> int" where
  "Year t = fst (civil (t_ns t div day_ns))"

definition Month :: "go_time \<Rightarrow> int" where
  "Month t = fst (snd (civil (t_ns t div day_ns)))"

definition Day :: "go_time \<Rightarrow> int" where
  "Day t = snd (snd (civil (t_ns t div day_ns)))"

text \<open>
  \<^verbatim>\<open>time.Date(y, m, d, 0, 0, 0, 0, time.UTC)\<close> for a month in 1..12: a day beyond the end of
  the month runs on into the next month.
\<close>

definition time_Date :: "int \<Rightarrow> int \<Rightarrow> int \<Rightarrow> go_time" where
  "time_Date y m d =
     utc_at ((days_before_year y + sum_list (take (nat (m - 1)) (month_lengths (leap y))) + (d - 1)) * day_ns)"

section \<open>Dates of the zone\<close>

datatype dateKind = dateOfBirthKind | dateOfExpiryKind

text \<open>\<^verbatim>\<open>strconv.Atoi\<close> on a string of digits.\<close>

definition Atoi :: "string \<Rightarrow> int" where
  "Atoi s = foldl (\<lambda>n c. 10 * n + (of_char c - 48)) 0 s"

definition calendarValid :: "go_time \<Rightarrow> int \<Rightarrow> int \<Rightarrow> bool" where
  "calendarValid c m d \<longleftrightarrow> Month c = m \<and> Day c = d"

definition ageAt :: "go_time \<Rightarrow> go_time \<Rightarrow> int" where
  "ageAt birth now =
     (let years = Year now - Year birth in
      if Month now < Month birth \<or> (Month now = Month birth \<and> Day now < Day birth)
      then years - 1 else years)"

text \<open>The loop over the candidates that resolves a date of birth: the last admissible one.\<close>

definition resolve_birth :: "go_time \<Rightarrow> go_time list \<Rightarrow> go_time" where
  "resolve_birth ref cs =
     foldl (\<lambda>resolved c. if After c ref \<or> ageAt c ref > maximumAge then resolved else c) time_zero cs"

text \<open>The loop that resolves a date of expiry: the candidate nearest to the reference.\<close>

definition resolve_expiry :: "go_time \<Rightarrow> go_time list \<Rightarrow> go_time \<times> duration" where
  "resolve_expiry ref cs =
     foldl (\<lambda>(best, bestDistance) c.
        let distance = Sub ref c;
            distance = (if distance < 0 then i64 (- distance) else distance)
        in if distance < bestDistance then (c, distance) else (best, bestDistance))
       (time_zero, int64_max) cs"

definition resolve :: "string \<Rightarrow> dateKind \<Rightarrow> go_time \<Rightarrow> issue list \<Rightarrow> mrz_date \<times> issue list" where
  "resolve raw kind ref is =
     (let label = (if kind = dateOfExpiryKind then FieldDateOfExpiry else FieldDateOfBirth) in
      if allFillers raw then (None, appendIssue is (IssueDateAbsent, label))
      else if \<not> allDigits raw then (None, appendIssue is (IssueDateInvalid, label))
      else if IsZero ref then (None, appendIssue is (IssueDateUnresolved, label))
      else
        let year = Atoi (slice raw 0 2); month = Atoi (slice raw 2 4); day = Atoi (slice raw 4 6) in
        if month < 1 \<or> month > 12 \<or> day < 1 \<or> day > 31
        then (None, appendIssue is (IssueDateInvalid, label))
        else
          let candidates = filter (\<lambda>c. calendarValid c month day)
                [time_Date (1900 + year) month day, time_Date (2000 + year) month day] in
          if candidates = [] then (None, appendIssue is (IssueDateInvalid, label))
          else if kind = dateOfBirthKind then
            (let resolved = resolve_birth ref candidates in
             if IsZero resolved then (None, appendIssue is (IssueDateUnresolved, label))
             else (Some resolved, is))
          else
            (let (best, bestDistance) = resolve_expiry ref candidates in
             if IsZero best \<or> bestDistance > 100 * 365 * 24 * hour
             then (None, appendIssue is (IssueDateUnresolved, label))
             else (Some best, is)))"

section \<open>Other fields\<close>

definition parseName :: "string \<Rightarrow> issue list \<Rightarrow> mrz_name \<times> issue list" where
  "parseName raw is =
     (let (primary, secondary) = (case Cut_filler raw of Some ps \<Rightarrow> ps | None \<Rightarrow> (raw, []));
          name = \<lparr>Primary = cleanNamePart primary, Secondary = cleanNamePart secondary\<rparr> in
      if Primary name = [] \<and> Secondary name = []
      then (name, appendIssue is (IssueNameAbsent, FieldName)) else (name, is))"

definition parseSex :: "char \<Rightarrow> issue list \<Rightarrow> string \<times> issue list" where
  "parseSex raw is =
     (if raw = CHR ''M'' \<or> raw = CHR ''F'' then ([raw], is)
      else if raw = CHR ''<'' then ([], is)
      else ([], appendIssue is (IssueSexInvalid, FieldSex)))"

definition parseCountry :: "string \<Rightarrow> field_label \<Rightarrow> issue list \<Rightarrow> string \<times> issue list" where
  "parseCountry raw label is =
     (let v = cleanField raw in
      if v = [] then ([], is)
      else if length v > 3 \<or> \<not> letters v then ([], appendIssue is (IssueCountryInvalid, label))
      else (v, is))"

definition cleanDocumentNumber :: "string \<Rightarrow> issue list \<Rightarrow> string \<times> issue list" where
  "cleanDocumentNumber raw is =
     (let v = cleanField raw in
      (v, if v = [] then appendIssue is (IssueDocumentNumberAbsent, FieldDocumentNumber) else is))"

section \<open>Layouts\<close>

definition detectFormat :: "string list \<Rightarrow> mrz_format option" where
  "detectFormat ls =
     (if length ls = 3 \<and> length (ls ! 0) = td1Length \<and> length (ls ! 1) = td1Length \<and> length (ls ! 2) = td1Length
      then Some TD1
      else if length ls = 2 \<and> length (ls ! 0) = td2Length \<and> length (ls ! 1) = td2Length then Some TD2
      else if length ls = 2 \<and> length (ls ! 0) = td3Length \<and> length (ls ! 1) = td3Length then Some TD3
      else None)"

fun clean_bytes :: "string \<Rightarrow> issue list \<Rightarrow> string \<times> issue list" where
  "clean_bytes [] is = ([], is)"
| "clean_bytes (c # cs) is =
     (if validCharacter c then (let (s, is') = clean_bytes cs is in (c # s, is'))
      else (let (s, is') = clean_bytes cs (appendIssue is (IssueCharacterInvalid, FieldZone))
            in (CHR ''<'' # s, is')))"

fun normalise_loop :: "(string \<Rightarrow> string) \<Rightarrow> string list \<Rightarrow> issue list \<Rightarrow> string list \<times> issue list" where
  "normalise_loop uc [] is = ([], is)"
| "normalise_loop uc (l # ls) is =
     (let (s, is1) = clean_bytes (ToUpper uc (trim_right (\<lambda>c. c = CHR '' '' \<or> c = CHR 0x09) l)) is;
          (ss, is2) = normalise_loop uc ls is1 in (s # ss, is2))"

definition normaliseLines :: "(string \<Rightarrow> string) \<Rightarrow> string list \<Rightarrow> string list \<times> issue list" where
  "normaliseLines uc ls = normalise_loop uc ls []"

definition parseTD1 :: "zone \<Rightarrow> string list \<Rightarrow> go_time \<Rightarrow> issue list \<Rightarrow> zone \<times> issue list" where
  "parseTD1 z ls ref is =
     (let line1 = ls ! 0; line2 = ls ! 1;
          code = cleanField (slice line1 0 2);
          (state, is) = parseCountry (slice line1 2 5) FieldIssuingState is;
          documentNumber = slice line1 5 14;
          is = verifyField documentNumber (line1 ! 14) FieldDocumentNumber is;
          (number, is) = cleanDocumentNumber documentNumber is;
          dateOfBirth = slice line2 0 6;
          is = verifyField dateOfBirth (line2 ! 6) FieldDateOfBirth is;
          (birth, is) = resolve dateOfBirth dateOfBirthKind ref is;
          (sex, is) = parseSex (line2 ! 7) is;
          dateOfExpiry = slice line2 8 14;
          is = verifyField dateOfExpiry (line2 ! 14) FieldDateOfExpiry is;
          (expiry, is) = resolve dateOfExpiry dateOfExpiryKind ref is;
          (nationality, is) = parseCountry (slice line2 15 18) FieldNationality is;
          composite = slice line1 5 30 @ slice line2 0 7 @ slice line2 8 15 @ slice line2 18 29;
          is = verifyComposite composite (line2 ! 29) is;
          (name, is) = parseName (ls ! 2) is
      in (z\<lparr>DocumentCode := code, IssuingState := state, DocumentNumber := number,
            DateOfBirth := birth, Sex := sex, DateOfExpiry := expiry, Nationality := nationality,
            Name := name\<rparr>, is))"

definition parseTD2 :: "zone \<Rightarrow> string list \<Rightarrow> go_time \<Rightarrow> issue list \<Rightarrow> zone \<times> issue list" where
  "parseTD2 z ls ref is =
     (let line1 = ls ! 0; line2 = ls ! 1;
          code = cleanField (slice line1 0 2);
          (state, is) = parseCountry (slice line1 2 5) FieldIssuingState is;
          documentNumber = slice line2 0 9;
          is = verifyField documentNumber (line2 ! 9) FieldDocumentNumber is;
          (number, is) = cleanDocumentNumber documentNumber is;
          (nationality, is) = parseCountry (slice line2 10 13) FieldNationality is;
          dateOfBirth = slice line2 13 19;
          is = verifyField dateOfBirth (line2 ! 19) FieldDateOfBirth is;
          (birth, is) = resolve dateOfBirth dateOfBirthKind ref is;
          (sex, is) = parseSex (line2 ! 20) is;
          dateOfExpiry = slice line2 21 27;
          is = verifyField dateOfExpiry (line2 ! 27) FieldDateOfExpiry is;
          (expiry, is) = resolve dateOfExpiry dateOfExpiryKind ref is;
          composite = slice line2 0 10 @ slice line2 13 20 @ slice line2 21 28 @ slice line2 28 35;
          is = verifyComposite composite (line2 ! 35) is;
          (name, is) = parseName (slice line1 5 36) is
      in (z\<lparr>DocumentCode := code, IssuingState := state, DocumentNumber := number,
            DateOfBirth := birth, Sex := sex, DateOfExpiry := expiry, Nationality := nationality,
            Name := name\<rparr>, is))"

definition parseTD3 :: "zone \<Rightarrow> string list \<Rightarrow> go_time \<Rightarrow> issue list \<Rightarrow> zone \<times> issue list" where
  "parseTD3 z ls ref is =
     (let line1 = ls ! 0; line2 = ls ! 1;
          code = cleanField (slice line1 0 2);
          (state, is) = parseCountry (slice line1 2 5) FieldIssuingState is;
          documentNumber = slice line2 0 9;
          is = verifyField documentNumber (line2 ! 9) FieldDocumentNumber is;
          (number, is) = cleanDocumentNumber documentNumber is;
          (nationality, is) = parseCountry (slice line2 10 13) FieldNationality is;
          dateOfBirth = slice line2 13 19;
          is = verifyField dateOfBirth (line2 ! 19) FieldDateOfBirth is;
          (birth, is) = resolve dateOfBirth dateOfBirthKind ref is;
          (sex, is) = parseSex (line2 ! 20) is;
          dateOfExpiry = slice line2 21 27;
          is = verifyField dateOfExpiry (line2 ! 27) FieldDateOfExpiry is;
          (expiry, is) = resolve dateOfExpiry dateOfExpiryKind ref is;
          personalNumber = slice line2 28 42;
          is = verifyField personalNumber (line2 ! 42) FieldPersonalNumber is;
          composite = slice line2 0 10 @ slice line2 13 20 @ slice line2 21 28 @ slice line2 28 43;
          is = verifyComposite composite (line2 ! 43) is;
          (name, is) = parseName (slice line1 5 44) is
      in (z\<lparr>DocumentCode := code, IssuingState := state, DocumentNumber := number,
            DateOfBirth := birth, Sex := sex, DateOfExpiry := expiry, Nationality := nationality,
            PersonalNumber := cleanField personalNumber, Name := name\<rparr>, is))"

text \<open>\<^verbatim>\<open>Parse\<close>; \<open>Inl\<close> carries the issues returned beside \<^verbatim>\<open>ErrUnparsable\<close>.\<close>

definition mrz_Parse :: "(string \<Rightarrow> string) \<Rightarrow> string list \<Rightarrow> go_time \<Rightarrow> issue list + zone" where
  "mrz_Parse uc ls reference =
     (let (normalised, nissues) = normaliseLines uc ls in
      case detectFormat normalised of
        None \<Rightarrow> Inl (appendIssues [(IssueLengthInvalid, FieldZone)] nissues)
      | Some f \<Rightarrow>
         (let is = appendIssues [] nissues; ref = to_UTC reference; z = empty_zone f;
              (z, is) = (case f of TD1 \<Rightarrow> parseTD1 z normalised ref is
                         | TD2 \<Rightarrow> parseTD2 z normalised ref is
                         | TD3 \<Rightarrow> parseTD3 z normalised ref is)
          in Inr (z\<lparr>Issues := is\<rparr>)))"

text \<open>The issue list that \<^verbatim>\<open>Parse\<close> returns beside the zone or the error.\<close>

definition mrz_issues :: "issue list + zone \<Rightarrow> issue list" where
  "mrz_issues r = (case r of Inl is \<Rightarrow> is | Inr z \<Rightarrow> Issues z)"

section \<open>Check digit lemmas\<close>

definition mrz_value :: "char \<Rightarrow> nat" where
  "mrz_value c = (case char_value c of Some d \<Rightarrow> d | None \<Rightarrow> 0)"

fun weighted_sum :: "nat \<Rightarrow> string \<Rightarrow> nat" where
  "weighted_sum i [] = 0"
| "weighted_sum i (c # cs) = mrz_value c * weight i + weighted_sum (Suc i) cs"

lemma char_value_valid: "char_value c = None \<longleftrightarrow> \<not> validCharacter c"
  by (simp add: char_value_def validCharacter_def)

lemma check_loop_eq:
  "check_loop i acc s = (if list_all validCharacter s then Some (acc + weighted_sum i s) else None)"
  by (induction s arbitrary: i acc)
     (auto simp: mrz_value_def char_value_valid [symmetric] split: option.splits)

lemma weighted_sum_append:
  "weighted_sum i (xs @ ys) = weighted_sum i xs + weighted_sum (i + length xs) ys"
  by (induction xs arbitrary: i) auto

lemma digit_char_inj:
  "(char_of (48 + a mod 10) :: char) = char_of (48 + b mod 10) \<longleftrightarrow> a mod 10 = b mod 10" for a b :: nat
proof
  assume "(char_of (48 + a mod 10) :: char) = char_of (48 + b mod 10)"
  then have "(48 + a mod 10) mod 256 = (48 + b mod 10) mod 256"
    by (metis of_char_of)
  moreover have "a mod 10 < 10" "b mod 10 < 10" by simp_all
  ultimately show "a mod 10 = b mod 10" by simp
qed simp

lemma CheckDigit_eq:
  "CheckDigit s = (if list_all validCharacter s then Some (char_of (48 + weighted_sum 0 s mod 10)) else None)"
  by (simp add: CheckDigit_def check_loop_eq)

lemma weight_cases: "weight i = 7 \<and> weight (Suc i) = 3 \<or> weight i = 3 \<and> weight (Suc i) = 1
   \<or> weight i = 1 \<and> weight (Suc i) = 7"
proof -
  have "i mod 3 = 0 \<and> Suc i mod 3 = 1 \<or> i mod 3 = 1 \<and> Suc i mod 3 = 2 \<or> i mod 3 = 2 \<and> Suc i mod 3 = 0"
    by presburger
  then show ?thesis by (auto simp: weight_def)
qed

lemma nat_mod_eq_iff: "a mod n = b mod n \<longleftrightarrow> int n dvd int a - int b" for a b n :: nat
  by (metis mod_eq_dvd_iff of_nat_eq_iff of_nat_mod)

lemma mod_10_iff: "a mod 10 = b mod 10 \<longleftrightarrow> 10 dvd int a - int b" for a b :: nat
  using nat_mod_eq_iff [of a 10 b] by simp

lemma mod_5_iff: "a mod 5 = b mod 5 \<longleftrightarrow> 5 dvd int a - int b" for a b :: nat
  using nat_mod_eq_iff [of a 5 b] by simp

lemma weight_coprime:
  "(s + a * weight i + t) mod 10 = (s + b * weight i + t) mod 10 \<longleftrightarrow> a mod 10 = b mod 10" for a b :: nat
proof -
  let ?w = "int (weight i)"
  have "10 dvd ?w * d \<longleftrightarrow> 10 dvd d" for d :: int
    using weight_cases [of i] by (elim disjE) (simp; presburger)+
  moreover have "int (s + a * weight i + t) - int (s + b * weight i + t) = ?w * (int a - int b)"
    by (simp add: algebra_simps)
  ultimately show ?thesis by (simp only: mod_10_iff)
qed

lemma weight_difference:
  "(s + (a * weight i + b * weight (Suc i)) + t) mod 10 = (s + (b * weight i + a * weight (Suc i)) + t) mod 10
   \<longleftrightarrow> a mod 5 = b mod 5" for a b :: nat
proof -
  let ?w = "int (weight i) - int (weight (Suc i))"
  have "10 dvd ?w * d \<longleftrightarrow> 5 dvd d" for d :: int
    using weight_cases [of i] by (elim disjE) (simp; presburger)+
  moreover have "int (s + (a * weight i + b * weight (Suc i)) + t)
      - int (s + (b * weight i + a * weight (Suc i)) + t) = ?w * (int a - int b)"
    by (simp add: algebra_simps)
  ultimately show ?thesis by (simp only: mod_10_iff mod_5_iff)
qed

section \<open>Calendar lemmas\<close>

definition month_length :: "int \<Rightarrow> int \<Rightarrow> int" where
  "month_length y m = month_lengths (leap y) ! nat (m - 1)"

lemma year_split:
  obtains a b c e :: int where "y - 1 = 400 * a + 100 * b + 4 * c + e" and "0 \<le> b" "b \<le> 3"
    and "0 \<le> c" "c \<le> 24" and "0 \<le> e" "e \<le> 3"
proof -
  define q where "q = (y - 1) mod 400"
  define r where "r = q mod 100"
  have q: "y - 1 = 400 * ((y - 1) div 400) + q" "0 \<le> q" "q < 400"
    unfolding q_def by simp_all
  have r: "q = 100 * (q div 100) + r" "0 \<le> r" "r < 100"
    unfolding r_def by simp_all
  have e: "r = 4 * (r div 4) + r mod 4" "0 \<le> r mod 4" "r mod 4 < 4"
    by simp_all
  show thesis
  proof (rule that [of "(y - 1) div 400" "q div 100" "r div 4" "r mod 4"])
    show "y - 1 = 400 * ((y - 1) div 400) + 100 * (q div 100) + 4 * (r div 4) + r mod 4"
      using q(1) r(1) e(1) by linarith
  qed (use q r e in linarith)+
qed

lemma mod_top: "0 < x \<Longrightarrow> x \<le> m \<Longrightarrow> x mod m = 0 \<longleftrightarrow> x = m" for x m :: int
  by (cases "x = m") (simp_all add: mod_pos_pos_trivial)

lemma days_before_year_split:
  assumes "y - 1 = 400 * a + 100 * b + 4 * c + e" and "0 \<le> b" "b \<le> 3" "0 \<le> c" "c \<le> 24" "0 \<le> e" "e \<le> 3"
  shows "days_before_year y = 146097 * a + 36524 * b + 1461 * c + 365 * e"
    and "leap y \<longleftrightarrow> e = 3 \<and> (c \<noteq> 24 \<or> b = 3)"
proof -
  have p: "y - 1 = e + (100 * a + 25 * b + c) * 4" "y - 1 = (4 * c + e) + (4 * a + b) * 100"
    "y - 1 = (100 * b + 4 * c + e) + a * 400"
    using assms(1) by simp_all
  have "(y - 1) div 4 = 100 * a + 25 * b + c"
    unfolding p(1) using assms by (simp add: div_pos_pos_trivial)
  moreover have "(y - 1) div 100 = 4 * a + b"
    unfolding p(2) using assms by (simp add: div_pos_pos_trivial)
  moreover have "(y - 1) div 400 = a"
    unfolding p(3) using assms by (simp add: div_pos_pos_trivial)
  ultimately show "days_before_year y = 146097 * a + 36524 * b + 1461 * c + 365 * e"
    using assms(1) by (simp add: days_before_year_def)
  have y: "y = (e + 1) + (100 * a + 25 * b + c) * 4" "y = (4 * c + e + 1) + (4 * a + b) * 100"
    "y = (100 * b + 4 * c + e + 1) + a * 400"
    using assms(1) by simp_all
  have "y mod 4 = (e + 1) mod 4" "y mod 100 = (4 * c + e + 1) mod 100"
    "y mod 400 = (100 * b + 4 * c + e + 1) mod 400"
    by (subst y(1), rule mod_mult_self1) (subst y(2), rule mod_mult_self1, subst y(3), rule mod_mult_self1)
  moreover have "(e + 1) mod 4 = 0 \<longleftrightarrow> e + 1 = 4" "(4 * c + e + 1) mod 100 = 0 \<longleftrightarrow> 4 * c + e + 1 = 100"
    "(100 * b + 4 * c + e + 1) mod 400 = 0 \<longleftrightarrow> 100 * b + 4 * c + e + 1 = 400"
    using assms by (intro mod_top; linarith)+
  ultimately have "leap y \<longleftrightarrow> e + 1 = 4 \<and> (4 * c + e + 1 \<noteq> 100 \<or> 100 * b + 4 * c + e + 1 = 400)"
    by (simp add: leap_def)
  also have "\<dots> \<longleftrightarrow> e = 3 \<and> (c \<noteq> 24 \<or> b = 3)"
    using assms by auto
  finally show "leap y \<longleftrightarrow> e = 3 \<and> (c \<noteq> 24 \<or> b = 3)" .
qed

lemma year_of_days_inverse:
  assumes "0 \<le> k" and "k < (if leap y then 366 else 365)"
  shows "year_of_days (days_before_year y + k) = y"
proof -
  obtain a b c e where s: "y - 1 = 400 * a + 100 * b + 4 * c + e" "0 \<le> b" "b \<le> 3"
    "0 \<le> c" "c \<le> 24" "0 \<le> e" "e \<le> 3" by (rule year_split)
  define r1 r2 where "r1 = 1461 * c + 365 * e + k" and "r2 = 365 * e + k"
  note d = days_before_year_split [OF s]
  have k: "k \<le> 364 \<or> (k = 365 \<and> e = 3 \<and> (c \<noteq> 24 \<or> b = 3))"
    using assms(2) d(2) by (auto split: if_splits)
  have r2: "0 \<le> r2" "r2 \<le> 1460" and r1: "0 \<le> r1" "r1 \<le> 36523 \<or> b = 3 \<and> r1 = 36524"
    using s k assms(1) unfolding r1_def r2_def by linarith+
  have n: "days_before_year y + k = (36524 * b + r1) + a * 146097"
    using d(1) by (simp add: r1_def)
  have r: "0 \<le> 36524 * b + r1" "36524 * b + r1 < 146097"
    using s r1 by linarith+
  have 1: "(days_before_year y + k) div 146097 = a" "(days_before_year y + k) mod 146097 = 36524 * b + r1"
    unfolding n using r by (simp_all add: div_pos_pos_trivial mod_pos_pos_trivial)
  have 2: "min 3 (b + r1 div 36524) = b"
    using r1 s(2,3) by (auto simp: div_pos_pos_trivial)
  have 3: "r1 div 1461 = c" "r1 mod 1461 = r2"
  proof -
    have e: "r1 = r2 + c * 1461" by (simp add: r1_def r2_def)
    show "r1 div 1461 = c" "r1 mod 1461 = r2"
      unfolding e using r2 by (simp_all add: div_pos_pos_trivial mod_pos_pos_trivial)
  qed
  have 4: "min 3 (r2 div 365) = e"
    using k assms(1) s(6,7) unfolding r2_def by (auto simp: div_pos_pos_trivial)
  show ?thesis
    using s(1) by (simp add: year_of_days_def Let_def 1 2 3 4)
qed

lemma month_range_cases:
  assumes "1 \<le> m" and "m \<le> 12"
  shows "m = 1 \<or> m = 2 \<or> m = 3 \<or> m = 4 \<or> m = 5 \<or> m = 6 \<or> m = 7 \<or> m = 8 \<or> m = 9 \<or> m = 10
    \<or> m = 11 \<or> m = (12 :: int)"
  using assms by presburger

lemma month_length_bounds: "1 \<le> m \<Longrightarrow> m \<le> 12 \<Longrightarrow> 28 \<le> month_length y m \<and> month_length y m \<le> 31"
  by (drule (1) month_range_cases) (auto simp: month_length_def month_lengths_def nth_Cons')

lemma civil_time_Date:
  assumes "1 \<le> m" "m \<le> 12" "1 \<le> d" "d \<le> month_length y m"
  shows "civil (days_before_year y + sum_list (take (nat (m - 1)) (month_lengths (leap y))) + (d - 1)) = (y, m, d)"
proof -
  define k where "k = sum_list (take (nat (m - 1)) (month_lengths (leap y))) + (d - 1)"
  have k: "0 \<le> k \<and> k < (if leap y then 366 else 365) \<and> find_month (month_lengths (leap y)) 1 k = (m, d)"
    using month_range_cases [OF assms(1,2)] assms(3,4) unfolding k_def
    by (elim disjE) (auto simp: month_length_def month_lengths_def)
  have "civil (days_before_year y + k) = (y, m, d)"
    using k by (simp add: civil_def year_of_days_inverse)
  then show ?thesis by (simp add: k_def add.assoc)
qed

lemma time_Date_civil:
  assumes "1 \<le> m" "m \<le> 12" "1 \<le> d" "d \<le> month_length y m"
  shows "Year (time_Date y m d) = y" "Month (time_Date y m d) = m" "Day (time_Date y m d) = d"
  using civil_time_Date [OF assms] by (simp_all add: Year_def Month_def Day_def time_Date_def)

text \<open>A day beyond the end of its month belongs to the next month.\<close>

lemma time_Date_overflow:
  assumes "1 \<le> m" "m \<le> 12" "month_length y m < d" "d \<le> 31"
  shows "Month (time_Date y m d) = m + 1"
proof -
  have m: "m \<le> 11"
    using assms by (cases "m = 12") (auto simp: month_length_def month_lengths_def)
  have t: "time_Date y m d = time_Date y (m + 1) (d - month_length y m)"
    using month_range_cases [OF assms(1,2)] m
    by (elim disjE) (simp_all add: time_Date_def month_length_def month_lengths_def)
  have "28 \<le> month_length y m" "28 \<le> month_length y (m + 1)"
    using month_length_bounds assms m by auto
  then show ?thesis
    unfolding t using assms m by (intro time_Date_civil(2)) linarith+
qed

lemma calendarValid_time_Date:
  assumes "1 \<le> m" "m \<le> 12" "1 \<le> d" "d \<le> 31"
  shows "calendarValid (time_Date y m d) m d \<longleftrightarrow> d \<le> month_length y m"
proof (cases "d \<le> month_length y m")
  case True
  then show ?thesis using assms by (simp add: calendarValid_def time_Date_civil)
next
  case False
  then have "Month (time_Date y m d) = m + 1"
    using assms by (intro time_Date_overflow) auto
  with False show ?thesis by (simp add: calendarValid_def)
qed

lemma days_before_year_diff: "days_before_year (y + 100) - days_before_year y \<ge> 36524"
proof -
  define p where "p = y - 1"
  have "(100 + p) div 4 = p div 4 + 25" "(100 + p) div 100 = p div 100 + 1"
    by (simp_all add: div_add_self1)
  moreover have "p div 400 \<le> (100 + p) div 400" by (rule zdiv_mono1) simp_all
  moreover have "y + 100 - 1 = p + 100" by (simp add: p_def)
  ultimately show ?thesis
    by (simp add: days_before_year_def Let_def p_def [symmetric])
qed

lemma days_before_year_pos: "1900 \<le> y \<Longrightarrow> 0 < days_before_year y"
  by (simp add: days_before_year_def Let_def)

lemma month_offset_bounds:
  "1 \<le> m \<Longrightarrow> m \<le> 12 \<Longrightarrow>
   0 \<le> sum_list (take (nat (m - 1)) (month_lengths lp)) \<and> sum_list (take (nat (m - 1)) (month_lengths lp)) \<le> 335"
  by (drule (1) month_range_cases) (auto simp: month_lengths_def)

lemma time_Date_nonzero:
  assumes "1 \<le> m" "m \<le> 12" "1 \<le> d" "1900 \<le> y"
  shows "\<not> IsZero (time_Date y m d)"
  using days_before_year_pos [OF assms(4)] month_offset_bounds [OF assms(1,2), of "leap y"] assms(3)
  by (simp add: time_Date_def IsZero_def)

lemma time_Date_centuries:
  assumes "1 \<le> m" "m \<le> 12"
  shows "Before (time_Date (1900 + y) m d) (time_Date (2000 + y) m d)"
proof -
  let ?o = "\<lambda>z. sum_list (take (nat (m - 1)) (month_lengths (leap z)))"
  have "days_before_year (1900 + y) + ?o (1900 + y) < days_before_year (2000 + y) + ?o (2000 + y)"
    using days_before_year_diff [of "1900 + y"] month_offset_bounds [OF assms, of "leap (1900 + y)"]
      month_offset_bounds [OF assms, of "leap (2000 + y)"] by simp
  then show ?thesis by (simp add: Before_def time_Date_def)
qed

section \<open>Issue list lemmas\<close>

definition issues_ok :: "issue list \<Rightarrow> bool" where
  "issues_ok is \<longleftrightarrow> distinct is \<and> length is \<le> maximumIssues"

lemma issues_ok_Nil [simp]: "issues_ok []"
  by (simp add: issues_ok_def)

lemma issues_ok_appendIssue [simp]: "issues_ok is \<Longrightarrow> issues_ok (appendIssue is i)"
  by (auto simp: issues_ok_def appendIssue_def maximumIssues_def)

lemma issues_ok_appendIssues [simp]: "issues_ok is \<Longrightarrow> issues_ok (appendIssues is extra)"
  unfolding appendIssues_def by (induction extra arbitrary: "is") simp_all

lemma appendIssue_neq_Nil [simp]: "appendIssue is i \<noteq> []" "[] \<noteq> appendIssue is i"
  by (auto simp: appendIssue_def maximumIssues_def)

lemma appendIssues_Nil_iff [simp]: "appendIssues is extra = [] \<longleftrightarrow> is = [] \<and> extra = []"
proof -
  have "foldl appendIssue (appendIssue is i) extra \<noteq> []" for i "is" extra
    by (induction extra arbitrary: "is" i) simp_all
  then show ?thesis unfolding appendIssues_def by (cases extra) simp_all
qed

text \<open>Each helper keeps the issue list well formed, and adds nothing exactly on a good field.\<close>

definition field_ok :: "string \<Rightarrow> char \<Rightarrow> bool" where
  "field_ok raw digit \<longleftrightarrow> CheckDigit raw = Some digit \<or>
     (list_all (\<lambda>c. c = CHR ''<'') raw \<and> digit = CHR ''<'')"

lemma all_dropWhile_iff: "(\<forall>x \<in> set (dropWhile p s). p x) \<longleftrightarrow> (\<forall>x \<in> set s. p x)"
  by (induction s) auto

lemma allFillers_iff: "allFillers s \<longleftrightarrow> list_all (\<lambda>c. c = CHR ''<'') s"
  by (simp add: allFillers_def trim_right_def dropWhile_eq_Nil_conv list_all_iff all_dropWhile_iff)

lemma fillers_valid: "list_all (\<lambda>c. c = CHR ''<'') s \<Longrightarrow> list_all validCharacter s"
  by (auto simp: list_all_iff validCharacter_def)

lemma verifyField_iff [simp]: "verifyField raw d l is = [] \<longleftrightarrow> is = [] \<and> field_ok raw d"
  using fillers_valid [of raw]
  by (auto simp: verifyField_def field_ok_def allFillers_iff CheckDigit_eq split: option.splits)

lemma verifyField_ok [simp]: "issues_ok is \<Longrightarrow> issues_ok (verifyField raw d l is)"
  by (simp add: verifyField_def split: option.splits)

lemma verifyComposite_iff [simp]:
  "verifyComposite raw d is = [] \<longleftrightarrow> is = [] \<and> CheckDigit raw = Some d"
  by (auto simp: verifyComposite_def split: option.splits)

lemma verifyComposite_ok [simp]: "issues_ok is \<Longrightarrow> issues_ok (verifyComposite raw d is)"
  by (simp add: verifyComposite_def split: option.splits)

definition date_value :: "string \<Rightarrow> dateKind \<Rightarrow> go_time \<Rightarrow> mrz_date" where
  "date_value raw kind ref = fst (resolve raw kind ref [])"

lemma fst_resolve: "fst (resolve raw kind ref is) = date_value raw kind ref"
  by (simp add: date_value_def resolve_def Let_def split: prod.splits)

lemma snd_resolve_iff [simp]: "snd (resolve raw kind ref is) = [] \<longleftrightarrow> is = [] \<and> date_value raw kind ref \<noteq> None"
  by (auto simp: date_value_def resolve_def Let_def split: prod.splits)

lemma snd_resolve_ok [simp]: "issues_ok is \<Longrightarrow> issues_ok (snd (resolve raw kind ref is))"
  by (simp add: resolve_def Let_def split: prod.splits)

lemma snd_parseSex_iff [simp]: "snd (parseSex c is) = [] \<longleftrightarrow> is = [] \<and> c \<in> {CHR ''M'', CHR ''F'', CHR ''<''}"
  by (auto simp: parseSex_def)

lemma snd_parseSex_ok [simp]: "issues_ok is \<Longrightarrow> issues_ok (snd (parseSex c is))"
  by (simp add: parseSex_def)

definition country_ok :: "string \<Rightarrow> bool" where
  "country_ok raw \<longleftrightarrow> length (cleanField raw) \<le> 3 \<and> letters (cleanField raw)"

lemma snd_parseCountry_iff [simp]: "snd (parseCountry raw l is) = [] \<longleftrightarrow> is = [] \<and> country_ok raw"
  by (auto simp: parseCountry_def Let_def country_ok_def letters_def)

lemma snd_parseCountry_ok [simp]: "issues_ok is \<Longrightarrow> issues_ok (snd (parseCountry raw l is))"
  by (simp add: parseCountry_def Let_def)

lemma snd_cleanDocumentNumber_iff [simp]:
  "snd (cleanDocumentNumber raw is) = [] \<longleftrightarrow> is = [] \<and> cleanField raw \<noteq> []"
  by (simp add: cleanDocumentNumber_def Let_def)

lemma snd_cleanDocumentNumber_ok [simp]: "issues_ok is \<Longrightarrow> issues_ok (snd (cleanDocumentNumber raw is))"
  by (simp add: cleanDocumentNumber_def Let_def)

definition name_of :: "string \<Rightarrow> mrz_name" where
  "name_of raw = fst (parseName raw [])"

lemma fst_parseName: "fst (parseName raw is) = name_of raw"
  by (simp add: name_of_def parseName_def Let_def split: prod.splits)

lemma snd_parseName_iff [simp]:
  "snd (parseName raw is) = [] \<longleftrightarrow> is = [] \<and> (Primary (name_of raw) \<noteq> [] \<or> Secondary (name_of raw) \<noteq> [])"
  by (auto simp: name_of_def parseName_def Let_def split: prod.splits)

lemma snd_parseName_ok [simp]: "issues_ok is \<Longrightarrow> issues_ok (snd (parseName raw is))"
  by (simp add: parseName_def Let_def split: prod.splits)

lemma clean_bytes_ok: "issues_ok is \<Longrightarrow> issues_ok (snd (clean_bytes s is))"
  by (induction s arbitrary: "is") (auto simp: Let_def split_beta)

lemma normalise_loop_ok: "issues_ok is \<Longrightarrow> issues_ok (snd (normalise_loop uc ls is))"
  by (induction ls arbitrary: "is") (auto simp: Let_def split_beta clean_bytes_ok)






lemma parseTD_ok:
  "issues_ok is \<Longrightarrow> issues_ok (snd (parseTD1 z ls ref is))"
  "issues_ok is \<Longrightarrow> issues_ok (snd (parseTD2 z ls ref is))"
  "issues_ok is \<Longrightarrow> issues_ok (snd (parseTD3 z ls ref is))"
  unfolding parseTD1_def parseTD2_def parseTD3_def by (simp_all add: Let_def split_beta)













lemma resolve_birth_pair:
  assumes "Before a b" "\<not> IsZero a" "\<not> IsZero b"
    and "cs = filter P [a, b]" and "r = resolve_birth ref cs"
  defines "ok \<equiv> (\<lambda>c. P c \<and> \<not> After c ref \<and> ageAt c ref \<le> maximumAge)"
  shows "(\<not> IsZero r \<and> d = r) \<longleftrightarrow> d \<in> {a, b} \<and> ok d \<and> \<not> (\<exists>c \<in> {a, b}. ok c \<and> After c d)"
proof -
  have n: "a \<noteq> b" "\<not> After a b" "After b a" "\<not> After a a" "\<not> After b b"
    using assms(1) by (auto simp: Before_def After_def)
  show ?thesis
    using assms(2,3) n unfolding assms(4,5) ok_def
    by (auto simp: resolve_birth_def time_zero_def IsZero_def)
qed

lemma digit_value_nonneg: "is_digit c \<Longrightarrow> (48::int) \<le> of_char c"
proof -
  assume "is_digit c"
  then have "(of_char (CHR ''0'') :: nat) \<le> of_char c"
    by (simp add: is_digit_def less_eq_char_def)
  then have "(of_char (CHR ''0'') :: int) \<le> of_char c"
    by (metis of_nat_le_iff of_nat_of_char)
  then show ?thesis by simp
qed

lemma Atoi_nonneg: "list_all is_digit s \<Longrightarrow> 0 \<le> Atoi s"
proof -
  have "0 \<le> n \<Longrightarrow> list_all is_digit s \<Longrightarrow> 0 \<le> foldl (\<lambda>n c. 10 * n + (of_char c - 48)) n s" for n :: int
  proof (induction s arbitrary: n)
    case (Cons c s)
    then have "0 \<le> 10 * n + (of_char c - 48)"
      using digit_value_nonneg [of c] by simp
    with Cons show ?case by simp
  qed simp
  then show "list_all is_digit s \<Longrightarrow> 0 \<le> Atoi s" by (simp add: Atoi_def)
qed

lemma slice_digits: "list_all is_digit s \<Longrightarrow> list_all is_digit (slice s a b)"
  by (auto simp: slice_def list_all_iff dest!: in_set_takeD in_set_dropD)

lemma resolve_birth_eq:
  assumes "allDigits raw" and "\<not> IsZero ref"
  defines "yy \<equiv> Atoi (slice raw 0 2)" and "mm \<equiv> Atoi (slice raw 2 4)" and "dd \<equiv> Atoi (slice raw 4 6)"
  defines "r \<equiv> resolve_birth ref (filter (\<lambda>c. calendarValid c mm dd)
                  [time_Date (1900 + yy) mm dd, time_Date (2000 + yy) mm dd])"
  shows "fst (resolve raw dateOfBirthKind ref is) =
    (if 1 \<le> mm \<and> mm \<le> 12 \<and> 1 \<le> dd \<and> dd \<le> 31 \<and> \<not> IsZero r then Some r else None)"
proof -
  have f: "\<not> allFillers raw"
    using assms(1) by (cases raw) (auto simp: allDigits_def allFillers_iff is_digit_def)
  have z: "IsZero (resolve_birth ref [])"
    by (simp add: resolve_birth_def IsZero_def time_zero_def)
  show ?thesis
    using assms(1,2) f z unfolding r_def yy_def mm_def dd_def
    by (auto simp: resolve_def Let_def simp del: filter.simps)
qed

section \<open>Properties\<close>


text \<open>
  Every issue list the parser returns, with a zone or with the layout error, holds each
  issue once and at most 32 issues.
\<close>

theorem mrz_issues_bounded:
  "distinct (mrz_issues (mrz_Parse uc ls ref)) \<and> length (mrz_issues (mrz_Parse uc ls ref)) \<le> 32"
proof -
  have "issues_ok [(IssueLengthInvalid, FieldZone)]"
    by (simp add: issues_ok_def maximumIssues_def)
  then have "issues_ok (mrz_issues (mrz_Parse uc ls ref))"
    unfolding mrz_Parse_def mrz_issues_def
    by (auto simp: Let_def split_beta parseTD_ok split: option.splits mrz_format.splits)
  then show ?thesis by (simp add: issues_ok_def maximumIssues_def)
qed

text \<open>
  Replacing one character of a checked string by another keeps the check digit exactly
  when the two characters have the same value modulo ten: every other single-character
  misreading is detected, wherever it occurs.
\<close>

theorem check_digit_substitution:
  assumes "list_all validCharacter (xs @ a # b # ys)"
  shows "CheckDigit (xs @ a # ys) = CheckDigit (xs @ b # ys) \<longleftrightarrow> mrz_value a mod 10 = mrz_value b mod 10"
  using assms weight_coprime [of "weighted_sum 0 xs" "mrz_value a" "length xs"
      "weighted_sum (Suc (length xs)) ys" "mrz_value b"]
  by (simp add: CheckDigit_eq digit_char_inj weighted_sum_append add.assoc)

theorem check_digit_substitution_witness:
  "CheckDigit ''L898902C3'' \<noteq> CheckDigit ''L898602C3'' \<and> CheckDigit ''LA'' = CheckDigit ''LK''"
  using check_digit_substitution [of "''L898''" "CHR ''9''" "CHR ''6''" "''02C3''"]
    check_digit_substitution [of "''L''" "CHR ''A''" "CHR ''K''" "[]"]
  by (simp add: validCharacter_def is_digit_def is_upper_def mrz_value_def char_value_def)

text \<open>
  Swapping two neighbouring characters of a checked string keeps the check digit exactly
  when their values agree modulo five: every other transposition is detected.
\<close>

theorem check_digit_transposition:
  assumes "list_all validCharacter (xs @ a # b # ys)"
  shows "CheckDigit (xs @ a # b # ys) = CheckDigit (xs @ b # a # ys) \<longleftrightarrow>
    mrz_value a mod 5 = mrz_value b mod 5"
  using assms weight_difference [of "weighted_sum 0 xs" "mrz_value a" "length xs" "mrz_value b"
      "weighted_sum (Suc (Suc (length xs))) ys"]
  by (simp add: CheckDigit_eq digit_char_inj weighted_sum_append add.assoc)

theorem check_digit_transposition_witness:
  "CheckDigit ''740812'' \<noteq> CheckDigit ''704812''"
  using check_digit_transposition [of "''7''" "CHR ''4''" "CHR ''0''" "''812''"]
  by (simp add: validCharacter_def is_digit_def mrz_value_def char_value_def)

text \<open>
  A six-digit date of birth resolves to the latest day, in the 1900s or the 2000s, that
  has these digits, exists in the calendar, does not lie after the reference time and makes
  the holder at most 120 years old; it resolves to nothing exactly when there is no such day.
\<close>

theorem birth_date_resolution:
  fixes raw :: string and ref :: go_time
  assumes "allDigits raw" and "length raw = 6" and "\<not> IsZero ref"
  defines "yy \<equiv> Atoi (slice raw 0 2)" and "mm \<equiv> Atoi (slice raw 2 4)" and "dd \<equiv> Atoi (slice raw 4 6)"
  defines "admissible \<equiv> {time_Date y mm dd | y. y \<in> {1900 + yy, 2000 + yy} \<and> 1 \<le> mm \<and> mm \<le> 12 \<and>
     1 \<le> dd \<and> dd \<le> month_length y mm \<and> \<not> After (time_Date y mm dd) ref \<and>
     ageAt (time_Date y mm dd) ref \<le> maximumAge}"
  shows "fst (resolve raw dateOfBirthKind ref is) = Some d \<longleftrightarrow>
     d \<in> admissible \<and> \<not> (\<exists>c \<in> admissible. After c d)"
proof (cases "1 \<le> mm \<and> mm \<le> 12 \<and> 1 \<le> dd \<and> dd \<le> 31")
  case range: True
  let ?a = "time_Date (1900 + yy) mm dd" and ?b = "time_Date (2000 + yy) mm dd"
  let ?r = "resolve_birth ref (filter (\<lambda>c. calendarValid c mm dd) [?a, ?b])"
  let ?ok = "\<lambda>c. calendarValid c mm dd \<and> \<not> After c ref \<and> ageAt c ref \<le> maximumAge"
  have "0 \<le> yy"
    unfolding yy_def using assms(1) by (intro Atoi_nonneg slice_digits) (simp add: allDigits_def)
  then have nz: "\<not> IsZero ?a" "\<not> IsZero ?b"
    using range time_Date_nonzero [of mm dd "1900 + yy"] time_Date_nonzero [of mm dd "2000 + yy"] by auto
  have adm: "admissible = {c \<in> {?a, ?b}. ?ok c}"
    unfolding admissible_def using range by (auto simp: calendarValid_time_Date)
  have "fst (resolve raw dateOfBirthKind ref is) = Some d \<longleftrightarrow> \<not> IsZero ?r \<and> d = ?r"
    using resolve_birth_eq [OF assms(1,3), of "is"] range unfolding yy_def mm_def dd_def by auto
  also have "\<dots> \<longleftrightarrow> d \<in> {?a, ?b} \<and> ?ok d \<and> \<not> (\<exists>c \<in> {?a, ?b}. ?ok c \<and> After c d)"
    using range nz by (intro resolve_birth_pair [OF time_Date_centuries _ _ refl refl]) auto
  also have "\<dots> \<longleftrightarrow> d \<in> admissible \<and> \<not> (\<exists>c \<in> admissible. After c d)"
    unfolding adm by blast
  finally show ?thesis .
next
  case False
  have "\<not> (1 \<le> mm \<and> mm \<le> 12 \<and> 1 \<le> dd \<and> dd \<le> month_length y mm)" for y
    using False month_length_bounds [of mm y] by linarith
  then have "admissible = {}"
    unfolding admissible_def by blast
  then show ?thesis
    using resolve_birth_eq [OF assms(1,3), of "is"] False unfolding yy_def mm_def dd_def by auto
qed

theorem birth_date_resolution_witness:
  "fst (resolve ''740812'' dateOfBirthKind (time_Date 2012 4 15) []) = Some (time_Date 1974 8 12) \<and>
   time_Date 1974 8 12 \<in> {time_Date y 8 12 | y. \<not> After (time_Date y 8 12) (time_Date 2012 4 15)}"
proof -
  let ?ref = "time_Date 2012 4 15"
  have nz: "\<not> IsZero ?ref" by (rule time_Date_nonzero) simp_all
  have digits: "Atoi (slice ''740812'' 0 2) = 74" "Atoi (slice ''740812'' 2 4) = 8" "Atoi (slice ''740812'' 4 6) = 12"
    by (simp_all add: Atoi_def slice_def)
  have d: "fst (resolve ''740812'' dateOfBirthKind ?ref []) = Some (time_Date 1974 8 12)"
    by code_simp
  from birth_date_resolution [of "''740812''" ?ref "[]" "time_Date 1974 8 12"] nz d
  have "time_Date 1974 8 12 \<in> {time_Date y 8 12 | y. \<not> After (time_Date y 8 12) ?ref}"
    by (auto simp: digits allDigits_def is_digit_def)
  with d show ?thesis by blast
qed

text \<open>The specimen passport of the ICAO standard is a valid zone.\<close>

lemma mrz_specimen_valid:
  "case mrz_Parse (\<lambda>s. s)
      [''P<UTOERIKSSON<<ANNA<MARIA<<<<<<<<<<<<<<<<<<<'',
       ''L898902C36UTO7408122F1204159ZE184226B<<<<<10''] (time_Date 2011 1 1) of
     Inl _ \<Rightarrow> False
   | Inr z \<Rightarrow> zone_Valid z \<and> Format z = TD3 \<and> DocumentNumber z = ''L898902C3'' \<and>
       Name z = \<lparr>Primary = ''ERIKSSON'', Secondary = ''ANNA MARIA''\<rparr> \<and>
       DateOfBirth z = Some (time_Date 1974 8 12) \<and> DateOfExpiry z = Some (time_Date 2012 4 15)"
  by code_simp

end
