(* ===== verification/Session_Lifecycle.thy ===== *)
theory Session_Lifecycle
  imports Aggregate_Contracts Identifiers
begin

text \<open>
  \<^verbatim>\<open>internal/verification/lifecycle.go\<close>, \<^verbatim>\<open>failure.go\<close> and \<^verbatim>\<open>input_request.go\<close>: the session
  state machine, its commands and receipts, the operational failure reason, and the bounded
  policy-authored input request. The ULID parser inside \<^verbatim>\<open>id.Parse*\<close> is the argument \<open>up\<close>.
\<close>

section \<open>States and failures\<close>

datatype session_state = SessionStateCreated | SessionStateCollecting | SessionStateAwaitingInput
  | SessionStateProcessing | SessionStateAwaitingExternal | SessionStateManualReview
  | SessionStateCompleted | SessionStateCancelled | SessionStateExpired | SessionStateFailed
  | SessionStateOther string

fun SessionState_Valid :: "session_state \<Rightarrow> bool" where
  "SessionState_Valid (SessionStateOther _) = False"
| "SessionState_Valid _ = True"

fun Terminal :: "session_state \<Rightarrow> bool" where
  "Terminal SessionStateCompleted = True"
| "Terminal SessionStateCancelled = True"
| "Terminal SessionStateExpired = True"
| "Terminal SessionStateFailed = True"
| "Terminal _ = False"

datatype session_error = ErrSessionConflict

record SessionFailure =
  sf_Class :: string
  sf_Code :: string

definition no_failure :: SessionFailure where
  "no_failure = \<lparr>sf_Class = [], sf_Code = []\<rparr>"

definition failure_char :: "char \<Rightarrow> bool" where
  [token_simps]: "failure_char c \<longleftrightarrow> is_lower c \<or> is_digit c \<or> c = CHR ''_''"

definition SessionFailure_Validate :: "SessionFailure \<Rightarrow> session_error option" where
  "SessionFailure_Validate f =
     (if \<not> pattern is_lower failure_char 31 (sf_Class f) \<or> \<not> pattern is_lower failure_char 63 (sf_Code f)
      then Some ErrSessionConflict else None)"

section \<open>Lifecycle\<close>

record Lifecycle =
  lc_State :: session_state
  lc_Version :: int
  lc_CreatedAt :: go_time
  lc_UpdatedAt :: go_time
  lc_ExpiresAt :: go_time
  lc_DecisionID :: string
  lc_Failure :: SessionFailure

record LifecycleCommand =
  cmd_EventID :: string
  cmd_VerificationID :: string
  cmd_ExpectedVersion :: int
  cmd_Target :: session_state
  cmd_DecisionID :: string
  cmd_ActorID :: string
  cmd_OccurredAt :: go_time
  cmd_Failure :: SessionFailure

definition lifecycleActor :: "(string \<Rightarrow> 'u option) \<Rightarrow> string \<Rightarrow> bool" where
  "lifecycleActor up v \<longleftrightarrow>
     (case ParseResource up R_APIKey v of Inr _ \<Rightarrow> True | Inl _ \<Rightarrow>
       (case ParseResource up R_CaptureToken v of Inr _ \<Rightarrow> True | Inl _ \<Rightarrow>
         (case ParseResource up R_Task v of Inr _ \<Rightarrow> True | Inl _ \<Rightarrow> False)))"

definition LifecycleCommand_Validate :: "(string \<Rightarrow> 'u option) \<Rightarrow> LifecycleCommand \<Rightarrow> session_error option" where
  "LifecycleCommand_Validate up c =
     (let failureRequired = (cmd_Target c = SessionStateFailed) in
      if cmd_EventID c = [] \<or> cmd_VerificationID c = [] \<or>
         cmd_ExpectedVersion c < 1 \<or> cmd_ExpectedVersion c = int64_max \<or>
         \<not> SessionState_Valid (cmd_Target c) \<or> \<not> utcNonZero (cmd_OccurredAt c) \<or>
         Nanosecond (cmd_OccurredAt c) mod 1000 \<noteq> 0 \<or>
         (cmd_Target c = SessionStateCompleted) = (cmd_DecisionID c = []) \<or>
         failureRequired \<noteq> (SessionFailure_Validate (cmd_Failure c) = None) \<or>
         \<not> lifecycleActor up (cmd_ActorID c)
      then Some ErrSessionConflict else None)"

definition lifecycleEdge :: "session_state \<Rightarrow> session_state \<Rightarrow> bool" where
  "lifecycleEdge from target =
     (if target = SessionStateCancelled \<or> target = SessionStateFailed
      then SessionState_Valid from \<and> \<not> Terminal from
      else if target = SessionStateExpired
      then SessionState_Valid from \<and> \<not> Terminal from \<and> from \<noteq> SessionStateCreated
      else case from of
        SessionStateCreated \<Rightarrow> target = SessionStateCollecting
      | SessionStateCollecting \<Rightarrow> target = SessionStateAwaitingInput \<or> target = SessionStateProcessing
      | SessionStateAwaitingInput \<Rightarrow> target = SessionStateCollecting \<or> target = SessionStateManualReview
      | SessionStateProcessing \<Rightarrow> target = SessionStateAwaitingExternal \<or>
          target = SessionStateAwaitingInput \<or> target = SessionStateManualReview \<or>
          target = SessionStateCompleted
      | SessionStateAwaitingExternal \<Rightarrow> target = SessionStateProcessing
      | SessionStateManualReview \<Rightarrow> target = SessionStateAwaitingInput \<or> target = SessionStateCompleted
      | _ \<Rightarrow> False)"

definition AdvanceLifecycle ::
  "(string \<Rightarrow> 'u option) \<Rightarrow> Lifecycle \<Rightarrow> LifecycleCommand \<Rightarrow> session_error + Lifecycle" where
  "AdvanceLifecycle up cur c =
     (case LifecycleCommand_Validate up c of Some e \<Rightarrow> Inl e
      | None \<Rightarrow>
        if \<not> SessionState_Valid (lc_State cur) \<or> Terminal (lc_State cur) \<or> lc_Failure cur \<noteq> no_failure \<or>
           lc_Version cur \<noteq> cmd_ExpectedVersion c \<or> lc_DecisionID cur \<noteq> [] \<or>
           \<not> utcNonZero (lc_CreatedAt cur) \<or> \<not> utcNonZero (lc_UpdatedAt cur) \<or>
           \<not> utcNonZero (lc_ExpiresAt cur) \<or> Before (lc_UpdatedAt cur) (lc_CreatedAt cur) \<or>
           \<not> After (lc_ExpiresAt cur) (lc_CreatedAt cur) \<or>
           Before (cmd_OccurredAt c) (lc_UpdatedAt cur) \<or> \<not> lifecycleEdge (lc_State cur) (cmd_Target c)
        then Inl ErrSessionConflict
        else if cmd_Target c = SessionStateExpired \<and> Before (cmd_OccurredAt c) (lc_ExpiresAt cur)
        then Inl ErrSessionConflict
        else if cmd_Target c \<noteq> SessionStateExpired \<and> \<not> Before (cmd_OccurredAt c) (lc_ExpiresAt cur)
        then Inl ErrSessionConflict
        else Inr (cur\<lparr>lc_State := cmd_Target c, lc_Version := i64 (lc_Version cur + 1),
                      lc_UpdatedAt := cmd_OccurredAt c, lc_DecisionID := cmd_DecisionID c,
                      lc_Failure := cmd_Failure c\<rparr>))"

section \<open>Input requests\<close>

record InputRequest =
  ir_id :: string
  ir_verificationID :: string
  ir_caseID :: string
  ir_reasonCodes :: "string list"
  ir_actorID :: string
  ir_requestedAt :: go_time

definition InputRequestFallbackReason :: string where
  "InputRequestFallbackReason = ''policy_request_input''"

definition MaximumInputRequestReasons :: nat where
  "MaximumInputRequestReasons = 8"

definition validInputRequestReason :: "string \<Rightarrow> bool" where
  "validInputRequestReason v \<longleftrightarrow> pattern is_lower token_char 63 v"

text \<open>The loop over the reason codes; \<open>seen\<close> is \<^verbatim>\<open>reasons[:index]\<close>.\<close>

fun reasons_loop :: "string list \<Rightarrow> string list \<Rightarrow> string list option" where
  "reasons_loop seen [] = Some seen"
| "reasons_loop seen (code # rest) =
     (if \<not> validInputRequestReason code \<or> code \<in> set seen then None
      else reasons_loop (seen @ [code]) rest)"

definition NewInputRequest ::
  "(string \<Rightarrow> 'u option) \<Rightarrow> string \<Rightarrow> string \<Rightarrow> string \<Rightarrow> string list \<Rightarrow> string \<Rightarrow> go_time
   \<Rightarrow> session_error + InputRequest" where
  "NewInputRequest up identifier verificationID caseID reasonCodes actorID requestedAt =
     (if identifier = [] \<or> verificationID = [] \<or> \<not> lifecycleActor up actorID \<or>
         \<not> utcNonZero requestedAt \<or> Nanosecond requestedAt mod 1000 \<noteq> 0
      then Inl ErrSessionConflict
      else if reasonCodes = [] \<or> length reasonCodes > MaximumInputRequestReasons
      then Inl ErrSessionConflict
      else case reasons_loop [] reasonCodes of
             None \<Rightarrow> Inl ErrSessionConflict
           | Some reasons \<Rightarrow>
               Inr \<lparr>ir_id = identifier, ir_verificationID = verificationID, ir_caseID = caseID,
                    ir_reasonCodes = reasons, ir_actorID = actorID,
                    ir_requestedAt = to_UTC requestedAt\<rparr>)"

fun bounded_reasons_loop :: "string list \<Rightarrow> string list \<Rightarrow> string list" where
  "bounded_reasons_loop result [] = result"
| "bounded_reasons_loop result (v # vs) =
     (if \<not> validInputRequestReason v \<or> v \<in> set result then bounded_reasons_loop result vs
      else let result = result @ [v] in
           if length result = MaximumInputRequestReasons then result
           else bounded_reasons_loop result vs)"

definition BoundedInputRequestReasons :: "string list \<Rightarrow> string list" where
  "BoundedInputRequestReasons vs =
     (let result = bounded_reasons_loop [] vs in
      if result = [] then [InputRequestFallbackReason] else result)"

section \<open>The lifecycle as an aggregate\<close>

lemmas lifecycle_defs = AdvanceLifecycle_def LifecycleCommand_Validate_def Let_def

lemma AdvanceLifecycle_Inr:
  assumes "AdvanceLifecycle up s c = Inr s'"
  shows "LifecycleCommand_Validate up c = None" "lc_Version s = cmd_ExpectedVersion c"
    "lifecycleEdge (lc_State s) (cmd_Target c)" "\<not> Terminal (lc_State s)"
    "lc_Failure s = no_failure" "lc_DecisionID s = []"
    "\<not> Before (cmd_OccurredAt c) (lc_UpdatedAt s)" "\<not> Before (lc_UpdatedAt s) (lc_CreatedAt s)"
    "(cmd_Target c = SessionStateExpired) = (\<not> Before (cmd_OccurredAt c) (lc_ExpiresAt s))"
    "s' = s\<lparr>lc_State := cmd_Target c, lc_Version := i64 (lc_Version s + 1),
            lc_UpdatedAt := cmd_OccurredAt c, lc_DecisionID := cmd_DecisionID c,
            lc_Failure := cmd_Failure c\<rparr>"
  using assms by (auto simp: AdvanceLifecycle_def split: option.splits if_splits)

lemma LifecycleCommand_Validate_None:
  assumes "LifecycleCommand_Validate up c = None"
  shows "1 \<le> cmd_ExpectedVersion c" "cmd_ExpectedVersion c \<noteq> int64_max"
    "(cmd_Target c = SessionStateCompleted) = (cmd_DecisionID c \<noteq> [])"
    "(cmd_Target c = SessionStateFailed) = (SessionFailure_Validate (cmd_Failure c) = None)"
    "SessionState_Valid (cmd_Target c)" "utcNonZero (cmd_OccurredAt c)"
  using assms by (auto simp: LifecycleCommand_Validate_def Let_def split: if_splits)

lemma Terminal_no_edge: "Terminal p \<Longrightarrow> \<not> lifecycleEdge p q"
  by (cases p) (auto simp: lifecycleEdge_def)

interpretation session: optimistic_aggregate
  "\<lambda>c s. AdvanceLifecycle up s c" lc_Version cmd_ExpectedVersion
  for up :: "string \<Rightarrow> 'u option"
  by unfold_locales (auto dest: AdvanceLifecycle_Inr(2,10))

interpretation session: phased_workflow
  "\<lambda>c s. AdvanceLifecycle up s c" lc_State lifecycleEdge Terminal
  for up :: "string \<Rightarrow> 'u option"
proof (unfold_locales, goal_cases)
  case (1 c s s')
  then show ?case using AdvanceLifecycle_Inr(3,10) [OF 1] by simp
next
  case (2 p q)
  then show ?case by (rule Terminal_no_edge)
qed

abbreviation run_session :: "(string \<Rightarrow> 'u option) \<Rightarrow> LifecycleCommand list \<Rightarrow> Lifecycle \<Rightarrow> session_error + Lifecycle" where
  "run_session up \<equiv> run_all (\<lambda>c s. AdvanceLifecycle up s c)"

text \<open>A session as \<^verbatim>\<open>NewSession\<close> leaves it: collecting, version one, nothing decided.\<close>

definition fresh_lifecycle :: "Lifecycle \<Rightarrow> bool" where
  "fresh_lifecycle s \<longleftrightarrow> lc_State s = SessionStateCollecting \<and> lc_Version s = 1 \<and>
     lc_UpdatedAt s = lc_CreatedAt s \<and> After (lc_ExpiresAt s) (lc_CreatedAt s) \<and>
     lc_DecisionID s = [] \<and> lc_Failure s = no_failure"

definition lifecycle_ok :: "Lifecycle \<Rightarrow> bool" where
  "lifecycle_ok s \<longleftrightarrow>
     SessionState_Valid (lc_State s) \<and>
     (lc_State s = SessionStateCompleted \<longleftrightarrow> lc_DecisionID s \<noteq> []) \<and>
     (lc_State s = SessionStateFailed \<longleftrightarrow> SessionFailure_Validate (lc_Failure s) = None) \<and>
     \<not> Before (lc_UpdatedAt s) (lc_CreatedAt s) \<and>
     (lc_State s = SessionStateExpired \<longleftrightarrow> \<not> Before (lc_UpdatedAt s) (lc_ExpiresAt s))"

lemma no_failure_invalid [simp]: "SessionFailure_Validate no_failure = Some ErrSessionConflict"
  by (simp add: SessionFailure_Validate_def no_failure_def)

lemma fresh_lifecycle_ok: "fresh_lifecycle s \<Longrightarrow> lifecycle_ok s"
  by (auto simp: fresh_lifecycle_def lifecycle_ok_def Before_def After_def)

lemma lifecycle_ok_step: "AdvanceLifecycle up s c = Inr s' \<Longrightarrow> lifecycle_ok s'"
  using AdvanceLifecycle_Inr [of up s c s'] LifecycleCommand_Validate_None [of up c]
  by (auto simp: lifecycle_ok_def Before_def)

lemma AdvanceLifecycle_version:
  assumes "AdvanceLifecycle up s c = Inr s'" and "lc_Version s \<le> int64_max"
  shows "lc_Version s' = lc_Version s + 1 \<and> lc_Version s' \<le> int64_max \<and> 1 \<le> lc_Version s"
proof -
  note a = AdvanceLifecycle_Inr [OF assms(1)] and v = LifecycleCommand_Validate_None [OF AdvanceLifecycle_Inr(1) [OF assms(1)]]
  have "lc_Version s < int64_max" "1 \<le> lc_Version s"
    using a(2) v(1,2) assms(2) by auto
  then show ?thesis
    using a(10) i64_succ [of "lc_Version s"] by (auto simp: int64_min_def)
qed

lemma run_session_version:
  "run_session up cs s = Inr s' \<Longrightarrow> lc_Version s \<le> int64_max \<Longrightarrow>
   lc_Version s' = lc_Version s + int (length cs)"
proof (induction cs arbitrary: s)
  case (Cons c cs)
  then obtain t where t: "AdvanceLifecycle up s c = Inr t" "run_session up cs t = Inr s'"
    by (auto split: sum.splits)
  with Cons.IH [OF t(2)] AdvanceLifecycle_version [OF t(1) Cons.prems(2)] show ?case by auto
qed simp

lemma run_session_ok: "run_session up cs s = Inr s' \<Longrightarrow> lifecycle_ok s \<Longrightarrow> lifecycle_ok s'"
  by (rule run_all_invariant [where P = lifecycle_ok]) (auto intro: lifecycle_ok_step)

lemma run_session_times:
  "run_session up cs s = Inr s' \<Longrightarrow> lc_CreatedAt s' = lc_CreatedAt s \<and> lc_ExpiresAt s' = lc_ExpiresAt s
     \<and> \<not> Before (lc_UpdatedAt s') (lc_UpdatedAt s)"
proof (induction cs arbitrary: s)
  case (Cons c cs)
  then obtain t where t: "AdvanceLifecycle up s c = Inr t" "run_session up cs t = Inr s'"
    by (auto split: sum.splits)
  with Cons.IH [OF t(2)] AdvanceLifecycle_Inr [OF t(1)] show ?case by (auto simp: Before_def)
qed (simp add: Before_def)

subsection \<open>Input request lemmas\<close>

lemma reasons_loop_Some:
  "reasons_loop seen cs = Some r \<longleftrightarrow>
     r = seen @ cs \<and> list_all validInputRequestReason cs \<and> distinct cs \<and> set cs \<inter> set seen = {}"
  by (induction cs arbitrary: seen) auto

text \<open>The bounded loop keeps the first eight distinct codes of the grammar.\<close>

fun first_occurrences :: "string list \<Rightarrow> string list \<Rightarrow> string list" where
  "first_occurrences seen [] = []"
| "first_occurrences seen (v # vs) =
     (if v \<in> set seen then first_occurrences seen vs else v # first_occurrences (seen @ [v]) vs)"

lemma bounded_reasons_loop_eq:
  "length result < MaximumInputRequestReasons \<Longrightarrow>
   bounded_reasons_loop result vs =
     result @ take (MaximumInputRequestReasons - length result)
                (first_occurrences result (filter validInputRequestReason vs))"
proof (induction result vs rule: bounded_reasons_loop.induct)
  case (2 result v vs)
  show ?case
  proof (cases "\<not> validInputRequestReason v \<or> v \<in> set result")
    case True
    then show ?thesis using 2 by auto
  next
    case False
    have n: "MaximumInputRequestReasons - length result = Suc (MaximumInputRequestReasons - Suc (length result))"
      using "2.prems" by simp
    show ?thesis
      using 2(2) [OF False refl] "2.prems" False
      by (cases "length result + 1 = MaximumInputRequestReasons") (auto simp: n Let_def)
  qed
qed simp

lemma set_first_occurrences: "set (first_occurrences seen vs) = set vs - set seen"
  by (induction seen vs rule: first_occurrences.induct) auto

lemma distinct_first_occurrences: "distinct (first_occurrences seen vs)"
  by (induction seen vs rule: first_occurrences.induct) (auto simp: set_first_occurrences)

lemma BoundedInputRequestReasons_eq:
  "BoundedInputRequestReasons vs =
     (let r = take 8 (first_occurrences [] (filter validInputRequestReason vs)) in
      if r = [] then [InputRequestFallbackReason] else r)"
  using bounded_reasons_loop_eq [of "[]" vs]
  by (simp add: BoundedInputRequestReasons_def MaximumInputRequestReasons_def Let_def)

lemma fallback_valid: "validInputRequestReason InputRequestFallbackReason"
  by (simp add: validInputRequestReason_def InputRequestFallbackReason_def token_simps)

section \<open>Properties\<close>

text \<open>
  C8. Every session reached from a fresh one by accepted commands keeps its meaning: it is
  completed exactly when it carries a decision, failed exactly when it carries a well-formed
  failure reason, expired exactly when its last change is not before the expiry; its times
  never move backwards; its version counts the commands; and its state is reached along the
  transition graph.
\<close>

theorem session_history_sound:
  assumes "fresh_lifecycle s" and "run_session up cs s = Inr s'"
  shows "lifecycle_ok s' \<and> lc_Version s' = 1 + int (length cs) \<and>
    lc_CreatedAt s' = lc_CreatedAt s \<and> lc_ExpiresAt s' = lc_ExpiresAt s \<and>
    lifecycleEdge\<^sup>*\<^sup>* SessionStateCollecting (lc_State s')"
proof -
  have "lc_Version s \<le> int64_max" "lc_Version s = 1" "lc_State s = SessionStateCollecting"
    using assms(1) by (simp_all add: fresh_lifecycle_def int64_max_def)
  then show ?thesis
    using run_session_ok [OF assms(2) fresh_lifecycle_ok [OF assms(1)]]
      run_session_version [OF assms(2)] run_session_times [OF assms(2)]
      session.run_path [OF assms(2)] by simp
qed

definition example_lifecycle :: Lifecycle where
  "example_lifecycle = \<lparr>lc_State = SessionStateCollecting, lc_Version = 1, lc_CreatedAt = utc_at 1000,
     lc_UpdatedAt = utc_at 1000, lc_ExpiresAt = utc_at 900000, lc_DecisionID = [], lc_Failure = no_failure\<rparr>"

definition example_command :: "int \<Rightarrow> session_state \<Rightarrow> string \<Rightarrow> SessionFailure \<Rightarrow> LifecycleCommand" where
  "example_command v target dec fl = \<lparr>cmd_EventID = ''evt_1'', cmd_VerificationID = ''ver_1'',
     cmd_ExpectedVersion = v, cmd_Target = target, cmd_DecisionID = dec, cmd_ActorID = ''tsk_1'',
     cmd_OccurredAt = utc_at (v * 5000), cmd_Failure = fl\<rparr>"

lemma example_actor [simp]: "lifecycleActor Some ''tsk_1''"
  by (simp add: lifecycleActor_def ParseResource_def ident_Parse_def NewPrefix_def prefixLength_def
      is_lower_def Let_def)

lemmas example_lifecycle_simps = example_lifecycle_def example_command_def AdvanceLifecycle_def
  LifecycleCommand_Validate_def utcNonZero_def IsZero_def Before_def After_def Nanosecond_def
  lifecycleEdge_def int64_max_def Let_def

theorem session_history_sound_witness:
  "\<exists>s'. run_session Some [example_command 1 SessionStateProcessing [] no_failure,
      example_command 2 SessionStateCompleted ''dec_1'' no_failure] example_lifecycle = Inr s' \<and>
    lifecycle_ok s' \<and> lc_Version s' = 3"
proof -
  let ?cs = "[example_command 1 SessionStateProcessing [] no_failure,
      example_command 2 SessionStateCompleted ''dec_1'' no_failure]"
  have f: "fresh_lifecycle example_lifecycle"
    by (simp add: fresh_lifecycle_def example_lifecycle_def After_def)
  obtain s' where r: "run_session Some ?cs example_lifecycle = Inr s'"
    by (simp add: example_lifecycle_simps i64_def)
  from session_history_sound [OF f r] r show ?thesis by auto
qed

text \<open>
  Of two commands computed from the same session version at most one commits: once one
  has been accepted, the other is refused, whatever it asks for.
\<close>

theorem session_no_lost_update:
  assumes "AdvanceLifecycle up s c = Inr s'" and "cmd_ExpectedVersion d = cmd_ExpectedVersion c"
  shows "AdvanceLifecycle up s' d = Inl ErrSessionConflict"
proof -
  have "\<exists>e. AdvanceLifecycle up s' d = Inl e"
    using assms by (rule session.no_lost_update)
  then show ?thesis by (metis (full_types) session_error.exhaust)
qed

theorem session_no_lost_update_witness:
  "AdvanceLifecycle Some
     (example_lifecycle\<lparr>lc_State := SessionStateProcessing, lc_Version := 2, lc_UpdatedAt := utc_at 5000\<rparr>)
     (example_command 1 SessionStateCancelled [] no_failure) = Inl ErrSessionConflict"
  by (rule session_no_lost_update [of _ example_lifecycle "example_command 1 SessionStateProcessing [] no_failure"])
     (simp_all add: example_lifecycle_simps i64_def)

text \<open>
  A finished session is final: after a completed, cancelled, expired or failed state no
  command is accepted.
\<close>

theorem session_terminal_final:
  assumes "Terminal (lc_State s)"
  shows "AdvanceLifecycle up s c = Inl ErrSessionConflict"
proof -
  have "AdvanceLifecycle up s c \<noteq> Inr s'" for s'
    using assms AdvanceLifecycle_Inr(4) by blast
  then show ?thesis by (cases "AdvanceLifecycle up s c") (metis (full_types) session_error.exhaust, blast)
qed

theorem session_terminal_final_witness:
  "AdvanceLifecycle Some (example_lifecycle\<lparr>lc_State := SessionStateCompleted\<rparr>)
     (example_command 1 SessionStateProcessing [] no_failure) = Inl ErrSessionConflict"
  by (rule session_terminal_final) simp

text \<open>
  A failure reason that is set but malformed passes the command check for any target other
  than failed, and is stored: the session is then in a state from which every later command is
  refused, although that state is not terminal.
\<close>

theorem malformed_failure_wedges_session:
  assumes "AdvanceLifecycle up s c = Inr s'" and "cmd_Failure c \<noteq> no_failure"
    and "cmd_Target c \<in> {SessionStateCollecting, SessionStateAwaitingInput, SessionStateProcessing,
           SessionStateAwaitingExternal, SessionStateManualReview}"
  shows "\<not> Terminal (lc_State s') \<and> (\<forall>d. AdvanceLifecycle up s' d = Inl ErrSessionConflict)"
proof -
  have s': "lc_State s' = cmd_Target c" "lc_Failure s' = cmd_Failure c"
    using AdvanceLifecycle_Inr(10) [OF assms(1)] by simp_all
  have "AdvanceLifecycle up s' d \<noteq> Inr t" for d t
    using AdvanceLifecycle_Inr(5) [of up s' d t] s' assms(2) by auto
  moreover have "e = ErrSessionConflict" for e by (cases e) simp
  ultimately have "AdvanceLifecycle up s' d = Inl ErrSessionConflict" for d
    by (metis (full_types) sum.exhaust)
  moreover have "\<not> Terminal (lc_State s')" using assms(3) s' by auto
  ultimately show ?thesis by blast
qed

theorem malformed_failure_wedges_session_witness:
  "\<exists>s'. AdvanceLifecycle Some example_lifecycle
      (example_command 1 SessionStateProcessing [] \<lparr>sf_Class = ''X'', sf_Code = []\<rparr>) = Inr s' \<and>
    \<not> Terminal (lc_State s') \<and> (\<forall>d. AdvanceLifecycle Some s' d = Inl ErrSessionConflict)"
proof -
  let ?c = "example_command 1 SessionStateProcessing [] \<lparr>sf_Class = ''X'', sf_Code = []\<rparr>"
  obtain s' where r: "AdvanceLifecycle Some example_lifecycle ?c = Inr s'"
    by (simp add: example_lifecycle_simps SessionFailure_Validate_def is_lower_def no_failure_def)
  have "cmd_Failure ?c \<noteq> no_failure" "cmd_Target ?c = SessionStateProcessing"
    by (simp_all add: example_command_def no_failure_def)
  with malformed_failure_wedges_session [OF r] r show ?thesis by auto
qed

text \<open>
  The reason codes projected from a policy evaluation are always accepted by the input
  request: the projection keeps the first eight distinct codes of the grammar, in order, or
  the fallback reason when there is none, and the request stores exactly these.
\<close>

theorem bounded_reasons_accepted:
  assumes "identifier \<noteq> []" and "verificationID \<noteq> []" and "lifecycleActor up actorID"
    and "utcNonZero requestedAt" and "Nanosecond requestedAt mod 1000 = 0"
  shows "\<exists>r. NewInputRequest up identifier verificationID caseID (BoundedInputRequestReasons vs)
      actorID requestedAt = Inr r \<and> ir_reasonCodes r =
        (let kept = take 8 (first_occurrences [] (filter validInputRequestReason vs)) in
         if kept = [] then [''policy_request_input''] else kept)"
proof -
  let ?k = "take 8 (first_occurrences [] (filter validInputRequestReason vs))"
  let ?r = "BoundedInputRequestReasons vs"
  have "list_all validInputRequestReason ?k"
    by (auto simp: list_all_iff dest!: in_set_takeD simp: set_first_occurrences)
  then have "list_all validInputRequestReason ?r" "distinct ?r" "?r \<noteq> []" "length ?r \<le> 8"
    using fallback_valid distinct_first_occurrences
    by (auto simp: BoundedInputRequestReasons_eq Let_def)
  then have "reasons_loop [] ?r = Some ?r"
    by (simp add: reasons_loop_Some)
  then show ?thesis
    using assms \<open>?r \<noteq> []\<close> \<open>length ?r \<le> 8\<close>
    by (simp add: NewInputRequest_def MaximumInputRequestReasons_def)
      (simp add: BoundedInputRequestReasons_eq InputRequestFallbackReason_def Let_def)
qed

theorem bounded_reasons_accepted_witness:
  "\<exists>r. NewInputRequest Some ''inp_1'' ''ver_1'' [] (BoundedInputRequestReasons [''Bad'', ''doc.blur'', ''doc.blur''])
      ''tsk_1'' (utc_at 1000) = Inr r \<and> ir_reasonCodes r = [''doc.blur'']"
  using bounded_reasons_accepted [of "''inp_1''" "''ver_1''" Some "''tsk_1''" "utc_at 1000" "[]"
      "[''Bad'', ''doc.blur'', ''doc.blur'']"]
  by (simp add: utcNonZero_def IsZero_def Nanosecond_def validInputRequestReason_def token_simps)

end
