(* ===== verification/Check_Execution.thy ===== *)
theory Check_Execution
  imports Aggregate_Contracts
begin

text \<open>
  \<^verbatim>\<open>internal/verification/execution.go\<close>: the verification check with its immutable attempt
  history. Operations mutate the check through a pointer, also on the way to an error, so
  each returns its result together with the check it leaves behind. The digest of a result
  (JSON encoding, SHA-256, hexadecimal) is the argument \<open>dg\<close> on the encoded value; \<open>None\<close>
  is an encoding error. Identifiers are their public strings, the zero value is empty.
\<close>

section \<open>Data\<close>

datatype check_state = CheckQueued | CheckRunning | CheckAwaitingInput | CheckAwaitingProvider
  | CheckCompleted | CheckSkippedByPolicy | CheckTimedOut | CheckCancelled | CheckFailed
  | CheckStateOther string

text \<open>The empty outcome is \<^verbatim>\<open>""\<close>.\<close>

datatype check_outcome = CheckPassed | CheckNotPassed | CheckInconclusive | CheckNoOutcome
  | CheckOutcomeOther string

datatype runner_kind = RunnerProvider | RunnerModel | RunnerOther string

datatype signal_outcome = SignalSatisfied | SignalNotSatisfied | SignalInconclusive | SignalOther string

datatype retry_disposition = RetryNever | RetryBackoff | RetryReconcile | RetryOther string

datatype attempt_state = AttemptRunning | AttemptCompleted | AttemptFailed | AttemptTimedOut
  | AttemptCancelled | AttemptOther string

datatype exec_error = ErrInvalidCheck | ErrAttemptConflict | ErrStaleAttempt | ErrEncode

record Provenance =
  pv_RunnerID :: string
  pv_RunnerVersion :: string
  pv_PackageDigest :: string
  pv_ContractMajor :: nat
  pv_ContractMinor :: nat
  pv_RequestDigest :: string
  pv_Configuration :: string

record Signal =
  sg_Name :: string
  sg_Outcome :: signal_outcome
  sg_ReasonCodes :: "string list"

record Observation =
  ob_ID :: string
  ob_AttemptID :: string
  ob_RunnerKind :: runner_kind
  ob_Provenance :: Provenance
  ob_Signal :: Signal
  ob_RecordedAt :: go_time

record Failure =
  fl_Class :: string
  fl_Code :: string
  fl_Retry :: retry_disposition
  fl_RetryAfter :: duration

record Attempt =
  at_ID :: string
  at_Number :: nat
  at_Fence :: nat
  at_RunnerKind :: runner_kind
  at_Provenance :: Provenance
  at_State :: attempt_state
  at_StartedAt :: go_time
  at_Deadline :: go_time
  at_FinishedAt :: go_time
  at_Failure :: "Failure option"
  at_Observations :: "Observation list"
  at_resultDigest :: string

record Diagnostic =
  dn_AttemptID :: string
  dn_Kind :: string
  dn_Code :: string
  dn_RecordedAt :: go_time

record Check =
  ck_ID :: string
  ck_TenantID :: string
  ck_VerificationID :: string
  ck_Name :: string
  ck_State :: check_state
  ck_Outcome :: check_outcome
  ck_Version :: int
  ck_CreatedAt :: go_time
  ck_UpdatedAt :: go_time
  ck_attempts :: "Attempt list"
  ck_diagnostics :: "Diagnostic list"

definition maximumSignals :: nat where "maximumSignals = 64"
definition maximumReasonCodes :: nat where "maximumReasonCodes = 16"

section \<open>Tokens and digests\<close>

definition safeExecutionToken :: "string \<Rightarrow> nat \<Rightarrow> bool" where
  "safeExecutionToken v m \<longleftrightarrow> v \<noteq> [] \<and> length v \<le> m \<and> list_all token_char v"

definition digestToken :: "string \<Rightarrow> bool" where
  "digestToken v \<longleftrightarrow> hex64 v"

text \<open>The value that \<^verbatim>\<open>digestResult\<close> encodes: observations without their identifiers.\<close>

record semanticObservation =
  so_AttemptID :: string
  so_RunnerKind :: runner_kind
  so_Provenance :: Provenance
  so_Signal :: Signal
  so_RecordedAt :: go_time

definition truncate_us :: "go_time \<Rightarrow> go_time" where
  "truncate_us t = t\<lparr>t_ns := t_ns t - t_ns t mod 1000\<rparr>"

definition semantic :: "Observation \<Rightarrow> semanticObservation" where
  "semantic ob = \<lparr>so_AttemptID = ob_AttemptID ob, so_RunnerKind = ob_RunnerKind ob,
     so_Provenance = ob_Provenance ob, so_Signal = ob_Signal ob,
     so_RecordedAt = truncate_us (to_UTC (ob_RecordedAt ob))\<rparr>"

type_synonym result_digest = "semanticObservation list \<times> Failure option \<Rightarrow> string option"

definition digestResult :: "result_digest \<Rightarrow> Observation list \<Rightarrow> Failure option \<Rightarrow> exec_error + string" where
  "digestResult dg obs failure =
     (case dg (map semantic obs, failure) of None \<Rightarrow> Inl ErrEncode | Some d \<Rightarrow> Inr d)"

lemma digestResult_Inr: "digestResult dg obs fl = Inr d \<longleftrightarrow> dg (map semantic obs, fl) = Some d"
  by (simp add: digestResult_def split: option.splits)

section \<open>Validation\<close>

definition validateProvenance :: "Provenance \<Rightarrow> exec_error option" where
  "validateProvenance v =
     (if \<not> safeExecutionToken (pv_RunnerID v) 128 \<or> \<not> safeExecutionToken (pv_RunnerVersion v) 64 \<or>
         \<not> digestToken (pv_PackageDigest v) \<or> pv_ContractMajor v = 0 \<or>
         \<not> digestToken (pv_RequestDigest v) \<or> \<not> digestToken (pv_Configuration v)
      then Some ErrInvalidCheck else None)"

fun reason_codes_loop :: "string list \<Rightarrow> string list \<Rightarrow> exec_error option" where
  "reason_codes_loop seen [] = None"
| "reason_codes_loop seen (code # rest) =
     (if \<not> safeExecutionToken code 100 then Some ErrInvalidCheck
      else if code \<in> set seen then Some ErrInvalidCheck
      else reason_codes_loop (code # seen) rest)"

definition validateObservation :: "Observation \<Rightarrow> Attempt \<Rightarrow> go_time \<Rightarrow> exec_error option" where
  "validateObservation v a t =
     (if ob_ID v = [] \<or> ob_AttemptID v \<noteq> at_ID a \<or> ob_RunnerKind v \<noteq> at_RunnerKind a \<or>
         ob_Provenance v \<noteq> at_Provenance a \<or> \<not> utcNonZero (ob_RecordedAt v) \<or> After (ob_RecordedAt v) t \<or>
         \<not> safeExecutionToken (sg_Name (ob_Signal v)) 128 \<or>
         (sg_Outcome (ob_Signal v) \<noteq> SignalSatisfied \<and> sg_Outcome (ob_Signal v) \<noteq> SignalNotSatisfied \<and>
          sg_Outcome (ob_Signal v) \<noteq> SignalInconclusive) \<or>
         length (sg_ReasonCodes (ob_Signal v)) > maximumReasonCodes
      then Some ErrInvalidCheck
      else reason_codes_loop [] (sg_ReasonCodes (ob_Signal v)))"

text \<open>The loop over observations that stops at the first error.\<close>

fun validateObservations :: "Attempt \<Rightarrow> go_time \<Rightarrow> Observation list \<Rightarrow> exec_error option" where
  "validateObservations a t [] = None"
| "validateObservations a t (v # vs) =
     (case validateObservation v a t of Some e \<Rightarrow> Some e | None \<Rightarrow> validateObservations a t vs)"

definition validCheckState :: "check_state \<Rightarrow> bool" where
  "validCheckState s \<longleftrightarrow> (case s of CheckStateOther _ \<Rightarrow> False | _ \<Rightarrow> True)"

definition validCheckOutcome :: "check_outcome \<Rightarrow> bool" where
  "validCheckOutcome oc \<longleftrightarrow> oc = CheckPassed \<or> oc = CheckNotPassed \<or> oc = CheckInconclusive"

definition validRunner :: "runner_kind \<Rightarrow> bool" where
  "validRunner k \<longleftrightarrow> k = RunnerProvider \<or> k = RunnerModel"

definition validFailure :: "Failure \<Rightarrow> bool" where
  "validFailure f \<longleftrightarrow> safeExecutionToken (fl_Class f) 100 \<and> safeExecutionToken (fl_Code f) 100 \<and>
     (fl_Retry f = RetryNever \<or> fl_Retry f = RetryBackoff \<or> fl_Retry f = RetryReconcile) \<and>
     0 \<le> fl_RetryAfter f"

definition validateStoredAttempt :: "result_digest \<Rightarrow> Attempt \<Rightarrow> nat \<Rightarrow> exec_error option" where
  "validateStoredAttempt dg a expectedNumber =
     (if at_ID a = [] \<or> at_Number a \<noteq> expectedNumber \<or> at_Fence a = 0 \<or> \<not> validRunner (at_RunnerKind a) \<or>
         validateProvenance (at_Provenance a) \<noteq> None \<or> \<not> utcNonZero (at_StartedAt a) \<or>
         \<not> utcNonZero (at_Deadline a) \<or> \<not> After (at_Deadline a) (at_StartedAt a)
      then Some ErrInvalidCheck
      else if at_State a = AttemptRunning then
        (if \<not> IsZero (at_FinishedAt a) \<or> at_Failure a \<noteq> None \<or> at_Observations a \<noteq> [] \<or> at_resultDigest a \<noteq> []
         then Some ErrInvalidCheck else None)
      else if at_State a \<noteq> AttemptCompleted \<and> at_State a \<noteq> AttemptFailed \<and> at_State a \<noteq> AttemptTimedOut \<and>
              at_State a \<noteq> AttemptCancelled
      then Some ErrInvalidCheck
      else if \<not> utcNonZero (at_FinishedAt a) \<or> Before (at_FinishedAt a) (at_StartedAt a) \<or>
              \<not> digestToken (at_resultDigest a)
      then Some ErrInvalidCheck
      else
        (case (if at_State a = AttemptCompleted then
                 (if at_Failure a \<noteq> None \<or> at_Observations a = [] then Some ErrInvalidCheck
                  else validateObservations a (at_FinishedAt a) (at_Observations a))
               else (case at_Failure a of
                       None \<Rightarrow> Some ErrInvalidCheck
                     | Some f \<Rightarrow> if at_Observations a \<noteq> [] \<or> \<not> validFailure f then Some ErrInvalidCheck
                                  else None)) of
           Some e \<Rightarrow> Some e
         | None \<Rightarrow>
            (case digestResult dg (at_Observations a) (at_Failure a) of
               Inl _ \<Rightarrow> Some ErrInvalidCheck
             | Inr d \<Rightarrow> if d \<noteq> at_resultDigest a then Some ErrInvalidCheck else None)))"

definition validateCheckAttemptState :: "check_state \<Rightarrow> Attempt list \<Rightarrow> exec_error option" where
  "validateCheckAttemptState st as =
     (if as = [] then (if st = CheckQueued \<or> st = CheckSkippedByPolicy then None else Some ErrInvalidCheck)
      else if list_ex (\<lambda>a. at_State a = AttemptRunning) (butlast as) then Some ErrInvalidCheck
      else
        let latest = at_State (last as) in
        if (case st of
              CheckRunning \<Rightarrow> latest \<noteq> AttemptRunning
            | CheckAwaitingProvider \<Rightarrow> latest \<noteq> AttemptRunning
            | CheckCompleted \<Rightarrow> latest \<noteq> AttemptCompleted
            | CheckFailed \<Rightarrow> latest \<noteq> AttemptFailed
            | CheckTimedOut \<Rightarrow> latest \<noteq> AttemptTimedOut
            | CheckCancelled \<Rightarrow> latest \<noteq> AttemptCancelled
            | CheckSkippedByPolicy \<Rightarrow> latest \<noteq> AttemptCancelled
            | _ \<Rightarrow> False)
        then Some ErrInvalidCheck else None)"

definition uint32 :: "nat \<Rightarrow> nat" where
  "uint32 n = n mod 2 ^ 32"

fun stored_attempts_loop :: "result_digest \<Rightarrow> nat \<Rightarrow> Attempt list \<Rightarrow> exec_error option" where
  "stored_attempts_loop dg i [] = None"
| "stored_attempts_loop dg i (a # as) =
     (case validateStoredAttempt dg a (uint32 (i + 1)) of Some e \<Rightarrow> Some e
      | None \<Rightarrow> stored_attempts_loop dg (Suc i) as)"

definition validDiagnostic :: "Diagnostic \<Rightarrow> bool" where
  "validDiagnostic d \<longleftrightarrow> dn_AttemptID d \<noteq> [] \<and> dn_Kind d \<in> {''duplicate'', ''conflict'', ''stale''} \<and>
     safeExecutionToken (dn_Code d) 100 \<and> utcNonZero (dn_RecordedAt d)"

text \<open>\<^verbatim>\<open>RestoreCheck\<close> on the fields of \<open>c\<close>; the check it returns has the same fields.\<close>

definition RestoreCheck :: "result_digest \<Rightarrow> Check \<Rightarrow> exec_error + Check" where
  "RestoreCheck dg c =
     (if ck_ID c = [] \<or> ck_TenantID c = [] \<or> ck_VerificationID c = [] \<or>
         \<not> safeExecutionToken (ck_Name c) 128 \<or> \<not> validCheckState (ck_State c) \<or> ck_Version c < 1 \<or>
         \<not> utcNonZero (ck_CreatedAt c) \<or> \<not> utcNonZero (ck_UpdatedAt c) \<or>
         Before (ck_UpdatedAt c) (ck_CreatedAt c) \<or>
         (ck_State c = CheckCompleted) \<noteq> validCheckOutcome (ck_Outcome c)
      then Inl ErrInvalidCheck
      else case stored_attempts_loop dg 0 (ck_attempts c) of Some e \<Rightarrow> Inl e
      | None \<Rightarrow>
        (case validateCheckAttemptState (ck_State c) (ck_attempts c) of Some e \<Rightarrow> Inl e
         | None \<Rightarrow> if list_all validDiagnostic (ck_diagnostics c) then Inr c else Inl ErrInvalidCheck))"

definition check_Validate :: "result_digest \<Rightarrow> Check \<Rightarrow> exec_error option" where
  "check_Validate dg c = (case RestoreCheck dg c of Inl e \<Rightarrow> Some e | Inr _ \<Rightarrow> None)"

section \<open>Operations\<close>

definition NewCheck :: "string \<Rightarrow> string \<Rightarrow> string \<Rightarrow> string \<Rightarrow> go_time \<Rightarrow> exec_error + Check" where
  "NewCheck identifier tenantID verificationID name now =
     (if identifier = [] \<or> tenantID = [] \<or> verificationID = [] \<or> \<not> safeExecutionToken name 128 \<or>
         \<not> utcNonZero now
      then Inl ErrInvalidCheck
      else Inr \<lparr>ck_ID = identifier, ck_TenantID = tenantID, ck_VerificationID = verificationID,
                ck_Name = name, ck_State = CheckQueued, ck_Outcome = CheckNoOutcome, ck_Version = 1,
                ck_CreatedAt = now, ck_UpdatedAt = now, ck_attempts = [], ck_diagnostics = []\<rparr>)"

definition BeginAttempt :: "Attempt \<Rightarrow> Check \<Rightarrow> exec_error + Check" where
  "BeginAttempt a c =
     (if (ck_State c \<noteq> CheckQueued \<and> ck_State c \<noteq> CheckFailed \<and> ck_State c \<noteq> CheckTimedOut) \<or>
         at_ID a = [] \<or> at_Number a \<noteq> uint32 (length (ck_attempts c) + 1) \<or> at_Fence a = 0 \<or>
         \<not> validRunner (at_RunnerKind a) \<or> at_State a \<noteq> AttemptRunning \<or>
         \<not> utcNonZero (at_StartedAt a) \<or> \<not> utcNonZero (at_Deadline a) \<or>
         \<not> After (at_Deadline a) (at_StartedAt a) \<or> validateProvenance (at_Provenance a) \<noteq> None
      then Inl ErrInvalidCheck
      else Inr (c\<lparr>ck_attempts := ck_attempts c @ [a], ck_State := CheckRunning,
                  ck_Outcome := CheckNoOutcome, ck_UpdatedAt := at_StartedAt a,
                  ck_Version := i64 (ck_Version c + 1)\<rparr>))"

text \<open>A write through \<^verbatim>\<open>&check.attempts[len(check.attempts)-1]\<close>.\<close>

definition set_last :: "Attempt \<Rightarrow> Attempt list \<Rightarrow> Attempt list" where
  "set_last a as = butlast as @ [a]"

definition SkipRunning :: "result_digest \<Rightarrow> go_time \<Rightarrow> string \<Rightarrow> Check \<Rightarrow> exec_error + Check" where
  "SkipRunning dg t code c =
     (if ck_State c \<noteq> CheckRunning \<or> ck_attempts c = [] \<or> \<not> utcNonZero t \<or>
         Before t (ck_UpdatedAt c) \<or> \<not> safeExecutionToken code 100
      then Inl ErrInvalidCheck
      else
        let a = last (ck_attempts c) in
        if at_State a \<noteq> AttemptRunning \<or> Before t (at_StartedAt a) then Inl ErrInvalidCheck
        else
          let failure = \<lparr>fl_Class = ''cancelled'', fl_Code = code, fl_Retry = RetryNever, fl_RetryAfter = 0\<rparr> in
          case digestResult dg [] (Some failure) of Inl e \<Rightarrow> Inl e
          | Inr d \<Rightarrow>
            Inr (c\<lparr>ck_attempts := set_last (a\<lparr>at_State := AttemptCancelled, at_FinishedAt := t,
                                    at_Failure := Some failure, at_resultDigest := d\<rparr>) (ck_attempts c),
                   ck_State := CheckSkippedByPolicy, ck_Outcome := CheckNoOutcome, ck_UpdatedAt := t,
                   ck_Version := i64 (ck_Version c + 1)\<rparr>))"

text \<open>
  \<^verbatim>\<open>currentAttempt\<close>: the error or the disposition, and the check it leaves behind. The
  attempt pointer it returns is the last attempt of that check.
\<close>

definition currentAttempt :: "string \<Rightarrow> nat \<Rightarrow> go_time \<Rightarrow> Check \<Rightarrow> (exec_error + string) \<times> Check" where
  "currentAttempt attemptID fence t c =
     (if attemptID = [] \<or> fence = 0 \<or> \<not> utcNonZero t \<or> ck_attempts c = [] then (Inl ErrInvalidCheck, c)
      else
        let current = last (ck_attempts c) in
        if at_ID current \<noteq> attemptID \<or> at_Fence current \<noteq> fence \<or> ck_State c \<noteq> CheckRunning then
          (let kind = (if at_ID current = attemptID \<and> at_Fence current = fence \<and>
                          at_State current \<noteq> AttemptRunning then ''duplicate'' else ''stale'');
               c' = c\<lparr>ck_diagnostics := ck_diagnostics c @ [\<lparr>dn_AttemptID = attemptID, dn_Kind = kind,
                        dn_Code = ''terminal_delivery'', dn_RecordedAt = t\<rparr>],
                      ck_UpdatedAt := t, ck_Version := i64 (ck_Version c + 1)\<rparr>
           in if kind = ''duplicate'' then (Inr kind, c') else (Inl ErrStaleAttempt, c'))
        else if Before t (at_StartedAt current) then (Inl ErrInvalidCheck, c)
        else (Inr ''apply'', c))"

definition mark_conflict :: "Check \<Rightarrow> Check" where
  "mark_conflict c = c\<lparr>ck_diagnostics :=
     butlast (ck_diagnostics c) @ [(last (ck_diagnostics c))\<lparr>dn_Kind := ''conflict''\<rparr>]\<rparr>"

fun aggregate_loop :: "check_outcome \<Rightarrow> Observation list \<Rightarrow> check_outcome" where
  "aggregate_loop result [] = result"
| "aggregate_loop result (ob # obs) =
     (if sg_Outcome (ob_Signal ob) = SignalNotSatisfied then CheckNotPassed
      else aggregate_loop (if sg_Outcome (ob_Signal ob) = SignalInconclusive then CheckInconclusive
                           else result) obs)"

definition aggregateOutcome :: "Observation list \<Rightarrow> check_outcome" where
  "aggregateOutcome obs = aggregate_loop CheckPassed obs"

definition CompleteAttempt ::
  "result_digest \<Rightarrow> string \<Rightarrow> nat \<Rightarrow> Observation list \<Rightarrow> go_time \<Rightarrow> Check \<Rightarrow> (exec_error + string) \<times> Check" where
  "CompleteAttempt dg attemptID fence obs t c0 =
     (case currentAttempt attemptID fence t c0 of
        (Inl e, c) \<Rightarrow> (Inl e, c)
      | (Inr disposition, c) \<Rightarrow>
        if obs = [] \<or> length obs > maximumSignals then (Inl ErrInvalidCheck, c)
        else case validateObservations (last (ck_attempts c)) t obs of
          Some e \<Rightarrow> (Inl e, c)
        | None \<Rightarrow>
          (case digestResult dg obs None of
             Inl e \<Rightarrow> (Inl e, c)
           | Inr d \<Rightarrow>
             if disposition = ''duplicate'' then
               (if at_resultDigest (last (ck_attempts c)) \<noteq> d then (Inl ErrAttemptConflict, mark_conflict c)
                else (Inr ''duplicate'', c))
             else
               (Inr ''applied'',
                c\<lparr>ck_attempts := set_last ((last (ck_attempts c))\<lparr>at_State := AttemptCompleted,
                     at_FinishedAt := t, at_Observations := obs, at_resultDigest := d\<rparr>) (ck_attempts c),
                  ck_State := CheckCompleted, ck_Outcome := aggregateOutcome obs,
                  ck_UpdatedAt := t, ck_Version := i64 (ck_Version c + 1)\<rparr>)))"

definition failure_states :: "string \<Rightarrow> attempt_state \<times> check_state" where
  "failure_states cls =
     (if cls = ''deadline_exceeded'' then (AttemptTimedOut, CheckTimedOut)
      else if cls = ''cancelled'' then (AttemptCancelled, CheckCancelled)
      else (AttemptFailed, CheckFailed))"

definition FailAttempt ::
  "result_digest \<Rightarrow> string \<Rightarrow> nat \<Rightarrow> Failure \<Rightarrow> go_time \<Rightarrow> Check \<Rightarrow> (exec_error + string) \<times> Check" where
  "FailAttempt dg attemptID fence failure t c0 =
     (case currentAttempt attemptID fence t c0 of
        (Inl e, c) \<Rightarrow> (Inl e, c)
      | (Inr disposition, c) \<Rightarrow>
        if \<not> validFailure failure then (Inl ErrInvalidCheck, c)
        else case digestResult dg [] (Some failure) of
          Inl e \<Rightarrow> (Inl e, c)
        | Inr d \<Rightarrow>
          if disposition = ''duplicate'' then
            (if at_resultDigest (last (ck_attempts c)) \<noteq> d then (Inl ErrAttemptConflict, mark_conflict c)
             else (Inr ''duplicate'', c))
          else
            (Inr ''applied'',
             c\<lparr>ck_attempts := set_last ((last (ck_attempts c))\<lparr>at_Failure := Some failure,
                  at_FinishedAt := t, at_resultDigest := d, at_State := fst (failure_states (fl_Class failure))\<rparr>)
                  (ck_attempts c),
               ck_State := snd (failure_states (fl_Class failure)), ck_Outcome := CheckNoOutcome,
               ck_UpdatedAt := t, ck_Version := i64 (ck_Version c + 1)\<rparr>))"

definition check_Cancel :: "result_digest \<Rightarrow> go_time \<Rightarrow> Check \<Rightarrow> exec_error option \<times> Check" where
  "check_Cancel dg t c =
     (if ck_State c \<noteq> CheckRunning \<or> \<not> utcNonZero t \<or> Before t (ck_UpdatedAt c)
      then (Some ErrInvalidCheck, c)
      else let a = last (ck_attempts c);
               (r, c') = FailAttempt dg (at_ID a) (at_Fence a)
                  \<lparr>fl_Class = ''cancelled'', fl_Code = ''verification_cancelled'', fl_Retry = RetryNever,
                   fl_RetryAfter = 0\<rparr> t c
           in (case r of Inl e \<Rightarrow> Some e | Inr _ \<Rightarrow> None, c'))"

text \<open>\<^verbatim>\<open>RestoreAttempt\<close>: the digest loaded beside the attempt is put back and checked.\<close>

definition RestoreAttempt :: "result_digest \<Rightarrow> Attempt \<Rightarrow> string \<Rightarrow> exec_error + Attempt" where
  "RestoreAttempt dg a d =
     (let a' = a\<lparr>at_resultDigest := d\<rparr> in
      case validateStoredAttempt dg a' (at_Number a') of Some e \<Rightarrow> Inl e | None \<Rightarrow> Inr a')"

section \<open>Sequences of operations\<close>

datatype exec_op = OpBegin Attempt | OpSkip go_time string
  | OpComplete string nat "Observation list" go_time | OpFail string nat Failure go_time | OpCancel go_time

text \<open>The check left behind by an operation, whether it succeeds or not.\<close>

fun apply_op :: "result_digest \<Rightarrow> exec_op \<Rightarrow> Check \<Rightarrow> Check" where
  "apply_op dg (OpBegin a) c = (case BeginAttempt a c of Inl _ \<Rightarrow> c | Inr c' \<Rightarrow> c')"
| "apply_op dg (OpSkip t code) c = (case SkipRunning dg t code c of Inl _ \<Rightarrow> c | Inr c' \<Rightarrow> c')"
| "apply_op dg (OpComplete i f obs t) c = snd (CompleteAttempt dg i f obs t c)"
| "apply_op dg (OpFail i f failure t) c = snd (FailAttempt dg i f failure t c)"
| "apply_op dg (OpCancel t) c = snd (check_Cancel dg t c)"

inductive check_reachable :: "result_digest \<Rightarrow> Check \<Rightarrow> bool" for dg where
  check_new: "NewCheck i ten ver name now = Inr c \<Longrightarrow> check_reachable dg c"
| check_op: "check_reachable dg c \<Longrightarrow> check_reachable dg (apply_op dg op c)"

section \<open>What one operation changes\<close>

text \<open>The part of a check that carries results: state, outcome and attempts.\<close>

definition core :: "Check \<Rightarrow> check_state \<times> check_outcome \<times> Attempt list" where
  "core c = (ck_State c, ck_Outcome c, ck_attempts c)"

lemma core_mark_conflict [simp]: "core (mark_conflict c) = core c"
  by (simp add: core_def mark_conflict_def)

lemma core_currentAttempt [simp]: "core (snd (currentAttempt i f t c)) = core c"
  by (simp add: currentAttempt_def core_def Let_def)

lemma currentAttempt_apply:
  assumes "currentAttempt i f t c = (Inr d, c')" and "d \<noteq> ''duplicate''"
  shows "c' = c" "ck_State c = CheckRunning" "ck_attempts c \<noteq> []" "at_ID (last (ck_attempts c)) = i"
    "at_Fence (last (ck_attempts c)) = f" "utcNonZero t" "\<not> Before t (at_StartedAt (last (ck_attempts c)))"
  using assms by (auto simp: currentAttempt_def Let_def split: if_splits)

lemma currentAttempt_duplicate:
  assumes "utcNonZero t" "i \<noteq> []" "f \<noteq> 0" "ck_attempts c \<noteq> []"
    and "at_ID (last (ck_attempts c)) = i" "at_Fence (last (ck_attempts c)) = f"
    and "at_State (last (ck_attempts c)) \<noteq> AttemptRunning" "ck_State c \<noteq> CheckRunning"
  shows "fst (currentAttempt i f t c) = Inr ''duplicate''"
  using assms by (simp add: currentAttempt_def Let_def)

text \<open>The attempt and the check that an applied result leaves.\<close>

definition completed :: "go_time \<Rightarrow> Observation list \<Rightarrow> string \<Rightarrow> Check \<Rightarrow> Check" where
  "completed t obs d c =
     c\<lparr>ck_attempts := set_last ((last (ck_attempts c))\<lparr>at_State := AttemptCompleted,
          at_FinishedAt := t, at_Observations := obs, at_resultDigest := d\<rparr>) (ck_attempts c),
       ck_State := CheckCompleted, ck_Outcome := aggregateOutcome obs,
       ck_UpdatedAt := t, ck_Version := i64 (ck_Version c + 1)\<rparr>"

definition failed :: "go_time \<Rightarrow> Failure \<Rightarrow> string \<Rightarrow> Check \<Rightarrow> Check" where
  "failed t failure d c =
     c\<lparr>ck_attempts := set_last ((last (ck_attempts c))\<lparr>at_Failure := Some failure,
          at_FinishedAt := t, at_resultDigest := d, at_State := fst (failure_states (fl_Class failure))\<rparr>)
          (ck_attempts c),
       ck_State := snd (failure_states (fl_Class failure)), ck_Outcome := CheckNoOutcome,
       ck_UpdatedAt := t, ck_Version := i64 (ck_Version c + 1)\<rparr>"

lemma CompleteAttempt_cases:
  obtains (unchanged) "fst (CompleteAttempt dg i f obs t c) \<noteq> Inr ''applied''"
      "core (snd (CompleteAttempt dg i f obs t c)) = core c"
  | (applied) d where "CompleteAttempt dg i f obs t c = (Inr ''applied'', completed t obs d c)"
      "ck_State c = CheckRunning" "ck_attempts c \<noteq> []" "at_ID (last (ck_attempts c)) = i"
      "at_Fence (last (ck_attempts c)) = f" "utcNonZero t" "\<not> Before t (at_StartedAt (last (ck_attempts c)))"
      "obs \<noteq> []" "length obs \<le> maximumSignals" "validateObservations (last (ck_attempts c)) t obs = None"
      "digestResult dg obs None = Inr d"
proof -
  obtain r c1 where cur: "currentAttempt i f t c = (r, c1)" by (cases "currentAttempt i f t c")
  have core1: "core c1 = core c"
    using core_currentAttempt [of i f t c] cur by simp
  let ?good = "\<exists>d disp. r = Inr disp \<and> disp \<noteq> ''duplicate'' \<and> obs \<noteq> [] \<and> length obs \<le> maximumSignals \<and>
      validateObservations (last (ck_attempts c1)) t obs = None \<and> digestResult dg obs None = Inr d"
  show thesis
  proof (cases ?good)
    case True
    then obtain d disp where g: "r = Inr disp" "disp \<noteq> ''duplicate''" "obs \<noteq> []" "length obs \<le> maximumSignals"
      "validateObservations (last (ck_attempts c1)) t obs = None" "digestResult dg obs None = Inr d" by blast
    note ap = currentAttempt_apply [OF cur [unfolded g(1)] g(2)]
    show thesis
      by (rule applied [of d]) (use ap g cur in \<open>auto simp: CompleteAttempt_def completed_def\<close>)
  next
    case False
    show thesis
      by (rule unchanged; insert False core1)
        (auto simp: CompleteAttempt_def cur split: sum.splits option.splits)
  qed
qed

lemma FailAttempt_cases:
  obtains (unchanged) "fst (FailAttempt dg i f failure t c) \<noteq> Inr ''applied''"
      "core (snd (FailAttempt dg i f failure t c)) = core c"
  | (applied) d where "FailAttempt dg i f failure t c = (Inr ''applied'', failed t failure d c)"
      "ck_State c = CheckRunning" "ck_attempts c \<noteq> []" "at_ID (last (ck_attempts c)) = i"
      "at_Fence (last (ck_attempts c)) = f" "utcNonZero t" "\<not> Before t (at_StartedAt (last (ck_attempts c)))"
      "validFailure failure" "digestResult dg [] (Some failure) = Inr d"
proof -
  obtain r c1 where cur: "currentAttempt i f t c = (r, c1)" by (cases "currentAttempt i f t c")
  have core1: "core c1 = core c"
    using core_currentAttempt [of i f t c] cur by simp
  let ?good = "\<exists>d disp. r = Inr disp \<and> disp \<noteq> ''duplicate'' \<and> validFailure failure \<and>
      digestResult dg [] (Some failure) = Inr d"
  show thesis
  proof (cases ?good)
    case True
    then obtain d disp where g: "r = Inr disp" "disp \<noteq> ''duplicate''" "validFailure failure"
      "digestResult dg [] (Some failure) = Inr d" by blast
    note ap = currentAttempt_apply [OF cur [unfolded g(1)] g(2)]
    show thesis
      by (rule applied [of d]) (use ap g cur in \<open>auto simp: FailAttempt_def failed_def\<close>)
  next
    case False
    show thesis
      by (rule unchanged; insert False core1)
        (auto simp: FailAttempt_def cur split: sum.splits option.splits)
  qed
qed

lemma failure_states_terminal:
  "failure_states cls = (a, s) \<Longrightarrow> a \<noteq> AttemptRunning \<and> s \<noteq> CheckRunning \<and> s \<noteq> CheckCompleted"
  by (auto simp: failure_states_def split: if_splits)

lemma failure_states_terminal' [simp]:
  "fst (failure_states cls) \<noteq> AttemptRunning" "snd (failure_states cls) \<noteq> CheckRunning"
  "snd (failure_states cls) \<noteq> CheckCompleted"
  using failure_states_terminal by (metis prod.collapse)+

section \<open>Attempt history\<close>

definition history_ok :: "Check \<Rightarrow> bool" where
  "history_ok c \<longleftrightarrow>
     (ck_State c = CheckRunning \<longleftrightarrow> ck_attempts c \<noteq> [] \<and> at_State (last (ck_attempts c)) = AttemptRunning) \<and>
     list_all (\<lambda>a. at_State a \<noteq> AttemptRunning) (butlast (ck_attempts c)) \<and>
     (ck_State c = CheckCompleted \<longleftrightarrow> ck_Outcome c \<noteq> CheckNoOutcome)"

text \<open>
  Every operation does one of three things to the history: nothing, append a running attempt,
  or finish the running last attempt.
\<close>

definition history_step :: "Check \<Rightarrow> Check \<Rightarrow> bool" where
  "history_step c c' \<longleftrightarrow>
     core c' = core c \<or>
     (\<exists>a. ck_attempts c' = ck_attempts c @ [a] \<and> at_State a = AttemptRunning \<and> ck_State c \<noteq> CheckRunning \<and>
          ck_State c' = CheckRunning \<and> ck_Outcome c' = CheckNoOutcome) \<or>
     (\<exists>a. ck_attempts c' = set_last a (ck_attempts c) \<and> at_State a \<noteq> AttemptRunning \<and>
          ck_attempts c \<noteq> [] \<and> ck_State c = CheckRunning \<and> ck_State c' \<noteq> CheckRunning \<and>
          (ck_State c' = CheckCompleted \<longleftrightarrow> ck_Outcome c' \<noteq> CheckNoOutcome))"

lemma aggregate_loop_eq:
  "aggregate_loop r obs =
     (if list_ex (\<lambda>ob. sg_Outcome (ob_Signal ob) = SignalNotSatisfied) obs then CheckNotPassed
      else if list_ex (\<lambda>ob. sg_Outcome (ob_Signal ob) = SignalInconclusive) obs then CheckInconclusive
      else r)"
  by (induction r obs rule: aggregate_loop.induct) auto

lemma aggregateOutcome_eq:
  "aggregateOutcome obs =
     (if SignalNotSatisfied \<in> set (map (\<lambda>ob. sg_Outcome (ob_Signal ob)) obs) then CheckNotPassed
      else if SignalInconclusive \<in> set (map (\<lambda>ob. sg_Outcome (ob_Signal ob)) obs) then CheckInconclusive
      else CheckPassed)"
  unfolding aggregateOutcome_def aggregate_loop_eq
  by (auto simp: list_ex_iff image_iff) metis+

lemma aggregateOutcome_valid: "validCheckOutcome (aggregateOutcome obs)" "aggregateOutcome obs \<noteq> CheckNoOutcome"
  by (auto simp: aggregateOutcome_def aggregate_loop_eq validCheckOutcome_def)

lemma history_step_Complete: "history_step c (snd (CompleteAttempt dg i f obs t c))"
  by (rule CompleteAttempt_cases [of dg i f obs t c])
     (auto simp: history_step_def completed_def aggregateOutcome_valid)

lemma history_step_Fail: "history_step c (snd (FailAttempt dg i f failure t c))"
  by (rule FailAttempt_cases [of dg i f failure t c]) (auto simp: history_step_def failed_def)

lemma history_step_op: "history_step c (apply_op dg op c)"
proof (cases op)
  case (OpBegin a)
  then show ?thesis
    by (auto simp: BeginAttempt_def history_step_def)
next
  case (OpSkip t code)
  then show ?thesis
    by (auto simp: SkipRunning_def history_step_def Let_def split: sum.splits)
next
  case (OpCancel t)
  then show ?thesis
    using history_step_Fail by (auto simp: check_Cancel_def Let_def split_beta history_step_def [of c c])
qed (simp_all add: history_step_Complete history_step_Fail)

lemma history_ok_not_running:
  assumes "history_ok c" "ck_State c \<noteq> CheckRunning"
  shows "list_all (\<lambda>a. at_State a \<noteq> AttemptRunning) (ck_attempts c)"
proof (cases "ck_attempts c" rule: rev_cases)
  case (snoc as a)
  then show ?thesis using assms by (auto simp: history_ok_def)
qed simp

lemma history_ok_step:
  assumes "history_step c c'" "history_ok c"
  shows "history_ok c'"
  using assms(1) unfolding history_step_def
proof (elim disjE exE conjE)
  assume "core c' = core c"
  then show ?thesis using assms(2) by (simp add: history_ok_def core_def)
next
  fix a
  assume "ck_attempts c' = ck_attempts c @ [a]" "at_State a = AttemptRunning" "ck_State c \<noteq> CheckRunning"
    "ck_State c' = CheckRunning" "ck_Outcome c' = CheckNoOutcome"
  then show ?thesis
    using history_ok_not_running [OF assms(2)] by (simp add: history_ok_def)
next
  fix a
  assume "ck_attempts c' = set_last a (ck_attempts c)" "at_State a \<noteq> AttemptRunning"
    "ck_State c' \<noteq> CheckRunning" "(ck_State c' = CheckCompleted) = (ck_Outcome c' \<noteq> CheckNoOutcome)"
  then show ?thesis
    using assms(2) by (simp add: history_ok_def set_last_def)
qed

lemma history_ok_reachable: "check_reachable dg c \<Longrightarrow> history_ok c"
proof (induction rule: check_reachable.induct)
  case (check_new i ten ver name now c)
  then show ?case by (auto simp: NewCheck_def history_ok_def split: if_splits)
next
  case (check_op c op)
  then show ?case using history_ok_step history_step_op by blast
qed

text \<open>A finished attempt is never changed again.\<close>

lemma history_step_keeps_finished:
  assumes "history_step c c'" "history_ok c" "k < length (ck_attempts c)"
    and "at_State (ck_attempts c ! k) \<noteq> AttemptRunning"
  shows "k < length (ck_attempts c') \<and> ck_attempts c' ! k = ck_attempts c ! k"
proof -
  have k: "k < length (ck_attempts c) - 1" if "ck_State c = CheckRunning"
  proof -
    have "ck_attempts c ! k \<noteq> last (ck_attempts c)"
      using that assms(2,4) by (auto simp: history_ok_def)
    then have "k \<noteq> length (ck_attempts c) - 1"
      using assms(3) by (metis last_conv_nth length_0_conv not_less_zero)
    then show ?thesis using assms(3) by simp
  qed
  show ?thesis
    using assms(1,3) k unfolding history_step_def
    by (elim disjE exE conjE) (auto simp: core_def set_last_def nth_append nth_butlast)
qed

lemma ops_keep_finished:
  assumes "history_ok c" "k < length (ck_attempts c)" "at_State (ck_attempts c ! k) \<noteq> AttemptRunning"
  shows "history_ok (fold (apply_op dg) ops c) \<and> k < length (ck_attempts (fold (apply_op dg) ops c)) \<and>
    ck_attempts (fold (apply_op dg) ops c) ! k = ck_attempts c ! k"
  using assms
proof (induction ops arbitrary: c)
  case (Cons op ops)
  note step = history_step_op [of c dg op]
  have "history_ok (apply_op dg op c)"
    using history_ok_step [OF step Cons.prems(1)] .
  moreover note keep = history_step_keeps_finished [OF step Cons.prems]
  ultimately show ?case
    using Cons.IH [of "apply_op dg op c"] Cons.prems by simp
qed simp

section \<open>Validation is preserved\<close>

abbreviation check_valid :: "result_digest \<Rightarrow> Check \<Rightarrow> bool" where
  "check_valid dg c \<equiv> check_Validate dg c = None"

definition header_ok :: "Check \<Rightarrow> bool" where
  "header_ok c \<longleftrightarrow> ck_ID c \<noteq> [] \<and> ck_TenantID c \<noteq> [] \<and> ck_VerificationID c \<noteq> [] \<and>
     safeExecutionToken (ck_Name c) 128 \<and> validCheckState (ck_State c) \<and> 1 \<le> ck_Version c \<and>
     utcNonZero (ck_CreatedAt c) \<and> utcNonZero (ck_UpdatedAt c) \<and>
     \<not> Before (ck_UpdatedAt c) (ck_CreatedAt c) \<and>
     (ck_State c = CheckCompleted) = validCheckOutcome (ck_Outcome c)"

lemma check_valid_iff:
  "check_valid dg c \<longleftrightarrow> header_ok c \<and> stored_attempts_loop dg 0 (ck_attempts c) = None \<and>
     validateCheckAttemptState (ck_State c) (ck_attempts c) = None \<and>
     list_all validDiagnostic (ck_diagnostics c)"
  by (auto simp: check_Validate_def RestoreCheck_def header_ok_def not_less split: option.splits sum.splits if_splits)

lemma stored_attempts_loop_append:
  "stored_attempts_loop dg i (as @ bs) = None \<longleftrightarrow>
     stored_attempts_loop dg i as = None \<and> stored_attempts_loop dg (i + length as) bs = None"
  by (induction as arbitrary: i) (auto split: option.splits)

lemma stored_attempts_last:
  assumes "stored_attempts_loop dg 0 as = None" "as \<noteq> []"
  shows "stored_attempts_loop dg 0 (butlast as) = None"
    "validateStoredAttempt dg (last as) (uint32 (length as)) = None"
proof -
  have "stored_attempts_loop dg 0 (butlast as @ [last as]) = None" using assms by simp
  then show "stored_attempts_loop dg 0 (butlast as) = None"
    "validateStoredAttempt dg (last as) (uint32 (length as)) = None"
    unfolding stored_attempts_loop_append using assms(2) by (auto split: option.splits)
qed

lemma stored_attempts_set_last:
  assumes "stored_attempts_loop dg 0 as = None" "as \<noteq> []"
    and "validateStoredAttempt dg a (uint32 (length as)) = None"
  shows "stored_attempts_loop dg 0 (set_last a as) = None"
  using stored_attempts_last(1) [OF assms(1,2)] assms(2,3)
  by (simp add: set_last_def stored_attempts_loop_append)

lemma vcas_iff:
  "validateCheckAttemptState st as = None \<longleftrightarrow>
     (if as = [] then st \<in> {CheckQueued, CheckSkippedByPolicy}
      else list_all (\<lambda>a. at_State a \<noteq> AttemptRunning) (butlast as) \<and>
        (case st of
              CheckRunning \<Rightarrow> at_State (last as) = AttemptRunning
            | CheckAwaitingProvider \<Rightarrow> at_State (last as) = AttemptRunning
            | CheckCompleted \<Rightarrow> at_State (last as) = AttemptCompleted
            | CheckFailed \<Rightarrow> at_State (last as) = AttemptFailed
            | CheckTimedOut \<Rightarrow> at_State (last as) = AttemptTimedOut
            | CheckCancelled \<Rightarrow> at_State (last as) = AttemptCancelled
            | CheckSkippedByPolicy \<Rightarrow> at_State (last as) = AttemptCancelled
            | _ \<Rightarrow> True))"
  by (auto simp: validateCheckAttemptState_def list_ex_iff list_all_iff split: check_state.splits)

text \<open>A delivery at or after the last change of the check; a new attempt as the planner builds it.\<close>

fun timely :: "exec_op \<Rightarrow> Check \<Rightarrow> bool" where
  "timely (OpBegin a) c \<longleftrightarrow> \<not> Before (at_StartedAt a) (ck_UpdatedAt c) \<and> IsZero (at_FinishedAt a) \<and>
     at_Failure a = None \<and> at_Observations a = [] \<and> at_resultDigest a = []"
| "timely (OpSkip t code) c \<longleftrightarrow> True"
| "timely (OpComplete i f obs t) c \<longleftrightarrow> \<not> Before t (ck_UpdatedAt c)"
| "timely (OpFail i f failure t) c \<longleftrightarrow> \<not> Before t (ck_UpdatedAt c)"
| "timely (OpCancel t) c \<longleftrightarrow> True"

lemma version_succ:
  assumes "header_ok c" "ck_Version c < int64_max"
  shows "1 \<le> i64 (ck_Version c + 1)"
  using assms i64_succ [of "ck_Version c"] by (simp add: header_ok_def int64_min_def)

lemma check_valid_currentAttempt:
  assumes "check_valid dg c" "ck_Version c < int64_max" "\<not> Before t (ck_UpdatedAt c)"
  shows "check_valid dg (snd (currentAttempt i f t c))"
proof -
  have "header_ok c" using assms(1) by (simp add: check_valid_iff)
  note v = version_succ [OF this assms(2)]
  show ?thesis
    using assms v by (auto simp: check_valid_iff header_ok_def currentAttempt_def Let_def Before_def
        validDiagnostic_def safeExecutionToken_def token_simps)
qed

lemma check_valid_mark_conflict:
  "check_valid dg c \<Longrightarrow> ck_diagnostics c \<noteq> [] \<Longrightarrow> check_valid dg (mark_conflict c)"
  by (cases "ck_diagnostics c" rule: rev_cases)
     (auto simp: check_valid_iff header_ok_def mark_conflict_def validDiagnostic_def)

lemma CompleteAttempt_unchanged:
  assumes "fst (CompleteAttempt dg i f obs t c) \<noteq> Inr ''applied''"
  shows "snd (CompleteAttempt dg i f obs t c) = snd (currentAttempt i f t c) \<or>
     (ck_diagnostics (snd (currentAttempt i f t c)) \<noteq> [] \<and>
      snd (CompleteAttempt dg i f obs t c) = mark_conflict (snd (currentAttempt i f t c)))"
proof -
  obtain r c1 where cur: "currentAttempt i f t c = (r, c1)" by (cases "currentAttempt i f t c")
  have "r = Inr ''duplicate'' \<Longrightarrow> ck_diagnostics c1 \<noteq> []"
    using cur by (auto simp: currentAttempt_def Let_def split: if_splits)
  then show ?thesis
    using assms by (auto simp: CompleteAttempt_def cur split: sum.splits option.splits if_splits)
qed

lemma FailAttempt_unchanged:
  assumes "fst (FailAttempt dg i f failure t c) \<noteq> Inr ''applied''"
  shows "snd (FailAttempt dg i f failure t c) = snd (currentAttempt i f t c) \<or>
     (ck_diagnostics (snd (currentAttempt i f t c)) \<noteq> [] \<and>
      snd (FailAttempt dg i f failure t c) = mark_conflict (snd (currentAttempt i f t c)))"
proof -
  obtain r c1 where cur: "currentAttempt i f t c = (r, c1)" by (cases "currentAttempt i f t c")
  have "r = Inr ''duplicate'' \<Longrightarrow> ck_diagnostics c1 \<noteq> []"
    using cur by (auto simp: currentAttempt_def Let_def split: if_splits)
  then show ?thesis
    using assms by (auto simp: FailAttempt_def cur split: sum.splits option.splits if_splits)
qed

lemma stored_running:
  assumes "validateStoredAttempt dg a n = None" "at_State a = AttemptRunning"
  shows "at_Failure a = None" "at_Observations a = []" "utcNonZero (at_StartedAt a)"
  using assms by (auto simp: validateStoredAttempt_def split: if_splits)

lemma validateObservations_cong:
  "at_ID a = at_ID b \<Longrightarrow> at_RunnerKind a = at_RunnerKind b \<Longrightarrow> at_Provenance a = at_Provenance b \<Longrightarrow>
   validateObservations a t obs = validateObservations b t obs"
  by (induction obs) (auto simp: validateObservation_def split: option.splits)

lemma stored_completed:
  assumes "validateStoredAttempt dg a n = None" "at_State a = AttemptRunning"
    and "utcNonZero t" "\<not> Before t (at_StartedAt a)" "obs \<noteq> []" "validateObservations a t obs = None"
    and "digestResult dg obs None = Inr d" "digestToken d"
  shows "validateStoredAttempt dg (a\<lparr>at_State := AttemptCompleted, at_FinishedAt := t,
     at_Observations := obs, at_resultDigest := d\<rparr>) n = None"
proof -
  have "validateObservations (a\<lparr>at_State := AttemptCompleted, at_FinishedAt := t,
     at_Observations := obs, at_resultDigest := d\<rparr>) t obs = None"
    using assms(6) by (subst validateObservations_cong [of _ a]) simp_all
  then show ?thesis
    using assms stored_running [OF assms(1,2)] by (auto simp: validateStoredAttempt_def split: if_splits)
qed

lemma stored_failed:
  assumes "validateStoredAttempt dg a n = None" "at_State a = AttemptRunning"
    and "utcNonZero t" "\<not> Before t (at_StartedAt a)" "validFailure failure"
    and "digestResult dg [] (Some failure) = Inr d" "digestToken d"
    and "st \<in> {AttemptFailed, AttemptTimedOut, AttemptCancelled}"
  shows "validateStoredAttempt dg (a\<lparr>at_Failure := Some failure, at_FinishedAt := t,
     at_resultDigest := d, at_State := st\<rparr>) n = None"
  using assms stored_running [OF assms(1,2)] by (auto simp: validateStoredAttempt_def split: if_splits)

lemma check_valid_completed:
  assumes "check_valid dg c" "ck_Version c < int64_max" "\<not> Before t (ck_UpdatedAt c)"
    and "ck_State c = CheckRunning" "ck_attempts c \<noteq> []" "utcNonZero t"
      "\<not> Before t (at_StartedAt (last (ck_attempts c)))" "obs \<noteq> []"
      "validateObservations (last (ck_attempts c)) t obs = None" "digestResult dg obs None = Inr d"
      "digestToken d"
  shows "check_valid dg (completed t obs d c)"
proof -
  have h: "header_ok c" and l: "stored_attempts_loop dg 0 (ck_attempts c) = None"
    and v: "validateCheckAttemptState (ck_State c) (ck_attempts c) = None"
    using assms(1) by (simp_all add: check_valid_iff)
  have running: "at_State (last (ck_attempts c)) = AttemptRunning"
    using v assms(4,5) by (simp add: vcas_iff)
  note stored_attempts_last(2) [OF l assms(5)]
  from stored_completed [OF this running assms(6-11)]
  have "stored_attempts_loop dg 0 (ck_attempts (completed t obs d c)) = None"
    unfolding completed_def using l assms(5) by (simp add: stored_attempts_set_last)
  moreover have "header_ok (completed t obs d c)"
    using h assms(3,6) version_succ [OF h assms(2)]
    by (auto simp: header_ok_def completed_def aggregateOutcome_valid validCheckState_def Before_def)
  moreover have "validateCheckAttemptState (ck_State (completed t obs d c)) (ck_attempts (completed t obs d c)) = None"
    using v assms(4,5) by (simp add: vcas_iff completed_def set_last_def)
  ultimately show ?thesis
    using assms(1) by (simp add: check_valid_iff completed_def)
qed

lemma check_valid_failed:
  assumes "check_valid dg c" "ck_Version c < int64_max" "\<not> Before t (ck_UpdatedAt c)"
    and "ck_State c = CheckRunning" "ck_attempts c \<noteq> []" "utcNonZero t"
      "\<not> Before t (at_StartedAt (last (ck_attempts c)))" "validFailure failure"
      "digestResult dg [] (Some failure) = Inr d" "digestToken d"
    and "(st, cs) \<in> {(AttemptFailed, CheckFailed), (AttemptTimedOut, CheckTimedOut),
       (AttemptCancelled, CheckCancelled), (AttemptCancelled, CheckSkippedByPolicy)}"
  shows "check_valid dg (c\<lparr>ck_attempts := set_last ((last (ck_attempts c))\<lparr>at_Failure := Some failure,
          at_FinishedAt := t, at_resultDigest := d, at_State := st\<rparr>) (ck_attempts c),
       ck_State := cs, ck_Outcome := CheckNoOutcome, ck_UpdatedAt := t, ck_Version := i64 (ck_Version c + 1)\<rparr>)"
    (is "check_valid dg ?c")
proof -
  have h: "header_ok c" and l: "stored_attempts_loop dg 0 (ck_attempts c) = None"
    and v: "validateCheckAttemptState (ck_State c) (ck_attempts c) = None"
    using assms(1) by (simp_all add: check_valid_iff)
  have running: "at_State (last (ck_attempts c)) = AttemptRunning"
    using v assms(4,5) by (simp add: vcas_iff)
  have "st \<in> {AttemptFailed, AttemptTimedOut, AttemptCancelled}" using assms(11) by auto
  from stored_failed [OF stored_attempts_last(2) [OF l assms(5)] running assms(6-10) this]
  have "stored_attempts_loop dg 0 (ck_attempts ?c) = None"
    using l assms(5) by (simp add: stored_attempts_set_last)
  moreover have "header_ok ?c"
    using h assms(3,6,11) version_succ [OF h assms(2)]
    by (auto simp: header_ok_def validCheckOutcome_def validCheckState_def Before_def)
  moreover have "validateCheckAttemptState (ck_State ?c) (ck_attempts ?c) = None"
    using v assms(4,5,11) by (auto simp: vcas_iff set_last_def)
  ultimately show ?thesis
    using assms(1) by (simp add: check_valid_iff)
qed

text \<open>The digest is a lower-case hexadecimal SHA-256 value whenever the encoding succeeds.\<close>

definition hex_digest :: "result_digest \<Rightarrow> bool" where
  "hex_digest dg \<longleftrightarrow> (\<forall>m d. dg m = Some d \<longrightarrow> hex64 d)"

lemma hex_digest_token: "hex_digest dg \<Longrightarrow> digestResult dg obs failure = Inr d \<Longrightarrow> digestToken d"
  by (auto simp: digestResult_def hex_digest_def digestToken_def split: option.splits)

lemma failed_eq:
  "failed t failure d c = c\<lparr>ck_attempts := set_last ((last (ck_attempts c))\<lparr>at_Failure := Some failure,
          at_FinishedAt := t, at_resultDigest := d, at_State := fst (failure_states (fl_Class failure))\<rparr>) (ck_attempts c),
       ck_State := snd (failure_states (fl_Class failure)), ck_Outcome := CheckNoOutcome,
       ck_UpdatedAt := t, ck_Version := i64 (ck_Version c + 1)\<rparr>"
  by (simp add: failed_def)

lemma check_valid_FailAttempt:
  assumes "hex_digest dg" "check_valid dg c" "ck_Version c < int64_max" "\<not> Before t (ck_UpdatedAt c)"
  shows "check_valid dg (snd (FailAttempt dg i f failure t c))"
proof (rule FailAttempt_cases [of dg i f failure t c])
  assume "fst (FailAttempt dg i f failure t c) \<noteq> Inr ''applied''"
  from FailAttempt_unchanged [OF this] show ?thesis
    using check_valid_currentAttempt [OF assms(2-4), of i f] check_valid_mark_conflict by auto
next
  fix d
  assume a: "FailAttempt dg i f failure t c = (Inr ''applied'', failed t failure d c)"
    "ck_State c = CheckRunning" "ck_attempts c \<noteq> []" "utcNonZero t"
    "\<not> Before t (at_StartedAt (last (ck_attempts c)))" "validFailure failure"
    "digestResult dg [] (Some failure) = Inr d"
  have "failure_states (fl_Class failure) \<in> {(AttemptFailed, CheckFailed), (AttemptTimedOut, CheckTimedOut),
       (AttemptCancelled, CheckCancelled), (AttemptCancelled, CheckSkippedByPolicy)}"
    by (simp add: failure_states_def)
  then have "check_valid dg (failed t failure d c)"
    unfolding failed_eq using a hex_digest_token [OF assms(1) a(7)] assms
    by (intro check_valid_failed) auto
  with a(1) show ?thesis by simp
qed

lemma check_valid_CompleteAttempt:
  assumes "hex_digest dg" "check_valid dg c" "ck_Version c < int64_max" "\<not> Before t (ck_UpdatedAt c)"
  shows "check_valid dg (snd (CompleteAttempt dg i f obs t c))"
proof (rule CompleteAttempt_cases [of dg i f obs t c])
  assume "fst (CompleteAttempt dg i f obs t c) \<noteq> Inr ''applied''"
  from CompleteAttempt_unchanged [OF this] show ?thesis
    using check_valid_currentAttempt [OF assms(2-4), of i f] check_valid_mark_conflict by auto
next
  fix d
  assume "CompleteAttempt dg i f obs t c = (Inr ''applied'', completed t obs d c)"
    "ck_State c = CheckRunning" "ck_attempts c \<noteq> []" "utcNonZero t"
    "\<not> Before t (at_StartedAt (last (ck_attempts c)))" "obs \<noteq> []"
    "validateObservations (last (ck_attempts c)) t obs = None" "digestResult dg obs None = Inr d"
  then show ?thesis
    using hex_digest_token [OF assms(1)] assms by (simp add: check_valid_completed)
qed

lemma check_valid_BeginAttempt:
  assumes "check_valid dg c" "history_ok c" "ck_Version c < int64_max" "timely (OpBegin a) c"
    and "BeginAttempt a c = Inr c'"
  shows "check_valid dg c'"
proof -
  have h: "header_ok c" and l: "stored_attempts_loop dg 0 (ck_attempts c) = None"
    using assms(1) by (simp_all add: check_valid_iff)
  have c': "c' = c\<lparr>ck_attempts := ck_attempts c @ [a], ck_State := CheckRunning,
      ck_Outcome := CheckNoOutcome, ck_UpdatedAt := at_StartedAt a, ck_Version := i64 (ck_Version c + 1)\<rparr>"
    and g: "ck_State c \<noteq> CheckRunning" "at_State a = AttemptRunning" "utcNonZero (at_StartedAt a)"
    using assms(5) by (auto simp: BeginAttempt_def split: if_splits)
  have "validateStoredAttempt dg a (uint32 (length (ck_attempts c) + 1)) = None"
    using assms(4,5) by (auto simp: BeginAttempt_def validateStoredAttempt_def split: if_splits)
  then have "stored_attempts_loop dg 0 (ck_attempts c') = None"
    using l by (simp add: c' stored_attempts_loop_append)
  moreover have "header_ok c'"
    using h g(3) assms(4) version_succ [OF h assms(3)]
    by (auto simp: c' header_ok_def validCheckOutcome_def validCheckState_def Before_def)
  moreover have "validateCheckAttemptState (ck_State c') (ck_attempts c') = None"
    using history_ok_not_running [OF assms(2) g(1)] g(2) by (simp add: c' vcas_iff)
  ultimately show ?thesis
    using assms(1) by (simp add: check_valid_iff c')
qed

lemma cancelled_update_order:
  "a\<lparr>at_State := st, at_FinishedAt := t, at_Failure := fl, at_resultDigest := d\<rparr> =
   a\<lparr>at_Failure := fl, at_FinishedAt := t, at_resultDigest := d, at_State := st\<rparr>"
  by (cases a) simp

lemma check_valid_op:
  assumes "hex_digest dg" "check_valid dg c" "history_ok c" "ck_Version c < int64_max" "timely op c"
  shows "check_valid dg (apply_op dg op c)"
proof (cases op)
  case (OpBegin a)
  then show ?thesis
    using check_valid_BeginAttempt [OF assms(2-4), of a] assms(2,5) by (auto split: sum.splits)
next
  case (OpSkip t code)
  show ?thesis
  proof (cases "SkipRunning dg t code c")
    case (Inr c')
    let ?f = "\<lparr>fl_Class = ''cancelled'', fl_Code = code, fl_Retry = RetryNever, fl_RetryAfter = 0\<rparr>"
    obtain d where d: "digestResult dg [] (Some ?f) = Inr d"
      and c': "c' = c\<lparr>ck_attempts := set_last ((last (ck_attempts c))\<lparr>at_State := AttemptCancelled,
          at_FinishedAt := t, at_Failure := Some ?f, at_resultDigest := d\<rparr>) (ck_attempts c),
       ck_State := CheckSkippedByPolicy, ck_Outcome := CheckNoOutcome, ck_UpdatedAt := t,
       ck_Version := i64 (ck_Version c + 1)\<rparr>"
      and g: "ck_State c = CheckRunning" "ck_attempts c \<noteq> []" "utcNonZero t" "\<not> Before t (ck_UpdatedAt c)"
        "\<not> Before t (at_StartedAt (last (ck_attempts c)))" "safeExecutionToken code 100"
      using Inr by (auto simp: SkipRunning_def Let_def split: if_splits sum.splits)
    have "validFailure ?f"
      using g(6) by (simp add: validFailure_def safeExecutionToken_def token_simps)
    then have "check_valid dg c'"
      unfolding c' cancelled_update_order using g d hex_digest_token [OF assms(1) d] assms(2,4) by (intro check_valid_failed) auto
    then show ?thesis using OpSkip Inr by simp
  qed (use assms(2) OpSkip in simp)
next
  case (OpCancel t)
  then show ?thesis
    using check_valid_FailAttempt [OF assms(1,2,4)] assms(2)
    by (auto simp: check_Cancel_def Let_def split_beta)
qed (use assms check_valid_FailAttempt check_valid_CompleteAttempt in auto)

lemma check_valid_NewCheck: "NewCheck i ten ver name now = Inr c \<Longrightarrow> check_valid dg c"
  by (auto simp: NewCheck_def check_valid_iff header_ok_def vcas_iff validCheckState_def
      validCheckOutcome_def Before_def split: if_splits)

text \<open>Histories in which every delivery is timely and the version has not reached its end.\<close>

inductive timely_reachable :: "result_digest \<Rightarrow> Check \<Rightarrow> bool" for dg where
  timely_new: "NewCheck i ten ver name now = Inr c \<Longrightarrow> timely_reachable dg c"
| timely_op: "timely_reachable dg c \<Longrightarrow> timely op c \<Longrightarrow> ck_Version c < int64_max \<Longrightarrow>
    timely_reachable dg (apply_op dg op c)"

lemma timely_reachable_reachable: "timely_reachable dg c \<Longrightarrow> check_reachable dg c"
  by (induction rule: timely_reachable.induct) (auto intro: check_reachable.intros)

subsection \<open>A small history\<close>

definition zeros :: string where
  "zeros = replicate 64 (CHR ''0'')"

lemma hex64_zeros [simp]: "hex64 zeros"
  unfolding zeros_def by (rule hex64_replicate)

definition example_prov :: Provenance where
  "example_prov = \<lparr>pv_RunnerID = ''r'', pv_RunnerVersion = ''1'', pv_PackageDigest = zeros,
     pv_ContractMajor = 1, pv_ContractMinor = 0, pv_RequestDigest = zeros, pv_Configuration = zeros\<rparr>"

definition example_attempt :: Attempt where
  "example_attempt = \<lparr>at_ID = ''atm_1'', at_Number = 1, at_Fence = 7, at_RunnerKind = RunnerModel,
     at_Provenance = example_prov, at_State = AttemptRunning, at_StartedAt = utc_at 2000,
     at_Deadline = utc_at 9000, at_FinishedAt = time_zero, at_Failure = None, at_Observations = [],
     at_resultDigest = []\<rparr>"

definition example_obs :: "signal_outcome \<Rightarrow> Observation" where
  "example_obs oc = \<lparr>ob_ID = ''obs_1'', ob_AttemptID = ''atm_1'', ob_RunnerKind = RunnerModel,
     ob_Provenance = example_prov, ob_Signal = \<lparr>sg_Name = ''face'', sg_Outcome = oc, sg_ReasonCodes = []\<rparr>,
     ob_RecordedAt = utc_at 3000\<rparr>"

definition example_check :: Check where
  "example_check = \<lparr>ck_ID = ''chk_1'', ck_TenantID = ''ten_1'', ck_VerificationID = ''ver_1'', ck_Name = ''face'',
     ck_State = CheckQueued, ck_Outcome = CheckNoOutcome, ck_Version = 1, ck_CreatedAt = utc_at 1000,
     ck_UpdatedAt = utc_at 1000, ck_attempts = [], ck_diagnostics = []\<rparr>"

definition example_digest :: result_digest where
  "example_digest = (\<lambda>(obs, fl). Some (replicate 63 (CHR ''0'') @
     [if \<exists>ob \<in> set obs. sg_Outcome (so_Signal ob) = SignalSatisfied then CHR ''1'' else CHR ''0'']))"

definition example_ops :: "exec_op list" where
  "example_ops = [OpBegin example_attempt, OpComplete ''atm_1'' 7 [example_obs SignalSatisfied] (utc_at 4000)]"

definition example_running :: Check where
  "example_running = example_check\<lparr>ck_attempts := [example_attempt], ck_State := CheckRunning,
     ck_UpdatedAt := utc_at 2000, ck_Version := 2\<rparr>"

definition example_completed :: Check where
  "example_completed = completed (utc_at 4000) [example_obs SignalSatisfied]
     (replicate 63 (CHR ''0'') @ ''1'') example_running"

lemma example_new: "NewCheck ''chk_1'' ''ten_1'' ''ver_1'' ''face'' (utc_at 1000) = Inr example_check"
  by (simp add: NewCheck_def example_check_def safeExecutionToken_def token_simps utcNonZero_def IsZero_def)

lemma example_begin: "BeginAttempt example_attempt example_check = Inr example_running"
  by (simp add: BeginAttempt_def example_check_def example_running_def example_attempt_def uint32_def validRunner_def
      utcNonZero_def IsZero_def After_def validateProvenance_def example_prov_def safeExecutionToken_def
      token_simps digestToken_def i64_def del: hex64_def)

lemma example_validate:
  "oc \<in> {SignalSatisfied, SignalNotSatisfied} \<Longrightarrow>
   validateObservations example_attempt (utc_at 4000) [example_obs oc] = None"
  by (auto simp: validateObservation_def example_obs_def example_attempt_def utcNonZero_def IsZero_def
      After_def safeExecutionToken_def token_simps maximumReasonCodes_def)

lemma example_complete:
  "CompleteAttempt example_digest ''atm_1'' 7 [example_obs SignalSatisfied] (utc_at 4000) example_running
     = (Inr ''applied'', example_completed)"
proof -
  have "currentAttempt ''atm_1'' 7 (utc_at 4000) example_running = (Inr ''apply'', example_running)"
    by (simp add: currentAttempt_def example_running_def example_attempt_def utcNonZero_def IsZero_def Before_def)
  moreover have "ck_attempts example_running = [example_attempt]"
    by (simp add: example_running_def)
  moreover have "digestResult example_digest [example_obs SignalSatisfied] None = Inr (replicate 63 (CHR ''0'') @ ''1'')"
    by (simp add: digestResult_def example_digest_def semantic_def example_obs_def)
  ultimately show ?thesis
    using example_validate [of SignalSatisfied]
    by (simp add: CompleteAttempt_def maximumSignals_def example_completed_def completed_def
        del: validateObservations.simps)
qed

lemma example_ops_fold: "fold (apply_op example_digest) example_ops example_check = example_completed"
  by (simp add: example_ops_def example_begin example_complete)

lemma example_reachable: "check_reachable dg example_running" "check_reachable example_digest example_completed"
proof -
  show r: "check_reachable dg example_running" for dg
    using check_op [OF check_new [OF example_new], of dg "OpBegin example_attempt"]
    by (simp add: example_begin)
  show "check_reachable example_digest example_completed"
    using check_op [OF r, of example_digest "OpComplete ''atm_1'' 7 [example_obs SignalSatisfied] (utc_at 4000)"]
    by (simp add: example_complete)
qed

lemma example_completed_attempts:
  "length (ck_attempts example_completed) = 1" "at_State (ck_attempts example_completed ! 0) = AttemptCompleted"
  "ck_State example_completed = CheckCompleted" "ck_attempts example_completed \<noteq> []"
  "ck_CreatedAt example_completed = utc_at 1000"
  by (simp_all add: example_completed_def completed_def example_running_def set_last_def example_check_def)

section \<open>Properties\<close>

text \<open>
  C2. Results are written once. In every state a check can reach, a finished attempt stays
  exactly as it is under every further sequence of operations (retries, duplicate, stale or
  conflicting deliveries, cancellations, new attempts), at its place in the history.
\<close>

theorem finished_attempt_immutable:
  assumes "check_reachable dg c" and "k < length (ck_attempts c)"
    and "at_State (ck_attempts c ! k) \<noteq> AttemptRunning"
  shows "k < length (ck_attempts (fold (apply_op dg) ops c)) \<and>
    ck_attempts (fold (apply_op dg) ops c) ! k = ck_attempts c ! k"
  using ops_keep_finished [OF history_ok_reachable [OF assms(1)] assms(2,3)] by blast

theorem finished_attempt_immutable_witness:
  "ck_attempts (fold (apply_op example_digest) (example_ops @ [OpCancel (utc_at 1)]) example_completed) ! 0 =
    ck_attempts example_completed ! 0"
  using finished_attempt_immutable [OF example_reachable(2), of 0 "example_ops @ [OpCancel (utc_at 1)]"]
    example_completed_attempts by simp

text \<open>
  Only the holder of the current fence can change a result: a terminal delivery for another
  attempt or another fence, or for a check that is not running, leaves state, outcome and
  attempts as they are, whatever it carries.
\<close>

theorem fenced_delivery:
  assumes "ck_State c \<noteq> CheckRunning \<or> ck_attempts c = [] \<or> at_ID (last (ck_attempts c)) \<noteq> i \<or>
    at_Fence (last (ck_attempts c)) \<noteq> f"
  shows "core (snd (CompleteAttempt dg i f obs t c)) = core c \<and>
    core (snd (FailAttempt dg i f failure t c)) = core c"
proof
  show "core (snd (CompleteAttempt dg i f obs t c)) = core c"
    using assms by (cases rule: CompleteAttempt_cases [of dg i f obs t c]) auto
  show "core (snd (FailAttempt dg i f failure t c)) = core c"
    using assms by (cases rule: FailAttempt_cases [of dg i f failure t c]) auto
qed

theorem fenced_delivery_witness:
  "core (snd (FailAttempt example_digest ''atm_1'' 8
     \<lparr>fl_Class = ''cancelled'', fl_Code = ''x'', fl_Retry = RetryNever, fl_RetryAfter = 0\<rparr> (utc_at 4000)
     example_running)) = core example_running"
proof -
  have "at_Fence (last (ck_attempts example_running)) \<noteq> 8"
    by (simp add: example_running_def example_attempt_def)
  then show ?thesis using fenced_delivery [of example_running "''atm_1''" 8] by blast
qed

text \<open>
  The redelivery of an applied result is idempotent and a different result is a conflict:
  after a completion has been applied, delivering a valid result for the same attempt again
  reports a duplicate exactly when its content is the same (identifiers of the observations
  apart), reports a conflict otherwise, and changes no result either way. The digest is only
  assumed not to collide on the two contents.
\<close>

theorem completion_redelivery:
  assumes "CompleteAttempt dg i f obs t c = (Inr ''applied'', c')"
    and "i \<noteq> []" "f \<noteq> 0" "utcNonZero t'" "obs' \<noteq> []" "length obs' \<le> 64"
    and "validateObservations (last (ck_attempts c')) t' obs' = None"
    and "digestResult dg obs' None = Inr d'"
    and "inj_on dg {(map semantic obs, None), (map semantic obs', None)}"
  shows "fst (CompleteAttempt dg i f obs' t' c') =
      (if map semantic obs' = map semantic obs then Inr ''duplicate'' else Inl ErrAttemptConflict) \<and>
    core (snd (CompleteAttempt dg i f obs' t' c')) = core c'"
proof (rule CompleteAttempt_cases [of dg i f obs t c])
  assume "fst (CompleteAttempt dg i f obs t c) \<noteq> Inr ''applied''"
  with assms(1) show ?thesis by simp
next
  fix d
  assume c: "CompleteAttempt dg i f obs t c = (Inr ''applied'', completed t obs d c)"
    "ck_attempts c \<noteq> []" "at_ID (last (ck_attempts c)) = i" "at_Fence (last (ck_attempts c)) = f"
    "digestResult dg obs None = Inr d"
  have c': "c' = completed t obs d c" using assms(1) c(1) by simp
  then have l: "ck_attempts c' \<noteq> []" "at_ID (last (ck_attempts c')) = i" "at_Fence (last (ck_attempts c')) = f"
    "at_State (last (ck_attempts c')) = AttemptCompleted" "ck_State c' = CheckCompleted"
    "at_resultDigest (last (ck_attempts c')) = d"
    using c by (simp_all add: completed_def set_last_def)
  have dup: "fst (currentAttempt i f t' c') = Inr ''duplicate''"
    using l assms(2-4) by (intro currentAttempt_duplicate) simp_all
  moreover have "ck_attempts (snd (currentAttempt i f t' c')) = ck_attempts c'"
    using core_currentAttempt [of i f t' c'] by (simp add: core_def)
  moreover have "d = d' \<longleftrightarrow> map semantic obs' = map semantic obs"
  proof -
    have "dg (map semantic obs, None) = Some d" "dg (map semantic obs', None) = Some d'"
      using c(5) assms(8) by (simp_all add: digestResult_Inr)
    then have "d = d' \<longleftrightarrow> dg (map semantic obs, None) = dg (map semantic obs', None)" by simp
    also have "\<dots> \<longleftrightarrow> (map semantic obs, None :: Failure option) = (map semantic obs', None)"
      by (rule inj_on_eq_iff [OF assms(9)]) simp_all
    finally show ?thesis by auto
  qed
  moreover obtain r1 c1 where cur: "currentAttempt i f t' c' = (r1, c1)"
    by (cases "currentAttempt i f t' c'")
  ultimately have "fst (CompleteAttempt dg i f obs' t' c') =
      (if map semantic obs' = map semantic obs then Inr ''duplicate'' else Inl ErrAttemptConflict)"
    using assms(5-8) l(6) by (simp add: CompleteAttempt_def maximumSignals_def)
  moreover have "core (snd (CompleteAttempt dg i f obs' t' c')) = core c'"
    using l(5) by (cases rule: CompleteAttempt_cases [of dg i f obs' t' c']) auto
  ultimately show ?thesis by blast
qed

theorem completion_redelivery_witness:
  "fst (CompleteAttempt example_digest ''atm_1'' 7 [example_obs SignalNotSatisfied] (utc_at 4000) example_completed)
     = Inl ErrAttemptConflict"
proof -
  have n: "map semantic [example_obs SignalNotSatisfied] \<noteq> map semantic [example_obs SignalSatisfied]"
    by (simp add: semantic_def example_obs_def)
  have d: "digestResult example_digest [example_obs SignalNotSatisfied] None = Inr (replicate 63 (CHR ''0'') @ ''0'')"
    by (simp add: digestResult_def example_digest_def semantic_def example_obs_def)
  have i: "inj_on example_digest {(map semantic [example_obs SignalSatisfied], None),
      (map semantic [example_obs SignalNotSatisfied], None)}"
    by (simp add: example_digest_def semantic_def example_obs_def)
  have v: "validateObservations (last (ck_attempts example_completed)) (utc_at 4000) [example_obs SignalNotSatisfied] = None"
    using example_validate [of SignalNotSatisfied]
    by (subst validateObservations_cong [of _ example_attempt])
      (simp_all add: example_completed_def completed_def example_running_def set_last_def)
  show ?thesis
    using completion_redelivery [OF example_complete _ _ _ _ _ v d i] n
    by (simp add: utcNonZero_def IsZero_def)
qed

text \<open>
  The outcome of a check follows its signals: it has an outcome exactly when it is
  completed; a completion is not passed if some signal is not satisfied, else inconclusive if
  some signal is, and passed if every signal is satisfied. An operational failure, a timeout or
  a cancellation never produces an outcome.
\<close>

theorem outcome_follows_signals:
  assumes "check_reachable dg c"
  shows "(ck_State c = CheckCompleted) = (ck_Outcome c \<noteq> CheckNoOutcome) \<and>
    (fst (CompleteAttempt dg i f obs t c) = Inr ''applied'' \<longrightarrow>
      ck_Outcome (snd (CompleteAttempt dg i f obs t c)) =
        (if SignalNotSatisfied \<in> set (map (\<lambda>ob. sg_Outcome (ob_Signal ob)) obs) then CheckNotPassed
         else if SignalInconclusive \<in> set (map (\<lambda>ob. sg_Outcome (ob_Signal ob)) obs) then CheckInconclusive
         else CheckPassed)) \<and>
    (fst (FailAttempt dg i f failure t c) = Inr ''applied'' \<longrightarrow>
      ck_Outcome (snd (FailAttempt dg i f failure t c)) = CheckNoOutcome)"
proof (intro conjI impI)
  show "(ck_State c = CheckCompleted) = (ck_Outcome c \<noteq> CheckNoOutcome)"
    using history_ok_reachable [OF assms] by (simp add: history_ok_def)
next
  assume a: "fst (CompleteAttempt dg i f obs t c) = Inr ''applied''"
  have "ck_Outcome (snd (CompleteAttempt dg i f obs t c)) = aggregateOutcome obs"
    using a by (cases rule: CompleteAttempt_cases [of dg i f obs t c]) (simp_all add: completed_def)
  then show "ck_Outcome (snd (CompleteAttempt dg i f obs t c)) =
        (if SignalNotSatisfied \<in> set (map (\<lambda>ob. sg_Outcome (ob_Signal ob)) obs) then CheckNotPassed
         else if SignalInconclusive \<in> set (map (\<lambda>ob. sg_Outcome (ob_Signal ob)) obs) then CheckInconclusive
         else CheckPassed)"
    by (simp only: aggregateOutcome_eq)
next
  assume "fst (FailAttempt dg i f failure t c) = Inr ''applied''"
  then show "ck_Outcome (snd (FailAttempt dg i f failure t c)) = CheckNoOutcome"
    by (cases rule: FailAttempt_cases [of dg i f failure t c]) (simp_all add: failed_def)
qed

theorem outcome_follows_signals_witness:
  "ck_Outcome (snd (CompleteAttempt example_digest ''atm_1'' 7 [example_obs SignalSatisfied] (utc_at 4000)
     example_running)) = CheckPassed"
  using outcome_follows_signals [OF example_reachable(1), of example_digest "''atm_1''" 7
      "[example_obs SignalSatisfied]" "utc_at 4000"]
  by (simp add: example_complete) (simp add: example_obs_def)

text \<open>
  Every check reached by timely operations passes its own validation, so it can be stored
  and loaded again, whatever the operations report.
\<close>

theorem timely_checks_validate:
  assumes "hex_digest dg" and "timely_reachable dg c"
  shows "RestoreCheck dg c = Inr c"
proof -
  have "check_valid dg c"
    using assms(2)
  proof (induction rule: timely_reachable.induct)
    case (timely_new i ten ver name now c)
    then show ?case by (rule check_valid_NewCheck)
  next
    case (timely_op c op)
    then show ?case
      using check_valid_op [OF assms(1)] history_ok_reachable [OF timely_reachable_reachable] by blast
  qed
  then show ?thesis
    by (auto simp: check_Validate_def RestoreCheck_def split: sum.splits if_splits option.splits)
qed

theorem timely_checks_validate_witness:
  "RestoreCheck example_digest example_completed = Inr example_completed"
proof (rule timely_checks_validate)
  show "hex_digest example_digest"
    by (auto simp: hex_digest_def example_digest_def hex64_def is_hex_lower_def is_digit_def list_all_iff)
  have "timely_reachable example_digest example_running"
    using timely_op [OF timely_new [OF example_new], of "OpBegin example_attempt" example_digest]
    by (simp add: example_begin)
      (simp add: example_attempt_def example_check_def Before_def IsZero_def time_zero_def int64_max_def)
  from timely_op [OF this, of "OpComplete ''atm_1'' 7 [example_obs SignalSatisfied] (utc_at 4000)"]
  show "timely_reachable example_digest example_completed"
    by (simp add: example_complete) (simp add: example_running_def Before_def int64_max_def)
qed

text \<open>
  A stale or repeated delivery with a clock reading before the creation of the check breaks
  it: the operation moves the update time back, and the check no longer validates.
\<close>

theorem early_delivery_breaks_check:
  assumes "ck_State c \<noteq> CheckRunning" and "ck_attempts c \<noteq> []" and "i \<noteq> []" and "f \<noteq> 0"
    and "utcNonZero t" and "Before t (ck_CreatedAt c)"
  shows "check_Validate dg (snd (FailAttempt dg i f failure t c)) = Some ErrInvalidCheck"
proof -
  let ?c = "snd (currentAttempt i f t c)"
  have u: "ck_UpdatedAt ?c = t" "ck_CreatedAt ?c = ck_CreatedAt c"
    using assms(1-5) by (simp_all add: currentAttempt_def Let_def)
  have "fst (FailAttempt dg i f failure t c) \<noteq> Inr ''applied''"
    using assms(1) by (cases rule: FailAttempt_cases [of dg i f failure t c]) auto
  from FailAttempt_unchanged [OF this]
  have "ck_UpdatedAt (snd (FailAttempt dg i f failure t c)) = t"
    "ck_CreatedAt (snd (FailAttempt dg i f failure t c)) = ck_CreatedAt c"
    using u by (auto simp: mark_conflict_def)
  then show ?thesis
    using assms(6) by (simp add: check_Validate_def RestoreCheck_def)
qed

theorem early_delivery_breaks_check_witness:
  "check_Validate example_digest (snd (FailAttempt example_digest ''atm_1'' 7
     \<lparr>fl_Class = ''cancelled'', fl_Code = ''x'', fl_Retry = RetryNever, fl_RetryAfter = 0\<rparr> (utc_at 500)
     example_completed)) = Some ErrInvalidCheck"
  by (rule early_delivery_breaks_check)
     (simp_all add: example_completed_attempts utcNonZero_def IsZero_def Before_def)

end
