(* ===== verification/Policy_Contract.thy ===== *)
theory Policy_Contract
  imports Go_Prelude
begin

text \<open>
  \<^verbatim>\<open>internal/policy/contract.go\<close> and the fact validation of \<^verbatim>\<open>snapshot.go\<close>: the closed
  vocabularies of the policy package, its references, facts with their tagged sources, and
  the canonical forms (sorted, without repetition) that make evaluation deterministic.
  Identifiers are their public strings, the zero value is empty. Pointers are options.
\<close>

section \<open>Vocabularies and bounds\<close>

datatype policy_error = ErrInvalid | ErrConflict | ErrVersion | ErrStaleFact | ErrReproduction | ErrEncoding

datatype requirement_state = RequirementSatisfied | RequirementNotSatisfied | RequirementInconclusive
  | RequirementUnavailable | RequirementProhibited | RequirementStateOther string

datatype directive = DirectiveCompleteVerified | DirectiveCompleteNotVerified
  | DirectiveCompleteInconclusive | DirectiveRequestInput | DirectiveRunCheck | DirectiveRetryCheck
  | DirectiveUseFallback | DirectiveRouteManualReview | DirectiveFailWorkflow | DirectiveOther string

text \<open>The empty outcome \<^verbatim>\<open>""\<close> is \<open>OutcomeNone\<close>.\<close>

datatype policy_outcome = OutcomeVerified | OutcomeNotVerified | OutcomeInconclusive | OutcomeNone

datatype actor_class = ActorMachine | ActorHuman | ActorOther string

datatype fact_source_kind = FactSourceCheck | FactSourceProcessingAuthority | FactSourceSubjectResponse
  | FactSourceReviewFinding | FactSourceFraud | FactSourceIdentity | FactSourceOther string

definition SnapshotSchemaMajor :: nat where "SnapshotSchemaMajor = 1"
definition SnapshotSchemaMinor :: nat where "SnapshotSchemaMinor = 0"
definition MaximumFacts :: nat where "MaximumFacts = 128"
definition MaximumRequirements :: nat where "MaximumRequirements = 128"
definition MaximumReasonsPerItem :: nat where "MaximumReasonsPerItem = 16"
definition MaximumSnapshotReasons :: nat where "MaximumSnapshotReasons = 256"
definition MaximumObservations :: nat where "MaximumObservations = 64"
definition MaximumPriority :: nat where "MaximumPriority = 1000"
definition MaximumSnapshotBytes :: nat where "MaximumSnapshotBytes = 262144"

definition validRequirementState :: "requirement_state \<Rightarrow> bool" where
  "validRequirementState s \<longleftrightarrow> (case s of RequirementStateOther _ \<Rightarrow> False | _ \<Rightarrow> True)"

definition validDirective :: "directive \<Rightarrow> bool" where
  "validDirective d \<longleftrightarrow> (case d of DirectiveOther _ \<Rightarrow> False | _ \<Rightarrow> True)"

definition validActor :: "actor_class \<Rightarrow> bool" where
  "validActor a \<longleftrightarrow> a = ActorMachine \<or> a = ActorHuman"

section \<open>Tokens\<close>

text \<open>\<^verbatim>\<open>^[a-z][a-z0-9._:-]*$\<close> with a bound on the length.\<close>

definition validToken :: "string \<Rightarrow> nat \<Rightarrow> bool" where
  "validToken v m \<longleftrightarrow> 0 < length v \<and> length v \<le> m \<and> pattern is_lower token_char (length v) v"

definition validDigest :: "string \<Rightarrow> bool" where
  "validDigest v \<longleftrightarrow> hex64 v"

definition validUTC :: "go_time \<Rightarrow> bool" where
  "validUTC t \<longleftrightarrow> \<not> IsZero t \<and> t_utc t"

text \<open>\<^verbatim>\<open>^[a-z][a-z0-9_]*(\.[a-z][a-z0-9_]*)+$\<close>: at least two dot-separated segments.\<close>

fun split_dot :: "string \<Rightarrow> string list" where
  "split_dot [] = [[]]"
| "split_dot (c # cs) =
     (if c = CHR ''.'' then [] # split_dot cs
      else case split_dot cs of [] \<Rightarrow> [[c]] | w # ws \<Rightarrow> (c # w) # ws)"

definition fact_segment :: "string \<Rightarrow> bool" where
  "fact_segment w \<longleftrightarrow> pattern is_lower (\<lambda>c. is_lower c \<or> is_digit c \<or> c = CHR ''_'') (length w) w"

definition NewFactKey :: "string \<Rightarrow> policy_error + string" where
  "NewFactKey v =
     (if length v = 0 \<or> length v > 128 \<or> \<not> (length (split_dot v) \<ge> 2 \<and> list_all fact_segment (split_dot v))
      then Inl ErrInvalid else Inr v)"

definition canonicalTokens :: "string list \<Rightarrow> policy_error + string list" where
  "canonicalTokens vs =
     (if \<not> list_all (\<lambda>v. validToken v 100) vs then Inl ErrInvalid
      else if adjacent_dup (sort vs) then Inl ErrInvalid
      else Inr (sort vs))"

section \<open>References, facts and requirement results\<close>

record Reference =
  rf_ID :: string
  rf_Revision :: nat
  rf_SchemaMajor :: nat
  rf_SchemaMinor :: nat
  rf_Digest :: string

record EvaluatorReference =
  ev_Major :: nat
  ev_Minor :: nat
  ev_Digest :: string

definition Reference_validate :: "Reference \<Rightarrow> policy_error option" where
  "Reference_validate r =
     (if rf_ID r = [] \<or> rf_Revision r = 0 \<or> rf_SchemaMajor r \<noteq> SnapshotSchemaMajor \<or>
         rf_SchemaMinor r \<noteq> SnapshotSchemaMinor \<or> \<not> validDigest (rf_Digest r)
      then Some ErrVersion else None)"

definition EvaluatorReference_validate :: "EvaluatorReference \<Rightarrow> policy_error option" where
  "EvaluatorReference_validate r =
     (if ev_Major r \<noteq> SnapshotSchemaMajor \<or> ev_Minor r \<noteq> SnapshotSchemaMinor \<or> \<not> validDigest (ev_Digest r)
      then Some ErrVersion else None)"

record CheckSource =
  cs_CheckID :: string
  cs_CheckVersion :: int
  cs_AttemptID :: string
  cs_ObservationIDs :: "string list"
  cs_ContractDigest :: string
  cs_ImplementationDigest :: string

text \<open>The sources with one field are that field.\<close>

record FactSource =
  fs_Identity :: "string option"
  fs_Kind :: fact_source_kind
  fs_Check :: "CheckSource option"
  fs_Authority :: "string option"
  fs_SubjectResponse :: "string option"
  fs_ReviewFinding :: "string option"
  fs_Fraud :: "string option"

record Fact =
  fa_Key :: string
  fa_State :: requirement_state
  fa_Source :: FactSource
  fa_ObservedAt :: go_time
  fa_ExpiresAt :: "go_time option"
  fa_ReasonCodes :: "string list"

record RequirementResult =
  rr_Name :: string
  rr_State :: requirement_state
  rr_ContributingFacts :: "string list"
  rr_Candidate :: directive
  rr_Priority :: nat
  rr_ReasonCodes :: "string list"

section \<open>Fact validation\<close>

definition count_set :: "bool list \<Rightarrow> nat" where
  "count_set bs = length (filter id bs)"

definition validateSource :: "FactSource \<Rightarrow> policy_error + FactSource" where
  "validateSource v =
     (if count_set [fs_Check v \<noteq> None, fs_Authority v \<noteq> None, fs_SubjectResponse v \<noteq> None,
                    fs_ReviewFinding v \<noteq> None, fs_Fraud v \<noteq> None, fs_Identity v \<noteq> None] \<noteq> 1
      then Inl ErrInvalid
      else case fs_Kind v of
        FactSourceIdentity \<Rightarrow>
          (case fs_Identity v of None \<Rightarrow> Inl ErrInvalid
           | Some d \<Rightarrow> if \<not> validDigest d then Inl ErrInvalid else Inr v)
      | FactSourceFraud \<Rightarrow>
          (case fs_Fraud v of None \<Rightarrow> Inl ErrInvalid
           | Some d \<Rightarrow> if \<not> validDigest d then Inl ErrInvalid else Inr v)
      | FactSourceCheck \<Rightarrow>
          (case fs_Check v of None \<Rightarrow> Inl ErrInvalid
           | Some c \<Rightarrow>
              if fs_Authority v \<noteq> None \<or> fs_SubjectResponse v \<noteq> None \<or> fs_ReviewFinding v \<noteq> None \<or>
                 cs_CheckID c = [] \<or> cs_CheckVersion c < 1 \<or> cs_AttemptID c = [] \<or>
                 cs_ObservationIDs c = [] \<or> length (cs_ObservationIDs c) > MaximumObservations \<or>
                 \<not> validDigest (cs_ContractDigest c) \<or> \<not> validDigest (cs_ImplementationDigest c)
              then Inl ErrInvalid
              else let ids = sort (cs_ObservationIDs c) in
                   if [] \<in> set ids \<or> adjacent_dup ids then Inl ErrInvalid
                   else Inr (v\<lparr>fs_Check := Some (c\<lparr>cs_ObservationIDs := ids\<rparr>)\<rparr>))
      | FactSourceProcessingAuthority \<Rightarrow>
          (case fs_Authority v of None \<Rightarrow> Inl ErrInvalid
           | Some a \<Rightarrow> if fs_Check v \<noteq> None \<or> fs_SubjectResponse v \<noteq> None \<or> fs_ReviewFinding v \<noteq> None \<or> a = []
                       then Inl ErrInvalid else Inr v)
      | FactSourceSubjectResponse \<Rightarrow>
          (case fs_SubjectResponse v of None \<Rightarrow> Inl ErrInvalid
           | Some a \<Rightarrow> if fs_Check v \<noteq> None \<or> fs_Authority v \<noteq> None \<or> fs_ReviewFinding v \<noteq> None \<or> a = []
                       then Inl ErrInvalid else Inr v)
      | FactSourceReviewFinding \<Rightarrow>
          (case fs_ReviewFinding v of None \<Rightarrow> Inl ErrInvalid
           | Some r \<Rightarrow> if fs_Check v \<noteq> None \<or> fs_Authority v \<noteq> None \<or> fs_SubjectResponse v \<noteq> None \<or>
                           \<not> validToken r 128
                       then Inl ErrInvalid else Inr v)
      | FactSourceOther _ \<Rightarrow> Inl ErrInvalid)"

definition expiry_error :: "Fact \<Rightarrow> go_time \<Rightarrow> policy_error option" where
  "expiry_error v evaluatedAt =
     (case fa_ExpiresAt v of None \<Rightarrow> None
      | Some e \<Rightarrow> if \<not> validUTC e \<or> \<not> After e (fa_ObservedAt v) then Some ErrInvalid
                  else if \<not> Before evaluatedAt e then Some ErrStaleFact else None)"

definition validateFact :: "Fact \<Rightarrow> go_time \<Rightarrow> policy_error + Fact" where
  "validateFact v evaluatedAt =
     (case NewFactKey (fa_Key v) of Inl _ \<Rightarrow> Inl ErrInvalid
      | Inr _ \<Rightarrow>
        if \<not> validRequirementState (fa_State v) \<or> \<not> validUTC (fa_ObservedAt v) \<or>
           After (fa_ObservedAt v) evaluatedAt \<or> length (fa_ReasonCodes v) > MaximumReasonsPerItem
        then Inl ErrInvalid
        else case expiry_error v evaluatedAt of Some e \<Rightarrow> Inl e
        | None \<Rightarrow>
          (case canonicalTokens (fa_ReasonCodes v) of Inl e \<Rightarrow> Inl e
           | Inr reasons \<Rightarrow>
             (case validateSource (fa_Source v) of Inl e \<Rightarrow> Inl e
              | Inr source \<Rightarrow> Inr (v\<lparr>fa_Source := source, fa_ReasonCodes := reasons\<rparr>))))"

text \<open>\<open>facts\<close> is the set of keys of the map built from the snapshot.\<close>

definition validateResult :: "RequirementResult \<Rightarrow> string set \<Rightarrow> policy_error + RequirementResult" where
  "validateResult v facts =
     (if \<not> validToken (rr_Name v) 128 \<or> \<not> validRequirementState (rr_State v) \<or>
         \<not> validDirective (rr_Candidate v) \<or> rr_Priority v = 0 \<or> rr_Priority v > MaximumPriority \<or>
         rr_ContributingFacts v = [] \<or> length (rr_ContributingFacts v) > MaximumFacts \<or>
         length (rr_ReasonCodes v) > MaximumReasonsPerItem
      then Inl ErrInvalid
      else
        let fs = sort (rr_ContributingFacts v) in
        if \<not> list_all (\<lambda>f. (case NewFactKey f of Inl _ \<Rightarrow> False | Inr _ \<Rightarrow> True) \<and> f \<in> facts) fs \<or> adjacent_dup fs
        then Inl ErrInvalid
        else case canonicalTokens (rr_ReasonCodes v) of Inl e \<Rightarrow> Inl e
             | Inr reasons \<Rightarrow> Inr (v\<lparr>rr_ContributingFacts := fs, rr_ReasonCodes := reasons\<rparr>))"

definition uniqueTokens :: "string list \<Rightarrow> nat \<Rightarrow> policy_error + string list" where
  "uniqueTokens vs m = (if length vs > m then Inl ErrInvalid else Inr (compact (sort vs)))"

section \<open>Canonical forms are fixpoints\<close>

lemma canonicalTokens_Inr:
  "canonicalTokens vs = Inr ws \<longleftrightarrow> ws = sort vs \<and> list_all (\<lambda>v. validToken v 100) vs \<and> distinct vs"
  by (auto simp: canonicalTokens_def adjacent_dup_sort)

lemma canonicalTokens_idem: "canonicalTokens vs = Inr ws \<Longrightarrow> canonicalTokens ws = Inr ws"
  by (auto simp: canonicalTokens_Inr list_all_iff)

lemma canonicalTokens_perm: "mset vs = mset ws \<Longrightarrow> canonicalTokens vs = canonicalTokens ws"
  using sort_perm [of vs ws] mset_eq_setD [of vs ws] by (simp add: canonicalTokens_def list_all_iff)

lemma validateSource_cases:
  assumes "validateSource v = Inr w"
  shows "w = v \<and> fs_Kind v \<noteq> FactSourceCheck \<or>
    (\<exists>c. fs_Kind v = FactSourceCheck \<and> fs_Check v = Some c \<and>
         w = v\<lparr>fs_Check := Some (c\<lparr>cs_ObservationIDs := sort (cs_ObservationIDs c)\<rparr>)\<rparr>)"
  using assms unfolding validateSource_def Let_def
  by (simp split: if_splits fact_source_kind.splits option.splits)

lemma validateSource_idem:
  assumes "validateSource v = Inr w"
  shows "validateSource w = Inr w"
  using validateSource_cases [OF assms]
proof (elim disjE exE conjE)
  fix c assume c: "fs_Kind v = FactSourceCheck" "fs_Check v = Some c"
    "w = v\<lparr>fs_Check := Some (c\<lparr>cs_ObservationIDs := sort (cs_ObservationIDs c)\<rparr>)\<rparr>"
  show ?thesis
    using assms c by (simp add: validateSource_def Let_def split: if_splits)
qed (use assms in simp)

lemma validateSource_presence:
  assumes "validateSource v = Inr w"
  shows "fs_Authority w = fs_Authority v" "fs_SubjectResponse w = fs_SubjectResponse v"
    "fs_ReviewFinding w = fs_ReviewFinding v" "fs_Identity w = fs_Identity v" "fs_Fraud w = fs_Fraud v"
    "map_option (\<lambda>c. set (cs_ObservationIDs c)) (fs_Check w) = map_option (\<lambda>c. set (cs_ObservationIDs c)) (fs_Check v)"
  using validateSource_cases [OF assms] by auto

lemma validateFact_Inr:
  "validateFact v t = Inr w \<longleftrightarrow>
     (\<exists>k reasons source. NewFactKey (fa_Key v) = Inr k \<and> validRequirementState (fa_State v) \<and>
       validUTC (fa_ObservedAt v) \<and> \<not> After (fa_ObservedAt v) t \<and>
       length (fa_ReasonCodes v) \<le> MaximumReasonsPerItem \<and> expiry_error v t = None \<and>
       canonicalTokens (fa_ReasonCodes v) = Inr reasons \<and> validateSource (fa_Source v) = Inr source \<and>
       w = v\<lparr>fa_Source := source, fa_ReasonCodes := reasons\<rparr>)"
  by (auto simp: validateFact_def not_less split: sum.splits option.splits)

lemma validateFact_key: "validateFact v t = Inr w \<Longrightarrow> fa_Key w = fa_Key v"
  by (auto simp: validateFact_Inr)

lemma expiry_error_update: "expiry_error (v\<lparr>fa_Source := s, fa_ReasonCodes := r\<rparr>) t = expiry_error v t"
  by (simp add: expiry_error_def split: option.splits)

lemma validateFact_idem: "validateFact v t = Inr w \<Longrightarrow> validateFact w t = Inr w"
  by (auto simp: validateFact_Inr validateSource_idem canonicalTokens_Inr list_all_iff expiry_error_update)

lemma validateResult_Inr:
  "validateResult v fs = Inr w \<longleftrightarrow>
     validToken (rr_Name v) 128 \<and> validRequirementState (rr_State v) \<and> validDirective (rr_Candidate v) \<and>
     rr_Priority v \<noteq> 0 \<and> rr_Priority v \<le> MaximumPriority \<and> rr_ContributingFacts v \<noteq> [] \<and>
     length (rr_ContributingFacts v) \<le> MaximumFacts \<and> length (rr_ReasonCodes v) \<le> MaximumReasonsPerItem \<and>
     (\<forall>f \<in> set (rr_ContributingFacts v). (\<exists>k. NewFactKey f = Inr k) \<and> f \<in> fs) \<and>
     distinct (rr_ContributingFacts v) \<and>
     (\<exists>reasons. canonicalTokens (rr_ReasonCodes v) = Inr reasons \<and>
        w = v\<lparr>rr_ContributingFacts := sort (rr_ContributingFacts v), rr_ReasonCodes := reasons\<rparr>)"
proof -
  have k: "(case NewFactKey f of Inl _ \<Rightarrow> False | Inr _ \<Rightarrow> True) \<longleftrightarrow> (\<exists>k. NewFactKey f = Inr k)" for f
    by (cases "NewFactKey f") auto
  show ?thesis
    unfolding validateResult_def k
    by (auto simp: Let_def not_less adjacent_dup_sort list_all_iff split: sum.splits)
qed

lemma validateResult_idem: "validateResult v fs = Inr w \<Longrightarrow> validateResult w fs = Inr w"
  by (auto simp: validateResult_Inr canonicalTokens_Inr list_all_iff)

lemma validateResult_name: "validateResult v fs = Inr w \<Longrightarrow> rr_Name w = rr_Name v"
  by (auto simp: validateResult_Inr)

lemma validateResult_keeps:
  "validateResult v fs = Inr w \<Longrightarrow> rr_State w = rr_State v \<and> rr_Candidate w = rr_Candidate v \<and>
   rr_Priority w = rr_Priority v"
  by (auto simp: validateResult_Inr)

end
