(* ===== verification/Assurance.thy ===== *)
theory Assurance
  imports Policy_Contract
begin

text \<open>
  \<^verbatim>\<open>internal/policy/assurance.go\<close> and \<^verbatim>\<open>assurance_capability.go\<close>: assurance profiles, the
  capability catalogue, the decision context with its canonical form, and the count of
  independent sources by union-find over shared provenance roots.

  JSON encodings are arguments, collected in the record \<open>assurance_codec\<close>: the bytes by
  which mappings and references are ordered, the size of an encoded context (\<open>None\<close> for an
  encoding error) and the digest of a profile. The defensive round trip through JSON is the
  identity on the values that pass the checks after it (strings of valid UTF-8, times in UTC).
\<close>

section \<open>Capability catalogue\<close>

record AssuranceCapability =
  cap_Name :: string
  cap_Dimensions :: "string list"
  cap_Signals :: "string list"
  cap_SignalPrefix :: string
  cap_RunnerKinds :: "string list"
  cap_RequiredCaptureAssurances :: "string list"

definition live_assurances :: "string list" where
  "live_assurances = [''idenqa.assurance.freshness'', ''idenqa.assurance.live_capture'']"

definition capability :: "string \<Rightarrow> string list \<Rightarrow> string list \<Rightarrow> string \<Rightarrow> string list \<Rightarrow> string list \<Rightarrow> AssuranceCapability" where
  "capability n ds ss px ks rs = \<lparr>cap_Name = n, cap_Dimensions = ds, cap_Signals = ss,
     cap_SignalPrefix = px, cap_RunnerKinds = ks, cap_RequiredCaptureAssurances = rs\<rparr>"

definition AssuranceCapabilities :: "AssuranceCapability list" where
  "AssuranceCapabilities =
    [capability ''idenqa.assurance.authority_record''
       [''identity_resolution'', ''evidence_validation'', ''source_independence'']
       [''idenqa.signal.authority_record''] [] [''provider''] [],
     capability ''idenqa.assurance.document_authenticity'' [''evidence_validation'', ''source_independence'']
       [''idenqa.signal.document_authenticity''] [] [''provider'', ''model''] [],
     capability ''idenqa.assurance.capture_quality'' [''evidence_validation'']
       [''idenqa.signal.document_quality''] [] [''provider'', ''model''] [],
     capability ''idenqa.assurance.face_match_1to1'' [''applicant_binding'']
       [''idenqa.signal.face_match_1to1''] [] [''provider'', ''model''] live_assurances,
     capability ''idenqa.assurance.passive_liveness'' [''liveness'']
       [''idenqa.signal.passive_liveness'', ''idenqa.signal.passive_pad''] [] [''provider'', ''model''] live_assurances,
     capability ''idenqa.assurance.active_liveness'' [''liveness'']
       [''idenqa.signal.liveness'', ''idenqa.signal.active_liveness''] [] [''provider'', ''model'']
       (live_assurances @ [''idenqa.assurance.active_liveness'']),
     capability ''idenqa.assurance.freshness'' [''freshness''] [''capture.freshness''] [] [''capture''] live_assurances,
     capability ''idenqa.assurance.live_capture'' [''provenance''] [''capture.live_capture''] [] [''capture''] live_assurances,
     capability ''idenqa.assurance.capture_integrity'' [''integrity''] [''capture.capture_integrity''] [] [''capture'']
       [''idenqa.assurance.capture_integrity''],
     capability ''idenqa.assurance.human_review'' [''human_oversight''] [''review.resolution''] [] [''review''] [],
     capability ''idenqa.assurance.identity_corroboration'' [''identity_resolution'', ''evidence_validation'']
       [] ''identity.'' [''identity''] [],
     capability ''idenqa.assurance.fraud_controls'' [''fraud_resistance''] [] ''fraud.'' [''fraud''] []]"

definition assuranceCapability :: "string \<Rightarrow> AssuranceCapability option" where
  "assuranceCapability name = find (\<lambda>c. cap_Name c = name) AssuranceCapabilities"

section \<open>Profiles and contexts\<close>

record AssuranceRequirement =
  rq_Dimension :: string
  rq_Property :: string
  rq_MinimumSources :: nat
  rq_MaximumAgeSeconds :: nat
  rq_Capabilities :: "string list"

record AssuranceMapping =
  mp_Capability :: string
  mp_Signal :: string
  mp_RunnerKind :: string
  mp_RunnerID :: string
  mp_PackageDigest :: string
  mp_ConfigurationDigest :: string
  mp_ThresholdDigest :: string

record AssuranceProfile =
  ap_Name :: string
  ap_Revision :: nat
  ap_Requirements :: "AssuranceRequirement list"
  ap_Mappings :: "AssuranceMapping list"

record AssuranceSource =
  as_ExpiresAt :: "go_time option"
  as_CaptureAssurances :: "string list"
  as_Reference :: string
  as_Signal :: string
  as_State :: requirement_state
  as_RunnerKind :: string
  as_RunnerID :: string
  as_PackageDigest :: string
  as_ConfigurationDigest :: string
  as_ThresholdDigest :: string
  as_CollectedAt :: go_time
  as_Roots :: "string list"
  as_EvaluationOnly :: bool

record DecisionReference =
  dr_Kind :: string
  dr_ID :: string
  dr_Version :: string
  dr_Digest :: string
  dr_Parents :: "string list"

record DecisionContext =
  dc_Version :: nat
  dc_References :: "DecisionReference list"
  dc_Profile :: "AssuranceProfile option"
  dc_ProfileDigest :: string
  dc_Sources :: "AssuranceSource list"

record AssuranceDimensionResult =
  ad_Dimension :: string
  ad_Property :: string
  ad_Satisfied :: bool
  ad_IndependentSources :: nat
  ad_SourceReferences :: "string list"

record AssuranceAchievement =
  aa_RequestedDigest :: string
  aa_Achieved :: bool
  aa_Dimensions :: "AssuranceDimensionResult list"

record assurance_codec =
  jc_mapping :: "AssuranceMapping \<Rightarrow> string"
  jc_reference :: "DecisionReference \<Rightarrow> string"
  jc_context_size :: "DecisionContext \<Rightarrow> nat option"
  jc_profile_digest :: "AssuranceProfile \<Rightarrow> string"

definition capabilityMappingValid :: "AssuranceMapping \<Rightarrow> bool" where
  "capabilityMappingValid m \<longleftrightarrow>
     (case assuranceCapability (mp_Capability m) of None \<Rightarrow> False
      | Some c \<Rightarrow> mp_RunnerKind m \<in> set (cap_RunnerKinds c) \<and>
          (mp_Signal m \<in> set (cap_Signals c) \<or>
           (cap_SignalPrefix c \<noteq> [] \<and> take (length (cap_SignalPrefix c)) (mp_Signal m) = cap_SignalPrefix c)))"

definition sourceCapabilityEligible :: "AssuranceSource \<Rightarrow> AssuranceMapping \<Rightarrow> bool" where
  "sourceCapabilityEligible s m \<longleftrightarrow>
     (case assuranceCapability (mp_Capability m) of None \<Rightarrow> False
      | Some c \<Rightarrow> list_all (\<lambda>a. a \<in> set (as_CaptureAssurances s)) (cap_RequiredCaptureAssurances c))"

definition is_fact_key :: "string \<Rightarrow> bool" where
  "is_fact_key v \<longleftrightarrow> (case NewFactKey v of Inl _ \<Rightarrow> False | Inr _ \<Rightarrow> True)"

definition mapping_ok :: "AssuranceMapping \<Rightarrow> bool" where
  "mapping_ok m \<longleftrightarrow> validToken (mp_Capability m) 100 \<and> validToken (mp_RunnerID m) 128 \<and>
     capabilityMappingValid m \<and> validDigest (mp_PackageDigest m) \<and> validDigest (mp_ConfigurationDigest m) \<and>
     (mp_ThresholdDigest m \<noteq> [] \<longrightarrow> validDigest (mp_ThresholdDigest m)) \<and> is_fact_key (mp_Signal m)"

definition assurance_dimensions :: "string list" where
  "assurance_dimensions = [''identity_resolution'', ''evidence_validation'', ''applicant_binding'',
     ''source_independence'', ''fraud_resistance'', ''human_oversight'', ''provenance'', ''freshness'',
     ''liveness'', ''integrity'']"

definition capability_serves :: "string \<Rightarrow> string \<Rightarrow> bool" where
  "capability_serves dim v \<longleftrightarrow>
     (case assuranceCapability v of None \<Rightarrow> False | Some c \<Rightarrow> dim \<in> set (cap_Dimensions c))"

definition requirement_ok :: "string set \<Rightarrow> AssuranceRequirement \<Rightarrow> bool" where
  "requirement_ok capabilities r \<longleftrightarrow>
     rq_Dimension r \<in> set assurance_dimensions \<and> validToken (rq_Property r) 64 \<and>
     rq_MinimumSources r \<noteq> 0 \<and> rq_MinimumSources r \<le> 32 \<and>
     rq_MaximumAgeSeconds r \<noteq> 0 \<and> rq_MaximumAgeSeconds r \<le> 31536000 \<and>
     rq_Capabilities r \<noteq> [] \<and> length (rq_Capabilities r) \<le> 32 \<and>
     (case canonicalTokens (rq_Capabilities r) of Inl _ \<Rightarrow> False
      | Inr cs \<Rightarrow> list_all (\<lambda>v. v \<in> capabilities \<and> capability_serves (rq_Dimension r) v) cs)"

text \<open>
  \<^verbatim>\<open>CanonicalAssuranceProfile\<close>: every failing check returns \<^verbatim>\<open>ErrInvalid\<close>, so their order does
  not show. Mappings are ordered by their encoding, requirements by their dimension.
\<close>

definition CanonicalAssuranceProfile ::
  "assurance_codec \<Rightarrow> AssuranceProfile \<Rightarrow> policy_error + (AssuranceProfile \<times> string)" where
  "CanonicalAssuranceProfile jc p =
     (if \<not> validToken (ap_Name p) 64 \<or> ap_Revision p = 0 \<or> ap_Requirements p = [] \<or>
         length (ap_Requirements p) > 16 \<or> ap_Mappings p = [] \<or> length (ap_Mappings p) > 128 \<or>
         \<not> list_all mapping_ok (ap_Mappings p)
      then Inl ErrInvalid
      else
        let mappings = sort_key (jc_mapping jc) (ap_Mappings p);
            capabilities = mp_Capability ` set (ap_Mappings p) in
        if adjacent_dup mappings \<or> \<not> distinct (map rq_Dimension (ap_Requirements p)) \<or>
           \<not> list_all (requirement_ok capabilities) (ap_Requirements p)
        then Inl ErrInvalid
        else
          let reqs = sort_key rq_Dimension
                (map (\<lambda>r. r\<lparr>rq_Capabilities := sort (rq_Capabilities r)\<rparr>) (ap_Requirements p));
              p' = p\<lparr>ap_Mappings := mappings, ap_Requirements := reqs\<rparr> in
          Inr (p', jc_profile_digest jc p'))"

definition reference_kinds :: "string list" where
  "reference_kinds = [''decision'', ''snapshot'', ''claim'', ''identifier'', ''observation'', ''fact'',
     ''evidence'', ''lineage'', ''check'', ''attempt'', ''signal'', ''review_finding'', ''authority'',
     ''subject_response'', ''region'', ''transfer_policy'', ''capture_profile'', ''identity_receipt'',
     ''fraud_receipt'', ''provider'', ''model'', ''runtime'', ''preprocessing'', ''configuration'',
     ''threshold'', ''policy'', ''evaluator'']"

definition reference_ok :: "DecisionReference \<Rightarrow> bool" where
  "reference_ok r \<longleftrightarrow> dr_Kind r \<in> set reference_kinds \<and> dr_ID r \<noteq> [] \<and> length (dr_ID r) \<le> 256 \<and>
     length (dr_Version r) \<le> 128 \<and> (dr_Digest r \<noteq> [] \<longrightarrow> validDigest (dr_Digest r)) \<and>
     length (dr_Parents r) \<le> 128 \<and> list_all (\<lambda>p. p \<noteq> [] \<and> length p \<le> 256) (dr_Parents r)"

definition canonical_reference :: "DecisionReference \<Rightarrow> DecisionReference" where
  "canonical_reference r = r\<lparr>dr_Parents := compact (sort (dr_Parents r))\<rparr>"

text \<open>\<^verbatim>\<open>slices.CompactFunc\<close> on equal encodings.\<close>

fun compact_key :: "('a \<Rightarrow> 'k) \<Rightarrow> 'a list \<Rightarrow> 'a list" where
  "compact_key f (x # y # xs) = (if f x = f y then compact_key f (x # xs) else x # compact_key f (y # xs))"
| "compact_key f xs = xs"

definition root_char :: "char \<Rightarrow> bool" where
  "root_char c \<longleftrightarrow> is_lower c \<or> is_upper c \<or> is_digit c \<or> c = CHR ''.'' \<or> c = CHR ''_'' \<or> c = CHR '':'' \<or> c = CHR ''-''"

definition canonicalAssuranceRoots :: "string list \<Rightarrow> policy_error + string list" where
  "canonicalAssuranceRoots vs =
     (if \<not> list_all (\<lambda>v. length v \<le> 256 \<and> pattern (\<lambda>c. is_lower c \<or> is_upper c \<or> is_digit c) root_char (length v) v) vs
      then Inl ErrInvalid
      else if adjacent_dup (sort vs) then Inl ErrInvalid else Inr (sort vs))"

definition canonical_source :: "AssuranceSource \<Rightarrow> policy_error + AssuranceSource" where
  "canonical_source s =
     (if as_RunnerKind s \<notin> {''provider'', ''model'', ''capture'', ''identity'', ''fraud'', ''review''} \<or>
         \<not> is_fact_key (as_Signal s) \<or> \<not> validToken (as_RunnerID s) 128 \<or>
         (as_ThresholdDigest s \<noteq> [] \<and> \<not> validDigest (as_ThresholdDigest s)) \<or>
         \<not> validUTC (as_CollectedAt s) \<or> \<not> validRequirementState (as_State s) \<or>
         as_Reference s = [] \<or> length (as_Reference s) > 256 \<or> as_Roots s = [] \<or> length (as_Roots s) > 128 \<or>
         \<not> validDigest (as_PackageDigest s) \<or> \<not> validDigest (as_ConfigurationDigest s) \<or>
         (case as_ExpiresAt s of None \<Rightarrow> False | Some e \<Rightarrow> \<not> validUTC e \<or> \<not> After e (as_CollectedAt s))
      then Inl ErrInvalid
      else case canonicalAssuranceRoots (as_Roots s) of Inl e \<Rightarrow> Inl e
      | Inr roots \<Rightarrow>
        (case canonicalTokens (as_CaptureAssurances s) of Inl e \<Rightarrow> Inl e
         | Inr assurances \<Rightarrow> Inr (s\<lparr>as_Roots := roots, as_CaptureAssurances := assurances\<rparr>)))"

definition canonical_profile_of :: "assurance_codec \<Rightarrow> DecisionContext \<Rightarrow> policy_error + AssuranceProfile option" where
  "canonical_profile_of jc c =
     (case dc_Profile c of
        None \<Rightarrow> if dc_ProfileDigest c \<noteq> [] then Inl ErrInvalid else Inr None
      | Some p \<Rightarrow> (case CanonicalAssuranceProfile jc p of Inl _ \<Rightarrow> Inl ErrInvalid
                   | Inr (p', d) \<Rightarrow> if d \<noteq> dc_ProfileDigest c then Inl ErrInvalid else Inr (Some p')))"

definition canonicalDecisionContext ::
  "assurance_codec \<Rightarrow> DecisionContext option \<Rightarrow> policy_error + DecisionContext option" where
  "canonicalDecisionContext jc c0 =
     (case c0 of None \<Rightarrow> Inr None
      | Some c \<Rightarrow>
        if dc_Version c \<noteq> 1 \<or> length (dc_References c) > 8192 \<or>
           length (dc_Sources c) > MaximumFacts * MaximumObservations \<or>
           (case jc_context_size jc c of None \<Rightarrow> True | Some n \<Rightarrow> n > MaximumSnapshotBytes div 2)
        then Inl ErrInvalid
        else case canonical_profile_of jc c of Inl e \<Rightarrow> Inl e
        | Inr profile \<Rightarrow>
          if \<not> list_all reference_ok (dc_References c) then Inl ErrInvalid
          else
            let refs = compact_key (jc_reference jc)
                  (sort_key (jc_reference jc) (map canonical_reference (dc_References c))) in
            case traverse canonical_source (dc_Sources c) of Inl e \<Rightarrow> Inl e
            | Inr sources \<Rightarrow>
              let sorted = sort_key as_Reference sources in
              if adjacent_dup (map as_Reference sorted) then Inl ErrConflict
              else Inr (Some (c\<lparr>dc_Profile := profile, dc_References := refs, dc_Sources := sorted\<rparr>)))"

section \<open>Independent sources\<close>

text \<open>\<^verbatim>\<open>root\<close>: follow the parents to a fixed point. The loop could run forever on a cycle.\<close>

partial_function (option) uf_root :: "nat list \<Rightarrow> nat \<Rightarrow> nat option" where
  "uf_root p i = (if p ! i = i then Some i else uf_root p (p ! i))"

declare uf_root.simps [code]

type_synonym uf_state = "nat list \<times> (string \<rightharpoonup> nat)"

definition uf_visit :: "nat \<times> string \<Rightarrow> uf_state \<Rightarrow> uf_state option" where
  "uf_visit iv st =
     (let (i, v) = iv; (p, m) = st in
      case m v of
        Some prior \<Rightarrow>
          (case uf_root p i of None \<Rightarrow> None
           | Some a \<Rightarrow> (case uf_root p prior of None \<Rightarrow> None | Some b \<Rightarrow> Some (p[a := b], m)))
      | None \<Rightarrow> Some (p, m(v \<mapsto> i)))"

fun uf_loop :: "(nat \<times> string) list \<Rightarrow> uf_state \<Rightarrow> uf_state option" where
  "uf_loop [] st = Some st"
| "uf_loop (iv # ivs) st = (case uf_visit iv st of None \<Rightarrow> None | Some st' \<Rightarrow> uf_loop ivs st')"

text \<open>The pairs of source index and root, in the order of the two nested loops.\<close>

definition root_pairs :: "string list list \<Rightarrow> (nat \<times> string) list" where
  "root_pairs rs = concat (map (\<lambda>i. map (Pair i) (rs ! i)) [0..<length rs])"

fun option_list :: "'a option list \<Rightarrow> 'a list option" where
  "option_list [] = Some []"
| "option_list (None # xs) = None"
| "option_list (Some x # xs) = map_option (Cons x) (option_list xs)"

text \<open>The number of groups; \<open>None\<close> if one of the loops does not end.\<close>

definition uf_groups :: "string list list \<Rightarrow> nat option" where
  "uf_groups rs =
     (case uf_loop (root_pairs rs) ([0..<length rs], Map.empty) of None \<Rightarrow> None
      | Some (p, _) \<Rightarrow> map_option (\<lambda>ns. length (remdups ns)) (option_list (map (uf_root p) [0..<length rs])))"

definition source_matches :: "AssuranceSource \<Rightarrow> AssuranceRequirement \<Rightarrow> AssuranceMapping \<Rightarrow> bool" where
  "source_matches s r m \<longleftrightarrow> mp_Capability m \<in> set (rq_Capabilities r) \<and> as_Signal s = mp_Signal m \<and>
     as_RunnerKind s = mp_RunnerKind m \<and> as_RunnerID s = mp_RunnerID m \<and>
     as_PackageDigest s = mp_PackageDigest m \<and> as_ConfigurationDigest s = mp_ConfigurationDigest m \<and>
     as_ThresholdDigest s = mp_ThresholdDigest m \<and> sourceCapabilityEligible s m"

definition source_skipped :: "AssuranceSource \<Rightarrow> AssuranceRequirement \<Rightarrow> go_time \<Rightarrow> bool" where
  "source_skipped s r now \<longleftrightarrow> as_EvaluationOnly s \<or>
     (case as_ExpiresAt s of None \<Rightarrow> False | Some e \<Rightarrow> \<not> Before now e) \<or>
     as_State s \<noteq> RequirementSatisfied \<or> After (as_CollectedAt s) now \<or>
     Sub now (as_CollectedAt s) \<ge> int (rq_MaximumAgeSeconds r) * second"

definition counted_sources :: "AssuranceProfile \<Rightarrow> AssuranceRequirement \<Rightarrow> go_time \<Rightarrow> AssuranceSource list \<Rightarrow> AssuranceSource list" where
  "counted_sources p r now ss =
     filter (\<lambda>s. \<not> source_skipped s r now \<and> list_ex (source_matches s r) (ap_Mappings p)) ss"

text \<open>The result of one requirement; \<open>None\<close> if the group loop does not end.\<close>

definition dimension_result ::
  "AssuranceProfile \<Rightarrow> AssuranceRequirement \<Rightarrow> go_time \<Rightarrow> AssuranceSource list \<Rightarrow> AssuranceDimensionResult option" where
  "dimension_result p r now ss =
     (let sources = counted_sources p r now ss in
      case uf_groups (map as_Roots sources) of None \<Rightarrow> None
      | Some n \<Rightarrow> Some \<lparr>ad_Dimension = rq_Dimension r, ad_Property = rq_Property r,
          ad_Satisfied = (n \<ge> rq_MinimumSources r), ad_IndependentSources = n,
          ad_SourceReferences = map as_Reference sources\<rparr>)"

definition AchieveAssurance ::
  "assurance_codec \<Rightarrow> DecisionContext option \<Rightarrow> go_time \<Rightarrow> (policy_error + AssuranceAchievement) option" where
  "AchieveAssurance jc c0 now =
     (case canonicalDecisionContext jc c0 of Inl e \<Rightarrow> Some (Inl e)
      | Inr c \<Rightarrow>
        if \<not> validUTC now then Some (Inl ErrInvalid)
        else case c of
          None \<Rightarrow> Some (Inr \<lparr>aa_RequestedDigest = [], aa_Achieved = False, aa_Dimensions = []\<rparr>)
        | Some c \<Rightarrow>
          (case dc_Profile c of
             None \<Rightarrow> Some (Inr \<lparr>aa_RequestedDigest = [], aa_Achieved = False, aa_Dimensions = []\<rparr>)
           | Some p \<Rightarrow>
             (case option_list (map (\<lambda>r. dimension_result p r now (dc_Sources c)) (ap_Requirements p)) of
                None \<Rightarrow> None
              | Some ds \<Rightarrow> Some (Inr \<lparr>aa_RequestedDigest = dc_ProfileDigest c,
                   aa_Achieved = list_all ad_Satisfied ds, aa_Dimensions = ds\<rparr>))))"

section \<open>Union-find is correct\<close>

inductive reaches :: "nat list \<Rightarrow> nat \<Rightarrow> nat \<Rightarrow> bool" for p where
  reaches_here: "p ! r = r \<Longrightarrow> reaches p r r"
| reaches_up: "p ! i \<noteq> i \<Longrightarrow> reaches p (p ! i) r \<Longrightarrow> reaches p i r"

lemma uf_root_step: "p ! i \<noteq> i \<Longrightarrow> uf_root p i = uf_root p (p ! i)"
  by (subst uf_root.simps) simp

lemma uf_root_here: "p ! i = i \<Longrightarrow> uf_root p i = Some i"
  by (subst uf_root.simps) simp

lemma uf_root_reaches: "reaches p i r \<Longrightarrow> uf_root p i = Some r"
  by (induction rule: reaches.induct) (simp_all add: uf_root_here uf_root_step)

lemma reaches_unique: "reaches p i r \<Longrightarrow> reaches p i r' \<Longrightarrow> r = r'"
  by (metis option.inject uf_root_reaches)

lemma reaches_fixed: "reaches p i r \<Longrightarrow> p ! r = r"
  by (induction rule: reaches.induct) simp_all

definition forest :: "nat \<Rightarrow> nat list \<Rightarrow> bool" where
  "forest n p \<longleftrightarrow> length p = n \<and> (\<forall>i < n. \<exists>r < n. reaches p i r)"

lemma forest_init: "forest n [0..<n]"
  by (auto simp: forest_def intro!: exI reaches_here)

lemma reaches_union:
  assumes "reaches p i r" "a < length p" "p ! a = a" "a \<noteq> b" "p ! b = b"
  shows "reaches (p[a := b]) i (if r = a then b else r)"
  using assms(1)
proof (induction rule: reaches.induct)
  case (reaches_here r)
  have b: "reaches (p[a := b]) b b"
    by (rule reaches.reaches_here) (use assms(4,5) in simp)
  have "reaches (p[a := b]) a b"
    by (rule reaches.reaches_up) (use assms(2,4) b in simp_all)
  moreover have "reaches (p[a := b]) r r" if "r \<noteq> a"
    by (rule reaches.reaches_here) (use that reaches_here in simp)
  ultimately show ?case by simp
next
  case (reaches_up i r)
  have "i \<noteq> a" using reaches_up.hyps(1) assms(3) by blast
  then have "p[a := b] ! i = p ! i" by simp
  then show ?case
    using reaches_up by (metis reaches.reaches_up)
qed

lemma forest_union:
  assumes "forest n p" "reaches p i a" "reaches p j b" "a < n" "b < n"
  shows "forest n (p[a := b])"
    and "k < n \<Longrightarrow> reaches p k r \<Longrightarrow> reaches (p[a := b]) k (if r = a then b else r)"
proof -
  have fixed: "p ! a = a" "p ! b = b"
    using assms(2,3) reaches_fixed by blast+
  have upd: "reaches (p[a := b]) k (if r = a then b else r)" if "reaches p k r" for k r
  proof (cases "a = b")
    case True
    then show ?thesis using that fixed by (metis list_update_id)
  next
    case False
    then show ?thesis
      using that assms(1,4) fixed by (intro reaches_union) (simp_all add: forest_def)
  qed
  show "reaches (p[a := b]) k (if r = a then b else r)" if "k < n" "reaches p k r"
    using upd that by blast
  have "\<exists>r < n. reaches (p[a := b]) k r" if "k < n" for k
  proof -
    obtain r where "r < n" "reaches p k r" using assms(1) \<open>k < n\<close> by (auto simp: forest_def)
    then show ?thesis using upd [of k r] assms(5) by (metis (full_types))
  qed
  then show "forest n (p[a := b])" using assms(1) by (simp add: forest_def)
qed

text \<open>Sources that share a provenance root, and the groups this connects.\<close>

definition shares_root :: "string list list \<Rightarrow> (nat \<times> nat) set" where
  "shares_root rs = {(i, j). i < length rs \<and> j < length rs \<and> set (rs ! i) \<inter> set (rs ! j) \<noteq> {}}"

definition source_group :: "string list list \<Rightarrow> nat \<Rightarrow> nat set" where
  "source_group rs i = {j. j < length rs \<and> (i, j) \<in> (shares_root rs)\<^sup>*}"

lemma shares_root_sym: "(i, j) \<in> (shares_root rs)\<^sup>* \<Longrightarrow> (j, i) \<in> (shares_root rs)\<^sup>*"
proof -
  have "sym (shares_root rs)" by (auto simp: shares_root_def sym_def)
  then show "(i, j) \<in> (shares_root rs)\<^sup>* \<Longrightarrow> (j, i) \<in> (shares_root rs)\<^sup>*"
    by (metis sym_rtrancl symD)
qed

definition uf_inv :: "string list list \<Rightarrow> (nat \<times> string) set \<Rightarrow> uf_state \<Rightarrow> bool" where
  "uf_inv rs done st \<longleftrightarrow>
     forest (length rs) (fst st) \<and>
     (\<forall>i < length rs. \<forall>r. reaches (fst st) i r \<longrightarrow> (i, r) \<in> (shares_root rs)\<^sup>*) \<and>
     (\<forall>i v. (i, v) \<in> done \<longrightarrow>
        (\<exists>k r. snd st v = Some k \<and> reaches (fst st) i r \<and> reaches (fst st) k r)) \<and>
     (\<forall>i v. (i, v) \<in> done \<longrightarrow> i < length rs) \<and>
     (\<forall>v k. snd st v = Some k \<longrightarrow> k < length rs \<and> v \<in> set (rs ! k))"

lemma uf_visit_inv:
  assumes "uf_inv rs done (p, m)" "i < length rs" "v \<in> set (rs ! i)"
  shows "\<exists>st'. uf_visit (i, v) (p, m) = Some st' \<and> uf_inv rs (insert (i, v) done) st'"
proof (cases "m v")
  case None
  have forest: "forest (length rs) p" using assms(1) by (simp add: uf_inv_def)
  then obtain r where "reaches p i r" using assms(2) by (auto simp: forest_def)
  then have "uf_inv rs (insert (i, v) done) (p, m(v \<mapsto> i))"
    using assms None unfolding uf_inv_def by (auto 0 3 split: if_splits)
  then show ?thesis using None by (simp add: uf_visit_def)
next
  case (Some k)
  let ?n = "length rs" and ?S = "(shares_root rs)\<^sup>*"
  have forest: "forest ?n p" and k: "k < ?n" "v \<in> set (rs ! k)"
    and sound: "\<And>i r. i < ?n \<Longrightarrow> reaches p i r \<Longrightarrow> (i, r) \<in> ?S"
    using assms(1) Some by (auto simp: uf_inv_def)
  obtain a where a: "a < ?n" "reaches p i a" using forest assms(2) by (auto simp: forest_def)
  obtain b where b: "b < ?n" "reaches p k b" using forest k(1) by (auto simp: forest_def)
  note upd = forest_union [OF forest a(2) b(2) a(1) b(1)]
  have ab: "(a, b) \<in> ?S"
  proof -
    have "(i, k) \<in> shares_root rs" using assms(2,3) k by (auto simp: shares_root_def)
    then have "(i, k) \<in> ?S" by blast
    then show ?thesis
      using sound [OF assms(2) a(2)] sound [OF k(1) b(2)] shares_root_sym by (meson rtrancl_trans)
  qed
  have sound': "(x, r') \<in> ?S" if "x < ?n" "reaches (p[a := b]) x r'" for x r'
  proof -
    obtain r where r: "reaches p x r" using forest \<open>x < ?n\<close> by (auto simp: forest_def)
    have "r' = (if r = a then b else r)"
      using reaches_unique [OF that(2) upd(2) [OF that(1) r]] .
    then show ?thesis using sound [OF that(1) r] ab by (auto split: if_splits intro: rtrancl_trans)
  qed
  have "uf_inv rs (insert (i, v) done) (p[a := b], m)"
    unfolding uf_inv_def
  proof (intro conjI)
    show "\<forall>i < ?n. \<forall>r. reaches (fst (p[a := b], m)) i r \<longrightarrow> (i, r) \<in> ?S"
      using sound' by simp
    show "\<forall>j w. (j, w) \<in> insert (i, v) done \<longrightarrow> (\<exists>l r. snd (p[a := b], m) w = Some l \<and>
        reaches (fst (p[a := b], m)) j r \<and> reaches (fst (p[a := b], m)) l r)"
    proof (intro allI impI)
      fix j w assume jw: "(j, w) \<in> insert (i, v) done"
      show "\<exists>l r. snd (p[a := b], m) w = Some l \<and> reaches (fst (p[a := b], m)) j r \<and> reaches (fst (p[a := b], m)) l r"
      proof (cases "(j, w) \<in> done")
        case True
        then obtain l r where l: "m w = Some l" "reaches p j r" "reaches p l r" "j < ?n" "l < ?n"
          using assms(1) unfolding uf_inv_def fst_conv snd_conv by metis
        then show ?thesis using upd(2) [OF l(4) l(2)] upd(2) [OF l(5) l(3)] by auto
      next
        case False
        then have "j = i" "w = v" using jw by auto
        then show ?thesis
          using Some upd(2) [OF assms(2) a(2)] upd(2) [OF k(1) b(2)] by (auto split: if_splits)
      qed
    qed
  qed (use upd(1) assms in \<open>auto simp: uf_inv_def\<close>)
  then show ?thesis
    using Some uf_root_reaches [OF a(2)] uf_root_reaches [OF b(2)] by (simp add: uf_visit_def)
qed

lemma uf_loop_inv:
  assumes "uf_inv rs done st" "\<forall>(i, v) \<in> set ivs. i < length rs \<and> v \<in> set (rs ! i)"
  shows "\<exists>st'. uf_loop ivs st = Some st' \<and> uf_inv rs (set ivs \<union> done) st'"
  using assms
proof (induction ivs arbitrary: st "done")
  case (Cons iv ivs)
  obtain i v p m where [simp]: "iv = (i, v)" "st = (p, m)" by (cases iv, cases st) blast
  have "uf_inv rs done (p, m)" "i < length rs" "v \<in> set (rs ! i)"
    using Cons.prems by auto
  from uf_visit_inv [OF this] obtain st'
    where st': "uf_visit (i, v) (p, m) = Some st'" "uf_inv rs (insert (i, v) done) st'" by blast
  moreover have "\<forall>(i, v) \<in> set ivs. i < length rs \<and> v \<in> set (rs ! i)"
    using Cons.prems(2) by simp
  ultimately show ?case using Cons.IH [OF st'(2)] by simp
qed auto

lemma root_pairs_set: "set (root_pairs rs) = {(i, v). i < length rs \<and> v \<in> set (rs ! i)}"
  by (auto simp: root_pairs_def)

lemma uf_final:
  obtains p m where "uf_loop (root_pairs rs) ([0..<length rs], Map.empty) = Some (p, m)"
    and "forest (length rs) p"
    and "\<And>i j r r'. i < length rs \<Longrightarrow> j < length rs \<Longrightarrow> reaches p i r \<Longrightarrow> reaches p j r' \<Longrightarrow>
      r = r' \<longleftrightarrow> source_group rs i = source_group rs j"
proof -
  let ?S = "(shares_root rs)\<^sup>*"
  have "uf_inv rs {} ([0..<length rs], Map.empty)"
    unfolding uf_inv_def using forest_init by (auto elim: reaches.cases)
  from uf_loop_inv [OF this, of "root_pairs rs"] obtain p m
    where l: "uf_loop (root_pairs rs) ([0..<length rs], Map.empty) = Some (p, m)"
      and inv: "uf_inv rs (set (root_pairs rs)) (p, m)"
    by (auto simp: root_pairs_set)
  have forest: "forest (length rs) p" and sound: "\<And>i r. i < length rs \<Longrightarrow> reaches p i r \<Longrightarrow> (i, r) \<in> ?S"
    using inv by (auto simp: uf_inv_def)
  have same: "\<exists>r. reaches p i r \<and> reaches p j r" if share: "(i, j) \<in> shares_root rs" for i j
  proof -
    obtain v where v: "i < length rs" "j < length rs" "v \<in> set (rs ! i)" "v \<in> set (rs ! j)"
      using share by (auto simp: shares_root_def)
    then have "(i, v) \<in> set (root_pairs rs)" "(j, v) \<in> set (root_pairs rs)"
      by (auto simp: root_pairs_set)
    then obtain k r k' r' where "m v = Some k" "reaches p i r" "reaches p k r"
      "m v = Some k'" "reaches p j r'" "reaches p k' r'"
      using inv unfolding uf_inv_def fst_conv snd_conv by metis
    then show ?thesis by (metis option.inject reaches_unique)
  qed
  have complete: "\<exists>r. reaches p i r \<and> reaches p j r" if "(i, j) \<in> ?S" "i < length rs" for i j
    using that
  proof (induction rule: rtrancl_induct)
    case base
    then show ?case using forest by (auto simp: forest_def)
  next
    case (step y z)
    then show ?case using same [of y z] reaches_unique by blast
  qed
  have "r = r' \<longleftrightarrow> source_group rs i = source_group rs j"
    if ij: "i < length rs" "j < length rs" "reaches p i r" "reaches p j r'" for i j r r'
  proof -
    have "r = r' \<longleftrightarrow> (i, j) \<in> ?S"
    proof
      assume "r = r'"
      then show "(i, j) \<in> ?S"
        using sound ij shares_root_sym by (meson rtrancl_trans)
    next
      assume "(i, j) \<in> ?S"
      then show "r = r'" using complete ij reaches_unique by blast
    qed
    also have "\<dots> \<longleftrightarrow> source_group rs i = source_group rs j"
      unfolding source_group_def using ij shares_root_sym
      by (auto intro: rtrancl_trans)
    finally show ?thesis .
  qed
  with l forest show thesis by (rule that)
qed

lemma option_list_Some: "(\<And>x. x \<in> set xs \<Longrightarrow> f x = Some (g x)) \<Longrightarrow> option_list (map f xs) = Some (map g xs)"
  by (induction xs) auto

lemma card_image_same_kernel:
  assumes "\<And>x y. x \<in> A \<Longrightarrow> y \<in> A \<Longrightarrow> f x = f y \<longleftrightarrow> g x = g y"
  shows "card (f ` A) = card (g ` A)"
proof -
  have "bij_betw (\<lambda>c. g (inv_into A f c)) (f ` A) (g ` A)"
  proof (rule bij_betwI')
    fix c d assume "c \<in> f ` A" "d \<in> f ` A"
    then show "g (inv_into A f c) = g (inv_into A f d) \<longleftrightarrow> c = d"
      using assms by (metis f_inv_into_f inv_into_into)
  next
    fix c assume "c \<in> f ` A"
    then show "g (inv_into A f c) \<in> g ` A" by (simp add: inv_into_into)
  next
    fix d assume "d \<in> g ` A"
    then obtain x where "x \<in> A" "d = g x" by blast
    then show "\<exists>c \<in> f ` A. d = g (inv_into A f c)"
      using assms by (metis f_inv_into_f image_eqI inv_into_into)
  qed
  then show ?thesis by (rule bij_betw_same_card)
qed

lemma uf_groups_card: "uf_groups rs = Some (card (source_group rs ` {..<length rs}))"
proof -
  obtain p m where l: "uf_loop (root_pairs rs) ([0..<length rs], Map.empty) = Some (p, m)"
    and forest: "forest (length rs) p"
    and same: "\<And>i j r r'. i < length rs \<Longrightarrow> j < length rs \<Longrightarrow> reaches p i r \<Longrightarrow> reaches p j r' \<Longrightarrow>
      r = r' \<longleftrightarrow> source_group rs i = source_group rs j"
    by (rule uf_final [of rs]) blast
  define rt where "rt i = the (uf_root p i)" for i
  have rt: "reaches p i (rt i)" "uf_root p i = Some (rt i)" if "i < length rs" for i
    using forest that uf_root_reaches by (fastforce simp: forest_def rt_def)+
  have "option_list (map (uf_root p) [0..<length rs]) = Some (map rt [0..<length rs])"
    by (rule option_list_Some) (simp add: rt)
  moreover have "length (remdups (map rt [0..<length rs])) = card (rt ` {..<length rs})"
    by (simp add: length_remdups_card_conv atLeast0LessThan)
  moreover have "card (rt ` {..<length rs}) = card (source_group rs ` {..<length rs})"
    using same rt by (intro card_image_same_kernel) auto
  ultimately show ?thesis using l by (simp add: uf_groups_def)
qed

section \<open>Canonical contexts\<close>

lemma is_fact_key_iff: "is_fact_key v \<longleftrightarrow> (\<exists>k. NewFactKey v = Inr k)"
  by (cases "NewFactKey v") (simp_all add: is_fact_key_def)

abbreviation sort_capabilities :: "AssuranceRequirement \<Rightarrow> AssuranceRequirement" where
  "sort_capabilities r \<equiv> r\<lparr>rq_Capabilities := sort (rq_Capabilities r)\<rparr>"

lemma requirement_ok_sort: "requirement_ok caps r \<Longrightarrow> requirement_ok caps (sort_capabilities r)"
  unfolding requirement_ok_def
  by (auto simp: canonicalTokens_def list_all_iff adjacent_dup_sort split: if_splits)

lemma sort_capabilities_idem: "sort_capabilities (sort_capabilities r) = sort_capabilities r"
  by simp

lemma map_sort_capabilities_id: "map sort_capabilities (sort_key rq_Dimension (map sort_capabilities rs)) =
    sort_key rq_Dimension (map sort_capabilities rs)"
  by (rule map_idI) auto

lemma CanonicalAssuranceProfile_idem:
  assumes "CanonicalAssuranceProfile jc p = Inr (p', d)"
  shows "CanonicalAssuranceProfile jc p' = Inr (p', d)"
proof -
  let ?ms = "sort_key (jc_mapping jc) (ap_Mappings p)"
  let ?rs = "sort_key rq_Dimension (map sort_capabilities (ap_Requirements p))"
  have p': "p' = p\<lparr>ap_Mappings := ?ms, ap_Requirements := ?rs\<rparr>" "d = jc_profile_digest jc p'"
    and ok: "validToken (ap_Name p) 64" "ap_Revision p \<noteq> 0" "ap_Requirements p \<noteq> []"
      "length (ap_Requirements p) \<le> 16" "ap_Mappings p \<noteq> []" "length (ap_Mappings p) \<le> 128"
      "list_all mapping_ok (ap_Mappings p)" "\<not> adjacent_dup ?ms"
      "distinct (map rq_Dimension (ap_Requirements p))"
      "list_all (requirement_ok (mp_Capability ` set (ap_Mappings p))) (ap_Requirements p)"
    using assms by (auto simp: CanonicalAssuranceProfile_def Let_def split: if_splits)
  have "distinct (map rq_Dimension (map sort_capabilities (ap_Requirements p)))"
    using ok(9) by (simp add: comp_def)
  then have dist: "distinct (map rq_Dimension ?rs)"
    by (simp only: distinct_map_sort_key)
  have "list_all (requirement_ok (mp_Capability ` set ?ms)) ?rs"
    using ok(10) by (auto simp: list_all_iff intro: requirement_ok_sort)
  moreover have "list_all mapping_ok ?ms"
    using ok(7) by (simp add: list_all_iff)
  ultimately show ?thesis
    using ok dist by (simp add: CanonicalAssuranceProfile_def p' Let_def map_sort_capabilities_id)
qed

lemma canonicalAssuranceRoots_Inr:
  "canonicalAssuranceRoots vs = Inr ws \<Longrightarrow> ws = sort vs \<and> canonicalAssuranceRoots ws = Inr ws"
  by (auto simp: canonicalAssuranceRoots_def list_all_iff split: if_splits)

lemma canonical_source_Inr:
  assumes "canonical_source s = Inr s'"
  shows "canonical_source s' = Inr s'" "as_Reference s' = as_Reference s"
proof -
  obtain roots assurances where r: "canonicalAssuranceRoots (as_Roots s) = Inr roots"
    "canonicalTokens (as_CaptureAssurances s) = Inr assurances"
    and s': "s' = s\<lparr>as_Roots := roots, as_CaptureAssurances := assurances\<rparr>"
    using assms by (auto simp: canonical_source_def split: if_splits sum.splits)
  show "as_Reference s' = as_Reference s" by (simp add: s')
  have "roots = sort (as_Roots s)" "canonicalAssuranceRoots roots = Inr roots"
    using canonicalAssuranceRoots_Inr [OF r(1)] by blast+
  then show "canonical_source s' = Inr s'"
    using assms canonicalTokens_idem [OF r(2)]
    by (simp add: canonical_source_def s' r split: if_splits option.splits)
qed

lemma canonical_reference_idem [simp]: "canonical_reference (canonical_reference r) = canonical_reference r"
  by (simp add: canonical_reference_def compact_sort_idem)

lemma length_compact: "length (compact xs) \<le> length xs"
  by (induction xs rule: compact.induct) auto

lemma reference_ok_canonical: "reference_ok r \<Longrightarrow> reference_ok (canonical_reference r)"
  using length_compact [of "sort (dr_Parents r)"]
  by (auto simp: reference_ok_def canonical_reference_def list_all_iff)

lemma set_compact_key: "set (compact_key f xs) \<subseteq> set xs" "f ` set (compact_key f xs) = f ` set xs"
  by (induction f xs rule: compact_key.induct) auto

lemma length_compact_key: "length (compact_key f xs) \<le> length xs"
  by (induction f xs rule: compact_key.induct) auto

lemma hd_compact_key: "compact_key f (x # xs) = y # ys \<Longrightarrow> y = x"
  by (induction f "x # xs" arbitrary: xs rule: compact_key.induct) (auto split: if_splits)

lemma sorted_compact_key:
  fixes f :: "'a \<Rightarrow> 'k::linorder"
  shows "sorted (map f xs) \<Longrightarrow> sorted (map f (compact_key f xs)) \<and> distinct (map f (compact_key f xs))"
proof (induction f xs rule: compact_key.induct)
  case (1 f x y xs)
  show ?case
  proof (cases "f x = f y")
    case True
    with 1 show ?thesis by auto
  next
    case False
    then have le: "\<forall>z \<in> set (compact_key f (y # xs)). f x < f z"
      using "1.prems" set_compact_key(1) [of f "y # xs"] by fastforce
    with 1 False show ?thesis by (auto simp: less_imp_le)
  qed
qed auto

text \<open>The reference list is determined by the set of references it holds.\<close>

abbreviation canonical_references :: "assurance_codec \<Rightarrow> DecisionReference list \<Rightarrow> DecisionReference list" where
  "canonical_references jc rs \<equiv> compact_key (jc_reference jc) (sort_key (jc_reference jc) (map canonical_reference rs))"

lemma canonical_references_props:
  "sorted (map (jc_reference jc) (canonical_references jc rs))"
  "distinct (map (jc_reference jc) (canonical_references jc rs))"
  using sorted_compact_key [of "jc_reference jc" "sort_key (jc_reference jc) (map canonical_reference rs)"]
  by simp_all

lemma canonical_references_set:
  assumes "inj (jc_reference jc)"
  shows "set (canonical_references jc rs) = canonical_reference ` set rs"
proof -
  have "jc_reference jc ` set (canonical_references jc rs) = jc_reference jc ` canonical_reference ` set rs"
    using set_compact_key(2) [of "jc_reference jc" "sort_key (jc_reference jc) (map canonical_reference rs)"] by simp
  then show ?thesis using assms by (simp add: inj_image_eq_iff)
qed

lemma canonical_references_unique:
  assumes "inj (jc_reference jc)" "canonical_reference ` set rs = canonical_reference ` set rs'"
  shows "canonical_references jc rs = canonical_references jc rs'"
proof (rule map_sorted_distinct_set_unique [where f = "jc_reference jc"])
  show "inj_on (jc_reference jc) (set (canonical_references jc rs) \<union> set (canonical_references jc rs'))"
    using assms(1) by (rule inj_on_subset) simp
  show "set (canonical_references jc rs) = set (canonical_references jc rs')"
    using assms by (simp only: canonical_references_set)
qed (rule canonical_references_props)+

definition context_fits :: "assurance_codec \<Rightarrow> DecisionContext \<Rightarrow> bool" where
  "context_fits jc c \<longleftrightarrow> length (dc_References c) \<le> 8192 \<and>
     (\<exists>n. jc_context_size jc c = Some n \<and> n \<le> MaximumSnapshotBytes div 2)"

lemma canonicalDecisionContext_Inr:
  "canonicalDecisionContext jc (Some c) = Inr (Some c') \<longleftrightarrow>
     dc_Version c = 1 \<and> context_fits jc c \<and> length (dc_Sources c) \<le> MaximumFacts * MaximumObservations \<and>
     list_all reference_ok (dc_References c) \<and>
     (\<exists>profile sources. canonical_profile_of jc c = Inr profile \<and>
        traverse canonical_source (dc_Sources c) = Inr sources \<and>
        \<not> adjacent_dup (map as_Reference (sort_key as_Reference sources)) \<and>
        c' = c\<lparr>dc_Profile := profile, dc_References := canonical_references jc (dc_References c),
               dc_Sources := sort_key as_Reference sources\<rparr>)"
  by (auto simp: canonicalDecisionContext_def context_fits_def Let_def not_less
      split: sum.splits option.splits)

lemma canonical_profile_of_idem:
  "canonical_profile_of jc c = Inr profile \<Longrightarrow> dc_ProfileDigest c' = dc_ProfileDigest c \<Longrightarrow>
   dc_Profile c' = profile \<Longrightarrow> canonical_profile_of jc c' = Inr profile"
  by (auto simp: canonical_profile_of_def CanonicalAssuranceProfile_idem split: option.splits sum.splits if_splits)

lemma traverse_sorted_fixpoint:
  assumes "traverse f xs = Inr ys" "\<And>x y. f x = Inr y \<Longrightarrow> f y = Inr y"
  shows "traverse f (sort_key k ys) = Inr (sort_key k ys)"
proof (rule traverse_id)
  fix y assume "y \<in> set (sort_key k ys)"
  then have "y \<in> set ys" by simp
  then obtain x where "f x = Inr y"
    using traverse_memberE [OF assms(1)] by blast
  then show "f y = Inr y" by (rule assms(2))
qed

text \<open>
  A canonical context, its references replaced by any others that are valid and fit, has the
  same profile and sources in canonical form.
\<close>

lemma canonicalDecisionContext_rebind:
  assumes "canonicalDecisionContext jc (Some c) = Inr (Some c')"
    and "list_all reference_ok refs" "context_fits jc (c'\<lparr>dc_References := refs\<rparr>)"
  shows "canonicalDecisionContext jc (Some (c'\<lparr>dc_References := refs\<rparr>)) =
    Inr (Some (c'\<lparr>dc_References := canonical_references jc refs\<rparr>))"
proof -
  obtain profile sources where ps: "canonical_profile_of jc c = Inr profile"
    "traverse canonical_source (dc_Sources c) = Inr sources"
    "\<not> adjacent_dup (map as_Reference (sort_key as_Reference sources))"
    and c': "c' = c\<lparr>dc_Profile := profile, dc_References := canonical_references jc (dc_References c),
               dc_Sources := sort_key as_Reference sources\<rparr>"
    and b: "dc_Version c = 1" "length (dc_Sources c) \<le> MaximumFacts * MaximumObservations"
    using assms(1) by (auto simp: canonicalDecisionContext_Inr)
  have "canonical_profile_of jc (c'\<lparr>dc_References := refs\<rparr>) = Inr profile"
    by (rule canonical_profile_of_idem [OF ps(1)]) (simp_all add: c')
  moreover have "traverse canonical_source (sort_key as_Reference sources) = Inr (sort_key as_Reference sources)"
    using ps(2) by (rule traverse_sorted_fixpoint) (rule canonical_source_Inr(1))
  moreover have "length sources = length (dc_Sources c)"
    using traverse_length [OF ps(2)] .
  ultimately show ?thesis
    using assms(2,3) b ps(3) unfolding canonicalDecisionContext_Inr
    by (intro conjI exI [where x = profile] exI [where x = "sort_key as_Reference sources"]) (simp_all add: c')
qed

lemma AchieveAssurance_returns: "\<exists>r. AchieveAssurance jc c now = Some r"
proof -
  have "\<exists>ds. option_list (map (\<lambda>r. dimension_result p r now ss) rs) = Some ds" for p ss rs
    by (induction rs) (auto simp: dimension_result_def Let_def uf_groups_card)
  then show ?thesis
    by (auto simp: AchieveAssurance_def split: sum.splits option.splits) (metis option.distinct(1))
qed

subsection \<open>A small context\<close>

definition zero_digest :: string where
  "zero_digest = replicate 64 (CHR ''0'')"

definition example_codec :: assurance_codec where
  "example_codec = \<lparr>jc_mapping = mp_RunnerID, jc_reference = dr_ID, jc_context_size = (\<lambda>c. Some 1000),
     jc_profile_digest = (\<lambda>p. zero_digest)\<rparr>"

definition example_profile :: AssuranceProfile where
  "example_profile = \<lparr>ap_Name = ''basic'', ap_Revision = 1,
     ap_Requirements = [\<lparr>rq_Dimension = ''human_oversight'', rq_Property = ''dual'', rq_MinimumSources = 2,
       rq_MaximumAgeSeconds = 3600, rq_Capabilities = [''idenqa.assurance.human_review'']\<rparr>],
     ap_Mappings = [\<lparr>mp_Capability = ''idenqa.assurance.human_review'', mp_Signal = ''review.resolution'',
       mp_RunnerKind = ''review'', mp_RunnerID = ''reviewers'', mp_PackageDigest = zero_digest,
       mp_ConfigurationDigest = zero_digest, mp_ThresholdDigest = []\<rparr>]\<rparr>"

definition example_source :: "string \<Rightarrow> string list \<Rightarrow> AssuranceSource" where
  "example_source ref roots = \<lparr>as_ExpiresAt = None, as_CaptureAssurances = [], as_Reference = ref,
     as_Signal = ''review.resolution'', as_State = RequirementSatisfied, as_RunnerKind = ''review'',
     as_RunnerID = ''reviewers'', as_PackageDigest = zero_digest, as_ConfigurationDigest = zero_digest,
     as_ThresholdDigest = [], as_CollectedAt = utc_at 1000, as_Roots = roots, as_EvaluationOnly = False\<rparr>"

definition example_context :: DecisionContext where
  "example_context = \<lparr>dc_Version = 1, dc_References = [], dc_Profile = Some example_profile,
     dc_ProfileDigest = zero_digest,
     dc_Sources = [example_source ''s1'' [''a'', ''b''], example_source ''s2'' [''b'', ''c''],
                   example_source ''s3'' [''c'']]\<rparr>"

lemma zero_digest_valid [simp]: "validDigest zero_digest"
  unfolding validDigest_def zero_digest_def by (rule hex64_replicate)

lemma example_capability:
  "assuranceCapability ''idenqa.assurance.human_review'' =
     Some (capability ''idenqa.assurance.human_review'' [''human_oversight''] [''review.resolution''] [] [''review''] [])"
  by (simp add: assuranceCapability_def AssuranceCapabilities_def capability_def)

lemma example_signal: "is_fact_key ''review.resolution''"
  by (simp add: is_fact_key_def NewFactKey_def fact_segment_def token_simps)

lemma example_tokens: "validToken ''reviewers'' 128" "validToken ''idenqa.assurance.human_review'' 100"
  "validToken ''basic'' 64" "validToken ''dual'' 64"
  by (simp_all add: validToken_def token_simps)

lemma example_profile_canonical:
  "CanonicalAssuranceProfile example_codec example_profile = Inr (example_profile, zero_digest)"
  by (simp add: CanonicalAssuranceProfile_def example_profile_def example_codec_def mapping_ok_def
      capabilityMappingValid_def example_capability capability_def example_signal example_tokens
      requirement_ok_def assurance_dimensions_def canonicalTokens_def capability_serves_def)

lemma example_source_canonical:
  assumes "roots \<in> {[''a'', ''b''], [''b'', ''c''], [''c'']}" "ref \<in> {''s1'', ''s2'', ''s3''}"
  shows "canonical_source (example_source ref roots) = Inr (example_source ref roots)"
  using assms
  by (auto simp: canonical_source_def example_source_def example_signal example_tokens validUTC_def IsZero_def
      validRequirementState_def canonicalAssuranceRoots_def root_char_def token_simps canonicalTokens_def)

lemma example_canonical:
  "canonicalDecisionContext example_codec (Some example_context) = Inr (Some example_context)"
proof -
  have s: "traverse canonical_source (dc_Sources example_context) = Inr (dc_Sources example_context)"
    by (simp add: example_context_def example_source_canonical)
  have k: "sort_key as_Reference (dc_Sources example_context) = dc_Sources example_context"
    by (rule sort_key_id) (simp add: example_context_def example_source_def)
  have "canonical_profile_of example_codec example_context = Inr (Some example_profile)"
    by (simp add: canonical_profile_of_def example_context_def example_profile_canonical)
  then show ?thesis
    unfolding canonicalDecisionContext_Inr using s k
    by (intro conjI exI [of _ "Some example_profile"] exI [of _ "dc_Sources example_context"])
       (simp_all add: example_context_def example_source_def context_fits_def example_codec_def
         MaximumSnapshotBytes_def MaximumFacts_def MaximumObservations_def)
qed

section \<open>Properties\<close>

text \<open>
  Counting independent sources always ends, and counts right: the two loops that follow parent
  pointers reach a fixed point whatever roots the sources list, and the number of groups they
  leave is the number of classes of sources connected by shared provenance roots.
\<close>

theorem independent_groups_terminate:
  "uf_groups rs = Some (card (source_group rs ` {..<length rs}))"
  by (rule uf_groups_card)

text \<open>
  C19. Assurance is judged by independent evidence: the computation always ends, and a requested
  profile is achieved exactly when for every requirement the sources that count (satisfied, not
  evaluation-only, not expired, collected in time, matching a mapped capability) form at least
  the required number of groups, where sources that share a provenance root, directly or through
  other sources, are one group.
\<close>

theorem assurance_achieved_iff:
  assumes "canonicalDecisionContext jc c0 = Inr (Some c)" and "dc_Profile c = Some p" and "validUTC now"
  shows "\<exists>a. AchieveAssurance jc c0 now = Some (Inr a) \<and> aa_RequestedDigest a = dc_ProfileDigest c \<and>
    (aa_Achieved a \<longleftrightarrow>
      (\<forall>r \<in> set (ap_Requirements p).
         let rs = map as_Roots (filter (\<lambda>s. \<not> source_skipped s r now \<and>
                      list_ex (source_matches s r) (ap_Mappings p)) (dc_Sources c))
         in rq_MinimumSources r \<le> card (source_group rs ` {..<length rs})))"
proof -
  let ?d = "\<lambda>r. dimension_result p r now (dc_Sources c)"
  let ?n = "\<lambda>r. (let rs = map as_Roots (counted_sources p r now (dc_Sources c))
                 in card (source_group rs ` {..<length rs}))"
  have d: "?d r = Some \<lparr>ad_Dimension = rq_Dimension r, ad_Property = rq_Property r,
          ad_Satisfied = (?n r \<ge> rq_MinimumSources r), ad_IndependentSources = ?n r,
          ad_SourceReferences = map as_Reference (counted_sources p r now (dc_Sources c))\<rparr>" for r
    by (simp add: dimension_result_def Let_def uf_groups_card)
  let ?g = "\<lambda>r. \<lparr>ad_Dimension = rq_Dimension r, ad_Property = rq_Property r,
          ad_Satisfied = (?n r \<ge> rq_MinimumSources r), ad_IndependentSources = ?n r,
          ad_SourceReferences = map as_Reference (counted_sources p r now (dc_Sources c))\<rparr>"
  have "option_list (map ?d (ap_Requirements p)) = Some (map ?g (ap_Requirements p))"
    by (rule option_list_Some) (rule d)
  then show ?thesis
    using assms by (simp add: AchieveAssurance_def counted_sources_def Let_def list_all_iff)
qed

theorem assurance_achieved_iff_witness:
  "\<exists>a. AchieveAssurance example_codec (Some example_context) (utc_at 2000) = Some (Inr a) \<and> \<not> aa_Achieved a"
proof -
  have g: "source_group [[''a'', ''b''], [''b'', ''c''], [''c'']] ` {..<Suc (Suc (Suc 0))} =
      {source_group [[''a'', ''b''], [''b'', ''c''], [''c'']] 0}"
  proof -
    let ?rs = "[[''a'', ''b''], [''b'', ''c''], [''c'']]" let ?S = "(shares_root ?rs)\<^sup>*"
    have "(0, 1) \<in> shares_root ?rs" "(1, 2) \<in> shares_root ?rs"
      by (simp_all add: shares_root_def)
    then have s: "(0, 1) \<in> ?S" "(0, 2) \<in> ?S" by (blast intro: rtrancl_trans)+
    have "source_group ?rs i = source_group ?rs 0" if "(0, i) \<in> ?S" for i
      using that shares_root_sym [OF that] by (auto simp: source_group_def intro: rtrancl_trans)
    then have "source_group ?rs 1 = source_group ?rs 0" "source_group ?rs 2 = source_group ?rs 0"
      using s by blast+
    moreover have "{..<Suc (Suc (Suc 0))} = {0, 1, 2 :: nat}" by auto
    ultimately show ?thesis by auto
  qed
  have f: "filter (\<lambda>s. \<not> source_skipped s r (utc_at 2000) \<and> list_ex (source_matches s r) (ap_Mappings example_profile))
      (dc_Sources example_context) = dc_Sources example_context"
    if "r = hd (ap_Requirements example_profile)" for r
    unfolding that
    by (simp add: example_context_def example_source_def example_profile_def source_skipped_def source_matches_def
        sourceCapabilityEligible_def example_capability capability_def After_def Sub_def int64_max_def int64_min_def)
  have p: "dc_Profile example_context = Some example_profile"
    by (simp add: example_context_def)
  have u: "validUTC (utc_at 2000)" by (simp add: validUTC_def IsZero_def)
  let ?r = "hd (ap_Requirements example_profile)"
  have r: "set (ap_Requirements example_profile) = {?r}" "rq_MinimumSources ?r = 2"
    by (simp_all add: example_profile_def)
  have roots: "map as_Roots (dc_Sources example_context) = [[''a'', ''b''], [''b'', ''c''], [''c'']]"
    by (simp add: example_context_def example_source_def)
  from assurance_achieved_iff [OF example_canonical p u] r(2) show ?thesis
    unfolding r(1) using f [OF refl] by (auto simp: Let_def roots g)
qed

end
