(* ===== verification/Policy_Evaluation.thy ===== *)
theory Policy_Evaluation
  imports Assurance
begin

text \<open>
  \<^verbatim>\<open>internal/policy/snapshot.go\<close> and \<^verbatim>\<open>evaluate.go\<close> (with \<^verbatim>\<open>bindSnapshotContext\<close> of
  \<^verbatim>\<open>assurance.go\<close> and the directive test of \<^verbatim>\<open>routing.go\<close>): snapshots of facts, the resolution
  of requirement results by priority, terminal outcomes, decisions and their reproduction.

  The digests of a snapshot, an evaluation and a decision (JSON, SHA-256, hexadecimal) are
  arguments, functions of the value that is encoded, here the record with an empty digest
  field; \<open>None\<close> is an encoding error. The canonical bytes kept beside a digest are not stored.
\<close>

section \<open>Snapshots\<close>

record SnapshotInput =
  si_Context :: "DecisionContext option"
  si_TenantID :: string
  si_VerificationID :: string
  si_AuthorityID :: string
  si_AcknowledgementID :: string
  si_Region :: string
  si_Policy :: Reference
  si_Evaluator :: EvaluatorReference
  si_EvaluatedAt :: go_time
  si_Facts :: "Fact list"

record Snapshot =
  sn_context :: "DecisionContext option"
  sn_tenantID :: string
  sn_verificationID :: string
  sn_authorityID :: string
  sn_acknowledgementID :: string
  sn_region :: string
  sn_policy :: Reference
  sn_evaluator :: EvaluatorReference
  sn_evaluatedAt :: go_time
  sn_facts :: "Fact list"
  sn_digest :: string

record Evaluation =
  el_snapshotDigest :: string
  el_results :: "RequirementResult list"
  el_considered :: "directive list"
  el_selected :: directive
  el_outcome :: policy_outcome
  el_assurance :: string
  el_reasonCodes :: "string list"
  el_digest :: string

record Decision =
  de_id :: string
  de_snapshot :: Snapshot
  de_evaluation :: Evaluation
  de_actor :: actor_class
  de_supersedes :: string
  de_decidedAt :: go_time
  de_digest :: string

text \<open>The value that the digest of a decision covers.\<close>

record canonicalDecision =
  cd_ID :: string
  cd_TenantID :: string
  cd_VerificationID :: string
  cd_SnapshotDigest :: string
  cd_EvaluationDigest :: string
  cd_Actor :: actor_class
  cd_Supersedes :: string
  cd_DecidedAt :: go_time

record policy_codec =
  pc_assurance :: assurance_codec
  pc_fact :: "Fact \<Rightarrow> string option"
  pc_snapshot :: "Snapshot \<Rightarrow> string option"
  pc_evaluation :: "Evaluation \<Rightarrow> string option"
  pc_decision :: "canonicalDecision \<Rightarrow> string option"

text \<open>Decimal rendering of a natural number (\<^verbatim>\<open>fmt.Sprint\<close>, \<^verbatim>\<open>%d\<close>).\<close>

fun decimal :: "nat \<Rightarrow> string" where
  "decimal n = (if n < 10 then [char_of (48 + n)] else decimal (n div 10) @ [char_of (48 + n mod 10)])"

definition fact_parents :: "Fact \<Rightarrow> string list" where
  "fact_parents f =
     (let s = fa_Source f in
      (case fs_Check s of None \<Rightarrow> [] | Some c \<Rightarrow> cs_ObservationIDs c) @
      (case fs_Authority s of None \<Rightarrow> [] | Some a \<Rightarrow> [a]) @
      (case fs_SubjectResponse s of None \<Rightarrow> [] | Some a \<Rightarrow> [a]) @
      (case fs_Identity s of None \<Rightarrow> [] | Some d \<Rightarrow> [d]) @
      (case fs_Fraud s of None \<Rightarrow> [] | Some d \<Rightarrow> [d]) @
      (case fs_ReviewFinding s of None \<Rightarrow> [] | Some r \<Rightarrow> [r]))"

definition fact_references :: "Fact \<Rightarrow> DecisionReference list" where
  "fact_references f =
     (case fs_ReviewFinding (fa_Source f) of None \<Rightarrow> []
      | Some r \<Rightarrow> [\<lparr>dr_Kind = ''review_finding'', dr_ID = r, dr_Version = [], dr_Digest = [], dr_Parents = []\<rparr>]) @
     [\<lparr>dr_Kind = ''fact'', dr_ID = fa_Key f, dr_Version = [], dr_Digest = [], dr_Parents = fact_parents f\<rparr>]"

definition bound_references :: "SnapshotInput \<Rightarrow> DecisionReference list" where
  "bound_references input =
     [\<lparr>dr_Kind = ''policy'', dr_ID = rf_ID (si_Policy input), dr_Version = decimal (rf_Revision (si_Policy input)),
       dr_Digest = rf_Digest (si_Policy input), dr_Parents = []\<rparr>,
      \<lparr>dr_Kind = ''evaluator'', dr_ID = ev_Digest (si_Evaluator input),
       dr_Version = decimal (ev_Major (si_Evaluator input)) @ ''.'' @ decimal (ev_Minor (si_Evaluator input)),
       dr_Digest = ev_Digest (si_Evaluator input), dr_Parents = []\<rparr>] @
     concat (map fact_references (si_Facts input))"

definition bindSnapshotContext :: "assurance_codec \<Rightarrow> SnapshotInput \<Rightarrow> policy_error + DecisionContext option" where
  "bindSnapshotContext jc input =
     (case canonicalDecisionContext jc (si_Context input) of Inl e \<Rightarrow> Inl e
      | Inr None \<Rightarrow> Inr None
      | Inr (Some c) \<Rightarrow>
          canonicalDecisionContext jc (Some (c\<lparr>dc_References := dc_References c @ bound_references input\<rparr>)))"

fun facts_loop :: "go_time \<Rightarrow> nat \<Rightarrow> Fact list \<Rightarrow> policy_error + Fact list" where
  "facts_loop t reasonCount [] = Inr []"
| "facts_loop t reasonCount (f # fs) =
     (case validateFact f t of Inl e \<Rightarrow> Inl e
      | Inr v \<Rightarrow>
         (let n = reasonCount + length (fa_ReasonCodes v) in
          if n > MaximumSnapshotReasons then Inl ErrInvalid
          else case facts_loop t n fs of Inl e \<Rightarrow> Inl e | Inr vs \<Rightarrow> Inr (v # vs)))"

fun duplicate_fact :: "Fact list \<Rightarrow> (Fact \<times> Fact) option" where
  "duplicate_fact (x # y # xs) = (if fa_Key x = fa_Key y then Some (x, y) else duplicate_fact (y # xs))"
| "duplicate_fact _ = None"

definition NewSnapshot :: "policy_codec \<Rightarrow> SnapshotInput \<Rightarrow> policy_error + Snapshot" where
  "NewSnapshot pc input =
     (if si_TenantID input = [] \<or> si_VerificationID input = [] \<or> si_AuthorityID input = [] \<or>
         si_AcknowledgementID input = [] \<or> \<not> validToken (si_Region input) 64 \<or>
         \<not> validUTC (si_EvaluatedAt input) \<or> si_Facts input = [] \<or> length (si_Facts input) > MaximumFacts
      then Inl ErrInvalid
      else case Reference_validate (si_Policy input) of Some e \<Rightarrow> Inl e
      | None \<Rightarrow> (case EvaluatorReference_validate (si_Evaluator input) of Some e \<Rightarrow> Inl e
      | None \<Rightarrow> (case bindSnapshotContext (pc_assurance pc) input of Inl e \<Rightarrow> Inl e
      | Inr context \<Rightarrow> (case facts_loop (si_EvaluatedAt input) 0 (si_Facts input) of Inl e \<Rightarrow> Inl e
      | Inr validated \<Rightarrow>
         (let facts = sort_key fa_Key validated in
          case duplicate_fact facts of
            Some (left, right) \<Rightarrow>
              (if pc_fact pc left = None \<or> pc_fact pc right = None then Inl ErrInvalid
               else if pc_fact pc left = pc_fact pc right then Inl ErrInvalid
               else Inl ErrConflict)
          | None \<Rightarrow>
              (let body = \<lparr>sn_context = context, sn_tenantID = si_TenantID input,
                     sn_verificationID = si_VerificationID input, sn_authorityID = si_AuthorityID input,
                     sn_acknowledgementID = si_AcknowledgementID input, sn_region = si_Region input,
                     sn_policy = si_Policy input, sn_evaluator = si_Evaluator input,
                     sn_evaluatedAt = si_EvaluatedAt input, sn_facts = facts, sn_digest = []\<rparr> in
               case pc_snapshot pc body of None \<Rightarrow> Inl ErrEncoding
               | Some d \<Rightarrow> Inr (body\<lparr>sn_digest := d\<rparr>)))))))"

definition RestoreSnapshot :: "policy_codec \<Rightarrow> SnapshotInput \<Rightarrow> string \<Rightarrow> policy_error + Snapshot" where
  "RestoreSnapshot pc input digest =
     (if \<not> validDigest digest then Inl ErrReproduction
      else case NewSnapshot pc input of Inl e \<Rightarrow> Inl e
      | Inr s \<Rightarrow> if sn_digest s \<noteq> digest then Inl ErrReproduction else Inr s)"

text \<open>\<^verbatim>\<open>Snapshot.Context\<close> drops an error of the canonical form.\<close>

definition snapshot_Context :: "assurance_codec \<Rightarrow> Snapshot \<Rightarrow> DecisionContext option" where
  "snapshot_Context jc s = (case canonicalDecisionContext jc (sn_context s) of Inl _ \<Rightarrow> None | Inr c \<Rightarrow> c)"

definition snapshotInput :: "policy_codec \<Rightarrow> Snapshot \<Rightarrow> SnapshotInput" where
  "snapshotInput pc s = \<lparr>si_Context = snapshot_Context (pc_assurance pc) s, si_TenantID = sn_tenantID s,
     si_VerificationID = sn_verificationID s, si_AuthorityID = sn_authorityID s,
     si_AcknowledgementID = sn_acknowledgementID s, si_Region = sn_region s, si_Policy = sn_policy s,
     si_Evaluator = sn_evaluator s, si_EvaluatedAt = sn_evaluatedAt s, si_Facts = sn_facts s\<rparr>"

definition validateSnapshot :: "policy_codec \<Rightarrow> Snapshot \<Rightarrow> policy_error option" where
  "validateSnapshot pc s =
     (case RestoreSnapshot pc (snapshotInput pc s) (sn_digest s) of Inl e \<Rightarrow> Some e | Inr _ \<Rightarrow> None)"

text \<open>\<^verbatim>\<open>Snapshot.Achievement\<close>; the group loop always ends (\<open>AchieveAssurance_returns\<close>).\<close>

definition Achievement :: "policy_codec \<Rightarrow> Snapshot \<Rightarrow> policy_error + AssuranceAchievement" where
  "Achievement pc s =
     (case AchieveAssurance (pc_assurance pc) (sn_context s) (sn_evaluatedAt s) of
        Some r \<Rightarrow> r | None \<Rightarrow> Inl ErrEncoding)"

section \<open>Resolution\<close>

fun select_loop :: "nat \<Rightarrow> directive \<Rightarrow> RequirementResult list \<Rightarrow> policy_error + directive" where
  "select_loop selectedPriority selected [] = Inr selected"
| "select_loop selectedPriority selected (r # rs) =
     (if rr_Priority r < selectedPriority then select_loop (rr_Priority r) (rr_Candidate r) rs
      else if rr_Priority r = selectedPriority \<and> rr_Candidate r \<noteq> selected then Inl ErrConflict
      else select_loop selectedPriority selected rs)"

definition select_directive :: "RequirementResult list \<Rightarrow> policy_error + directive" where
  "select_directive ordered =
     (case ordered of [] \<Rightarrow> Inl ErrInvalid
      | r # rs \<Rightarrow> select_loop (rr_Priority r) (rr_Candidate r) rs)"

definition terminalOutcome :: "directive \<Rightarrow> RequirementResult list \<Rightarrow> policy_error + policy_outcome" where
  "terminalOutcome selected results =
     (let states = map rr_State results;
          allSatisfied = list_all (\<lambda>s. s = RequirementSatisfied) states;
          hasNotSatisfied = RequirementNotSatisfied \<in> set states;
          hasInconclusive = RequirementInconclusive \<in> set states;
          hasUnavailable = RequirementUnavailable \<in> set states;
          hasProhibited = RequirementProhibited \<in> set states in
      if hasProhibited \<and> selected \<noteq> DirectiveFailWorkflow then Inl ErrInvalid
      else case selected of
        DirectiveCompleteVerified \<Rightarrow> if \<not> allSatisfied then Inl ErrInvalid else Inr OutcomeVerified
      | DirectiveCompleteNotVerified \<Rightarrow>
          if \<not> hasNotSatisfied \<or> hasProhibited then Inl ErrInvalid else Inr OutcomeNotVerified
      | DirectiveCompleteInconclusive \<Rightarrow>
          if (\<not> hasInconclusive \<and> \<not> hasUnavailable) \<or> hasNotSatisfied \<or> hasProhibited
          then Inl ErrInvalid else Inr OutcomeInconclusive
      | _ \<Rightarrow> Inr OutcomeNone)"

definition requested_profile :: "Snapshot \<Rightarrow> AssuranceProfile option" where
  "requested_profile s = (case sn_context s of None \<Rightarrow> None | Some c \<Rightarrow> dc_Profile c)"

definition profile_label :: "AssuranceProfile \<Rightarrow> string" where
  "profile_label p = ap_Name p @ ''.v'' @ decimal (ap_Revision p)"

text \<open>The part of \<^verbatim>\<open>Resolve\<close> after the results are validated and ordered.\<close>

definition resolve_ordered ::
  "policy_codec \<Rightarrow> Snapshot \<Rightarrow> RequirementResult list \<Rightarrow> string \<Rightarrow> policy_error + Evaluation" where
  "resolve_ordered pc s ordered assurance0 =
     (case select_directive ordered of Inl e \<Rightarrow> Inl e
      | Inr selected0 \<Rightarrow>
        (case Achievement pc s of Inl e \<Rightarrow> Inl e
         | Inr achievement \<Rightarrow>
           (let assuranceGated = (selected0 = DirectiveCompleteVerified \<and>
                  aa_RequestedDigest achievement \<noteq> [] \<and> \<not> aa_Achieved achievement);
                selected = (if assuranceGated then DirectiveRouteManualReview else selected0);
                assurance = (case requested_profile s of None \<Rightarrow> assurance0
                  | Some p \<Rightarrow> if selected = DirectiveCompleteVerified then profile_label p else [])
            in case terminalOutcome selected ordered of Inl e \<Rightarrow> Inl e
               | Inr outcome \<Rightarrow>
                 if selected = DirectiveCompleteVerified \<and> assurance = [] then Inl ErrInvalid
                 else
                   let considered = map rr_Candidate ordered @ (if assuranceGated then [DirectiveRouteManualReview] else []);
                       allReasons = concat (map rr_ReasonCodes ordered) @
                         (if assuranceGated then [''assurance.not_achieved''] else [])
                   in case uniqueTokens allReasons MaximumSnapshotReasons of Inl e \<Rightarrow> Inl e
                      | Inr reasons \<Rightarrow>
                        (let body = \<lparr>el_snapshotDigest = sn_digest s, el_results = ordered,
                               el_considered = considered, el_selected = selected, el_outcome = outcome,
                               el_assurance = assurance, el_reasonCodes = reasons, el_digest = []\<rparr>
                         in case pc_evaluation pc body of None \<Rightarrow> Inl ErrEncoding
                            | Some d \<Rightarrow> Inr (body\<lparr>el_digest := d\<rparr>)))))"

definition Resolve ::
  "policy_codec \<Rightarrow> Snapshot \<Rightarrow> RequirementResult list \<Rightarrow> string \<Rightarrow> policy_error + Evaluation" where
  "Resolve pc s results assurance =
     (case validateSnapshot pc s of Some e \<Rightarrow> Inl e
      | None \<Rightarrow>
        if results = [] \<or> length results > MaximumRequirements \<or> (assurance \<noteq> [] \<and> \<not> validToken assurance 128)
        then Inl ErrInvalid
        else case traverse (\<lambda>r. validateResult r (fa_Key ` set (sn_facts s))) results of Inl e \<Rightarrow> Inl e
        | Inr validated \<Rightarrow>
          (let ordered = sort_key rr_Name validated in
           if adjacent_dup (map rr_Name ordered) then Inl ErrConflict
           else resolve_ordered pc s ordered assurance))"

definition AuthorisesCompletion :: "Evaluation \<Rightarrow> bool" where
  "AuthorisesCompletion e \<longleftrightarrow>
     (case el_selected e of
        DirectiveCompleteVerified \<Rightarrow> el_outcome e = OutcomeVerified
      | DirectiveCompleteNotVerified \<Rightarrow> el_outcome e = OutcomeNotVerified
      | DirectiveCompleteInconclusive \<Rightarrow> el_outcome e = OutcomeInconclusive
      | _ \<Rightarrow> False)"

definition routesWorkflow :: "directive \<Rightarrow> bool" where
  "routesWorkflow d \<longleftrightarrow> d = DirectiveRequestInput \<or> d = DirectiveRouteManualReview \<or> d = DirectiveFailWorkflow"

section \<open>Decisions\<close>

record DecisionInput =
  di_ID :: string
  di_Snapshot :: Snapshot
  di_Evaluation :: Evaluation
  di_Actor :: actor_class
  di_Supersedes :: string
  di_DecidedAt :: go_time

definition NewDecision :: "policy_codec \<Rightarrow> DecisionInput \<Rightarrow> policy_error + Decision" where
  "NewDecision pc input =
     (let s = di_Snapshot input; e = di_Evaluation input in
      if di_ID input = [] \<or> \<not> validActor (di_Actor input) \<or> \<not> validUTC (di_DecidedAt input) \<or>
         Before (di_DecidedAt input) (sn_evaluatedAt s) \<or> \<not> AuthorisesCompletion e \<or>
         el_snapshotDigest e \<noteq> sn_digest s \<or>
         (di_Supersedes input \<noteq> [] \<and> di_Supersedes input = di_ID input)
      then Inl ErrInvalid
      else case validateSnapshot pc s of Some err \<Rightarrow> Inl err
      | None \<Rightarrow>
        (case Resolve pc s (el_results e) (el_assurance e) of Inl _ \<Rightarrow> Inl ErrReproduction
         | Inr reproduced \<Rightarrow>
           if el_digest reproduced \<noteq> el_digest e then Inl ErrReproduction
           else
             let canonical = \<lparr>cd_ID = di_ID input, cd_TenantID = sn_tenantID s,
                   cd_VerificationID = sn_verificationID s, cd_SnapshotDigest = sn_digest s,
                   cd_EvaluationDigest = el_digest e, cd_Actor = di_Actor input,
                   cd_Supersedes = di_Supersedes input, cd_DecidedAt = di_DecidedAt input\<rparr>
             in case pc_decision pc canonical of None \<Rightarrow> Inl ErrEncoding
                | Some d \<Rightarrow> Inr \<lparr>de_id = di_ID input, de_snapshot = s, de_evaluation = e,
                     de_actor = di_Actor input, de_supersedes = di_Supersedes input,
                     de_decidedAt = di_DecidedAt input, de_digest = d\<rparr>))"

definition RestoreDecision :: "policy_codec \<Rightarrow> DecisionInput \<Rightarrow> string \<Rightarrow> string \<Rightarrow> policy_error + Decision" where
  "RestoreDecision pc input snapshotDigest evaluationDigest =
     (if sn_digest (di_Snapshot input) \<noteq> snapshotDigest \<or> el_digest (di_Evaluation input) \<noteq> evaluationDigest \<or>
         \<not> validDigest snapshotDigest \<or> \<not> validDigest evaluationDigest
      then Inl ErrReproduction else NewDecision pc input)"

definition Reproduce :: "policy_codec \<Rightarrow> Decision \<Rightarrow> policy_error + Evaluation" where
  "Reproduce pc d =
     (if de_id d = [] \<or> \<not> validActor (de_actor d) \<or> \<not> validUTC (de_decidedAt d) then Inl ErrReproduction
      else case Resolve pc (de_snapshot d) (el_results (de_evaluation d)) (el_assurance (de_evaluation d)) of
        Inl e \<Rightarrow> Inl e
      | Inr reproduced \<Rightarrow>
          if el_digest reproduced \<noteq> el_digest (de_evaluation d) \<or>
             el_selected reproduced \<noteq> el_selected (de_evaluation d) \<or>
             el_outcome reproduced \<noteq> el_outcome (de_evaluation d) \<or>
             el_reasonCodes reproduced \<noteq> el_reasonCodes (de_evaluation d)
          then Inl ErrReproduction else Inr reproduced)"

section \<open>Selection and outcome lemmas\<close>

text \<open>\<open>r\<close> has the best (least) priority among \<open>rs\<close>, and all results of that priority agree on \<open>d\<close>.\<close>

definition winner :: "RequirementResult set \<Rightarrow> RequirementResult \<Rightarrow> directive \<Rightarrow> bool" where
  "winner rs r d \<longleftrightarrow> rr_Candidate r = d \<and>
     (\<forall>r' \<in> rs. rr_Priority r \<le> rr_Priority r' \<and> (rr_Priority r' = rr_Priority r \<longrightarrow> rr_Candidate r' = d))"

lemma winner_insert:
  assumes "winner rs w d"
    and "rr_Priority w < rr_Priority r \<or> (\<exists>h \<in> rs. rr_Priority h \<le> rr_Priority r \<and>
      (rr_Priority h = rr_Priority r \<longrightarrow> rr_Candidate h = rr_Candidate r))"
  shows "winner (insert r rs) w d"
proof -
  have "rr_Priority w \<le> rr_Priority r \<and> (rr_Priority r = rr_Priority w \<longrightarrow> rr_Candidate r = d)"
    using assms(2)
  proof
    assume "\<exists>h \<in> rs. rr_Priority h \<le> rr_Priority r \<and> (rr_Priority h = rr_Priority r \<longrightarrow> rr_Candidate h = rr_Candidate r)"
    then obtain h where h: "h \<in> rs" "rr_Priority h \<le> rr_Priority r"
      "rr_Priority h = rr_Priority r \<longrightarrow> rr_Candidate h = rr_Candidate r" by blast
    have "rr_Priority w \<le> rr_Priority h" "rr_Priority h = rr_Priority w \<longrightarrow> rr_Candidate h = d"
      using assms(1) h(1) by (auto simp: winner_def)
    with h show ?thesis by (metis le_antisym le_trans)
  qed simp
  then show ?thesis using assms(1) by (simp add: winner_def)
qed

lemma select_loop_winner:
  "select_loop (rr_Priority h) (rr_Candidate h) rs = Inr x \<Longrightarrow> \<exists>r \<in> set (h # rs). winner (set (h # rs)) r x"
proof (induction rs arbitrary: h)
  case Nil
  then show ?case by (simp add: winner_def)
next
  case (Cons r rs)
  show ?case
  proof (cases "rr_Priority r < rr_Priority h")
    case True
    with Cons.prems have "select_loop (rr_Priority r) (rr_Candidate r) rs = Inr x" by simp
    from Cons.IH [OF this] obtain w where w: "w \<in> set (r # rs)" "winner (set (r # rs)) w x" by blast
    then have "rr_Priority w \<le> rr_Priority r" by (simp add: winner_def)
    with True have "winner (insert h (set (r # rs))) w x"
      by (intro winner_insert [OF w(2)]) simp
    with w(1) show ?thesis by auto
  next
    case False
    with Cons.prems have s: "select_loop (rr_Priority h) (rr_Candidate h) rs = Inr x"
      "rr_Priority h = rr_Priority r \<longrightarrow> rr_Candidate h = rr_Candidate r"
      by (auto split: if_splits)
    from Cons.IH [OF s(1)] obtain w where w: "w \<in> set (h # rs)" "winner (set (h # rs)) w x" by blast
    have "winner (insert r (set (h # rs))) w x"
      using s(2) False by (intro winner_insert [OF w(2)] disjI2 bexI [of _ h]) auto
    moreover have "insert r (set (h # rs)) = set (h # r # rs)" by auto
    ultimately show ?thesis using w(1) by auto
  qed
qed

lemma select_directive_winner: "select_directive rs = Inr d \<Longrightarrow> \<exists>r \<in> set rs. winner (set rs) r d"
  using select_loop_winner by (auto simp: select_directive_def split: list.splits)

lemma terminalOutcome_verified:
  "terminalOutcome d rs = Inr OutcomeVerified \<Longrightarrow>
     d = DirectiveCompleteVerified \<and> (\<forall>r \<in> set rs. rr_State r = RequirementSatisfied)"
  by (auto simp: terminalOutcome_def Let_def list_all_iff split: if_splits directive.splits)

lemma validateResult_error: "validateResult v fs = Inl e \<Longrightarrow> e = ErrInvalid"
  by (auto simp: validateResult_def Let_def canonicalTokens_def split: if_splits sum.splits)

text \<open>\<^verbatim>\<open>Resolve\<close> in terms of the validated results, without the order they came in.\<close>

definition valid_results :: "Snapshot \<Rightarrow> RequirementResult list \<Rightarrow> bool" where
  "valid_results s rs \<longleftrightarrow> (\<forall>r \<in> set rs. \<exists>w. validateResult r (fa_Key ` set (sn_facts s)) = Inr w)"

definition validated :: "Snapshot \<Rightarrow> RequirementResult \<Rightarrow> RequirementResult" where
  "validated s r = (case validateResult r (fa_Key ` set (sn_facts s)) of Inr w \<Rightarrow> w | Inl _ \<Rightarrow> r)"

lemma traverse_validateResult:
  "traverse (\<lambda>r. validateResult r (fa_Key ` set (sn_facts s))) rs =
     (if valid_results s rs then Inr (map (validated s) rs) else Inl ErrInvalid)"
proof (induction rs)
  case (Cons r rs)
  then show ?case
    by (cases "validateResult r (fa_Key ` set (sn_facts s))")
       (auto simp: valid_results_def validated_def dest: validateResult_error)
qed (simp add: valid_results_def)

lemma validated_name: "valid_results s rs \<Longrightarrow> r \<in> set rs \<Longrightarrow> rr_Name (validated s r) = rr_Name r"
  by (auto simp: valid_results_def validated_def dest: validateResult_name split: sum.splits)

lemma Resolve_eq:
  "Resolve pc s results assurance =
     (case validateSnapshot pc s of Some e \<Rightarrow> Inl e
      | None \<Rightarrow>
        if results = [] \<or> length results > MaximumRequirements \<or> (assurance \<noteq> [] \<and> \<not> validToken assurance 128) \<or>
           \<not> valid_results s results then Inl ErrInvalid
        else if \<not> distinct (map rr_Name results) then Inl ErrConflict
        else resolve_ordered pc s (sort_key rr_Name (map (validated s) results)) assurance)"
proof -
  have "adjacent_dup (map rr_Name (sort_key rr_Name (map (validated s) results))) \<longleftrightarrow>
      \<not> distinct (map rr_Name results)" if "valid_results s results"
  proof -
    have "map rr_Name (map (validated s) results) = map rr_Name results"
      using validated_name [OF that] by simp
    then have "distinct (map rr_Name (sort_key rr_Name (map (validated s) results))) \<longleftrightarrow> distinct (map rr_Name results)"
      by (simp only: distinct_map_sort_key)
    then show ?thesis by (simp add: adjacent_dup_sorted)
  qed
  then show ?thesis
    by (auto simp: Resolve_def traverse_validateResult Let_def split: option.splits)
qed

lemma Resolve_Inr:
  assumes "Resolve pc s results assurance = Inr e"
  shows "validateSnapshot pc s = None" "valid_results s results" "distinct (map rr_Name results)"
    "resolve_ordered pc s (sort_key rr_Name (map (validated s) results)) assurance = Inr e"
    "results \<noteq> []" "length results \<le> MaximumRequirements" "assurance = [] \<or> validToken assurance 128"
  using assms by (auto simp: Resolve_eq split: option.splits if_splits)

lemma resolve_ordered_Inr:
  assumes "resolve_ordered pc s ordered a = Inr e"
  obtains sel ach gated where "select_directive ordered = Inr sel" "Achievement pc s = Inr ach"
    "gated \<longleftrightarrow> sel = DirectiveCompleteVerified \<and> aa_RequestedDigest ach \<noteq> [] \<and> \<not> aa_Achieved ach"
    "el_selected e = (if gated then DirectiveRouteManualReview else sel)"
    "terminalOutcome (el_selected e) ordered = Inr (el_outcome e)"
    "el_results e = ordered" "el_snapshotDigest e = sn_digest s"
    "el_assurance e = (case requested_profile s of None \<Rightarrow> a
        | Some p \<Rightarrow> if el_selected e = DirectiveCompleteVerified then profile_label p else [])"
    "el_selected e = DirectiveCompleteVerified \<longrightarrow> el_assurance e \<noteq> []"
  using assms
  by (auto simp: resolve_ordered_def Let_def split: sum.splits if_splits option.splits)

section \<open>Reproduction lemmas\<close>

lemma validated_idem: "valid_results s rs \<Longrightarrow> r \<in> set rs \<Longrightarrow>
    validateResult (validated s r) (fa_Key ` set (sn_facts s)) = Inr (validated s r)"
  by (auto simp: valid_results_def validated_def dest: validateResult_idem split: sum.splits)

lemma validated_keeps: "valid_results s rs \<Longrightarrow> r \<in> set rs \<Longrightarrow>
    rr_State (validated s r) = rr_State r \<and> rr_Candidate (validated s r) = rr_Candidate r \<and>
    rr_Priority (validated s r) = rr_Priority r"
  by (auto simp: valid_results_def validated_def dest: validateResult_keeps split: sum.splits)

abbreviation ordered_results :: "Snapshot \<Rightarrow> RequirementResult list \<Rightarrow> RequirementResult list" where
  "ordered_results s rs \<equiv> sort_key rr_Name (map (validated s) rs)"

lemma ordered_results_fixpoint:
  assumes "valid_results s rs" "distinct (map rr_Name rs)"
  shows "valid_results s (ordered_results s rs)" "map (validated s) (ordered_results s rs) = ordered_results s rs"
    "distinct (map rr_Name (ordered_results s rs))"
proof -
  have idem: "validateResult r (fa_Key ` set (sn_facts s)) = Inr r" if "r \<in> set (ordered_results s rs)" for r
    using that validated_idem [OF assms(1)] by auto
  then show "valid_results s (ordered_results s rs)" by (auto simp: valid_results_def)
  show "map (validated s) (ordered_results s rs) = ordered_results s rs"
    by (rule map_idI) (simp only: validated_def idem sum.case)
  have "map rr_Name (map (validated s) rs) = map rr_Name rs"
    using validated_name [OF assms(1)] by simp
  then show "distinct (map rr_Name (ordered_results s rs))"
    using assms(2) by (simp only: distinct_map_sort_key)
qed

lemma resolve_ordered_assurance:
  assumes "requested_profile s = Some p"
  shows "resolve_ordered pc s rs a = resolve_ordered pc s rs b"
  unfolding resolve_ordered_def assms option.case by (rule refl)

lemma decimal_digits: "list_all is_digit (decimal n)"
proof (induction n rule: decimal.induct)
  case (1 n)
  have d: "is_digit (char_of (48 + k))" if "k < 10" for k :: nat
    using that by (simp add: is_digit_def less_eq_char_def)
  show ?case
  proof (cases "n < 10")
    case True
    then show ?thesis using d by simp
  next
    case False
    then show ?thesis using 1 d [of "n mod 10"] by (subst decimal.simps) simp
  qed
qed

lemma decimal_length: "n < 10 ^ k \<Longrightarrow> 0 < k \<Longrightarrow> length (decimal n) \<le> k"
proof (induction k arbitrary: n)
  case (Suc k)
  show ?case
  proof (cases "n < 10")
    case False
    then have "k \<noteq> 0" using Suc.prems by (cases k) auto
    moreover have "n div 10 < 10 ^ k" using Suc.prems(1) by (simp add: div_less_iff_less_mult)
    ultimately show ?thesis using Suc.IH [of "n div 10"] False by (subst decimal.simps) simp
  qed simp
qed simp

lemma profile_label_token:
  assumes "validToken (ap_Name p) 64" "ap_Revision p < 2 ^ 32"
  shows "validToken (profile_label p) 128"
proof -
  have "length (decimal (ap_Revision p)) \<le> 10"
    using assms(2) by (intro decimal_length) simp_all
  moreover have "list_all token_char (decimal (ap_Revision p))"
    using decimal_digits [of "ap_Revision p"] by (auto simp: list_all_iff token_char_def)
  ultimately show ?thesis
    using assms(1)
    by (cases "ap_Name p") (auto simp: validToken_def profile_label_def token_char_def is_lower_def)
qed

lemma canonical_profile_name:
  assumes "canonicalDecisionContext jc c0 = Inr (Some c)" "dc_Profile c = Some p"
  shows "validToken (ap_Name p) 64" "dc_ProfileDigest c = jc_profile_digest jc p"
proof -
  obtain c1 where c1: "c0 = Some c1"
    using assms(1) by (cases c0) (simp_all add: canonicalDecisionContext_def)
  obtain profile where pr: "canonical_profile_of jc c1 = Inr profile" "dc_Profile c = profile"
    "dc_ProfileDigest c = dc_ProfileDigest c1"
    using assms(1) unfolding c1 canonicalDecisionContext_Inr by auto
  then obtain q d where q: "CanonicalAssuranceProfile jc q = Inr (p, d)" "d = dc_ProfileDigest c1"
    using assms(2) by (auto simp: canonical_profile_of_def split: option.splits sum.splits if_splits)
  then show "validToken (ap_Name p) 64" "dc_ProfileDigest c = jc_profile_digest jc p"
    using pr(3) by (auto simp: CanonicalAssuranceProfile_def Let_def split: if_splits)
qed

text \<open>What a snapshot built by \<^verbatim>\<open>NewSnapshot\<close> consists of.\<close>

lemma NewSnapshot_Inr:
  assumes "NewSnapshot pc input = Inr s"
  obtains cx vs d where "bindSnapshotContext (pc_assurance pc) input = Inr cx"
    "facts_loop (si_EvaluatedAt input) 0 (si_Facts input) = Inr vs"
    "duplicate_fact (sort_key fa_Key vs) = None"
    "s = \<lparr>sn_context = cx, sn_tenantID = si_TenantID input,
           sn_verificationID = si_VerificationID input, sn_authorityID = si_AuthorityID input,
           sn_acknowledgementID = si_AcknowledgementID input, sn_region = si_Region input,
           sn_policy = si_Policy input, sn_evaluator = si_Evaluator input,
           sn_evaluatedAt = si_EvaluatedAt input, sn_facts = sort_key fa_Key vs, sn_digest = d\<rparr>"
    "pc_snapshot pc (s\<lparr>sn_digest := []\<rparr>) = Some d"
  using assms
  by (auto simp: NewSnapshot_def Let_def split: if_splits option.splits sum.splits)

lemma bindSnapshotContext_canonical:
  "bindSnapshotContext jc input = Inr (Some c) \<Longrightarrow> \<exists>c0. canonicalDecisionContext jc c0 = Inr (Some c)"
  by (auto simp: bindSnapshotContext_def split: sum.splits option.splits)

lemma Resolve_again:
  assumes "NewSnapshot pc input = Inr s" "Resolve pc s results a = Inr e"
    and "\<And>p. requested_profile s = Some p \<Longrightarrow> ap_Revision p < 2 ^ 32"
  shows "Resolve pc s (el_results e) (el_assurance e) = Inr e"
proof -
  note r = Resolve_Inr [OF assms(2)]
  let ?o = "ordered_results s results"
  obtain cx where ctx: "bindSnapshotContext (pc_assurance pc) input = Inr cx" "sn_context s = cx"
    using assms(1) by (rule NewSnapshot_Inr) simp
  obtain sel where e: "el_results e = ?o"
    "el_assurance e = (case requested_profile s of None \<Rightarrow> a
        | Some p \<Rightarrow> if el_selected e = DirectiveCompleteVerified then profile_label p else [])"
    using r(4) by (rule resolve_ordered_Inr) simp
  have again: "resolve_ordered pc s ?o (el_assurance e) = Inr e"
    using r(4) e(2) resolve_ordered_assurance [of s _ pc ?o a "el_assurance e"]
    by (cases "requested_profile s") simp_all
  have token: "el_assurance e = [] \<or> validToken (el_assurance e) 128"
  proof (cases "requested_profile s")
    case None
    then show ?thesis using e(2) r(7) by simp
  next
    case (Some p)
    then obtain c where c: "cx = Some c" "dc_Profile c = Some p"
      using ctx(2) by (auto simp: requested_profile_def split: option.splits)
    then have "validToken (ap_Name p) 64"
      using bindSnapshotContext_canonical ctx(1) canonical_profile_name(1) by blast
    then show ?thesis
      using Some e(2) profile_label_token assms(3) by simp
  qed
  show ?thesis
    using r(1,5,6) token again ordered_results_fixpoint [OF r(2,3)] e(1)
    by (simp add: Resolve_eq)
qed

lemma resolve_results_perm:
  assumes "mset results = mset results'"
  shows "Resolve pc s results a = Resolve pc s results' a"
proof -
  have same: "valid_results s results \<longleftrightarrow> valid_results s results'" "results = [] \<longleftrightarrow> results' = []"
    "length results = length results'" "distinct (map rr_Name results) \<longleftrightarrow> distinct (map rr_Name results')"
    using assms mset_eq_setD [OF assms] mset_eq_length [OF assms]
    by (auto simp: valid_results_def mset_eq_imp_distinct_iff [of "map rr_Name results" "map rr_Name results'"])
  have "ordered_results s results = ordered_results s results'"
    if "valid_results s results" "distinct (map rr_Name results)"
  proof (rule sort_key_distinct_unique)
    show "mset (map (validated s) results) = mset (map (validated s) results')"
      using assms by simp
    show "distinct (map rr_Name (map (validated s) results))"
      using that validated_name [OF that(1)] by (metis (mono_tags, lifting) map_cong map_map o_apply)
  qed
  then show ?thesis using same by (auto simp: Resolve_eq split: option.splits)
qed

section \<open>Snapshots restore\<close>

lemma facts_loop_Inr:
  "n \<le> MaximumSnapshotReasons \<Longrightarrow> facts_loop t n fs = Inr vs \<longleftrightarrow>
     traverse (\<lambda>f. validateFact f t) fs = Inr vs \<and>
     n + sum_list (map (\<lambda>v. length (fa_ReasonCodes v)) vs) \<le> MaximumSnapshotReasons"
proof (induction fs arbitrary: n vs)
  case (Cons f fs)
  show ?case
  proof (cases "validateFact f t")
    case (Inr v)
    let ?n = "n + length (fa_ReasonCodes v)"
    show ?thesis
    proof (cases "?n \<le> MaximumSnapshotReasons")
      case True
      then show ?thesis
        using Cons.IH [OF True] Inr by (auto simp: Let_def add.assoc split: sum.splits)
    next
      case False
      then show ?thesis using Inr by (auto simp: Let_def split: sum.splits)
    qed
  qed simp
qed auto

lemma facts_loop_sorted:
  assumes "facts_loop t 0 fs = Inr vs"
  shows "facts_loop t 0 (sort_key fa_Key vs) = Inr (sort_key fa_Key vs)"
proof -
  have v: "traverse (\<lambda>f. validateFact f t) fs = Inr vs"
    "sum_list (map (\<lambda>v. length (fa_ReasonCodes v)) vs) \<le> MaximumSnapshotReasons"
    using assms by (simp_all add: facts_loop_Inr)
  have "mset (map (\<lambda>v. length (fa_ReasonCodes v)) (sort_key fa_Key vs)) = mset (map (\<lambda>v. length (fa_ReasonCodes v)) vs)"
    by simp
  then have "sum_list (map (\<lambda>v. length (fa_ReasonCodes v)) (sort_key fa_Key vs)) =
      sum_list (map (\<lambda>v. length (fa_ReasonCodes v)) vs)"
    by (metis sum_mset_sum_list)
  moreover have "traverse (\<lambda>f. validateFact f t) (sort_key fa_Key vs) = Inr (sort_key fa_Key vs)"
    using v(1) by (rule traverse_sorted_fixpoint) (rule validateFact_idem)
  ultimately show ?thesis using v(2) by (simp add: facts_loop_Inr)
qed

lemma compact_sort_set: "set xs = set ys \<Longrightarrow> compact (sort xs) = compact (sort ys)" for xs ys :: "'a::linorder list"
  using sorted_compact [of "sort xs"] sorted_compact [of "sort ys"]
  by (intro sorted_distinct_set_unique) simp_all

lemma fact_parents_validated:
  assumes "validateFact f t = Inr v"
  shows "mset (fact_parents v) = mset (fact_parents f)"
proof -
  obtain source where src: "validateSource (fa_Source f) = Inr source" "fa_Source v = source"
    using assms by (auto simp: validateFact_Inr)
  from validateSource_cases [OF src(1)] show ?thesis
    by (elim disjE exE conjE) (simp_all add: fact_parents_def src(2) Let_def)
qed

lemma fact_references_validated:
  assumes "validateFact f t = Inr v"
  shows "canonical_reference ` set (fact_references v) = canonical_reference ` set (fact_references f)"
    and "list_all reference_ok (fact_references v) = list_all reference_ok (fact_references f)"
proof -
  note p = fact_parents_validated [OF assms]
  have same: "fa_Key v = fa_Key f" "fs_ReviewFinding (fa_Source v) = fs_ReviewFinding (fa_Source f)"
    using assms validateSource_presence(3) by (auto simp: validateFact_Inr)
  have "set (fact_parents v) = set (fact_parents f)" "length (fact_parents v) = length (fact_parents f)"
    using p by (metis mset_eq_setD, metis mset_eq_length)
  moreover from this have "compact (sort (fact_parents v)) = compact (sort (fact_parents f))"
    by (intro compact_sort_set)
  ultimately show "canonical_reference ` set (fact_references v) = canonical_reference ` set (fact_references f)"
    "list_all reference_ok (fact_references v) = list_all reference_ok (fact_references f)"
    by (simp_all add: fact_references_def same canonical_reference_def reference_ok_def list_all_iff
        split: option.splits)
qed

text \<open>The references bound by the validated facts are those bound by the original ones.\<close>

lemma bound_references_validated:
  assumes "traverse (\<lambda>f. validateFact f t) (si_Facts input) = Inr vs"
    and "si_Policy input' = si_Policy input" "si_Evaluator input' = si_Evaluator input"
      "si_Facts input' = sort_key fa_Key vs"
  shows "canonical_reference ` set (bound_references input') = canonical_reference ` set (bound_references input)"
    and "list_all reference_ok (bound_references input') = list_all reference_ok (bound_references input)"
proof -
  have "(\<Union>v \<in> set vs. canonical_reference ` set (fact_references v)) =
      (\<Union>f \<in> set fs. canonical_reference ` set (fact_references f)) \<and>
      list_all (\<lambda>v. list_all reference_ok (fact_references v)) vs =
      list_all (\<lambda>f. list_all reference_ok (fact_references f)) fs"
    if "traverse (\<lambda>f. validateFact f t) fs = Inr vs" for fs
    using that
  proof (induction fs arbitrary: vs)
    case (Cons f fs)
    then obtain v ws where "validateFact f t = Inr v" "traverse (\<lambda>f. validateFact f t) fs = Inr ws" "vs = v # ws"
      by (auto split: sum.splits)
    then show ?case using Cons.IH fact_references_validated by simp
  qed simp
  from this [OF assms(1)]
  show "canonical_reference ` set (bound_references input') = canonical_reference ` set (bound_references input)"
    "list_all reference_ok (bound_references input') = list_all reference_ok (bound_references input)"
    by (simp_all add: bound_references_def assms image_Un image_UN list_all_iff)
qed

lemma bound_context_stable:
  assumes bind: "bindSnapshotContext jc input = Inr (Some c)" and inj: "inj (jc_reference jc)"
    and fits: "context_fits jc c" "context_fits jc (c\<lparr>dc_References := dc_References c @ bound_references input'\<rparr>)"
    and refs: "canonical_reference ` set (bound_references input') = canonical_reference ` set (bound_references input)"
      "list_all reference_ok (bound_references input') = list_all reference_ok (bound_references input)"
  shows "canonicalDecisionContext jc (Some c) = Inr (Some c)"
    and "canonicalDecisionContext jc (Some (c\<lparr>dc_References := dc_References c @ bound_references input'\<rparr>)) = Inr (Some c)"
proof -
  obtain c1 where c1: "canonicalDecisionContext jc (si_Context input) = Inr (Some c1)"
    and c: "canonicalDecisionContext jc (Some (c1\<lparr>dc_References := dc_References c1 @ bound_references input\<rparr>)) = Inr (Some c)"
    using bind by (auto simp: bindSnapshotContext_def split: sum.splits option.splits)
  obtain c0 where c0: "si_Context input = Some c0"
    using c1 by (cases "si_Context input") (simp_all add: canonicalDecisionContext_def)
  let ?R = "dc_References c1 @ bound_references input"
  have ok: "list_all reference_ok ?R" "context_fits jc (c1\<lparr>dc_References := ?R\<rparr>)"
    using c unfolding canonicalDecisionContext_Inr by simp_all
  note rebind = canonicalDecisionContext_rebind [OF c1 [unfolded c0]]
  have c_eq: "c = c1\<lparr>dc_References := canonical_references jc ?R\<rparr>"
    using rebind [OF ok] c by simp
  have upd: "c\<lparr>dc_References := X\<rparr> = c1\<lparr>dc_References := X\<rparr>" for X
    by (simp add: c_eq)
  have okR: "list_all reference_ok (canonical_references jc ?R)"
    using ok(1) canonical_references_set [OF inj, of ?R] reference_ok_canonical by (auto simp: list_all_iff)
  have setR: "canonical_reference ` set (canonical_references jc ?R) = canonical_reference ` set ?R"
    unfolding canonical_references_set [OF inj] image_image canonical_reference_idem ..
  have same: "canonical_references jc (canonical_references jc ?R) = canonical_references jc ?R"
    "canonical_references jc (canonical_references jc ?R @ bound_references input') = canonical_references jc ?R"
    using setR refs(1) by (intro canonical_references_unique [OF inj]; simp only: set_append image_Un; blast)+
  have cR: "dc_References c = canonical_references jc ?R" by (simp add: c_eq)
  have "canonicalDecisionContext jc (Some (c1\<lparr>dc_References := canonical_references jc ?R\<rparr>)) =
      Inr (Some (c1\<lparr>dc_References := canonical_references jc (canonical_references jc ?R)\<rparr>))"
    by (rule rebind [OF okR]) (use fits(1) in \<open>simp add: c_eq\<close>)
  then show "canonicalDecisionContext jc (Some c) = Inr (Some c)"
    by (simp only: same(1) c_eq)
  have "canonicalDecisionContext jc (Some (c1\<lparr>dc_References := canonical_references jc ?R @ bound_references input'\<rparr>)) =
      Inr (Some (c1\<lparr>dc_References := canonical_references jc (canonical_references jc ?R @ bound_references input')\<rparr>))"
  proof (rule rebind)
    show "list_all reference_ok (canonical_references jc ?R @ bound_references input')"
      using okR refs(2) ok(1) by simp
    show "context_fits jc (c1\<lparr>dc_References := canonical_references jc ?R @ bound_references input'\<rparr>)"
      using fits(2) unfolding upd cR .
  qed
  then show "canonicalDecisionContext jc (Some (c\<lparr>dc_References := dc_References c @ bound_references input'\<rparr>)) = Inr (Some c)"
    unfolding upd cR same(2) by (simp only: c_eq)
qed

lemma NewSnapshot_again:
  assumes snap: "NewSnapshot pc input = Inr s" and inj: "inj (jc_reference (pc_assurance pc))"
    and fits: "\<And>c. sn_context s = Some c \<Longrightarrow> context_fits (pc_assurance pc) c \<and>
      context_fits (pc_assurance pc) (c\<lparr>dc_References := dc_References c @ bound_references (snapshotInput pc s)\<rparr>)"
  shows "NewSnapshot pc (snapshotInput pc s) = Inr s"
proof -
  let ?jc = "pc_assurance pc" and ?i = "snapshotInput pc s"
  obtain cx vs d where b: "bindSnapshotContext ?jc input = Inr cx"
    and fl: "facts_loop (si_EvaluatedAt input) 0 (si_Facts input) = Inr vs"
    and dup: "duplicate_fact (sort_key fa_Key vs) = None"
    and s: "s = \<lparr>sn_context = cx, sn_tenantID = si_TenantID input,
           sn_verificationID = si_VerificationID input, sn_authorityID = si_AuthorityID input,
           sn_acknowledgementID = si_AcknowledgementID input, sn_region = si_Region input,
           sn_policy = si_Policy input, sn_evaluator = si_Evaluator input,
           sn_evaluatedAt = si_EvaluatedAt input, sn_facts = sort_key fa_Key vs, sn_digest = d\<rparr>"
    and dig: "pc_snapshot pc (s\<lparr>sn_digest := []\<rparr>) = Some d"
    using snap by (rule NewSnapshot_Inr)
  have tr: "traverse (\<lambda>f. validateFact f (si_EvaluatedAt input)) (si_Facts input) = Inr vs"
    using fl by (simp add: facts_loop_Inr)
  have facts: "si_Policy ?i = si_Policy input" "si_Evaluator ?i = si_Evaluator input" "si_Facts ?i = sort_key fa_Key vs"
    by (simp_all add: snapshotInput_def s)
  note refs = bound_references_validated [OF tr facts]
  have "bindSnapshotContext ?jc ?i = Inr cx"
  proof (cases cx)
    case None
    then show ?thesis
      by (simp add: bindSnapshotContext_def snapshotInput_def snapshot_Context_def s canonicalDecisionContext_def)
  next
    case (Some c)
    note st = bound_context_stable [OF b [unfolded Some] inj _ _ refs]
    have "context_fits ?jc c" "context_fits ?jc (c\<lparr>dc_References := dc_References c @ bound_references ?i\<rparr>)"
      using fits [of c] Some by (simp_all add: s)
    from st [OF this] show ?thesis
      by (simp add: bindSnapshotContext_def snapshotInput_def snapshot_Context_def s Some)
  qed
  moreover have "length vs = length (si_Facts input)"
    using traverse_length [OF tr] .
  ultimately show ?thesis
    using snap dup facts_loop_sorted [OF fl] dig
    by (auto simp: NewSnapshot_def snapshotInput_def s Let_def split: if_splits option.splits)
qed

section \<open>A small snapshot\<close>

text \<open>An injective encoding of references: strings and lists with their ends marked.\<close>

fun encode_string :: "string \<Rightarrow> string" where
  "encode_string [] = ''0''"
| "encode_string (c # s) = CHR ''1'' # c # encode_string s"

fun encode_strings :: "string list \<Rightarrow> string" where
  "encode_strings [] = ''0''"
| "encode_strings (s # ss) = CHR ''1'' # encode_string s @ encode_strings ss"

definition encode_reference :: "DecisionReference \<Rightarrow> string" where
  "encode_reference r = encode_string (dr_Kind r) @ encode_string (dr_ID r) @ encode_string (dr_Version r) @
     encode_string (dr_Digest r) @ encode_strings (dr_Parents r)"

lemma encode_string_eq: "encode_string s @ x = encode_string t @ y \<longleftrightarrow> s = t \<and> x = y"
proof (induction s arbitrary: t)
  case Nil
  then show ?case by (cases t) auto
next
  case (Cons c s)
  then show ?case by (cases t) auto
qed

lemma encode_strings_eq: "encode_strings s = encode_strings t \<longleftrightarrow> s = t"
proof (induction s arbitrary: t)
  case Nil
  then show ?case by (cases t) auto
next
  case (Cons c s)
  then show ?case by (cases t) (auto simp: encode_string_eq)
qed

lemma inj_encode_reference: "inj encode_reference"
  by (rule injI) (simp add: encode_reference_def encode_string_eq encode_strings_eq)

definition sample_codec :: policy_codec where
  "sample_codec = \<lparr>pc_assurance = example_codec\<lparr>jc_reference := encode_reference\<rparr>, pc_fact = (\<lambda>f. Some (fa_Key f)),
     pc_snapshot = (\<lambda>s. Some zero_digest), pc_evaluation = (\<lambda>e. Some zero_digest),
     pc_decision = (\<lambda>d. Some zero_digest)\<rparr>"

definition sample_fact :: "string \<Rightarrow> Fact" where
  "sample_fact k = \<lparr>fa_Key = k, fa_State = RequirementSatisfied,
     fa_Source = \<lparr>fs_Identity = None, fs_Kind = FactSourceProcessingAuthority, fs_Check = None,
       fs_Authority = Some ''pa1'', fs_SubjectResponse = None, fs_ReviewFinding = None, fs_Fraud = None\<rparr>,
     fa_ObservedAt = utc_at 1000, fa_ExpiresAt = None, fa_ReasonCodes = []\<rparr>"

definition sample_context :: DecisionContext where
  "sample_context = example_context\<lparr>dc_Sources := [example_source ''s1'' [''a''], example_source ''s2'' [''b'']]\<rparr>"

definition sample_input :: SnapshotInput where
  "sample_input = \<lparr>si_Context = Some sample_context,
     si_TenantID = ''t'', si_VerificationID = ''v'', si_AuthorityID = ''a'', si_AcknowledgementID = ''k'',
     si_Region = ''eu'',
     si_Policy = \<lparr>rf_ID = ''p'', rf_Revision = 3, rf_SchemaMajor = 1, rf_SchemaMinor = 0, rf_Digest = zero_digest\<rparr>,
     si_Evaluator = \<lparr>ev_Major = 1, ev_Minor = 0, ev_Digest = zero_digest\<rparr>,
     si_EvaluatedAt = utc_at 2000, si_Facts = [sample_fact ''b.y'', sample_fact ''a.x'']\<rparr>"

definition sample_snapshot :: Snapshot where
  "sample_snapshot = \<lparr>sn_context = Some (sample_context\<lparr>dc_References :=
       canonical_references (pc_assurance sample_codec) (bound_references sample_input)\<rparr>),
     sn_tenantID = ''t'', sn_verificationID = ''v'', sn_authorityID = ''a'', sn_acknowledgementID = ''k'',
     sn_region = ''eu'', sn_policy = si_Policy sample_input, sn_evaluator = si_Evaluator sample_input,
     sn_evaluatedAt = utc_at 2000, sn_facts = [sample_fact ''a.x'', sample_fact ''b.y''], sn_digest = zero_digest\<rparr>"

definition sample_result :: "string \<Rightarrow> string \<Rightarrow> nat \<Rightarrow> RequirementResult" where
  "sample_result n f p = \<lparr>rr_Name = n, rr_State = RequirementSatisfied, rr_ContributingFacts = [f],
     rr_Candidate = DirectiveCompleteVerified, rr_Priority = p, rr_ReasonCodes = []\<rparr>"

lemma sample_keys: "NewFactKey ''a.x'' = Inr ''a.x''" "NewFactKey ''b.y'' = Inr ''b.y''"
  by (simp_all add: NewFactKey_def fact_segment_def token_simps)

lemma sample_source_canonical:
  "canonical_source (example_source ''s1'' [''a'']) = Inr (example_source ''s1'' [''a''])"
  "canonical_source (example_source ''s2'' [''b'']) = Inr (example_source ''s2'' [''b''])"
  by (simp_all add: canonical_source_def example_source_def example_signal example_tokens validUTC_def IsZero_def
      validRequirementState_def canonicalAssuranceRoots_def root_char_def token_simps canonicalTokens_def)

lemma sample_profile:
  "CanonicalAssuranceProfile (pc_assurance sample_codec) example_profile = Inr (example_profile, zero_digest)"
proof -
  have "jc_mapping (pc_assurance sample_codec) = jc_mapping example_codec"
    "jc_profile_digest (pc_assurance sample_codec) = jc_profile_digest example_codec"
    by (simp_all add: sample_codec_def)
  then have "CanonicalAssuranceProfile (pc_assurance sample_codec) example_profile =
      CanonicalAssuranceProfile example_codec example_profile"
    by (simp only: CanonicalAssuranceProfile_def)
  then show ?thesis using example_profile_canonical by simp
qed

lemma sample_fits: "length (dc_References c) \<le> 8192 \<Longrightarrow> context_fits (pc_assurance sample_codec) c"
  by (simp add: context_fits_def sample_codec_def example_codec_def MaximumSnapshotBytes_def)

lemma sample_context_canonical:
  assumes "list_all reference_ok refs" "length refs \<le> 8192"
  shows "canonicalDecisionContext (pc_assurance sample_codec) (Some (sample_context\<lparr>dc_References := refs\<rparr>)) =
    Inr (Some (sample_context\<lparr>dc_References := canonical_references (pc_assurance sample_codec) refs\<rparr>))"
proof -
  have s: "traverse canonical_source (dc_Sources sample_context) = Inr (dc_Sources sample_context)"
    by (simp add: sample_context_def sample_source_canonical)
  have k: "sort_key as_Reference (dc_Sources sample_context) = dc_Sources sample_context"
    by (rule sort_key_id) (simp add: sample_context_def example_source_def)
  have "canonical_profile_of (pc_assurance sample_codec) (sample_context\<lparr>dc_References := refs\<rparr>) = Inr (Some example_profile)"
    by (simp add: canonical_profile_of_def sample_context_def example_context_def sample_profile)
  then show ?thesis
    unfolding canonicalDecisionContext_Inr using s k assms sample_fits [of "sample_context\<lparr>dc_References := refs\<rparr>"]
    by (intro conjI exI [of _ "Some example_profile"] exI [of _ "dc_Sources sample_context"])
       (simp_all add: sample_context_def example_context_def example_source_def MaximumFacts_def MaximumObservations_def)
qed

lemma sample_references: "list_all reference_ok (bound_references sample_input)" "length (bound_references sample_input) = 4"
  by (simp_all add: bound_references_def sample_input_def fact_references_def fact_parents_def sample_fact_def
      reference_ok_def reference_kinds_def zero_digest_valid [unfolded zero_digest_def] zero_digest_def)

lemma sample_context_bound:
  "bindSnapshotContext (pc_assurance sample_codec) sample_input = Inr (sn_context sample_snapshot)"
proof -
  have none: "sample_context\<lparr>dc_References := []\<rparr> = sample_context"
    by (simp add: sample_context_def example_context_def)
  have "canonicalDecisionContext (pc_assurance sample_codec) (Some sample_context) = Inr (Some sample_context)"
    using sample_context_canonical [of "[]"] by (simp add: none)
  moreover have "dc_References sample_context = []" by (simp add: sample_context_def example_context_def)
  ultimately show ?thesis
    using sample_context_canonical [OF sample_references(1)] sample_references(2)
    by (simp add: bindSnapshotContext_def sample_snapshot_def) (simp add: sample_input_def)
qed

lemma sample_facts: "facts_loop (utc_at 2000) 0 [sample_fact ''b.y'', sample_fact ''a.x''] =
    Inr [sample_fact ''b.y'', sample_fact ''a.x'']"
  by (simp add: validateFact_def sample_keys sample_fact_def validRequirementState_def validUTC_def go_time_simps
      expiry_error_def canonicalTokens_def validateSource_def count_set_def MaximumSnapshotReasons_def MaximumReasonsPerItem_def)

lemma sample_sorted: "sort_key fa_Key [sample_fact ''b.y'', sample_fact ''a.x''] = [sample_fact ''a.x'', sample_fact ''b.y'']"
  by (simp add: sample_fact_def)

lemma sample_new: "NewSnapshot sample_codec sample_input = Inr sample_snapshot"
proof -
  have "Reference_validate (si_Policy sample_input) = None" "EvaluatorReference_validate (si_Evaluator sample_input) = None"
    by (simp_all add: sample_input_def Reference_validate_def EvaluatorReference_validate_def SnapshotSchemaMajor_def
        SnapshotSchemaMinor_def)
  then show ?thesis
    using sample_context_bound sample_facts sample_sorted
    by (simp add: NewSnapshot_def sample_snapshot_def)
       (simp add: sample_input_def sample_codec_def validToken_def token_simps validUTC_def IsZero_def MaximumFacts_def,
        simp add: sample_fact_def)
qed

lemma sample_reference_count:
  "length (canonical_references (pc_assurance sample_codec) (bound_references sample_input)) \<le> 4"
  using length_compact_key [of "jc_reference (pc_assurance sample_codec)"
        "sort_key (jc_reference (pc_assurance sample_codec)) (map canonical_reference (bound_references sample_input))"]
      sample_references(2) by simp

lemma sample_stable:
  assumes "sn_context sample_snapshot = Some c"
  shows "context_fits (pc_assurance sample_codec) c \<and> context_fits (pc_assurance sample_codec)
     (c\<lparr>dc_References := dc_References c @ bound_references (snapshotInput sample_codec sample_snapshot)\<rparr>)"
proof -
  have "length (dc_References c) \<le> 4"
    using assms sample_reference_count by (auto simp: sample_snapshot_def)
  moreover have "length (bound_references (snapshotInput sample_codec sample_snapshot)) = 4"
    by (simp add: bound_references_def snapshotInput_def sample_snapshot_def fact_references_def sample_fact_def)
  ultimately show ?thesis by (auto intro!: sample_fits)
qed

lemma sample_inj: "inj (jc_reference (pc_assurance sample_codec))"
  by (simp add: sample_codec_def inj_encode_reference)

lemma sample_valid: "validateSnapshot sample_codec sample_snapshot = None"
proof -
  have "validDigest (sn_digest sample_snapshot)" by (simp add: sample_snapshot_def)
  then show ?thesis
    using NewSnapshot_again [OF sample_new sample_inj sample_stable]
    by (simp add: validateSnapshot_def RestoreSnapshot_def)
qed

lemma sample_groups: "uf_groups [[''a''], [''b'']] = Some 2"
  by (simp add: uf_groups_def root_pairs_def uf_visit_def uf_root.simps)

lemma sample_counted:
  "counted_sources example_profile (hd (ap_Requirements example_profile)) (utc_at 2000) (dc_Sources sample_context) =
     dc_Sources sample_context"
  by (simp add: counted_sources_def sample_context_def example_source_def example_profile_def source_skipped_def
      source_matches_def sourceCapabilityEligible_def example_capability capability_def After_def Sub_def
      int64_max_def int64_min_def)

lemma sample_achieved: "\<exists>a. Achievement sample_codec sample_snapshot = Inr a \<and> aa_Achieved a"
proof -
  let ?c = "sample_context\<lparr>dc_References :=
       canonical_references (pc_assurance sample_codec) (bound_references sample_input)\<rparr>"
  have c: "sn_context sample_snapshot = Some ?c" by (simp add: sample_snapshot_def)
  have "canonicalDecisionContext (pc_assurance sample_codec) (Some ?c) = Inr (Some ?c)"
    using sample_references(2) sample_reference_count
    by (intro bound_context_stable(1) [OF sample_context_bound [unfolded c] sample_inj _ _ refl refl] sample_fits) simp_all
  moreover have "dc_Profile ?c = Some example_profile" "dc_Sources ?c = dc_Sources sample_context"
    by (simp_all add: sample_context_def example_context_def)
  moreover obtain r where r: "ap_Requirements example_profile = [r]" "rq_MinimumSources r = 2"
    by (simp add: example_profile_def)
  moreover have "map as_Roots (dc_Sources sample_context) = [[''a''], [''b'']]"
    by (simp add: sample_context_def example_source_def)
  then have "uf_groups (map as_Roots (counted_sources example_profile r (utc_at 2000) (dc_Sources sample_context))) = Some 2"
    using sample_counted r(1) sample_groups by simp
  moreover have "sn_evaluatedAt sample_snapshot = utc_at 2000" "validUTC (utc_at 2000)"
    by (simp_all add: sample_snapshot_def validUTC_def IsZero_def)
  ultimately show ?thesis
    by (simp add: Achievement_def AchieveAssurance_def c dimension_result_def Let_def)
qed

definition sample_evaluation :: Evaluation where
  "sample_evaluation = \<lparr>el_snapshotDigest = zero_digest,
     el_results = [sample_result ''r1'' ''a.x'' 3, sample_result ''r2'' ''b.y'' 7],
     el_considered = [DirectiveCompleteVerified, DirectiveCompleteVerified], el_selected = DirectiveCompleteVerified,
     el_outcome = OutcomeVerified, el_assurance = ''basic.v1'', el_reasonCodes = [], el_digest = zero_digest\<rparr>"

lemma sample_results:
  "traverse (\<lambda>r. validateResult r (fa_Key ` set (sn_facts sample_snapshot)))
     [sample_result ''r2'' ''b.y'' 7, sample_result ''r1'' ''a.x'' 3] =
   Inr [sample_result ''r2'' ''b.y'' 7, sample_result ''r1'' ''a.x'' 3]"
  by (simp add: sample_snapshot_def sample_fact_def sample_result_def validateResult_def sample_keys validToken_def
      token_simps validRequirementState_def validDirective_def canonicalTokens_def MaximumPriority_def MaximumFacts_def
      MaximumReasonsPerItem_def)

lemma decimal_1: "decimal (Suc 0) = ''1''"
  by code_simp

lemma sample_resolve:
  "Resolve sample_codec sample_snapshot [sample_result ''r2'' ''b.y'' 7, sample_result ''r1'' ''a.x'' 3] [] =
     Inr sample_evaluation"
proof -
  obtain a where a: "Achievement sample_codec sample_snapshot = Inr a" "aa_Achieved a" using sample_achieved by blast
  have p: "requested_profile sample_snapshot = Some example_profile"
    by (simp add: requested_profile_def sample_snapshot_def sample_context_def example_context_def)
  have l: "profile_label example_profile = ''basic.v1''"
    by (simp add: profile_label_def example_profile_def decimal_1 del: decimal.simps)
  have proj: "sn_digest sample_snapshot = zero_digest" "pc_evaluation sample_codec v = Some zero_digest" for v
    by (simp_all add: sample_snapshot_def sample_codec_def)
  have o: "sort_key rr_Name [sample_result ''r2'' ''b.y'' 7, sample_result ''r1'' ''a.x'' 3] =
      [sample_result ''r1'' ''a.x'' 3, sample_result ''r2'' ''b.y'' 7]"
    by (simp add: sample_result_def)
  have "resolve_ordered sample_codec sample_snapshot
      [sample_result ''r1'' ''a.x'' 3, sample_result ''r2'' ''b.y'' 7] [] = Inr sample_evaluation"
    using a proj by (simp add: resolve_ordered_def select_directive_def p l sample_result_def terminalOutcome_def
        Let_def uniqueTokens_def sample_evaluation_def)
  then show ?thesis
    using sample_results by (simp add: Resolve_def sample_valid MaximumRequirements_def o)
      (simp add: sample_result_def)
qed

definition sample_decision :: DecisionInput where
  "sample_decision = \<lparr>di_ID = ''d'', di_Snapshot = sample_snapshot, di_Evaluation = sample_evaluation,
     di_Actor = ActorMachine, di_Supersedes = [], di_DecidedAt = utc_at 3000\<rparr>"

section \<open>Properties\<close>

text \<open>
  C1. A verified outcome is always earned: an evaluation that concludes \<^verbatim>\<open>verified\<close> has every
  requirement satisfied, carries an assurance label, authorises completion, and, when an
  assurance profile was requested, the profile was achieved at the evaluation time.
\<close>

theorem verified_is_earned:
  assumes "Resolve pc s results a = Inr e" and "el_outcome e = OutcomeVerified"
    and "\<And>p. jc_profile_digest (pc_assurance pc) p \<noteq> []"
  shows "(\<forall>r \<in> set results. rr_State r = RequirementSatisfied) \<and> el_assurance e \<noteq> [] \<and>
    AuthorisesCompletion e \<and>
    (requested_profile s \<noteq> None \<longrightarrow> (\<exists>ach. Achievement pc s = Inr ach \<and> aa_Achieved ach))"
proof -
  note r = Resolve_Inr [OF assms(1)]
  obtain sel ach gated where o: "Achievement pc s = Inr ach"
    "gated \<longleftrightarrow> sel = DirectiveCompleteVerified \<and> aa_RequestedDigest ach \<noteq> [] \<and> \<not> aa_Achieved ach"
    "el_selected e = (if gated then DirectiveRouteManualReview else sel)"
    "terminalOutcome (el_selected e) (ordered_results s results) = Inr (el_outcome e)"
    "el_selected e = DirectiveCompleteVerified \<longrightarrow> el_assurance e \<noteq> []"
    using r(4) by (rule resolve_ordered_Inr) blast
  have v: "el_selected e = DirectiveCompleteVerified" "\<forall>r \<in> set (ordered_results s results). rr_State r = RequirementSatisfied"
    using terminalOutcome_verified o(4) assms(2) by auto
  have "rr_State r = RequirementSatisfied" if "r \<in> set results" for r
    using v(2) that validated_keeps [OF r(2) that] by auto
  moreover have "AuthorisesCompletion e"
    using v(1) assms(2) by (simp add: AuthorisesCompletion_def)
  moreover have "aa_Achieved ach" if requested: "requested_profile s \<noteq> None"
  proof -
    obtain c p where cp: "sn_context s = Some c" "dc_Profile c = Some p"
      using requested by (auto simp: requested_profile_def split: option.splits)
    obtain cx where cx: "canonicalDecisionContext (pc_assurance pc) (Some c) = Inr cx" "validUTC (sn_evaluatedAt s)"
      using o(1) cp(1) by (auto simp: Achievement_def AchieveAssurance_def split: option.splits sum.splits if_splits)
    then obtain c' p' where c': "cx = Some c'" "dc_Profile c' = Some p'"
      using cp(2) by (cases cx) (auto simp: canonicalDecisionContext_def canonical_profile_of_def Let_def
          split: if_splits sum.splits option.splits)
    have "dc_ProfileDigest c' \<noteq> []"
      using canonical_profile_name(2) [OF cx(1) [unfolded c'(1)] c'(2)] assms(3) by simp
    moreover have "aa_RequestedDigest ach = dc_ProfileDigest c'"
      using o(1) cp(1) cx c' by (auto simp: Achievement_def AchieveAssurance_def split: option.splits)
    ultimately show ?thesis using v(1) o(2,3) by (auto split: if_splits)
  qed
  ultimately show ?thesis using v(1) o(1,5) by blast
qed

theorem verified_is_earned_witness:
  "el_outcome sample_evaluation = OutcomeVerified \<and> AuthorisesCompletion sample_evaluation \<and>
   (\<exists>ach. Achievement sample_codec sample_snapshot = Inr ach \<and> aa_Achieved ach)"
proof -
  have v: "el_outcome sample_evaluation = OutcomeVerified" by (simp add: sample_evaluation_def)
  have d: "jc_profile_digest (pc_assurance sample_codec) p \<noteq> []" for p
    by (simp add: sample_codec_def example_codec_def zero_digest_def)
  have "requested_profile sample_snapshot \<noteq> None"
    by (simp add: requested_profile_def sample_snapshot_def sample_context_def example_context_def)
  then show ?thesis using verified_is_earned [OF sample_resolve v d] v by blast
qed

text \<open>
  C3. The directive is the candidate of best priority: some result has the least priority, all
  results of that priority propose the same candidate, and this is the directive selected,
  except that a proposed verified completion whose requested assurance is not achieved goes to
  manual review.
\<close>

theorem directive_has_best_priority:
  assumes "Resolve pc s results a = Inr e"
  shows "\<exists>r \<in> set results. \<exists>ach. Achievement pc s = Inr ach \<and>
    (\<forall>r' \<in> set results. rr_Priority r \<le> rr_Priority r' \<and>
       (rr_Priority r' = rr_Priority r \<longrightarrow> rr_Candidate r' = rr_Candidate r)) \<and>
    el_selected e = (if rr_Candidate r = DirectiveCompleteVerified \<and> aa_RequestedDigest ach \<noteq> [] \<and> \<not> aa_Achieved ach
                     then DirectiveRouteManualReview else rr_Candidate r)"
proof -
  note r = Resolve_Inr [OF assms]
  obtain sel ach gated where o: "select_directive (ordered_results s results) = Inr sel" "Achievement pc s = Inr ach"
    "gated \<longleftrightarrow> sel = DirectiveCompleteVerified \<and> aa_RequestedDigest ach \<noteq> [] \<and> \<not> aa_Achieved ach"
    "el_selected e = (if gated then DirectiveRouteManualReview else sel)"
    using r(4) by (rule resolve_ordered_Inr) blast
  obtain w where w: "w \<in> set (ordered_results s results)" "winner (set (ordered_results s results)) w sel"
    using select_directive_winner [OF o(1)] by blast
  then obtain x where x: "x \<in> set results" "w = validated s x" by auto
  have keep: "rr_Candidate (validated s y) = rr_Candidate y \<and> rr_Priority (validated s y) = rr_Priority y"
    if "y \<in> set results" for y using validated_keeps [OF r(2) that] by blast
  have "\<forall>y \<in> set results. rr_Priority x \<le> rr_Priority y \<and> (rr_Priority y = rr_Priority x \<longrightarrow> rr_Candidate y = sel)"
    using w(2) x keep by (auto simp: winner_def)
  moreover have "rr_Candidate x = sel" using w(2) x keep by (auto simp: winner_def)
  ultimately show ?thesis using x(1) o(2-4) by (intro bexI [of _ x] exI [of _ ach]) auto
qed

theorem directive_has_best_priority_witness:
  "\<exists>ach. Achievement sample_codec sample_snapshot = Inr ach \<and>
     el_selected sample_evaluation = (if aa_RequestedDigest ach \<noteq> [] \<and> \<not> aa_Achieved ach
                     then DirectiveRouteManualReview else DirectiveCompleteVerified)"
  using directive_has_best_priority [OF sample_resolve] by (auto simp: sample_result_def)

text \<open>
  C21. Evaluation does not depend on the order in which the results arrive: any reordering gives
  the same evaluation, or the same error.
\<close>

theorem resolve_order_independent:
  assumes "mset results = mset results'"
  shows "Resolve pc s results a = Resolve pc s results' a"
  using assms by (rule resolve_results_perm)

theorem resolve_order_independent_witness:
  "Resolve sample_codec sample_snapshot [sample_result ''r1'' ''a.x'' 3, sample_result ''r2'' ''b.y'' 7] [] =
     Inr sample_evaluation"
proof -
  have "mset [sample_result ''r1'' ''a.x'' 3, sample_result ''r2'' ''b.y'' 7] =
      mset [sample_result ''r2'' ''b.y'' 7, sample_result ''r1'' ''a.x'' 3]" by simp
  from resolve_order_independent [OF this] sample_resolve show ?thesis by simp
qed

text \<open>
  Decisions reproduce: an evaluation resolved on a snapshot, and recorded in a decision, is
  recomputed exactly from the stored snapshot and results (profile revisions are 32-bit).
\<close>

theorem decision_reproduces:
  assumes "NewSnapshot pc input = Inr s" and "Resolve pc s results a = Inr e"
    and "\<And>p. requested_profile s = Some p \<Longrightarrow> ap_Revision p < 2 ^ 32"
    and "NewDecision pc dinput = Inr d" and "di_Snapshot dinput = s" and "di_Evaluation dinput = e"
  shows "Reproduce pc d = Inr e"
proof -
  have again: "Resolve pc s (el_results e) (el_assurance e) = Inr e"
    using assms(1-3) by (rule Resolve_again)
  have "de_id d = di_ID dinput" "de_snapshot d = s" "de_evaluation d = e" "de_actor d = di_Actor dinput"
    "de_decidedAt d = di_DecidedAt dinput" "di_ID dinput \<noteq> []" "validActor (di_Actor dinput)"
    "validUTC (di_DecidedAt dinput)"
    using assms(4-6) by (auto simp: NewDecision_def Let_def split: if_splits option.splits sum.splits)
  with again show ?thesis by (simp add: Reproduce_def)
qed

theorem decision_reproduces_witness:
  "\<exists>d. NewDecision sample_codec sample_decision = Inr d \<and> Reproduce sample_codec d = Inr sample_evaluation"
proof -
  have r: "ap_Revision p < 2 ^ 32" if "requested_profile sample_snapshot = Some p" for p
    using that by (auto simp: requested_profile_def sample_snapshot_def sample_context_def example_context_def
        example_profile_def)
  have again: "Resolve sample_codec sample_snapshot (el_results sample_evaluation) (el_assurance sample_evaluation) =
      Inr sample_evaluation"
    by (rule Resolve_again [OF sample_new sample_resolve r])
  have "AuthorisesCompletion sample_evaluation" "el_snapshotDigest sample_evaluation = sn_digest sample_snapshot"
    "sn_evaluatedAt sample_snapshot = utc_at 2000"
    by (simp_all add: AuthorisesCompletion_def sample_evaluation_def sample_snapshot_def)
  then have "\<exists>d. NewDecision sample_codec sample_decision = Inr d"
    using again sample_valid
    by (simp add: NewDecision_def sample_decision_def validActor_def validUTC_def go_time_simps)
       (simp add: sample_codec_def)
  then obtain d where d: "NewDecision sample_codec sample_decision = Inr d" by blast
  have "di_Snapshot sample_decision = sample_snapshot" "di_Evaluation sample_decision = sample_evaluation"
    by (simp_all add: sample_decision_def)
  from d decision_reproduces [OF sample_new sample_resolve r d this] show ?thesis by blast
qed

text \<open>
  Snapshots restore: a snapshot rebuilt from its own content, with its digest, is the same
  snapshot, provided references are ordered by an injective encoding and the context, with its
  bound references listed once more, is still within the size limits.
\<close>

theorem snapshot_restores:
  assumes "NewSnapshot pc input = Inr s" and "inj (jc_reference (pc_assurance pc))" and "validDigest (sn_digest s)"
    and "\<And>c. sn_context s = Some c \<Longrightarrow> context_fits (pc_assurance pc) c \<and>
      context_fits (pc_assurance pc) (c\<lparr>dc_References := dc_References c @ bound_references (snapshotInput pc s)\<rparr>)"
  shows "RestoreSnapshot pc (snapshotInput pc s) (sn_digest s) = Inr s"
  using NewSnapshot_again [OF assms(1,2,4)] assms(3) by (simp add: RestoreSnapshot_def)

theorem snapshot_restores_witness:
  "RestoreSnapshot sample_codec (snapshotInput sample_codec sample_snapshot) zero_digest = Inr sample_snapshot"
proof -
  have "sn_digest sample_snapshot = zero_digest" by (simp add: sample_snapshot_def)
  with snapshot_restores [OF sample_new sample_inj _ sample_stable] show ?thesis by simp
qed

text \<open>
  Whether two disagreeing results of equal priority are an error depends on the names of the
  requirements, even when a third result of better priority decides: in name order they conflict
  if they come before it, and are ignored if it comes first.
\<close>

theorem losing_conflict_depends_on_order:
  assumes "rr_Priority x = rr_Priority y" and "rr_Candidate x \<noteq> rr_Candidate y" and "rr_Priority z < rr_Priority x"
  shows "select_directive [x, y, z] = Inl ErrConflict \<and> select_directive [z, x, y] = Inr (rr_Candidate z)"
  using assms by (simp add: select_directive_def)

theorem losing_conflict_depends_on_order_witness:
  "select_directive [sample_result ''a'' ''a.x'' 2, (sample_result ''b'' ''a.x'' 2)\<lparr>rr_Candidate := DirectiveRunCheck\<rparr>,
     sample_result ''c'' ''a.x'' 1] = Inl ErrConflict"
  using losing_conflict_depends_on_order [of "sample_result ''a'' ''a.x'' 2"
      "(sample_result ''b'' ''a.x'' 2)\<lparr>rr_Candidate := DirectiveRunCheck\<rparr>" "sample_result ''c'' ''a.x'' 1"]
  by (simp add: sample_result_def)

end
