(* ===== verification/Audit_Chain.thy ===== *)
theory Audit_Chain
  imports Go_Prelude "HOL-Library.Word"
begin

text \<open>
  \<^verbatim>\<open>internal/audit/chain.go\<close> and the export boundary of \<^verbatim>\<open>export.go\<close>: tenant hash chains of
  audit records, signed checkpoints over chain heads, and the offline verification of an
  export. Sequence numbers are 64-bit words, so that the successor in \<^verbatim>\<open>Append\<close> wraps as
  \<^verbatim>\<open>uint64\<close> does.

  The JSON encodings (\<open>None\<close> is the encoding error that \<^verbatim>\<open>recordHash\<close> and
  \<^verbatim>\<open>checkpointMessage\<close> drop), SHA-256 and Ed25519 are arguments, collected in
  \<open>audit_codec\<close>. Byte strings are strings.
\<close>

section \<open>Records and checkpoints\<close>

datatype audit_error = ErrInvalid | ErrChain | ErrAuthorize | ErrExport

record Record =
  r_Sequence :: "64 word"
  r_EventID :: string
  r_EventType :: string
  r_AggregateID :: string
  r_ActorID :: string
  r_OccurredAt :: go_time
  r_EventDigest :: string
  r_PreviousHash :: string
  r_Hash :: string

record Checkpoint =
  c_TenantID :: string
  c_ThroughSequence :: "64 word"
  c_ChainHash :: string
  c_KeyID :: string
  c_CreatedAt :: go_time
  c_Signature :: string

record Export =
  x_SchemaVersion :: nat
  x_TenantID :: string
  x_Records :: "Record list"
  x_Checkpoints :: "Checkpoint list"

record Report =
  rp_TenantID :: string
  rp_Records :: nat
  rp_Checkpoints :: nat
  rp_LastSequence :: "64 word"
  rp_ChainHash :: string

text \<open>The encoders see the value without its hash or signature.\<close>

record audit_codec =
  ac_record :: "Record \<Rightarrow> string option"
  ac_sha256 :: "string \<Rightarrow> string"
  ac_checkpoint :: "Checkpoint \<Rightarrow> string option"
  ac_sign :: "string \<Rightarrow> string \<Rightarrow> string"
  ac_verify :: "string \<Rightarrow> string \<Rightarrow> string \<Rightarrow> bool"

definition SchemaVersion :: nat where "SchemaVersion = 1"
definition initialChainHash :: string where "initialChainHash = replicate 64 (CHR ''0'')"
definition PrivateKeySize :: nat where "PrivateKeySize = 64"
definition PublicKeySize :: nat where "PublicKeySize = 32"
definition SignatureSize :: nat where "SignatureSize = 64"

definition tokenPattern :: "string \<Rightarrow> bool" where
  "tokenPattern s \<longleftrightarrow> pattern is_lower token_char 127 s"

definition validateRecordFields :: "Record \<Rightarrow> audit_error option" where
  "validateRecordFields r =
     (if r_Sequence r = 0 \<or> \<not> tokenPattern (r_EventType r) \<or> r_EventID r = [] \<or> r_AggregateID r = [] \<or>
         r_ActorID r = [] \<or> IsZero (r_OccurredAt r) \<or> \<not> t_utc (r_OccurredAt r) \<or>
         \<not> hex64 (r_EventDigest r) \<or> \<not> hex64 (r_PreviousHash r)
      then Some ErrInvalid else None)"

definition dropped_error :: "string option \<Rightarrow> string" where
  "dropped_error b = (case b of None \<Rightarrow> [] | Some bs \<Rightarrow> bs)"

definition recordHash :: "audit_codec \<Rightarrow> Record \<Rightarrow> string" where
  "recordHash ac r = hex_encode (ac_sha256 ac (dropped_error (ac_record ac (r\<lparr>r_Hash := []\<rparr>))))"

definition checkpointMessage :: "audit_codec \<Rightarrow> Checkpoint \<Rightarrow> string" where
  "checkpointMessage ac c = dropped_error (ac_checkpoint ac (c\<lparr>c_Signature := []\<rparr>))"

definition validCheckpoint :: "Checkpoint \<Rightarrow> bool \<Rightarrow> bool" where
  "validCheckpoint c signature \<longleftrightarrow> c_TenantID c \<noteq> [] \<and> c_ThroughSequence c > 0 \<and> hex64 (c_ChainHash c) \<and>
     tokenPattern (c_KeyID c) \<and> \<not> IsZero (c_CreatedAt c) \<and> t_utc (c_CreatedAt c) \<and>
     (\<not> signature \<or> length (c_Signature c) = SignatureSize * 2)"

definition Append ::
  "audit_codec \<Rightarrow> Record option \<Rightarrow> string \<Rightarrow> string \<Rightarrow> string \<Rightarrow> string \<Rightarrow> string \<Rightarrow> go_time \<Rightarrow> audit_error + Record" where
  "Append ac previous eventID eventType aggregateID actorID eventDigest occurredAt =
     (let (sequence, previousHash) =
            (case previous of None \<Rightarrow> (1, initialChainHash) | Some p \<Rightarrow> (r_Sequence p + 1, r_Hash p));
          r = \<lparr>r_Sequence = sequence, r_EventID = eventID, r_EventType = eventType, r_AggregateID = aggregateID,
               r_ActorID = actorID, r_OccurredAt = occurredAt, r_EventDigest = eventDigest,
               r_PreviousHash = previousHash, r_Hash = []\<rparr>
      in case validateRecordFields r of Some e \<Rightarrow> Inl e
         | None \<Rightarrow> Inr (r\<lparr>r_Hash := recordHash ac r\<rparr>))"

definition SignCheckpoint ::
  "audit_codec \<Rightarrow> string \<Rightarrow> string \<Rightarrow> Record \<Rightarrow> go_time \<Rightarrow> string \<Rightarrow> audit_error + Checkpoint" where
  "SignCheckpoint ac tenantID keyID head createdAt privateKey =
     (let c = \<lparr>c_TenantID = tenantID, c_ThroughSequence = r_Sequence head, c_ChainHash = r_Hash head,
               c_KeyID = keyID, c_CreatedAt = createdAt, c_Signature = []\<rparr> in
      if length privateKey \<noteq> PrivateKeySize \<or> \<not> validCheckpoint c False then Inl ErrInvalid
      else Inr (c\<lparr>c_Signature := hex_encode (ac_sign ac privateKey (checkpointMessage ac c))\<rparr>))"

section \<open>Verification of an export\<close>

fun verify_records :: "audit_codec \<Rightarrow> nat \<Rightarrow> string \<Rightarrow> Record list \<Rightarrow> bool" where
  "verify_records ac index previousHash [] \<longleftrightarrow> True"
| "verify_records ac index previousHash (r # rs) \<longleftrightarrow>
     r_Sequence r = word_of_nat (index + 1) \<and> r_PreviousHash r = previousHash \<and>
     validateRecordFields r = None \<and> r_Hash r = recordHash ac r \<and> verify_records ac (index + 1) (r_Hash r) rs"

definition verify_checkpoint :: "audit_codec \<Rightarrow> Export \<Rightarrow> (string \<rightharpoonup> string) \<Rightarrow> Checkpoint \<Rightarrow> bool" where
  "verify_checkpoint ac e keys c \<longleftrightarrow>
     c_TenantID c = x_TenantID e \<and> validCheckpoint c True \<and>
     c_ThroughSequence c \<le> word_of_nat (length (x_Records e)) \<and>
     r_Hash (x_Records e ! unat (c_ThroughSequence c - 1)) = c_ChainHash c \<and>
     (let publicKey = (case keys (c_KeyID c) of None \<Rightarrow> [] | Some k \<Rightarrow> k) in
      case hex_decode (c_Signature c) of None \<Rightarrow> False
      | Some signature \<Rightarrow> length publicKey = PublicKeySize \<and> ac_verify ac publicKey (checkpointMessage ac c) signature)"

fun checkpoints_ordered :: "Checkpoint list \<Rightarrow> bool" where
  "checkpoints_ordered (a # b # cs) \<longleftrightarrow> c_ThroughSequence a < c_ThroughSequence b \<and>
     \<not> Before (c_CreatedAt b) (c_CreatedAt a) \<and> checkpoints_ordered (b # cs)"
| "checkpoints_ordered _ \<longleftrightarrow> True"

definition Verify :: "audit_codec \<Rightarrow> Export \<Rightarrow> (string \<rightharpoonup> string) \<Rightarrow> audit_error + Report" where
  "Verify ac e keys =
     (if x_SchemaVersion e \<noteq> SchemaVersion \<or> x_TenantID e = [] \<or> x_Records e = [] \<or> x_Checkpoints e = []
      then Inl ErrInvalid
      else if \<not> verify_records ac 0 initialChainHash (x_Records e) then Inl ErrChain
      else if \<not> list_all (verify_checkpoint ac e keys) (x_Checkpoints e) then Inl ErrChain
      else if \<not> checkpoints_ordered (x_Checkpoints e) then Inl ErrChain
      else
        let head = last (x_Records e) in
        Inr \<lparr>rp_TenantID = x_TenantID e, rp_Records = length (x_Records e),
             rp_Checkpoints = length (x_Checkpoints e), rp_LastSequence = r_Sequence head, rp_ChainHash = r_Hash head\<rparr>)"

text \<open>
  \<^verbatim>\<open>Exporter.Export\<close>: the authorizer and the repository are interfaces, here their answers
  (\<open>authorized\<close> as a function of the actor and the permission).
\<close>

definition ExportPermission :: string where "ExportPermission = ''audit:export''"

definition Exporter_Export ::
  "audit_codec \<Rightarrow> (string \<Rightarrow> string \<Rightarrow> string \<Rightarrow> bool) \<Rightarrow> (string \<Rightarrow> (Export \<times> (string \<rightharpoonup> string)) option) \<Rightarrow>
   string \<Rightarrow> string \<Rightarrow> audit_error + Export \<times> (string \<rightharpoonup> string)" where
  "Exporter_Export ac authorized repository scope actorID =
     (if actorID = [] \<or> scope = [] then Inl ErrInvalid
      else if \<not> authorized scope actorID ExportPermission then Inl ErrAuthorize
      else case repository scope of None \<Rightarrow> Inl ErrExport
      | Some (exported, keys) \<Rightarrow>
          (case Verify ac exported keys of Inl _ \<Rightarrow> Inl ErrChain | Inr _ \<Rightarrow> Inr (exported, keys)))"

section \<open>Chains that are appended\<close>

lemma initial_hex64: "hex64 initialChainHash"
  unfolding initialChainHash_def by (rule hex64_replicate)


text \<open>The chains that a sequence of calls of \<^verbatim>\<open>Append\<close> builds, each call given the last record.\<close>

inductive appended :: "audit_codec \<Rightarrow> Record list \<Rightarrow> bool" for ac where
  appended_Nil: "appended ac []"
| appended_step: "appended ac rs \<Longrightarrow>
    Append ac (if rs = [] then None else Some (last rs)) eid ety agg act dig occ = Inr r \<Longrightarrow> appended ac (rs @ [r])"

definition chain_head :: "Record list \<Rightarrow> string" where
  "chain_head rs = (if rs = [] then initialChainHash else r_Hash (last rs))"

lemma verify_records_snoc:
  "verify_records ac i h (rs @ [r]) \<longleftrightarrow> verify_records ac i h rs \<and>
     r_Sequence r = word_of_nat (i + length rs + 1) \<and>
     r_PreviousHash r = (if rs = [] then h else r_Hash (last rs)) \<and>
     validateRecordFields r = None \<and> r_Hash r = recordHash ac r"
  by (induction rs arbitrary: i h) (auto simp: add.assoc)

lemma verify_records_append: "verify_records ac i h (xs @ ys) \<Longrightarrow> verify_records ac i h xs"
  by (induction xs arbitrary: i h) auto

lemma verify_records_last_sequence:
  "verify_records ac 0 h rs \<Longrightarrow> rs \<noteq> [] \<Longrightarrow> r_Sequence (last rs) = word_of_nat (length rs)"
  by (induction rs rule: rev_induct) (auto simp: verify_records_snoc)

lemma recordHash_update [simp]: "recordHash ac (r\<lparr>r_Hash := h\<rparr>) = recordHash ac r"
  by (simp add: recordHash_def)

lemma validateRecordFields_update [simp]: "validateRecordFields (r\<lparr>r_Hash := h\<rparr>) = validateRecordFields r"
  by (simp add: validateRecordFields_def)

lemma Append_Inr:
  "Append ac previous eid ety agg act dig occ = Inr r \<longleftrightarrow>
     r_Sequence r = (case previous of None \<Rightarrow> 1 | Some p \<Rightarrow> r_Sequence p + 1) \<and>
     r_PreviousHash r = (case previous of None \<Rightarrow> initialChainHash | Some p \<Rightarrow> r_Hash p) \<and>
     r_EventID r = eid \<and> r_EventType r = ety \<and> r_AggregateID r = agg \<and> r_ActorID r = act \<and>
     r_EventDigest r = dig \<and> r_OccurredAt r = occ \<and> validateRecordFields r = None \<and> r_Hash r = recordHash ac r"
  (is "?l \<longleftrightarrow> ?r")
proof
  assume ?l
  then show ?r
    by (cases previous)
       (auto simp: Append_def validateRecordFields_def recordHash_def split: if_splits)
next
  assume r: ?r
  have body: "\<lparr>r_Sequence = s, r_EventID = eid, r_EventType = ety, r_AggregateID = agg, r_ActorID = act,
         r_OccurredAt = occ, r_EventDigest = dig, r_PreviousHash = h, r_Hash = []\<rparr> = r\<lparr>r_Hash := []\<rparr>"
    if "s = r_Sequence r" "h = r_PreviousHash r" for s h
    using r that by (cases r) simp
  have "r\<lparr>r_Hash := r_Hash r\<rparr> = r" by simp
  then have "r\<lparr>r_Hash := recordHash ac r\<rparr> = r" using r by simp
  then show ?l
    using r by (cases previous) (simp_all add: Append_def Let_def body)
qed

lemma appended_iff_verify: "appended ac rs \<longleftrightarrow> verify_records ac 0 initialChainHash rs"
proof
  assume "appended ac rs"
  then show "verify_records ac 0 initialChainHash rs"
  proof induction
    case (appended_step rs eid ety agg act dig occ r)
    then show ?case
      using verify_records_last_sequence [OF appended_step.IH]
      by (auto simp: verify_records_snoc Append_Inr add.commute split: if_splits)
  qed simp
next
  assume "verify_records ac 0 initialChainHash rs"
  then show "appended ac rs"
  proof (induction rs rule: rev_induct)
    case (snoc r rs)
    then have v: "verify_records ac 0 initialChainHash rs" "appended ac rs"
      by (simp_all add: verify_records_snoc)
    have "Append ac (if rs = [] then None else Some (last rs)) (r_EventID r) (r_EventType r) (r_AggregateID r)
        (r_ActorID r) (r_EventDigest r) (r_OccurredAt r) = Inr r"
      using snoc.prems verify_records_last_sequence [OF v(1)]
      by (auto simp: verify_records_snoc Append_Inr add.commute)
    with v(2) show ?case by (rule appended_step)
  qed (rule appended_Nil)
qed

section \<open>Tamper evidence\<close>

text \<open>
  Two verified chains of the same length with the same head hash are equal, if no two of their
  records with different content have the same hash.
\<close>

lemma chains_equal:
  assumes "verify_records ac 0 h xs" "verify_records ac 0 h ys" "length xs = length ys"
    and "xs \<noteq> [] \<Longrightarrow> r_Hash (last xs) = r_Hash (last ys)"
    and "\<And>r r'. r \<in> set xs \<Longrightarrow> r' \<in> set ys \<Longrightarrow> recordHash ac r = recordHash ac r' \<Longrightarrow>
          r\<lparr>r_Hash := []\<rparr> = r'\<lparr>r_Hash := []\<rparr>"
  shows "xs = ys"
  using assms
proof (induction xs arbitrary: ys rule: rev_induct)
  case (snoc x xs)
  then obtain y ys' where y: "ys = ys' @ [y]"
    by (metis length_0_conv rev_exhaust snoc_eq_iff_butlast)
  have v: "verify_records ac 0 h xs" "verify_records ac 0 h ys'" "length xs = length ys'"
    "r_Hash x = recordHash ac x" "r_Hash y = recordHash ac y" "r_Hash x = r_Hash y"
    using snoc.prems y by (simp_all add: verify_records_snoc)
  have "recordHash ac x = recordHash ac y" using v(4-6) by simp
  then have c: "x\<lparr>r_Hash := []\<rparr> = y\<lparr>r_Hash := []\<rparr>"
    using snoc.prems(5) [of x y] y by simp
  then have "x = y" using v(6) by (cases x; cases y) simp
  moreover have "xs = ys'"
  proof (rule snoc.IH [OF v(1-3)])
    show "r_Hash (last xs) = r_Hash (last ys')" if "xs \<noteq> []"
    proof -
      have "ys' \<noteq> []" using that v(3) by auto
      then have "r_PreviousHash x = r_Hash (last xs)" "r_PreviousHash y = r_Hash (last ys')"
        using snoc.prems(1,2) y that by (simp_all add: verify_records_snoc)
      with \<open>x = y\<close> show ?thesis by simp
    qed
  qed (use snoc.prems(5) y in auto)
  ultimately show ?case by (simp add: y)
qed simp

lemma Verify_Inr:
  "Verify ac e keys = Inr rp \<longleftrightarrow>
     x_SchemaVersion e = SchemaVersion \<and> x_TenantID e \<noteq> [] \<and> x_Records e \<noteq> [] \<and> x_Checkpoints e \<noteq> [] \<and>
     verify_records ac 0 initialChainHash (x_Records e) \<and> list_all (verify_checkpoint ac e keys) (x_Checkpoints e) \<and>
     checkpoints_ordered (x_Checkpoints e) \<and>
     rp = \<lparr>rp_TenantID = x_TenantID e, rp_Records = length (x_Records e), rp_Checkpoints = length (x_Checkpoints e),
        rp_LastSequence = r_Sequence (last (x_Records e)), rp_ChainHash = r_Hash (last (x_Records e))\<rparr>"
  by (auto simp: Verify_def Let_def)

text \<open>The head that a checkpoint covers is the last record of the prefix of that length.\<close>

lemma checkpoint_head:
  assumes "verify_checkpoint ac e keys c" "length (x_Records e) < 2 ^ 64"
  defines "n \<equiv> unat (c_ThroughSequence c)"
  shows "0 < n" "n \<le> length (x_Records e)" "r_Hash (last (take n (x_Records e))) = c_ChainHash c"
proof -
  have c: "c_ThroughSequence c > 0" "c_ThroughSequence c \<le> word_of_nat (length (x_Records e))"
    "r_Hash (x_Records e ! unat (c_ThroughSequence c - 1)) = c_ChainHash c"
    using assms(1) by (simp_all add: verify_checkpoint_def validCheckpoint_def)
  show n: "0 < n" using c(1) by (simp add: n_def word_less_nat_alt)
  have "unat (word_of_nat (length (x_Records e)) :: 64 word) = length (x_Records e)"
    using assms(2) by (simp add: unsigned_of_nat take_bit_nat_eq_self)
  then show le: "n \<le> length (x_Records e)"
    using c(2) by (simp add: n_def word_le_nat_alt)
  have "unat (c_ThroughSequence c - 1) = n - 1"
    using c(1) unfolding n_def by (simp add: unat_minus_one word_greater_zero_iff)
  moreover have "last (take n (x_Records e)) = x_Records e ! (n - 1)"
    using n le by (subst last_conv_nth) (auto simp: min_def)
  ultimately show "r_Hash (last (take n (x_Records e))) = c_ChainHash c" using c(3) by simp
qed


lemma SignCheckpoint_Inr:
  "SignCheckpoint ac tenant kid head t sk = Inr c \<longleftrightarrow>
     length sk = PrivateKeySize \<and> validCheckpoint c False \<and> c_TenantID c = tenant \<and>
     c_ThroughSequence c = r_Sequence head \<and> c_ChainHash c = r_Hash head \<and> c_KeyID c = kid \<and> c_CreatedAt c = t \<and>
     c_Signature c = hex_encode (ac_sign ac sk (checkpointMessage ac c))"
  (is "?l \<longleftrightarrow> ?r")
proof
  assume ?l
  then show ?r
    by (auto simp: SignCheckpoint_def validCheckpoint_def checkpointMessage_def Let_def split: if_splits)
next
  assume r: ?r
  have body: "\<lparr>c_TenantID = tenant, c_ThroughSequence = r_Sequence head, c_ChainHash = r_Hash head, c_KeyID = kid,
      c_CreatedAt = t, c_Signature = []\<rparr> = c\<lparr>c_Signature := []\<rparr>"
    using r by (cases c) simp
  have "c\<lparr>c_Signature := c_Signature c\<rparr> = c" by simp
  then have "c\<lparr>c_Signature := hex_encode (ac_sign ac sk (checkpointMessage ac c))\<rparr> = c" using r by simp
  then show ?l
    using r by (auto simp: SignCheckpoint_def Let_def body validCheckpoint_def checkpointMessage_def)
qed

lemma unat_word_nat: "n < 2 ^ 64 \<Longrightarrow> unat (word_of_nat n :: 64 word) = n"
  by (simp add: unsigned_of_nat take_bit_nat_eq_self)

lemma sequence_at:
  assumes "verify_records ac i h rs" "k < length rs"
  shows "r_Sequence (rs ! k) = word_of_nat (i + k + 1)"
  using assms
proof (induction rs arbitrary: i h k)
  case (Cons r rs)
  then show ?case
    by (cases k) (auto dest: Cons.IH)
qed simp

text \<open>A checkpoint signed on a record of the chain is accepted with the matching public key.\<close>

lemma signed_checkpoint_verifies:
  assumes rs: "verify_records ac 0 initialChainHash (x_Records e)" "length (x_Records e) < 2 ^ 64" "k < length (x_Records e)"
    and c: "SignCheckpoint ac (x_TenantID e) kid (x_Records e ! k) t sk = Inr c"
    and key: "keys kid = Some pk" "length pk = PublicKeySize"
    and sig: "\<And>m. length (ac_sign ac sk m) = SignatureSize \<and> ac_verify ac pk m (ac_sign ac sk m)"
  shows "verify_checkpoint ac e keys c"
proof -
  have k: "c_ThroughSequence c = word_of_nat (k + 1)" "c_ChainHash c = r_Hash (x_Records e ! k)"
    using c sequence_at [OF rs(1,3)] by (simp_all add: SignCheckpoint_Inr)
  have u: "unat (word_of_nat (k + 1) :: 64 word) = k + 1" "unat (word_of_nat (length (x_Records e)) :: 64 word) = length (x_Records e)"
    using rs(2,3) by (intro unat_word_nat; linarith)+
  have "c_ThroughSequence c \<le> word_of_nat (length (x_Records e))"
    using u rs(3) by (simp only: k(1) word_le_nat_alt)
  moreover have "unat (c_ThroughSequence c - 1) = k"
  proof -
    have "c_ThroughSequence c - 1 = word_of_nat k" by (simp add: k(1))
    then show ?thesis using rs(2,3) unat_word_nat [of k] by simp
  qed
  moreover have "validCheckpoint c True"
    using c sig by (auto simp: SignCheckpoint_Inr validCheckpoint_def hex_encode_length)
  ultimately show ?thesis
    using c key sig k(2)
    by (auto simp: verify_checkpoint_def SignCheckpoint_Inr hex_roundtrip)
qed

section \<open>A small chain\<close>

definition sample_digest :: "string \<Rightarrow> string" where
  "sample_digest b = take 32 (b @ replicate 32 (CHR ''0''))"

definition sample_codec :: audit_codec where
  "sample_codec = \<lparr>ac_record = (\<lambda>r. if t_ns (r_OccurredAt r) > 300000000000000000000 then None else Some (r_EventID r)),
     ac_sha256 = sample_digest, ac_checkpoint = (\<lambda>c. Some (c_KeyID c)),
     ac_sign = (\<lambda>sk m. replicate 64 (CHR ''s'')), ac_verify = (\<lambda>pk m s. s = replicate 64 (CHR ''s''))\<rparr>"

definition sample_first :: Record where
  "sample_first = \<lparr>r_Sequence = 1, r_EventID = ''e1'', r_EventType = ''check.completed'', r_AggregateID = ''agg'',
     r_ActorID = ''actor'', r_OccurredAt = utc_at 1000, r_EventDigest = initialChainHash,
     r_PreviousHash = initialChainHash, r_Hash = hex_encode (sample_digest ''e1'')\<rparr>"

definition sample_second :: Record where
  "sample_second = sample_first\<lparr>r_Sequence := 2, r_EventID := ''e2'', r_PreviousHash := r_Hash sample_first,
     r_Hash := hex_encode (sample_digest ''e2'')\<rparr>"

lemma sample_hash_hex: "hex64 (hex_encode (sample_digest b))"
proof -
  have "length (sample_digest b) = 32" by (simp add: sample_digest_def)
  then show ?thesis by (simp only: hex64_def hex_encode_length hex_encode_lower) simp
qed

lemma sample_hashes: "recordHash sample_codec sample_first = r_Hash sample_first"
  "recordHash sample_codec sample_second = r_Hash sample_second"
  by (simp_all add: recordHash_def sample_codec_def sample_first_def sample_second_def dropped_error_def)

lemma sample_token: "tokenPattern ''check.completed''" "tokenPattern ''key''"
  by (simp_all add: tokenPattern_def token_simps)

lemma sample_fields: "validateRecordFields sample_first = None" "validateRecordFields sample_second = None"
  by (simp_all add: validateRecordFields_def sample_first_def sample_second_def sample_token
      IsZero_def initial_hex64 sample_hash_hex)

lemma sample_chain: "verify_records sample_codec 0 initialChainHash [sample_first, sample_second]"
  using sample_hashes sample_fields
  by (simp add: sample_second_def sample_first_def)

definition sample_checkpoint :: Checkpoint where
  "sample_checkpoint = \<lparr>c_TenantID = ''tenant'', c_ThroughSequence = 2, c_ChainHash = r_Hash sample_second,
     c_KeyID = ''key'', c_CreatedAt = utc_at 2000, c_Signature = hex_encode (replicate 64 (CHR ''s''))\<rparr>"

definition sample_export :: Export where
  "sample_export = \<lparr>x_SchemaVersion = 1, x_TenantID = ''tenant'', x_Records = [sample_first, sample_second],
     x_Checkpoints = [sample_checkpoint]\<rparr>"

abbreviation sample_keys :: "string \<rightharpoonup> string" where
  "sample_keys \<equiv> [''key'' \<mapsto> replicate 32 (CHR ''p'')]"

lemma sample_signed: "SignCheckpoint sample_codec ''tenant'' ''key'' sample_second (utc_at 2000) (replicate 64 (CHR ''k'')) =
    Inr sample_checkpoint"
  unfolding SignCheckpoint_Inr
  by (simp add: sample_checkpoint_def PrivateKeySize_def validCheckpoint_def sample_token IsZero_def
      sample_second_def sample_first_def sample_hash_hex sample_codec_def)

lemma sample_key: "keys = sample_keys \<Longrightarrow> kid = ''key'' \<Longrightarrow>
    \<exists>pk. keys kid = Some pk \<and> length pk = PublicKeySize \<and>
      (\<forall>m. length (ac_sign sample_codec sk m) = SignatureSize \<and> ac_verify sample_codec pk m (ac_sign sample_codec sk m))"
  by (simp add: sample_codec_def PublicKeySize_def SignatureSize_def)

lemma sample_checked: "verify_checkpoint sample_codec sample_export sample_keys sample_checkpoint"
proof (rule signed_checkpoint_verifies [where pk = "replicate 32 (CHR ''p'')"])
  show "verify_records sample_codec 0 initialChainHash (x_Records sample_export)"
    using sample_chain by (simp only: sample_export_def Export.simps)
  show "SignCheckpoint sample_codec (x_TenantID sample_export) ''key'' (x_Records sample_export ! 1) (utc_at 2000)
      (replicate 64 (CHR ''k'')) = Inr sample_checkpoint"
    using sample_signed by (simp add: sample_export_def)
qed (simp_all add: sample_export_def sample_codec_def PublicKeySize_def SignatureSize_def)

lemma sample_verifies: "\<exists>rp. Verify sample_codec sample_export sample_keys = Inr rp"
proof -
  have "verify_records sample_codec 0 initialChainHash (x_Records sample_export)"
    using sample_chain by (simp only: sample_export_def Export.simps)
  moreover have "x_Records sample_export \<noteq> []" "x_Checkpoints sample_export = [sample_checkpoint]"
    "x_SchemaVersion sample_export = SchemaVersion" "x_TenantID sample_export \<noteq> []"
    by (simp_all add: sample_export_def SchemaVersion_def)
  ultimately show ?thesis using sample_checked by (simp add: Verify_Inr)
qed

definition far_record :: "string \<Rightarrow> Record" where
  "far_record i = sample_first\<lparr>r_EventID := i, r_OccurredAt := utc_at 400000000000000000000,
     r_Hash := hex_encode (sample_digest [])\<rparr>"

section \<open>Properties\<close>

text \<open>
  C32. Verified history cannot be rewritten: if two exports both verify and carry checkpoints over
  the same sequence and chain hash, their records up to that sequence are equal, unless two
  records with different content have the same hash.
\<close>

theorem audit_tamper_evident:
  assumes "Verify ac e keys = Inr rp" and "Verify ac e' keys' = Inr rp'"
    and "length (x_Records e) < 2 ^ 64" and "length (x_Records e') < 2 ^ 64"
    and "c \<in> set (x_Checkpoints e)" and "c' \<in> set (x_Checkpoints e')"
    and "c_ThroughSequence c = c_ThroughSequence c'" and "c_ChainHash c = c_ChainHash c'"
    and "\<And>r r'. r \<in> set (x_Records e) \<Longrightarrow> r' \<in> set (x_Records e') \<Longrightarrow> recordHash ac r = recordHash ac r' \<Longrightarrow>
          r\<lparr>r_Hash := []\<rparr> = r'\<lparr>r_Hash := []\<rparr>"
  shows "take (unat (c_ThroughSequence c)) (x_Records e) = take (unat (c_ThroughSequence c)) (x_Records e')"
proof (rule chains_equal [where h = initialChainHash and ac = ac])
  let ?n = "unat (c_ThroughSequence c)"
  have c: "verify_checkpoint ac e keys c" "verify_checkpoint ac e' keys' c'"
    using assms(1,2,5,6) by (auto simp: Verify_Inr list_all_iff)
  note h = checkpoint_head [OF c(1) assms(3)] checkpoint_head [OF c(2) assms(4)]
  show "verify_records ac 0 initialChainHash (take ?n (x_Records e))"
    "verify_records ac 0 initialChainHash (take ?n (x_Records e'))"
    using assms(1,2) verify_records_append by (metis Verify_Inr append_take_drop_id)+
  show "length (take ?n (x_Records e)) = length (take ?n (x_Records e'))"
    using h assms(7) by simp
  show "r_Hash (last (take ?n (x_Records e))) = r_Hash (last (take ?n (x_Records e')))"
    using h(3,6) assms(7,8) by simp
  show "r\<lparr>r_Hash := []\<rparr> = r'\<lparr>r_Hash := []\<rparr>"
    if "r \<in> set (take ?n (x_Records e))" "r' \<in> set (take ?n (x_Records e'))" "recordHash ac r = recordHash ac r'" for r r'
    using that assms(9) by (meson in_set_takeD)
qed

theorem audit_tamper_evident_witness:
  "take 2 (x_Records sample_export) = [sample_first, sample_second]"
proof -
  obtain rp where v: "Verify sample_codec sample_export sample_keys = Inr rp" using sample_verifies by blast
  have x: "x_Records sample_export = [sample_first, sample_second]" "x_Checkpoints sample_export = [sample_checkpoint]"
    by (simp_all add: sample_export_def)
  have d: "recordHash sample_codec sample_first \<noteq> recordHash sample_codec sample_second"
    unfolding sample_hashes by (simp add: sample_first_def sample_second_def hex_encode_inj) (simp add: sample_digest_def)
  have "take (unat (c_ThroughSequence sample_checkpoint)) (x_Records sample_export) =
      take (unat (c_ThroughSequence sample_checkpoint)) (x_Records sample_export)"
    by (rule audit_tamper_evident [OF v v _ _ _ _ refl refl]) (use d in \<open>auto simp: x\<close>)
  then show ?thesis by (simp add: x)
qed

text \<open>
  C33. Verification accepts exactly what was appended: a chain built by successive calls of
  \<^verbatim>\<open>Append\<close>, with checkpoints signed on its records at increasing sequences and times, verifies
  under the matching public keys, and the report names its head; and every export that verifies
  holds a chain that \<^verbatim>\<open>Append\<close> can build, so a gap, a reordering or a changed field is refused.
\<close>

theorem audit_verify_exact:
  assumes "\<And>kid. kid \<in> set (map c_KeyID (x_Checkpoints e)) \<Longrightarrow>
      \<exists>pk. keys kid = Some pk \<and> length pk = PublicKeySize \<and>
        (\<forall>m. length (ac_sign ac (sk kid) m) = SignatureSize \<and> ac_verify ac pk m (ac_sign ac (sk kid) m))"
    and "\<And>c. c \<in> set (x_Checkpoints e) \<Longrightarrow> \<exists>k < length (x_Records e).
      SignCheckpoint ac (x_TenantID e) (c_KeyID c) (x_Records e ! k) (c_CreatedAt c) (sk (c_KeyID c)) = Inr c"
    and "checkpoints_ordered (x_Checkpoints e)" and "x_Checkpoints e \<noteq> []"
    and "x_SchemaVersion e = SchemaVersion" and "x_TenantID e \<noteq> []" and "length (x_Records e) < 2 ^ 64"
  shows "(\<exists>rp. Verify ac e keys = Inr rp \<and> rp_ChainHash rp = r_Hash (last (x_Records e)) \<and>
            unat (rp_LastSequence rp) = length (x_Records e))
         \<longleftrightarrow> appended ac (x_Records e) \<and> x_Records e \<noteq> []"
proof
  assume "appended ac (x_Records e) \<and> x_Records e \<noteq> []"
  then have v: "verify_records ac 0 initialChainHash (x_Records e)" "x_Records e \<noteq> []"
    by (simp_all add: appended_iff_verify)
  have "verify_checkpoint ac e keys c" if c: "c \<in> set (x_Checkpoints e)" for c
  proof -
    obtain pk where "keys (c_KeyID c) = Some pk" "length pk = PublicKeySize"
      "\<And>m. length (ac_sign ac (sk (c_KeyID c)) m) = SignatureSize \<and> ac_verify ac pk m (ac_sign ac (sk (c_KeyID c)) m)"
      using assms(1) [of "c_KeyID c"] c by auto
    then show ?thesis
      using assms(2) [OF c] signed_checkpoint_verifies [OF v(1) assms(7)] by blast
  qed
  moreover have "unat (r_Sequence (last (x_Records e))) = length (x_Records e)"
    using verify_records_last_sequence [OF v] assms(7) by (simp add: unsigned_of_nat take_bit_nat_eq_self)
  ultimately show "\<exists>rp. Verify ac e keys = Inr rp \<and> rp_ChainHash rp = r_Hash (last (x_Records e)) \<and>
      unat (rp_LastSequence rp) = length (x_Records e)"
    using v assms(3-6) by (simp add: Verify_Inr list_all_iff)
qed (auto simp: Verify_Inr appended_iff_verify)

theorem audit_verify_exact_witness:
  "\<exists>rp. Verify sample_codec sample_export sample_keys = Inr rp \<and> unat (rp_LastSequence rp) = 2"
proof -
  have x: "x_Records sample_export = [sample_first, sample_second]" "x_Checkpoints sample_export = [sample_checkpoint]"
    "x_SchemaVersion sample_export = SchemaVersion" "x_TenantID sample_export = ''tenant''"
    "c_KeyID sample_checkpoint = ''key''" "c_CreatedAt sample_checkpoint = utc_at 2000"
    by (simp_all add: sample_export_def sample_checkpoint_def SchemaVersion_def)
  have a: "appended sample_codec [sample_first, sample_second]"
    using sample_chain by (simp only: appended_iff_verify)
  from audit_verify_exact [of sample_export sample_keys sample_codec "\<lambda>_. replicate 64 (CHR ''k'')"]
  show ?thesis
    using a sample_signed sample_key [OF refl refl]
    by (simp add: x) (metis Suc_1 lessI nth_Cons_0 nth_Cons_Suc numeral_2_eq_2)
qed

text \<open>
  A record whose time cannot be encoded is not protected: the hash of such records does not
  depend on their content, so any of them can be replaced by another without breaking the chain.
\<close>

theorem audit_unencodable_not_protected:
  assumes "verify_records ac i h (xs @ r # ys)"
    and "ac_record ac (r\<lparr>r_Hash := []\<rparr>) = None" and "ac_record ac (r'\<lparr>r_Hash := []\<rparr>) = None"
    and "validateRecordFields r' = None" and "r_Sequence r' = r_Sequence r" and "r_PreviousHash r' = r_PreviousHash r"
    and "r_Hash r' = r_Hash r"
  shows "verify_records ac i h (xs @ r' # ys)"
  using assms by (induction xs arbitrary: i h) (auto simp: recordHash_def)

theorem audit_unencodable_not_protected_witness:
  "verify_records sample_codec 0 initialChainHash [far_record ''e1''] \<and>
   verify_records sample_codec 0 initialChainHash [far_record ''forged'']"
proof -
  have f: "validateRecordFields (far_record i) = None" if "i \<noteq> []" for i
    using that by (simp add: far_record_def validateRecordFields_def sample_first_def sample_token IsZero_def initial_hex64)
  have n: "ac_record sample_codec ((far_record i)\<lparr>r_Hash := []\<rparr>) = None" for i
    by (simp add: far_record_def sample_codec_def)
  have v: "verify_records sample_codec 0 initialChainHash ([] @ far_record ''e1'' # [])"
    using f [of "''e1''"] n [of "''e1''"]
    by (simp add: recordHash_def dropped_error_def) (simp add: far_record_def sample_first_def sample_codec_def)
  have "verify_records sample_codec 0 initialChainHash ([] @ far_record ''forged'' # [])"
    by (rule audit_unencodable_not_protected [OF v n n f]) (simp_all add: far_record_def)
  with v show ?thesis by simp
qed

end
