(* ===== verification/Review_Case.thy ===== *)
theory Review_Case
  imports Aggregate_Contracts Policy_Evaluation
begin

text \<open>
  \<^verbatim>\<open>internal/review/case.go\<close> and \<^verbatim>\<open>evaluation.go\<close> (with \<^verbatim>\<open>FindingState\<close> of \<^verbatim>\<open>followup.go\<close>):
  manual review cases with single or dual oversight, appeals, the fact that a resolved case
  contributes, and the policy snapshot built from it. Case and appeal interpret the contracts
  of \<open>Aggregate_Contracts\<close>.

  SHA-256 (32 bytes) and the digest of the findings (JSON, SHA-256, hexadecimal; \<open>None\<close> for an
  encoding error) are arguments. Arbitration of escalated cases is done by the store and is
  not part of the domain operations modelled here.
\<close>

section \<open>Vocabulary\<close>

datatype review_error = ErrInvalid | ErrConflict | ErrForbidden | ErrPolicy policy_error | ErrEncode

datatype permission = PermissionClaim | PermissionFind | PermissionResolve | PermissionAppeal | PermissionOther string

datatype case_state = CaseOpen | CaseClaimed | CaseAwaitingSecond | CaseResolved | CaseEscalated | CaseStateOther string

datatype oversight = OversightSingle | OversightDual | OversightOther string

datatype resolution = ResolutionSatisfy | ResolutionNotSatisfy | ResolutionRequestInput | ResolutionOther string

record Principal =
  p_ID :: string
  p_Permissions :: "permission list"
  p_Certifications :: "string list"

record EvidenceGrant =
  eg_ID :: string
  eg_ReviewerID :: string
  eg_Region :: string
  eg_ExpiresAt :: go_time
  eg_RevokedAt :: go_time

record Finding =
  fi_ID :: string
  fi_ReviewerID :: string
  fi_Resolution :: resolution
  fi_ReasonCode :: string
  fi_GrantIDs :: "string list"
  fi_RecordedAt :: go_time

record PermittedFinding =
  pf_Resolution :: resolution
  pf_ReasonCode :: string

record Case =
  rc_ID :: string
  rc_VerificationID :: string
  rc_ChallengedDecision :: string
  rc_RoutingRequest :: string
  rc_SupersedesDecision :: string
  rc_Region :: string
  rc_RequiredCertificate :: string
  rc_Oversight :: oversight
  rc_State :: case_state
  rc_AssignedReviewer :: string
  rc_Findings :: "Finding list"
  rc_PermittedFindings :: "PermittedFinding list"
  rc_Version :: int
  rc_CreatedAt :: go_time
  rc_UpdatedAt :: go_time

definition permits :: "Principal \<Rightarrow> permission \<Rightarrow> bool" where
  "permits p perm \<longleftrightarrow> p_ID p \<noteq> [] \<and> perm \<in> set (p_Permissions p)"

definition validResolution :: "resolution \<Rightarrow> bool" where
  "validResolution r \<longleftrightarrow> r = ResolutionSatisfy \<or> r = ResolutionNotSatisfy \<or> r = ResolutionRequestInput"

definition ValidTime :: "go_time \<Rightarrow> bool" where
  "ValidTime t \<longleftrightarrow> \<not> IsZero t \<and> t_utc t \<and> Nanosecond t mod 1000 = 0"

definition ValidateFindingRules :: "PermittedFinding list \<Rightarrow> review_error option" where
  "ValidateFindingRules rules =
     (if length rules > 64 \<or>
         \<not> list_all (\<lambda>r. validResolution (pf_Resolution r) \<and> pattern is_lower token_char 127 (pf_ReasonCode r)) rules \<or>
         \<not> distinct rules
      then Some ErrInvalid else None)"

section \<open>Cases\<close>

definition case_Validate :: "Case \<Rightarrow> review_error option" where
  "case_Validate c =
     (if ValidateFindingRules (rc_PermittedFindings c) \<noteq> None then Some ErrInvalid
      else if rc_ID c = [] \<or> rc_VerificationID c = [] \<or>
         ((rc_ChallengedDecision c = []) = (rc_RoutingRequest c = [])) \<or>
         \<not> bounded (rc_Region c) 64 \<or> \<not> bounded (rc_RequiredCertificate c) 128 \<or>
         (rc_Oversight c \<noteq> OversightSingle \<and> rc_Oversight c \<noteq> OversightDual) \<or> rc_Version c < 1 \<or>
         IsZero (rc_CreatedAt c) \<or> \<not> t_utc (rc_CreatedAt c) \<or> Before (rc_UpdatedAt c) (rc_CreatedAt c) \<or>
         \<not> t_utc (rc_UpdatedAt c)
      then Some ErrInvalid else None)"

definition new_case ::
  "string \<Rightarrow> string \<Rightarrow> string \<Rightarrow> string \<Rightarrow> string \<Rightarrow> string \<Rightarrow> oversight \<Rightarrow> go_time \<Rightarrow> review_error + Case" where
  "new_case identifier verification challenged request region certificate ov now =
     (let c = \<lparr>rc_ID = identifier, rc_VerificationID = verification, rc_ChallengedDecision = challenged,
               rc_RoutingRequest = request, rc_SupersedesDecision = [], rc_Region = region,
               rc_RequiredCertificate = certificate, rc_Oversight = ov, rc_State = CaseOpen, rc_AssignedReviewer = [],
               rc_Findings = [], rc_PermittedFindings = [], rc_Version = 1, rc_CreatedAt = now, rc_UpdatedAt = now\<rparr>
      in case case_Validate c of Some e \<Rightarrow> Inl e | None \<Rightarrow> Inr c)"

definition NewCase where
  "NewCase identifier verification challenged region certificate ov now =
     (case new_case identifier verification challenged [] region certificate ov now of
        Inl _ \<Rightarrow> Inl ErrInvalid | Inr c \<Rightarrow> Inr c)"

definition NewRoutedCase where
  "NewRoutedCase identifier verification request region certificate ov now =
     new_case identifier verification [] request region certificate ov now"

definition Claim :: "Case \<Rightarrow> Principal \<Rightarrow> int \<Rightarrow> go_time \<Rightarrow> review_error + Case" where
  "Claim c p expectedVersion now =
     (if case_Validate c \<noteq> None \<or> expectedVersion \<noteq> rc_Version c \<or> rc_State c \<noteq> CaseOpen \<or>
         Before now (rc_UpdatedAt c) \<or> \<not> t_utc now
      then Inl ErrConflict
      else if \<not> permits p PermissionClaim \<or> rc_RequiredCertificate c \<notin> set (p_Certifications p) then Inl ErrForbidden
      else Inr (c\<lparr>rc_AssignedReviewer := p_ID p, rc_State := CaseClaimed, rc_Version := i64 (rc_Version c + 1),
                  rc_UpdatedAt := now\<rparr>))"

definition grant_covers :: "Case \<Rightarrow> Principal \<Rightarrow> Finding \<Rightarrow> string \<Rightarrow> EvidenceGrant \<Rightarrow> bool" where
  "grant_covers c p f gid g \<longleftrightarrow> eg_ID g = gid \<and> eg_ReviewerID g = p_ID p \<and> eg_Region g = rc_Region c \<and>
     After (eg_ExpiresAt g) (fi_RecordedAt f) \<and> IsZero (eg_RevokedAt g)"

definition SubmitFinding ::
  "Case \<Rightarrow> Principal \<Rightarrow> Finding \<Rightarrow> EvidenceGrant list \<Rightarrow> int \<Rightarrow> review_error + Case" where
  "SubmitFinding c p f grants expectedVersion =
     (if case_Validate c \<noteq> None \<or> expectedVersion \<noteq> rc_Version c \<or>
         (rc_State c \<noteq> CaseClaimed \<and> rc_State c \<noteq> CaseAwaitingSecond)
      then Inl ErrConflict
      else if rc_RequiredCertificate c \<notin> set (p_Certifications p) \<or> \<not> permits p PermissionFind \<or>
         p_ID p \<noteq> fi_ReviewerID f \<or> fi_ID f = [] \<or> \<not> validResolution (fi_Resolution f) \<or>
         \<not> bounded (fi_ReasonCode f) 128 \<or> Before (fi_RecordedAt f) (rc_UpdatedAt c) \<or>
         \<not> t_utc (fi_RecordedAt f) \<or> fi_GrantIDs f = []
      then Inl ErrForbidden
      else if rc_RoutingRequest c \<noteq> [] \<and>
         (\<not> ValidTime (fi_RecordedAt f) \<or>
          \<lparr>pf_Resolution = fi_Resolution f, pf_ReasonCode = fi_ReasonCode f\<rparr> \<notin> set (rc_PermittedFindings c))
      then Inl ErrForbidden
      else if rc_State c = CaseClaimed \<and> p_ID p \<noteq> rc_AssignedReviewer c then Inl ErrForbidden
      else if rc_State c = CaseAwaitingSecond \<and>
         (length (rc_Findings c) \<noteq> 1 \<or> p_ID p = fi_ReviewerID (rc_Findings c ! 0)) then Inl ErrForbidden
      else if \<not> list_all (\<lambda>gid. list_ex (grant_covers c p f gid) grants) (fi_GrantIDs f) then Inl ErrForbidden
      else
        let findings = rc_Findings c @ [f];
            next = c\<lparr>rc_Findings := findings, rc_Version := i64 (rc_Version c + 1), rc_UpdatedAt := fi_RecordedAt f\<rparr>
        in if rc_Oversight c = OversightDual \<and> length findings = 1
           then Inr (next\<lparr>rc_State := CaseAwaitingSecond, rc_AssignedReviewer := []\<rparr>)
           else if rc_Oversight c = OversightDual \<and> fi_Resolution (findings ! 0) \<noteq> fi_Resolution f
           then Inr (next\<lparr>rc_State := CaseEscalated\<rparr>)
           else Inr (next\<lparr>rc_State := CaseResolved\<rparr>))"

definition AuthorCorrection :: "Case \<Rightarrow> Principal \<Rightarrow> string \<Rightarrow> int \<Rightarrow> go_time \<Rightarrow> review_error + Case" where
  "AuthorCorrection c p superseding expectedVersion now =
     (if case_Validate c \<noteq> None \<or> rc_ChallengedDecision c = [] \<or> rc_State c \<noteq> CaseResolved \<or>
         expectedVersion \<noteq> rc_Version c \<or> superseding = [] \<or> superseding = rc_ChallengedDecision c \<or>
         Before now (rc_UpdatedAt c) \<or> \<not> t_utc now
      then Inl ErrConflict
      else if \<not> permits p PermissionResolve \<or> list_ex (\<lambda>f. fi_ReviewerID f = p_ID p) (rc_Findings c) then Inl ErrForbidden
      else Inr (c\<lparr>rc_SupersedesDecision := superseding, rc_Version := i64 (rc_Version c + 1), rc_UpdatedAt := now\<rparr>))"

text \<open>The store pins the permitted findings of the routing rule on a new case before it is stored.\<close>

definition pin_findings :: "Case \<Rightarrow> PermittedFinding list \<Rightarrow> Case" where
  "pin_findings c rules = c\<lparr>rc_PermittedFindings := rules\<rparr>"

section \<open>Appeals\<close>

datatype appeal_state = AppealRequested | AppealIndependentReview | AppealResolved | AppealAwaitingInput | AppealStateOther string

datatype appeal_outcome = AppealUpheld | AppealOverturned | AppealMoreInput | AppealOutcomeOther string

record Appeal =
  al_ID :: string
  al_CaseID :: string
  al_ChallengedDecision :: string
  al_OriginalReviewers :: "string list"
  al_AssignedReviewer :: string
  al_State :: appeal_state
  al_Outcome :: appeal_outcome
  al_ReasonCode :: string
  al_SupersedingDecision :: string
  al_Deadline :: go_time
  al_Version :: int

definition appeal_Resolve ::
  "Appeal \<Rightarrow> Principal \<Rightarrow> appeal_outcome \<Rightarrow> string \<Rightarrow> string \<Rightarrow> int \<Rightarrow> go_time \<Rightarrow> review_error + Appeal" where
  "appeal_Resolve a p outcome reasonCode superseding expectedVersion now =
     (if al_ID a = [] \<or> al_CaseID a = [] \<or> al_ChallengedDecision a = [] \<or>
         (al_State a \<noteq> AppealIndependentReview \<and> al_State a \<noteq> AppealAwaitingInput) \<or>
         al_Version a \<noteq> expectedVersion \<or> IsZero now \<or> \<not> t_utc now \<or> \<not> Before now (al_Deadline a)
      then Inl ErrConflict
      else if \<not> permits p PermissionAppeal \<or> p_ID p \<noteq> al_AssignedReviewer a \<or>
         p_ID p \<in> set (al_OriginalReviewers a) \<or> \<not> bounded reasonCode 128 \<or>
         (outcome \<noteq> AppealUpheld \<and> outcome \<noteq> AppealOverturned \<and> outcome \<noteq> AppealMoreInput) \<or>
         ((outcome = AppealOverturned) \<noteq> (superseding \<noteq> [])) \<or> superseding = al_ChallengedDecision a
      then Inl ErrForbidden
      else Inr (a\<lparr>al_State := (if outcome = AppealMoreInput then AppealAwaitingInput else AppealResolved),
                  al_Outcome := outcome, al_ReasonCode := reasonCode, al_SupersedingDecision := superseding,
                  al_Version := i64 (al_Version a + 1)\<rparr>))"

definition appeal_Assign :: "Appeal \<Rightarrow> Principal \<Rightarrow> int \<Rightarrow> go_time \<Rightarrow> review_error + Appeal" where
  "appeal_Assign a p expectedVersion now =
     (if al_ID a = [] \<or> al_CaseID a = [] \<or> al_ChallengedDecision a = [] \<or> al_State a \<noteq> AppealRequested \<or>
         al_Version a \<noteq> expectedVersion \<or> \<not> Before now (al_Deadline a)
      then Inl ErrConflict
      else if \<not> permits p PermissionAppeal \<or> p_ID p \<in> set (al_OriginalReviewers a) then Inl ErrForbidden
      else Inr (a\<lparr>al_AssignedReviewer := p_ID p, al_State := AppealIndependentReview,
                  al_Version := i64 (al_Version a + 1)\<rparr>))"

section \<open>The fact a resolved case contributes\<close>

record findingReference =
  fr_ID :: string
  fr_ReviewerID :: string
  fr_Resolution :: resolution
  fr_Reason :: string
  fr_Grants :: "string list"
  fr_At :: go_time

definition finding_reference :: "Finding \<Rightarrow> findingReference" where
  "finding_reference f = \<lparr>fr_ID = fi_ID f, fr_ReviewerID = fi_ReviewerID f, fr_Resolution = fi_Resolution f,
     fr_Reason = fi_ReasonCode f, fr_Grants = sort (fi_GrantIDs f), fr_At = fi_RecordedAt f\<rparr>"

record review_codec =
  rv_policy :: policy_codec
  rv_sha256 :: "string \<Rightarrow> string"
  rv_digest :: "string \<Rightarrow> int \<Rightarrow> findingReference list \<Rightarrow> string option"

definition FindingState :: "resolution \<Rightarrow> requirement_state" where
  "FindingState r = (case r of ResolutionSatisfy \<Rightarrow> RequirementSatisfied
     | ResolutionNotSatisfy \<Rightarrow> RequirementNotSatisfied | _ \<Rightarrow> RequirementInconclusive)"

fun findings_loop :: "PermittedFinding list \<Rightarrow> resolution \<Rightarrow> string set \<Rightarrow> Finding list \<Rightarrow> bool" where
  "findings_loop permitted res reviewers [] \<longleftrightarrow> True"
| "findings_loop permitted res reviewers (f # fs) \<longleftrightarrow>
     fi_ReviewerID f \<notin> reviewers \<and> fi_Resolution f = res \<and>
     \<lparr>pf_Resolution = fi_Resolution f, pf_ReasonCode = fi_ReasonCode f\<rparr> \<in> set permitted \<and>
     findings_loop permitted res (insert (fi_ReviewerID f) reviewers) fs"

definition AcceptedFact :: "review_codec \<Rightarrow> Case \<Rightarrow> review_error + Fact \<times> string" where
  "AcceptedFact rv c =
     (if case_Validate c \<noteq> None \<or> rc_RoutingRequest c = [] \<or> rc_State c \<noteq> CaseResolved \<or> rc_Findings c = []
      then Inl ErrConflict
      else if length (rc_Findings c) \<noteq> (if rc_Oversight c = OversightDual then 2 else 1) then Inl ErrConflict
      else
        let res = fi_Resolution (rc_Findings c ! 0) in
        if \<not> findings_loop (rc_PermittedFindings c) res {} (rc_Findings c) then Inl ErrForbidden
        else case rv_digest rv (rc_ID c) (rc_Version c) (sort_key fr_ID (map finding_reference (rc_Findings c))) of
          None \<Rightarrow> Inl ErrEncode
        | Some digest \<Rightarrow>
          (case NewFactKey ''review.resolution'' of Inl e \<Rightarrow> Inl (ErrPolicy e)
           | Inr key \<Rightarrow>
             Inr (\<lparr>fa_Key = key, fa_State = FindingState res,
                   fa_Source = \<lparr>fs_Identity = None, fs_Kind = FactSourceReviewFinding, fs_Check = None, fs_Authority = None,
                     fs_SubjectResponse = None, fs_ReviewFinding = Some (''review:'' @ digest), fs_Fraud = None\<rparr>,
                   fa_ObservedAt = rc_UpdatedAt c, fa_ExpiresAt = None,
                   fa_ReasonCodes = compact (sort (map fi_ReasonCode (rc_Findings c)))\<rparr>, digest)))"

section \<open>The snapshot of a reviewed case\<close>

text \<open>The parts of \<^verbatim>\<open>policy.Routing\<close> that review reads.\<close>

record Routing =
  rt_DecisionID :: string
  rt_snapshot :: Snapshot

definition BuiltinAssuranceDigest :: "review_codec \<Rightarrow> string \<Rightarrow> string" where
  "BuiltinAssuranceDigest rv kind = hex_encode (rv_sha256 rv (''idenqa.assurance.'' @ kind @ ''.v1''))"

definition review_reference :: "Case \<Rightarrow> string \<Rightarrow> Finding \<Rightarrow> DecisionReference" where
  "review_reference c digest f = \<lparr>dr_Kind = ''review_finding'', dr_ID = fi_ID f, dr_Version = [], dr_Digest = digest,
     dr_Parents = [rc_ID c, fi_ReviewerID f]\<rparr>"

definition review_source :: "review_codec \<Rightarrow> requirement_state \<Rightarrow> Finding \<Rightarrow> AssuranceSource" where
  "review_source rv state f = \<lparr>as_ExpiresAt = None, as_CaptureAssurances = [], as_Reference = fi_ID f,
     as_Signal = ''review.resolution'', as_State = state, as_RunnerKind = ''review'', as_RunnerID = ''idenqa.review'',
     as_PackageDigest = BuiltinAssuranceDigest rv ''review'', as_ConfigurationDigest = BuiltinAssuranceDigest rv ''review'',
     as_ThresholdDigest = [], as_CollectedAt = fi_RecordedAt f,
     as_Roots = [''reviewer.'' @ BuiltinAssuranceDigest rv (fi_ReviewerID f)], as_EvaluationOnly = False\<rparr>"

definition review_snapshot :: "review_codec \<Rightarrow> Case \<Rightarrow> Routing \<Rightarrow> review_error + Snapshot \<times> string" where
  "review_snapshot rv c routing =
     (case AcceptedFact rv c of Inl e \<Rightarrow> Inl e
      | Inr (accepted, digest) \<Rightarrow>
        (let original = rt_snapshot routing in
         if rc_RoutingRequest c \<noteq> rt_DecisionID routing \<or> rc_VerificationID c \<noteq> sn_verificationID original \<or>
            Before (rc_UpdatedAt c) (sn_evaluatedAt original) \<or> Nanosecond (rc_UpdatedAt c) mod 1000 \<noteq> 0
         then Inl ErrInvalid
         else if list_ex (\<lambda>prior. fa_Key prior = fa_Key accepted) (sn_facts original) then Inl ErrInvalid
         else
           let complete = map_option (\<lambda>x. x\<lparr>dc_References := dc_References x @ map (review_reference c digest) (rc_Findings c),
                    dc_Sources := dc_Sources x @ map (review_source rv (fa_State accepted)) (rc_Findings c)\<rparr>)
                    (snapshot_Context (pc_assurance (rv_policy rv)) original);
               input = (snapshotInput (rv_policy rv) original)\<lparr>si_Context := complete,
                    si_EvaluatedAt := rc_UpdatedAt c, si_Facts := sn_facts original @ [accepted]\<rparr>
           in case NewSnapshot (rv_policy rv) input of Inl e \<Rightarrow> Inl (ErrPolicy e) | Inr s \<Rightarrow> Inr (s, digest)))"

text \<open>\<^verbatim>\<open>Evaluation.Decision\<close>: a machine decision at the time of the snapshot.\<close>

definition review_decision :: "policy_codec \<Rightarrow> string \<Rightarrow> Snapshot \<Rightarrow> Evaluation \<Rightarrow> policy_error + Decision" where
  "review_decision pc decisionID s result =
     NewDecision pc \<lparr>di_ID = decisionID, di_Snapshot = s, di_Evaluation = result, di_Actor = ActorMachine,
       di_Supersedes = [], di_DecidedAt = sn_evaluatedAt s\<rparr>"


section \<open>Commands and contracts\<close>

datatype case_command = CmdClaim Principal int go_time
  | CmdSubmit Principal Finding "EvidenceGrant list" int
  | CmdCorrect Principal string int go_time

fun apply_case :: "case_command \<Rightarrow> Case \<Rightarrow> review_error + Case" where
  "apply_case (CmdClaim p v now) c = Claim c p v now"
| "apply_case (CmdSubmit p f grants v) c = SubmitFinding c p f grants v"
| "apply_case (CmdCorrect p superseding v now) c = AuthorCorrection c p superseding v now"

fun case_expected :: "case_command \<Rightarrow> int" where
  "case_expected (CmdClaim p v now) = v"
| "case_expected (CmdSubmit p f grants v) = v"
| "case_expected (CmdCorrect p superseding v now) = v"

definition case_edge :: "case_state \<Rightarrow> case_state \<Rightarrow> bool" where
  "case_edge s t \<longleftrightarrow> (s, t) \<in> {(CaseOpen, CaseClaimed), (CaseClaimed, CaseAwaitingSecond), (CaseClaimed, CaseResolved),
     (CaseClaimed, CaseEscalated), (CaseAwaitingSecond, CaseResolved), (CaseAwaitingSecond, CaseEscalated),
     (CaseResolved, CaseResolved)}"

lemma Claim_Inr:
  "Claim c p v now = Inr c' \<Longrightarrow>
     case_Validate c = None \<and> v = rc_Version c \<and> rc_State c = CaseOpen \<and> \<not> Before now (rc_UpdatedAt c) \<and> t_utc now \<and>
     permits p PermissionClaim \<and> rc_RequiredCertificate c \<in> set (p_Certifications p) \<and>
     c' = c\<lparr>rc_AssignedReviewer := p_ID p, rc_State := CaseClaimed, rc_Version := i64 (rc_Version c + 1), rc_UpdatedAt := now\<rparr>"
  by (auto simp: Claim_def split: if_splits)

definition next_state :: "Case \<Rightarrow> Finding \<Rightarrow> case_state" where
  "next_state c f = (if rc_Oversight c = OversightDual \<and> rc_Findings c = [] then CaseAwaitingSecond
     else if rc_Oversight c = OversightDual \<and> fi_Resolution ((rc_Findings c @ [f]) ! 0) \<noteq> fi_Resolution f then CaseEscalated
     else CaseResolved)"

lemma SubmitFinding_Inr:
  assumes "SubmitFinding c p f grants v = Inr c'"
  shows "case_Validate c = None" "v = rc_Version c" "rc_State c = CaseClaimed \<or> rc_State c = CaseAwaitingSecond"
    "rc_RequiredCertificate c \<in> set (p_Certifications p)" "permits p PermissionFind" "fi_ReviewerID f = p_ID p"
    "validResolution (fi_Resolution f)" "bounded (fi_ReasonCode f) 128" "\<not> Before (fi_RecordedAt f) (rc_UpdatedAt c)"
    "t_utc (fi_RecordedAt f)" "fi_GrantIDs f \<noteq> []"
    "rc_RoutingRequest c \<noteq> [] \<Longrightarrow> ValidTime (fi_RecordedAt f) \<and>
       \<lparr>pf_Resolution = fi_Resolution f, pf_ReasonCode = fi_ReasonCode f\<rparr> \<in> set (rc_PermittedFindings c)"
    "rc_State c = CaseClaimed \<Longrightarrow> p_ID p = rc_AssignedReviewer c"
    "rc_State c = CaseAwaitingSecond \<Longrightarrow> length (rc_Findings c) = 1 \<and> p_ID p \<noteq> fi_ReviewerID (rc_Findings c ! 0)"
    "\<forall>gid \<in> set (fi_GrantIDs f). \<exists>g \<in> set grants. grant_covers c p f gid g"
    "rc_Findings c' = rc_Findings c @ [f]" "rc_Version c' = i64 (rc_Version c + 1)" "rc_UpdatedAt c' = fi_RecordedAt f"
    "rc_State c' = next_state c f"
    "rc_Oversight c' = rc_Oversight c" "rc_RoutingRequest c' = rc_RoutingRequest c"
    "rc_PermittedFindings c' = rc_PermittedFindings c" "rc_ID c' = rc_ID c" "rc_CreatedAt c' = rc_CreatedAt c"
    "rc_ChallengedDecision c' = rc_ChallengedDecision c" "rc_VerificationID c' = rc_VerificationID c"
    "rc_Region c' = rc_Region c" "rc_RequiredCertificate c' = rc_RequiredCertificate c"
  using assms unfolding SubmitFinding_def Let_def list_all_iff list_ex_iff next_state_def
  by (simp_all split: if_split_asm) (hypsubst, simp)+

lemma AuthorCorrection_Inr:
  "AuthorCorrection c p superseding v now = Inr c' \<Longrightarrow>
     case_Validate c = None \<and> v = rc_Version c \<and> rc_State c = CaseResolved \<and> rc_ChallengedDecision c \<noteq> [] \<and>
     \<not> Before now (rc_UpdatedAt c) \<and> t_utc now \<and> permits p PermissionResolve \<and>
     p_ID p \<notin> fi_ReviewerID ` set (rc_Findings c) \<and>
     c' = c\<lparr>rc_SupersedesDecision := superseding, rc_Version := i64 (rc_Version c + 1), rc_UpdatedAt := now\<rparr>"
  by (auto simp: AuthorCorrection_def list_ex_iff split: if_splits)

interpretation review: optimistic_aggregate apply_case rc_Version case_expected
proof (unfold_locales, goal_cases)
  case (1 cmd c c')
  then show ?case by (cases cmd) (auto dest: Claim_Inr SubmitFinding_Inr(2) AuthorCorrection_Inr)
next
  case (2 cmd c c')
  then show ?case by (cases cmd) (auto dest: Claim_Inr SubmitFinding_Inr(17) AuthorCorrection_Inr)
qed

interpretation review: phased_workflow apply_case rc_State case_edge "\<lambda>s. s = CaseEscalated"
proof (unfold_locales, goal_cases)
  case (1 cmd c c')
  show ?case
  proof (cases cmd)
    case (CmdSubmit p f grants v)
    with 1 have s: "SubmitFinding c p f grants v = Inr c'" by simp
    show ?thesis
      using SubmitFinding_Inr(3,14,19) [OF s] by (auto simp: case_edge_def next_state_def)
  next
    case (CmdClaim p v now)
    then show ?thesis using Claim_Inr [of c p v now c'] 1 by (simp add: case_edge_def)
  next
    case (CmdCorrect p superseding v now)
    then show ?thesis using AuthorCorrection_Inr [of c p superseding v now c'] 1 by (simp add: case_edge_def)
  qed
qed (simp add: case_edge_def)

datatype appeal_command = CmdAssign Principal int go_time
  | CmdResolve Principal appeal_outcome string string int go_time

fun apply_appeal :: "appeal_command \<Rightarrow> Appeal \<Rightarrow> review_error + Appeal" where
  "apply_appeal (CmdAssign p v now) a = appeal_Assign a p v now"
| "apply_appeal (CmdResolve p outcome reason superseding v now) a = appeal_Resolve a p outcome reason superseding v now"

fun appeal_expected :: "appeal_command \<Rightarrow> int" where
  "appeal_expected (CmdAssign p v now) = v"
| "appeal_expected (CmdResolve p outcome reason superseding v now) = v"

definition appeal_edge :: "appeal_state \<Rightarrow> appeal_state \<Rightarrow> bool" where
  "appeal_edge s t \<longleftrightarrow> (s, t) \<in> {(AppealRequested, AppealIndependentReview), (AppealIndependentReview, AppealResolved),
     (AppealIndependentReview, AppealAwaitingInput), (AppealAwaitingInput, AppealResolved),
     (AppealAwaitingInput, AppealAwaitingInput)}"

lemma apply_appeal_Inr:
  "apply_appeal cmd a = Inr a' \<Longrightarrow> appeal_expected cmd = al_Version a \<and> al_Version a' = i64 (al_Version a + 1) \<and>
     appeal_edge (al_State a) (al_State a')"
  by (cases cmd) (auto simp: appeal_Assign_def appeal_Resolve_def appeal_edge_def split: if_splits)

interpretation appeal: optimistic_aggregate apply_appeal al_Version appeal_expected
  by unfold_locales (auto dest: apply_appeal_Inr)

interpretation appeal: phased_workflow apply_appeal al_State appeal_edge "\<lambda>s. s = AppealResolved"
  by unfold_locales (auto dest: apply_appeal_Inr simp: appeal_edge_def)


section \<open>Reachable cases\<close>

inductive reachable_case :: "Case \<Rightarrow> bool" where
  challenged: "NewCase i v ch r cert ov now = Inr c \<Longrightarrow> ValidateFindingRules rules = None \<Longrightarrow>
    reachable_case (pin_findings c rules)"
| routed: "NewRoutedCase i v req r cert ov now = Inr c \<Longrightarrow> ValidateFindingRules rules = None \<Longrightarrow>
    reachable_case (pin_findings c rules)"
| applied: "reachable_case c \<Longrightarrow> apply_case cmd c = Inr c' \<Longrightarrow> reachable_case c'"

definition permitted_finding :: "Case \<Rightarrow> Finding \<Rightarrow> bool" where
  "permitted_finding c f \<longleftrightarrow> \<lparr>pf_Resolution = fi_Resolution f, pf_ReasonCode = fi_ReasonCode f\<rparr> \<in> set (rc_PermittedFindings c)"

text \<open>What the state of a case says about its findings.\<close>

definition findings_match :: "Case \<Rightarrow> bool" where
  "findings_match c \<longleftrightarrow>
     (case rc_State c of
        CaseOpen \<Rightarrow> rc_Findings c = []
      | CaseClaimed \<Rightarrow> rc_Findings c = []
      | CaseAwaitingSecond \<Rightarrow> rc_Oversight c = OversightDual \<and> (\<exists>f. rc_Findings c = [f])
      | CaseResolved \<Rightarrow>
          (if rc_Oversight c = OversightDual
           then \<exists>f g. rc_Findings c = [f, g] \<and> fi_ReviewerID f \<noteq> fi_ReviewerID g \<and> fi_Resolution f = fi_Resolution g
           else \<exists>f. rc_Findings c = [f])
      | CaseEscalated \<Rightarrow> rc_Oversight c = OversightDual \<and>
          (\<exists>f g. rc_Findings c = [f, g] \<and> fi_ReviewerID f \<noteq> fi_ReviewerID g \<and> fi_Resolution f \<noteq> fi_Resolution g)
      | CaseStateOther _ \<Rightarrow> False)"

definition routed_findings :: "Case \<Rightarrow> bool" where
  "routed_findings c \<longleftrightarrow> (rc_RoutingRequest c \<noteq> [] \<longrightarrow>
     (\<forall>f \<in> set (rc_Findings c). permitted_finding c f \<and> ValidTime (fi_RecordedAt f)) \<and>
     (rc_Findings c \<noteq> [] \<longrightarrow> rc_UpdatedAt c = fi_RecordedAt (last (rc_Findings c))))"

lemma new_case_Inr:
  "new_case i v ch req r cert ov now = Inr c \<Longrightarrow> case_Validate c = None \<and> rc_State c = CaseOpen \<and> rc_Findings c = []"
  by (auto simp: new_case_def Let_def split: option.splits)

lemma reachable_start:
  assumes "reachable_case c"
  shows "\<exists>c0 cmds. case_Validate c0 = None \<and> rc_State c0 = CaseOpen \<and> rc_Findings c0 = [] \<and> run_all apply_case cmds c0 = Inr c"
  using assms
proof induction
  case (challenged i v ch r cert ov now c rules)
  then have "case_Validate c = None \<and> rc_State c = CaseOpen \<and> rc_Findings c = []"
    by (auto simp: NewCase_def split: sum.splits dest: new_case_Inr)
  then show ?case
    using challenged(2) by (intro exI [of _ "pin_findings c rules"] exI [of _ "[]"])
      (simp add: pin_findings_def case_Validate_def split: if_splits)
next
  case (routed i v req r cert ov now c rules)
  then have "case_Validate c = None \<and> rc_State c = CaseOpen \<and> rc_Findings c = []"
    by (auto simp: NewRoutedCase_def dest: new_case_Inr)
  then show ?case
    using routed(2) by (intro exI [of _ "pin_findings c rules"] exI [of _ "[]"])
      (simp add: pin_findings_def case_Validate_def split: if_splits)
next
  case (applied c cmd c')
  then obtain c0 cmds where "case_Validate c0 = None" "rc_State c0 = CaseOpen" "rc_Findings c0 = []"
    "run_all apply_case cmds c0 = Inr c" by blast
  moreover from this applied(2) have "run_all apply_case (cmds @ [cmd]) c0 = Inr c'" by (simp add: run_all_append)
  ultimately show ?case by blast
qed

definition case_inv :: "Case \<Rightarrow> bool" where
  "case_inv c \<longleftrightarrow> findings_match c \<and> routed_findings c \<and> (1 \<le> rc_Version c \<longrightarrow> case_Validate c = None)"

lemma case_Validate_None:
  "case_Validate c = None \<longleftrightarrow> ValidateFindingRules (rc_PermittedFindings c) = None \<and> rc_ID c \<noteq> [] \<and>
     rc_VerificationID c \<noteq> [] \<and> ((rc_ChallengedDecision c = []) \<noteq> (rc_RoutingRequest c = [])) \<and>
     bounded (rc_Region c) 64 \<and> bounded (rc_RequiredCertificate c) 128 \<and>
     (rc_Oversight c = OversightSingle \<or> rc_Oversight c = OversightDual) \<and> 1 \<le> rc_Version c \<and>
     \<not> IsZero (rc_CreatedAt c) \<and> t_utc (rc_CreatedAt c) \<and> \<not> Before (rc_UpdatedAt c) (rc_CreatedAt c) \<and>
     t_utc (rc_UpdatedAt c)"
  unfolding case_Validate_def by (simp split: if_split) linarith

lemma Before_trans: "\<not> Before b a \<Longrightarrow> \<not> Before c b \<Longrightarrow> \<not> Before c a"
  by (simp add: Before_def)

lemma apply_case_inv:
  assumes "case_inv c" "apply_case cmd c = Inr c'"
  shows "case_inv c'"
proof (cases cmd)
  case (CmdClaim p v now)
  then have k: "Claim c p v now = Inr c'" using assms(2) by simp
  note k = Claim_Inr [OF k]
  have "rc_Findings c = []" using assms(1) k by (simp add: case_inv_def findings_match_def)
  moreover have "1 \<le> rc_Version c' \<longrightarrow> case_Validate c' = None"
    using k Before_trans [of "rc_UpdatedAt c" "rc_CreatedAt c" now]
    by (simp add: case_Validate_None)
  ultimately show ?thesis using k by (simp add: case_inv_def findings_match_def routed_findings_def)
next
  case (CmdSubmit p f grants v)
  then have "SubmitFinding c p f grants v = Inr c'" using assms(2) by simp
  note k = SubmitFinding_Inr [OF this]
  have "case_Validate c' = None" if "1 \<le> rc_Version c'"
    using k(1,9,10,17,18,20-28) that Before_trans [of "rc_UpdatedAt c" "rc_CreatedAt c" "fi_RecordedAt f"]
    by (simp add: case_Validate_None)
  moreover have "routed_findings c'"
    using assms(1) k(12,16,18,21,22) by (auto simp: case_inv_def routed_findings_def permitted_finding_def)
  moreover have "findings_match c'"
    using k(3)
  proof
    assume s: "rc_State c = CaseClaimed"
    then have "rc_Findings c = []" using assms(1) by (simp add: case_inv_def findings_match_def)
    then show ?thesis using k(16,19,20) by (auto simp: findings_match_def next_state_def)
  next
    assume s: "rc_State c = CaseAwaitingSecond"
    then obtain g where "rc_Findings c = [g]" "rc_Oversight c = OversightDual"
      using assms(1) by (auto simp: case_inv_def findings_match_def)
    then show ?thesis using k(14) [OF s] k(6,16,19,20) by (auto simp: findings_match_def next_state_def)
  qed
  ultimately show ?thesis by (simp add: case_inv_def)
next
  case (CmdCorrect p superseding v now)
  then have "AuthorCorrection c p superseding v now = Inr c'" using assms(2) by simp
  note k = AuthorCorrection_Inr [OF this]
  have "1 \<le> rc_Version c' \<longrightarrow> case_Validate c' = None"
    using k Before_trans [of "rc_UpdatedAt c" "rc_CreatedAt c" now]
    by (simp add: case_Validate_None)
  moreover have "rc_RoutingRequest c = []" using k by (auto simp: case_Validate_def split: if_splits)
  ultimately show ?thesis
    using k assms(1) by (simp add: case_inv_def findings_match_def routed_findings_def)
qed

lemma reachable_case_inv: "reachable_case c \<Longrightarrow> case_inv c"
proof -
  assume "reachable_case c"
  then obtain c0 cmds where c0: "case_Validate c0 = None" "rc_State c0 = CaseOpen" "rc_Findings c0 = []"
    and run: "run_all apply_case cmds c0 = Inr c"
    using reachable_start by blast
  have "case_inv c0" using c0 by (simp add: case_inv_def findings_match_def routed_findings_def)
  with run show "case_inv c" by (rule run_all_invariant) (rule apply_case_inv)
qed


section \<open>Accepted facts\<close>

lemma findings_loop_iff:
  "findings_loop permitted res reviewers fs \<longleftrightarrow>
     distinct (map fi_ReviewerID fs) \<and> set (map fi_ReviewerID fs) \<inter> reviewers = {} \<and>
     (\<forall>f \<in> set fs. fi_Resolution f = res \<and> \<lparr>pf_Resolution = fi_Resolution f, pf_ReasonCode = fi_ReasonCode f\<rparr> \<in> set permitted)"
  by (induction fs arbitrary: reviewers) auto

lemma review_key: "NewFactKey ''review.resolution'' = Inr ''review.resolution''"
  by (simp add: NewFactKey_def fact_segment_def token_simps)

lemma AcceptedFact_guards:
  assumes "AcceptedFact rv c = Inr (f, d)"
  shows "case_Validate c = None" "rc_RoutingRequest c \<noteq> []" "rc_State c = CaseResolved" "rc_Findings c \<noteq> []"
    "findings_loop (rc_PermittedFindings c) (fi_Resolution (rc_Findings c ! 0)) {} (rc_Findings c)"
    "rv_digest rv (rc_ID c) (rc_Version c) (sort_key fr_ID (map finding_reference (rc_Findings c))) = Some d"
    "length (rc_Findings c) \<le> 2"
    "f = \<lparr>fa_Key = ''review.resolution'', fa_State = FindingState (fi_Resolution (rc_Findings c ! 0)),
       fa_Source = \<lparr>fs_Identity = None, fs_Kind = FactSourceReviewFinding, fs_Check = None, fs_Authority = None,
         fs_SubjectResponse = None, fs_ReviewFinding = Some (''review:'' @ d), fs_Fraud = None\<rparr>,
       fa_ObservedAt = rc_UpdatedAt c, fa_ExpiresAt = None,
       fa_ReasonCodes = compact (sort (map fi_ReasonCode (rc_Findings c)))\<rparr>"
  using assms unfolding AcceptedFact_def Let_def review_key
  by (simp_all split: if_split_asm option.split_asm)

lemma AcceptedFact_findings:
  assumes "AcceptedFact rv c = Inr (f, d)"
  shows "distinct (map fi_ReviewerID (rc_Findings c))"
    "\<forall>x \<in> set (rc_Findings c). fi_Resolution x = fi_Resolution (rc_Findings c ! 0)"
    "\<forall>x \<in> set (rc_Findings c). permitted_finding c x"
  using AcceptedFact_guards(5) [OF assms] by (simp_all only: findings_loop_iff permitted_finding_def) blast+

lemma review_token: "hex64 d \<Longrightarrow> validToken (''review:'' @ d) 128"
proof -
  assume d: "hex64 d"
  have "token_char c" if "is_hex_lower c" for c
    using that order.trans [of c "CHR ''f''" "CHR ''z''"] by (auto simp: token_char_def is_hex_lower_def is_lower_def)
  then show ?thesis
    using d by (auto simp: validToken_def hex64_def list_all_iff) (simp_all add: token_simps)
qed

lemma accepted_reason:
  assumes "AcceptedFact rv c = Inr (f, d)" "x \<in> set (rc_Findings c)"
  shows "validToken (fi_ReasonCode x) 100 \<longleftrightarrow> length (fi_ReasonCode x) \<le> 100"
proof -
  have "\<lparr>pf_Resolution = fi_Resolution x, pf_ReasonCode = fi_ReasonCode x\<rparr> \<in> set (rc_PermittedFindings c)"
    using AcceptedFact_findings(3) [OF assms(1)] assms(2) by (simp add: permitted_finding_def)
  moreover have "ValidateFindingRules (rc_PermittedFindings c) = None"
    using AcceptedFact_guards(1) [OF assms(1)] by (simp add: case_Validate_None)
  ultimately have "pattern is_lower token_char 127 (fi_ReasonCode x)"
    by (auto simp: ValidateFindingRules_def list_all_iff split: if_splits)
  then show ?thesis by (cases "fi_ReasonCode x") (auto simp: validToken_def)
qed


lemma accepted_fact_valid:
  assumes "AcceptedFact rv c = Inr (f, d)" "hex64 d" "ValidTime (rc_UpdatedAt c)" "\<not> Before t (rc_UpdatedAt c)"
  shows "validateFact f t = (if \<forall>x \<in> set (rc_Findings c). length (fi_ReasonCode x) \<le> 100 then Inr f else Inl policy_error.ErrInvalid)"
proof -
  note g = AcceptedFact_guards [OF assms(1)]
  let ?rs = "map fi_ReasonCode (rc_Findings c)"
  have len: "length (compact (sort ?rs)) \<le> MaximumReasonsPerItem"
    using g(7) length_compact [of "sort ?rs"] by (simp add: MaximumReasonsPerItem_def)
  have "sorted (compact (sort ?rs)) \<and> distinct (compact (sort ?rs))" by (rule sorted_compact) simp
  then have "canonicalTokens (compact (sort ?rs)) =
      (if \<forall>x \<in> set (rc_Findings c). length (fi_ReasonCode x) \<le> 100 then Inr (compact (sort ?rs)) else Inl policy_error.ErrInvalid)"
    using accepted_reason [OF assms(1)]
    by (auto simp: canonicalTokens_def list_all_iff adjacent_dup_sorted sorted_sort_id)
  moreover have "validRequirementState (fa_State f)"
    by (simp add: g(8) validRequirementState_def FindingState_def split: resolution.splits)
  moreover have "validateSource (fa_Source f) = Inr (fa_Source f)"
    using review_token [OF assms(2)] by (simp add: g(8) validateSource_def count_set_def)
  ultimately show ?thesis
    using assms(3,4) len
    by (simp add: validateFact_def review_key g(8) expiry_error_def validUTC_def ValidTime_def Before_def After_def)
qed

text \<open>A fact that was valid as it stands, and is valid at another time, is unchanged by it.\<close>

lemma validateFact_retime: "validateFact x t = Inr x \<Longrightarrow> validateFact x t' = Inr w \<Longrightarrow> w = x"
proof -
  assume a: "validateFact x t = Inr x" "validateFact x t' = Inr w"
  from a(1) obtain rs sr where "canonicalTokens (fa_ReasonCodes x) = Inr rs" "validateSource (fa_Source x) = Inr sr"
    "x = x\<lparr>fa_Source := sr, fa_ReasonCodes := rs\<rparr>" unfolding validateFact_Inr by blast
  moreover from a(2) obtain rs' sr' where "canonicalTokens (fa_ReasonCodes x) = Inr rs'" "validateSource (fa_Source x) = Inr sr'"
    "w = x\<lparr>fa_Source := sr', fa_ReasonCodes := rs'\<rparr>" unfolding validateFact_Inr by blast
  ultimately show ?thesis by simp
qed

lemma accepted_fact_stable:
  assumes "AcceptedFact rv c = Inr (f, d)" "validateFact f t = Inr w"
  shows "w = f"
proof -
  note g = AcceptedFact_guards [OF assms(1)]
  obtain rs sr where v: "canonicalTokens (fa_ReasonCodes f) = Inr rs" "validateSource (fa_Source f) = Inr sr"
    "w = f\<lparr>fa_Source := sr, fa_ReasonCodes := rs\<rparr>" using assms(2) unfolding validateFact_Inr by blast
  have "sorted (fa_ReasonCodes f)"
    using sorted_compact [of "sort (map fi_ReasonCode (rc_Findings c))"] by (simp add: g(8))
  then have "rs = fa_ReasonCodes f" using v(1) by (simp add: canonicalTokens_Inr sorted_sort_id)
  moreover have "sr = fa_Source f" using validateSource_cases [OF v(2)] by (auto simp: g(8))
  ultimately show ?thesis using v(3) by simp
qed

lemma snapshot_facts_valid:
  assumes "NewSnapshot pc input = Inr s" "x \<in> set (sn_facts s)"
  shows "validateFact x (sn_evaluatedAt s) = Inr x"
proof -
  obtain vs where fl: "facts_loop (si_EvaluatedAt input) 0 (si_Facts input) = Inr vs"
    and s: "sn_facts s = sort_key fa_Key vs" "sn_evaluatedAt s = si_EvaluatedAt input"
    using assms(1) by (auto elim!: NewSnapshot_Inr)
  then have "traverse (\<lambda>f. validateFact f (sn_evaluatedAt s)) (si_Facts input) = Inr vs" "x \<in> set vs"
    using assms(2) by (simp_all add: facts_loop_Inr)
  then show ?thesis using traverse_memberE validateFact_idem by metis
qed

section \<open>A small case\<close>

definition sample_reviewer :: "string \<Rightarrow> Principal" where
  "sample_reviewer i = \<lparr>p_ID = i, p_Permissions = [PermissionClaim, PermissionFind, PermissionAppeal], p_Certifications = [''cert'']\<rparr>"

definition sample_finding :: "string \<Rightarrow> string \<Rightarrow> string \<Rightarrow> go_time \<Rightarrow> Finding" where
  "sample_finding i reviewer reason t = \<lparr>fi_ID = i, fi_ReviewerID = reviewer, fi_Resolution = ResolutionSatisfy,
     fi_ReasonCode = reason, fi_GrantIDs = [''g''], fi_RecordedAt = t\<rparr>"

definition sample_grant :: "string \<Rightarrow> EvidenceGrant" where
  "sample_grant reviewer = \<lparr>eg_ID = ''g'', eg_ReviewerID = reviewer, eg_Region = ''eu'', eg_ExpiresAt = utc_at 90000,
     eg_RevokedAt = time_zero\<rparr>"

text \<open>A resolved dual case over a reason code \<open>x\<close>, both reviewers agreeing.\<close>

definition sample_case :: "string \<Rightarrow> Case" where
  "sample_case x = \<lparr>rc_ID = ''c'', rc_VerificationID = ''v'', rc_ChallengedDecision = [], rc_RoutingRequest = ''d'',
     rc_SupersedesDecision = [], rc_Region = ''eu'', rc_RequiredCertificate = ''cert'', rc_Oversight = OversightDual,
     rc_State = CaseResolved, rc_AssignedReviewer = [],
     rc_Findings = [sample_finding ''f1'' ''r1'' x (utc_at 5000), sample_finding ''f2'' ''r2'' x (utc_at 6000)],
     rc_PermittedFindings = [\<lparr>pf_Resolution = ResolutionSatisfy, pf_ReasonCode = x\<rparr>],
     rc_Version = 4, rc_CreatedAt = utc_at 3000, rc_UpdatedAt = utc_at 6000\<rparr>"

lemma sample_case_reachable:
  assumes "pattern is_lower token_char 127 x"
  shows "reachable_case (sample_case x)"
proof -
  let ?rules = "[\<lparr>pf_Resolution = ResolutionSatisfy, pf_ReasonCode = x\<rparr>]"
  let ?open = "\<lparr>rc_ID = ''c'', rc_VerificationID = ''v'', rc_ChallengedDecision = [], rc_RoutingRequest = ''d'',
     rc_SupersedesDecision = [], rc_Region = ''eu'', rc_RequiredCertificate = ''cert'', rc_Oversight = OversightDual,
     rc_State = CaseOpen, rc_AssignedReviewer = [], rc_Findings = [], rc_PermittedFindings = [],
     rc_Version = 1, rc_CreatedAt = utc_at 3000, rc_UpdatedAt = utc_at 3000\<rparr>"
  let ?cmds = "[CmdClaim (sample_reviewer ''r1'') 1 (utc_at 4000),
     CmdSubmit (sample_reviewer ''r1'') (sample_finding ''f1'' ''r1'' x (utc_at 5000)) [sample_grant ''r1''] 2,
     CmdSubmit (sample_reviewer ''r2'') (sample_finding ''f2'' ''r2'' x (utc_at 6000)) [sample_grant ''r2''] 3]"
  have rules: "ValidateFindingRules ?rules = None" "bounded x 128" "ValidateFindingRules [] = None"
    using assms pattern_length [OF assms] by (auto simp: ValidateFindingRules_def validResolution_def bounded_def)
  have "NewRoutedCase ''c'' ''v'' ''d'' ''eu'' ''cert'' OversightDual (utc_at 3000) = Inr ?open"
  proof -
    have "case_Validate ?open = None" by (simp add: case_Validate_None rules(3) bounded_def go_time_simps)
    then show ?thesis by (simp add: NewRoutedCase_def new_case_def Let_def)
  qed
  then have start: "reachable_case (pin_findings ?open ?rules)" using rules(1) by (rule routed)
  have run: "run_all apply_case ?cmds (pin_findings ?open ?rules) = Inr (sample_case x)"
    using rules by (simp add: pin_findings_def Claim_def SubmitFinding_def case_Validate_None sample_reviewer_def permits_def
        sample_finding_def sample_grant_def grant_covers_def go_time_simps validResolution_def bounded_def ValidTime_def
        time_zero_def i64_def sample_case_def)
  show ?thesis using run start by (rule run_all_invariant) (rule applied)
qed

definition sample_review :: review_codec where
  "sample_review = \<lparr>rv_policy = sample_codec, rv_sha256 = (\<lambda>b. replicate 32 (CHR ''0'')),
     rv_digest = (\<lambda>i v fs. Some zero_digest)\<rparr>"

definition sample_routing :: Routing where
  "sample_routing = \<lparr>rt_DecisionID = ''d'', rt_snapshot = sample_snapshot\<lparr>sn_context := None\<rparr>\<rparr>"

lemma sample_fact_valid:
  "k \<in> {''a.x'', ''b.y''} \<Longrightarrow> 1000 \<le> n \<Longrightarrow> validateFact (sample_fact k) (utc_at n) = Inr (sample_fact k)"
  by (auto simp: validateFact_def sample_keys sample_fact_def validRequirementState_def validUTC_def go_time_simps
      expiry_error_def canonicalTokens_def validateSource_def count_set_def MaximumReasonsPerItem_def)

lemma sample_plain_snapshot:
  assumes "t = utc_at n" "1000 \<le> n" "traverse (\<lambda>x. validateFact x t) fs = Inr fs" "sort_key fa_Key fs = gs" "fs \<noteq> []"
    "length fs \<le> 128" "sum_list (map (\<lambda>v. length (fa_ReasonCodes v)) fs) \<le> 256" "duplicate_fact gs = None"
  shows "NewSnapshot sample_codec (sample_input\<lparr>si_Context := None, si_EvaluatedAt := t, si_Facts := fs\<rparr>) =
    Inr (sample_snapshot\<lparr>sn_context := None, sn_evaluatedAt := t, sn_facts := gs\<rparr>)"
proof -
  have "Reference_validate (si_Policy sample_input) = None" "EvaluatorReference_validate (si_Evaluator sample_input) = None"
    by (simp_all add: sample_input_def Reference_validate_def EvaluatorReference_validate_def SnapshotSchemaMajor_def
        SnapshotSchemaMinor_def)
  moreover have "facts_loop t 0 fs = Inr fs"
    using assms(3,7) by (simp add: facts_loop_Inr MaximumSnapshotReasons_def)
  ultimately show ?thesis
    using assms
    by (simp add: NewSnapshot_def bindSnapshotContext_def canonicalDecisionContext_def validUTC_def IsZero_def MaximumFacts_def)
       (simp add: sample_input_def sample_snapshot_def sample_codec_def validToken_def token_simps)
qed

definition sample_appeal :: Appeal where
  "sample_appeal = \<lparr>al_ID = ''a'', al_CaseID = ''c'', al_ChallengedDecision = ''d'', al_OriginalReviewers = [''r1'', ''r2''],
     al_AssignedReviewer = [], al_State = AppealRequested, al_Outcome = AppealOutcomeOther [], al_ReasonCode = [],
     al_SupersedingDecision = [], al_Deadline = utc_at 9000, al_Version = 1\<rparr>"

section \<open>Properties\<close>



text \<open>
  Every resolved routed case yields a fact: its state is that of the agreed resolution, and
  policy accepts it at the time of the case, unless a reason code is longer than the 100 bytes
  that policy allows (review allows 128), in which case policy refuses it.
\<close>

theorem review_fact_accepted:
  assumes "reachable_case c" and "rc_State c = CaseResolved" and "rc_RoutingRequest c \<noteq> []" and "1 \<le> rc_Version c"
    and "\<And>i v fs. \<exists>d. rv_digest rv i v fs = Some d \<and> hex64 d"
  shows "\<exists>f d. AcceptedFact rv c = Inr (f, d) \<and>
    (\<forall>x \<in> set (rc_Findings c). fa_State f = FindingState (fi_Resolution x)) \<and>
    validateFact f (rc_UpdatedAt c) = (if \<forall>x \<in> set (rc_Findings c). length (fi_ReasonCode x) \<le> 100
                                       then Inr f else Inl policy_error.ErrInvalid)"
proof -
  note inv = reachable_case_inv [OF assms(1)]
  have v: "case_Validate c = None" using inv assms(4) by (simp add: case_inv_def)
  have fs: "distinct (map fi_ReviewerID (rc_Findings c))" "length (rc_Findings c) = (if rc_Oversight c = OversightDual then 2 else 1)"
    "\<forall>x \<in> set (rc_Findings c). fi_Resolution x = fi_Resolution (rc_Findings c ! 0)"
    using inv assms(2) by (auto simp: case_inv_def findings_match_def split: if_splits)
  then have ne: "rc_Findings c \<noteq> []" by (auto split: if_splits)
  have r: "\<forall>x \<in> set (rc_Findings c). permitted_finding c x \<and> ValidTime (fi_RecordedAt x)"
    "rc_UpdatedAt c = fi_RecordedAt (last (rc_Findings c))"
    using inv assms(3) ne by (auto simp: case_inv_def routed_findings_def)
  have t: "ValidTime (rc_UpdatedAt c)" using r ne by simp
  obtain d where d: "rv_digest rv (rc_ID c) (rc_Version c) (sort_key fr_ID (map finding_reference (rc_Findings c))) = Some d" "hex64 d"
    using assms(5) by blast
  have "findings_loop (rc_PermittedFindings c) (fi_Resolution (rc_Findings c ! 0)) {} (rc_Findings c)"
    unfolding findings_loop_iff using fs(1,3) r(1) by (simp add: permitted_finding_def)
  then obtain f where f: "AcceptedFact rv c = Inr (f, d)"
    using v assms(2,3) ne fs(2) d by (simp add: AcceptedFact_def Let_def review_key)
  have "\<forall>x \<in> set (rc_Findings c). fa_State f = FindingState (fi_Resolution x)"
    using AcceptedFact_guards(8) [OF f] AcceptedFact_findings(2) [OF f] by simp
  moreover note accepted_fact_valid [OF f d(2) t, of "rc_UpdatedAt c"]
  ultimately show ?thesis using f by (simp add: Before_def)
qed

theorem review_fact_accepted_witness:
  "\<exists>f d. AcceptedFact sample_review (sample_case (replicate 101 (CHR ''a''))) = Inr (f, d) \<and>
     validateFact f (utc_at 6000) = Inl policy_error.ErrInvalid"
proof -
  have r: "reachable_case (sample_case (replicate 101 (CHR ''a'')))"
    by (rule sample_case_reachable) (simp add: token_simps numeral_eq_Suc)
  have c: "rc_State (sample_case x) = CaseResolved" "rc_RoutingRequest (sample_case x) \<noteq> []" "1 \<le> rc_Version (sample_case x)"
    "rc_UpdatedAt (sample_case x) = utc_at 6000"
    "\<not> (\<forall>y \<in> set (rc_Findings (sample_case (replicate 101 (CHR ''a'')))). length (fi_ReasonCode y) \<le> 100)" for x
    by (simp_all add: sample_case_def sample_finding_def)
  have "\<exists>d. rv_digest sample_review i v fs = Some d \<and> hex64 d" for i v fs
    using zero_digest_valid by (simp add: sample_review_def validDigest_def)
  from review_fact_accepted [OF r c(1-3) this] c(4,5) show ?thesis by auto
qed

text \<open>
  Review adds one fact and changes nothing else: the snapshot of a reviewed case has the
  policy, evaluator, tenant, authority and region of the routed snapshot, its facts unchanged, and
  one new fact under a key that was not there, and is evaluated at the time of the last finding.
\<close>

theorem review_snapshot_preserves:
  assumes "NewSnapshot pc input = Inr (rt_snapshot routing)" and "review_snapshot rv c routing = Inr (s, d)"
  shows "\<exists>f. AcceptedFact rv c = Inr (f, d) \<and> fa_Key f \<notin> fa_Key ` set (sn_facts (rt_snapshot routing)) \<and>
    sn_facts s = sort_key fa_Key (sn_facts (rt_snapshot routing) @ [f]) \<and> sn_evaluatedAt s = rc_UpdatedAt c \<and>
    sn_policy s = sn_policy (rt_snapshot routing) \<and> sn_evaluator s = sn_evaluator (rt_snapshot routing) \<and>
    sn_tenantID s = sn_tenantID (rt_snapshot routing) \<and> sn_verificationID s = rc_VerificationID c \<and>
    sn_authorityID s = sn_authorityID (rt_snapshot routing) \<and> sn_region s = sn_region (rt_snapshot routing)"
proof -
  let ?o = "rt_snapshot routing"
  obtain f where f: "AcceptedFact rv c = Inr (f, d)"
    and keys: "\<not> list_ex (\<lambda>prior. fa_Key prior = fa_Key f) (sn_facts ?o)" "rc_VerificationID c = sn_verificationID ?o"
    and new: "\<exists>cx. NewSnapshot (rv_policy rv) ((snapshotInput (rv_policy rv) ?o)\<lparr>si_Context := cx,
        si_EvaluatedAt := rc_UpdatedAt c, si_Facts := sn_facts ?o @ [f]\<rparr>) = Inr s"
    using assms(2) unfolding review_snapshot_def Let_def
    by (auto split: sum.split_asm prod.split_asm if_split_asm)
  then obtain cx where n: "NewSnapshot (rv_policy rv) ((snapshotInput (rv_policy rv) ?o)\<lparr>si_Context := cx,
        si_EvaluatedAt := rc_UpdatedAt c, si_Facts := sn_facts ?o @ [f]\<rparr>) = Inr s" by blast
  obtain vs where fl: "facts_loop (rc_UpdatedAt c) 0 (sn_facts ?o @ [f]) = Inr vs"
    and s: "sn_facts s = sort_key fa_Key vs" "sn_evaluatedAt s = rc_UpdatedAt c" "sn_policy s = sn_policy ?o"
      "sn_evaluator s = sn_evaluator ?o" "sn_tenantID s = sn_tenantID ?o" "sn_verificationID s = sn_verificationID ?o"
      "sn_authorityID s = sn_authorityID ?o" "sn_region s = sn_region ?o"
    using n by (auto simp: snapshotInput_def elim!: NewSnapshot_Inr)
  have tr: "traverse (\<lambda>x. validateFact x (rc_UpdatedAt c)) (sn_facts ?o @ [f]) = Inr vs"
    using fl by (simp add: facts_loop_Inr)
  have "map id vs = map id (sn_facts ?o @ [f])"
  proof (rule traverse_map_on [OF tr])
    fix x w assume x: "x \<in> set (sn_facts ?o @ [f])" "validateFact x (rc_UpdatedAt c) = Inr w"
    show "id w = id x"
    proof (cases "x = f")
      case False
      then have "x \<in> set (sn_facts ?o)" using x(1) by simp
      from validateFact_retime [OF snapshot_facts_valid [OF assms(1) this] x(2)] show ?thesis by simp
    qed (use accepted_fact_stable [OF f] x(2) in simp)
  qed
  then have "vs = sn_facts ?o @ [f]" by simp
  moreover have "fa_Key f \<notin> fa_Key ` set (sn_facts ?o)" using keys(1) by (auto simp: list_ex_iff)
  ultimately show ?thesis using f s keys(2) by (intro exI [of _ f]) simp
qed

theorem review_snapshot_preserves_witness:
  "\<exists>s d. review_snapshot sample_review (sample_case ''ok'') sample_routing = Inr (s, d) \<and> length (sn_facts s) = 3"
proof -
  let ?c = "sample_case ''ok''" let ?fs = "[sample_fact ''a.x'', sample_fact ''b.y'']"
  have r: "reachable_case ?c" by (rule sample_case_reachable) (simp add: token_simps)
  have c: "rc_State ?c = CaseResolved" "rc_RoutingRequest ?c = ''d''" "1 \<le> rc_Version ?c" "rc_UpdatedAt ?c = utc_at 6000"
    "rc_VerificationID ?c = ''v''" "length (rc_Findings ?c) = 2"
    "\<forall>y \<in> set (rc_Findings ?c). length (fi_ReasonCode y) \<le> 100" "map fi_ReasonCode (rc_Findings ?c) = [''ok'', ''ok'']"
    by (simp_all add: sample_case_def sample_finding_def)
  have dig: "rv_digest sample_review i v fs = Some zero_digest" "hex64 zero_digest" for i v fs
    using zero_digest_valid by (simp_all add: sample_review_def validDigest_def)
  have fl: "findings_loop (rc_PermittedFindings ?c) (fi_Resolution (rc_Findings ?c ! 0)) {} (rc_Findings ?c)"
    by (simp add: sample_case_def sample_finding_def)
  have "case_Validate ?c = None" "length (rc_Findings ?c) = (if rc_Oversight ?c = OversightDual then 2 else 1)"
    "rc_Findings ?c \<noteq> []"
    using reachable_case_inv [OF r] by (simp_all add: case_inv_def sample_case_def)
  then obtain f where f: "AcceptedFact sample_review ?c = Inr (f, zero_digest)"
    using c(1,2) fl dig(1) by (simp add: AcceptedFact_def Let_def review_key)
  have fk: "fa_Key f = ''review.resolution''" "fa_ReasonCodes f = [''ok'']"
    using AcceptedFact_guards(8) [OF f] c(8) by simp_all
  have fv: "validateFact f (utc_at 6000) = Inr f"
    using accepted_fact_valid [OF f dig(2), of "utc_at 6000"] c(4,7) by (simp add: ValidTime_def go_time_simps)
  let ?gs = "[sample_fact ''a.x'', sample_fact ''b.y'', f]"
  have sorted: "sort_key fa_Key ?fs = ?fs" "sort_key fa_Key ?gs = ?gs"
    by (rule sort_key_id, simp add: sample_fact_def fk)+
  have o: "NewSnapshot sample_codec (sample_input\<lparr>si_Context := None, si_EvaluatedAt := utc_at 2000, si_Facts := ?fs\<rparr>) =
      Inr (rt_snapshot sample_routing)"
    using sample_plain_snapshot [OF refl _ _ sorted(1), of 2000] sample_fact_valid
    by (simp add: sample_routing_def sample_snapshot_def) (simp add: sample_fact_def)
  have n: "NewSnapshot sample_codec (sample_input\<lparr>si_Context := None, si_EvaluatedAt := utc_at 6000, si_Facts := ?gs\<rparr>) =
      Inr (sample_snapshot\<lparr>sn_context := None, sn_evaluatedAt := utc_at 6000, sn_facts := ?gs\<rparr>)"
    using sample_plain_snapshot [OF refl _ _ sorted(2), of 6000] sample_fact_valid fv fk by (simp add: sample_fact_def)
  have i: "(snapshotInput sample_codec (rt_snapshot sample_routing))\<lparr>si_Context := None,
       si_EvaluatedAt := utc_at 6000, si_Facts := ?gs\<rparr> =
     sample_input\<lparr>si_Context := None, si_EvaluatedAt := utc_at 6000, si_Facts := ?gs\<rparr>"
    by (simp add: snapshotInput_def sample_routing_def sample_snapshot_def sample_input_def)
  have proj: "rt_DecisionID sample_routing = ''d''" "sn_verificationID (rt_snapshot sample_routing) = ''v''"
    "sn_evaluatedAt (rt_snapshot sample_routing) = utc_at 2000" "sn_facts (rt_snapshot sample_routing) = ?fs"
    "sn_context (rt_snapshot sample_routing) = None" "rv_policy sample_review = sample_codec" "fa_Key (sample_fact k) = k" for k
    by (simp_all add: sample_routing_def sample_snapshot_def sample_review_def sample_fact_def)
  have "review_snapshot sample_review ?c sample_routing =
      Inr (sample_snapshot\<lparr>sn_context := None, sn_evaluatedAt := utc_at 6000, sn_facts := ?gs\<rparr>, zero_digest)"
    using n i f c(2,4,5) proj
    by (simp add: review_snapshot_def snapshot_Context_def canonicalDecisionContext_def go_time_simps fk)
  then obtain s where s: "review_snapshot sample_review ?c sample_routing = Inr (s, zero_digest)" by blast
  from review_snapshot_preserves [OF o s] obtain g where
    "sn_facts s = sort_key fa_Key (sn_facts (rt_snapshot sample_routing) @ [g])" by blast
  then have "length (sn_facts s) = 3" by (simp add: proj(4))
  with s show ?thesis by blast
qed

text \<open>
  Independent appeals: whatever sequence of assignments and resolutions an appeal goes
  through, its reviewer is not one of the original reviewers, and a resolved appeal names a
  superseding decision, different from the challenged one, exactly when it is overturned.
\<close>

theorem appeal_independent:
  assumes "al_State a = AppealRequested" and "run_all apply_appeal cmds a = Inr b" and "cmds \<noteq> []"
  shows "al_AssignedReviewer b \<noteq> [] \<and> al_AssignedReviewer b \<notin> set (al_OriginalReviewers b) \<and>
    al_OriginalReviewers b = al_OriginalReviewers a \<and>
    (al_State b = AppealResolved \<longrightarrow> al_SupersedingDecision b \<noteq> al_ChallengedDecision b \<and>
       (al_Outcome b = AppealOverturned \<longleftrightarrow> al_SupersedingDecision b \<noteq> []))"
proof -
  let ?P = "\<lambda>b. al_OriginalReviewers b = al_OriginalReviewers a \<and> al_ChallengedDecision b = al_ChallengedDecision a \<and>
    (al_State b = AppealRequested \<or> al_AssignedReviewer b \<noteq> [] \<and> al_AssignedReviewer b \<notin> set (al_OriginalReviewers b) \<and>
     (al_State b = AppealResolved \<longrightarrow> al_SupersedingDecision b \<noteq> al_ChallengedDecision b \<and>
       (al_Outcome b = AppealOverturned \<longleftrightarrow> al_SupersedingDecision b \<noteq> [])))"
  have "?P b" using assms(2)
  proof (rule run_all_invariant)
    fix cmd x y assume "?P x" "apply_appeal cmd x = Inr y"
    then show "?P y"
      by (cases cmd) (auto simp: appeal_Assign_def appeal_Resolve_def permits_def split: if_split_asm)
  qed (use assms(1) in simp)
  moreover have "al_State b \<noteq> AppealRequested"
  proof -
    obtain cs cmd where "cmds = cs @ [cmd]" using assms(3) by (metis rev_exhaust)
    then obtain x where "apply_appeal cmd x = Inr b" using assms(2) by (auto simp: run_all_append split: sum.splits)
    then show ?thesis using apply_appeal_Inr by (fastforce simp: appeal_edge_def)
  qed
  ultimately show ?thesis by auto
qed

theorem appeal_independent_witness:
  "\<exists>b. run_all apply_appeal [CmdAssign (sample_reviewer ''r3'') 1 (utc_at 4000),
       CmdResolve (sample_reviewer ''r3'') AppealOverturned ''error'' ''e'' 2 (utc_at 5000)] sample_appeal = Inr b \<and>
     al_AssignedReviewer b \<notin> {''r1'', ''r2''} \<and> al_SupersedingDecision b \<noteq> []"
proof -
  let ?cmds = "[CmdAssign (sample_reviewer ''r3'') 1 (utc_at 4000),
       CmdResolve (sample_reviewer ''r3'') AppealOverturned ''error'' ''e'' 2 (utc_at 5000)]"
  obtain b where b: "run_all apply_appeal ?cmds sample_appeal = Inr b"
    and o: "al_State b = AppealResolved" "al_Outcome b = AppealOverturned" "al_OriginalReviewers b = [''r1'', ''r2'']"
    by (simp add: appeal_Assign_def appeal_Resolve_def sample_appeal_def sample_reviewer_def permits_def go_time_simps
        bounded_def i64_def)
  have "al_State sample_appeal = AppealRequested" by (simp add: sample_appeal_def)
  from appeal_independent [OF this b] b o show ?thesis by auto
qed

end
