(* ===== verification/Privacy_Deletion.thy ===== *)
theory Privacy_Deletion
  imports Aggregate_Contracts "HOL-Library.Product_Lexorder"
begin

text \<open>
  \<^verbatim>\<open>internal/privacy/lifecycle.go\<close>, the loop \<^verbatim>\<open>Service.Run\<close> of \<^verbatim>\<open>service.go\<close> and the guards of
  \<^verbatim>\<open>Store.Save\<close> in \<^verbatim>\<open>postgres/store.go\<close>: retention resolution, legal holds and deletion
  workflows over exact target copies.

  Time durations are nanoseconds. In \<open>Run\<close>, the clock is the sequence of its answers, the
  eraser is a function of the target, and every repository write either commits or fails
  (\<open>commits\<close>), so a crash is a write that fails; what is stored is part of the result.
\<close>

section \<open>Vocabulary\<close>

datatype privacy_error = ErrInvalid | ErrHeld | ErrConflict | ErrUnavailable | ErrOther string

datatype data_class = DataClassRawEvidence | DataClassDerivedEvidence | DataClassWebhookPayload
  | DataClassWorkflowMetadata | DataClassAuditRecord | DataClassDeletionProof | DataClassBackup | DataClassOther string

definition token :: "string \<Rightarrow> nat \<Rightarrow> bool" where
  "token v m \<longleftrightarrow> v \<noteq> [] \<and> length v \<le> m \<and> list_all (\<lambda>c. CHR ''!'' \<le> c \<and> c \<le> CHR ''~'') v"

definition privacy_region :: "string \<Rightarrow> bool" where
  "privacy_region v \<longleftrightarrow> token v 63"

definition SelectedDefaults :: "data_class \<Rightarrow> duration option" where
  "SelectedDefaults c =
     (case c of DataClassRawEvidence \<Rightarrow> Some (30 * 24 * hour) | DataClassDerivedEvidence \<Rightarrow> Some (30 * 24 * hour)
      | DataClassWebhookPayload \<Rightarrow> Some (7 * 24 * hour) | DataClassWorkflowMetadata \<Rightarrow> Some (365 * 24 * hour)
      | DataClassAuditRecord \<Rightarrow> Some (7 * 365 * 24 * hour) | DataClassDeletionProof \<Rightarrow> Some (7 * 365 * 24 * hour)
      | DataClassBackup \<Rightarrow> Some (35 * 24 * hour) | DataClassOther _ \<Rightarrow> None)"

section \<open>Retention\<close>

record RetentionRule =
  rl_Authority :: string
  rl_Version :: string
  rl_Class :: data_class
  rl_Region :: string
  rl_Minimum :: duration
  rl_Maximum :: duration

record Retention =
  re_Class :: data_class
  re_Region :: string
  re_Duration :: duration
  re_ExpiresAt :: go_time
  re_Rules :: "RetentionRule list"

fun rules_loop :: "data_class \<Rightarrow> string \<Rightarrow> duration \<Rightarrow> duration \<Rightarrow> RetentionRule list \<Rightarrow> (duration \<times> duration) option" where
  "rules_loop class region minimum maximum [] = Some (minimum, maximum)"
| "rules_loop class region minimum maximum (r # rs) =
     (if rl_Authority r = [] \<or> rl_Version r = [] \<or> rl_Class r \<noteq> class \<or> rl_Region r \<noteq> region \<or>
         rl_Minimum r < 0 \<or> rl_Maximum r < 0 then None
      else rules_loop class region (max minimum (rl_Minimum r))
        (if rl_Maximum r > 0 \<and> (maximum = 0 \<or> rl_Maximum r < maximum) then rl_Maximum r else maximum) rs)"

definition retention_Resolve ::
  "data_class \<Rightarrow> string \<Rightarrow> go_time \<Rightarrow> duration \<Rightarrow> duration \<Rightarrow> RetentionRule list \<Rightarrow> privacy_error + Retention" where
  "retention_Resolve class region createdAt tenantRequested deploymentCap rules =
     (case SelectedDefaults class of None \<Rightarrow> Inl ErrInvalid
      | Some baseline \<Rightarrow>
        if \<not> privacy_region region \<or> IsZero createdAt \<or> \<not> t_utc createdAt then Inl ErrInvalid
        else if tenantRequested < 0 \<or> deploymentCap < 0 then Inl ErrInvalid
        else if tenantRequested > 0 \<and> tenantRequested > baseline \<and> (deploymentCap = 0 \<or> tenantRequested > deploymentCap)
        then Inl ErrInvalid
        else
          let selected = (if tenantRequested > 0 then tenantRequested else baseline) in
          case rules_loop class region 0 0 rules of None \<Rightarrow> Inl ErrInvalid
          | Some (minimum, maximum) \<Rightarrow>
            if maximum > 0 \<and> minimum > maximum then Inl ErrInvalid
            else
              let raised = max selected minimum;
                  chosen = (if maximum > 0 then min raised maximum else raised) in
              if chosen \<le> 0 then Inl ErrInvalid
              else Inr \<lparr>re_Class = class, re_Region = region, re_Duration = chosen, re_ExpiresAt = Add createdAt chosen,
                        re_Rules = sort_key (\<lambda>r. (rl_Authority r, rl_Version r)) rules\<rparr>)"

section \<open>Holds and deletions\<close>

record Hold =
  ho_CoveredAggregateID :: string
  ho_ID :: string
  ho_AggregateID :: string
  ho_Authority :: string
  ho_Reason :: string
  ho_StartsAt :: go_time
  ho_ReviewAt :: go_time
  ho_ReleasedAt :: go_time

definition hold_Validate :: "Hold \<Rightarrow> privacy_error option" where
  "hold_Validate h =
     (if ho_ID h = [] \<or> \<not> token (ho_AggregateID h) 200 \<or> \<not> token (ho_Authority h) 128 \<or> \<not> token (ho_Reason h) 256 \<or>
         IsZero (ho_StartsAt h) \<or> \<not> t_utc (ho_StartsAt h) \<or> \<not> After (ho_ReviewAt h) (ho_StartsAt h) \<or>
         \<not> t_utc (ho_ReviewAt h) \<or>
         (\<not> IsZero (ho_ReleasedAt h) \<and> (\<not> t_utc (ho_ReleasedAt h) \<or> Before (ho_ReleasedAt h) (ho_StartsAt h)))
      then Some ErrInvalid else None)"

definition ActiveAt :: "Hold \<Rightarrow> go_time \<Rightarrow> bool" where
  "ActiveAt h t \<longleftrightarrow> hold_Validate h = None \<and> \<not> Before t (ho_StartsAt h) \<and>
     (IsZero (ho_ReleasedAt h) \<or> Before t (ho_ReleasedAt h))"

datatype deletion_state = DeletionRequested | DeletionBlockedByLegalHold | DeletionInProgress
  | DeletionAwaitingBackup | DeletionCompleted | DeletionFailed | DeletionStateOther string

record Target =
  tg_Kind :: string
  tg_Reference :: string
  tg_Region :: string
  tg_DeletedAt :: go_time
  tg_Attempts :: nat
  tg_LastFailureClass :: string

record Deletion =
  dl_BackupRetention :: duration
  dl_ID :: string
  dl_AggregateID :: string
  dl_Region :: string
  dl_State :: deletion_state
  dl_Targets :: "Target list"
  dl_RequestedAt :: go_time
  dl_UpdatedAt :: go_time
  dl_BackupExpiresAt :: go_time
  dl_FailureClass :: string
  dl_Version :: int

text \<open>A target is keyed by kind and reference joined with a zero byte, which no token contains.\<close>

definition target_key :: "Target \<Rightarrow> string" where
  "target_key t = tg_Kind t @ CHR 0x00 # tg_Reference t"

definition deletion_Validate :: "Deletion \<Rightarrow> privacy_error option" where
  "deletion_Validate d =
     (if dl_BackupRetention d < 0 \<or> dl_BackupRetention d > the (SelectedDefaults DataClassBackup) \<or> dl_ID d = [] \<or>
         \<not> token (dl_AggregateID d) 200 \<or> \<not> privacy_region (dl_Region d) \<or> dl_Version d < 1 \<or>
         IsZero (dl_RequestedAt d) \<or> \<not> t_utc (dl_RequestedAt d) \<or> Before (dl_UpdatedAt d) (dl_RequestedAt d) \<or>
         \<not> t_utc (dl_UpdatedAt d) \<or> \<not> After (dl_BackupExpiresAt d) (dl_RequestedAt d) \<or>
         \<not> t_utc (dl_BackupExpiresAt d) \<or> dl_Targets d = [] \<or> length (dl_Targets d) > 256
      then Some ErrInvalid
      else if \<not> list_all (\<lambda>t. token (tg_Kind t) 64 \<and> token (tg_Reference t) 2048 \<and> tg_Region t = dl_Region d) (dl_Targets d) \<or>
         \<not> distinct (map target_key (dl_Targets d))
      then Some ErrInvalid else None)"

definition NewDeletion :: "string \<Rightarrow> string \<Rightarrow> string \<Rightarrow> Target list \<Rightarrow> go_time \<Rightarrow> go_time \<Rightarrow> privacy_error + Deletion" where
  "NewDeletion identifier aggregateID region targets requestedAt backupExpiresAt =
     (let d = \<lparr>dl_BackupRetention = 0, dl_ID = identifier, dl_AggregateID = aggregateID, dl_Region = region,
               dl_State = DeletionRequested, dl_Targets = targets, dl_RequestedAt = requestedAt, dl_UpdatedAt = requestedAt,
               dl_BackupExpiresAt = backupExpiresAt, dl_FailureClass = [], dl_Version = 1\<rparr>
      in if deletion_Validate d \<noteq> None then Inl ErrInvalid else Inr d)"

definition covers :: "Deletion \<Rightarrow> go_time \<Rightarrow> Hold \<Rightarrow> bool" where
  "covers d now h \<longleftrightarrow> (ho_AggregateID h = dl_AggregateID d \<or> ho_CoveredAggregateID h = dl_AggregateID d) \<and> ActiveAt h now"

text \<open>\<^verbatim>\<open>Begin\<close> returns the blocked workflow together with \<^verbatim>\<open>ErrHeld\<close>.\<close>

definition Begin :: "Deletion \<Rightarrow> go_time \<Rightarrow> Hold list \<Rightarrow> privacy_error + Deletion \<times> privacy_error option" where
  "Begin d now holds =
     (if deletion_Validate d \<noteq> None \<or> IsZero now \<or> \<not> t_utc now \<or> Before now (dl_UpdatedAt d) then Inl ErrInvalid
      else if dl_State d \<noteq> DeletionRequested \<and> dl_State d \<noteq> DeletionBlockedByLegalHold \<and> dl_State d \<noteq> DeletionFailed
      then Inl ErrConflict
      else
        let next = d\<lparr>dl_State := DeletionInProgress, dl_FailureClass := [], dl_UpdatedAt := now,
                     dl_Version := i64 (dl_Version d + 1)\<rparr> in
        if list_ex (covers d now) holds then Inr (next\<lparr>dl_State := DeletionBlockedByLegalHold\<rparr>, Some ErrHeld)
        else Inr (next, None))"

definition is_target :: "string \<Rightarrow> string \<Rightarrow> Target \<Rightarrow> bool" where
  "is_target kind reference t \<longleftrightarrow> tg_Kind t = kind \<and> tg_Reference t = reference"

text \<open>\<open>u16\<close>: the attempt counter is a \<^verbatim>\<open>uint16\<close>.\<close>

definition u16 :: "nat \<Rightarrow> nat" where
  "u16 n = n mod 65536"

fun mark_deleted ::
  "string \<Rightarrow> string \<Rightarrow> go_time \<Rightarrow> duration \<Rightarrow> Target list \<Rightarrow> go_time \<Rightarrow> Target list \<times> go_time" where
  "mark_deleted kind reference now retention [] backup = ([], backup)"
| "mark_deleted kind reference now retention (t # ts) backup =
     (let hit = is_target kind reference t \<and> IsZero (tg_DeletedAt t);
          t' = (if hit then t\<lparr>tg_DeletedAt := now, tg_Attempts := u16 (tg_Attempts t + 1), tg_LastFailureClass := []\<rparr> else t);
          backup' = (if hit \<and> retention > 0 \<and> After (Add now retention) backup then Add now retention else backup);
          (ts', backup'') = mark_deleted kind reference now retention ts backup'
      in (t' # ts', backup''))"

definition MarkTargetDeleted :: "Deletion \<Rightarrow> string \<Rightarrow> string \<Rightarrow> go_time \<Rightarrow> privacy_error + Deletion" where
  "MarkTargetDeleted d kind reference now =
     (if deletion_Validate d \<noteq> None \<or> dl_State d \<noteq> DeletionInProgress \<or> Before now (dl_UpdatedAt d) \<or> \<not> t_utc now
      then Inl ErrConflict
      else
        let (targets, backup) = mark_deleted kind reference now (dl_BackupRetention d) (dl_Targets d) (dl_BackupExpiresAt d) in
        if \<not> list_ex (is_target kind reference) (dl_Targets d) then Inl ErrInvalid
        else
          let next = d\<lparr>dl_Targets := targets, dl_BackupExpiresAt := backup, dl_UpdatedAt := now,
                       dl_Version := i64 (dl_Version d + 1)\<rparr> in
          Inr (if list_all (\<lambda>t. \<not> IsZero (tg_DeletedAt t)) targets then next\<lparr>dl_State := DeletionAwaitingBackup\<rparr> else next))"

definition mark_failed :: "string \<Rightarrow> string \<Rightarrow> string \<Rightarrow> Target \<Rightarrow> Target" where
  "mark_failed kind reference failureClass t =
     (if is_target kind reference t \<and> IsZero (tg_DeletedAt t)
      then t\<lparr>tg_Attempts := u16 (tg_Attempts t + 1), tg_LastFailureClass := failureClass\<rparr> else t)"

definition MarkTargetFailed :: "Deletion \<Rightarrow> string \<Rightarrow> string \<Rightarrow> string \<Rightarrow> go_time \<Rightarrow> privacy_error + Deletion" where
  "MarkTargetFailed d kind reference failureClass now =
     (if deletion_Validate d \<noteq> None \<or> dl_State d \<noteq> DeletionInProgress \<or> \<not> token failureClass 128 \<or>
         Before now (dl_UpdatedAt d) \<or> \<not> t_utc now
      then Inl ErrConflict
      else if \<not> list_ex (is_target kind reference) (dl_Targets d) then Inl ErrInvalid
      else Inr (d\<lparr>dl_Targets := map (mark_failed kind reference failureClass) (dl_Targets d),
                  dl_State := DeletionFailed, dl_FailureClass := failureClass, dl_UpdatedAt := now,
                  dl_Version := i64 (dl_Version d + 1)\<rparr>))"

definition deletion_Complete :: "Deletion \<Rightarrow> go_time \<Rightarrow> privacy_error + Deletion" where
  "deletion_Complete d now =
     (if deletion_Validate d \<noteq> None \<or> dl_State d \<noteq> DeletionAwaitingBackup \<or> Before now (dl_BackupExpiresAt d) \<or> \<not> t_utc now
      then Inl ErrConflict
      else Inr (d\<lparr>dl_State := DeletionCompleted, dl_UpdatedAt := now, dl_Version := i64 (dl_Version d + 1)\<rparr>))"

definition SuspendForHold :: "Deletion \<Rightarrow> go_time \<Rightarrow> privacy_error + Deletion" where
  "SuspendForHold d now =
     (if deletion_Validate d \<noteq> None \<or> dl_State d \<noteq> DeletionInProgress \<or> Before now (dl_UpdatedAt d) \<or> \<not> t_utc now
      then Inl ErrConflict
      else Inr (d\<lparr>dl_State := DeletionBlockedByLegalHold, dl_UpdatedAt := now, dl_Version := i64 (dl_Version d + 1)\<rparr>))"

section \<open>The run of a workflow\<close>

text \<open>\<^verbatim>\<open>Store.Save\<close>: its guards, and the update that is conditional on the stored version.\<close>

definition store_Save :: "bool \<Rightarrow> Deletion \<Rightarrow> Deletion option \<Rightarrow> int \<Rightarrow> privacy_error + Deletion" where
  "store_Save commits stored next expected =
     (case next of None \<Rightarrow> Inl ErrInvalid
      | Some d \<Rightarrow>
        if deletion_Validate d \<noteq> None \<or> expected < 1 \<or> dl_Version d \<noteq> i64 (expected + 1) then Inl ErrInvalid
        else if \<not> commits \<or> dl_Version stored \<noteq> expected then Inl ErrConflict
        else Inr d)"

datatype erased = Erased | ErasedHeld | ErasedFailed bool

text \<open>The flag of a failure is whether the context was cancelled or its deadline passed.\<close>

definition classifyFailure :: "bool \<Rightarrow> string" where
  "classifyFailure cancelled = (if cancelled then ''cancelled'' else ''target_unavailable'')"

text \<open>
  The loop over the targets that were open when it started. \<open>k\<close> counts the calls of the clock
  and of the repository. The result is what is stored at the end, and the error or the workflow
  that is returned.
\<close>

fun run_targets ::
  "(Target \<Rightarrow> erased) \<Rightarrow> (nat \<Rightarrow> go_time) \<Rightarrow> (nat \<Rightarrow> bool) \<Rightarrow> nat \<Rightarrow> Target list \<Rightarrow> Deletion \<Rightarrow>
   Deletion \<times> (privacy_error + Deletion)" where
  "run_targets eraser clock commits k [] d = (d, Inr d)"
| "run_targets eraser clock commits k (t # ts) d =
     (if \<not> IsZero (tg_DeletedAt t) then run_targets eraser clock commits k ts d
      else case eraser t of
        ErasedHeld \<Rightarrow>
          (case SuspendForHold d (clock k) of Inl e \<Rightarrow> (d, Inl e)
           | Inr paused \<Rightarrow>
             (case store_Save (commits k) d (Some paused) (dl_Version d) of Inl e \<Rightarrow> (d, Inl e)
              | Inr s \<Rightarrow> (s, Inl ErrHeld)))
      | ErasedFailed cancelled \<Rightarrow>
          (let failureClass = classifyFailure cancelled;
               failed = (case MarkTargetFailed d (tg_Kind t) (tg_Reference t) failureClass (clock k) of Inl _ \<Rightarrow> None | Inr f \<Rightarrow> Some f) in
           case store_Save (commits k) d failed (dl_Version d) of Inl e \<Rightarrow> (d, Inl e)
           | Inr s \<Rightarrow> (s, Inl (ErrOther failureClass)))
      | Erased \<Rightarrow>
          (case MarkTargetDeleted d (tg_Kind t) (tg_Reference t) (clock k) of Inl e \<Rightarrow> (d, Inl e)
           | Inr d' \<Rightarrow>
             (case store_Save (commits k) d (Some d') (dl_Version d) of Inl e \<Rightarrow> (d, Inl e)
              | Inr s \<Rightarrow> run_targets eraser clock commits (k + 1) ts s)))"

definition finish :: "(nat \<Rightarrow> go_time) \<Rightarrow> (nat \<Rightarrow> bool) \<Rightarrow> nat \<Rightarrow> go_time \<Rightarrow> Deletion \<Rightarrow> Deletion \<times> (privacy_error + Deletion)" where
  "finish clock commits k now d =
     (case deletion_Complete d now of Inl e \<Rightarrow> (d, Inl e)
      | Inr c \<Rightarrow> if commits k then (c, Inr c) else (d, Inl ErrConflict))"

definition Run ::
  "bool \<Rightarrow> (Target \<Rightarrow> erased) \<Rightarrow> Hold list \<Rightarrow> (nat \<Rightarrow> go_time) \<Rightarrow> (nat \<Rightarrow> bool) \<Rightarrow> Deletion \<Rightarrow> Deletion \<times> (privacy_error + Deletion)" where
  "Run permitted eraser holds clock commits stored =
     (if \<not> permitted then (stored, Inl ErrConflict)
      else if dl_State stored = DeletionCompleted then (stored, Inr stored)
      else if dl_State stored = DeletionAwaitingBackup
      then (if Before (clock 0) (dl_BackupExpiresAt stored) then (stored, Inr stored)
            else finish clock commits 0 (clock 0) stored)
      else
        let begun = Begin stored (clock 0) holds in
        case store_Save (commits 0) stored (case begun of Inl _ \<Rightarrow> None | Inr (d, _) \<Rightarrow> Some d) (dl_Version stored) of
          Inl e \<Rightarrow> (stored, Inl e)
        | Inr d \<Rightarrow>
          if (case begun of Inr (_, Some ErrHeld) \<Rightarrow> True | _ \<Rightarrow> False) then (d, Inl ErrHeld)
          else (case run_targets eraser clock commits 1 (dl_Targets d) d of
                  (s, Inl e) \<Rightarrow> (s, Inl e)
                | (s, Inr d') \<Rightarrow>
                  if Before (clock (length (dl_Targets d) + 1)) (dl_BackupExpiresAt d') then (s, Inr d')
                  else finish clock commits (length (dl_Targets d) + 1) (clock (length (dl_Targets d) + 2)) d'))"


section \<open>Commands and the workflow graph\<close>

datatype deletion_command = DelBegin go_time "Hold list" | DelDeleted string string go_time
  | DelFailed string string string go_time | DelSuspend go_time | DelComplete go_time

fun apply_deletion :: "deletion_command \<Rightarrow> Deletion \<Rightarrow> privacy_error + Deletion" where
  "apply_deletion (DelBegin now holds) d = (case Begin d now holds of Inl e \<Rightarrow> Inl e | Inr (d', _) \<Rightarrow> Inr d')"
| "apply_deletion (DelDeleted kind reference now) d = MarkTargetDeleted d kind reference now"
| "apply_deletion (DelFailed kind reference fc now) d = MarkTargetFailed d kind reference fc now"
| "apply_deletion (DelSuspend now) d = SuspendForHold d now"
| "apply_deletion (DelComplete now) d = deletion_Complete d now"

definition deletion_edge :: "deletion_state \<Rightarrow> deletion_state \<Rightarrow> bool" where
  "deletion_edge s t \<longleftrightarrow>
     (s \<in> {DeletionRequested, DeletionBlockedByLegalHold, DeletionFailed} \<and> t \<in> {DeletionInProgress, DeletionBlockedByLegalHold}) \<or>
     (s = DeletionInProgress \<and> t \<in> {DeletionInProgress, DeletionAwaitingBackup, DeletionFailed, DeletionBlockedByLegalHold}) \<or>
     (s = DeletionAwaitingBackup \<and> t = DeletionCompleted)"

definition deleted_target :: "string \<Rightarrow> string \<Rightarrow> go_time \<Rightarrow> Target \<Rightarrow> Target" where
  "deleted_target kind reference now t =
     (if is_target kind reference t \<and> IsZero (tg_DeletedAt t)
      then t\<lparr>tg_DeletedAt := now, tg_Attempts := u16 (tg_Attempts t + 1), tg_LastFailureClass := []\<rparr> else t)"

lemma mark_deleted_targets: "fst (mark_deleted kind reference now r ts b) = map (deleted_target kind reference now) ts"
  by (induction ts arbitrary: b) (auto simp: Let_def split_beta deleted_target_def)

lemma mark_deleted_backup:
  "t_ns b \<le> t_ns (snd (mark_deleted kind reference now r ts b)) \<and>
   (r > 0 \<longrightarrow> (\<exists>t \<in> set ts. is_target kind reference t \<and> IsZero (tg_DeletedAt t)) \<longrightarrow>
     t_ns now + r \<le> t_ns (snd (mark_deleted kind reference now r ts b)))"
proof (induction ts arbitrary: b)
  case (Cons t ts)
  let ?b = "if (is_target kind reference t \<and> IsZero (tg_DeletedAt t)) \<and> r > 0 \<and> After (Add now r) b then Add now r else b"
  have step: "snd (mark_deleted kind reference now r (t # ts) b) = snd (mark_deleted kind reference now r ts ?b)"
    by (simp add: Let_def split_beta)
  have "t_ns b \<le> t_ns ?b" "r > 0 \<Longrightarrow> is_target kind reference t \<and> IsZero (tg_DeletedAt t) \<Longrightarrow> t_ns now + r \<le> t_ns ?b"
    by (auto simp: After_def Add_def)
  with Cons.IH [of ?b] show ?case unfolding step by fastforce
qed simp

lemma Begin_Inr:
  assumes "Begin d now holds = Inr (d', e)"
  shows "deletion_Validate d = None" "dl_State d \<in> {DeletionRequested, DeletionBlockedByLegalHold, DeletionFailed}"
    "\<not> Before now (dl_UpdatedAt d)" "t_utc now"
    "e = (if list_ex (covers d now) holds then Some ErrHeld else None)"
    "d' = d\<lparr>dl_State := (if list_ex (covers d now) holds then DeletionBlockedByLegalHold else DeletionInProgress),
       dl_FailureClass := [], dl_UpdatedAt := now, dl_Version := i64 (dl_Version d + 1)\<rparr>"
  using assms by (auto simp: Begin_def Let_def split: if_split_asm)

lemma MarkTargetDeleted_Inr:
  assumes "MarkTargetDeleted d kind reference now = Inr d'"
  shows "dl_State d = DeletionInProgress" "\<not> Before now (dl_UpdatedAt d)" "deletion_Validate d = None" "t_utc now"
    "dl_Targets d' = map (deleted_target kind reference now) (dl_Targets d)"
    "dl_BackupExpiresAt d' = snd (mark_deleted kind reference now (dl_BackupRetention d) (dl_Targets d) (dl_BackupExpiresAt d))"
    "dl_State d' = (if list_all (\<lambda>t. \<not> IsZero (tg_DeletedAt t)) (dl_Targets d') then DeletionAwaitingBackup else DeletionInProgress)"
    "dl_BackupRetention d' = dl_BackupRetention d" "dl_UpdatedAt d' = now" "dl_Version d' = i64 (dl_Version d + 1)"
  using assms mark_deleted_targets [of kind reference now "dl_BackupRetention d" "dl_Targets d" "dl_BackupExpiresAt d"]
  by (auto simp: MarkTargetDeleted_def Let_def split_beta split: if_split_asm)

lemma apply_deletion_edge: "apply_deletion cmd d = Inr d' \<Longrightarrow> deletion_edge (dl_State d) (dl_State d')"
proof (cases cmd)
  case (DelBegin now holds)
  moreover assume "apply_deletion cmd d = Inr d'"
  ultimately obtain e where b: "Begin d now holds = Inr (d', e)" by (auto split: sum.split_asm prod.split_asm)
  show ?thesis using Begin_Inr(2,6) [OF b] by (auto simp: deletion_edge_def)
next
  case (DelDeleted kind reference now)
  moreover assume "apply_deletion cmd d = Inr d'"
  ultimately have "MarkTargetDeleted d kind reference now = Inr d'" by simp
  from MarkTargetDeleted_Inr(1,7) [OF this] show ?thesis by (auto simp: deletion_edge_def)
qed (auto simp: deletion_edge_def MarkTargetFailed_def SuspendForHold_def deletion_Complete_def split: if_split_asm)

interpretation deletion: phased_workflow apply_deletion dl_State deletion_edge "\<lambda>s. s = DeletionCompleted"
  by unfold_locales (auto dest: apply_deletion_edge simp: deletion_edge_def)

section \<open>Reachable workflows\<close>

text \<open>The retention of recovery copies may be pinned on a new workflow before it is stored.\<close>

inductive reachable_deletion :: "Deletion \<Rightarrow> bool" where
  requested: "NewDeletion i agg region targets t b = Inr d \<Longrightarrow> (\<And>x. x \<in> set targets \<Longrightarrow> IsZero (tg_DeletedAt x)) \<Longrightarrow>
    reachable_deletion (d\<lparr>dl_BackupRetention := r\<rparr>)"
| applied: "reachable_deletion d \<Longrightarrow> apply_deletion cmd d = Inr d' \<Longrightarrow> reachable_deletion d'"

definition boundary_kept :: "Deletion \<Rightarrow> bool" where
  "boundary_kept d \<longleftrightarrow> (\<forall>x \<in> set (dl_Targets d). \<not> IsZero (tg_DeletedAt x) \<longrightarrow> dl_BackupRetention d > 0 \<longrightarrow>
     t_ns (tg_DeletedAt x) + dl_BackupRetention d \<le> t_ns (dl_BackupExpiresAt d))"

definition deletion_inv :: "Deletion \<Rightarrow> bool" where
  "deletion_inv d \<longleftrightarrow> boundary_kept d \<and>
     (if dl_State d \<in> {DeletionAwaitingBackup, DeletionCompleted}
      then list_all (\<lambda>x. \<not> IsZero (tg_DeletedAt x)) (dl_Targets d)
      else list_ex (\<lambda>x. IsZero (tg_DeletedAt x)) (dl_Targets d)) \<and>
     (dl_State d = DeletionCompleted \<longrightarrow> \<not> Before (dl_UpdatedAt d) (dl_BackupExpiresAt d))"

lemma deleted_target_inv:
  assumes "deletion_inv d" "MarkTargetDeleted d kind reference now = Inr d'"
  shows "deletion_inv d'"
proof -
  note k = MarkTargetDeleted_Inr [OF assms(2)]
  note b = mark_deleted_backup [of "dl_BackupExpiresAt d" kind reference now "dl_BackupRetention d" "dl_Targets d", folded k(6)]
  have "boundary_kept d'"
    unfolding boundary_kept_def k(5,8)
  proof (intro ballI impI)
    fix y assume y: "y \<in> set (map (deleted_target kind reference now) (dl_Targets d))" "\<not> IsZero (tg_DeletedAt y)"
      and r: "0 < dl_BackupRetention d"
    then obtain x where x: "x \<in> set (dl_Targets d)" "y = deleted_target kind reference now x" by auto
    show "t_ns (tg_DeletedAt y) + dl_BackupRetention d \<le> t_ns (dl_BackupExpiresAt d')"
    proof (cases "is_target kind reference x \<and> IsZero (tg_DeletedAt x)")
      case True
      then have "t_ns now + dl_BackupRetention d \<le> t_ns (dl_BackupExpiresAt d')" using b r x(1) by blast
      then show ?thesis using True by (simp add: x(2) deleted_target_def)
    next
      case False
      then have "y = x" by (auto simp: x(2) deleted_target_def)
      then have "t_ns (tg_DeletedAt y) + dl_BackupRetention d \<le> t_ns (dl_BackupExpiresAt d)"
        using assms(1) x(1) y(2) r by (simp add: deletion_inv_def boundary_kept_def)
      then show ?thesis using b by linarith
    qed
  qed
  then show ?thesis
    unfolding deletion_inv_def k(7) by (auto simp: list_all_iff list_ex_iff)
qed

lemma apply_deletion_inv:
  assumes "deletion_inv d" "apply_deletion cmd d = Inr d'"
  shows "deletion_inv d'"
proof (cases cmd)
  case (DelBegin now holds)
  then obtain e where b: "Begin d now holds = Inr (d', e)" using assms(2) by (auto split: sum.split_asm prod.split_asm)
  show ?thesis using assms(1) Begin_Inr(2,6) [OF b] by (auto simp: deletion_inv_def boundary_kept_def)
next
  case (DelDeleted kind reference now)
  then show ?thesis using assms by (auto intro: deleted_target_inv)
next
  case (DelFailed kind reference fc now)
  have d: "tg_DeletedAt (mark_failed kind reference fc x) = tg_DeletedAt x" for x
    by (simp add: mark_failed_def)
  then show ?thesis using assms DelFailed
    by (auto simp: deletion_inv_def boundary_kept_def MarkTargetFailed_def list_all_iff list_ex_iff split: if_split_asm)
qed (use assms in \<open>auto simp: deletion_inv_def boundary_kept_def SuspendForHold_def deletion_Complete_def split: if_split_asm\<close>)

lemma reachable_deletion_inv: "reachable_deletion d \<Longrightarrow> deletion_inv d"
proof (induction rule: reachable_deletion.induct)
  case (requested i agg region targets t b d r)
  then have d: "dl_Targets d = targets" "dl_State d = DeletionRequested" "targets \<noteq> []"
    by (auto simp: NewDeletion_def Let_def deletion_Validate_def split: if_split_asm)
  then obtain x where "x \<in> set targets" by (meson last_in_set)
  with d requested(2) show ?case
    by (auto simp: deletion_inv_def boundary_kept_def list_ex_iff)
qed (rule apply_deletion_inv)


section \<open>Retention and interrupted runs\<close>

lemma rules_loop_bounds:
  "rules_loop class region minimum maximum rules = Some (lo, hi) \<Longrightarrow> 0 \<le> maximum \<Longrightarrow>
     minimum \<le> lo \<and> 0 \<le> hi \<and> (maximum > 0 \<longrightarrow> 0 < hi \<and> hi \<le> maximum) \<and>
     (\<forall>r \<in> set rules. rl_Minimum r \<le> lo \<and> (rl_Maximum r > 0 \<longrightarrow> 0 < hi \<and> hi \<le> rl_Maximum r))"
proof (induction rules arbitrary: minimum maximum)
  case (Cons r rules)
  let ?m = "if rl_Maximum r > 0 \<and> (maximum = 0 \<or> rl_Maximum r < maximum) then rl_Maximum r else maximum"
  have l: "rules_loop class region (max minimum (rl_Minimum r)) ?m rules = Some (lo, hi)" "0 \<le> rl_Maximum r"
    using Cons.prems(1) by (auto split: if_split_asm)
  have "0 \<le> ?m" using Cons.prems(2) by auto
  from Cons.IH [OF l(1) this] Cons.prems(2) l(2) show ?case by (auto split: if_split_asm)
qed simp

lemma Begin_valid:
  assumes "Begin d now holds = Inr (d', e)" "dl_Version d < int64_max"
  shows "deletion_Validate d' = None" "dl_Version d' = i64 (dl_Version d + 1)" "1 \<le> dl_Version d" "dl_Targets d' = dl_Targets d"
proof -
  note k = Begin_Inr [OF assms(1)]
  have v: "1 \<le> dl_Version d" "\<not> Before (dl_UpdatedAt d) (dl_RequestedAt d)"
    using k(1) by (auto simp: deletion_Validate_def split: if_split_asm)
  then have s: "i64 (dl_Version d + 1) = dl_Version d + 1"
    using assms(2) by (intro i64_succ) (auto simp: int64_min_def)
  have "\<not> Before now (dl_RequestedAt d)" using v(2) k(3) by (simp add: Before_def)
  then show "deletion_Validate d' = None"
    using k(1,4) v(1) s unfolding k(6) by (auto simp: deletion_Validate_def split: if_split_asm)
  show "dl_Version d' = i64 (dl_Version d + 1)" "1 \<le> dl_Version d" "dl_Targets d' = dl_Targets d"
    using v(1) by (simp_all add: k(6))
qed

text \<open>A write that does not commit leaves the workflow as the loop found it.\<close>

lemma run_targets_interrupted:
  assumes "\<not> commits k" "list_ex (\<lambda>t. IsZero (tg_DeletedAt t)) ts"
  shows "\<exists>e. run_targets eraser clock commits k ts d = (d, Inl e)"
  using assms(2)
proof (induction ts)
  case (Cons t ts)
  have save: "\<exists>e. store_Save (commits k) d x v = Inl e" for x v
    using assms(1) by (cases x) (auto simp: store_Save_def)
  then obtain e where save: "store_Save (commits k) d x v = Inl (e x v)" for x v by metis
  show ?case
  proof (cases "IsZero (tg_DeletedAt t)")
    case True
    then show ?thesis
      by (cases "eraser t") (auto simp: save Let_def split: sum.split)
  qed (use Cons in auto)
qed simp

lemma Run_in_progress:
  "dl_State d = DeletionInProgress \<Longrightarrow>
     Run permitted eraser holds clock commits d = (d, Inl (if permitted then ErrInvalid else ErrConflict))"
proof -
  assume "dl_State d = DeletionInProgress"
  then have "\<exists>e. Begin d (clock 0) holds = Inl e" "dl_State d \<noteq> DeletionCompleted" "dl_State d \<noteq> DeletionAwaitingBackup"
    by (auto simp: Begin_def)
  then show ?thesis by (auto simp: Run_def store_Save_def Let_def)
qed

section \<open>Changes of the targets\<close>




section \<open>A small workflow\<close>


definition sample_target :: Target where
  "sample_target = \<lparr>tg_Kind = ''object'', tg_Reference = ''key'', tg_Region = ''eu'', tg_DeletedAt = time_zero,
     tg_Attempts = 0, tg_LastFailureClass = []\<rparr>"

definition sample_deletion :: Deletion where
  "sample_deletion = \<lparr>dl_BackupRetention = 500, dl_ID = ''d'', dl_AggregateID = ''agg'', dl_Region = ''eu'',
     dl_State = DeletionRequested, dl_Targets = [sample_target], dl_RequestedAt = utc_at 1000, dl_UpdatedAt = utc_at 1000,
     dl_BackupExpiresAt = utc_at 1200, dl_FailureClass = [], dl_Version = 1\<rparr>"

definition sample_rule :: "duration \<Rightarrow> duration \<Rightarrow> RetentionRule" where
  "sample_rule lo hi = \<lparr>rl_Authority = ''law'', rl_Version = ''v1'', rl_Class = DataClassRawEvidence, rl_Region = ''eu'',
     rl_Minimum = lo, rl_Maximum = hi\<rparr>"

lemma sample_tokens: "token ''eu'' 63" "token ''agg'' 200" "token ''object'' 64" "token ''key'' 2048"
  by (simp_all add: token_def)

lemma sample_deletion_valid: "deletion_Validate (sample_deletion\<lparr>dl_BackupRetention := r\<rparr>) = None \<longleftrightarrow>
    0 \<le> r \<and> r \<le> 35 * 24 * hour"
  by (auto simp: deletion_Validate_def sample_deletion_def sample_target_def SelectedDefaults_def privacy_region_def
      sample_tokens go_time_simps)

lemma sample_deletion_reachable: "reachable_deletion sample_deletion"
proof -
  have n: "NewDeletion ''d'' ''agg'' ''eu'' [sample_target] (utc_at 1000) (utc_at 1200) =
      Inr (sample_deletion\<lparr>dl_BackupRetention := 0\<rparr>)"
  proof -
    have "\<lparr>dl_BackupRetention = 0, dl_ID = ''d'', dl_AggregateID = ''agg'', dl_Region = ''eu'', dl_State = DeletionRequested,
        dl_Targets = [sample_target], dl_RequestedAt = utc_at 1000, dl_UpdatedAt = utc_at 1000,
        dl_BackupExpiresAt = utc_at 1200, dl_FailureClass = [], dl_Version = 1\<rparr> = sample_deletion\<lparr>dl_BackupRetention := 0\<rparr>"
      by (simp add: sample_deletion_def)
    then show ?thesis using sample_deletion_valid [of 0] by (simp add: NewDeletion_def Let_def)
  qed
  have "reachable_deletion (sample_deletion\<lparr>dl_BackupRetention := 0\<rparr>\<lparr>dl_BackupRetention := 500\<rparr>)"
    by (rule requested [OF n]) (simp add: sample_target_def time_zero_def IsZero_def)
  moreover have "sample_deletion\<lparr>dl_BackupRetention := 0\<rparr>\<lparr>dl_BackupRetention := 500\<rparr> = sample_deletion"
    by (simp add: sample_deletion_def)
  ultimately show ?thesis by simp
qed

lemma sample_begin: "Begin sample_deletion (utc_at 2000) [] =
    Inr (sample_deletion\<lparr>dl_State := DeletionInProgress, dl_UpdatedAt := utc_at 2000, dl_Version := 2\<rparr>, None)"
proof -
  have "deletion_Validate sample_deletion = None"
    using sample_deletion_valid [of 500] by (simp add: sample_deletion_def)
  then show ?thesis by (simp add: Begin_def go_time_simps) (simp add: sample_deletion_def i64_def)
qed

section \<open>Properties\<close>

text \<open>
  C29. Completed deletions are complete: in every reachable completed workflow each target has been
  deleted, the boundary for recovery copies has passed, and where a backup retention is pinned, at
  least that much time has passed since each target was deleted.
\<close>

theorem deletion_complete:
  assumes "reachable_deletion d" and "dl_State d = DeletionCompleted" and "x \<in> set (dl_Targets d)"
  shows "\<not> IsZero (tg_DeletedAt x) \<and> \<not> Before (dl_UpdatedAt d) (dl_BackupExpiresAt d) \<and>
    (dl_BackupRetention d > 0 \<longrightarrow> t_ns (tg_DeletedAt x) + dl_BackupRetention d \<le> t_ns (dl_UpdatedAt d))"
  using reachable_deletion_inv [OF assms(1)] assms(2,3)
  by (auto simp: deletion_inv_def boundary_kept_def list_all_iff Before_def)

theorem deletion_complete_witness:
  "\<exists>d. run_all apply_deletion [DelBegin (utc_at 2000) [], DelDeleted ''object'' ''key'' (utc_at 3000), DelComplete (utc_at 4000)]
         sample_deletion = Inr d \<and> dl_State d = DeletionCompleted \<and> (\<exists>x. dl_Targets d = [x] \<and> \<not> IsZero (tg_DeletedAt x))"
proof -
  let ?cmds = "[DelBegin (utc_at 2000) [], DelDeleted ''object'' ''key'' (utc_at 3000), DelComplete (utc_at 4000)]"
  have v: "deletion_Validate (sample_deletion\<lparr>dl_State := s, dl_UpdatedAt := utc_at n, dl_Version := v\<rparr>) = None"
    if "1000 \<le> n" "1 \<le> v" for s n v
    using sample_deletion_valid [of 500] that
    by (auto simp: deletion_Validate_def sample_deletion_def go_time_simps split: if_split_asm)
  let ?t = "sample_target\<lparr>tg_DeletedAt := utc_at 3000, tg_Attempts := 1\<rparr>"
  let ?d = "sample_deletion\<lparr>dl_State := DeletionAwaitingBackup, dl_Targets := [?t], dl_UpdatedAt := utc_at 3000,
      dl_BackupExpiresAt := utc_at 3500, dl_Version := 3\<rparr>"
  have m: "MarkTargetDeleted (sample_deletion\<lparr>dl_State := DeletionInProgress, dl_UpdatedAt := utc_at 2000, dl_Version := 2\<rparr>)
      ''object'' ''key'' (utc_at 3000) = Inr ?d"
    using v [of 2000 2 DeletionInProgress]
    by (simp add: MarkTargetDeleted_def go_time_simps)
       (simp add: sample_deletion_def sample_target_def is_target_def time_zero_def i64_def u16_def go_time_simps)
  have "deletion_Validate ?d = None"
    by (simp add: deletion_Validate_def sample_deletion_def sample_target_def SelectedDefaults_def privacy_region_def
        sample_tokens go_time_simps)
  then have c: "deletion_Complete ?d (utc_at 4000) = Inr (?d\<lparr>dl_State := DeletionCompleted, dl_UpdatedAt := utc_at 4000, dl_Version := 4\<rparr>)"
    by (simp add: deletion_Complete_def go_time_simps i64_def)
  have run: "run_all apply_deletion ?cmds sample_deletion =
      Inr (?d\<lparr>dl_State := DeletionCompleted, dl_UpdatedAt := utc_at 4000, dl_Version := 4\<rparr>)"
    using m c by (simp add: sample_begin)
  have r: "reachable_deletion (?d\<lparr>dl_State := DeletionCompleted, dl_UpdatedAt := utc_at 4000, dl_Version := 4\<rparr>)"
    using run sample_deletion_reachable by (rule run_all_invariant) (rule applied)
  from run deletion_complete [OF r, of ?t] show ?thesis by simp
qed



text \<open>
  Retention meets every obligation: a resolved retention is positive, at least the minimum and
  at most the maximum of every rule, and ends that long after creation; without rules, a tenant's
  request is followed, within the default or within the deployment cap.
\<close>

theorem retention_obligations:
  assumes "retention_Resolve class region createdAt tenantRequested deploymentCap rules = Inr res"
  shows "0 < re_Duration res \<and> re_ExpiresAt res = Add createdAt (re_Duration res) \<and>
    (\<forall>r \<in> set rules. rl_Minimum r \<le> re_Duration res \<and> (rl_Maximum r > 0 \<longrightarrow> re_Duration res \<le> rl_Maximum r)) \<and>
    (rules = [] \<and> tenantRequested > 0 \<longrightarrow> re_Duration res = tenantRequested \<and>
       (tenantRequested \<le> the (SelectedDefaults class) \<or> tenantRequested \<le> deploymentCap))"
proof -
  obtain baseline lo hi where b: "SelectedDefaults class = Some baseline"
    and l: "rules_loop class region 0 0 rules = Some (lo, hi)" "\<not> (hi > 0 \<and> lo > hi)"
    and cap: "\<not> (tenantRequested > 0 \<and> tenantRequested > baseline \<and> (deploymentCap = 0 \<or> tenantRequested > deploymentCap))"
    and d: "re_Duration res = (if hi > 0 then min (max (if tenantRequested > 0 then tenantRequested else baseline) lo) hi
                               else max (if tenantRequested > 0 then tenantRequested else baseline) lo)"
      "0 < re_Duration res" "re_ExpiresAt res = Add createdAt (re_Duration res)"
    using assms unfolding retention_Resolve_def Let_def
    by (auto split: option.split_asm if_split_asm prod.split_asm)
  note r = rules_loop_bounds [OF l(1)]
  have "rl_Minimum x \<le> re_Duration res \<and> (rl_Maximum x > 0 \<longrightarrow> re_Duration res \<le> rl_Maximum x)" if "x \<in> set rules" for x
    using r that l(2) unfolding d(1) by auto
  moreover have "re_Duration res = tenantRequested" if "rules = []" "tenantRequested > 0"
    using l(1) that by (simp add: d(1))
  ultimately show ?thesis using d(2,3) cap b by auto
qed

theorem retention_obligations_witness:
  "\<exists>res. retention_Resolve DataClassRawEvidence ''eu'' (utc_at 1000) 0 0 [sample_rule (40 * 24 * hour) (50 * 24 * hour)] = Inr res \<and>
     40 * 24 * hour \<le> re_Duration res \<and> re_Duration res \<le> 50 * 24 * hour"
proof -
  obtain res where r: "retention_Resolve DataClassRawEvidence ''eu'' (utc_at 1000) 0 0 [sample_rule (40 * 24 * hour) (50 * 24 * hour)] = Inr res"
    by (simp add: retention_Resolve_def SelectedDefaults_def privacy_region_def sample_tokens go_time_simps sample_rule_def)
  from retention_obligations [OF r] r show ?thesis by (simp add: sample_rule_def)
qed

text \<open>
  C31. An interrupted run is stuck: when the write after the first one of a run does not commit, as
  when the worker stops or its context is cancelled, the stored workflow is in progress, and every
  later run of it ends with an error and changes nothing, whatever the eraser and the clock do.
\<close>

theorem interrupted_deletion_stuck:
  assumes "reachable_deletion d" and "Begin d (clock 0) holds = Inr (d', None)" and "dl_Version d < int64_max"
    and "commits 0" and "\<not> commits 1"
  shows "(\<exists>e. Run True eraser holds clock commits d = (d', Inl e)) \<and> dl_State d' = DeletionInProgress \<and>
    (\<forall>permitted' eraser' holds' clock' commits'. \<exists>e. Run permitted' eraser' holds' clock' commits' d' = (d', Inl e))"
proof -
  note k = Begin_Inr [OF assms(2)]
  have held: "\<not> list_ex (covers d (clock 0)) holds" using k(5) by (auto split: if_split_asm)
  then have ip: "dl_State d' = DeletionInProgress" by (simp add: k(6))
  have st: "dl_State d \<noteq> DeletionCompleted" "dl_State d \<noteq> DeletionAwaitingBackup" using k(2) by auto
  note b = Begin_valid [OF assms(2,3)]
  have s: "store_Save (commits 0) d (Some d') (dl_Version d) = Inr d'"
    using assms(4) b(1,2,3) by (simp add: store_Save_def)
  have "list_ex (\<lambda>t. IsZero (tg_DeletedAt t)) (dl_Targets d')"
    using reachable_deletion_inv [OF assms(1)] st b(4) by (simp add: deletion_inv_def)
  from run_targets_interrupted [of commits 1, OF assms(5) this, of eraser clock d'] obtain e where
    "run_targets eraser clock commits 1 (dl_Targets d') d' = (d', Inl e)" by blast
  then have "Run True eraser holds clock commits d = (d', Inl e)"
    using st s assms(2) by (simp add: Run_def)
  then show ?thesis using ip Run_in_progress [OF ip] by blast
qed

theorem interrupted_deletion_stuck_witness:
  "\<exists>d e. Run True (\<lambda>_. Erased) [] (\<lambda>_. utc_at 2000) (\<lambda>n. n = 0) sample_deletion = (d, Inl e) \<and>
     dl_State d = DeletionInProgress \<and> (\<exists>e'. Run True (\<lambda>_. Erased) [] (\<lambda>_. utc_at 3000) (\<lambda>_. True) d = (d, Inl e'))"
proof -
  let ?d = "sample_deletion\<lparr>dl_State := DeletionInProgress, dl_UpdatedAt := utc_at 2000, dl_Version := 2\<rparr>"
  have "dl_Version sample_deletion < int64_max" by (simp add: sample_deletion_def int64_max_def)
  from interrupted_deletion_stuck [OF sample_deletion_reachable, of "\<lambda>_. utc_at 2000", OF sample_begin this, of "\<lambda>n. n = 0" "\<lambda>_. Erased"]
  have "\<exists>e. Run True (\<lambda>_. Erased) [] (\<lambda>_. utc_at 2000) (\<lambda>n. n = 0) sample_deletion = (?d, Inl e)"
    "\<exists>e. Run True (\<lambda>_. Erased) [] (\<lambda>_. utc_at 3000) (\<lambda>_. True) ?d = (?d, Inl e)" by simp_all
  moreover have "dl_State ?d = DeletionInProgress" by simp
  ultimately show ?thesis by blast
qed

end
