(* ===== verification/Privacy_Request.thy ===== *)
theory Privacy_Request
  imports Privacy_Deletion Identifiers
begin

text \<open>
  \<^verbatim>\<open>internal/privacy/request.go\<close>: data-subject privacy requests, their bounded instructions, the
  transition graph with its append-only events, decisions, execution and the subject-safe
  projection. The request interprets the workflow contract of \<open>Aggregate_Contracts\<close>.

  The strict JSON decoder of the instruction, the ULID parser of identifiers and SHA-256 are
  arguments, collected in \<open>privacy_codec\<close>.
\<close>

section \<open>Vocabulary\<close>

datatype request_type = RequestAccess | RequestPortability | RequestCorrection | RequestRestriction
  | RequestObjection | RequestErasure | RequestTypeOther string

datatype channel = ChannelTenantAPI | ChannelSubjectOutcome | ChannelOther string

datatype request_state = RequestStateRequested | RequestStateInReview | RequestStateApproved
  | RequestStatePartiallyApproved | RequestStateDenied | RequestStateExecuting | RequestStateCompleted
  | RequestStateFailed | RequestStateWithdrawn | RequestStateExpired | RequestStateOther string

datatype decision_outcome = OutcomeApproved | OutcomePartiallyApproved | OutcomeDenied | OutcomeOther string

definition type_Valid :: "request_type \<Rightarrow> bool" where
  "type_Valid t \<longleftrightarrow> (case t of RequestTypeOther _ \<Rightarrow> False | _ \<Rightarrow> True)"

definition channel_Valid :: "channel \<Rightarrow> bool" where
  "channel_Valid c \<longleftrightarrow> c = ChannelTenantAPI \<or> c = ChannelSubjectOutcome"

definition state_Valid :: "request_state \<Rightarrow> bool" where
  "state_Valid s \<longleftrightarrow> (case s of RequestStateOther _ \<Rightarrow> False | _ \<Rightarrow> True)"

definition request_Terminal :: "request_state \<Rightarrow> bool" where
  "request_Terminal s \<longleftrightarrow> s = RequestStateDenied \<or> s = RequestStateCompleted \<or> s = RequestStateWithdrawn \<or> s = RequestStateExpired"

definition Decided :: "request_state \<Rightarrow> bool" where
  "Decided s \<longleftrightarrow> s = RequestStateApproved \<or> s = RequestStatePartiallyApproved \<or> s = RequestStateDenied"

definition outcome_Valid :: "decision_outcome \<Rightarrow> bool" where
  "outcome_Valid d \<longleftrightarrow> d = OutcomeApproved \<or> d = OutcomePartiallyApproved \<or> d = OutcomeDenied"

definition outcome_state :: "decision_outcome \<Rightarrow> request_state" where
  "outcome_state d = (case d of OutcomeApproved \<Rightarrow> RequestStateApproved
     | OutcomePartiallyApproved \<Rightarrow> RequestStatePartiallyApproved | _ \<Rightarrow> RequestStateDenied)"

definition requestTransitions :: "request_state \<Rightarrow> request_state list" where
  "requestTransitions s =
     (case s of
        RequestStateRequested \<Rightarrow> [RequestStateInReview, RequestStateWithdrawn, RequestStateExpired]
      | RequestStateInReview \<Rightarrow> [RequestStateApproved, RequestStatePartiallyApproved, RequestStateDenied,
          RequestStateWithdrawn, RequestStateExpired]
      | RequestStateApproved \<Rightarrow> [RequestStateExecuting]
      | RequestStatePartiallyApproved \<Rightarrow> [RequestStateExecuting]
      | RequestStateExecuting \<Rightarrow> [RequestStateCompleted, RequestStateFailed]
      | RequestStateFailed \<Rightarrow> [RequestStateExecuting]
      | _ \<Rightarrow> [])"

definition canTransition :: "request_state \<Rightarrow> request_state \<Rightarrow> bool" where
  "canTransition from to \<longleftrightarrow> to \<in> set (requestTransitions from)"

text \<open>Reason codes are their strings.\<close>

definition ReasonWithdrawnByTenant :: string where "ReasonWithdrawnByTenant = ''withdrawn_by_tenant''"
definition ReasonExpiredWithoutAction :: string where "ReasonExpiredWithoutAction = ''expired_without_decision''"

definition approveReasonCodes :: "string list" where
  "approveReasonCodes = [''access_approved'', ''portability_approved'', ''correction_approved'',
     ''restriction_approved'', ''objection_approved'', ''erasure_approved'', ''partially_approved'']"

definition denyReasonCodes :: "string list" where
  "denyReasonCodes = [''identity_unverified'', ''insufficient_proof'', ''legal_obligation'', ''third_party_rights'',
     ''manifestly_unfounded'', ''excessive_request'']"

definition ValidApproval :: "string \<Rightarrow> bool" where
  "ValidApproval r \<longleftrightarrow> r \<in> set approveReasonCodes \<or> r = ReasonWithdrawnByTenant \<or> r = ReasonExpiredWithoutAction"

definition ValidDenial :: "string \<Rightarrow> bool" where
  "ValidDenial r \<longleftrightarrow> r \<in> set denyReasonCodes"

definition validDecisionReason :: "decision_outcome \<Rightarrow> string \<Rightarrow> bool" where
  "validDecisionReason d r \<longleftrightarrow>
     (case d of OutcomeApproved \<Rightarrow> ValidApproval r | OutcomePartiallyApproved \<Rightarrow> ValidApproval r
      | OutcomeDenied \<Rightarrow> ValidDenial r | OutcomeOther _ \<Rightarrow> False)"

section \<open>Requests\<close>

record Event =
  ev_Sequence :: int
  ev_Type :: string
  ev_From :: request_state
  ev_To :: request_state
  ev_ReasonCode :: string
  ev_ActorDigest :: string
  ev_Detail :: string
  ev_OccurredAt :: go_time

record PrivacyDecision =
  pd_ID :: string
  pd_Outcome :: decision_outcome
  pd_ReasonCode :: string
  pd_Actor :: string
  pd_DecidedAt :: go_time
  pd_Version :: int

record Request =
  rq_ID :: string
  rq_Type :: request_type
  rq_State :: request_state
  rq_Channel :: channel
  rq_SubjectID :: string
  rq_VerificationID :: string
  rq_Region :: string
  rq_Payload :: string
  rq_ReasonCode :: string
  rq_FailureClass :: string
  rq_EffectKind :: string
  rq_EffectRef :: string
  rq_EffectDigest :: string
  rq_ExpiresAt :: go_time
  rq_RequestedAt :: go_time
  rq_UpdatedAt :: go_time
  rq_Version :: int
  rq_Decisions :: "PrivacyDecision list"
  rq_Events :: "Event list"

record RequestPayload =
  py_Purpose :: string
  py_RecordID :: string
  py_DecisionID :: string
  py_Name :: string
  py_Value :: string
  py_Kind :: string
  py_Normalization :: string

record 'u privacy_codec =
  yc_decode :: "string \<Rightarrow> RequestPayload option"
  yc_ulid :: "string \<Rightarrow> 'u option"
  yc_sha256 :: "string \<Rightarrow> string"

definition parses :: "'e + 'a \<Rightarrow> bool" where
  "parses r \<longleftrightarrow> (case r of Inl _ \<Rightarrow> False | Inr _ \<Rightarrow> True)"

definition ValidIdentityRecordID :: "'u privacy_codec \<Rightarrow> string \<Rightarrow> bool" where
  "ValidIdentityRecordID yc v \<longleftrightarrow> list_ex (\<lambda>prefix. parses (ident_Parse (yc_ulid yc) prefix v)) [''obs'', ''fct'', ''clm'', ''idi'']"

definition no_correction :: "RequestPayload \<Rightarrow> bool" where
  "no_correction v \<longleftrightarrow> py_RecordID v = [] \<and> py_DecisionID v = [] \<and> py_Name v = [] \<and> py_Value v = [] \<and>
     py_Kind v = [] \<and> py_Normalization v = []"

definition ValidatePayload :: "'u privacy_codec \<Rightarrow> request_type \<Rightarrow> string \<Rightarrow> privacy_error + RequestPayload" where
  "ValidatePayload yc t payload =
     (if \<not> type_Valid t \<or> payload = [] \<or> length payload > 4096 then Inl ErrInvalid
      else case yc_decode yc payload of None \<Rightarrow> Inl ErrInvalid
      | Some v \<Rightarrow>
        if py_Purpose v \<noteq> [] \<and> \<not> token (py_Purpose v) 128 then Inl ErrInvalid
        else case t of
          RequestCorrection \<Rightarrow>
            if py_Purpose v \<noteq> [] then Inl ErrInvalid
            else if py_RecordID v \<noteq> [] \<and> py_DecisionID v \<noteq> [] then Inl ErrInvalid
            else if py_RecordID v = [] \<and> py_DecisionID v = [] then Inl ErrInvalid
            else if py_DecisionID v \<noteq> [] then
              (if py_Name v \<noteq> [] \<or> py_Value v \<noteq> [] \<or> py_Kind v \<noteq> [] \<or> py_Normalization v \<noteq> [] then Inl ErrInvalid
               else if \<not> parses (ParseResource (yc_ulid yc) R_Decision (py_DecisionID v)) then Inl ErrInvalid
               else Inr v)
            else if \<not> ValidIdentityRecordID yc (py_RecordID v) \<or> \<not> token (py_Name v) 128 \<or> py_Value v = [] \<or>
                length (py_Value v) > 1024 \<or> py_Kind v \<notin> {''observation'', ''claim'', ''fact''} \<or>
                py_Normalization v \<notin> {''identity.exact.v1'', ''identity.trim.v1'', ''identity.ascii_upper.v1''}
            then Inl ErrInvalid else Inr v
        | RequestObjection \<Rightarrow> if py_Purpose v = [] \<or> \<not> no_correction v then Inl ErrInvalid else Inr v
        | RequestRestriction \<Rightarrow> if \<not> no_correction v then Inl ErrInvalid else Inr v
        | RequestTypeOther _ \<Rightarrow> Inl ErrInvalid
        | _ \<Rightarrow> if py_Purpose v \<noteq> [] \<or> \<not> no_correction v then Inl ErrInvalid else Inr v)"

definition request_Validate :: "'u privacy_codec \<Rightarrow> Request \<Rightarrow> privacy_error option" where
  "request_Validate yc r =
     (if rq_ID r = [] \<or> \<not> type_Valid (rq_Type r) \<or> \<not> state_Valid (rq_State r) \<or> \<not> channel_Valid (rq_Channel r) \<or>
         (rq_SubjectID r \<noteq> [] \<and> \<not> token (rq_SubjectID r) 200) \<or> \<not> privacy_region (rq_Region r) \<or> rq_Version r < 1 \<or>
         IsZero (rq_RequestedAt r) \<or> \<not> t_utc (rq_RequestedAt r) \<or> Before (rq_UpdatedAt r) (rq_RequestedAt r) \<or>
         \<not> t_utc (rq_UpdatedAt r) \<or> \<not> After (rq_ExpiresAt r) (rq_RequestedAt r) \<or> \<not> t_utc (rq_ExpiresAt r)
      then Some ErrInvalid
      else if rq_VerificationID r \<noteq> [] \<and> \<not> parses (ParseResource (yc_ulid yc) R_Verification (rq_VerificationID r)) then Some ErrInvalid
      else if rq_Channel r = ChannelSubjectOutcome \<and> rq_VerificationID r = [] then Some ErrInvalid
      else if \<not> parses (ValidatePayload yc (rq_Type r) (rq_Payload r)) then Some ErrInvalid
      else if rq_ReasonCode r \<noteq> [] \<and> \<not> token (rq_ReasonCode r) 64 then Some ErrInvalid
      else if rq_FailureClass r \<noteq> [] \<and> \<not> token (rq_FailureClass r) 64 then Some ErrInvalid
      else if request_Terminal (rq_State r) \<and> rq_Events r = [] then Some ErrInvalid
      else None)"

definition NewPrivacyRequest ::
  "'u privacy_codec \<Rightarrow> string \<Rightarrow> request_type \<Rightarrow> channel \<Rightarrow> string \<Rightarrow> string \<Rightarrow> string \<Rightarrow> string \<Rightarrow> go_time \<Rightarrow> go_time \<Rightarrow>
   privacy_error + Request" where
  "NewPrivacyRequest yc identifier t ch subjectID verificationID region payload requestedAt expiresAt =
     (let r = \<lparr>rq_ID = identifier, rq_Type = t, rq_State = RequestStateRequested, rq_Channel = ch, rq_SubjectID = subjectID,
               rq_VerificationID = verificationID, rq_Region = region, rq_Payload = payload, rq_ReasonCode = [],
               rq_FailureClass = [], rq_EffectKind = [], rq_EffectRef = [], rq_EffectDigest = [], rq_ExpiresAt = expiresAt,
               rq_RequestedAt = requestedAt, rq_UpdatedAt = requestedAt, rq_Version = 1, rq_Decisions = [], rq_Events = []\<rparr>
      in if request_Validate yc r \<noteq> None then Inl ErrInvalid else Inr r)"

definition transition ::
  "'u privacy_codec \<Rightarrow> Request \<Rightarrow> request_state \<Rightarrow> string \<Rightarrow> string \<Rightarrow> string \<Rightarrow> string \<Rightarrow> go_time \<Rightarrow> privacy_error + Request" where
  "transition yc r to reason actorDigest detail eventType now =
     (if request_Validate yc r \<noteq> None \<or> IsZero now \<or> \<not> t_utc now \<or> Before now (rq_UpdatedAt r) \<or>
         \<not> canTransition (rq_State r) to
      then Inl ErrConflict
      else Inr (r\<lparr>rq_State := to, rq_ReasonCode := reason, rq_UpdatedAt := now, rq_Version := i64 (rq_Version r + 1),
        rq_Events := rq_Events r @ [\<lparr>ev_Sequence = i64 (int (length (rq_Events r)) + 1), ev_Type = eventType,
          ev_From = rq_State r, ev_To = to, ev_ReasonCode = reason, ev_ActorDigest = actorDigest, ev_Detail = detail,
          ev_OccurredAt = now\<rparr>]\<rparr>))"

definition targetReferenceDigest :: "'u privacy_codec \<Rightarrow> string \<Rightarrow> string" where
  "targetReferenceDigest yc reference = hex_encode (take 12 (yc_sha256 yc reference))"

definition BeginReview :: "'u privacy_codec \<Rightarrow> Request \<Rightarrow> string \<Rightarrow> go_time \<Rightarrow> privacy_error + Request" where
  "BeginReview yc r actorDigest now =
     (if request_Validate yc r \<noteq> None then Inl ErrInvalid
      else if rq_State r = RequestStateInReview then Inr r
      else if rq_State r \<noteq> RequestStateRequested then Inl ErrConflict
      else transition yc r RequestStateInReview [] actorDigest [] ''privacy.request.review_started'' now)"

definition Decide ::
  "'u privacy_codec \<Rightarrow> Request \<Rightarrow> string \<Rightarrow> decision_outcome \<Rightarrow> string \<Rightarrow> string \<Rightarrow> go_time \<Rightarrow> privacy_error + Request" where
  "Decide yc r identifier outcome reason actor now =
     (if request_Validate yc r \<noteq> None \<or> identifier = [] \<or> \<not> outcome_Valid outcome \<or> \<not> token actor 200 \<or>
         IsZero now \<or> \<not> t_utc now
      then Inl ErrInvalid
      else if \<not> validDecisionReason outcome reason then Inl ErrInvalid
      else if Decided (rq_State r) then
        (if rq_Decisions r = [] then Inl ErrConflict
         else let existing = last (rq_Decisions r) in
              if pd_Outcome existing = outcome \<and> pd_ReasonCode existing = reason then Inr r else Inl ErrConflict)
      else if rq_State r \<noteq> RequestStateInReview then Inl ErrConflict
      else case transition yc r (outcome_state outcome) reason (targetReferenceDigest yc actor) identifier
                  ''privacy.request.decided'' now of
             Inl e \<Rightarrow> Inl e
           | Inr next \<Rightarrow> Inr (next\<lparr>rq_Decisions := rq_Decisions r @ [\<lparr>pd_ID = identifier, pd_Outcome = outcome,
               pd_ReasonCode = reason, pd_Actor = actor, pd_DecidedAt = now, pd_Version = rq_Version next\<rparr>]\<rparr>))"

definition BeginExecution :: "'u privacy_codec \<Rightarrow> Request \<Rightarrow> string \<Rightarrow> go_time \<Rightarrow> privacy_error + Request" where
  "BeginExecution yc r actorDigest now =
     (if request_Validate yc r \<noteq> None then Inl ErrInvalid
      else if rq_State r = RequestStateExecuting then Inr r
      else if rq_State r \<noteq> RequestStateApproved \<and> rq_State r \<noteq> RequestStatePartiallyApproved \<and>
         rq_State r \<noteq> RequestStateFailed then Inl ErrConflict
      else transition yc r RequestStateExecuting [] actorDigest [] ''privacy.request.executing'' now)"

definition request_Complete :: "'u privacy_codec \<Rightarrow> Request \<Rightarrow> string \<Rightarrow> string \<Rightarrow> string \<Rightarrow> go_time \<Rightarrow> privacy_error + Request" where
  "request_Complete yc r effectKind effectRef effectDigest now =
     (if \<not> token effectKind 64 \<or> \<not> token effectRef 512 \<or> \<not> token effectDigest 128 then Inl ErrInvalid
      else case transition yc r RequestStateCompleted effectKind [] [] ''privacy.request.completed'' now of Inl e \<Rightarrow> Inl e
      | Inr next \<Rightarrow> Inr (next\<lparr>rq_EffectKind := effectKind, rq_EffectRef := effectRef, rq_EffectDigest := effectDigest\<rparr>))"

definition request_Fail :: "'u privacy_codec \<Rightarrow> Request \<Rightarrow> string \<Rightarrow> go_time \<Rightarrow> privacy_error + Request" where
  "request_Fail yc r failureClass now =
     (if \<not> token failureClass 64 then Inl ErrInvalid
      else case transition yc r RequestStateFailed [] [] failureClass ''privacy.request.failed'' now of Inl e \<Rightarrow> Inl e
      | Inr next \<Rightarrow> Inr (next\<lparr>rq_FailureClass := failureClass\<rparr>))"

definition Withdraw :: "'u privacy_codec \<Rightarrow> Request \<Rightarrow> string \<Rightarrow> go_time \<Rightarrow> privacy_error + Request" where
  "Withdraw yc r actorDigest now =
     (if request_Validate yc r \<noteq> None then Inl ErrInvalid
      else if rq_State r = RequestStateWithdrawn then Inr r
      else if rq_State r \<noteq> RequestStateRequested \<and> rq_State r \<noteq> RequestStateInReview then Inl ErrConflict
      else transition yc r RequestStateWithdrawn ReasonWithdrawnByTenant actorDigest [] ''privacy.request.withdrawn'' now)"

definition Expire :: "'u privacy_codec \<Rightarrow> Request \<Rightarrow> go_time \<Rightarrow> privacy_error + Request" where
  "Expire yc r now =
     (if request_Validate yc r \<noteq> None \<or> IsZero now \<or> \<not> t_utc now \<or> Before now (rq_ExpiresAt r) then Inl ErrConflict
      else if rq_State r = RequestStateExpired then Inr r
      else if rq_State r \<noteq> RequestStateRequested \<and> rq_State r \<noteq> RequestStateInReview then Inl ErrConflict
      else transition yc r RequestStateExpired ReasonExpiredWithoutAction [] [] ''privacy.request.expired'' now)"

section \<open>The projection a subject sees\<close>

datatype subject_status = SubjectStatusReceived | SubjectStatusInReview | SubjectStatusInProgress
  | SubjectStatusCompleted | SubjectStatusClosed | SubjectStatusWithdrawn | SubjectStatusExpired

record SubjectRequest =
  sr_Type :: request_type
  sr_Status :: subject_status
  sr_RequestedAt :: go_time
  sr_UpdatedAt :: go_time

definition SubjectProjection :: "Request \<Rightarrow> SubjectRequest" where
  "SubjectProjection r = \<lparr>sr_Type = rq_Type r,
     sr_Status = (case rq_State r of
         RequestStateRequested \<Rightarrow> SubjectStatusReceived
       | RequestStateInReview \<Rightarrow> SubjectStatusInReview
       | RequestStateApproved \<Rightarrow> SubjectStatusInProgress
       | RequestStatePartiallyApproved \<Rightarrow> SubjectStatusInProgress
       | RequestStateExecuting \<Rightarrow> SubjectStatusInProgress
       | RequestStateFailed \<Rightarrow> SubjectStatusInProgress
       | RequestStateCompleted \<Rightarrow> SubjectStatusCompleted
       | RequestStateDenied \<Rightarrow> SubjectStatusClosed
       | RequestStateWithdrawn \<Rightarrow> SubjectStatusWithdrawn
       | RequestStateExpired \<Rightarrow> SubjectStatusExpired
       | RequestStateOther _ \<Rightarrow> SubjectStatusReceived),
     sr_RequestedAt = rq_RequestedAt r, sr_UpdatedAt = rq_UpdatedAt r\<rparr>"


section \<open>Commands and the workflow graph\<close>

datatype request_command = CmdBeginReview string go_time | CmdDecide string decision_outcome string string go_time
  | CmdBeginExecution string go_time | CmdComplete string string string go_time | CmdFail string go_time
  | CmdWithdraw string go_time | CmdExpire go_time

fun apply_request :: "'u privacy_codec \<Rightarrow> request_command \<Rightarrow> Request \<Rightarrow> privacy_error + Request" where
  "apply_request yc (CmdBeginReview actor now) r = BeginReview yc r actor now"
| "apply_request yc (CmdDecide i outcome reason actor now) r = Decide yc r i outcome reason actor now"
| "apply_request yc (CmdBeginExecution actor now) r = BeginExecution yc r actor now"
| "apply_request yc (CmdComplete kind ref digest now) r = request_Complete yc r kind ref digest now"
| "apply_request yc (CmdFail fc now) r = request_Fail yc r fc now"
| "apply_request yc (CmdWithdraw actor now) r = Withdraw yc r actor now"
| "apply_request yc (CmdExpire now) r = Expire yc r now"

text \<open>The decisions a step adds.\<close>

definition adds_decision :: "Request \<Rightarrow> Request \<Rightarrow> bool" where
  "adds_decision r r' \<longleftrightarrow> rq_State r = RequestStateInReview \<and>
     (\<exists>d. rq_Decisions r' = rq_Decisions r @ [d] \<and> outcome_Valid (pd_Outcome d) \<and>
          validDecisionReason (pd_Outcome d) (pd_ReasonCode d) \<and> rq_State r' = outcome_state (pd_Outcome d))"

text \<open>What a step does to a request: nothing, or one transition of the graph with its event.\<close>

definition moved :: "Request \<Rightarrow> Request \<Rightarrow> bool" where
  "moved r r' \<longleftrightarrow> canTransition (rq_State r) (rq_State r') \<and> rq_Version r' = i64 (rq_Version r + 1) \<and>
     (\<exists>e. rq_Events r' = rq_Events r @ [e] \<and> ev_Sequence e = i64 (int (length (rq_Events r)) + 1) \<and>
          ev_From e = rq_State r \<and> ev_To e = rq_State r' \<and> ev_OccurredAt e = rq_UpdatedAt r' \<and>
          \<not> Before (rq_UpdatedAt r') (rq_UpdatedAt r))"

lemma transition_moved:
  assumes "transition yc r to reason actor detail ty now = Inr r'"
  shows "moved r r'" "rq_State r' = to" "rq_Decisions r' = rq_Decisions r"
  using assms by (auto simp: transition_def moved_def split: if_split_asm)

lemma transition_step:
  "transition yc r to reason actor detail ty now = Inr r' \<Longrightarrow> moved r r' \<and> rq_State r' = to \<and> rq_Decisions r' = rq_Decisions r"
  by (intro conjI; erule transition_moved)

lemma moved_update [simp]:
  "moved r (r'\<lparr>rq_Decisions := ds\<rparr>) = moved r r'"
  "moved r (r'\<lparr>rq_EffectKind := a, rq_EffectRef := b, rq_EffectDigest := c\<rparr>) = moved r r'"
  "moved r (r'\<lparr>rq_FailureClass := f\<rparr>) = moved r r'"
  by (simp_all add: moved_def)

lemma Decide_step:
  assumes "Decide yc r i outcome reason actor now = Inr r'"
  shows "r' = r \<or> moved r r' \<and> adds_decision r r'"
proof (cases "Decided (rq_State r)")
  case True
  then show ?thesis using assms by (auto simp: Decide_def Let_def split: if_split_asm)
next
  case False
  then obtain n where n: "transition yc r (outcome_state outcome) reason (targetReferenceDigest yc actor) i
      ''privacy.request.decided'' now = Inr n" and r': "r' = n\<lparr>rq_Decisions := rq_Decisions r @ [\<lparr>pd_ID = i, pd_Outcome = outcome,
               pd_ReasonCode = reason, pd_Actor = actor, pd_DecidedAt = now, pd_Version = rq_Version n\<rparr>]\<rparr>"
    and g: "outcome_Valid outcome" "validDecisionReason outcome reason" "rq_State r = RequestStateInReview"
    using assms by (auto simp: Decide_def split: if_split_asm sum.split_asm)
  show ?thesis using transition_moved [OF n] g by (auto simp: r' adds_decision_def)
qed

lemma apply_request_step:
  assumes "apply_request yc cmd r = Inr r'"
  shows "r' = r \<or> moved r r' \<and> (adds_decision r r' \<or> rq_Decisions r' = rq_Decisions r \<and> \<not> Decided (rq_State r'))"
proof (cases cmd)
  case (CmdDecide i outcome reason actor now)
  then show ?thesis using assms Decide_step by fastforce
next
  case (CmdComplete kind ref digest now)
  then obtain n where "transition yc r RequestStateCompleted kind [] [] ''privacy.request.completed'' now = Inr n"
    "r' = n\<lparr>rq_EffectKind := kind, rq_EffectRef := ref, rq_EffectDigest := digest\<rparr>"
    using assms by (auto simp: request_Complete_def split: if_split_asm sum.split_asm)
  with transition_moved [OF this(1)] show ?thesis by (auto simp: Decided_def)
next
  case (CmdFail fc now)
  then obtain n where "transition yc r RequestStateFailed [] [] fc ''privacy.request.failed'' now = Inr n"
    "r' = n\<lparr>rq_FailureClass := fc\<rparr>"
    using assms by (auto simp: request_Fail_def split: if_split_asm sum.split_asm)
  with transition_moved [OF this(1)] show ?thesis by (auto simp: Decided_def)
qed (use assms in \<open>auto simp: BeginReview_def BeginExecution_def Withdraw_def Expire_def Decided_def
      dest!: transition_step split: if_split_asm\<close>)

interpretation privacy: phased_workflow "apply_request yc" rq_State canTransition request_Terminal
  for yc :: "'u privacy_codec"
proof (unfold_locales, goal_cases)
  case (1 cmd r r')
  then show ?case using apply_request_step by (fastforce simp: moved_def)
next
  case (2 p q)
  then show ?case by (auto simp: request_Terminal_def canTransition_def requestTransitions_def)
qed

section \<open>Event histories\<close>

text \<open>The state that a list of events leads to, if every event continues the one before.\<close>

fun replay :: "request_state \<Rightarrow> Event list \<Rightarrow> request_state option" where
  "replay s [] = Some s"
| "replay s (e # es) = (if ev_From e = s \<and> canTransition s (ev_To e) then replay (ev_To e) es else None)"

lemma replay_snoc:
  "replay s es = Some t \<Longrightarrow> ev_From e = t \<Longrightarrow> canTransition t (ev_To e) \<Longrightarrow> replay s (es @ [e]) = Some (ev_To e)"
  by (induction es arbitrary: s) (auto split: if_split_asm)

inductive reachable_request :: "'u privacy_codec \<Rightarrow> Request \<Rightarrow> bool" for yc where
  created: "NewPrivacyRequest yc i t ch subj ver region payload at exp = Inr r \<Longrightarrow> reachable_request yc r"
| applied: "reachable_request yc r \<Longrightarrow> apply_request yc cmd r = Inr r' \<Longrightarrow> reachable_request yc r'"

text \<open>The decision that a state rests on.\<close>

definition decision_of :: "request_state \<Rightarrow> PrivacyDecision list \<Rightarrow> bool" where
  "decision_of s ds \<longleftrightarrow>
     (if s \<in> {RequestStateRequested, RequestStateInReview, RequestStateWithdrawn, RequestStateExpired} then ds = []
      else \<exists>d. ds = [d] \<and> validDecisionReason (pd_Outcome d) (pd_ReasonCode d) \<and>
        (if Decided s then outcome_state (pd_Outcome d) = s
         else s \<in> {RequestStateExecuting, RequestStateCompleted, RequestStateFailed} \<and>
              pd_Outcome d \<in> {OutcomeApproved, OutcomePartiallyApproved}))"

definition request_inv :: "Request \<Rightarrow> bool" where
  "request_inv r \<longleftrightarrow> replay RequestStateRequested (rq_Events r) = Some (rq_State r) \<and>
     map ev_Sequence (rq_Events r) = map (\<lambda>k. i64 (int k + 1)) [0..<length (rq_Events r)] \<and>
     rq_Version r = i64 (int (length (rq_Events r)) + 1) \<and> decision_of (rq_State r) (rq_Decisions r)"

lemma outcome_state_cases:
  "outcome_Valid d \<Longrightarrow> outcome_state d \<in> {RequestStateApproved, RequestStatePartiallyApproved, RequestStateDenied}"
  by (auto simp: outcome_Valid_def outcome_state_def)

lemma outcome_state_iff:
  "outcome_state d = RequestStateApproved \<longleftrightarrow> d = OutcomeApproved"
  "outcome_state d = RequestStatePartiallyApproved \<longleftrightarrow> d = OutcomePartiallyApproved"
  by (cases d; simp add: outcome_state_def)+

lemma decision_of_moved:
  assumes "decision_of s ds" "canTransition s t" "\<not> Decided t"
  shows "decision_of t ds"
  using assms by (cases s) (auto simp: canTransition_def requestTransitions_def decision_of_def Decided_def outcome_state_iff)

lemma apply_request_inv:
  assumes "request_inv r" "apply_request yc cmd r = Inr r'"
  shows "request_inv r'"
  using apply_request_step [OF assms(2)]
proof (elim disjE conjE)
  assume "r' = r" then show ?thesis using assms(1) by simp
next
  assume m: "moved r r'" and a: "adds_decision r r'"
  obtain d where "rq_Decisions r' = rq_Decisions r @ [d]" "outcome_Valid (pd_Outcome d)" "rq_State r = RequestStateInReview"
    "validDecisionReason (pd_Outcome d) (pd_ReasonCode d)" "rq_State r' = outcome_state (pd_Outcome d)"
    using a by (auto simp: adds_decision_def)
  then have d: "decision_of (rq_State r') (rq_Decisions r')"
    using assms(1) outcome_state_cases [of "pd_Outcome d"]
    by (auto simp: request_inv_def decision_of_def Decided_def)
  show ?thesis using m d assms(1) i64_idem by (auto simp: moved_def request_inv_def replay_snoc)
next
  assume m: "moved r r'" and a: "rq_Decisions r' = rq_Decisions r" "\<not> Decided (rq_State r')"
  have "decision_of (rq_State r') (rq_Decisions r')"
    using decision_of_moved m a assms(1) by (auto simp: moved_def request_inv_def)
  then show ?thesis using m assms(1) i64_idem by (auto simp: moved_def request_inv_def replay_snoc)
qed

lemma reachable_request_inv: "reachable_request yc r \<Longrightarrow> request_inv r"
proof (induction rule: reachable_request.induct)
  case (created i t ch subj ver region payload at exp r)
  then have "rq_Events r = []" "rq_State r = RequestStateRequested" "rq_Version r = 1" "rq_Decisions r = []"
    by (auto simp: NewPrivacyRequest_def Let_def split: if_split_asm)
  then show ?case by (simp add: request_inv_def decision_of_def i64_def)
qed (rule apply_request_inv)

section \<open>A small request\<close>

definition sample_privacy :: "unit privacy_codec" where
  "sample_privacy = \<lparr>yc_decode = (\<lambda>_. Some \<lparr>py_Purpose = [], py_RecordID = [], py_DecisionID = [], py_Name = [],
       py_Value = [], py_Kind = [], py_Normalization = []\<rparr>), yc_ulid = (\<lambda>_. Some ()), yc_sha256 = (\<lambda>b. replicate 32 (CHR ''0''))\<rparr>"

definition sample_request :: Request where
  "sample_request = \<lparr>rq_ID = ''pr'', rq_Type = RequestErasure, rq_State = RequestStateRequested, rq_Channel = ChannelTenantAPI,
     rq_SubjectID = [], rq_VerificationID = [], rq_Region = ''eu'', rq_Payload = ''{}'', rq_ReasonCode = [],
     rq_FailureClass = [], rq_EffectKind = [], rq_EffectRef = [], rq_EffectDigest = [], rq_ExpiresAt = utc_at 9000,
     rq_RequestedAt = utc_at 1000, rq_UpdatedAt = utc_at 1000, rq_Version = 1, rq_Decisions = [], rq_Events = []\<rparr>"

lemma sample_payload: "parses (ValidatePayload sample_privacy RequestErasure ''{}'')"
  by (simp add: ValidatePayload_def sample_privacy_def type_Valid_def no_correction_def parses_def)

lemma sample_request_created:
  "NewPrivacyRequest sample_privacy ''pr'' RequestErasure ChannelTenantAPI [] [] ''eu'' ''{}'' (utc_at 1000) (utc_at 9000) =
     Inr sample_request"
  by (simp add: NewPrivacyRequest_def request_Validate_def sample_payload sample_request_def type_Valid_def state_Valid_def
      channel_Valid_def privacy_region_def sample_tokens go_time_simps request_Terminal_def)

section \<open>Properties\<close>

text \<open>
  C35. Requests have a complete, authorised history: in every reachable request the events, numbered
  from one, lead along the transition graph from requested to the present state, and the version
  counts them; a request that executes, has completed or has failed rests on exactly one decision,
  which approved it in full or in part; and a terminal request never changes again.
\<close>

theorem privacy_request_history:
  assumes "reachable_request yc r"
  shows "replay RequestStateRequested (rq_Events r) = Some (rq_State r) \<and>
    map ev_Sequence (rq_Events r) = map (\<lambda>k. i64 (int k + 1)) [0..<length (rq_Events r)] \<and>
    rq_Version r = i64 (int (length (rq_Events r)) + 1) \<and>
    (rq_State r \<in> {RequestStateExecuting, RequestStateCompleted, RequestStateFailed} \<longrightarrow>
      (\<exists>d. rq_Decisions r = [d] \<and> pd_Outcome d \<in> {OutcomeApproved, OutcomePartiallyApproved})) \<and>
    (\<forall>cmds r'. request_Terminal (rq_State r) \<longrightarrow> run_all (apply_request yc) cmds r = Inr r' \<longrightarrow> r' = r)"
  using reachable_request_inv [OF assms] privacy.run_final [of r yc]
  by (auto simp: request_inv_def decision_of_def Decided_def)

theorem privacy_request_history_witness:
  "\<exists>r. run_all (apply_request sample_privacy) [CmdBeginReview ''a'' (utc_at 2000),
       CmdDecide ''pd'' OutcomeApproved ''erasure_approved'' ''actor'' (utc_at 3000), CmdBeginExecution ''w'' (utc_at 4000)]
       sample_request = Inr r \<and> rq_Version r = 4 \<and> length (rq_Decisions r) = 1"
proof -
  let ?cmds = "[CmdBeginReview ''a'' (utc_at 2000),
       CmdDecide ''pd'' OutcomeApproved ''erasure_approved'' ''actor'' (utc_at 3000), CmdBeginExecution ''w'' (utc_at 4000)]"
  have "\<exists>r. run_all (apply_request sample_privacy) ?cmds sample_request = Inr r \<and> rq_State r = RequestStateExecuting \<and> length (rq_Events r) = 3"
    by (simp add: BeginReview_def Decide_def BeginExecution_def transition_def request_Validate_def sample_payload sample_request_def
        type_Valid_def state_Valid_def channel_Valid_def privacy_region_def sample_tokens go_time_simps request_Terminal_def
        canTransition_def requestTransitions_def outcome_Valid_def outcome_state_def validDecisionReason_def ValidApproval_def
        approveReasonCodes_def Decided_def token_def i64_def)
  then obtain r where r: "run_all (apply_request sample_privacy) ?cmds sample_request = Inr r"
    "rq_State r = RequestStateExecuting" "length (rq_Events r) = 3" by blast
  have "reachable_request sample_privacy r"
    using r(1) created [OF sample_request_created] by (rule run_all_invariant) (rule applied)
  from privacy_request_history [OF this] r show ?thesis by (auto simp: i64_def)
qed

end
