(* ===== verification/Go_Text.thy ===== *)
theory Go_Text
  imports Go_Prelude
begin

text \<open>
  The text library the access components rest on: chains of fallible calls, UTF-8
  (\<^verbatim>\<open>unicode/utf8\<close>, \<^verbatim>\<open>unicode.IsSpace\<close>, \<^verbatim>\<open>strings.TrimSpace\<close>), \<^verbatim>\<open>strings.Split\<close> and
  \<^verbatim>\<open>strings.Join\<close> at a one-byte separator, \<^verbatim>\<open>strconv.FormatUint\<close> and \<^verbatim>\<open>ParseUint\<close> in base 10,
  \<^verbatim>\<open>base64.RawURLEncoding\<close> and \<^verbatim>\<open>slices.BinarySearch\<close>.
\<close>

named_theorems chain_iff "when a chain of fallible calls returns a value"

section \<open>Chains of fallible calls\<close>

text \<open>\<^verbatim>\<open>x, err := m; if err != nil { return err }\<close> and \<^verbatim>\<open>if !b { return e }\<close>.\<close>

fun and_then :: "'err + 'v \<Rightarrow> ('v \<Rightarrow> 'err + 'w) \<Rightarrow> 'err + 'w" where
  "and_then (Inr v) k = k v"
| "and_then (Inl err) k = Inl err"

definition guard :: "bool \<Rightarrow> 'err \<Rightarrow> 'err + 'w \<Rightarrow> 'err + 'w" where
  "guard ok err rest = (if ok then rest else Inl err)"

lemma and_then_Inr [chain_iff]: "and_then r k = Inr w \<longleftrightarrow> (case r of Inl _ \<Rightarrow> False | Inr v \<Rightarrow> k v = Inr w)"
  by (cases r) simp_all

lemma and_then_returns [chain_iff]: "(case r of Inl _ \<Rightarrow> False | Inr v \<Rightarrow> P v) \<longleftrightarrow> (\<exists>v. r = Inr v \<and> P v)"
  by (cases r) simp_all

lemma and_then_fails: "and_then r k = Inl err \<longleftrightarrow> r = Inl err \<or> (\<exists>v. r = Inr v \<and> k v = Inl err)"
  by (cases r) simp_all

lemma guard_simps [simp]: "guard True err rest = rest" "guard False err rest = Inl err"
  by (simp_all add: guard_def)

lemma guard_passes [chain_iff]: "guard ok err rest = Inr w \<longleftrightarrow> ok \<and> rest = Inr w"
  by (simp add: guard_def)

section \<open>UTF-8\<close>

text \<open>
  The runes of a well-formed UTF-8 string; \<open>None\<close> where \<^verbatim>\<open>utf8.ValidString\<close> is false (stray or
  missing continuation bytes, overlong forms, surrogates, values above U+10FFFF).
\<close>

definition continuation :: "nat \<Rightarrow> nat \<Rightarrow> char \<Rightarrow> bool" where
  "continuation lo hi c \<longleftrightarrow> lo \<le> of_char c \<and> of_char c \<le> hi"

definition second_range :: "nat \<Rightarrow> nat \<times> nat" where
  "second_range b =
     (if b = 0xE0 then (0xA0, 0xBF) else if b = 0xED then (0x80, 0x9F)
      else if b = 0xF0 then (0x90, 0xBF) else if b = 0xF4 then (0x80, 0x8F) else (0x80, 0xBF))"

fun utf8_runes :: "string \<Rightarrow> nat list option" where
  "utf8_runes [] = Some []"
| "utf8_runes (a # s) =
     (let b = of_char a; (lo, hi) = second_range b in
      if b < 0x80 then map_option (Cons b) (utf8_runes s)
      else if 0xC2 \<le> b \<and> b \<le> 0xDF then
        (case s of
           c1 # r \<Rightarrow> if continuation lo hi c1
             then map_option (Cons ((b mod 32) * 64 + of_char c1 mod 64)) (utf8_runes r) else None
         | _ \<Rightarrow> None)
      else if 0xE0 \<le> b \<and> b \<le> 0xEF then
        (case s of
           c1 # c2 # r \<Rightarrow> if continuation lo hi c1 \<and> continuation 0x80 0xBF c2
             then map_option (Cons ((b mod 16) * 4096 + (of_char c1 mod 64) * 64 + of_char c2 mod 64))
                    (utf8_runes r) else None
         | _ \<Rightarrow> None)
      else if 0xF0 \<le> b \<and> b \<le> 0xF4 then
        (case s of
           c1 # c2 # c3 # r \<Rightarrow>
             if continuation lo hi c1 \<and> continuation 0x80 0xBF c2 \<and> continuation 0x80 0xBF c3
             then map_option (Cons ((b mod 8) * 262144 + (of_char c1 mod 64) * 4096
                    + (of_char c2 mod 64) * 64 + of_char c3 mod 64)) (utf8_runes r) else None
         | _ \<Rightarrow> None)
      else None)"

definition rune_IsSpace :: "nat \<Rightarrow> bool" where
  "rune_IsSpace r \<longleftrightarrow> (9 \<le> r \<and> r \<le> 13) \<or> r = 0x20 \<or> r = 0x85 \<or> r = 0xA0 \<or> r = 0x1680
     \<or> (0x2000 \<le> r \<and> r \<le> 0x200A) \<or> r = 0x2028 \<or> r = 0x2029 \<or> r = 0x202F \<or> r = 0x205F \<or> r = 0x3000"

text \<open>
  The check the program makes of every operator-supplied label, actor and reason:
  \<^verbatim>\<open>strings.TrimSpace(s) != s || s == "" || !utf8.ValidString(s) || utf8.RuneCountInString(s) > m\<close>,
  and no rune below 0x20 or equal to 0x7f. A valid string equals its \<^verbatim>\<open>TrimSpace\<close> iff neither its
  first nor its last rune is a space.
\<close>

definition bounded_text :: "nat \<Rightarrow> string \<Rightarrow> bool" where
  "bounded_text m s =
     (case utf8_runes s of
        None \<Rightarrow> False
      | Some rs \<Rightarrow> rs \<noteq> [] \<and> \<not> rune_IsSpace (hd rs) \<and> \<not> rune_IsSpace (last rs) \<and> length rs \<le> m
          \<and> list_all (\<lambda>r. 0x20 \<le> r \<and> r \<noteq> 0x7F) rs)"

text \<open>
  \<^verbatim>\<open>strings.TrimSpace(s) != s\<close> on any bytes: the string starts or ends with the encoding of a
  space (UTF-8 is self-synchronising, so decoding the first or last rune is matching bytes).
\<close>

definition space_encodings :: "nat list list" where
  "space_encodings =
     [[9], [10], [11], [12], [13], [0x20], [0xC2, 0x85], [0xC2, 0xA0], [0xE1, 0x9A, 0x80]]
     @ map (\<lambda>i. [0xE2, 0x80, 0x80 + i]) [0..<11]
     @ [[0xE2, 0x80, 0xA8], [0xE2, 0x80, 0xA9], [0xE2, 0x80, 0xAF], [0xE2, 0x81, 0x9F], [0xE3, 0x80, 0x80]]"

definition surrounding_space :: "string \<Rightarrow> bool" where
  "surrounding_space s \<longleftrightarrow>
     (let bs = map of_char s in
      list_ex (\<lambda>e. take (length e) bs = e \<or> drop (length bs - length e) bs = e) space_encodings)"

section \<open>Runes of an arbitrary string\<close>

text \<open>\<^verbatim>\<open>for _, r := range s\<close>: a byte that starts no well-formed rune is U+FFFD, and the loop goes on.\<close>

fun string_runes :: "string \<Rightarrow> nat list" where
  "string_runes [] = []"
| "string_runes (a # s) =
     (let b = of_char a; (lo, hi) = second_range b in
      if b < 0x80 then b # string_runes s
      else if 0xC2 \<le> b \<and> b \<le> 0xDF then
        (case s of
           c1 # r \<Rightarrow> if continuation lo hi c1
             then ((b mod 32) * 64 + of_char c1 mod 64) # string_runes r else 0xFFFD # string_runes s
         | _ \<Rightarrow> 0xFFFD # string_runes s)
      else if 0xE0 \<le> b \<and> b \<le> 0xEF then
        (case s of
           c1 # c2 # r \<Rightarrow> if continuation lo hi c1 \<and> continuation 0x80 0xBF c2
             then ((b mod 16) * 4096 + (of_char c1 mod 64) * 64 + of_char c2 mod 64) # string_runes r
             else 0xFFFD # string_runes s
         | _ \<Rightarrow> 0xFFFD # string_runes s)
      else if 0xF0 \<le> b \<and> b \<le> 0xF4 then
        (case s of
           c1 # c2 # c3 # r \<Rightarrow>
             if continuation lo hi c1 \<and> continuation 0x80 0xBF c2 \<and> continuation 0x80 0xBF c3
             then ((b mod 8) * 262144 + (of_char c1 mod 64) * 4096 + (of_char c2 mod 64) * 64
                    + of_char c3 mod 64) # string_runes r
             else 0xFFFD # string_runes s
         | _ \<Rightarrow> 0xFFFD # string_runes s)
      else 0xFFFD # string_runes s)"

definition IsControl :: "nat \<Rightarrow> bool" where
  "IsControl r \<longleftrightarrow> r < 0x20 \<or> (0x7F \<le> r \<and> r < 0xA0)"

lemma string_runes_ascii: "list_all (\<lambda>c. of_char c < (128 :: nat)) s \<Longrightarrow> string_runes s = map of_char s"
  by (induction s) (simp_all add: Let_def split: prod.split)

text \<open>A string of visible ASCII characters: no space, no control character.\<close>

definition graphic :: "string \<Rightarrow> bool" where
  "graphic s \<longleftrightarrow> list_all (\<lambda>c. 0x21 \<le> (of_char c :: nat) \<and> of_char c < (0x7F :: nat)) s"

lemma space_encodings_bytes:
  assumes "e \<in> set space_encodings"
  shows "e \<noteq> []" "hd e \<le> 0x20 \<or> 0x80 \<le> hd e" "last e \<le> 0x20 \<or> 0x80 \<le> last e"
  using assms by (auto simp: space_encodings_def)

lemma graphic_runes:
  assumes "graphic s"
  shows "\<not> list_ex IsControl (string_runes s)" "\<not> list_ex rune_IsSpace (string_runes s)"
    "list_all (\<lambda>r. \<not> IsControl r) (string_runes s)" "list_all (\<lambda>r. \<not> rune_IsSpace r \<and> \<not> IsControl r) (string_runes s)"
proof -
  have "string_runes s = map of_char s"
    using assms by (intro string_runes_ascii) (auto simp: graphic_def list_all_iff)
  moreover have "\<not> rune_IsSpace (of_char c) \<and> \<not> IsControl (of_char c)" if "c \<in> set s" for c
    using assms that by (auto simp: graphic_def list_all_iff rune_IsSpace_def IsControl_def)
  ultimately show "\<not> list_ex IsControl (string_runes s)" "\<not> list_ex rune_IsSpace (string_runes s)"
    "list_all (\<lambda>r. \<not> IsControl r) (string_runes s)" "list_all (\<lambda>r. \<not> rune_IsSpace r \<and> \<not> IsControl r) (string_runes s)"
    by (auto simp: list_ex_iff list_all_iff)
qed

lemma graphic_no_space:
  assumes "graphic s"
  shows "\<not> surrounding_space s"
proof
  assume "surrounding_space s"
  then obtain e where e: "e \<in> set space_encodings"
    "take (length e) (map of_char s) = e \<or> drop (length s - length e) (map of_char s) = e"
    by (auto simp: surrounding_space_def Let_def list_ex_iff)
  note b = space_encodings_bytes [OF e(1)]
  have "set e \<subseteq> set (map of_char s)" using e(2) set_take_subset set_drop_subset by metis
  moreover have "hd e \<in> set e" using b(1) by simp
  ultimately obtain c where "c \<in> set s" "hd e = of_char c" by auto
  with assms b(2) show False by (auto simp: graphic_def list_all_iff)
qed

section \<open>Split and Join\<close>

fun Split :: "char \<Rightarrow> string \<Rightarrow> string list" where
  "Split c [] = [[]]"
| "Split c (x # xs) =
     (if x = c then [] # Split c xs
      else case Split c xs of [] \<Rightarrow> [[x]] | p # ps \<Rightarrow> (x # p) # ps)"

fun Join :: "char \<Rightarrow> string list \<Rightarrow> string" where
  "Join c [] = []"
| "Join c [p] = p"
| "Join c (p # q # ps) = p @ c # Join c (q # ps)"

lemma Split_neq_Nil [simp]: "Split c s \<noteq> []"
  by (induction s) (auto split: list.splits)

lemma Split_append: "c \<notin> set p \<Longrightarrow> Split c (p @ c # s) = p # Split c s"
  by (induction p) auto

lemma Split_single: "c \<notin> set p \<Longrightarrow> Split c p = [p]"
  by (induction p) auto

lemma Split_Join: "ps \<noteq> [] \<Longrightarrow> (\<And>p. p \<in> set ps \<Longrightarrow> c \<notin> set p) \<Longrightarrow> Split c (Join c ps) = ps"
  by (induction c ps rule: Join.induct) (auto simp: Split_append Split_single)

lemma Join_Split: "Join c (Split c s) = s"
proof (induction s)
  case (Cons x xs)
  obtain p ps where p: "Split c xs = p # ps"
    using Split_neq_Nil list.exhaust by metis
  with Cons.IH show ?case by (cases ps) auto
qed simp

lemma Split_no_separator: "p \<in> set (Split c s) \<Longrightarrow> c \<notin> set p"
  by (induction s arbitrary: p) (auto split: list.splits if_splits)

section \<open>Unsigned decimal numbers\<close>

definition decimal_digit :: "nat \<Rightarrow> char" where
  "decimal_digit n = ''0123456789'' ! n"

definition decimal_value :: "char \<Rightarrow> nat option" where
  "decimal_value = map_of (zip ''0123456789'' [0..<10])"

fun FormatUint :: "nat \<Rightarrow> string" where
  "FormatUint n = (if n < 10 then [decimal_digit n] else FormatUint (n div 10) @ [decimal_digit (n mod 10)])"

declare FormatUint.simps [simp del]

fun decimal_from :: "nat \<Rightarrow> string \<Rightarrow> nat option" where
  "decimal_from acc [] = Some acc"
| "decimal_from acc (c # cs) =
     (case decimal_value c of None \<Rightarrow> None | Some d \<Rightarrow> decimal_from (10 * acc + d) cs)"

text \<open>\<^verbatim>\<open>strconv.ParseUint(s, 10, 16)\<close>\<close>

definition ParseUint16 :: "string \<Rightarrow> nat option" where
  "ParseUint16 s =
     (if s = [] then None
      else case decimal_from 0 s of None \<Rightarrow> None | Some n \<Rightarrow> if n < 65536 then Some n else None)"

lemma decimal_digit_table:
  "list_all (\<lambda>n. decimal_value (decimal_digit n) = Some n \<and> is_digit (decimal_digit n)) [0..<10]"
  by (simp add: decimal_value_def decimal_digit_def upt_rec token_simps)

lemma decimal_digit_value: "n < 10 \<Longrightarrow> decimal_value (decimal_digit n) = Some n"
  and decimal_digit_digit: "n < 10 \<Longrightarrow> is_digit (decimal_digit n)"
  using decimal_digit_table by (simp_all add: list_all_iff)

lemma decimal_from_append:
  "decimal_from acc (a @ b) = (case decimal_from acc a of None \<Rightarrow> None | Some n \<Rightarrow> decimal_from n b)"
  by (induction a arbitrary: acc) (auto split: option.splits)

lemma decimal_from_Format: "decimal_from 0 (FormatUint n) = Some n"
proof (induction n rule: FormatUint.induct)
  case (1 n)
  show ?case
  proof (cases "n < 10")
    case True
    then show ?thesis by (subst FormatUint.simps) (simp add: decimal_digit_value)
  next
    case False
    then have "decimal_from 0 (FormatUint (n div 10)) = Some (n div 10)"
      using "1.IH" by simp
    moreover have "decimal_value (decimal_digit (n mod 10)) = Some (n mod 10)"
      by (rule decimal_digit_value) simp
    moreover have "10 * (n div 10) + n mod 10 = n" by simp
    ultimately show ?thesis
      using False by (subst FormatUint.simps) (simp add: decimal_from_append)
  qed
qed

lemma FormatUint_neq_Nil [simp]: "FormatUint n \<noteq> []"
  by (subst FormatUint.simps) simp

lemma FormatUint_digits: "list_all is_digit (FormatUint n)"
proof (induction n rule: FormatUint.induct)
  case (1 n)
  then show ?case
    by (subst FormatUint.simps) (simp add: decimal_digit_digit)
qed

lemma ParseUint16_Format: "n < 65536 \<Longrightarrow> ParseUint16 (FormatUint n) = Some n"
  by (simp add: ParseUint16_def decimal_from_Format)

lemma FormatUint_inj: "FormatUint m = FormatUint n \<longleftrightarrow> m = n"
  by (metis decimal_from_Format option.inject)

section \<open>Base64 without padding, URL alphabet\<close>

definition b64_alphabet :: string where
  "b64_alphabet = ''ABCDEFGHIJKLMNOPQRSTUVWXYZabcdefghijklmnopqrstuvwxyz0123456789-_''"

definition b64_digit :: "nat \<Rightarrow> char" where
  "b64_digit n = b64_alphabet ! n"

definition b64_value :: "char \<Rightarrow> nat option" where
  "b64_value = map_of (zip b64_alphabet [0..<64])"

fun b64_groups :: "nat list \<Rightarrow> nat list" where
  "b64_groups (a # b # c # r) =
     [a div 4, (a mod 4) * 16 + b div 16, (b mod 16) * 4 + c div 64, c mod 64] @ b64_groups r"
| "b64_groups [a, b] = [a div 4, (a mod 4) * 16 + b div 16, (b mod 16) * 4]"
| "b64_groups [a] = [a div 4, (a mod 4) * 16]"
| "b64_groups [] = []"

definition b64_encode :: "string \<Rightarrow> string" where
  "b64_encode s = map b64_digit (b64_groups (map of_char s))"

text \<open>The decoder is not the strict one: the unused low bits of a final group are ignored.\<close>

fun b64_ungroup :: "nat list \<Rightarrow> nat list option" where
  "b64_ungroup (x # y # z # w # r) =
     map_option (\<lambda>bs. [x * 4 + y div 16, (y mod 16) * 16 + z div 4, (z mod 4) * 64 + w] @ bs) (b64_ungroup r)"
| "b64_ungroup [x, y, z] = Some [x * 4 + y div 16, (y mod 16) * 16 + z div 4]"
| "b64_ungroup [x, y] = Some [x * 4 + y div 16]"
| "b64_ungroup [x] = None"
| "b64_ungroup [] = Some []"

fun b64_values :: "string \<Rightarrow> nat list option" where
  "b64_values [] = Some []"
| "b64_values (c # cs) =
     (case b64_value c of None \<Rightarrow> None | Some v \<Rightarrow> map_option (Cons v) (b64_values cs))"

text \<open>\<^verbatim>\<open>DecodeString\<close>: carriage returns and line feeds are skipped, anything else must be a digit.\<close>

definition b64_decode :: "string \<Rightarrow> string option" where
  "b64_decode s =
     (case b64_values (filter (\<lambda>c. of_char c \<noteq> (10 :: nat) \<and> of_char c \<noteq> (13 :: nat)) s) of
        None \<Rightarrow> None
      | Some vs \<Rightarrow> map_option (map char_of) (b64_ungroup vs))"

definition b64_char :: "char \<Rightarrow> bool" where
  "b64_char c \<longleftrightarrow> c \<in> set b64_alphabet"

lemma length_b64_alphabet: "length b64_alphabet = 64"
  by (simp add: b64_alphabet_def)

lemma b64_digit_value: "n < 64 \<Longrightarrow> b64_value (b64_digit n) = Some n"
proof -
  have "distinct b64_alphabet" by (simp add: b64_alphabet_def)
  moreover assume "n < 64"
  ultimately show ?thesis
    by (simp add: b64_value_def b64_digit_def map_of_zip_nth length_b64_alphabet)
qed

lemma b64_digit_char: "n < 64 \<Longrightarrow> b64_char (b64_digit n)"
  by (simp add: b64_char_def b64_digit_def length_b64_alphabet)

lemma b64_char_plain:
  assumes "b64_char c"
  shows "c \<noteq> CHR ''.'' \<and> of_char c \<noteq> (10 :: nat) \<and> of_char c \<noteq> (13 :: nat)"
proof -
  have "list_all (\<lambda>c. c \<noteq> CHR ''.'' \<and> of_char c \<noteq> (10 :: nat) \<and> of_char c \<noteq> (13 :: nat)) b64_alphabet"
    by (simp add: b64_alphabet_def)
  then show ?thesis using assms by (simp add: b64_char_def list_all_iff)
qed

lemma b64_groups_bound:
  "list_all (\<lambda>b. b < 256) bs \<Longrightarrow> list_all (\<lambda>v. v < 64) (b64_groups bs)"
  by (induction bs rule: b64_groups.induct) auto

lemma b64_split: "(a mod 4 * 16 + b div 16) div 16 = a mod 4" "(a mod 4 * 16 + b div 16) mod 16 = b div 16"
  if "b < 256" for a b :: nat
  using that by auto

lemma b64_split': "(b mod 16 * 4 + c div 64) div 4 = b mod 16" "(b mod 16 * 4 + c div 64) mod 4 = c div 64"
  if "c < 256" for b c :: nat
  using that by auto

lemma b64_group_roundtrip: "list_all (\<lambda>b. b < 256) bs \<Longrightarrow> b64_ungroup (b64_groups bs) = Some bs"
  by (induction bs rule: b64_groups.induct) (auto simp: b64_split b64_split')

lemma b64_values_digits:
  "list_all (\<lambda>v. v < 64) vs \<Longrightarrow> b64_values (map b64_digit vs) = Some vs"
  by (induction vs) (auto simp: b64_digit_value)

lemma b64_encode_chars: "c \<in> set (b64_encode s) \<Longrightarrow> b64_char c"
proof -
  assume "c \<in> set (b64_encode s)"
  then obtain v where v: "v \<in> set (b64_groups (map of_char s))" "c = b64_digit v"
    by (auto simp: b64_encode_def)
  have "list_all (\<lambda>v. v < 64) (b64_groups (map of_char s))"
    by (rule b64_groups_bound) (simp add: list_all_iff)
  with v show ?thesis by (simp add: list_all_iff b64_digit_char)
qed

lemma b64_roundtrip: "b64_decode (b64_encode s) = Some s"
proof -
  have b: "list_all (\<lambda>b :: nat. b < 256) (map of_char s)"
    by (simp add: list_all_iff)
  have "filter (\<lambda>c. of_char c \<noteq> (10 :: nat) \<and> of_char c \<noteq> (13 :: nat)) (b64_encode s) = b64_encode s"
    using b64_encode_chars b64_char_plain by (intro filter_True) blast
  moreover have "b64_values (b64_encode s) = Some (b64_groups (map of_char s))"
    unfolding b64_encode_def by (rule b64_values_digits) (rule b64_groups_bound [OF b])
  ultimately show ?thesis
    by (simp add: b64_decode_def b64_group_roundtrip [OF b] comp_def)
qed

lemma b64_groups_length:
  "length (b64_groups bs) = (4 * length bs + 2) div 3"
  by (induction bs rule: b64_groups.induct) auto

lemma b64_encode_length: "length (b64_encode s) = (4 * length s + 2) div 3"
  by (simp add: b64_encode_def b64_groups_length)

lemma b64_encode_inj: "b64_encode a = b64_encode b \<longleftrightarrow> a = b"
  by (metis b64_roundtrip option.inject)

text \<open>Two texts of the same bytes: the low bits of the last digit do not matter.\<close>

lemma b64_trailing_bits_ignored: "b64_decode ''AAA'' = b64_decode ''AAB'' \<and> b64_decode ''AAB'' \<noteq> None"
  by (simp add: b64_decode_def b64_value_def b64_alphabet_def upt_rec)

section \<open>Binary search\<close>

text \<open>
  \<^verbatim>\<open>slices.BinarySearch\<close>: the loop on \<^verbatim>\<open>i < j\<close> with the middle index \<^verbatim>\<open>h = (i + j) >> 1\<close>, then the
  test of the element at the final index.
\<close>

function search_loop :: "'a::linorder list \<Rightarrow> 'a \<Rightarrow> nat \<Rightarrow> nat \<Rightarrow> nat" where
  "search_loop xs t i j =
     (if i < j then
        let h = (i + j) div 2 in
        if xs ! h < t then search_loop xs t (h + 1) j else search_loop xs t i h
      else i)"
  by pat_completeness auto

termination
  by (relation "measure (\<lambda>(xs, t, i, j). j - i)") auto

declare search_loop.simps [simp del]

definition BinarySearch :: "'a::linorder list \<Rightarrow> 'a \<Rightarrow> nat \<times> bool" where
  "BinarySearch xs t =
     (let i = search_loop xs t 0 (length xs) in (i, i < length xs \<and> xs ! i = t))"

lemma search_loop_boundary:
  assumes "sorted xs" and "i \<le> j" and "j \<le> length xs"
    and "\<And>k. k < i \<Longrightarrow> xs ! k < t" and "\<And>k. j \<le> k \<Longrightarrow> k < length xs \<Longrightarrow> t \<le> xs ! k"
  shows "search_loop xs t i j \<le> length xs
    \<and> (\<forall>k < search_loop xs t i j. xs ! k < t)
    \<and> (\<forall>k. search_loop xs t i j \<le> k \<and> k < length xs \<longrightarrow> t \<le> xs ! k)"
  using assms
proof (induction xs t i j rule: search_loop.induct)
  case (1 xs t i j)
  show ?case
  proof (cases "i < j")
    case False
    then show ?thesis
      using "1.prems" by (subst (1 2 3) search_loop.simps) auto
  next
    case True
    define h where "h = (i + j) div 2"
    have h: "i \<le> h" "h < j" using True by (simp_all add: h_def)
    show ?thesis
    proof (cases "xs ! h < t")
      case less: True
      have "xs ! k < t" if "k < h + 1" for k
      proof -
        have "xs ! k \<le> xs ! h"
          using that "1.prems"(3) h by (intro sorted_nth_mono "1.prems"(1)) auto
        with less show ?thesis by simp
      qed
      then have "search_loop xs t (h + 1) j \<le> length xs
          \<and> (\<forall>k < search_loop xs t (h + 1) j. xs ! k < t)
          \<and> (\<forall>k. search_loop xs t (h + 1) j \<le> k \<and> k < length xs \<longrightarrow> t \<le> xs ! k)"
        using "1.IH"(1) [OF True h_def less] "1.prems" h by simp
      moreover have "search_loop xs t i j = search_loop xs t (h + 1) j"
        using True less by (subst search_loop.simps) (simp add: h_def)
      ultimately show ?thesis by simp
    next
      case ge: False
      have right: "t \<le> xs ! k" if "h \<le> k" "k < length xs" for k
      proof -
        have "xs ! h \<le> xs ! k"
          using that by (intro sorted_nth_mono "1.prems"(1))
        with ge show ?thesis by simp
      qed
      have "search_loop xs t i h \<le> length xs
          \<and> (\<forall>k < search_loop xs t i h. xs ! k < t)
          \<and> (\<forall>k. search_loop xs t i h \<le> k \<and> k < length xs \<longrightarrow> t \<le> xs ! k)"
        by (rule "1.IH"(2) [OF True h_def ge "1.prems"(1) h(1) _ "1.prems"(4) right])
           (use h "1.prems"(3) in auto)
      moreover have "search_loop xs t i j = search_loop xs t i h"
        using True ge by (subst search_loop.simps) (simp add: h_def)
      ultimately show ?thesis by simp
    qed
  qed
qed

lemma BinarySearch_iff: "sorted xs \<Longrightarrow> snd (BinarySearch xs t) \<longleftrightarrow> t \<in> set xs"
proof -
  assume "sorted xs"
  define i where "i = search_loop xs t 0 (length xs)"
  have b: "\<forall>k < i. xs ! k < t" "\<forall>k. i \<le> k \<and> k < length xs \<longrightarrow> t \<le> xs ! k"
    using search_loop_boundary [OF \<open>sorted xs\<close>, of 0 "length xs" t] by (simp_all add: i_def)
  have "i < length xs \<and> xs ! i = t" if "k < length xs" "xs ! k = t" for k
  proof -
    have "i \<le> k" using b(1) that by (metis not_less order_less_irrefl)
    moreover from this have "xs ! i \<le> t"
      using sorted_nth_mono [OF \<open>sorted xs\<close>] that by blast
    ultimately show ?thesis using b(2) that(1) by auto
  qed
  then show ?thesis
    by (auto simp: BinarySearch_def Let_def i_def [symmetric] in_set_conv_nth)
qed

end
