(* ===== verification/Access_Scope.thy ===== *)
theory Access_Scope
  imports Go_Text
begin

text \<open>
  \<^verbatim>\<open>internal/access/scope.go\<close>: permissions, scope patterns, the registry of permissions a tenant
  may be given, and the grant snapshot attached to a credential. A permission and a pattern are
  strings, as in the source; the declared permission constants are the datatype
  \<open>named_permission\<close> with their strings. The lemmas lead to what a grant allows: exactly the
  registered permissions its patterns match, and the same after it is stored and restored.
\<close>

datatype (plugins only: size) scope_error =
    ScopeWhitespace | ScopeSegments | SegmentLength | SegmentCharacter
  | RegistryEmpty | PermissionNotCanonical | DuplicatePermission
  | PatternsRequired | PatternNotCanonical | DuplicatePattern | PatternUnmatched
  | SnapshotEmpty | SnapshotPattern | SnapshotPermission | PermissionNotCovered | PatternUncovering

datatype (plugins only: size) named_permission =
    PermissionSubjectsRead | PermissionSubjectsWrite | PermissionSubjectsDelete |
    PermissionIdentityRead | PermissionIdentityWrite | PermissionIdentityReveal |
    PermissionIdentityConfigure | PermissionFraudRead | PermissionFraudWrite |
    PermissionFraudConfigure | PermissionModelsRead | PermissionModelsWrite |
    PermissionModelsActivate | PermissionPoliciesRead | PermissionPacksRead |
    PermissionExperiencesRead | PermissionExperiencesWrite | PermissionExperiencesPublish |
    PermissionPoliciesWrite | PermissionPoliciesActivate | PermissionWebhooksRead |
    PermissionWebhooksConfigure | PermissionWebhooksReplay | PermissionTenantRead |
    PermissionTenantExport | PermissionAuditExport | PermissionCaptureProfilesRead |
    PermissionCaptureProfilesWrite | PermissionVerificationSessionsCreate |
    PermissionVerificationSessionsResume | PermissionVerificationSessionsCancel |
    PermissionVerificationSessionsRead | PermissionNoticesRead | PermissionNoticesWrite |
    PermissionAuthoritiesRead | PermissionAuthoritiesWrite | PermissionEvidenceRead |
    PermissionEvidenceGrantsRead | PermissionEvidenceGrantsWrite | PermissionConsentsRead |
    PermissionConsentsWrite | PermissionDecisionsRead | PermissionDecisionsExport |
    PermissionReviewsRead | PermissionReviewsWrite | PermissionReviewsAdmin |
    PermissionAppealsWrite | PermissionPrivacyRequestsRead |
    PermissionPrivacyRequestsWrite | PermissionPrivacyRequestsApprove |
    PermissionDeletionsRead | PermissionDeletionsWrite | PermissionLegalHoldsWrite |
    PermissionProposalsRead | PermissionProposalsWrite | PermissionProposalsApprove |
    PermissionProposalsConfigure | PermissionPromptsRead | PermissionPromptsWrite |
    PermissionProvidersRead | PermissionProvidersWrite | PermissionKMSRead |
    PermissionKMSWrite | PermissionSupportAccessRead | PermissionSupportAccessWrite |
    PermissionBreakGlassRequest | PermissionBreakGlassApprove | PermissionBreakGlassUse

primrec permission_name :: "named_permission \<Rightarrow> string" where
  "permission_name PermissionSubjectsRead = ''subjects:read''"
| "permission_name PermissionSubjectsWrite = ''subjects:write''"
| "permission_name PermissionSubjectsDelete = ''subjects:delete''"
| "permission_name PermissionIdentityRead = ''identity:read''"
| "permission_name PermissionIdentityWrite = ''identity:write''"
| "permission_name PermissionIdentityReveal = ''identity:reveal''"
| "permission_name PermissionIdentityConfigure = ''identity:configure''"
| "permission_name PermissionFraudRead = ''fraud:read''"
| "permission_name PermissionFraudWrite = ''fraud:write''"
| "permission_name PermissionFraudConfigure = ''fraud:configure''"
| "permission_name PermissionModelsRead = ''models:read''"
| "permission_name PermissionModelsWrite = ''models:write''"
| "permission_name PermissionModelsActivate = ''models:activate''"
| "permission_name PermissionPoliciesRead = ''policies:read''"
| "permission_name PermissionPacksRead = ''packs:read''"
| "permission_name PermissionExperiencesRead = ''experiences:read''"
| "permission_name PermissionExperiencesWrite = ''experiences:write''"
| "permission_name PermissionExperiencesPublish = ''experiences:publish''"
| "permission_name PermissionPoliciesWrite = ''policies:write''"
| "permission_name PermissionPoliciesActivate = ''policies:activate''"
| "permission_name PermissionWebhooksRead = ''webhooks:read''"
| "permission_name PermissionWebhooksConfigure = ''webhooks:configure''"
| "permission_name PermissionWebhooksReplay = ''webhooks:replay''"
| "permission_name PermissionTenantRead = ''tenant:read''"
| "permission_name PermissionTenantExport = ''tenant:export''"
| "permission_name PermissionAuditExport = ''audit:export''"
| "permission_name PermissionCaptureProfilesRead = ''capture_profiles:read''"
| "permission_name PermissionCaptureProfilesWrite = ''capture_profiles:write''"
| "permission_name PermissionVerificationSessionsCreate = ''verification_sessions:create''"
| "permission_name PermissionVerificationSessionsResume = ''verification_sessions:resume''"
| "permission_name PermissionVerificationSessionsCancel = ''verification_sessions:cancel''"
| "permission_name PermissionVerificationSessionsRead = ''verification_sessions:read''"
| "permission_name PermissionNoticesRead = ''notices:read''"
| "permission_name PermissionNoticesWrite = ''notices:write''"
| "permission_name PermissionAuthoritiesRead = ''authorities:read''"
| "permission_name PermissionAuthoritiesWrite = ''authorities:write''"
| "permission_name PermissionEvidenceRead = ''evidence:read''"
| "permission_name PermissionEvidenceGrantsRead = ''evidence_grants:read''"
| "permission_name PermissionEvidenceGrantsWrite = ''evidence_grants:write''"
| "permission_name PermissionConsentsRead = ''consents:read''"
| "permission_name PermissionConsentsWrite = ''consents:write''"
| "permission_name PermissionDecisionsRead = ''decisions:read''"
| "permission_name PermissionDecisionsExport = ''decisions:export''"
| "permission_name PermissionReviewsRead = ''reviews:read''"
| "permission_name PermissionReviewsWrite = ''reviews:write''"
| "permission_name PermissionReviewsAdmin = ''reviews:admin''"
| "permission_name PermissionAppealsWrite = ''appeals:write''"
| "permission_name PermissionPrivacyRequestsRead = ''privacy_requests:read''"
| "permission_name PermissionPrivacyRequestsWrite = ''privacy_requests:write''"
| "permission_name PermissionPrivacyRequestsApprove = ''privacy_requests:approve''"
| "permission_name PermissionDeletionsRead = ''deletions:read''"
| "permission_name PermissionDeletionsWrite = ''deletions:write''"
| "permission_name PermissionLegalHoldsWrite = ''legal_holds:write''"
| "permission_name PermissionProposalsRead = ''proposals:read''"
| "permission_name PermissionProposalsWrite = ''proposals:write''"
| "permission_name PermissionProposalsApprove = ''proposals:approve''"
| "permission_name PermissionProposalsConfigure = ''proposals:configure''"
| "permission_name PermissionPromptsRead = ''prompts:read''"
| "permission_name PermissionPromptsWrite = ''prompts:write''"
| "permission_name PermissionProvidersRead = ''providers:read''"
| "permission_name PermissionProvidersWrite = ''providers:write''"
| "permission_name PermissionKMSRead = ''kms:read''"
| "permission_name PermissionKMSWrite = ''kms:write''"
| "permission_name PermissionSupportAccessRead = ''support_access:read''"
| "permission_name PermissionSupportAccessWrite = ''support_access:write''"
| "permission_name PermissionBreakGlassRequest = ''break_glass:request''"
| "permission_name PermissionBreakGlassApprove = ''break_glass:approve''"
| "permission_name PermissionBreakGlassUse = ''break_glass:use''"

section \<open>Parsing\<close>

definition maxScopeSegmentLength :: nat where
  "maxScopeSegmentLength = 64"

definition validateSegment :: "string \<Rightarrow> bool \<Rightarrow> scope_error + unit" where
  "validateSegment v allowWildcard =
     (if allowWildcard \<and> v = ''*'' then Inr ()
      else if v = [] \<or> length v > maxScopeSegmentLength then Inl SegmentLength
      else if is_lower (hd v) \<and> list_all (\<lambda>c. is_lower c \<or> is_digit c \<or> c = CHR ''_'') (tl v) then Inr ()
      else Inl SegmentCharacter)"

definition parseSegments :: "string \<Rightarrow> bool \<Rightarrow> scope_error + string \<times> string" where
  "parseSegments v allowWildcard =
     guard (\<not> surrounding_space v) ScopeWhitespace
       (case Split (CHR '':'') v of
          [resource, action] \<Rightarrow>
            and_then (validateSegment resource allowWildcard) (\<lambda>_.
            and_then (validateSegment action allowWildcard) (\<lambda>_. Inr (resource, action)))
        | _ \<Rightarrow> Inl ScopeSegments)"

definition ParsePermission :: "string \<Rightarrow> scope_error + string" where
  "ParsePermission v = and_then (parseSegments v False) (\<lambda>(r, a). Inr (r @ '':'' @ a))"

definition ParsePattern :: "string \<Rightarrow> scope_error + string" where
  "ParsePattern v = and_then (parseSegments v True) (\<lambda>(r, a). Inr (r @ '':'' @ a))"

definition Matches :: "string \<Rightarrow> string \<Rightarrow> bool" where
  "Matches pat permission =
     (case (parseSegments pat True, parseSegments permission False) of
        (Inr (pr, pa), Inr (r, a)) \<Rightarrow> (pr = ''*'' \<or> pr = r) \<and> (pa = ''*'' \<or> pa = a)
      | _ \<Rightarrow> False)"

section \<open>The registry\<close>

record Registry =
  rg_permissions :: "string list"

definition registered :: "string \<Rightarrow> scope_error + unit" where
  "registered p =
     and_then (ParsePermission p) (\<lambda>parsed. guard (parsed = p) PermissionNotCanonical (Inr ()))"

definition NewRegistry :: "string list \<Rightarrow> scope_error + Registry" where
  "NewRegistry permissions =
     guard (permissions \<noteq> []) RegistryEmpty
       (and_then (traverse registered permissions) (\<lambda>_.
          let values = sort permissions in
          guard (\<not> adjacent_dup values) DuplicatePermission (Inr \<lparr>rg_permissions = values\<rparr>)))"

definition TenantRegistry :: Registry where
  "TenantRegistry = \<lparr>rg_permissions = map permission_name
     [
      PermissionSubjectsRead, PermissionSubjectsWrite, PermissionSubjectsDelete,
      PermissionIdentityRead, PermissionIdentityWrite, PermissionIdentityReveal,
      PermissionIdentityConfigure, PermissionFraudRead, PermissionFraudWrite,
      PermissionFraudConfigure, PermissionModelsRead, PermissionModelsWrite,
      PermissionModelsActivate, PermissionAuthoritiesRead, PermissionAuthoritiesWrite,
      PermissionEvidenceRead, PermissionEvidenceGrantsRead, PermissionEvidenceGrantsWrite,
      PermissionConsentsRead, PermissionConsentsWrite, PermissionCaptureProfilesRead,
      PermissionCaptureProfilesWrite, PermissionDecisionsExport, PermissionDecisionsRead,
      PermissionPrivacyRequestsRead, PermissionPrivacyRequestsWrite,
      PermissionPrivacyRequestsApprove, PermissionDeletionsRead, PermissionDeletionsWrite,
      PermissionLegalHoldsWrite, PermissionAppealsWrite, PermissionNoticesRead,
      PermissionNoticesWrite, PermissionPacksRead, PermissionExperiencesRead,
      PermissionExperiencesWrite, PermissionExperiencesPublish, PermissionReviewsRead,
      PermissionReviewsWrite, PermissionReviewsAdmin, PermissionAuditExport,
      PermissionTenantExport, PermissionTenantRead, PermissionVerificationSessionsCreate,
      PermissionVerificationSessionsResume, PermissionVerificationSessionsCancel,
      PermissionVerificationSessionsRead, PermissionPoliciesRead, PermissionPoliciesWrite,
      PermissionPoliciesActivate, PermissionWebhooksConfigure, PermissionWebhooksRead,
      PermissionWebhooksReplay, PermissionProposalsRead, PermissionProposalsWrite,
      PermissionProposalsApprove, PermissionProposalsConfigure, PermissionPromptsRead,
      PermissionPromptsWrite, PermissionProvidersRead, PermissionProvidersWrite,
      PermissionKMSRead, PermissionKMSWrite, PermissionSupportAccessRead,
      PermissionSupportAccessWrite, PermissionBreakGlassRequest,
      PermissionBreakGlassApprove, PermissionBreakGlassUse]\<rparr>"

section \<open>Grants\<close>

record Grant =
  gr_patterns :: "string list"
  gr_permissions :: "string list"

definition requested :: "string \<Rightarrow> scope_error + unit" where
  "requested p = and_then (ParsePattern p) (\<lambda>parsed. guard (parsed = p) PatternNotCanonical (Inr ()))"

text \<open>The loop over the sorted patterns: each appends the registered permissions it matches.\<close>

fun resolve_loop :: "string list \<Rightarrow> string list \<Rightarrow> scope_error + string list" where
  "resolve_loop permissions [] = Inr []"
| "resolve_loop permissions (p # ps) =
     (let matched = filter (Matches p) permissions in
      guard (matched \<noteq> []) PatternUnmatched
        (and_then (resolve_loop permissions ps) (\<lambda>resolved. Inr (matched @ resolved))))"

definition Registry_Resolve :: "Registry \<Rightarrow> string list \<Rightarrow> scope_error + Grant" where
  "Registry_Resolve registry patterns =
     guard (rg_permissions registry \<noteq> []) RegistryEmpty
       (guard (patterns \<noteq> []) PatternsRequired
         (and_then (traverse requested patterns) (\<lambda>_.
           let wanted = sort patterns in
           guard (\<not> adjacent_dup wanted) DuplicatePattern
             (and_then (resolve_loop (rg_permissions registry) wanted) (\<lambda>resolved.
                Inr \<lparr>gr_patterns = wanted, gr_permissions = compact (sort resolved)\<rparr>)))))"

definition snapshot_pattern :: "string \<Rightarrow> scope_error + unit" where
  "snapshot_pattern p =
     (case ParsePattern p of Inl _ \<Rightarrow> Inl SnapshotPattern
      | Inr parsed \<Rightarrow> guard (parsed = p) SnapshotPattern (Inr ()))"

definition snapshot_permission :: "string list \<Rightarrow> string \<Rightarrow> scope_error + unit" where
  "snapshot_permission patterns p =
     (case ParsePermission p of Inl _ \<Rightarrow> Inl SnapshotPermission
      | Inr parsed \<Rightarrow> guard (parsed = p) SnapshotPermission
          (guard (list_ex (\<lambda>pat. Matches pat p) patterns) PermissionNotCovered (Inr ())))"

definition RestoreGrant :: "string list \<Rightarrow> string list \<Rightarrow> scope_error + Grant" where
  "RestoreGrant patterns permissions =
     guard (patterns \<noteq> [] \<and> permissions \<noteq> []) SnapshotEmpty
       (and_then (traverse snapshot_pattern patterns) (\<lambda>_.
         let pats = sort patterns in
         guard (\<not> adjacent_dup pats) DuplicatePattern
           (and_then (traverse (snapshot_permission pats) permissions) (\<lambda>_.
             let perms = sort permissions in
             guard (\<not> adjacent_dup perms) DuplicatePermission
               (guard (list_all (\<lambda>pat. list_ex (Matches pat) perms) pats) PatternUncovering
                 (Inr \<lparr>gr_patterns = pats, gr_permissions = perms\<rparr>))))))"

definition Grant_Allows :: "Grant \<Rightarrow> string \<Rightarrow> bool" where
  "Grant_Allows grant permission =
     (case ParsePermission permission of Inl _ \<Rightarrow> False
      | Inr _ \<Rightarrow> snd (BinarySearch (gr_permissions grant) permission))"

section \<open>Lemmas\<close>

text \<open>The form of a grant every constructor gives and every consumer relies on.\<close>

definition grant_ok :: "Grant \<Rightarrow> bool" where
  "grant_ok g \<longleftrightarrow> gr_patterns g \<noteq> [] \<and> gr_permissions g \<noteq> []
     \<and> sorted (gr_patterns g) \<and> distinct (gr_patterns g)
     \<and> sorted (gr_permissions g) \<and> distinct (gr_permissions g)
     \<and> list_all (\<lambda>p. \<exists>x. parseSegments p True = Inr x) (gr_patterns g)
     \<and> list_all (\<lambda>p. list_ex (\<lambda>pat. Matches pat p) (gr_patterns g)) (gr_permissions g)
     \<and> list_all (\<lambda>pat. list_ex (Matches pat) (gr_permissions g)) (gr_patterns g)"

lemma parseSegments_join: "parseSegments v w = Inr (r, a) \<Longrightarrow> v = r @ '':'' @ a"
  using Join_Split [of "CHR '':''" v]
  by (auto simp: parseSegments_def chain_iff split: list.splits)

lemma Parse_id:
  "ParsePermission v = (case parseSegments v False of Inl e \<Rightarrow> Inl e | Inr _ \<Rightarrow> Inr v)"
  "ParsePattern v = (case parseSegments v True of Inl e \<Rightarrow> Inl e | Inr _ \<Rightarrow> Inr v)"
  by (cases "parseSegments v False"; auto simp: ParsePermission_def dest!: parseSegments_join)
     (cases "parseSegments v True"; auto simp: ParsePattern_def dest!: parseSegments_join)

lemma registered_Inr: "registered p = Inr u \<longleftrightarrow> (\<exists>x. parseSegments p False = Inr x)"
  by (auto simp: registered_def Parse_id split: sum.split)

lemma requested_Inr: "requested p = Inr u \<longleftrightarrow> (\<exists>x. parseSegments p True = Inr x)"
  by (auto simp: requested_def Parse_id split: sum.split)

lemma snapshot_pattern_Inr: "snapshot_pattern p = Inr u \<longleftrightarrow> (\<exists>x. parseSegments p True = Inr x)"
  by (auto simp: snapshot_pattern_def Parse_id split: sum.split)

lemma Matches_parses: "Matches pat p \<Longrightarrow> \<exists>x. parseSegments p False = Inr x"
  by (cases "parseSegments p False") (auto simp: Matches_def split: sum.splits)

lemma snapshot_permission_Inr:
  "snapshot_permission pats p = Inr u \<longleftrightarrow> list_ex (\<lambda>pat. Matches pat p) pats"
  using Matches_parses [of _ p]
  by (auto simp: snapshot_permission_def Parse_id guard_def list_ex_iff split: sum.split)

lemma traverse_unit: "(\<exists>us. traverse f xs = Inr us) \<longleftrightarrow> list_all (\<lambda>x. f x = Inr ()) xs"
  by (induction xs) (auto split: sum.splits)

lemma resolve_loop_set:
  "resolve_loop perms ps = Inr res \<Longrightarrow> set res = {p \<in> set perms. \<exists>pat \<in> set ps. Matches pat p}"
  by (induction ps arbitrary: res) (auto simp: Let_def chain_iff)

lemma resolve_loop_covers:
  "resolve_loop perms ps = Inr res \<Longrightarrow> pat \<in> set ps \<Longrightarrow> \<exists>p \<in> set res. Matches pat p"
proof (induction ps arbitrary: res)
  case (Cons q ps)
  then obtain r where r: "resolve_loop perms ps = Inr r" "res = filter (Matches q) perms @ r"
    and q: "filter (Matches q) perms \<noteq> []"
    by (auto simp: Let_def chain_iff)
  show ?case
  proof (cases "pat = q")
    case True
    then show ?thesis using q r(2) by (auto simp: filter_empty_conv)
  next
    case False
    then show ?thesis using Cons.IH [OF r(1)] Cons.prems(2) r(2) by auto
  qed
qed simp

lemma Registry_Resolve_Inr:
  assumes "Registry_Resolve reg pats = Inr g"
  shows "grant_ok g \<and> gr_patterns g = sort pats
    \<and> set (gr_permissions g) = {p \<in> set (rg_permissions reg). \<exists>pat \<in> set pats. Matches pat p}"
proof -
  obtain us res where r: "pats \<noteq> []" "traverse requested pats = Inr us" "\<not> adjacent_dup (sort pats)"
    "resolve_loop (rg_permissions reg) (sort pats) = Inr res"
    and g: "g = \<lparr>gr_patterns = sort pats, gr_permissions = compact (sort res)\<rparr>"
    using assms by (auto simp: Registry_Resolve_def chain_iff Let_def)
  note res = resolve_loop_set [OF r(4)]
  have cov: "\<exists>p \<in> set res. Matches pat p" if "pat \<in> set pats" for pat
    using resolve_loop_covers [OF r(4)] that by simp
  have "list_all (\<lambda>x. requested x = Inr ()) pats"
    using r(2) traverse_unit by blast
  moreover have "res \<noteq> []"
    using cov [of "hd pats"] r(1) by auto
  moreover have "sorted (compact (sort res)) \<and> distinct (compact (sort res))"
    by (rule sorted_compact) simp
  moreover have "compact (sort res) \<noteq> []"
    using \<open>res \<noteq> []\<close> by (metis list.set_sel(1) set_compact set_sort set_empty)
  ultimately show ?thesis
    using r(1,3) res cov by (auto simp: g grant_ok_def requested_Inr adjacent_dup_sort list_all_iff list_ex_iff)
qed

lemma RestoreGrant_Inr:
  "RestoreGrant pats perms = Inr g \<longleftrightarrow>
     grant_ok g \<and> gr_patterns g = sort pats \<and> gr_permissions g = sort perms"
proof -
  have "RestoreGrant pats perms = Inr g \<longleftrightarrow>
      pats \<noteq> [] \<and> perms \<noteq> [] \<and> list_all (\<lambda>p. snapshot_pattern p = Inr ()) pats \<and> distinct pats
      \<and> list_all (\<lambda>p. snapshot_permission (sort pats) p = Inr ()) perms \<and> distinct perms
      \<and> list_all (\<lambda>pat. list_ex (Matches pat) (sort perms)) (sort pats)
      \<and> g = \<lparr>gr_patterns = sort pats, gr_permissions = sort perms\<rparr>"
    by (auto simp: RestoreGrant_def chain_iff Let_def adjacent_dup_sort traverse_unit [symmetric])
  then show ?thesis
    by (auto simp: grant_ok_def snapshot_pattern_Inr snapshot_permission_Inr list_all_iff)
qed

lemma Allows_iff:
  assumes "grant_ok g"
  shows "Grant_Allows g p \<longleftrightarrow> p \<in> set (gr_permissions g)"
proof -
  have "\<exists>x. parseSegments p False = Inr x" if "p \<in> set (gr_permissions g)"
    using that assms Matches_parses by (fastforce simp: grant_ok_def list_all_iff list_ex_iff)
  moreover have "snd (BinarySearch (gr_permissions g) p) \<longleftrightarrow> p \<in> set (gr_permissions g)"
    using assms by (intro BinarySearch_iff) (simp add: grant_ok_def)
  ultimately show ?thesis
    by (auto simp: Grant_Allows_def Parse_id split: sum.split)
qed

section \<open>The tenant registry is well formed\<close>

definition segment :: "string \<Rightarrow> bool" where
  "segment v \<longleftrightarrow> v \<noteq> [] \<and> length v \<le> 64 \<and> is_lower (hd v)
     \<and> list_all (\<lambda>c. is_lower c \<or> is_digit c \<or> c = CHR ''_'') (tl v)"

lemma lower_nat: "is_lower c \<longleftrightarrow> 97 \<le> (of_char c :: nat) \<and> (of_char c :: nat) \<le> 122"
  by (simp add: is_lower_def less_eq_char_def)

lemma digit_nat: "is_digit c \<longleftrightarrow> 48 \<le> (of_char c :: nat) \<and> (of_char c :: nat) \<le> 57"
  by (simp add: is_digit_def less_eq_char_def)

lemma segment_graphic: "segment v \<Longrightarrow> graphic v"
  by (cases v) (auto simp: segment_def graphic_def list_all_iff lower_nat digit_nat)

lemma parse_named:
  assumes "Split (CHR '':'') v = [r, a]" and "segment r" and "segment a"
  shows "parseSegments v False = Inr (r, a)"
proof -
  have "v = r @ '':'' @ a"
    using Join_Split [of "CHR '':''" v] assms(1) by simp
  then have "\<not> surrounding_space v"
    using segment_graphic [OF assms(2)] segment_graphic [OF assms(3)]
    by (intro graphic_no_space) (simp add: graphic_def)
  with assms show ?thesis
    by (simp add: parseSegments_def validateSegment_def segment_def maxScopeSegmentLength_def)
qed

definition well_named :: "string \<Rightarrow> bool" where
  "well_named v \<longleftrightarrow> (case Split (CHR '':'') v of [r, a] \<Rightarrow> segment r \<and> segment a | _ \<Rightarrow> False)"

lemma well_named_parses: "well_named v \<Longrightarrow> \<exists>x. parseSegments v False = Inr x"
  using parse_named [of v] by (auto simp: well_named_def split: list.splits)

lemma permission_well_named: "well_named (permission_name p)"
  by (cases p) (simp_all add: well_named_def segment_def token_simps)

lemma registry_names: "set (rg_permissions TenantRegistry) = range permission_name"
proof -
  have "permission_name p \<in> set (rg_permissions TenantRegistry)" for p
    unfolding TenantRegistry_def Registry.simps set_map by (rule imageI, cases p) simp_all
  moreover have "set (rg_permissions TenantRegistry) \<subseteq> range permission_name"
    unfolding TenantRegistry_def Registry.simps set_map by blast
  ultimately show ?thesis by auto
qed

lemma registry_distinct: "distinct (rg_permissions TenantRegistry)"
  by (simp add: TenantRegistry_def)

lemma registry_length: "length (rg_permissions TenantRegistry) = 68"
  by (simp add: TenantRegistry_def)

lemma any_parses: "parseSegments ''*:*'' True = Inr (''*'', ''*'')"
proof -
  have "\<not> surrounding_space ''*:*''"
    by (rule graphic_no_space) (simp add: graphic_def)
  then show ?thesis
    by (simp add: parseSegments_def validateSegment_def)
qed

lemma any_matches: "Matches ''*:*'' p \<longleftrightarrow> (\<exists>x. parseSegments p False = Inr x)"
  by (cases "parseSegments p False") (auto simp: Matches_def any_parses)

lemma registry_matched: "p \<in> set (rg_permissions TenantRegistry) \<Longrightarrow> Matches ''*:*'' p"
  using permission_well_named well_named_parses by (auto simp: registry_names any_matches)

lemma resolve_any:
  "Registry_Resolve TenantRegistry [''*:*''] =
     Inr \<lparr>gr_patterns = [''*:*''], gr_permissions = sort (rg_permissions TenantRegistry)\<rparr>"
proof -
  have f: "filter (Matches ''*:*'') (rg_permissions TenantRegistry) = rg_permissions TenantRegistry"
    by (rule filter_True) (blast intro: registry_matched)
  have ne: "rg_permissions TenantRegistry \<noteq> []"
    using registry_length by auto
  have "compact (sort (rg_permissions TenantRegistry)) = sort (rg_permissions TenantRegistry)"
    by (rule compact_id) (simp add: adjacent_dup_sort registry_distinct)
  moreover have "requested ''*:*'' = Inr ()"
    by (simp add: requested_Inr any_parses)
  ultimately show ?thesis
    using ne by (simp add: Registry_Resolve_def f Let_def del: filter_True)
qed

section \<open>Properties\<close>

text \<open>
  C12. A grant allows exactly what was asked for and may be given: after the registry resolves
  patterns into a grant, the grant allows a permission iff the registry has it and one of the
  requested patterns matches it. The binary search the code uses terminates and finds every
  permission of the snapshot, whatever the order of the registry.
\<close>

theorem grant_exact:
  assumes "Registry_Resolve reg pats = Inr g"
  shows "Grant_Allows g p \<longleftrightarrow> p \<in> set (rg_permissions reg) \<and> (\<exists>pat \<in> set pats. Matches pat p)"
  using Registry_Resolve_Inr [OF assms] by (auto simp: Allows_iff)

theorem grant_exact_witness:
  "\<exists>g. Registry_Resolve TenantRegistry [''*:*''] = Inr g \<and> Grant_Allows g ''tenant:read''
     \<and> \<not> Grant_Allows g ''platform:admin''"
proof -
  have "''tenant:read'' \<in> set (rg_permissions TenantRegistry)"
    by (simp add: TenantRegistry_def)
  moreover have "''platform:admin'' \<notin> set (rg_permissions TenantRegistry)"
    by (simp add: TenantRegistry_def)
  ultimately show ?thesis
    using grant_exact [OF resolve_any] resolve_any by (simp add: registry_matched)
qed

text \<open>
  A grant survives storage: a grant the registry resolved is restored unchanged from its
  patterns and permissions, in whatever order the rows come back, and the registry of the day is
  not consulted.
\<close>

theorem grant_snapshot_roundtrip:
  assumes "Registry_Resolve reg pats = Inr g"
    and "mset ps = mset (gr_patterns g)" and "mset qs = mset (gr_permissions g)"
  shows "RestoreGrant ps qs = Inr g"
proof -
  have "grant_ok g" using Registry_Resolve_Inr [OF assms(1)] by simp
  moreover from this have "gr_patterns g = sort ps" "gr_permissions g = sort qs"
    using sort_perm [OF assms(2)] sort_perm [OF assms(3)] by (simp_all add: grant_ok_def sorted_sort_id)
  ultimately show ?thesis by (simp add: RestoreGrant_Inr)
qed

theorem grant_snapshot_roundtrip_witness:
  "RestoreGrant [''*:*''] (rg_permissions TenantRegistry) =
     Inr \<lparr>gr_patterns = [''*:*''], gr_permissions = sort (rg_permissions TenantRegistry)\<rparr>"
  using grant_snapshot_roundtrip [OF resolve_any, of "[''*:*'']" "rg_permissions TenantRegistry"] by simp

text \<open>
  The tenant registry is well formed: its 68 permissions are canonical and distinct, they are
  exactly the declared permission constants, so \<^verbatim>\<open>NewRegistry\<close> accepts them, and the full
  wildcard resolves to all of them.
\<close>

theorem tenant_registry_complete:
  "NewRegistry (rg_permissions TenantRegistry) = Inr \<lparr>rg_permissions = sort (rg_permissions TenantRegistry)\<rparr>
   \<and> set (rg_permissions TenantRegistry) = range permission_name
   \<and> (\<exists>g. Registry_Resolve TenantRegistry [''*:*''] = Inr g
        \<and> set (gr_permissions g) = range permission_name \<and> length (gr_permissions g) = 68)"
proof -
  have "list_all (\<lambda>x. registered x = Inr ()) (rg_permissions TenantRegistry)"
    using registry_matched by (auto simp: list_all_iff registered_Inr any_matches)
  then obtain us where "traverse registered (rg_permissions TenantRegistry) = Inr us"
    using traverse_unit by blast
  moreover have "rg_permissions TenantRegistry \<noteq> []"
    using registry_length by auto
  ultimately show ?thesis
    by (simp add: NewRegistry_def Let_def adjacent_dup_sort registry_distinct resolve_any
        registry_names registry_length)
qed

end
