(* ===== verification/Access_Keys.thy ===== *)
theory Access_Keys
  imports Access_Scope Identifiers Aggregate_Contracts
begin

text \<open>
  \<^verbatim>\<open>internal/access\<close>: the presented credential (\<^verbatim>\<open>key.go\<close>), the peppered digest (\<^verbatim>\<open>pepper.go\<close>), the
  API-key aggregate (\<^verbatim>\<open>api_key.go\<close>), issuing and rotating keys (\<^verbatim>\<open>issuer.go\<close>), authentication and
  the authority it confers (\<^verbatim>\<open>authenticator.go\<close>, \<^verbatim>\<open>tenant_reader.go\<close>), and administrative
  revocation (\<^verbatim>\<open>administration.go\<close>).

  An identifier is its public string, the zero value the empty string. Arguments stand for what
  the repository does not define: \<open>canon\<close> is \<^verbatim>\<open>ulid.ParseStrict\<close> followed by \<^verbatim>\<open>String\<close>, \<open>mac\<close> is
  HMAC-SHA-256, and the results of the identifier source, of the entropy source and of each
  repository call are arguments of the operation that makes the call. A Go map from versions to
  key material is its list of entries.
\<close>

datatype (plugins only: size) access_error =
    ErrKeyNotFound | ErrKeyConflict | ErrKeyTerminal | ErrTenantInactive
  | ErrInvalidCredential | ErrInsufficientScope
  | KeyLength | KeyPrefix | KeyStructure | KeyTenantHint | KeyIdentifier | KeySecret
  | DigestLength | ActivePepperRequired | PeppersRequired | PepperVersionZero | PepperLength
  | PepperNotConfigured | PresentedKeyRequired
  | KeyStateInvalid | KeyLabelInvalid | KeyGrantRequired | KeyExpiryInvalid | KeyReplacesItself
  | KeyRevocationTime | KeyRetirementTime | KeyNotInitialised | TransitionTime | RetirementPrecedes
  | VerificationRecordInvalid | TenantStateInvalid | TenantScopeRequired
  | LifetimeInvalid | OverlapInvalid | ExpiryNotConfigured | ExpiryPast | ExpiryTooLong
  | NoExpiryDisabled | ExpiryUnknown | PredecessorRequired | OverlapOutsidePolicy | SuccessorTooShort
  | IdentifierUnavailable | EntropyUnavailable | TenantRequired
  | GrantRefused scope_error | ActionInvalid | RepositoryFailed

section \<open>Presented keys\<close>

record PresentedKey =
  pk_tenant :: string
  pk_key :: string
  pk_secret :: string

definition presentedKeyPrefix :: string where
  "presentedKeyPrefix = ''idq_v1_''"

definition ulidPayloadLength :: nat where
  "ulidPayloadLength = 26"

definition secretByteLength :: nat where
  "secretByteLength = 32"

definition secretTextLength :: nat where
  "secretTextLength = 43"

definition presentedKeyLength :: nat where
  "presentedKeyLength = length presentedKeyPrefix + ulidPayloadLength + 1 + ulidPayloadLength + 1 + secretTextLength"

text \<open>The substring \<^verbatim>\<open>s[from:to]\<close>.\<close>

definition substring :: "nat \<Rightarrow> nat \<Rightarrow> string \<Rightarrow> string" where
  "substring i j s = drop i (take j s)"

definition ParsePresentedKey :: "(string \<Rightarrow> string option) \<Rightarrow> string \<Rightarrow> access_error + PresentedKey" where
  "ParsePresentedKey canon encoded =
     guard (length encoded = presentedKeyLength) KeyLength
       (guard (take (length presentedKeyPrefix) encoded = presentedKeyPrefix) KeyPrefix
         (let tenantEnd = length presentedKeyPrefix + ulidPayloadLength;
              keyStart = tenantEnd + 1;
              keyEnd = keyStart + ulidPayloadLength;
              secretStart = keyEnd + 1 in
          guard (encoded ! tenantEnd = CHR ''_'' \<and> encoded ! keyEnd = CHR ''_'') KeyStructure
            (case ParsePublic canon R_Tenant (''ten_'' @ substring (length presentedKeyPrefix) tenantEnd encoded) of
               Inl _ \<Rightarrow> Inl KeyTenantHint
             | Inr tenant \<Rightarrow>
                (case ParsePublic canon R_APIKey (''key_'' @ substring keyStart keyEnd encoded) of
                   Inl _ \<Rightarrow> Inl KeyIdentifier
                 | Inr key \<Rightarrow>
                    (case b64_decode (drop secretStart encoded) of
                       None \<Rightarrow> Inl KeySecret
                     | Some secret \<Rightarrow> guard (length secret = secretByteLength) KeySecret
                         (Inr \<lparr>pk_tenant = tenant, pk_key = key, pk_secret = secret\<rparr>))))))"

definition presented_IsZero :: "PresentedKey \<Rightarrow> bool" where
  "presented_IsZero key \<longleftrightarrow> pk_tenant key = [] \<or> pk_key key = []"

definition Reveal :: "PresentedKey \<Rightarrow> string" where
  "Reveal key =
     (if presented_IsZero key then []
      else presentedKeyPrefix @ drop 4 (pk_tenant key) @ ''_'' @ drop 4 (pk_key key) @ ''_'' @ b64_encode (pk_secret key))"

text \<open>\<^verbatim>\<open>KeyGenerator.Generate\<close>; \<open>entropy\<close> is what \<^verbatim>\<open>io.ReadFull\<close> filled the secret with.\<close>

definition Generate :: "string option \<Rightarrow> string \<Rightarrow> string \<Rightarrow> access_error + PresentedKey" where
  "Generate entropy tenant key =
     guard (tenant \<noteq> []) TenantRequired
       (guard (key \<noteq> []) KeyIdentifier
         (case entropy of None \<Rightarrow> Inl EntropyUnavailable
          | Some secret \<Rightarrow> Inr \<lparr>pk_tenant = tenant, pk_key = key, pk_secret = secret\<rparr>))"

section \<open>Peppered digests\<close>

definition hmacDomain :: string where
  "hmacDomain = ''idq-api-key'' @ [CHR 0x00] @ ''v1'' @ [CHR 0x00]"

definition digest_size :: nat where
  "digest_size = 32"

definition ParseDigest :: "string \<Rightarrow> access_error + string" where
  "ParseDigest v = guard (length v = digest_size) DigestLength (Inr v)"

definition digest_IsZero :: "string \<Rightarrow> bool" where
  "digest_IsZero d \<longleftrightarrow> d = replicate digest_size (CHR 0x00)"

record PepperSet =
  ps_active :: nat
  ps_peppers :: "(nat \<times> string) list"

definition pepper_entry :: "nat \<times> string \<Rightarrow> access_error + (nat \<times> string)" where
  "pepper_entry e =
     guard (fst e \<noteq> 0) PepperVersionZero (guard (length (snd e) = secretByteLength) PepperLength (Inr e))"

definition NewPepperSet :: "nat \<Rightarrow> (nat \<times> string) list \<Rightarrow> access_error + PepperSet" where
  "NewPepperSet active peppers =
     guard (active \<noteq> 0) ActivePepperRequired
       (guard (peppers \<noteq> []) PeppersRequired
         (and_then (traverse pepper_entry peppers) (\<lambda>cloned.
           guard (map_of cloned active \<noteq> None) PepperNotConfigured
             (Inr \<lparr>ps_active = active, ps_peppers = cloned\<rparr>))))"

definition computeDigest :: "(string \<Rightarrow> string \<Rightarrow> string) \<Rightarrow> string \<Rightarrow> PresentedKey \<Rightarrow> string" where
  "computeDigest mac pepper key =
     mac pepper (hmacDomain @ pk_tenant key @ [CHR 0x00] @ pk_key key @ [CHR 0x00] @ pk_secret key)"

definition pepper_Digest ::
  "(string \<Rightarrow> string \<Rightarrow> string) \<Rightarrow> PepperSet \<Rightarrow> PresentedKey \<Rightarrow> access_error + string \<times> nat" where
  "pepper_Digest mac s key =
     guard (\<not> presented_IsZero key) PresentedKeyRequired
       (case map_of (ps_peppers s) (ps_active s) of
          None \<Rightarrow> Inl PepperNotConfigured
        | Some pepper \<Rightarrow> Inr (computeDigest mac pepper key, ps_active s))"

definition pepper_Verify ::
  "(string \<Rightarrow> string \<Rightarrow> string) \<Rightarrow> PepperSet \<Rightarrow> PresentedKey \<Rightarrow> nat \<Rightarrow> string \<Rightarrow> access_error + bool" where
  "pepper_Verify mac s key version expected =
     guard (\<not> presented_IsZero key) PresentedKeyRequired
       (case map_of (ps_peppers s) version of
          None \<Rightarrow> Inl PepperNotConfigured
        | Some pepper \<Rightarrow> Inr (computeDigest mac pepper key = expected))"

text \<open>
  \<^verbatim>\<open>DummyVerify\<close> makes the same comparison for timing and drops its result: only the missing
  pepper is visible.
\<close>

definition DummyVerify :: "PepperSet \<Rightarrow> access_error option" where
  "DummyVerify s =
     (case map_of (ps_peppers s) (ps_active s) of None \<Rightarrow> Some PepperNotConfigured | Some _ \<Rightarrow> None)"

section \<open>The API-key aggregate\<close>

datatype key_state = KeyStateActive | KeyStateExpired | KeyStateRevoked | KeyStateRetired

record Key =
  k_id :: string
  k_tenantID :: string
  k_label :: string
  k_digest :: string
  k_pepperVersion :: nat
  k_grant :: Grant
  k_version :: int
  k_createdAt :: go_time
  k_updatedAt :: go_time
  k_expiresAt :: "go_time option"
  k_revokedAt :: "go_time option"
  k_retiredAt :: "go_time option"
  k_replacesID :: string

definition maxKeyLabelLength :: nat where
  "maxKeyLabelLength = 100"

definition validateKeyLabel :: "string \<Rightarrow> bool" where
  "validateKeyLabel label \<longleftrightarrow> bounded_text maxKeyLabelLength label"

definition key_UTC :: "Key \<Rightarrow> Key" where
  "key_UTC r = r\<lparr>k_createdAt := to_UTC (k_createdAt r), k_updatedAt := to_UTC (k_updatedAt r),
     k_expiresAt := map_option to_UTC (k_expiresAt r), k_revokedAt := map_option to_UTC (k_revokedAt r),
     k_retiredAt := map_option to_UTC (k_retiredAt r)\<rparr>"

text \<open>\<^verbatim>\<open>RestoreKey\<close>; a \<^verbatim>\<open>KeyRecord\<close> has the fields of a \<^verbatim>\<open>Key\<close>.\<close>

definition RestoreKey :: "Key \<Rightarrow> access_error + Key" where
  "RestoreKey input =
     (let r = key_UTC input in
      guard (k_id r \<noteq> [] \<and> k_tenantID r \<noteq> [] \<and> \<not> digest_IsZero (k_digest r) \<and> k_pepperVersion r \<noteq> 0
             \<and> 1 \<le> k_version r \<and> \<not> IsZero (k_createdAt r) \<and> \<not> Before (k_updatedAt r) (k_createdAt r)) KeyStateInvalid
       (guard (validateKeyLabel (k_label r)) KeyLabelInvalid
       (guard (gr_patterns (k_grant r) \<noteq> [] \<and> gr_permissions (k_grant r) \<noteq> []) KeyGrantRequired
       (guard (case k_expiresAt r of None \<Rightarrow> True | Some e \<Rightarrow> After e (k_createdAt r)) KeyExpiryInvalid
       (guard (k_replacesID r = [] \<or> k_replacesID r \<noteq> k_id r) KeyReplacesItself
       (guard (case k_revokedAt r of None \<Rightarrow> True
               | Some t \<Rightarrow> \<not> Before t (k_createdAt r) \<and> t_ns t = t_ns (k_updatedAt r)) KeyRevocationTime
       (guard (case k_retiredAt r of None \<Rightarrow> True | Some t \<Rightarrow> \<not> Before t (k_updatedAt r)) KeyRetirementTime
         (Inr r))))))))"

definition StateAt :: "Key \<Rightarrow> go_time \<Rightarrow> key_state" where
  "StateAt key now =
     (if k_revokedAt key \<noteq> None then KeyStateRevoked
      else if (case k_retiredAt key of None \<Rightarrow> False | Some t \<Rightarrow> \<not> Before (to_UTC now) t) then KeyStateRetired
      else if (case k_expiresAt key of None \<Rightarrow> False | Some t \<Rightarrow> \<not> Before (to_UTC now) t) then KeyStateExpired
      else KeyStateActive)"

definition UsableAt :: "Key \<Rightarrow> go_time \<Rightarrow> bool" where
  "UsableAt key now \<longleftrightarrow> StateAt key now = KeyStateActive"

definition Revoke :: "go_time \<Rightarrow> Key \<Rightarrow> access_error + Key" where
  "Revoke now key =
     guard (k_id key \<noteq> []) KeyNotInitialised
       (guard (k_revokedAt key = None
               \<and> (case k_retiredAt key of None \<Rightarrow> True | Some t \<Rightarrow> Before (to_UTC now) t)) ErrKeyTerminal
         (guard (\<not> Before (to_UTC now) (k_updatedAt key)) TransitionTime
           (Inr (key\<lparr>k_revokedAt := Some (to_UTC now), k_updatedAt := to_UTC now,
                     k_version := i64 (k_version key + 1)\<rparr>))))"

definition ScheduleRetirement :: "go_time \<Rightarrow> go_time \<Rightarrow> Key \<Rightarrow> access_error + Key" where
  "ScheduleRetirement scheduledAt effectiveAt key =
     guard (k_id key \<noteq> []) KeyNotInitialised
       (guard (k_revokedAt key = None \<and> k_retiredAt key = None) ErrKeyTerminal
         (guard (\<not> Before (to_UTC scheduledAt) (k_updatedAt key)) TransitionTime
           (guard (\<not> Before (to_UTC effectiveAt) (to_UTC scheduledAt)) RetirementPrecedes
             (Inr (key\<lparr>k_retiredAt := Some (to_UTC effectiveAt), k_updatedAt := to_UTC scheduledAt,
                       k_version := i64 (k_version key + 1)\<rparr>)))))"

definition Retire :: "go_time \<Rightarrow> Key \<Rightarrow> access_error + Key" where
  "Retire now key = ScheduleRetirement now now key"

section \<open>Expiry and rotation policy\<close>

datatype expiry_mode = expiryUnknown | expiryFixed | expiryNone

record ExpiryIntent =
  ei_mode :: expiry_mode
  ei_expiresAt :: go_time

record ExpiryPolicy =
  ep_configured :: bool
  ep_allowNoExpiry :: bool
  ep_maximumLifetime :: "duration option"

definition ExpiringAt :: "go_time \<Rightarrow> ExpiryIntent" where
  "ExpiringAt t = \<lparr>ei_mode = expiryFixed, ei_expiresAt = to_UTC t\<rparr>"

definition WithoutExpiry :: ExpiryIntent where
  "WithoutExpiry = \<lparr>ei_mode = expiryNone, ei_expiresAt = time_zero\<rparr>"

definition NewExpiryPolicy :: "bool \<Rightarrow> duration option \<Rightarrow> access_error + ExpiryPolicy" where
  "NewExpiryPolicy allow maximum =
     guard (case maximum of None \<Rightarrow> True | Some d \<Rightarrow> 0 < d) LifetimeInvalid
       (Inr \<lparr>ep_configured = True, ep_allowNoExpiry = allow, ep_maximumLifetime = maximum\<rparr>)"

definition NewRotationPolicy :: "duration \<Rightarrow> access_error + duration" where
  "NewRotationPolicy maximumOverlap = guard (0 < maximumOverlap) OverlapInvalid (Inr maximumOverlap)"

definition expiry_resolve :: "ExpiryPolicy \<Rightarrow> go_time \<Rightarrow> ExpiryIntent \<Rightarrow> access_error + go_time option" where
  "expiry_resolve policy createdAt intent =
     guard (ep_configured policy) ExpiryNotConfigured
       (case ei_mode intent of
          expiryFixed \<Rightarrow>
            (let expiresAt = to_UTC (ei_expiresAt intent) in
             guard (After expiresAt createdAt) ExpiryPast
               (guard (case ep_maximumLifetime policy of None \<Rightarrow> True | Some d \<Rightarrow> Sub expiresAt createdAt \<le> d) ExpiryTooLong
                 (Inr (Some expiresAt))))
        | expiryNone \<Rightarrow> guard (ep_allowNoExpiry policy) NoExpiryDisabled (Inr None)
        | expiryUnknown \<Rightarrow> Inl ExpiryUnknown)"

section \<open>Issuing and rotating\<close>

text \<open>What the issuer is built from: registry, policies, peppers, and the HMAC.\<close>

record Issuer =
  is_registry :: Registry
  is_expiry :: ExpiryPolicy
  is_rotation :: duration
  is_peppers :: PepperSet
  is_mac :: "string \<Rightarrow> string \<Rightarrow> string"

record IssuedKey =
  ik_key :: Key
  ik_credential :: PresentedKey

text \<open>\<^verbatim>\<open>build\<close>; \<open>newid\<close> and \<open>entropy\<close> are what the identifier and entropy sources returned.\<close>

definition build ::
  "Issuer \<Rightarrow> string option \<Rightarrow> string option \<Rightarrow> string \<Rightarrow> string \<Rightarrow> Grant \<Rightarrow> go_time option \<Rightarrow> string \<Rightarrow> go_time
     \<Rightarrow> access_error + IssuedKey" where
  "build issuer newid entropy tenantID label grant expiresAt replacesID now =
     (case newid of None \<Rightarrow> Inl IdentifierUnavailable
      | Some identifier \<Rightarrow>
         and_then (Generate entropy tenantID identifier) (\<lambda>credential.
         and_then (pepper_Digest (is_mac issuer) (is_peppers issuer) credential) (\<lambda>(digest, pepperVersion).
         and_then (RestoreKey \<lparr>k_id = identifier, k_tenantID = tenantID, k_label = label, k_digest = digest,
                 k_pepperVersion = pepperVersion, k_grant = grant, k_version = 1, k_createdAt = now,
                 k_updatedAt = now, k_expiresAt = expiresAt, k_revokedAt = None, k_retiredAt = None,
                 k_replacesID = replacesID\<rparr>) (\<lambda>key.
         Inr \<lparr>ik_key = key, ik_credential = credential\<rparr>))))"

definition resolve_grant :: "Registry \<Rightarrow> string list \<Rightarrow> access_error + Grant" where
  "resolve_grant reg patterns =
     (case Registry_Resolve reg patterns of Inl e \<Rightarrow> Inl (GrantRefused e) | Inr g \<Rightarrow> Inr g)"

text \<open>\<^verbatim>\<open>Issue\<close>; \<open>create\<close> is the error of the repository's \<^verbatim>\<open>Create\<close> on the key, if any.\<close>

definition Issue ::
  "Issuer \<Rightarrow> go_time \<Rightarrow> string option \<Rightarrow> string option \<Rightarrow> (Key \<Rightarrow> access_error option) \<Rightarrow> string \<Rightarrow> string
     \<Rightarrow> string list \<Rightarrow> ExpiryIntent \<Rightarrow> access_error + IssuedKey" where
  "Issue issuer clock newid entropy create scope label patterns intent =
     (let now = to_UTC clock in
      and_then (expiry_resolve (is_expiry issuer) now intent) (\<lambda>expiresAt.
      and_then (resolve_grant (is_registry issuer) patterns) (\<lambda>grant.
      and_then (build issuer newid entropy scope label grant expiresAt [] now) (\<lambda>issued.
      (case create (ik_key issued) of Some e \<Rightarrow> Inl e | None \<Rightarrow> Inr issued)))))"

text \<open>
  \<^verbatim>\<open>Rotate\<close>; \<open>lookup\<close> and \<open>save\<close> are the repository's \<^verbatim>\<open>Find\<close> and \<^verbatim>\<open>Rotate\<close>. The result has the
  predecessor as it was handed to the repository.
\<close>

definition Rotate ::
  "Issuer \<Rightarrow> go_time \<Rightarrow> string option \<Rightarrow> string option \<Rightarrow> (string \<Rightarrow> access_error + Key)
     \<Rightarrow> (Key \<Rightarrow> int \<Rightarrow> Key \<Rightarrow> access_error option) \<Rightarrow> string \<Rightarrow> ExpiryIntent \<Rightarrow> duration \<Rightarrow> string list
     \<Rightarrow> access_error + Key \<times> IssuedKey" where
  "Rotate issuer clock newid entropy lookup save keyID intent overlap patterns =
     guard (keyID \<noteq> []) PredecessorRequired
       (guard (0 < overlap \<and> overlap \<le> is_rotation issuer) OverlapOutsidePolicy
         (let now = to_UTC clock in
          and_then (lookup keyID) (\<lambda>predecessor.
          guard (UsableAt predecessor now \<and> k_retiredAt predecessor = None) ErrKeyTerminal
           (and_then (expiry_resolve (is_expiry issuer) now intent) (\<lambda>expiresAt.
            let retirementAt = Add now overlap in
            guard (case expiresAt of None \<Rightarrow> True | Some e \<Rightarrow> After e retirementAt) SuccessorTooShort
             (and_then (if patterns \<noteq> [] then resolve_grant (is_registry issuer) patterns
                    else Inr (k_grant predecessor)) (\<lambda>grant.
              and_then (build issuer newid entropy (k_tenantID predecessor) (k_label predecessor) grant
                      expiresAt (k_id predecessor) now) (\<lambda>successor.
              and_then (ScheduleRetirement now retirementAt predecessor) (\<lambda>retiring.
              (case save retiring (k_version predecessor) (ik_key successor) of
                 Some e \<Rightarrow> Inl e | None \<Rightarrow> Inr (retiring, successor)))))))))))"

section \<open>Authentication and authority\<close>

datatype tenant_state = StateActive | StateDisabled | StateOther string

record VerificationRecord =
  vr_key :: Key
  vr_tenantState :: tenant_state

definition NewVerificationRecord :: "Key \<Rightarrow> tenant_state \<Rightarrow> access_error + VerificationRecord" where
  "NewVerificationRecord key state =
     guard (k_id key \<noteq> [] \<and> k_tenantID key \<noteq> []) VerificationRecordInvalid
       (guard (state = StateActive \<or> state = StateDisabled) TenantStateInvalid
         (Inr \<lparr>vr_key = key, vr_tenantState = state\<rparr>))"

record Access_Context =
  ac_principal :: string
  ac_scope :: string
  ac_grant :: Grant

definition NewScope :: "string \<Rightarrow> access_error + string" where
  "NewScope identifier = guard (identifier \<noteq> []) TenantScopeRequired (Inr identifier)"

definition Context_Allows :: "Access_Context \<Rightarrow> string \<Rightarrow> bool" where
  "Context_Allows ctx permission \<longleftrightarrow> ac_scope ctx \<noteq> [] \<and> Grant_Allows (ac_grant ctx) permission"

definition Require :: "Access_Context \<Rightarrow> string \<Rightarrow> access_error option" where
  "Require ctx permission = (if Context_Allows ctx permission then None else Some ErrInsufficientScope)"

text \<open>
  \<^verbatim>\<open>Authenticate\<close>; \<open>lookup\<close> is \<^verbatim>\<open>FindForVerification\<close>. Every caller error is \<open>ErrInvalidCredential\<close>.
\<close>

definition Authenticate ::
  "(string \<Rightarrow> string option) \<Rightarrow> (string \<Rightarrow> string \<Rightarrow> string) \<Rightarrow> PepperSet \<Rightarrow> go_time
     \<Rightarrow> (string \<Rightarrow> string \<Rightarrow> access_error + VerificationRecord) \<Rightarrow> string \<Rightarrow> access_error + Access_Context" where
  "Authenticate canon mac peppers now lookup encoded =
     (case ParsePresentedKey canon encoded of
        Inl _ \<Rightarrow> (case DummyVerify peppers of Some e \<Rightarrow> Inl e | None \<Rightarrow> Inl ErrInvalidCredential)
      | Inr presented \<Rightarrow>
         (case lookup (pk_tenant presented) (pk_key presented) of
            Inl e \<Rightarrow>
              (if e = ErrKeyNotFound
               then (case DummyVerify peppers of Some d \<Rightarrow> Inl d | None \<Rightarrow> Inl ErrInvalidCredential)
               else Inl e)
          | Inr found \<Rightarrow>
              (let key = vr_key found in
               and_then (pepper_Verify mac peppers presented (k_pepperVersion key) (k_digest key)) (\<lambda>valid.
               guard (valid \<and> k_id key = pk_key presented \<and> k_tenantID key = pk_tenant presented
                      \<and> vr_tenantState found = StateActive \<and> UsableAt key now) ErrInvalidCredential
                 (and_then (NewScope (k_tenantID key)) (\<lambda>scope.
                    Inr \<lparr>ac_principal = k_id key, ac_scope = scope, ac_grant = k_grant key\<rparr>))))))"

text \<open>\<^verbatim>\<open>TenantReader.Current\<close>; \<open>lookup\<close> is the tenant repository.\<close>

definition TenantReader_Current ::
  "(string \<Rightarrow> string \<Rightarrow> access_error + 't) \<Rightarrow> Access_Context \<Rightarrow> access_error + 't" where
  "TenantReader_Current lookup authority =
     (case Require authority (permission_name PermissionTenantRead) of
        Some e \<Rightarrow> Inl e
      | None \<Rightarrow> guard (ac_scope authority \<noteq> []) ErrInsufficientScope
          (lookup (ac_scope authority) (ac_scope authority)))"

section \<open>Administration\<close>

record AdminAction =
  aa_actor :: string
  aa_reason :: string
  aa_occurredAt :: go_time

definition AdminAction_Validate :: "AdminAction \<Rightarrow> bool" where
  "AdminAction_Validate action \<longleftrightarrow> bounded_text 200 (aa_actor action) \<and> bounded_text 500 (aa_reason action)"

definition prepareAdminAction :: "AdminAction \<Rightarrow> go_time \<Rightarrow> access_error + AdminAction" where
  "prepareAdminAction action now =
     guard (AdminAction_Validate action) ActionInvalid
       (guard (\<not> IsZero (to_UTC now)) ActionInvalid (Inr (action\<lparr>aa_occurredAt := to_UTC now\<rparr>)))"

text \<open>
  \<^verbatim>\<open>Administrator.Revoke\<close>; \<open>lookup\<close> and \<open>save\<close> are the repository's \<^verbatim>\<open>FindAdministrative\<close> and
  \<^verbatim>\<open>SaveLifecycleAdministrative\<close>.
\<close>

definition Administrator_Revoke ::
  "go_time \<Rightarrow> (string \<Rightarrow> access_error + Key) \<Rightarrow> (AdminAction \<Rightarrow> Key \<Rightarrow> int \<Rightarrow> access_error option)
     \<Rightarrow> AdminAction \<Rightarrow> string \<Rightarrow> int \<Rightarrow> access_error + Key" where
  "Administrator_Revoke clock lookup save action identifier expectedVersion =
     guard (identifier \<noteq> [] \<and> 1 \<le> expectedVersion) ErrKeyConflict
       (let now = to_UTC clock in
        and_then (prepareAdminAction action now) (\<lambda>prepared.
        and_then (lookup identifier) (\<lambda>key.
        guard (k_version key = expectedVersion) ErrKeyConflict
          (and_then (Revoke now key) (\<lambda>revoked.
           (case save prepared revoked expectedVersion of Some e \<Rightarrow> Inl e | None \<Rightarrow> Inr revoked))))))"

section \<open>Lemmas: the presented key\<close>

text \<open>What the code relies on of \<^verbatim>\<open>ulid.ParseStrict\<close>: a canonical text has 26 characters and parses to itself.\<close>

definition ulid_text :: "(string \<Rightarrow> string option) \<Rightarrow> string \<Rightarrow> bool" where
  "ulid_text canon u \<longleftrightarrow> length u = ulidPayloadLength \<and> canon u = Some u"

lemma substring_append: "length a = i \<Longrightarrow> length b = j - i \<Longrightarrow> i \<le> j \<Longrightarrow> substring i j (a @ b @ c) = b"
  by (simp add: substring_def)

lemma reveal_parse:
  assumes "ulid_text canon t" and "ulid_text canon k" and "length s = 32"
    and "pk = \<lparr>pk_tenant = ''ten_'' @ t, pk_key = ''key_'' @ k, pk_secret = s\<rparr>"
  shows "ParsePresentedKey canon (Reveal pk) = Inr pk"
proof -
  have l: "length t = 26" "length k = 26" "length (b64_encode s) = 43"
    using assms by (simp_all add: ulid_text_def ulidPayloadLength_def b64_encode_length)
  have r: "Reveal pk = ''idq_v1_'' @ t @ ''_'' @ k @ ''_'' @ b64_encode s"
    using assms(4) by (simp add: Reveal_def presented_IsZero_def presentedKeyPrefix_def)
  have t: "substring 7 33 (Reveal pk) = t"
    unfolding r by (rule substring_append) (simp_all add: l)
  have k: "substring 34 60 (Reveal pk) = k"
  proof -
    have "substring 34 60 ((''idq_v1_'' @ t @ ''_'') @ k @ (''_'' @ b64_encode s)) = k"
      by (rule substring_append) (simp_all add: l)
    then show ?thesis unfolding r by simp
  qed
  have s: "drop 61 (Reveal pk) = b64_encode s"
    unfolding r by (simp add: l)
  have u: "Reveal pk ! 33 = CHR ''_''" "Reveal pk ! 60 = CHR ''_''"
    unfolding r by (simp_all add: nth_append nth_Cons' l)
  have p: "ParsePublic canon R_Tenant (''ten_'' @ t) = Inr (''ten_'' @ t)"
      "ParsePublic canon R_APIKey (''key_'' @ k) = Inr (''key_'' @ k)"
    using ParsePublic_text [of canon t R_Tenant] ParsePublic_text [of canon k R_APIKey] assms(1,2)
    by (simp_all add: ulid_text_def)
  have c: "length (Reveal pk) = presentedKeyLength" "take 7 (Reveal pk) = presentedKeyPrefix"
    unfolding r by (simp_all add: presentedKeyLength_def presentedKeyPrefix_def ulidPayloadLength_def
        secretTextLength_def l)
  have n: "length presentedKeyPrefix = 7"
    by (simp add: presentedKeyPrefix_def)
  have "ParsePresentedKey canon (Reveal pk) =
      Inr \<lparr>pk_tenant = ''ten_'' @ t, pk_key = ''key_'' @ k, pk_secret = s\<rparr>"
    unfolding ParsePresentedKey_def Let_def n ulidPayloadLength_def
    by (simp add: c u t k s p [simplified] assms(3) secretByteLength_def b64_roundtrip)
  then show ?thesis using assms(4) by simp
qed

section \<open>Lemmas: the lifecycle\<close>

definition key_valid :: "Key \<Rightarrow> bool" where
  "key_valid r \<longleftrightarrow> k_id r \<noteq> [] \<and> k_tenantID r \<noteq> [] \<and> \<not> digest_IsZero (k_digest r) \<and> k_pepperVersion r \<noteq> 0
     \<and> 1 \<le> k_version r \<and> t_ns (k_createdAt r) \<noteq> 0 \<and> t_ns (k_createdAt r) \<le> t_ns (k_updatedAt r)
     \<and> validateKeyLabel (k_label r) \<and> gr_patterns (k_grant r) \<noteq> [] \<and> gr_permissions (k_grant r) \<noteq> []
     \<and> (case k_expiresAt r of None \<Rightarrow> True | Some e \<Rightarrow> t_ns (k_createdAt r) < t_ns e)
     \<and> (k_replacesID r = [] \<or> k_replacesID r \<noteq> k_id r)
     \<and> (case k_revokedAt r of None \<Rightarrow> True | Some t \<Rightarrow> t_ns t = t_ns (k_updatedAt r))
     \<and> (case k_retiredAt r of None \<Rightarrow> True | Some t \<Rightarrow> t_ns (k_updatedAt r) \<le> t_ns t)"

lemma key_UTC_idem [simp]: "key_UTC (key_UTC r) = key_UTC r"
  by (simp add: key_UTC_def option.map_comp comp_def)

lemma key_UTC_sel [simp]:
  "k_id (key_UTC r) = k_id r" "k_tenantID (key_UTC r) = k_tenantID r" "k_label (key_UTC r) = k_label r"
  "k_digest (key_UTC r) = k_digest r" "k_pepperVersion (key_UTC r) = k_pepperVersion r"
  "k_grant (key_UTC r) = k_grant r" "k_version (key_UTC r) = k_version r"
  "k_createdAt (key_UTC r) = to_UTC (k_createdAt r)" "k_updatedAt (key_UTC r) = to_UTC (k_updatedAt r)"
  "k_expiresAt (key_UTC r) = map_option to_UTC (k_expiresAt r)"
  "k_revokedAt (key_UTC r) = map_option to_UTC (k_revokedAt r)"
  "k_retiredAt (key_UTC r) = map_option to_UTC (k_retiredAt r)"
  "k_replacesID (key_UTC r) = k_replacesID r"
  by (simp_all add: key_UTC_def)

lemma key_valid_UTC [simp]: "key_valid (key_UTC r) \<longleftrightarrow> key_valid r"
  by (simp add: key_valid_def option.case_eq_if option.map_sel)

lemma RestoreKey_Inr: "RestoreKey r = Inr k \<longleftrightarrow> key_valid r \<and> k = key_UTC r"
  by (auto simp: RestoreKey_def Let_def chain_iff key_valid_def Before_def After_def IsZero_def
      split: option.splits)

definition key_ok :: "Key \<Rightarrow> bool" where
  "key_ok k \<longleftrightarrow> key_valid k \<and> key_UTC k = k"

lemma key_ok_Restore: "key_ok k \<longleftrightarrow> RestoreKey k = Inr k"
  by (auto simp: key_ok_def RestoreKey_Inr)

lemma RestoreKey_ok: "RestoreKey r = Inr k \<Longrightarrow> key_ok k"
  by (auto simp: RestoreKey_Inr key_ok_def)

lemma Revoke_Inr:
  "Revoke now k = Inr k' \<longleftrightarrow> k_id k \<noteq> [] \<and> k_revokedAt k = None
     \<and> (case k_retiredAt k of None \<Rightarrow> True | Some t \<Rightarrow> t_ns now < t_ns t)
     \<and> t_ns (k_updatedAt k) \<le> t_ns now
     \<and> k' = k\<lparr>k_revokedAt := Some (to_UTC now), k_updatedAt := to_UTC now, k_version := i64 (k_version k + 1)\<rparr>"
  by (auto simp: Revoke_def chain_iff Before_def split: option.splits)

lemma ScheduleRetirement_Inr:
  "ScheduleRetirement s e k = Inr k' \<longleftrightarrow> k_id k \<noteq> [] \<and> k_revokedAt k = None \<and> k_retiredAt k = None
     \<and> t_ns (k_updatedAt k) \<le> t_ns s \<and> t_ns s \<le> t_ns e
     \<and> k' = k\<lparr>k_retiredAt := Some (to_UTC e), k_updatedAt := to_UTC s, k_version := i64 (k_version k + 1)\<rparr>"
  by (auto simp: ScheduleRetirement_def chain_iff Before_def)

lemma UsableAt_iff:
  "UsableAt k t \<longleftrightarrow> k_revokedAt k = None
     \<and> (case k_retiredAt k of None \<Rightarrow> True | Some r \<Rightarrow> t_ns t < t_ns r)
     \<and> (case k_expiresAt k of None \<Rightarrow> True | Some e \<Rightarrow> t_ns t < t_ns e)"
  by (auto simp: UsableAt_def StateAt_def Before_def split: option.splits)

text \<open>The lifecycle commands, the phases of a key and the graph they follow.\<close>

datatype key_command = Cmd_Revoke go_time | Cmd_Schedule go_time go_time

fun apply_key :: "key_command \<Rightarrow> Key \<Rightarrow> access_error + Key" where
  "apply_key (Cmd_Revoke now) k = Revoke now k"
| "apply_key (Cmd_Schedule s e) k = ScheduleRetirement s e k"

datatype key_phase = Live | Retiring | Revoked

definition key_phase_of :: "Key \<Rightarrow> key_phase" where
  "key_phase_of k = (if k_revokedAt k \<noteq> None then Revoked else if k_retiredAt k \<noteq> None then Retiring else Live)"

fun phase_rank :: "key_phase \<Rightarrow> nat" where
  "phase_rank Live = 0"
| "phase_rank Retiring = 1"
| "phase_rank Revoked = 2"

definition key_edge :: "key_phase \<Rightarrow> key_phase \<Rightarrow> bool" where
  "key_edge p q \<longleftrightarrow> phase_rank p < phase_rank q"

lemma apply_key_edge: "apply_key c k = Inr k' \<Longrightarrow> key_edge (key_phase_of k) (key_phase_of k')"
  by (cases c) (auto simp: Revoke_Inr ScheduleRetirement_Inr key_phase_of_def key_edge_def)

interpretation api_key: phased_workflow apply_key key_phase_of key_edge "\<lambda>p. p = Revoked"
proof
  show "k' = k \<or> key_edge (key_phase_of k) (key_phase_of k')" if "apply_key c k = Inr k'" for c k k'
    using apply_key_edge [OF that] ..
  show "\<not> key_edge p q" if "p = Revoked" for p q
    using that by (cases q) (simp_all add: key_edge_def)
qed

text \<open>Administrative revocation is a command on the stored key under optimistic concurrency.\<close>

definition revoke_step :: "go_time \<times> AdminAction \<times> string \<times> int \<Rightarrow> Key \<Rightarrow> access_error + Key" where
  "revoke_step c k =
     (case c of (clock, action, identifier, expectedVersion) \<Rightarrow>
        Administrator_Revoke clock (\<lambda>_. Inr k) (\<lambda>_ _ _. None) action identifier expectedVersion)"

lemma revoke_step_Inr:
  "revoke_step c k = Inr k' \<Longrightarrow> snd (snd (snd c)) = k_version k \<and> (\<exists>now. Revoke now k = Inr k')"
  by (auto simp: revoke_step_def Administrator_Revoke_def Let_def chain_iff split: prod.splits)

interpretation key_revocation: optimistic_aggregate revoke_step k_version "\<lambda>c. snd (snd (snd c))"
  by unfold_locales (auto dest!: revoke_step_Inr simp: Revoke_Inr)

lemma apply_key_keeps:
  "apply_key c k = Inr k' \<Longrightarrow> k_id k' = k_id k \<and> k_tenantID k' = k_tenantID k \<and> k_digest k' = k_digest k
     \<and> k_grant k' = k_grant k \<and> k_expiresAt k' = k_expiresAt k \<and> k_createdAt k' = k_createdAt k
     \<and> k_version k' = i64 (k_version k + 1)"
  by (cases c) (auto simp: Revoke_Inr ScheduleRetirement_Inr)

lemma key_UTC_update:
  "key_UTC (k\<lparr>k_revokedAt := Some (to_UTC t), k_updatedAt := to_UTC t, k_version := v\<rparr>) =
     (key_UTC k)\<lparr>k_revokedAt := Some (to_UTC t), k_updatedAt := to_UTC t, k_version := v\<rparr>"
  "key_UTC (k\<lparr>k_retiredAt := Some (to_UTC e), k_updatedAt := to_UTC t, k_version := v\<rparr>) =
     (key_UTC k)\<lparr>k_retiredAt := Some (to_UTC e), k_updatedAt := to_UTC t, k_version := v\<rparr>"
  by (simp_all add: key_UTC_def)

lemma Revoke_valid: "Revoke t k = Inr k' \<Longrightarrow> key_valid k \<Longrightarrow> k_version k < int64_max \<Longrightarrow> key_valid k'"
  unfolding Revoke_Inr key_valid_def
  by (simp add: i64_succ int64_min_def) (auto split: option.splits)

lemma Schedule_valid:
  "ScheduleRetirement t e k = Inr k' \<Longrightarrow> key_valid k \<Longrightarrow> k_version k < int64_max \<Longrightarrow> key_valid k'"
  unfolding ScheduleRetirement_Inr key_valid_def
  by (simp add: i64_succ int64_min_def) (auto split: option.splits)

lemma apply_key_ok: "apply_key c k = Inr k' \<Longrightarrow> key_ok k \<Longrightarrow> k_version k < int64_max \<Longrightarrow> key_ok k'"
proof (cases c)
  case (Cmd_Revoke t)
  moreover assume "apply_key c k = Inr k'" "key_ok k" "k_version k < int64_max"
  ultimately show ?thesis
    using Revoke_valid [of t k k'] by (simp add: key_ok_def Revoke_Inr key_UTC_update)
next
  case (Cmd_Schedule t e)
  moreover assume "apply_key c k = Inr k'" "key_ok k" "k_version k < int64_max"
  ultimately show ?thesis
    using Schedule_valid [of t e k k'] by (simp add: key_ok_def ScheduleRetirement_Inr key_UTC_update)
qed

lemma apply_key_dead:
  "apply_key c k = Inr k' \<Longrightarrow> \<not> UsableAt k t \<Longrightarrow> t_ns t \<le> t_ns t' \<Longrightarrow> \<not> UsableAt k' t'"
  by (cases c) (auto simp: Revoke_Inr ScheduleRetirement_Inr UsableAt_iff split: option.splits)

lemma run_key_dead:
  "run_all apply_key cs k = Inr k' \<Longrightarrow> \<not> UsableAt k t \<Longrightarrow> t_ns t \<le> t_ns t' \<Longrightarrow> \<not> UsableAt k' t'"
proof (induction cs arbitrary: k)
  case Nil
  then show ?case by (auto simp: UsableAt_iff split: option.splits)
next
  case (Cons c cs)
  then obtain k1 where "apply_key c k = Inr k1" "run_all apply_key cs k1 = Inr k'"
    by (auto split: sum.splits)
  with Cons.IH Cons.prems(2,3) show ?case
    using apply_key_dead [of c k k1 t t] by blast
qed

lemma rank_le: "phase_rank p \<le> 2"
  by (cases p) auto

lemma run_key_history:
  assumes "run_all apply_key cs k = Inr k'" and "key_ok k"
    and "k_version k + 2 \<le> int64_max + int (phase_rank (key_phase_of k))"
  shows "key_ok k' \<and> k_version k' = k_version k + int (length cs)
    \<and> length cs + phase_rank (key_phase_of k) \<le> phase_rank (key_phase_of k')
    \<and> k_grant k' = k_grant k \<and> k_tenantID k' = k_tenantID k \<and> k_expiresAt k' = k_expiresAt k"
  using assms
proof (induction cs arbitrary: k)
  case Nil
  then show ?case by simp
next
  case (Cons c cs)
  then obtain k1 where k1: "apply_key c k = Inr k1" "run_all apply_key cs k1 = Inr k'"
    by (auto split: sum.splits)
  have r: "phase_rank (key_phase_of k) < phase_rank (key_phase_of k1)"
    using apply_key_edge [OF k1(1)] by (simp add: key_edge_def)
  then have "k_version k < int64_max"
    using Cons.prems(3) rank_le [of "key_phase_of k1"] by linarith
  moreover from this have "k_version k1 = k_version k + 1"
    using apply_key_keeps [OF k1(1)] Cons.prems(2)
    by (simp add: key_ok_def key_valid_def i64_succ int64_min_def)
  moreover have "key_ok k1"
    using apply_key_ok [OF k1(1) Cons.prems(2)] calculation by simp
  ultimately show ?case
    using Cons.IH [OF k1(2)] Cons.prems(3) r apply_key_keeps [OF k1(1)] by auto
qed

section \<open>Lemmas: issuing and authenticating\<close>

lemma build_Inr:
  assumes "build issuer newid entropy ten label grant expiresAt replaces now = Inr issued"
  shows "\<exists>identifier secret pepper. newid = Some identifier \<and> entropy = Some secret
    \<and> map_of (ps_peppers (is_peppers issuer)) (ps_active (is_peppers issuer)) = Some pepper
    \<and> ik_credential issued = \<lparr>pk_tenant = ten, pk_key = identifier, pk_secret = secret\<rparr>
    \<and> \<not> presented_IsZero (ik_credential issued)
    \<and> k_digest (ik_key issued) = computeDigest (is_mac issuer) pepper (ik_credential issued)
    \<and> k_pepperVersion (ik_key issued) = ps_active (is_peppers issuer)
    \<and> k_id (ik_key issued) = identifier \<and> k_tenantID (ik_key issued) = ten
    \<and> k_grant (ik_key issued) = grant \<and> k_expiresAt (ik_key issued) = map_option to_UTC expiresAt
    \<and> k_revokedAt (ik_key issued) = None \<and> k_retiredAt (ik_key issued) = None
    \<and> k_version (ik_key issued) = 1 \<and> k_replacesID (ik_key issued) = replaces
    \<and> key_ok (ik_key issued)"
  using assms
  by (auto simp: build_def Generate_def pepper_Digest_def chain_iff RestoreKey_Inr key_ok_def
      split: option.splits)

lemma resolve_grant_Inr: "resolve_grant reg pats = Inr g \<longleftrightarrow> Registry_Resolve reg pats = Inr g"
  by (auto simp: resolve_grant_def split: sum.splits)

lemma Issue_Inr:
  assumes "Issue issuer clock newid entropy create scope label pats intent = Inr issued"
  shows "\<exists>e g. expiry_resolve (is_expiry issuer) (to_UTC clock) intent = Inr e
    \<and> Registry_Resolve (is_registry issuer) pats = Inr g
    \<and> build issuer newid entropy scope label g e [] (to_UTC clock) = Inr issued
    \<and> create (ik_key issued) = None"
  using assms by (auto simp: Issue_def Let_def chain_iff resolve_grant_Inr split: option.splits)

lemma Rotate_Inr:
  assumes "Rotate issuer clock newid entropy lookup save keyID intent overlap pats = Inr (retiring, successor)"
  shows "\<exists>pred e g. lookup keyID = Inr pred \<and> 0 < overlap \<and> overlap \<le> is_rotation issuer
    \<and> UsableAt pred (to_UTC clock)
    \<and> expiry_resolve (is_expiry issuer) (to_UTC clock) intent = Inr e
    \<and> (\<forall>x. e = Some x \<longrightarrow> t_ns clock + overlap < t_ns x)
    \<and> (pats = [] \<and> g = k_grant pred \<or> Registry_Resolve (is_registry issuer) pats = Inr g)
    \<and> build issuer newid entropy (k_tenantID pred) (k_label pred) g e (k_id pred) (to_UTC clock) = Inr successor
    \<and> ScheduleRetirement (to_UTC clock) (Add (to_UTC clock) overlap) pred = Inr retiring
    \<and> save retiring (k_version pred) (ik_key successor) = None"
  using assms
  by (auto simp: Rotate_def Let_def chain_iff resolve_grant_Inr After_def Add_def
      split: option.splits if_splits)

lemma Authenticate_Inr:
  "Authenticate canon mac peppers now lookup encoded = Inr ctx \<longleftrightarrow>
     (\<exists>pk found pepper. ParsePresentedKey canon encoded = Inr pk
        \<and> lookup (pk_tenant pk) (pk_key pk) = Inr found
        \<and> \<not> presented_IsZero pk
        \<and> map_of (ps_peppers peppers) (k_pepperVersion (vr_key found)) = Some pepper
        \<and> computeDigest mac pepper pk = k_digest (vr_key found)
        \<and> k_id (vr_key found) = pk_key pk \<and> k_tenantID (vr_key found) = pk_tenant pk
        \<and> vr_tenantState found = StateActive \<and> UsableAt (vr_key found) now
        \<and> ctx = \<lparr>ac_principal = pk_key pk, ac_scope = pk_tenant pk, ac_grant = k_grant (vr_key found)\<rparr>)"
  by (auto simp: Authenticate_def Let_def chain_iff pepper_Verify_def NewScope_def presented_IsZero_def
      split: sum.splits option.splits if_splits)

section \<open>Sample values\<close>

definition sample_ulid :: string where
  "sample_ulid = replicate 26 (CHR ''0'')"

definition sample_secret :: string where
  "sample_secret = replicate 32 (CHR ''s'')"

definition sample_issuer :: Issuer where
  "sample_issuer = \<lparr>is_registry = TenantRegistry,
     is_expiry = \<lparr>ep_configured = True, ep_allowNoExpiry = True, ep_maximumLifetime = None\<rparr>,
     is_rotation = hour, is_peppers = \<lparr>ps_active = 1, ps_peppers = [(1, replicate 32 (CHR ''p''))]\<rparr>,
     is_mac = (\<lambda>_ _. replicate 32 (CHR ''m''))\<rparr>"

definition sample_key_grant :: Grant where
  "sample_key_grant = \<lparr>gr_patterns = [''*:*''], gr_permissions = sort (rg_permissions TenantRegistry)\<rparr>"

definition sample_key :: "string \<Rightarrow> string \<Rightarrow> int \<Rightarrow> Key" where
  "sample_key identifier replaces now = \<lparr>k_id = identifier, k_tenantID = ''ten_'' @ sample_ulid, k_label = ''ci'',
     k_digest = replicate 32 (CHR ''m''), k_pepperVersion = 1, k_grant = sample_key_grant, k_version = 1,
     k_createdAt = utc_at now, k_updatedAt = utc_at now, k_expiresAt = None, k_revokedAt = None,
     k_retiredAt = None, k_replacesID = replaces\<rparr>"

definition sample_issued :: IssuedKey where
  "sample_issued = \<lparr>ik_key = sample_key (''key_'' @ sample_ulid) [] 5,
     ik_credential = \<lparr>pk_tenant = ''ten_'' @ sample_ulid, pk_key = ''key_'' @ sample_ulid, pk_secret = sample_secret\<rparr>\<rparr>"

lemma sample_label: "validateKeyLabel ''ci''"
  by (simp add: validateKeyLabel_def maxKeyLabelLength_def bounded_text_def second_range_def rune_IsSpace_def)

lemma sample_digest: "\<not> digest_IsZero (replicate 32 (CHR ''m''))"
  by (simp add: digest_IsZero_def digest_size_def)

lemma sample_key_grant_nonempty: "gr_permissions sample_key_grant \<noteq> []"
  using registry_length by (auto simp: sample_key_grant_def)

lemma sample_key_ok: "now \<noteq> 0 \<Longrightarrow> i \<noteq> [] \<Longrightarrow> r \<noteq> i \<Longrightarrow> key_ok (sample_key i r now)"
  using sample_key_grant_nonempty sample_label sample_digest
  by (simp add: key_ok_def key_valid_def sample_key_def key_UTC_def to_UTC_def sample_key_grant_def)

lemma sample_build:
  "now \<noteq> 0 \<Longrightarrow> i \<noteq> [] \<Longrightarrow> r \<noteq> i \<Longrightarrow>
   build sample_issuer (Some i) (Some sample_secret) (''ten_'' @ sample_ulid) ''ci'' sample_key_grant None r (utc_at now) =
     Inr \<lparr>ik_key = sample_key i r now,
           ik_credential = \<lparr>pk_tenant = ''ten_'' @ sample_ulid, pk_key = i, pk_secret = sample_secret\<rparr>\<rparr>"
  using sample_key_ok [of now i r]
  by (simp add: build_def Generate_def pepper_Digest_def presented_IsZero_def sample_issuer_def computeDigest_def
      key_ok_Restore) (simp add: sample_key_def)

lemma sample_issue:
  "Issue sample_issuer (utc_at 5) (Some (''key_'' @ sample_ulid)) (Some sample_secret) (\<lambda>_. None)
     (''ten_'' @ sample_ulid) ''ci'' [''*:*''] WithoutExpiry = Inr sample_issued"
proof -
  have "expiry_resolve (is_expiry sample_issuer) (utc_at 5) WithoutExpiry = Inr None"
    by (simp add: expiry_resolve_def sample_issuer_def WithoutExpiry_def)
  moreover have "resolve_grant (is_registry sample_issuer) [''*:*''] = Inr sample_key_grant"
    by (simp add: resolve_grant_Inr resolve_any sample_issuer_def sample_key_grant_def)
  ultimately show ?thesis
    using sample_build [of 5 "''key_'' @ sample_ulid" "[]"]
    by (simp add: Issue_def Let_def to_UTC_def sample_issued_def)
qed

lemma sample_ulid_text: "ulid_text Some sample_ulid"
  by (simp add: ulid_text_def sample_ulid_def ulidPayloadLength_def)

section \<open>Properties\<close>

text \<open>
  C9. An issued key works: the credential that \<^verbatim>\<open>Issue\<close> hands out, presented while the stored key
  is usable and its tenant is active, authenticates as that key, in the tenant it was issued for,
  and the authority allows exactly the registered permissions that the requested patterns match;
  for any HMAC and any ULID parser that accepts canonical texts.
\<close>

theorem issued_key_authenticates:
  assumes "Issue issuer clock (Some (''key_'' @ k)) (Some secret) create (''ten_'' @ t) label pats intent = Inr issued"
    and "ulid_text canon t" and "ulid_text canon k" and "length secret = secretByteLength"
    and "lookup (''ten_'' @ t) (''key_'' @ k) = Inr \<lparr>vr_key = ik_key issued, vr_tenantState = StateActive\<rparr>"
    and "UsableAt (ik_key issued) now"
  shows "\<exists>ctx. Authenticate canon (is_mac issuer) (is_peppers issuer) now lookup (Reveal (ik_credential issued)) = Inr ctx
    \<and> ac_principal ctx = ''key_'' @ k \<and> ac_scope ctx = ''ten_'' @ t
    \<and> (\<forall>p. Context_Allows ctx p \<longleftrightarrow>
          p \<in> set (rg_permissions (is_registry issuer)) \<and> (\<exists>pat \<in> set pats. Matches pat p))"
proof -
  obtain e g where g: "Registry_Resolve (is_registry issuer) pats = Inr g"
    and b: "build issuer (Some (''key_'' @ k)) (Some secret) (''ten_'' @ t) label g e [] (to_UTC clock) = Inr issued"
    using Issue_Inr [OF assms(1)] by blast
  note built = build_Inr [OF b]
  have "ParsePresentedKey canon (Reveal (ik_credential issued)) = Inr (ik_credential issued)"
    using built assms(2-4) by (intro reveal_parse [of canon t k secret]) (auto simp: secretByteLength_def)
  then have "Authenticate canon (is_mac issuer) (is_peppers issuer) now lookup (Reveal (ik_credential issued))
      = Inr \<lparr>ac_principal = ''key_'' @ k, ac_scope = ''ten_'' @ t, ac_grant = g\<rparr>"
    unfolding Authenticate_Inr using built assms(5,6) by auto
  moreover have "Grant_Allows g p \<longleftrightarrow>
      p \<in> set (rg_permissions (is_registry issuer)) \<and> (\<exists>pat \<in> set pats. Matches pat p)" for p
    using Registry_Resolve_Inr [OF g] by (auto simp: Allows_iff)
  ultimately show ?thesis by (simp add: Context_Allows_def)
qed

theorem issued_key_authenticates_witness:
  "\<exists>ctx. Authenticate Some (is_mac sample_issuer) (is_peppers sample_issuer) (utc_at 6)
      (\<lambda>_ _. Inr \<lparr>vr_key = ik_key sample_issued, vr_tenantState = StateActive\<rparr>)
      (Reveal (ik_credential sample_issued)) = Inr ctx
    \<and> ac_principal ctx = ''key_'' @ sample_ulid \<and> ac_scope ctx = ''ten_'' @ sample_ulid
    \<and> (\<forall>p. Context_Allows ctx p \<longleftrightarrow>
          p \<in> set (rg_permissions (is_registry sample_issuer)) \<and> (\<exists>pat \<in> set [''*:*'']. Matches pat p))"
  by (rule issued_key_authenticates [OF sample_issue sample_ulid_text sample_ulid_text])
    (simp_all add: sample_secret_def secretByteLength_def UsableAt_iff sample_issued_def sample_key_def)

text \<open>
  C10. Authentication is sound: whatever the caller presents, an authority is handed out only when
  the credential parses, the record looked up under exactly its tenant and key identifiers has a
  digest equal to the HMAC, under the record's pepper version, of the tenant, the key and the
  secret presented, the tenant is active and the key is usable now; the authority names that key,
  that tenant and the grant of the record.
\<close>

theorem authenticate_sound:
  assumes "Authenticate canon mac peppers now lookup encoded = Inr ctx"
  shows "\<exists>pk found pepper. ParsePresentedKey canon encoded = Inr pk
    \<and> lookup (pk_tenant pk) (pk_key pk) = Inr found
    \<and> map_of (ps_peppers peppers) (k_pepperVersion (vr_key found)) = Some pepper
    \<and> mac pepper (hmacDomain @ pk_tenant pk @ [CHR 0x00] @ pk_key pk @ [CHR 0x00] @ pk_secret pk)
        = k_digest (vr_key found)
    \<and> vr_tenantState found = StateActive \<and> StateAt (vr_key found) now = KeyStateActive
    \<and> k_id (vr_key found) = ac_principal ctx \<and> k_tenantID (vr_key found) = ac_scope ctx
    \<and> k_grant (vr_key found) = ac_grant ctx \<and> pk_tenant pk = ac_scope ctx \<and> ac_scope ctx \<noteq> []"
  using assms unfolding Authenticate_Inr
  by (auto simp: computeDigest_def UsableAt_def presented_IsZero_def)

theorem authenticate_sound_witness:
  "\<exists>pk found pepper. ParsePresentedKey Some (Reveal (ik_credential sample_issued)) = Inr pk
    \<and> (\<lambda>_ _. Inr \<lparr>vr_key = ik_key sample_issued, vr_tenantState = StateActive\<rparr>) (pk_tenant pk) (pk_key pk)
        = (Inr found :: access_error + VerificationRecord)
    \<and> map_of (ps_peppers (is_peppers sample_issuer)) (k_pepperVersion (vr_key found)) = Some pepper
    \<and> StateAt (vr_key found) (utc_at 6) = KeyStateActive"
proof -
  have r: "ParsePresentedKey Some (Reveal (ik_credential sample_issued)) = Inr (ik_credential sample_issued)"
    by (rule reveal_parse [OF sample_ulid_text sample_ulid_text])
      (simp_all add: sample_issued_def sample_secret_def)
  have "Authenticate Some (is_mac sample_issuer) (is_peppers sample_issuer) (utc_at 6)
      (\<lambda>_ _. Inr \<lparr>vr_key = ik_key sample_issued, vr_tenantState = StateActive\<rparr>)
      (Reveal (ik_credential sample_issued))
    = Inr \<lparr>ac_principal = ''key_'' @ sample_ulid, ac_scope = ''ten_'' @ sample_ulid, ac_grant = sample_key_grant\<rparr>"
    unfolding Authenticate_Inr using r
    by (simp add: sample_issued_def sample_key_def sample_issuer_def computeDigest_def presented_IsZero_def UsableAt_iff)
  from authenticate_sound [OF this] show ?thesis by blast
qed

text \<open>
  A dead key stays dead: once a key is unusable at some instant (revoked, retired or expired),
  no sequence of lifecycle operations brings it back, and no credential authenticates against it
  at that or a later instant.
\<close>

theorem dead_key_stays_dead:
  assumes "\<not> UsableAt k t" and "run_all apply_key cs k = Inr k'" and "t_ns t \<le> t_ns t'"
    and "\<And>ten key. lookup ten key = Inr \<lparr>vr_key = k', vr_tenantState = state\<rparr>"
  shows "\<exists>e. Authenticate canon mac peppers t' lookup encoded = Inl e"
proof (cases "Authenticate canon mac peppers t' lookup encoded")
  case (Inr ctx)
  then have "UsableAt k' t'"
    using assms(4) unfolding Authenticate_Inr by auto
  with run_key_dead [OF assms(2,1,3)] show ?thesis by simp
qed simp

theorem dead_key_stays_dead_witness:
  "\<exists>e. Authenticate Some (is_mac sample_issuer) (is_peppers sample_issuer) (utc_at 9)
     (\<lambda>_ _. Inr \<lparr>vr_key = (sample_key ''key_1'' [] 5)\<lparr>k_revokedAt := Some (utc_at 7), k_updatedAt := utc_at 7, k_version := 2\<rparr>,
                 vr_tenantState = StateActive\<rparr>) ''idq_v1_'' = Inl e"
  by (rule dead_key_stays_dead [where cs = "[]" and t = "utc_at 7" and state = StateActive
      and k = "(sample_key ''key_1'' [] 5)\<lparr>k_revokedAt := Some (utc_at 7), k_updatedAt := utc_at 7, k_version := 2\<rparr>"])
    (simp_all add: UsableAt_iff)

text \<open>
  C36. Every key in the store can be read back: whatever lifecycle operations succeed on an issued
  key, in whatever order, the result passes \<^verbatim>\<open>RestoreKey\<close> unchanged, its version counts the
  operations, at most two ever succeed (a scheduled retirement, then a revocation before it takes
  effect), and tenant, grant and expiry are those of issuance.
\<close>

theorem key_history_restores:
  assumes "build issuer newid entropy ten label grant expiresAt replaces now = Inr issued"
    and "run_all apply_key cs (ik_key issued) = Inr k"
  shows "RestoreKey k = Inr k \<and> k_version k = 1 + int (length cs) \<and> length cs \<le> 2
    \<and> k_grant k = grant \<and> k_tenantID k = ten \<and> k_expiresAt k = map_option to_UTC expiresAt"
proof -
  note b = build_Inr [OF assms(1)]
  then have "k_version (ik_key issued) + 2 \<le> int64_max + int (phase_rank (key_phase_of (ik_key issued)))"
    by (auto simp: int64_max_def)
  then have "key_ok k \<and> k_version k = k_version (ik_key issued) + int (length cs)
      \<and> length cs + phase_rank (key_phase_of (ik_key issued)) \<le> phase_rank (key_phase_of k)
      \<and> k_grant k = k_grant (ik_key issued) \<and> k_tenantID k = k_tenantID (ik_key issued)
      \<and> k_expiresAt k = k_expiresAt (ik_key issued)"
    using b by (intro run_key_history [OF assms(2)]) auto
  then show ?thesis
    using b rank_le [of "key_phase_of k"] by (auto simp: key_ok_Restore)
qed

theorem key_history_restores_witness:
  "\<exists>k. run_all apply_key [Cmd_Schedule (utc_at 6) (utc_at 9), Cmd_Revoke (utc_at 7)] (sample_key ''key_1'' [] 5) = Inr k
     \<and> RestoreKey k = Inr k \<and> k_version k = 3"
proof -
  have "\<exists>k. run_all apply_key [Cmd_Schedule (utc_at 6) (utc_at 9), Cmd_Revoke (utc_at 7)] (sample_key ''key_1'' [] 5) = Inr k"
    by (simp add: ScheduleRetirement_def Revoke_def sample_key_def Before_def)
  then obtain k where k: "run_all apply_key [Cmd_Schedule (utc_at 6) (utc_at 9), Cmd_Revoke (utc_at 7)]
      (sample_key ''key_1'' [] 5) = Inr k" ..
  have "build sample_issuer (Some ''key_1'') (Some sample_secret) (''ten_'' @ sample_ulid) ''ci'' sample_key_grant None [] (utc_at 5) =
     Inr \<lparr>ik_key = sample_key ''key_1'' [] 5,
           ik_credential = \<lparr>pk_tenant = ''ten_'' @ sample_ulid, pk_key = ''key_1'', pk_secret = sample_secret\<rparr>\<rparr>"
    by (rule sample_build) simp_all
  then have h: "run_all apply_key cs (sample_key ''key_1'' [] 5) = Inr k \<Longrightarrow>
      RestoreKey k = Inr k \<and> k_version k = 1 + int (length cs)" for cs
    using key_history_restores [where cs = cs and k = k] by fastforce
  show ?thesis
    using k h [OF k] by (intro exI [of _ k]) simp
qed

text \<open>
  Rotation leaves no gap and no loose end: when \<^verbatim>\<open>Rotate\<close> succeeds, the overlap is positive and
  within the policy, the predecessor stays usable exactly as before until the overlap ends and is
  unusable from then on, and the successor, a different key of the same tenant, is usable at every
  instant up to the end of the overlap; without new patterns its grant is the predecessor's.
\<close>

theorem rotation_no_gap:
  assumes "Rotate issuer clock newid entropy lookup save keyID intent overlap pats = Inr (retiring, successor)"
    and "t_ns t \<le> t_ns clock + overlap"
  shows "UsableAt (ik_key successor) t
    \<and> (\<exists>pred. lookup keyID = Inr pred \<and> UsableAt pred clock
        \<and> (UsableAt retiring t \<longleftrightarrow> UsableAt pred t \<and> t_ns t < t_ns clock + overlap)
        \<and> 0 < overlap \<and> overlap \<le> is_rotation issuer
        \<and> k_tenantID (ik_key successor) = k_tenantID pred \<and> k_id (ik_key successor) \<noteq> k_id pred
        \<and> (if pats = [] then k_grant (ik_key successor) = k_grant pred
           else Registry_Resolve (is_registry issuer) pats = Inr (k_grant (ik_key successor))))"
proof -
  obtain pred e g where r: "lookup keyID = Inr pred" "0 < overlap" "overlap \<le> is_rotation issuer"
    "UsableAt pred (to_UTC clock)" "\<forall>x. e = Some x \<longrightarrow> t_ns clock + overlap < t_ns x"
    "pats = [] \<and> g = k_grant pred \<or> Registry_Resolve (is_registry issuer) pats = Inr g"
    and b: "build issuer newid entropy (k_tenantID pred) (k_label pred) g e (k_id pred) (to_UTC clock) = Inr successor"
    and s: "ScheduleRetirement (to_UTC clock) (Add (to_UTC clock) overlap) pred = Inr retiring"
    using Rotate_Inr [OF assms(1)] by blast
  note built = build_Inr [OF b]
  have succ: "UsableAt (ik_key successor) t"
    using built r(5) assms(2) by (cases e) (auto simp: UsableAt_iff)
  have pred: "UsableAt retiring t \<longleftrightarrow> UsableAt pred t \<and> t_ns t < t_ns clock + overlap"
    using s by (auto simp: ScheduleRetirement_Inr UsableAt_iff Add_def)
  have "k_id pred \<noteq> []"
    using s by (simp add: ScheduleRetirement_Inr)
  moreover have "k_replacesID (ik_key successor) = k_id pred" "key_ok (ik_key successor)"
    using built by blast+
  ultimately have "k_id (ik_key successor) \<noteq> k_id pred"
    unfolding key_ok_def key_valid_def by metis
  moreover have "UsableAt pred clock"
    using r(4) unfolding UsableAt_iff to_UTC_simps(1) .
  moreover have "\<not> (\<exists>h. Registry_Resolve (is_registry issuer) [] = Inr h)"
    by (simp add: Registry_Resolve_def chain_iff)
  moreover have "k_tenantID (ik_key successor) = k_tenantID pred" "k_grant (ik_key successor) = g"
    using built by blast+
  ultimately show ?thesis
    using r(1-3,6) succ pred by auto
qed

theorem rotation_no_gap_witness:
  "\<exists>successor. UsableAt successor (utc_at (10 + minute)) \<and> k_replacesID successor = ''key_0''"
proof -
  have e: "expiry_resolve (is_expiry sample_issuer) (utc_at 10) WithoutExpiry = Inr None"
    by (simp add: expiry_resolve_def sample_issuer_def WithoutExpiry_def)
  have u: "UsableAt (sample_key ''key_0'' [] 5) (utc_at 10)" "k_retiredAt (sample_key ''key_0'' [] 5) = None"
    "k_grant (sample_key ''key_0'' [] 5) = sample_key_grant" "k_tenantID (sample_key ''key_0'' [] 5) = ''ten_'' @ sample_ulid"
    "k_label (sample_key ''key_0'' [] 5) = ''ci''" "k_id (sample_key ''key_0'' [] 5) = ''key_0''"
    by (simp_all add: UsableAt_iff sample_key_def)
  have o: "minute \<le> is_rotation sample_issuer" by (simp add: sample_issuer_def)
  obtain retiring where s: "ScheduleRetirement (utc_at 10) (Add (utc_at 10) minute) (sample_key ''key_0'' [] 5) = Inr retiring"
    by (simp add: ScheduleRetirement_def sample_key_def Before_def Add_def to_UTC_def)
  have "Rotate sample_issuer (utc_at 10) (Some ''key_1'') (Some sample_secret) (\<lambda>_. Inr (sample_key ''key_0'' [] 5))
      (\<lambda>_ _ _. None) ''key_0'' WithoutExpiry minute [] =
    Inr (retiring, \<lparr>ik_key = sample_key ''key_1'' ''key_0'' 10,
      ik_credential = \<lparr>pk_tenant = ''ten_'' @ sample_ulid, pk_key = ''key_1'', pk_secret = sample_secret\<rparr>\<rparr>)"
    using sample_build [of 10 "''key_1''" "''key_0''"] e u s o
    by (simp add: Rotate_def Let_def to_UTC_def)
  from rotation_no_gap [OF this, of "utc_at (10 + minute)"]
  have "UsableAt (sample_key ''key_1'' ''key_0'' 10) (utc_at (10 + minute))" by simp
  moreover have "k_replacesID (sample_key ''key_1'' ''key_0'' 10) = ''key_0''" by (simp add: sample_key_def)
  ultimately show ?thesis by blast
qed

end
