(* ===== verification/Access_Tokens.thy ===== *)
theory Access_Tokens
  imports Access_Keys
begin

text \<open>
  \<^verbatim>\<open>internal/access/capture_token.go\<close> and \<^verbatim>\<open>outcome_token.go\<close>: signed bearer tokens bound to one
  verification session. The two files are the same code at another format marker, MAC domain,
  identifier type and sentinel error; the code is modelled once over a \<open>token_kind\<close>, and each
  file's operations are its instances at \<open>capture_kind\<close> and \<open>outcome_kind\<close>.

  The environment holds what the files import: the ULID parser, HMAC-SHA-256, and the JSON codec
  of the payload (\<open>te_decode\<close> is the decoder with unknown fields disallowed and nothing after the
  value). The locale \<open>token_scheme\<close> states what a scheme of signed tokens promises and is
  interpreted for both kinds.
\<close>

datatype token_error =
    ErrInvalidCaptureToken | ErrInvalidOutcomeToken | KeyringRequired | KeyringVersion | KeyringActive
  | CredentialInvalid | RevocationPrecedes | SignerNotInitialised | SigningKeyUnavailable | PayloadUnencodable

record token_kind =
  tk_format :: string
  tk_domain :: string
  tk_resource :: resource
  tk_invalid :: token_error

definition capture_kind :: token_kind where
  "capture_kind = \<lparr>tk_format = ''idq_cap_v1'',
     tk_domain = ''idq-capture-token'' @ [CHR 0x00] @ ''v1'' @ [CHR 0x00],
     tk_resource = R_CaptureToken, tk_invalid = ErrInvalidCaptureToken\<rparr>"

definition outcome_kind :: token_kind where
  "outcome_kind = \<lparr>tk_format = ''idq_out_v1'',
     tk_domain = ''idq-outcome-token'' @ [CHR 0x00] @ ''v1'' @ [CHR 0x00],
     tk_resource = R_OutcomeToken, tk_invalid = ErrInvalidOutcomeToken\<rparr>"

definition tokenKeyByteLength :: nat where
  "tokenKeyByteLength = 32"

definition maximumTokenLength :: nat where
  "maximumTokenLength = 2048"

record Keyring =
  kr_active :: nat
  kr_keys :: "(nat \<times> string) list"

definition keyring_entry :: "nat \<times> string \<Rightarrow> token_error + (nat \<times> string)" where
  "keyring_entry e = guard (fst e \<noteq> 0 \<and> length (snd e) = tokenKeyByteLength) KeyringVersion (Inr e)"

definition NewKeyring :: "nat \<Rightarrow> (nat \<times> string) list \<Rightarrow> token_error + Keyring" where
  "NewKeyring active keys =
     guard (active \<noteq> 0 \<and> keys \<noteq> []) KeyringRequired
       (and_then (traverse keyring_entry keys) (\<lambda>cloned.
         guard (map_of cloned active \<noteq> None) KeyringActive
           (Inr \<lparr>kr_active = active, kr_keys = cloned\<rparr>)))"

section \<open>Credentials\<close>

record Credential =
  cr_id :: string
  cr_tenantID :: string
  cr_verificationID :: string
  cr_keyVersion :: nat
  cr_issuedAt :: go_time
  cr_expiresAt :: go_time
  cr_revokedAt :: "go_time option"

text \<open>\<^verbatim>\<open>t.Unix()\<close> and \<^verbatim>\<open>time.Unix(n, 0).UTC()\<close>; the Unix epoch is 62135596800 s after Go's zero time.\<close>

definition to_Unix :: "go_time \<Rightarrow> int" where
  "to_Unix t = t_ns t div second - 62135596800"

definition of_Unix :: "int \<Rightarrow> go_time" where
  "of_Unix n = utc_at (i64 (n + 62135596800) * second)"

definition RestoreCredential :: "Credential \<Rightarrow> token_error + Credential" where
  "RestoreCredential r =
     (let c = r\<lparr>cr_issuedAt := of_Unix (to_Unix (cr_issuedAt r)), cr_expiresAt := of_Unix (to_Unix (cr_expiresAt r)),
               cr_revokedAt := map_option to_UTC (cr_revokedAt r)\<rparr> in
      guard (cr_id c \<noteq> [] \<and> cr_tenantID c \<noteq> [] \<and> cr_verificationID c \<noteq> [] \<and> cr_keyVersion c \<noteq> 0
             \<and> \<not> IsZero (cr_issuedAt c) \<and> After (cr_expiresAt c) (cr_issuedAt c)) CredentialInvalid
        (guard (case cr_revokedAt c of None \<Rightarrow> True | Some t \<Rightarrow> \<not> Before t (cr_issuedAt c)) RevocationPrecedes
          (Inr c)))"

definition NewCredential :: "string \<Rightarrow> string \<Rightarrow> string \<Rightarrow> nat \<Rightarrow> go_time \<Rightarrow> go_time \<Rightarrow> token_error + Credential" where
  "NewCredential identifier tenantID verificationID keyVersion issuedAt expiresAt =
     RestoreCredential \<lparr>cr_id = identifier, cr_tenantID = tenantID, cr_verificationID = verificationID,
       cr_keyVersion = keyVersion, cr_issuedAt = issuedAt, cr_expiresAt = expiresAt, cr_revokedAt = None\<rparr>"

definition IsUsableAt :: "Credential \<Rightarrow> go_time \<Rightarrow> bool" where
  "IsUsableAt c now \<longleftrightarrow> cr_revokedAt c = None \<and> Before (to_UTC now) (cr_expiresAt c)"

definition credential_Revoke :: "token_kind \<Rightarrow> go_time \<Rightarrow> Credential \<Rightarrow> token_error + Credential" where
  "credential_Revoke kind now c =
     guard (cr_id c \<noteq> [] \<and> cr_revokedAt c = None) (tk_invalid kind)
       (guard (\<not> Before (to_UTC now) (cr_issuedAt c)) RevocationPrecedes
         (Inr (c\<lparr>cr_revokedAt := Some (to_UTC now)\<rparr>)))"

section \<open>Signing and verifying\<close>

record Claims =
  cl_TokenID :: string
  cl_TenantID :: string
  cl_VerificationID :: string
  cl_KeyVersion :: nat
  cl_IssuedAt :: go_time
  cl_ExpiresAt :: go_time

record tokenPayload =
  tp_TokenID :: string
  tp_TenantID :: string
  tp_VerificationID :: string
  tp_IssuedAt :: int
  tp_ExpiresAt :: int

record token_env =
  te_canon :: "string \<Rightarrow> string option"
  te_mac :: "string \<Rightarrow> string \<Rightarrow> string"
  te_encode :: "tokenPayload \<Rightarrow> string option"
  te_decode :: "string \<Rightarrow> tokenPayload option"
  te_keys :: Keyring

definition tokenMAC :: "token_kind \<Rightarrow> token_env \<Rightarrow> string \<Rightarrow> nat \<Rightarrow> string \<Rightarrow> string" where
  "tokenMAC kind env key version payload =
     te_mac env key (tk_domain kind @ FormatUint version @ [CHR 0x00] @ payload)"

definition credential_payload :: "Credential \<Rightarrow> tokenPayload" where
  "credential_payload c = \<lparr>tp_TokenID = cr_id c, tp_TenantID = cr_tenantID c,
     tp_VerificationID = cr_verificationID c, tp_IssuedAt = to_Unix (cr_issuedAt c),
     tp_ExpiresAt = to_Unix (cr_expiresAt c)\<rparr>"

definition token_Sign :: "token_kind \<Rightarrow> token_env \<Rightarrow> Credential \<Rightarrow> token_error + string" where
  "token_Sign kind env c =
     guard (cr_id c \<noteq> []) SignerNotInitialised
       (case map_of (kr_keys (te_keys env)) (cr_keyVersion c) of
          None \<Rightarrow> Inl SigningKeyUnavailable
        | Some key \<Rightarrow>
           (case te_encode env (credential_payload c) of
              None \<Rightarrow> Inl PayloadUnencodable
            | Some encodedPayload \<Rightarrow>
               (let payloadText = b64_encode encodedPayload;
                    signature = tokenMAC kind env key (cr_keyVersion c) payloadText in
                Inr (Join (CHR ''.'') [tk_format kind, FormatUint (cr_keyVersion c), payloadText, b64_encode signature]))))"

definition parseTokenClaims :: "token_kind \<Rightarrow> (string \<Rightarrow> string option) \<Rightarrow> tokenPayload \<Rightarrow> nat \<Rightarrow> Claims option" where
  "parseTokenClaims kind canon payload version =
     (case (ParsePublic canon (tk_resource kind) (tp_TokenID payload),
            ParsePublic canon R_Tenant (tp_TenantID payload),
            ParsePublic canon R_Verification (tp_VerificationID payload)) of
        (Inr tokenID, Inr tenantID, Inr verificationID) \<Rightarrow>
          (let issuedAt = of_Unix (tp_IssuedAt payload); expiresAt = of_Unix (tp_ExpiresAt payload) in
           if IsZero issuedAt \<or> \<not> After expiresAt issuedAt then None
           else Some \<lparr>cl_TokenID = tokenID, cl_TenantID = tenantID, cl_VerificationID = verificationID,
                       cl_KeyVersion = version, cl_IssuedAt = issuedAt, cl_ExpiresAt = expiresAt\<rparr>)
      | _ \<Rightarrow> None)"

text \<open>\<^verbatim>\<open>Verify\<close>: every rejection is the same sentinel error.\<close>

definition verify_parts :: "token_kind \<Rightarrow> token_env \<Rightarrow> go_time \<Rightarrow> string \<Rightarrow> string \<Rightarrow> string \<Rightarrow> Claims option" where
  "verify_parts kind env now versionText payloadText signatureText =
     (case ParseUint16 versionText of
        None \<Rightarrow> None
      | Some version \<Rightarrow>
         if version = 0 then None
         else (case (map_of (kr_keys (te_keys env)) version, b64_decode signatureText) of
                 (Some key, Some signature) \<Rightarrow>
                   if length signature \<noteq> digest_size \<or> signature \<noteq> tokenMAC kind env key version payloadText then None
                   else (case b64_decode payloadText of
                           None \<Rightarrow> None
                         | Some encodedPayload \<Rightarrow>
                            (case te_decode env encodedPayload of
                               None \<Rightarrow> None
                             | Some payload \<Rightarrow>
                                (case parseTokenClaims kind (te_canon env) payload version of
                                   None \<Rightarrow> None
                                 | Some claims \<Rightarrow> if After (cl_ExpiresAt claims) (to_UTC now) then Some claims else None)))
               | _ \<Rightarrow> None))"

definition token_Verify :: "token_kind \<Rightarrow> token_env \<Rightarrow> go_time \<Rightarrow> string \<Rightarrow> token_error + Claims" where
  "token_Verify kind env now encoded =
     guard (length encoded \<noteq> 0 \<and> length encoded \<le> maximumTokenLength) (tk_invalid kind)
       (case Split (CHR ''.'') encoded of
          [format, versionText, payloadText, signatureText] \<Rightarrow>
            guard (format = tk_format kind) (tk_invalid kind)
              (case verify_parts kind env now versionText payloadText signatureText of
                 None \<Rightarrow> Inl (tk_invalid kind) | Some claims \<Rightarrow> Inr claims)
        | _ \<Rightarrow> Inl (tk_invalid kind))"

text \<open>The operations of the two files.\<close>

definition CaptureTokenSigner_Sign :: "token_env \<Rightarrow> Credential \<Rightarrow> token_error + string" where
  "CaptureTokenSigner_Sign = token_Sign capture_kind"

definition CaptureTokenSigner_Verify :: "token_env \<Rightarrow> go_time \<Rightarrow> string \<Rightarrow> token_error + Claims" where
  "CaptureTokenSigner_Verify = token_Verify capture_kind"

definition OutcomeTokenSigner_Sign :: "token_env \<Rightarrow> Credential \<Rightarrow> token_error + string" where
  "OutcomeTokenSigner_Sign = token_Sign outcome_kind"

definition OutcomeTokenSigner_Verify :: "token_env \<Rightarrow> go_time \<Rightarrow> string \<Rightarrow> token_error + Claims" where
  "OutcomeTokenSigner_Verify = token_Verify outcome_kind"

section \<open>The contract of a token scheme\<close>

locale token_scheme =
  fixes sign :: "'c \<Rightarrow> 'e + string"
    and verify :: "string \<Rightarrow> 'e + 'l"
    and claims :: "'c \<Rightarrow> 'l"
    and live :: "'c \<Rightarrow> bool"
    and invalid :: 'e
  assumes verify_sign: "live c \<Longrightarrow> sign c = Inr s \<Longrightarrow> verify s = Inr (claims c)"
    and live_signs: "live c \<Longrightarrow> \<exists>s. sign c = Inr s"
    and one_error: "verify s = Inl e \<Longrightarrow> e = invalid"
begin

lemma token_identifies:
  assumes "live c" and "live d" and "sign c = Inr s" and "sign d = Inr s"
  shows "claims c = claims d"
  using verify_sign [OF assms(1,3)] verify_sign [OF assms(2,4)] by simp

lemma accepted: "live c \<Longrightarrow> \<exists>s. sign c = Inr s \<and> verify s = Inr (claims c)"
  using live_signs verify_sign by blast

lemma rejected: "(\<forall>l. verify s \<noteq> Inr l) \<longleftrightarrow> verify s = Inl invalid"
  using one_error by (cases "verify s") auto

end

section \<open>Lemmas\<close>

definition credential_claims :: "Credential \<Rightarrow> Claims" where
  "credential_claims c = \<lparr>cl_TokenID = cr_id c, cl_TenantID = cr_tenantID c,
     cl_VerificationID = cr_verificationID c, cl_KeyVersion = cr_keyVersion c,
     cl_IssuedAt = cr_issuedAt c, cl_ExpiresAt = cr_expiresAt c\<rparr>"

text \<open>
  A credential whose token is good at \<open>now\<close>: a stored credential with canonical identifiers, not
  expired, whose key is deployed, in an environment whose codec reads back what it writes and
  whose MAC has 32 bytes, and whose token fits the length bound.
\<close>

definition token_live :: "token_kind \<Rightarrow> token_env \<Rightarrow> go_time \<Rightarrow> Credential \<Rightarrow> bool" where
  "token_live kind env now c \<longleftrightarrow>
     RestoreCredential c = Inr c \<and> Before now (cr_expiresAt c) \<and> cr_keyVersion c < 65536
     \<and> ParsePublic (te_canon env) (tk_resource kind) (cr_id c) = Inr (cr_id c)
     \<and> ParsePublic (te_canon env) R_Tenant (cr_tenantID c) = Inr (cr_tenantID c)
     \<and> ParsePublic (te_canon env) R_Verification (cr_verificationID c) = Inr (cr_verificationID c)
     \<and> map_of (kr_keys (te_keys env)) (cr_keyVersion c) \<noteq> None
     \<and> (case te_encode env (credential_payload c) of None \<Rightarrow> False
         | Some p \<Rightarrow> te_decode env p = Some (credential_payload c))
     \<and> (\<forall>k m. length (te_mac env k m) = digest_size)
     \<and> (case token_Sign kind env c of Inl _ \<Rightarrow> True | Inr s \<Rightarrow> length s \<le> maximumTokenLength)"

lemma RestoreCredential_fixed:
  assumes "RestoreCredential r = Inr c"
  shows "cr_id c \<noteq> [] \<and> cr_keyVersion c \<noteq> 0 \<and> \<not> IsZero (cr_issuedAt c)
    \<and> After (cr_expiresAt c) (cr_issuedAt c)
    \<and> cr_issuedAt c = of_Unix (to_Unix (cr_issuedAt r)) \<and> cr_expiresAt c = of_Unix (to_Unix (cr_expiresAt r))"
  using assms by (auto simp: RestoreCredential_def Let_def chain_iff)

lemma no_dot:
  "CHR ''.'' \<notin> set (b64_encode s)" "CHR ''.'' \<notin> set (FormatUint n)"
  using b64_encode_chars b64_char_plain FormatUint_digits [of n]
  by (blast, auto simp: list_all_iff is_digit_def less_eq_char_def)

lemma token_Sign_live:
  assumes "token_live kind env now c"
  obtains key p where "map_of (kr_keys (te_keys env)) (cr_keyVersion c) = Some key"
    "te_encode env (credential_payload c) = Some p" "te_decode env p = Some (credential_payload c)"
    "token_Sign kind env c = Inr (Join (CHR ''.'') [tk_format kind, FormatUint (cr_keyVersion c), b64_encode p,
       b64_encode (tokenMAC kind env key (cr_keyVersion c) (b64_encode p))])"
proof -
  have "cr_id c \<noteq> []"
    using assms RestoreCredential_fixed [of c c] by (simp add: token_live_def)
  with assms that show ?thesis
    by (auto simp: token_live_def token_Sign_def Let_def split: option.splits)
qed

lemma parse_live:
  assumes "token_live kind env now c"
  shows "parseTokenClaims kind (te_canon env) (credential_payload c) (cr_keyVersion c) = Some (credential_claims c)"
  using assms RestoreCredential_fixed [of c c]
  by (auto simp: token_live_def parseTokenClaims_def credential_payload_def credential_claims_def Let_def)

lemma verify_sign:
  assumes "token_live kind env now c" and "token_Sign kind env c = Inr s" and "CHR ''.'' \<notin> set (tk_format kind)"
  shows "token_Verify kind env now s = Inr (credential_claims c)"
proof -
  obtain key p where k: "map_of (kr_keys (te_keys env)) (cr_keyVersion c) = Some key"
    and p: "te_encode env (credential_payload c) = Some p" "te_decode env p = Some (credential_payload c)"
    and s: "token_Sign kind env c = Inr (Join (CHR ''.'') [tk_format kind, FormatUint (cr_keyVersion c), b64_encode p,
       b64_encode (tokenMAC kind env key (cr_keyVersion c) (b64_encode p))])"
    by (rule token_Sign_live [OF assms(1)])
  have split: "Split (CHR ''.'') s = [tk_format kind, FormatUint (cr_keyVersion c), b64_encode p,
      b64_encode (tokenMAC kind env key (cr_keyVersion c) (b64_encode p))]"
    using s assms(2,3) no_dot by (auto simp: Split_append Split_single)
  have v: "cr_keyVersion c < 65536" "cr_keyVersion c \<noteq> 0" "After (cr_expiresAt c) (to_UTC now)"
    "length (tokenMAC kind env key (cr_keyVersion c) (b64_encode p)) = digest_size"
    using assms(1) RestoreCredential_fixed [of c c]
    by (auto simp: token_live_def tokenMAC_def Before_def After_def)
  have "verify_parts kind env now (FormatUint (cr_keyVersion c)) (b64_encode p)
      (b64_encode (tokenMAC kind env key (cr_keyVersion c) (b64_encode p))) = Some (credential_claims c)"
    using v k p parse_live [OF assms(1)]
    by (simp add: verify_parts_def ParseUint16_Format b64_roundtrip credential_claims_def)
  moreover have "length s \<le> maximumTokenLength" "s \<noteq> []"
    using assms(1,2) split by (auto simp: token_live_def)
  ultimately show ?thesis
    by (simp add: token_Verify_def split)
qed

lemma token_Verify_Inr:
  assumes "token_Verify kind env now s = Inr claims"
  shows "\<exists>versionText payloadText signatureText version key payload.
    s = Join (CHR ''.'') [tk_format kind, versionText, payloadText, signatureText]
    \<and> ParseUint16 versionText = Some version \<and> map_of (kr_keys (te_keys env)) version = Some key
    \<and> b64_decode signatureText = Some (te_mac env key (tk_domain kind @ FormatUint version @ [CHR 0x00] @ payloadText))
    \<and> b64_decode payloadText = Some payload \<and> length s \<le> maximumTokenLength
    \<and> (\<exists>tp. te_decode env payload = Some tp \<and> parseTokenClaims kind (te_canon env) tp version = Some claims)
    \<and> After (cl_ExpiresAt claims) now"
proof -
  obtain v p g where sp: "Split (CHR ''.'') s = [tk_format kind, v, p, g]" "length s \<le> maximumTokenLength"
    and vp: "verify_parts kind env now v p g = Some claims"
    using assms by (auto simp: token_Verify_def chain_iff split: list.splits option.splits)
  have "s = Join (CHR ''.'') [tk_format kind, v, p, g]"
    using Join_Split [of "CHR ''.''" s] sp(1) by simp
  moreover have "\<exists>version key payload. ParseUint16 v = Some version \<and> map_of (kr_keys (te_keys env)) version = Some key
      \<and> b64_decode g = Some (te_mac env key (tk_domain kind @ FormatUint version @ [CHR 0x00] @ p))
      \<and> b64_decode p = Some payload
      \<and> (\<exists>tp. te_decode env payload = Some tp \<and> parseTokenClaims kind (te_canon env) tp version = Some claims)
      \<and> After (cl_ExpiresAt claims) now"
    using vp by (auto simp: verify_parts_def tokenMAC_def After_def split: option.splits if_splits)
  ultimately show ?thesis using sp(2) by blast
qed

lemma Verify_error: "token_Verify kind env now s = Inl e \<Longrightarrow> e = tk_invalid kind"
  by (auto simp: token_Verify_def guard_def split: if_splits list.splits option.splits)

lemma kind_no_dot: "CHR ''.'' \<notin> set (tk_format capture_kind)" "CHR ''.'' \<notin> set (tk_format outcome_kind)"
  by (simp_all add: capture_kind_def outcome_kind_def)

interpretation capture_token: token_scheme "CaptureTokenSigner_Sign env" "CaptureTokenSigner_Verify env now"
  credential_claims "token_live capture_kind env now" ErrInvalidCaptureToken
  for env now
proof
  show "CaptureTokenSigner_Verify env now s = Inr (credential_claims c)"
    if "token_live capture_kind env now c" "CaptureTokenSigner_Sign env c = Inr s" for c s
    using that verify_sign kind_no_dot(1) by (simp add: CaptureTokenSigner_Verify_def CaptureTokenSigner_Sign_def)
  show "\<exists>s. CaptureTokenSigner_Sign env c = Inr s" if "token_live capture_kind env now c" for c
    using token_Sign_live [OF that] by (metis CaptureTokenSigner_Sign_def)
  show "e = ErrInvalidCaptureToken" if "CaptureTokenSigner_Verify env now s = Inl e" for s e
    using that Verify_error [of capture_kind] by (simp add: CaptureTokenSigner_Verify_def capture_kind_def)
qed

interpretation outcome_token: token_scheme "OutcomeTokenSigner_Sign env" "OutcomeTokenSigner_Verify env now"
  credential_claims "token_live outcome_kind env now" ErrInvalidOutcomeToken
  for env now
proof
  show "OutcomeTokenSigner_Verify env now s = Inr (credential_claims c)"
    if "token_live outcome_kind env now c" "OutcomeTokenSigner_Sign env c = Inr s" for c s
    using that verify_sign kind_no_dot(2) by (simp add: OutcomeTokenSigner_Verify_def OutcomeTokenSigner_Sign_def)
  show "\<exists>s. OutcomeTokenSigner_Sign env c = Inr s" if "token_live outcome_kind env now c" for c
    using token_Sign_live [OF that] by (metis OutcomeTokenSigner_Sign_def)
  show "e = ErrInvalidOutcomeToken" if "OutcomeTokenSigner_Verify env now s = Inl e" for s e
    using that Verify_error [of outcome_kind] by (simp add: OutcomeTokenSigner_Verify_def outcome_kind_def)
qed

section \<open>A small environment\<close>

definition sample_credential :: Credential where
  "sample_credential = \<lparr>cr_id = ''ctk_'' @ sample_ulid, cr_tenantID = ''ten_'' @ sample_ulid,
     cr_verificationID = ''ver_'' @ sample_ulid, cr_keyVersion = 7, cr_issuedAt = utc_at second,
     cr_expiresAt = utc_at minute, cr_revokedAt = None\<rparr>"

definition sample_token_env :: token_env where
  "sample_token_env = \<lparr>te_canon = Some, te_mac = (\<lambda>k m. replicate 32 (CHR ''m'')), te_encode = (\<lambda>p. Some ''payload''),
     te_decode = (\<lambda>s. Some (credential_payload sample_credential)),
     te_keys = \<lparr>kr_active = 7, kr_keys = [(7, replicate 32 (CHR ''k''))]\<rparr>\<rparr>"

lemma sample_live: "token_live capture_kind sample_token_env (utc_at (2 * second)) sample_credential"
proof -
  have r: "RestoreCredential sample_credential = Inr sample_credential"
    by (simp add: RestoreCredential_def sample_credential_def of_Unix_def to_Unix_def After_def IsZero_def i64_def)
  have p: "ParsePublic Some R_CaptureToken (cr_id sample_credential) = Inr (cr_id sample_credential)"
    "ParsePublic Some R_Tenant (cr_tenantID sample_credential) = Inr (cr_tenantID sample_credential)"
    "ParsePublic Some R_Verification (cr_verificationID sample_credential) = Inr (cr_verificationID sample_credential)"
    using ParsePublic_text [of Some sample_ulid R_CaptureToken] ParsePublic_text [of Some sample_ulid R_Tenant]
      ParsePublic_text [of Some sample_ulid R_Verification]
    by (simp_all add: sample_credential_def)
  have c: "cr_keyVersion sample_credential = 7" "cr_id sample_credential \<noteq> []" "cr_expiresAt sample_credential = utc_at minute"
    by (simp_all add: sample_credential_def)
  have "FormatUint 7 = ''7''"
    by (subst FormatUint.simps) (simp add: decimal_digit_def)
  then have "(case token_Sign capture_kind sample_token_env sample_credential of
      Inl _ \<Rightarrow> True | Inr s \<Rightarrow> length s \<le> maximumTokenLength)"
    using c by (simp add: token_Sign_def sample_token_env_def Let_def tokenMAC_def b64_encode_length
        maximumTokenLength_def capture_kind_def)
  then show ?thesis
    using r p c unfolding token_live_def
    by (simp add: sample_token_env_def digest_size_def Before_def capture_kind_def)
qed

section \<open>Properties\<close>

text \<open>
  C24. A capture token verifies as what was signed: for a stored, unexpired credential with
  canonical identifiers whose signing key is deployed, \<^verbatim>\<open>Sign\<close> gives a token and \<^verbatim>\<open>Verify\<close>, at any
  time before expiry, returns the identifier, tenant, verification session, key version and
  lifetime of the credential; so two credentials never share a token unless these agree.
\<close>

theorem capture_token_roundtrip:
  assumes "token_live capture_kind env now c" and "token_live capture_kind env now d"
  shows "\<exists>s. CaptureTokenSigner_Sign env c = Inr s
    \<and> CaptureTokenSigner_Verify env now s = Inr (credential_claims c)
    \<and> (CaptureTokenSigner_Sign env d = Inr s \<longrightarrow> credential_claims d = credential_claims c)"
  using capture_token.accepted [OF assms(1)] capture_token.token_identifies [OF assms(2,1)] by blast

theorem capture_token_roundtrip_witness:
  "\<exists>s. CaptureTokenSigner_Sign sample_token_env sample_credential = Inr s
    \<and> CaptureTokenSigner_Verify sample_token_env (utc_at (2 * second)) s = Inr (credential_claims sample_credential)"
  using capture_token_roundtrip [OF sample_live sample_live] by blast

text \<open>
  C25. Token kinds are not interchangeable and acceptance means a valid MAC: what the capture signer
  accepts carries a signature equal to the MAC, under a deployed key of the stated version, of the
  capture domain, the version and the payload text, and has not expired; and the outcome signer
  refuses that very text, whatever keys it has been given.
\<close>

theorem token_kinds_separate:
  assumes "CaptureTokenSigner_Verify env now s = Inr claims"
  shows "OutcomeTokenSigner_Verify env' now' s = Inl ErrInvalidOutcomeToken
    \<and> (\<exists>versionText payloadText signatureText version key.
        s = Join (CHR ''.'') [''idq_cap_v1'', versionText, payloadText, signatureText]
        \<and> map_of (kr_keys (te_keys env)) version = Some key
        \<and> b64_decode signatureText =
            Some (te_mac env key (tk_domain capture_kind @ FormatUint version @ [CHR 0x00] @ payloadText))
        \<and> After (cl_ExpiresAt claims) now)"
proof -
  have v: "token_Verify capture_kind env now s = Inr claims"
    using assms by (simp add: CaptureTokenSigner_Verify_def)
  have f: "tk_format capture_kind = ''idq_cap_v1''" by (simp add: capture_kind_def)
  have "tk_format outcome_kind \<noteq> tk_format capture_kind"
    by (simp add: capture_kind_def outcome_kind_def)
  moreover have "hd (Split (CHR ''.'') s) = tk_format capture_kind"
    using v by (auto simp: token_Verify_def chain_iff split: list.splits option.splits)
  ultimately have "token_Verify outcome_kind env' now' s \<noteq> Inr c" for c
    by (auto simp: token_Verify_def chain_iff split: list.splits option.splits)
  then have "OutcomeTokenSigner_Verify env' now' s = Inl ErrInvalidOutcomeToken"
    using outcome_token.rejected [of env' now' s] by (simp add: OutcomeTokenSigner_Verify_def)
  then show ?thesis
    using token_Verify_Inr [OF v] unfolding f by blast
qed

theorem token_kinds_separate_witness:
  "\<exists>s. CaptureTokenSigner_Sign sample_token_env sample_credential = Inr s
    \<and> OutcomeTokenSigner_Verify sample_token_env (utc_at (2 * second)) s = Inl ErrInvalidOutcomeToken"
proof -
  obtain s where s: "CaptureTokenSigner_Sign sample_token_env sample_credential = Inr s"
      "CaptureTokenSigner_Verify sample_token_env (utc_at (2 * second)) s = Inr (credential_claims sample_credential)"
    using capture_token.accepted [OF sample_live] by blast
  from token_kinds_separate [OF s(2)] s(1) show ?thesis by blast
qed

end
