(* ===== verification/Provider_Contract.thy ===== *)
theory Provider_Contract
  imports Go_Text
begin

text \<open>
  \<^verbatim>\<open>contracts/provider/v1\<close>: the public contract between Core and a provider adapter
  (\<^verbatim>\<open>contract.go\<close>, \<^verbatim>\<open>validate.go\<close>, \<^verbatim>\<open>async.go\<close>), and the consumption of a transient document
  observation into signals (\<^verbatim>\<open>internal/verification/document.go\<close>). A string-typed vocabulary is a
  datatype with a constructor for any other value. The size of the JSON encoding of a result and
  the signals the field analysis derives from an observation are arguments.
\<close>

section \<open>The contract\<close>

record Version =
  v_Major :: nat
  v_Minor :: nat

definition CurrentVersion :: Version where
  "CurrentVersion = \<lparr>v_Major = 1, v_Minor = 1\<rparr>"

definition Accepts :: "Version \<Rightarrow> Version \<Rightarrow> bool" where
  "Accepts version wanted \<longleftrightarrow>
     v_Major version \<noteq> 0 \<and> v_Major version = v_Major wanted \<and> v_Minor wanted \<le> v_Minor version"

definition MaxResultBytes :: nat where "MaxResultBytes = 256 * 1024"
definition MaximumMRZLines :: nat where "MaximumMRZLines = 3"
definition MaximumMRZLineBytes :: nat where "MaximumMRZLineBytes = 44"
definition MaximumBarcodePayloadBytes :: nat where "MaximumBarcodePayloadBytes = 4096"
definition MaximumDocumentFields :: nat where "MaximumDocumentFields = 32"
definition MaximumDocumentFieldBytes :: nat where "MaximumDocumentFieldBytes = 128"

record PackageProvenance =
  pp_AdapterID :: string
  pp_AdapterVersion :: string
  pp_PackageDigest :: string
  pp_Contract :: Version

record ConfigurationSchema =
  cs_ID :: string
  cs_Digest :: string

record Capability =
  cp_Check :: string
  cp_AcceptedEvidence :: "string list"
  cp_AcceptedInputs :: "string list"
  cp_AcceptedAssurances :: "string list"
  cp_ProcessingRegions :: "string list"
  cp_SupportsIdempotency :: bool
  cp_SupportsCancellation :: bool

record Restrictions =
  rs_NetworkRequired :: bool
  rs_MaximumGrants :: nat
  rs_MaximumResultSize :: nat
  rs_MaximumDuration :: duration

record Manifest =
  mf_Package :: PackageProvenance
  mf_Configuration :: ConfigurationSchema
  mf_Capabilities :: "Capability list"
  mf_Restrictions :: Restrictions

record ConfigurationReference =
  cf_ProviderID :: string
  cf_SchemaDigest :: string
  cf_SecretReference :: string
  cf_CredentialVersion :: string

record EvidenceGrantReference =
  eg_GrantID :: string
  eg_RedemptionID :: string
  eg_EvidenceID :: string
  eg_Purpose :: string
  eg_Variant :: string
  eg_ExpiresAt :: go_time

record InputReference =
  in_Name :: string
  in_Reference :: string

record TraceContext =
  tc_Traceparent :: string
  tc_Tracestate :: string

record Request =
  rq_Contract :: Version
  rq_AttemptID :: string
  rq_ProviderID :: string
  rq_TenantID :: string
  rq_VerificationID :: string
  rq_Check :: string
  rq_IdempotencyKey :: string
  rq_CallbackReference :: string
  rq_Adapter :: PackageProvenance
  rq_Capability :: Capability
  rq_Restrictions :: Restrictions
  rq_Configuration :: ConfigurationReference
  rq_Inputs :: "InputReference list"
  rq_Evidence :: "EvidenceGrantReference list"
  rq_Deadline :: go_time
  rq_Trace :: TraceContext

datatype (plugins only: size) provider_signal_outcome =
  SignalOutcomeSatisfied | SignalOutcomeNotSatisfied | SignalOutcomeInconclusive | SignalOutcomeOther string

record provider_signal =
  ps_Name :: string
  ps_Outcome :: provider_signal_outcome
  ps_ReasonCodes :: "string list"

datatype (plugins only: size) result_outcome = ResultOutcomeCompleted | ResultOutcomeFailed | ResultOutcomeOther string

datatype (plugins only: size) failure_class =
    FailureInvalidRequest | FailureUnauthenticated | FailureUnauthorized | FailureUnsupported
  | FailureUnavailable | FailureRateLimited | FailureDeadline | FailureCancelled
  | FailureProviderRejected | FailureInternal | FailureOther string

datatype (plugins only: size) retry_disposition = RetryNever | RetryBackoff | RetryReconcile | RetryOther string

record Failure =
  fl_Class :: failure_class
  fl_Code :: string
  fl_Retry :: retry_disposition
  fl_RetryAfter :: duration

record DocumentField =
  df_Name :: string
  df_Value :: string

record DocumentObservation =
  do_MRZLines :: "string list"
  do_BarcodePayload :: string
  do_Fields :: "DocumentField list"

record Result =
  rs_Contract :: Version
  rs_AttemptID :: string
  rs_Outcome :: result_outcome
  rs_Signals :: "provider_signal list"
  rs_Failure :: "Failure option"
  rs_Document :: "DocumentObservation option"
  rs_CompletedAt :: go_time

record Progress =
  pr_ProviderJobID :: string
  pr_ReplayID :: string
  pr_Result :: "Result option"

section \<open>Validation\<close>

datatype (plugins only: size) contract_error =
  ValidationError string string | CapabilityInvalid | CapabilityDuplicates | InCapability nat contract_error | EncodeFailed

definition digestPattern :: "string \<Rightarrow> bool" where
  "digestPattern s \<longleftrightarrow> take 7 s = ''sha256:'' \<and> hex64 (drop 7 s)"

definition crockford :: "char \<Rightarrow> bool" where
  "crockford c \<longleftrightarrow> is_digit c \<or> (is_upper c \<and> c \<noteq> CHR ''I'' \<and> c \<noteq> CHR ''L'' \<and> c \<noteq> CHR ''O'' \<and> c \<noteq> CHR ''U'')"

definition identifierPattern :: "string \<Rightarrow> bool" where
  "identifierPattern s \<longleftrightarrow> length s = 30 \<and> list_all is_lower (take 3 s) \<and> s ! 3 = CHR ''_'' \<and> list_all crockford (drop 4 s)"

definition validID :: "string \<Rightarrow> string \<Rightarrow> bool" where
  "validID value prefix \<longleftrightarrow> identifierPattern value \<and> take (length (prefix @ ''_'')) value = prefix @ ''_''"

definition validName :: "string \<Rightarrow> nat \<Rightarrow> bool" where
  "validName value maximum =
     (if value = [] \<or> length value > maximum \<or> surrounding_space value \<or> list_ex IsControl (string_runes value) then False
      else \<not> list_ex rune_IsSpace (string_runes value))"

definition validNames :: "string list \<Rightarrow> nat \<Rightarrow> bool" where
  "validNames values maximum \<longleftrightarrow> \<not> list_ex (\<lambda>v. \<not> validName v maximum) values"

definition validVersion :: "string \<Rightarrow> bool" where
  "validVersion value =
     (let parts = Split (CHR ''.'') value in
      length parts = 3 \<and>
      list_all (\<lambda>p. p \<noteq> [] \<and> \<not> (length p > 1 \<and> p ! 0 = CHR ''0'') \<and> list_all is_digit p) parts)"

definition validOpaque :: "string \<Rightarrow> nat \<Rightarrow> nat \<Rightarrow> bool" where
  "validOpaque value minimum maximum \<longleftrightarrow>
     minimum \<le> length value \<and> length value \<le> maximum \<and> \<not> surrounding_space value
     \<and> \<not> list_ex IsControl (string_runes value)"

definition validReference :: "string \<Rightarrow> bool" where
  "validReference value \<longleftrightarrow> take 9 value = ''secret://'' \<and> validOpaque value 10 512"

fun unique_loop :: "string set \<Rightarrow> string list \<Rightarrow> bool" where
  "unique_loop seen [] \<longleftrightarrow> True"
| "unique_loop seen (v # vs) \<longleftrightarrow> v \<notin> seen \<and> unique_loop (insert v seen) vs"

definition unique :: "string list \<Rightarrow> bool" where
  "unique values \<longleftrightarrow> unique_loop {} values"

definition package_validate :: "PackageProvenance \<Rightarrow> contract_error option" where
  "package_validate p =
     (if \<not> Accepts CurrentVersion (pp_Contract p) \<or> \<not> validName (pp_AdapterID p) 160 \<or>
         \<not> validVersion (pp_AdapterVersion p) \<or> \<not> digestPattern (pp_PackageDigest p)
      then Some (ValidationError ''package'' ''provenance is invalid'') else None)"

definition restrictions_validate :: "Restrictions \<Rightarrow> contract_error option" where
  "restrictions_validate r =
     (if rs_MaximumGrants r = 0 \<or> rs_MaximumGrants r > 32 \<or> rs_MaximumResultSize r = 0 \<or>
         rs_MaximumResultSize r > MaxResultBytes \<or> rs_MaximumDuration r \<le> 0 \<or> rs_MaximumDuration r > 10 * minute
      then Some (ValidationError ''restrictions'' ''bounds are invalid'') else None)"

definition capability_validate :: "Capability \<Rightarrow> contract_error option" where
  "capability_validate c =
     (if \<not> validName (cp_Check c) 160 \<or> length (cp_AcceptedEvidence c) + length (cp_AcceptedInputs c) = 0 \<or>
         length (cp_AcceptedEvidence c) > 32 \<or> \<not> validNames (cp_AcceptedEvidence c) 160 \<or>
         length (cp_AcceptedInputs c) > 32 \<or> \<not> validNames (cp_AcceptedInputs c) 160 \<or>
         length (cp_AcceptedAssurances c) > 32 \<or> \<not> validNames (cp_AcceptedAssurances c) 160 \<or>
         length (cp_ProcessingRegions c) = 0 \<or> length (cp_ProcessingRegions c) > 32 \<or>
         \<not> validNames (cp_ProcessingRegions c) 64
      then Some CapabilityInvalid
      else if \<not> unique (cp_AcceptedEvidence c) \<or> \<not> unique (cp_AcceptedInputs c) \<or>
         \<not> unique (cp_AcceptedAssurances c) \<or> \<not> unique (cp_ProcessingRegions c)
      then Some CapabilityDuplicates else None)"

fun capabilities_validate :: "nat \<Rightarrow> Capability list \<Rightarrow> contract_error option" where
  "capabilities_validate i [] = None"
| "capabilities_validate i (c # cs) =
     (case capability_validate c of Some e \<Rightarrow> Some (InCapability i e) | None \<Rightarrow> capabilities_validate (i + 1) cs)"

definition manifest_Validate :: "Manifest \<Rightarrow> contract_error option" where
  "manifest_Validate m =
     (case package_validate (mf_Package m) of Some e \<Rightarrow> Some e
      | None \<Rightarrow>
        if \<not> validName (cs_ID (mf_Configuration m)) 160 \<or> \<not> digestPattern (cs_Digest (mf_Configuration m))
        then Some (ValidationError ''configuration'' ''schema is invalid'')
        else if length (mf_Capabilities m) = 0 \<or> length (mf_Capabilities m) > 64
        then Some (ValidationError ''capabilities'' ''count is outside 1..64'')
        else (case capabilities_validate 0 (mf_Capabilities m) of Some e \<Rightarrow> Some e
              | None \<Rightarrow>
                if \<not> unique (map cp_Check (mf_Capabilities m))
                then Some (ValidationError ''capabilities'' ''contain duplicate checks'')
                else restrictions_validate (mf_Restrictions m)))"

definition configuration_Validate :: "ConfigurationReference \<Rightarrow> contract_error option" where
  "configuration_Validate c =
     (if \<not> validID (cf_ProviderID c) ''pvd'' \<or> \<not> digestPattern (cf_SchemaDigest c) \<or>
         \<not> validReference (cf_SecretReference c) \<or> \<not> validName (cf_CredentialVersion c) 128
      then Some (ValidationError ''configuration'' ''reference is invalid'') else None)"

definition grant_Validate :: "EvidenceGrantReference \<Rightarrow> contract_error option" where
  "grant_Validate g =
     (if \<not> validID (eg_GrantID g) ''grt'' \<or> \<not> validID (eg_RedemptionID g) ''rdm'' \<or>
         \<not> validID (eg_EvidenceID g) ''evd'' \<or> \<not> validName (eg_Purpose g) 160 \<or>
         \<not> validName (eg_Variant g) 160 \<or> \<not> utcNonZero (eg_ExpiresAt g)
      then Some (ValidationError ''evidence'' ''grant reference is invalid'') else None)"

definition input_Validate :: "InputReference \<Rightarrow> contract_error option" where
  "input_Validate i =
     (if \<not> validName (in_Name i) 160 \<or> \<not> validReference (in_Reference i)
      then Some (ValidationError ''input'' ''reference is invalid'') else None)"

definition traceparentPattern :: "string \<Rightarrow> bool" where
  "traceparentPattern s \<longleftrightarrow>
     (case Split (CHR ''-'') s of
        [a, b, c, d] \<Rightarrow> length a = 2 \<and> length b = 32 \<and> length c = 16 \<and> length d = 2 \<and> list_all is_hex_lower (a @ b @ c @ d)
      | _ \<Rightarrow> False)"

definition trace_Validate :: "TraceContext \<Rightarrow> contract_error option" where
  "trace_Validate t =
     (if tc_Traceparent t = [] \<and> tc_Tracestate t = [] then None
      else if \<not> traceparentPattern (tc_Traceparent t) \<or> length (tc_Tracestate t) > 512 \<or>
              list_ex IsControl (string_runes (tc_Tracestate t))
      then Some (ValidationError ''trace'' ''context is invalid'') else None)"

text \<open>The first error of a loop of validations.\<close>

fun first_error :: "('a \<Rightarrow> 'e option) \<Rightarrow> 'a list \<Rightarrow> 'e option" where
  "first_error f [] = None"
| "first_error f (x # xs) = (case f x of Some e \<Rightarrow> Some e | None \<Rightarrow> first_error f xs)"

definition request_input_validate :: "Request \<Rightarrow> InputReference \<Rightarrow> contract_error option" where
  "request_input_validate r i =
     (case input_Validate i of Some e \<Rightarrow> Some e
      | None \<Rightarrow> if in_Name i \<notin> set (cp_AcceptedInputs (rq_Capability r))
          then Some (ValidationError ''inputs'' ''contains a name outside the pinned capability'') else None)"

definition request_Validate :: "Request \<Rightarrow> contract_error option" where
  "request_Validate r =
     (if \<not> Accepts CurrentVersion (rq_Contract r) \<or> \<not> validID (rq_AttemptID r) ''atm'' \<or>
         \<not> validID (rq_ProviderID r) ''pvd'' \<or> \<not> validID (rq_TenantID r) ''ten'' \<or>
         \<not> validID (rq_VerificationID r) ''ver'' \<or> \<not> validName (rq_Check r) 160 \<or>
         \<not> validOpaque (rq_IdempotencyKey r) 16 200 \<or> \<not> utcNonZero (rq_Deadline r)
      then Some (ValidationError ''request'' ''identity, contract, or deadline is invalid'')
      else if rq_CallbackReference r \<noteq> [] \<and> \<not> validID (rq_CallbackReference r) ''pcb''
      then Some (ValidationError ''callback_reference'' ''is invalid'')
      else if cf_ProviderID (rq_Configuration r) \<noteq> rq_ProviderID r
      then Some (ValidationError ''configuration.provider_id'' ''does not match request'')
      else case configuration_Validate (rq_Configuration r) of Some e \<Rightarrow> Some e
      | None \<Rightarrow> (case package_validate (rq_Adapter r) of Some e \<Rightarrow> Some e
      | None \<Rightarrow>
        if pp_Contract (rq_Adapter r) \<noteq> rq_Contract r
        then Some (ValidationError ''adapter.contract'' ''does not match request'')
        else (case capability_validate (rq_Capability r) of Some e \<Rightarrow> Some e
        | None \<Rightarrow>
          if cp_Check (rq_Capability r) \<noteq> rq_Check r
          then Some (ValidationError ''capability.check'' ''does not match request'')
          else (case restrictions_validate (rq_Restrictions r) of Some e \<Rightarrow> Some e
          | None \<Rightarrow>
            if length (rq_Evidence r) > rs_MaximumGrants (rq_Restrictions r)
            then Some (ValidationError ''evidence'' ''exceeds pinned restriction'')
            else if length (rq_Inputs r) > 32
            then Some (ValidationError ''inputs'' ''count exceeds 32'')
            else (case first_error (request_input_validate r) (rq_Inputs r) of Some e \<Rightarrow> Some e
            | None \<Rightarrow>
              if \<not> unique (map in_Name (rq_Inputs r))
              then Some (ValidationError ''inputs'' ''contains duplicate names'')
              else if v_Minor (rq_Contract r) = 0 \<and> length (rq_Inputs r) > 0
              then Some (ValidationError ''inputs'' ''require provider contract v1.1'')
              else if length (rq_Evidence r) > 32 \<or> (length (rq_Evidence r) = 0 \<and> length (rq_Inputs r) = 0)
              then Some (ValidationError ''request'' ''requires evidence or structured input'')
              else (case first_error grant_Validate (rq_Evidence r) of Some e \<Rightarrow> Some e
              | None \<Rightarrow>
                if \<not> unique (map eg_GrantID (rq_Evidence r))
                then Some (ValidationError ''evidence'' ''contains duplicate grants'')
                else trace_Validate (rq_Trace r)))))))"

definition validMRZLine :: "string \<Rightarrow> bool" where
  "validMRZLine value \<longleftrightarrow> value \<noteq> [] \<and> length value \<le> MaximumMRZLineBytes \<and> utf8_runes value \<noteq> None \<and>
     list_all (\<lambda>c. is_upper c \<or> is_lower c \<or> is_digit c \<or> c = CHR ''<'' \<or> c = CHR '' '') value"

definition validBarcodePayload :: "string \<Rightarrow> bool" where
  "validBarcodePayload value =
     (value \<noteq> [] \<and> length value \<le> MaximumBarcodePayloadBytes \<and>
      (case utf8_runes value of None \<Rightarrow> False
       | Some rs \<Rightarrow> list_all (\<lambda>r. r \<in> {9, 10, 13, 0x1D, 0x1E} \<or> \<not> (r < 0x20 \<or> r = 0x7F)) rs))"

definition validDocumentText :: "string \<Rightarrow> nat \<Rightarrow> bool" where
  "validDocumentText value maximum =
     (value \<noteq> [] \<and> length value \<le> maximum \<and> \<not> surrounding_space value \<and>
      (case utf8_runes value of None \<Rightarrow> False | Some rs \<Rightarrow> list_all (\<lambda>r. \<not> (r < 0x20 \<or> r = 0x7F)) rs))"

definition field_Validate :: "DocumentField \<Rightarrow> bool" where
  "field_Validate f \<longleftrightarrow> validDocumentText (df_Name f) MaximumDocumentFieldBytes
     \<and> validDocumentText (df_Value f) MaximumDocumentFieldBytes"

definition observation_Validate :: "DocumentObservation \<Rightarrow> contract_error option" where
  "observation_Validate d =
     (if length (do_MRZLines d) > MaximumMRZLines \<or> length (do_Fields d) > MaximumDocumentFields \<or>
         length (do_BarcodePayload d) > MaximumBarcodePayloadBytes
      then Some (ValidationError ''document'' ''bounds are invalid'')
      else if do_MRZLines d = [] \<and> do_BarcodePayload d = [] \<and> do_Fields d = []
      then Some (ValidationError ''document'' ''carries no observation'')
      else if \<not> list_all validMRZLine (do_MRZLines d)
      then Some (ValidationError ''document.mrz_lines'' ''is invalid'')
      else if do_BarcodePayload d \<noteq> [] \<and> \<not> validBarcodePayload (do_BarcodePayload d)
      then Some (ValidationError ''document.barcode_payload'' ''is invalid'')
      else if \<not> list_all field_Validate (do_Fields d)
      then Some (ValidationError ''document.fields'' ''is invalid'') else None)"

definition signal_validate :: "provider_signal \<Rightarrow> contract_error option" where
  "signal_validate s =
     (if \<not> validName (ps_Name s) 160 \<or> length (ps_ReasonCodes s) > 32 \<or> \<not> validNames (ps_ReasonCodes s) 160 \<or>
         \<not> unique (ps_ReasonCodes s)
      then Some (ValidationError ''signal'' ''is invalid'')
      else case ps_Outcome s of SignalOutcomeOther _ \<Rightarrow> Some (ValidationError ''signal.outcome'' ''is invalid'') | _ \<Rightarrow> None)"

definition failure_validate :: "Failure \<Rightarrow> contract_error option" where
  "failure_validate f =
     (if \<not> validName (fl_Code f) 160 then Some (ValidationError ''failure.code'' ''is invalid'')
      else if (case fl_Class f of FailureOther _ \<Rightarrow> True | _ \<Rightarrow> False)
      then Some (ValidationError ''failure.class'' ''is invalid'')
      else case fl_Retry f of
        RetryNever \<Rightarrow> if fl_RetryAfter f \<noteq> 0
          then Some (ValidationError ''failure.retry_after'' ''must be absent for a non-retryable failure'') else None
      | RetryOther _ \<Rightarrow> Some (ValidationError ''failure.retry'' ''is invalid'')
      | _ \<Rightarrow> if fl_RetryAfter f < 0 \<or> fl_RetryAfter f > hour
          then Some (ValidationError ''failure.retry_after'' ''is invalid'') else None)"

text \<open>\<^verbatim>\<open>Result.Validate\<close>; \<open>sz\<close> is the length of \<^verbatim>\<open>json.Marshal(result)\<close>, \<open>None\<close> if it fails.\<close>

definition outcome_validate :: "Result \<Rightarrow> contract_error option" where
  "outcome_validate r =
     (case rs_Outcome r of
        ResultOutcomeCompleted \<Rightarrow>
          if rs_Failure r \<noteq> None \<or> rs_Signals r = []
          then Some (ValidationError ''result'' ''completed outcome requires signals and no failure'')
          else (case rs_Document r of None \<Rightarrow> None | Some d \<Rightarrow> observation_Validate d)
      | ResultOutcomeFailed \<Rightarrow>
          (case rs_Failure r of
             None \<Rightarrow> Some (ValidationError ''result'' ''failed outcome requires one failure and no signals or document data'')
           | Some f \<Rightarrow>
              if rs_Signals r \<noteq> [] \<or> rs_Document r \<noteq> None
              then Some (ValidationError ''result'' ''failed outcome requires one failure and no signals or document data'')
              else failure_validate f)
      | _ \<Rightarrow> Some (ValidationError ''result.outcome'' ''is invalid''))"

definition result_Validate :: "(Result \<Rightarrow> nat option) \<Rightarrow> Result \<Rightarrow> contract_error option" where
  "result_Validate sz r =
     (if \<not> Accepts CurrentVersion (rs_Contract r) \<or> \<not> validID (rs_AttemptID r) ''atm'' \<or>
         \<not> utcNonZero (rs_CompletedAt r) \<or> length (rs_Signals r) > 64
      then Some (ValidationError ''result'' ''identity, contract, time, or signal count is invalid'')
      else case outcome_validate r of Some e \<Rightarrow> Some e
      | None \<Rightarrow> (case first_error signal_validate (rs_Signals r) of Some e \<Rightarrow> Some e
      | None \<Rightarrow> (case sz r of None \<Rightarrow> Some EncodeFailed
      | Some n \<Rightarrow> if n > MaxResultBytes then Some (ValidationError ''result'' ''exceeds maximum encoded size'') else None)))"

definition ValidateForRequest :: "(Result \<Rightarrow> nat option) \<Rightarrow> Request \<Rightarrow> Result \<Rightarrow> contract_error option" where
  "ValidateForRequest sz req r =
     (case request_Validate req of Some e \<Rightarrow> Some e
      | None \<Rightarrow> (case result_Validate sz r of Some e \<Rightarrow> Some e
      | None \<Rightarrow>
        if rs_AttemptID r \<noteq> rq_AttemptID req \<or> rs_Contract r \<noteq> rq_Contract req
        then Some (ValidationError ''result'' ''does not bind the exact request'') else None))"

definition jobReferencePattern :: "string \<Rightarrow> bool" where
  "jobReferencePattern s \<longleftrightarrow> 1 \<le> length s \<and> length s \<le> 128 \<and>
     list_all (\<lambda>c. is_upper c \<or> is_lower c \<or> is_digit c \<or> c = CHR ''_'' \<or> c = CHR ''-'') s"

definition replayPattern :: "string \<Rightarrow> bool" where
  "replayPattern s \<longleftrightarrow> 1 \<le> length s \<and> length s \<le> 200 \<and>
     list_all (\<lambda>c. is_upper c \<or> is_lower c \<or> is_digit c \<or> c = CHR ''_'' \<or> c = CHR ''.'' \<or> c = CHR '':'' \<or> c = CHR ''-'') s"

definition progress_ValidateForRequest :: "(Result \<Rightarrow> nat option) \<Rightarrow> Request \<Rightarrow> Progress \<Rightarrow> contract_error option" where
  "progress_ValidateForRequest sz req p =
     (case request_Validate req of Some e \<Rightarrow> Some e
      | None \<Rightarrow>
        if pr_ProviderJobID p \<noteq> [] \<and> \<not> jobReferencePattern (pr_ProviderJobID p)
        then Some (ValidationError ''progress.provider_job_id'' ''is invalid'')
        else if pr_ReplayID p \<noteq> [] \<and> \<not> replayPattern (pr_ReplayID p)
        then Some (ValidationError ''progress.replay_id'' ''is invalid'')
        else (case pr_Result p of None \<Rightarrow> None | Some r \<Rightarrow> ValidateForRequest sz req r))"

section \<open>Consuming a document observation\<close>

text \<open>\<open>derive\<close> is the field analysis: the signals of an observation at a reference time, or its failure.\<close>

fun merge_loop :: "string set \<Rightarrow> provider_signal list \<Rightarrow> provider_signal list \<Rightarrow> provider_signal list option" where
  "merge_loop seen merged [] = Some merged"
| "merge_loop seen merged (s # ss) =
     (if ps_Name s \<in> seen then merge_loop seen merged ss
      else if length merged \<ge> 64 then None
      else merge_loop (insert (ps_Name s) seen) (merged @ [s]) ss)"

definition mergeResultSignals :: "provider_signal list \<Rightarrow> provider_signal list \<Rightarrow> provider_signal list option" where
  "mergeResultSignals signals derived = merge_loop (set (map ps_Name signals)) signals derived"

definition ConsumeProviderDocument ::
  "(DocumentObservation \<Rightarrow> go_time \<Rightarrow> provider_signal list option) \<Rightarrow> Result \<Rightarrow> Result option" where
  "ConsumeProviderDocument derive r =
     (case rs_Document r of
        None \<Rightarrow> Some r
      | Some d \<Rightarrow>
         if rs_Outcome r \<noteq> ResultOutcomeCompleted \<or> observation_Validate d \<noteq> None then None
         else (case derive d (rs_CompletedAt r) of None \<Rightarrow> None
               | Some derived \<Rightarrow>
                  (case mergeResultSignals (rs_Signals r) derived of None \<Rightarrow> None
                   | Some signals \<Rightarrow> Some (r\<lparr>rs_Document := None, rs_Signals := signals\<rparr>))))"

section \<open>Lemmas\<close>

lemma unique_loop_iff: "unique_loop seen vs \<longleftrightarrow> distinct vs \<and> seen \<inter> set vs = {}"
  by (induction seen vs rule: unique_loop.induct) auto

lemma unique_iff: "unique vs \<longleftrightarrow> distinct vs"
  by (simp add: unique_def unique_loop_iff)

lemma first_error_None: "first_error f xs = None \<longleftrightarrow> list_all (\<lambda>x. f x = None) xs"
  by (induction xs) (auto split: option.splits)

lemma merge_loop_prefix:
  "merge_loop seen merged ss = Some out \<Longrightarrow> length merged \<le> 64 \<Longrightarrow>
     (\<exists>added. out = merged @ added \<and> set added \<subseteq> set ss \<and> distinct (map ps_Name added)
        \<and> set (map ps_Name added) \<inter> seen = {}) \<and> length out \<le> 64"
proof (induction seen merged ss arbitrary: out rule: merge_loop.induct)
  case (2 seen merged s ss)
  show ?case
  proof (cases "ps_Name s \<in> seen")
    case True
    then show ?thesis using 2 by fastforce
  next
    case False
    then have m: "length merged < 64" "merge_loop (insert (ps_Name s) seen) (merged @ [s]) ss = Some out"
      using "2.prems" by (auto split: if_splits)
    then obtain added where a: "out = (merged @ [s]) @ added" "set added \<subseteq> set ss" "distinct (map ps_Name added)"
      "set (map ps_Name added) \<inter> insert (ps_Name s) seen = {}" "length out \<le> 64"
      using "2.IH"(2) [OF False _ m(2)] by auto
    then show ?thesis
      using False by (intro conjI exI [of _ "s # added"]) auto
  qed
qed simp

lemma Consume_no_document: "ConsumeProviderDocument derive r = Some r' \<Longrightarrow> rs_Document r' = None"
  by (auto simp: ConsumeProviderDocument_def split: option.splits if_splits)

lemma Consume_keeps:
  "ConsumeProviderDocument derive r = Some r' \<Longrightarrow>
     rs_AttemptID r' = rs_AttemptID r \<and> rs_Contract r' = rs_Contract r \<and> rs_Outcome r' = rs_Outcome r
     \<and> rs_Failure r' = rs_Failure r \<and> rs_CompletedAt r' = rs_CompletedAt r"
  by (auto simp: ConsumeProviderDocument_def split: option.splits if_splits)

lemma Consume_idem: "ConsumeProviderDocument derive r = Some r' \<Longrightarrow> ConsumeProviderDocument derive' r' = Some r'"
  by (frule Consume_no_document) (simp add: ConsumeProviderDocument_def)

lemma ValidateForRequest_None:
  "ValidateForRequest sz req r = None \<longleftrightarrow>
     request_Validate req = None \<and> result_Validate sz r = None
     \<and> rs_AttemptID r = rq_AttemptID req \<and> rs_Contract r = rq_Contract req"
  by (auto simp: ValidateForRequest_def split: option.splits)

end
