(* ===== verification/Provider_Dispatch.thy ===== *)
theory Provider_Dispatch
  imports Provider_Contract Identifiers Aggregate_Contracts
begin

text \<open>
  The dispatch of one provider attempt: \<^verbatim>\<open>internal/provider/execution.go\<close> (the durable executor)
  over \<^verbatim>\<open>internal/provider/postgres/request.go\<close> (\<^verbatim>\<open>Claim\<close>, the adoption of a callback receipt and
  \<^verbatim>\<open>Complete\<close>).

  The tables the transactions read are functions of their keys. A transaction is atomic: it
  returns its result and the new tables, or an error and the tables unchanged; the argument
  \<open>commit\<close> says whether the database let it commit. A stored result is the value its JSON body
  denotes. The digest of a request (JSON, SHA-256), the size of an encoded result and the field
  analysis are the environment. Workers interleave at the transactions and at the external call:
  \<open>durable_step\<close> is the system of all of them, with crashes and with every other change of the
  database; \<open>ledger_step\<close> is what it promises per attempt.
\<close>

datatype provider_error =
    ErrRequestUnavailable | ErrDispatchPending | ErrThrottled | ErrLimitInvalid | ErrBreakerInvalid
  | ErrDigest | ErrStore | ErrExternal

record dispatch_env =
  de_canon :: "string \<Rightarrow> string option"
  de_digest :: "Request \<Rightarrow> string option"
  de_size :: "Result \<Rightarrow> nat option"
  de_derive :: "DocumentObservation \<Rightarrow> go_time \<Rightarrow> provider_signal list option"

definition RequestScope :: "dispatch_env \<Rightarrow> Request \<Rightarrow> provider_error + string \<times> string" where
  "RequestScope env req =
     (case ParsePublic (de_canon env) R_Tenant (rq_TenantID req) of Inl _ \<Rightarrow> Inl ErrRequestUnavailable
      | Inr tenant \<Rightarrow>
         (case ParsePublic (de_canon env) R_Attempt (rq_AttemptID req) of Inl _ \<Rightarrow> Inl ErrRequestUnavailable
          | Inr attempt \<Rightarrow> Inr (tenant, attempt)))"

definition RequestDigest :: "dispatch_env \<Rightarrow> Request \<Rightarrow> provider_error + string" where
  "RequestDigest env req =
     (if request_Validate req \<noteq> None then Inl ErrRequestUnavailable
      else case de_digest env req of None \<Rightarrow> Inl ErrDigest | Some d \<Rightarrow> Inr d)"

section \<open>The store\<close>

type_synonym attempt_key = "string \<times> string"

record dispatch_row =
  dr_digest :: string
  dr_result :: "Result option"

text \<open>
  \<open>db_session\<close>: the state of a verification session; \<open>db_active\<close>: the current running attempt of
  a running provider check; \<open>db_requests\<close>: the prepared requests by digest; \<open>db_receipts\<close>: the
  terminal callback receipt the query would pick.
\<close>

record dispatch_db =
  db_session :: "string \<times> string \<Rightarrow> string option"
  db_active :: "string \<times> string \<times> string \<Rightarrow> bool"
  db_requests :: "attempt_key \<Rightarrow> string option"
  db_dispatches :: "attempt_key \<Rightarrow> dispatch_row option"
  db_receipts :: "attempt_key \<Rightarrow> Progress option"

definition request_key :: "Request \<Rightarrow> attempt_key" where
  "request_key req = (rq_TenantID req, rq_AttemptID req)"

text \<open>
  \<^verbatim>\<open>adoptCallbackReceipt\<close> inside the transaction that holds the row without a result: its guarded
  update always affects that row.
\<close>

definition adoptCallbackReceipt ::
  "dispatch_env \<Rightarrow> Request \<Rightarrow> dispatch_db \<Rightarrow> provider_error + Result option" where
  "adoptCallbackReceipt env req db =
     (case db_receipts db (request_key req) of
        None \<Rightarrow> Inr None
      | Some progress \<Rightarrow>
         if progress_ValidateForRequest (de_size env) req progress \<noteq> None then Inl ErrRequestUnavailable
         else (case pr_Result progress of None \<Rightarrow> Inl ErrRequestUnavailable
               | Some r \<Rightarrow>
                  (case ConsumeProviderDocument (de_derive env) r of None \<Rightarrow> Inl ErrRequestUnavailable
                   | Some consumed \<Rightarrow> Inr (Some consumed))))"

definition set_result :: "attempt_key \<Rightarrow> Result \<Rightarrow> dispatch_db \<Rightarrow> dispatch_db" where
  "set_result k v db =
     db\<lparr>db_dispatches := (db_dispatches db)
          (k := map_option (\<lambda>row. row\<lparr>dr_result := Some v\<rparr>) (db_dispatches db k))\<rparr>"

text \<open>The body of the transaction of \<^verbatim>\<open>Claim\<close>.\<close>

definition claim_transaction ::
  "dispatch_env \<Rightarrow> Request \<Rightarrow> string \<Rightarrow> dispatch_db \<Rightarrow> provider_error + (bool \<times> Result option) \<times> dispatch_db" where
  "claim_transaction env req digest db =
     (let k = request_key req in
      case db_session db (rq_TenantID req, rq_VerificationID req) of
        None \<Rightarrow> Inl ErrRequestUnavailable
      | Some state \<Rightarrow>
         if db_dispatches db k = None \<and>
            ((state \<noteq> ''processing'' \<and> state \<noteq> ''awaiting_external'') \<or>
             \<not> db_active db (rq_TenantID req, rq_VerificationID req, rq_AttemptID req))
         then Inl ErrRequestUnavailable
         else
           let claimed = (db_dispatches db k = None \<and> db_requests db k = Some digest);
               db1 = (if claimed
                      then db\<lparr>db_dispatches := (db_dispatches db)(k := Some \<lparr>dr_digest = digest, dr_result = None\<rparr>)\<rparr>
                      else db)
           in (case db_dispatches db1 k of
                 None \<Rightarrow> Inl ErrRequestUnavailable
               | Some row \<Rightarrow>
                  if dr_digest row \<noteq> digest then Inl ErrRequestUnavailable
                  else (case dr_result row of
                          Some v \<Rightarrow>
                            if ValidateForRequest (de_size env) req v \<noteq> None then Inl ErrRequestUnavailable
                            else Inr ((claimed, Some v), db1)
                        | None \<Rightarrow>
                            (case adoptCallbackReceipt env req db1 of
                               Inl e \<Rightarrow> Inl e
                             | Inr None \<Rightarrow> Inr ((claimed, None), db1)
                             | Inr (Some v) \<Rightarrow> Inr ((claimed, Some v), set_result k v db1)))))"

definition Claim ::
  "dispatch_env \<Rightarrow> bool \<Rightarrow> Request \<Rightarrow> dispatch_db \<Rightarrow> (provider_error + bool \<times> Result option) \<times> dispatch_db" where
  "Claim env commit req db =
     (case RequestScope env req of Inl e \<Rightarrow> (Inl e, db)
      | Inr _ \<Rightarrow>
         (case RequestDigest env req of Inl e \<Rightarrow> (Inl e, db)
          | Inr digest \<Rightarrow>
             (case claim_transaction env req digest db of
                Inl e \<Rightarrow> (Inl e, db)
              | Inr (r, db') \<Rightarrow> if commit then (Inr r, db') else (Inl ErrStore, db))))"

definition complete_transaction :: "Request \<Rightarrow> string \<Rightarrow> Result \<Rightarrow> dispatch_db \<Rightarrow> provider_error + dispatch_db" where
  "complete_transaction req digest v db =
     (case db_dispatches db (request_key req) of
        None \<Rightarrow> Inl ErrRequestUnavailable
      | Some row \<Rightarrow>
         if dr_digest row = digest \<and> dr_result row = None then Inr (set_result (request_key req) v db)
         else Inl ErrRequestUnavailable)"

definition store_Complete ::
  "dispatch_env \<Rightarrow> bool \<Rightarrow> Request \<Rightarrow> Result \<Rightarrow> dispatch_db \<Rightarrow> (provider_error + unit) \<times> dispatch_db" where
  "store_Complete env commit req result db =
     (case ConsumeProviderDocument (de_derive env) result of
        None \<Rightarrow> (Inl ErrRequestUnavailable, db)
      | Some v \<Rightarrow>
         if ValidateForRequest (de_size env) req v \<noteq> None then (Inl ErrRequestUnavailable, db)
         else (case RequestScope env req of Inl e \<Rightarrow> (Inl e, db)
               | Inr _ \<Rightarrow>
                  (case RequestDigest env req of Inl e \<Rightarrow> (Inl e, db)
                   | Inr digest \<Rightarrow>
                      (case complete_transaction req digest v db of
                         Inl e \<Rightarrow> (Inl e, db)
                       | Inr db' \<Rightarrow> if commit then (Inr (), db') else (Inl ErrStore, db)))))"

section \<open>The durable executor\<close>

definition uncertain :: "go_time \<Rightarrow> Request \<Rightarrow> Result" where
  "uncertain now req = \<lparr>rs_Contract = rq_Contract req, rs_AttemptID = rq_AttemptID req,
     rs_Outcome = ResultOutcomeFailed, rs_Signals = [],
     rs_Failure = Some \<lparr>fl_Class = FailureUnavailable, fl_Code = ''dispatch_requires_reconciliation'',
       fl_Retry = RetryReconcile, fl_RetryAfter = 0\<rparr>,
     rs_Document = None, rs_CompletedAt = to_UTC now\<rparr>"

text \<open>\<^verbatim>\<open>Execute\<close> up to the external call, and after its reply.\<close>

datatype durable_decision = Dispatch | Recovered Result | Refused provider_error

definition durable_begin ::
  "dispatch_env \<Rightarrow> bool \<Rightarrow> Request \<Rightarrow> dispatch_db \<Rightarrow> durable_decision \<times> dispatch_db" where
  "durable_begin env commit req db =
     (if request_Validate req \<noteq> None then (Refused ErrRequestUnavailable, db)
      else case Claim env commit req db of
        (Inl e, db') \<Rightarrow> (Refused e, db')
      | (Inr (claimed, Some v), db') \<Rightarrow> (Recovered v, db')
      | (Inr (claimed, None), db') \<Rightarrow> (if claimed then Dispatch else Refused ErrDispatchPending, db'))"

definition durable_value :: "dispatch_env \<Rightarrow> go_time \<Rightarrow> Request \<Rightarrow> provider_error + Result \<Rightarrow> Result" where
  "durable_value env now req reply =
     (case (case reply of Inl _ \<Rightarrow> None | Inr r \<Rightarrow> ConsumeProviderDocument (de_derive env) r) of
        None \<Rightarrow> uncertain now req
      | Some v \<Rightarrow> if ValidateForRequest (de_size env) req v \<noteq> None then uncertain now req else v)"

definition durable_finish ::
  "dispatch_env \<Rightarrow> go_time \<Rightarrow> bool \<Rightarrow> Request \<Rightarrow> provider_error + Result \<Rightarrow> dispatch_db
     \<Rightarrow> (provider_error + Result) \<times> dispatch_db" where
  "durable_finish env now commit req reply db =
     (let v = durable_value env now req reply in
      case store_Complete env commit req v db of
        (Inl e, db') \<Rightarrow> (Inl e, db')
      | (Inr _, db') \<Rightarrow> (Inr v, db'))"

text \<open>\<^verbatim>\<open>DurableExecutor.Execute\<close>; \<open>remote\<close> is the wrapped executor. The last component counts its calls.\<close>

definition Durable_Execute ::
  "dispatch_env \<Rightarrow> go_time \<Rightarrow> bool \<Rightarrow> bool \<Rightarrow> (Request \<Rightarrow> provider_error + Result) \<Rightarrow> Request \<Rightarrow> dispatch_db
     \<Rightarrow> (provider_error + Result) \<times> dispatch_db \<times> nat" where
  "Durable_Execute env now commitClaim commitComplete remote req db =
     (case durable_begin env commitClaim req db of
        (Refused e, db1) \<Rightarrow> (Inl e, db1, 0)
      | (Recovered v, db1) \<Rightarrow> (Inr v, db1, 0)
      | (Dispatch, db1) \<Rightarrow>
         (case durable_finish env now commitComplete req (remote req) db1 of (r, db2) \<Rightarrow> (r, db2, 1)))"

section \<open>The system of workers\<close>

record durable_state =
  ds_db :: dispatch_db
  ds_claimed :: "Request list"
  ds_waiting :: "Request list"
  ds_called :: "Request list"

definition durable_start :: "dispatch_db \<Rightarrow> durable_state" where
  "durable_start db = \<lparr>ds_db = db, ds_claimed = [], ds_waiting = [], ds_called = []\<rparr>"

inductive durable_step :: "dispatch_env \<Rightarrow> durable_state \<Rightarrow> durable_state \<Rightarrow> bool" for env where
  begins: "durable_begin env commit req (ds_db s) = (d, db') \<Longrightarrow>
     durable_step env s (s\<lparr>ds_db := db', ds_claimed := (if d = Dispatch then req # ds_claimed s else ds_claimed s)\<rparr>)"
| calls: "req \<in> set (ds_claimed s) \<Longrightarrow>
     durable_step env s (s\<lparr>ds_claimed := remove1 req (ds_claimed s), ds_waiting := req # ds_waiting s,
       ds_called := req # ds_called s\<rparr>)"
| finishes: "req \<in> set (ds_waiting s) \<Longrightarrow> durable_finish env now commit req reply (ds_db s) = (r, db') \<Longrightarrow>
     durable_step env s (s\<lparr>ds_db := db', ds_waiting := remove1 req (ds_waiting s)\<rparr>)"
| crashes_claimed: "durable_step env s (s\<lparr>ds_claimed := remove1 req (ds_claimed s)\<rparr>)"
| crashes_waiting: "durable_step env s (s\<lparr>ds_waiting := remove1 req (ds_waiting s)\<rparr>)"
| others: "db_dispatches db' = db_dispatches (ds_db s) \<Longrightarrow> durable_step env s (s\<lparr>ds_db := db'\<rparr>)"

inductive_cases durable_stepE: "durable_step env s t"

text \<open>The promise, per attempt: a dispatch is claimed once, and its first result stays.\<close>

datatype ledger = Unclaimed | Pending | Done Result

definition ledger_of :: "dispatch_db \<Rightarrow> attempt_key \<Rightarrow> ledger" where
  "ledger_of db k =
     (case db_dispatches db k of None \<Rightarrow> Unclaimed
      | Some row \<Rightarrow> (case dr_result row of None \<Rightarrow> Pending | Some v \<Rightarrow> Done v))"

inductive ledger_step :: "ledger \<Rightarrow> ledger \<Rightarrow> bool" where
  ledger_stay: "ledger_step l l"
| ledger_claim: "ledger_step Unclaimed Pending"
| ledger_adopt: "rs_Document v = None \<Longrightarrow> ledger_step Unclaimed (Done v)"
| ledger_done: "rs_Document v = None \<Longrightarrow> ledger_step Pending (Done v)"

inductive_cases ledger_stepE: "ledger_step l m"

section \<open>Lemmas on the transactions\<close>

lemma set_result_other: "k' \<noteq> k \<Longrightarrow> db_dispatches (set_result k v db) k' = db_dispatches db k'"
  by (simp add: set_result_def)

lemma ledger_set_result:
  "db_dispatches db k = Some row \<Longrightarrow> ledger_of (set_result k v db) k = Done v"
  by (simp add: ledger_of_def set_result_def)

lemma adopt_no_document: "adoptCallbackReceipt env req db = Inr (Some v) \<Longrightarrow> rs_Document v = None"
  by (auto simp: adoptCallbackReceipt_def dest: Consume_no_document split: option.splits if_splits)

lemma adopt_ledger:
  "adoptCallbackReceipt env req db = Inr (Some v) \<Longrightarrow> ledger_step Unclaimed (Done v) \<and> ledger_step Pending (Done v)"
  by (auto dest: adopt_no_document intro: ledger_adopt ledger_done)

lemma claim_transaction_other:
  assumes "claim_transaction env req digest db = Inr (r, db')" and "k \<noteq> request_key req"
  shows "db_dispatches db' k = db_dispatches db k"
  using assms
  by (auto simp: claim_transaction_def Let_def set_result_other split: option.splits if_splits sum.splits)

lemma claim_transaction_ledger:
  assumes "claim_transaction env req digest db = Inr ((claimed, v), db')"
  shows "ledger_step (ledger_of db (request_key req)) (ledger_of db' (request_key req))
    \<and> db_dispatches db' (request_key req) \<noteq> None
    \<and> (claimed \<longrightarrow> db_dispatches db (request_key req) = None)
    \<and> (case v of None \<Rightarrow> ledger_of db' (request_key req) = Pending
        | Some w \<Rightarrow> ledger_of db' (request_key req) = Done w)"
  using assms
  by (auto simp: claim_transaction_def Let_def ledger_of_def set_result_def
      intro: ledger_stay ledger_claim split: option.splits if_splits sum.splits)
    (use adopt_ledger in blast)+

lemma Claim_cases:
  assumes "Claim env commit req db = (out, db')"
  obtains "db' = db" "\<exists>e. out = Inl e"
  | digest r where "claim_transaction env req digest db = Inr (r, db')" "out = Inr r"
  using assms by (auto simp: Claim_def split: sum.splits if_splits prod.splits)

lemma durable_begin_ledger:
  assumes "durable_begin env commit req db = (d, db')"
  shows "ledger_step (ledger_of db k) (ledger_of db' k)
    \<and> (db_dispatches db k \<noteq> None \<longrightarrow> db_dispatches db' k \<noteq> None)"
proof -
  have "db' = db \<or> (\<exists>digest c v. claim_transaction env req digest db = Inr ((c, v), db'))"
    using assms
    by (auto simp: durable_begin_def split: if_splits prod.splits sum.splits option.splits elim: Claim_cases)
  then show ?thesis
  proof
    assume "\<exists>digest c v. claim_transaction env req digest db = Inr ((c, v), db')"
    then obtain digest c v where t: "claim_transaction env req digest db = Inr ((c, v), db')" by blast
    show ?thesis
    proof (cases "k = request_key req")
      case True
      then show ?thesis using claim_transaction_ledger [OF t] by simp
    next
      case False
      then show ?thesis
        using claim_transaction_other [OF t] by (simp add: ledger_of_def ledger_stay)
    qed
  qed (simp add: ledger_stay)
qed

lemma durable_begin_dispatch:
  assumes "durable_begin env commit req db = (Dispatch, db')"
  shows "db_dispatches db (request_key req) = None \<and> db_dispatches db' (request_key req) \<noteq> None"
proof -
  obtain digest where "claim_transaction env req digest db = Inr ((True, None), db')"
    using assms
    by (auto simp: durable_begin_def split: if_splits prod.splits sum.splits option.splits elim: Claim_cases)
  then show ?thesis using claim_transaction_ledger by blast
qed

lemma durable_begin_recovered:
  assumes "durable_begin env commit req db = (Recovered v, db')"
  shows "ledger_of db' (request_key req) = Done v"
proof -
  obtain digest c where "claim_transaction env req digest db = Inr ((c, Some v), db')"
    using assms
    by (auto simp: durable_begin_def split: if_splits prod.splits sum.splits option.splits elim: Claim_cases)
  from claim_transaction_ledger [OF this] show ?thesis by simp
qed

lemma store_Complete_cases:
  assumes "store_Complete env commit req result db = (out, db')"
  shows "db' = db \<and> (\<exists>e. out = Inl e) \<or>
    (\<exists>v row. ConsumeProviderDocument (de_derive env) result = Some v \<and> out = Inr ()
       \<and> db_dispatches db (request_key req) = Some row \<and> dr_result row = None
       \<and> db' = set_result (request_key req) v db)"
proof (cases "ConsumeProviderDocument (de_derive env) result")
  case (Some v)
  then show ?thesis
    using assms
    by (cases "RequestScope env req"; cases "RequestDigest env req"; cases "db_dispatches db (request_key req)")
      (auto simp: store_Complete_def complete_transaction_def split: if_splits)
qed (use assms in \<open>auto simp: store_Complete_def\<close>)

lemma durable_value_consumed:
  "ConsumeProviderDocument derive (durable_value env now req reply) = Some (durable_value env now req reply)"
proof -
  have "rs_Document (durable_value env now req reply) = None"
  proof (cases "case reply of Inl _ \<Rightarrow> None | Inr r \<Rightarrow> ConsumeProviderDocument (de_derive env) r")
    case None
    then show ?thesis by (simp add: durable_value_def uncertain_def)
  next
    case (Some v)
    then have "rs_Document v = None"
      by (cases reply) (auto dest: Consume_no_document)
    with Some show ?thesis by (simp add: durable_value_def uncertain_def)
  qed
  then show ?thesis by (simp add: ConsumeProviderDocument_def)
qed

lemma durable_finish_ledger:
  assumes "durable_finish env now commit req reply db = (out, db')"
  shows "ledger_step (ledger_of db k) (ledger_of db' k)
    \<and> (db_dispatches db k \<noteq> None \<longrightarrow> db_dispatches db' k \<noteq> None)
    \<and> (\<forall>v. out = Inr v \<longrightarrow> ledger_of db' (request_key req) = Done v)"
proof -
  let ?v = "durable_value env now req reply"
  obtain o1 where c: "store_Complete env commit req ?v db = (o1, db')"
      and o: "out = (case o1 of Inl e \<Rightarrow> Inl e | Inr _ \<Rightarrow> Inr ?v)"
    using assms by (auto simp: durable_finish_def Let_def split: prod.splits sum.splits)
  from store_Complete_cases [OF c] show ?thesis
  proof (elim disjE exE conjE)
    fix e assume "db' = db" "o1 = Inl e"
    then show ?thesis using o by (auto simp: ledger_stay)
  next
    fix w row
    assume 2: "ConsumeProviderDocument (de_derive env) ?v = Some w" "o1 = Inr ()"
      "db_dispatches db (request_key req) = Some row" "dr_result row = None"
      "db' = set_result (request_key req) w db"
    then have w: "w = ?v" using durable_value_consumed by simp
    have "rs_Document w = None" using 2(1) by (rule Consume_no_document)
    then have "ledger_step (ledger_of db (request_key req)) (ledger_of db' (request_key req))"
      using 2 by (simp add: ledger_of_def set_result_def ledger_done)
    moreover have "ledger_of db' k = ledger_of db k" if "k \<noteq> request_key req"
      using 2(5) that by (simp add: ledger_of_def set_result_other)
    ultimately show ?thesis
      using 2 o w ledger_set_result by (cases "k = request_key req") (auto simp: set_result_def ledger_stay)
  qed
qed

section \<open>The system implements the ledger\<close>

lemma durable_step_ledger:
  assumes "durable_step env s t"
  shows "ledger_step (ledger_of (ds_db s) k) (ledger_of (ds_db t) k)
    \<and> (db_dispatches (ds_db s) k \<noteq> None \<longrightarrow> db_dispatches (ds_db t) k \<noteq> None)"
  using assms
proof cases
  case (begins commit req d db')
  then show ?thesis using durable_begin_ledger by fastforce
next
  case (finishes req now commit reply r db')
  then show ?thesis using durable_finish_ledger by fastforce
qed (simp_all add: ledger_stay ledger_of_def)

interpretation dispatch_ledger: simulation "durable_step env" ledger_step "\<lambda>s. ledger_of (ds_db s) k"
  for env k
  by unfold_locales (use durable_step_ledger in blast)

definition of_key :: "attempt_key \<Rightarrow> Request list \<Rightarrow> nat" where
  "of_key k rs = length (filter (\<lambda>r. request_key r = k) rs)"

lemma of_key_simps [simp]:
  "of_key k [] = 0" "of_key k (r # rs) = (if request_key r = k then Suc (of_key k rs) else of_key k rs)"
  by (simp_all add: of_key_def)

lemma of_key_remove1:
  "r \<in> set rs \<Longrightarrow> of_key k rs = of_key k (remove1 r rs) + (if request_key r = k then 1 else 0)"
  by (induction rs) auto

lemma of_key_remove1_le: "of_key k (remove1 r rs) \<le> of_key k rs"
  by (induction rs) auto

definition once :: "durable_state \<Rightarrow> bool" where
  "once s \<longleftrightarrow> (\<forall>k. of_key k (ds_claimed s) + of_key k (ds_called s) \<le>
     (if db_dispatches (ds_db s) k = None then 0 else 1))"

lemma once_step: "durable_step env s t \<Longrightarrow> once s \<Longrightarrow> once t"
proof -
  assume st: "durable_step env s t" and o: "once s"
  have keep: "db_dispatches (ds_db t) k \<noteq> None" if "db_dispatches (ds_db s) k \<noteq> None" for k
    using durable_step_ledger [OF st] that by blast
  have le: "of_key k (ds_claimed s) + of_key k (ds_called s) \<le>
      (if db_dispatches (ds_db t) k = None then 0 else 1)" for k
  proof -
    have "of_key k (ds_claimed s) + of_key k (ds_called s) \<le> (if db_dispatches (ds_db s) k = None then 0 else 1)"
      using o unfolding once_def by (rule spec)
    then show ?thesis using keep [of k] by (auto split: if_splits)
  qed
  from st show "once t"
  proof cases
    case (begins commit req d db')
    show ?thesis
    proof (cases "d = Dispatch")
      case True
      then have "durable_begin env commit req (ds_db s) = (Dispatch, db')" using begins by simp
      note d = durable_begin_dispatch [OF this]
      then have "of_key (request_key req) (ds_claimed s) + of_key (request_key req) (ds_called s) = 0"
        using spec [OF o [unfolded once_def], of "request_key req"] by simp
      show ?thesis
        unfolding once_def
      proof (rule allI)
        fix k
        show "of_key k (ds_claimed t) + of_key k (ds_called t) \<le> (if db_dispatches (ds_db t) k = None then 0 else 1)"
          using le [of k] d True begins(1) \<open>of_key _ _ + of_key _ _ = 0\<close> by (cases "k = request_key req") auto
      qed
    next
      case False
      then show ?thesis using le begins(1) by (simp add: once_def)
    qed
  next
    case (calls req)
    have "of_key k (ds_claimed t) + of_key k (ds_called t) = of_key k (ds_claimed s) + of_key k (ds_called s)" for k
      using of_key_remove1 [OF calls(2), of k] calls(1) by simp
    then show ?thesis using le by (simp add: once_def)
  next
    case (crashes_claimed req)
    have "of_key k (ds_claimed t) + of_key k (ds_called t) \<le> of_key k (ds_claimed s) + of_key k (ds_called s)" for k
      using of_key_remove1_le [of k req "ds_claimed s"] crashes_claimed by simp
    then show ?thesis using le by (metis (no_types, lifting) once_def order_trans)
  qed (use le in \<open>simp_all add: once_def\<close>)
qed

lemma once_run: "(durable_step env)\<^sup>*\<^sup>* s t \<Longrightarrow> once s \<Longrightarrow> once t"
  by (induction rule: rtranclp_induct) (auto intro: once_step)

lemma once_start: "once (durable_start db)"
  by (simp add: once_def durable_start_def)

lemma ledger_final: "ledger_step\<^sup>*\<^sup>* (Done v) l \<Longrightarrow> l = Done v"
  by (induction rule: rtranclp_induct) (auto elim: ledger_stepE)

lemma begin_done:
  assumes "ledger_of db (request_key req) = Done v"
  shows "fst (durable_begin env commit req db) \<noteq> Dispatch
    \<and> (\<forall>w. fst (durable_begin env commit req db) = Recovered w \<longrightarrow> w = v)"
proof -
  obtain d db' where b: "durable_begin env commit req db = (d, db')" by (cases "durable_begin env commit req db")
  have "ledger_of db' (request_key req) = Done v"
    using durable_begin_ledger [OF b, of "request_key req"] assms by (auto elim: ledger_stepE)
  then have "w = v" if "d = Recovered w" for w
    using durable_begin_recovered [of env commit req db w db'] b that by simp
  moreover have "d \<noteq> Dispatch"
    using durable_begin_dispatch [of env commit req db db'] b assms by (auto simp: ledger_of_def)
  ultimately show ?thesis using b by simp
qed

section \<open>A small store\<close>

definition ulid26 :: string where
  "ulid26 = replicate 26 (CHR ''0'')"

definition sample_version :: Version where
  "sample_version = \<lparr>v_Major = 1, v_Minor = 0\<rparr>"

definition sample_capability :: Capability where
  "sample_capability = \<lparr>cp_Check = ''c'', cp_AcceptedEvidence = [''e''], cp_AcceptedInputs = [],
     cp_AcceptedAssurances = [], cp_ProcessingRegions = [''r''], cp_SupportsIdempotency = True,
     cp_SupportsCancellation = False\<rparr>"

definition sample_dispatch :: Request where
  "sample_dispatch = \<lparr>rq_Contract = sample_version, rq_AttemptID = ''atm_'' @ ulid26, rq_ProviderID = ''pvd_'' @ ulid26,
     rq_TenantID = ''ten_'' @ ulid26, rq_VerificationID = ''ver_'' @ ulid26, rq_Check = ''c'',
     rq_IdempotencyKey = replicate 16 (CHR ''i''), rq_CallbackReference = [],
     rq_Adapter = \<lparr>pp_AdapterID = ''a'', pp_AdapterVersion = ''1.0.0'',
       pp_PackageDigest = ''sha256:'' @ replicate 64 (CHR ''0''), pp_Contract = sample_version\<rparr>,
     rq_Capability = sample_capability,
     rq_Restrictions = \<lparr>rs_NetworkRequired = True, rs_MaximumGrants = 1, rs_MaximumResultSize = 1000,
       rs_MaximumDuration = second\<rparr>,
     rq_Configuration = \<lparr>cf_ProviderID = ''pvd_'' @ ulid26, cf_SchemaDigest = ''sha256:'' @ replicate 64 (CHR ''0''),
       cf_SecretReference = ''secret://x'', cf_CredentialVersion = ''1''\<rparr>,
     rq_Inputs = [],
     rq_Evidence = [\<lparr>eg_GrantID = ''grt_'' @ ulid26, eg_RedemptionID = ''rdm_'' @ ulid26,
       eg_EvidenceID = ''evd_'' @ ulid26, eg_Purpose = ''p'', eg_Variant = ''v'', eg_ExpiresAt = utc_at 9\<rparr>],
     rq_Deadline = utc_at 9, rq_Trace = \<lparr>tc_Traceparent = [], tc_Tracestate = []\<rparr>\<rparr>"

definition sample_dispatch_env :: dispatch_env where
  "sample_dispatch_env = \<lparr>de_canon = Some, de_digest = (\<lambda>_. Some ''d''), de_size = (\<lambda>_. Some 10), de_derive = (\<lambda>_ _. None)\<rparr>"

definition sample_db :: dispatch_db where
  "sample_db = \<lparr>db_session = (\<lambda>_. Some ''processing''), db_active = (\<lambda>_. True), db_requests = (\<lambda>_. Some ''d''),
     db_dispatches = (\<lambda>_. None), db_receipts = (\<lambda>_. None)\<rparr>"

lemma sample_ids:
  "validID (''atm_'' @ ulid26) ''atm''" "validID (''pvd_'' @ ulid26) ''pvd''" "validID (''ten_'' @ ulid26) ''ten''"
  "validID (''ver_'' @ ulid26) ''ver''" "validID (''grt_'' @ ulid26) ''grt''" "validID (''rdm_'' @ ulid26) ''rdm''"
  "validID (''evd_'' @ ulid26) ''evd''"
  by (simp_all add: validID_def identifierPattern_def ulid26_def list_all_iff crockford_def token_simps)

lemma validName_graphic: "graphic v \<Longrightarrow> v \<noteq> [] \<Longrightarrow> length v \<le> m \<Longrightarrow> validName v m"
  by (simp add: validName_def graphic_runes graphic_no_space)

lemma sample_names: "m \<ge> 1 \<Longrightarrow> c \<in> set ''ceravp1'' \<Longrightarrow> validName [c] m"
  by (rule validName_graphic) (auto simp: graphic_def)

lemma sample_opaque: "validOpaque (replicate 16 (CHR ''i'')) 16 200" "validReference ''secret://x''"
proof -
  have "graphic (replicate 16 (CHR ''i''))" "graphic ''secret://x''" by (simp_all add: graphic_def list_all_iff)
  then show "validOpaque (replicate 16 (CHR ''i'')) 16 200" "validReference ''secret://x''"
    by (simp_all add: validReference_def validOpaque_def graphic_runes graphic_no_space IsControl_def)
qed

lemma sample_dispatch_valid: "request_Validate sample_dispatch = None"
proof -
  have v: "Accepts CurrentVersion sample_version" by (simp add: Accepts_def CurrentVersion_def sample_version_def)
  have d: "digestPattern (''sha256:'' @ replicate 64 (CHR ''0''))"
    using hex64_replicate by (simp add: digestPattern_def)
  have c: "capability_validate sample_capability = None"
    by (simp add: capability_validate_def sample_capability_def validNames_def sample_names unique_iff)
  have p: "package_validate (rq_Adapter sample_dispatch) = None"
    using v d by (simp add: package_validate_def sample_dispatch_def sample_names validVersion_def token_simps)
  have r: "restrictions_validate (rq_Restrictions sample_dispatch) = None"
    by (simp add: restrictions_validate_def sample_dispatch_def MaxResultBytes_def)
  have f: "configuration_Validate (rq_Configuration sample_dispatch) = None"
    using d by (simp add: configuration_Validate_def sample_dispatch_def sample_names sample_ids [simplified] sample_opaque)
  have g: "first_error grant_Validate (rq_Evidence sample_dispatch) = None"
    by (simp add: grant_Validate_def sample_dispatch_def sample_names sample_ids [simplified] utcNonZero_def IsZero_def)
  show ?thesis
    unfolding request_Validate_def using v c p r f g
    by (simp add: sample_dispatch_def sample_names sample_ids [simplified] sample_opaque utcNonZero_def IsZero_def
        trace_Validate_def unique_iff sample_capability_def sample_version_def)
qed

lemma sample_dispatch_begin:
  "durable_begin sample_dispatch_env True sample_dispatch sample_db =
     (Dispatch, sample_db\<lparr>db_dispatches := (\<lambda>_. None)
        (request_key sample_dispatch := Some \<lparr>dr_digest = ''d'', dr_result = None\<rparr>)\<rparr>)"
proof -
  have "ParsePublic Some R_Tenant (rq_TenantID sample_dispatch) = Inr (rq_TenantID sample_dispatch)"
    "ParsePublic Some R_Attempt (rq_AttemptID sample_dispatch) = Inr (rq_AttemptID sample_dispatch)"
    using ParsePublic_text [of Some ulid26 R_Tenant] ParsePublic_text [of Some ulid26 R_Attempt]
    by (simp_all add: sample_dispatch_def)
  then have "RequestScope sample_dispatch_env sample_dispatch = Inr (rq_TenantID sample_dispatch, rq_AttemptID sample_dispatch)"
    by (simp add: RequestScope_def sample_dispatch_env_def)
  moreover have "RequestDigest sample_dispatch_env sample_dispatch = Inr ''d''"
    by (simp add: RequestDigest_def sample_dispatch_valid) (simp add: sample_dispatch_env_def)
  ultimately show ?thesis
    by (simp add: durable_begin_def sample_dispatch_valid Claim_def claim_transaction_def sample_db_def
        adoptCallbackReceipt_def Let_def)
qed

definition sample_called :: durable_state where
  "sample_called = (durable_start (snd (durable_begin sample_dispatch_env True sample_dispatch sample_db)))
     \<lparr>ds_waiting := [sample_dispatch], ds_called := [sample_dispatch]\<rparr>"

lemma sample_run: "(durable_step sample_dispatch_env)\<^sup>*\<^sup>* (durable_start sample_db) sample_called"
proof -
  let ?db = "snd (durable_begin sample_dispatch_env True sample_dispatch sample_db)"
  have b: "durable_begin sample_dispatch_env True sample_dispatch (ds_db (durable_start sample_db)) = (Dispatch, ?db)"
    using sample_dispatch_begin by (simp add: durable_start_def)
  have "durable_step sample_dispatch_env (durable_start sample_db) ((durable_start ?db)\<lparr>ds_claimed := [sample_dispatch]\<rparr>)"
    using durable_step.begins [OF b] by (simp add: durable_start_def)
  moreover have "durable_step sample_dispatch_env ((durable_start ?db)\<lparr>ds_claimed := [sample_dispatch]\<rparr>) sample_called"
    using durable_step.calls [of sample_dispatch "(durable_start ?db)\<lparr>ds_claimed := [sample_dispatch]\<rparr>" sample_dispatch_env]
    by (simp add: durable_start_def sample_called_def)
  ultimately show ?thesis by (meson rtranclp.simps)
qed

section \<open>Properties\<close>

text \<open>
  C4. A provider is charged at most once: however many workers execute the requests of an attempt,
  however their transactions interleave, fail to commit or are cut off by crashes, and whatever
  else changes the sessions, requests and receipts, the external call for one attempt is made at
  most once.
\<close>

theorem dispatch_at_most_once:
  assumes "(durable_step env)\<^sup>*\<^sup>* (durable_start db) s"
  shows "of_key k (ds_called s) \<le> 1"
proof -
  have "once s" using once_run [OF assms once_start] .
  then have "of_key k (ds_claimed s) + of_key k (ds_called s) \<le> (if db_dispatches (ds_db s) k = None then 0 else 1)"
    unfolding once_def by (rule spec)
  then show ?thesis by (simp split: if_splits)
qed

theorem dispatch_at_most_once_witness:
  "of_key (request_key sample_dispatch) (ds_called sample_called) \<le> 1 \<and> ds_called sample_called = [sample_dispatch]"
  using dispatch_at_most_once [OF sample_run] by (simp add: sample_called_def)

text \<open>
  C5. The workers and the store implement the dispatch ledger: along every run, each attempt moves
  only from unclaimed to pending to done (or, when a callback receipt is already there, at once
  to done), never with a raw document observation in the stored result; once done it stays done
  with that result, no later execution calls the provider, and what a later execution returns is
  that result.
\<close>

theorem dispatch_refines_ledger:
  assumes "(durable_step env)\<^sup>*\<^sup>* s t" and "ledger_of (ds_db s) (request_key req) = l"
  shows "ledger_step\<^sup>*\<^sup>* l (ledger_of (ds_db t) (request_key req))
    \<and> (l = Done v \<longrightarrow> ledger_of (ds_db t) (request_key req) = Done v
         \<and> fst (durable_begin env' commit req (ds_db t)) \<noteq> Dispatch
         \<and> fst (durable_begin env' commit req (ds_db t)) \<in> {Recovered v} \<union> range Refused)"
proof -
  have r: "ledger_step\<^sup>*\<^sup>* l (ledger_of (ds_db t) (request_key req))"
    using dispatch_ledger.run_simulates [OF assms(1), of "request_key req"] assms(2) by simp
  moreover have "ledger_of (ds_db t) (request_key req) = Done v" if "l = Done v"
    using r that ledger_final by blast
  moreover have "fst (durable_begin env' commit req (ds_db t)) \<in> {Recovered v} \<union> range Refused" if "l = Done v"
    using begin_done [OF calculation(2) [OF that], of env' commit]
    by (cases "fst (durable_begin env' commit req (ds_db t))") auto
  ultimately show ?thesis
    using begin_done by (metis durable_decision.distinct(1) durable_decision.distinct(3))
qed

theorem dispatch_refines_ledger_witness:
  "ledger_step\<^sup>*\<^sup>* Unclaimed (ledger_of (ds_db sample_called) (request_key sample_dispatch))
   \<and> ledger_of (ds_db sample_called) (request_key sample_dispatch) = Pending"
proof -
  have u: "ledger_of (ds_db (durable_start sample_db)) (request_key sample_dispatch) = Unclaimed"
    by (simp add: durable_start_def sample_db_def ledger_of_def)
  have "ledger_of (ds_db sample_called) (request_key sample_dispatch) = Pending"
    by (simp add: sample_called_def sample_dispatch_begin durable_start_def ledger_of_def)
  then show ?thesis
    using dispatch_refines_ledger [OF sample_run u] by simp
qed

end
