(* ===== verification/Provider_Routing.thy ===== *)
theory Provider_Routing
  imports Provider_Dispatch Circuit_Breaker
begin

text \<open>
  What stands in front of a provider dispatch: the choice of the provider
  (\<^verbatim>\<open>internal/provider/selector.go\<close>), the dispatch limit (\<^verbatim>\<open>limit.go\<close>, \<^verbatim>\<open>postgres/limiter.go\<close>) and
  the circuit breaker around the executor (\<^verbatim>\<open>breaker.go\<close>, on \<open>Circuit_Breaker\<close>). The two limit
  tables are a list of leases and a function from windows to counts; an \<^verbatim>\<open>Acquire\<close> is one
  transaction under an advisory lock. The reply of the wrapped executor is an argument.
\<close>

section \<open>Choosing a provider\<close>

datatype route_error = ErrNoCompatibleProvider | ErrInvalidRoute

record Semantics =
  sm_Check :: string
  sm_Country :: string
  sm_Evidence :: "string list"
  sm_Assurances :: "string list"
  sm_ProcessingAuthority :: string
  sm_Recipient :: string
  sm_Region :: string
  sm_Purpose :: string

record Candidate =
  cd_ProviderID :: string
  cd_Healthy :: bool
  cd_Approved :: bool
  cd_Semantics :: Semantics

definition equalSet :: "string list \<Rightarrow> string list \<Rightarrow> bool" where
  "equalSet left right \<longleftrightarrow> sort left = sort right"

definition equivalent :: "Semantics \<Rightarrow> Semantics \<Rightarrow> bool" where
  "equivalent left right \<longleftrightarrow>
     sm_Check left = sm_Check right \<and> sm_Country left = sm_Country right \<and>
     sm_ProcessingAuthority left = sm_ProcessingAuthority right \<and> sm_Recipient left = sm_Recipient right \<and>
     sm_Region left = sm_Region right \<and> sm_Purpose left = sm_Purpose right \<and>
     equalSet (sm_Evidence left) (sm_Evidence right) \<and> equalSet (sm_Assurances left) (sm_Assurances right)"

fun uniqueSet_loop :: "string set \<Rightarrow> string list \<Rightarrow> bool" where
  "uniqueSet_loop seen [] \<longleftrightarrow> True"
| "uniqueSet_loop seen (v # vs) \<longleftrightarrow> v \<noteq> [] \<and> v \<notin> seen \<and> uniqueSet_loop (insert v seen) vs"

definition uniqueSet :: "string list \<Rightarrow> bool" where
  "uniqueSet values \<longleftrightarrow> uniqueSet_loop {} values"

definition validSemantics :: "Semantics \<Rightarrow> bool" where
  "validSemantics v \<longleftrightarrow> sm_Check v \<noteq> [] \<and> sm_Country v \<noteq> [] \<and> sm_Evidence v \<noteq> [] \<and>
     sm_ProcessingAuthority v \<noteq> [] \<and> sm_Recipient v \<noteq> [] \<and> sm_Region v \<noteq> [] \<and> sm_Purpose v \<noteq> [] \<and>
     uniqueSet (sm_Evidence v) \<and> uniqueSet (sm_Assurances v)"

text \<open>The loop over the catalogue: \<open>None\<close> if it is malformed, else the preferred candidate seen so far.\<close>

fun catalogue_loop :: "string \<Rightarrow> string set \<Rightarrow> Candidate option \<Rightarrow> Candidate list \<Rightarrow> Candidate option option" where
  "catalogue_loop preferred seen found [] = Some found"
| "catalogue_loop preferred seen found (c # cs) =
     (if cd_ProviderID c = [] \<or> \<not> validSemantics (cd_Semantics c) then None
      else if cd_ProviderID c \<in> seen then None
      else catalogue_loop preferred (insert (cd_ProviderID c) seen)
             (if cd_ProviderID c = preferred then Some c else found) cs)"

definition Select :: "Semantics \<Rightarrow> string \<Rightarrow> Candidate list \<Rightarrow> route_error + Candidate" where
  "Select wanted preferred candidates =
     (if \<not> validSemantics wanted \<or> preferred = [] \<or> candidates = [] \<or> length candidates > 32 then Inl ErrInvalidRoute
      else case catalogue_loop preferred {} None candidates of
        None \<Rightarrow> Inl ErrInvalidRoute
      | Some None \<Rightarrow> Inl ErrInvalidRoute
      | Some (Some p) \<Rightarrow>
         if \<not> equivalent wanted (cd_Semantics p) then Inl ErrInvalidRoute
         else if cd_Healthy p \<and> cd_Approved p then Inr p
         else (case find (\<lambda>c. cd_ProviderID c \<noteq> preferred \<and> cd_Healthy c \<and> cd_Approved c
                               \<and> equivalent wanted (cd_Semantics c)) candidates of
                 None \<Rightarrow> Inl ErrNoCompatibleProvider
               | Some c \<Rightarrow> Inr c))"

section \<open>The dispatch limit\<close>

record Limit =
  lm_MaximumConcurrent :: int
  lm_RateLimit :: int
  lm_RatePeriod :: duration
  lm_RateBurst :: int
  lm_LeaseTTL :: duration

definition DefaultLimit :: Limit where
  "DefaultLimit = \<lparr>lm_MaximumConcurrent = 4, lm_RateLimit = 60, lm_RatePeriod = minute, lm_RateBurst = 10,
     lm_LeaseTTL = 10 * minute\<rparr>"

definition limit_Validate :: "Limit \<Rightarrow> provider_error option" where
  "limit_Validate l =
     (if lm_MaximumConcurrent l < 1 \<or> lm_MaximumConcurrent l > 1024 \<or> lm_RateLimit l < 1 \<or>
         lm_RateLimit l > 1000000000 \<or> lm_RatePeriod l < millisecond \<or> lm_RatePeriod l > 24 * hour \<or>
         lm_RateBurst l < 0 \<or> lm_RateBurst l > 1000000000 \<or> lm_LeaseTTL l < second \<or> lm_LeaseTTL l > 30 * minute
      then Some ErrLimitInvalid else None)"

record lease_row =
  le_tenant :: string
  le_key :: string
  le_id :: string
  le_expiresAt :: go_time

record limit_db =
  lb_leases :: "lease_row list"
  lb_admissions :: "string \<times> string \<times> int \<Rightarrow> int option"

definition validLimitKey :: "string \<Rightarrow> bool" where
  "validLimitKey key \<longleftrightarrow> hex64 key"

definition held_by :: "string \<Rightarrow> string \<Rightarrow> lease_row \<Rightarrow> bool" where
  "held_by tenant key row \<longleftrightarrow> le_tenant row = tenant \<and> le_key row = key"

definition admissionRetention :: duration where
  "admissionRetention = 24 * hour"

definition acquire_transaction ::
  "string \<Rightarrow> string \<Rightarrow> Limit \<Rightarrow> go_time \<Rightarrow> string \<Rightarrow> limit_db \<Rightarrow> provider_error + limit_db" where
  "acquire_transaction tenant key l now leaseID db =
     (let leases = filter (\<lambda>row. \<not> (held_by tenant key row \<and> \<not> After (le_expiresAt row) now)) (lb_leases db);
          active = length (filter (\<lambda>row. held_by tenant key row \<and> After (le_expiresAt row) now) leases)
      in if lm_MaximumConcurrent l \<le> int active then Inl ErrThrottled
         else
           let capacity = lm_RateLimit l + lm_RateBurst l;
               window = t_ns (Truncate now (lm_RatePeriod l))
           in (case (case lb_admissions db (tenant, key, window) of
                       None \<Rightarrow> Some 1 | Some n \<Rightarrow> if n < capacity then Some (n + 1) else None) of
                 None \<Rightarrow> Inl ErrThrottled
               | Some admitted \<Rightarrow>
                  Inr \<lparr>lb_leases = \<lparr>le_tenant = tenant, le_key = key, le_id = leaseID,
                                    le_expiresAt = Add now (lm_LeaseTTL l)\<rparr> # leases,
                        lb_admissions = (\<lambda>(t, k, w).
                          if t = tenant \<and> k = key \<and> w < t_ns now - admissionRetention then None
                          else if (t, k, w) = (tenant, key, window) then Some admitted
                          else lb_admissions db (t, k, w))\<rparr>))"

text \<open>\<^verbatim>\<open>LimitStore.Acquire\<close>; the lease is its identifier. \<open>fresh\<close> is the generated lease identifier.\<close>

definition Acquire ::
  "go_time \<Rightarrow> string option \<Rightarrow> bool \<Rightarrow> string \<Rightarrow> string \<Rightarrow> Limit \<Rightarrow> limit_db \<Rightarrow> (provider_error + string) \<times> limit_db" where
  "Acquire clock fresh commit tenant key l db =
     (if tenant = [] \<or> \<not> validLimitKey key \<or> limit_Validate l \<noteq> None then (Inl ErrLimitInvalid, db)
      else case fresh of
        None \<Rightarrow> (Inl ErrLimitInvalid, db)
      | Some leaseID \<Rightarrow>
         (case acquire_transaction tenant key l (Truncate (to_UTC clock) 1000) leaseID db of
            Inl e \<Rightarrow> (Inl e, db)
          | Inr db' \<Rightarrow> if commit then (Inr leaseID, db') else (Inl ErrStore, db)))"

definition Release :: "string \<Rightarrow> string \<Rightarrow> string \<Rightarrow> limit_db \<Rightarrow> limit_db" where
  "Release tenant key leaseID db =
     db\<lparr>lb_leases := filter (\<lambda>row. \<not> (held_by tenant key row \<and> le_id row = leaseID)) (lb_leases db)\<rparr>"

text \<open>\<^verbatim>\<open>LimitKey\<close>; \<open>sha\<close> is SHA-256.\<close>

definition LimitKey :: "(string \<Rightarrow> string) \<Rightarrow> Request \<Rightarrow> string option" where
  "LimitKey sha req =
     (if rq_TenantID req = [] \<or> (pp_AdapterID (rq_Adapter req) = [] \<and> rq_ProviderID req = []) then None
      else Some (hex_encode (sha (''idenqa.provider.limit'' @ [CHR 0x00] @ rq_TenantID req @ [CHR 0x00] @
             pp_AdapterID (rq_Adapter req) @ [CHR 0x00] @ rq_ProviderID req))))"

text \<open>\<^verbatim>\<open>LimitedExecutor.Execute\<close>; \<open>inner\<close> is the reply of the wrapped executor, the flag says it was called.\<close>

definition Limited_Execute ::
  "dispatch_env \<Rightarrow> (string \<Rightarrow> string) \<Rightarrow> Limit \<Rightarrow> go_time \<Rightarrow> string option \<Rightarrow> bool \<Rightarrow> (Request \<Rightarrow> provider_error + Result)
     \<Rightarrow> Request \<Rightarrow> limit_db \<Rightarrow> (provider_error + Result) \<times> limit_db \<times> bool" where
  "Limited_Execute env sha l clock fresh commit inner req db =
     (case LimitKey sha req of
        None \<Rightarrow> (Inl ErrRequestUnavailable, db, False)
      | Some key \<Rightarrow>
         (case RequestScope env req of
            Inl e \<Rightarrow> (Inl e, db, False)
          | Inr (tenant, _) \<Rightarrow>
             (case Acquire clock fresh commit tenant key l db of
                (Inl e, db') \<Rightarrow> (Inl e, db', False)
              | (Inr lease, db') \<Rightarrow> (inner req, Release tenant key lease db', True))))"

section \<open>The breaker around the executor\<close>

record BreakerKey =
  bk_TenantID :: string
  bk_AdapterID :: string
  bk_ProviderID :: string

definition BreakerKey_Valid :: "BreakerKey \<Rightarrow> bool" where
  "BreakerKey_Valid k \<longleftrightarrow> bk_TenantID k \<noteq> [] \<and> (bk_AdapterID k \<noteq> [] \<or> bk_ProviderID k \<noteq> [])"


definition NewBreakerRegistry :: "breaker_policy \<Rightarrow> int \<Rightarrow> provider_error + BreakerKey registry" where
  "NewBreakerRegistry p mx =
     (if policy_Validate p \<noteq> None then Inl ErrBreakerInvalid
      else case Circuit_Breaker.NewRegistry p mx BreakerKey_Valid of
        Inl _ \<Rightarrow> Inl ErrBreakerInvalid | Inr r \<Rightarrow> Inr r)"







section \<open>Lemmas: routing\<close>

lemma catalogue_loop_Some:
  "catalogue_loop preferred seen found cs = Some q \<Longrightarrow>
     distinct (map cd_ProviderID cs) \<and> seen \<inter> cd_ProviderID ` set cs = {}
     \<and> q = (case find (\<lambda>c. cd_ProviderID c = preferred) cs of None \<Rightarrow> found | Some c \<Rightarrow> Some c)"
proof (induction cs arbitrary: seen found)
  case (Cons a cs)
  then have r: "cd_ProviderID a \<notin> seen" "catalogue_loop preferred (insert (cd_ProviderID a) seen)
      (if cd_ProviderID a = preferred then Some a else found) cs = Some q"
    by (auto split: if_splits)
  note ih = Cons.IH [OF r(2)]
  have "find (\<lambda>c. cd_ProviderID c = preferred) cs = None" if "cd_ProviderID a = preferred"
    using ih that unfolding find_None_iff by (metis IntI image_eqI empty_iff insertI1)
  then show ?case using ih r(1) by (auto split: option.splits)
qed simp

lemma Select_Inr:
  assumes "Select wanted preferred candidates = Inr c"
  obtains p where "p \<in> set candidates" "cd_ProviderID p = preferred" "equivalent wanted (cd_Semantics p)"
    and "cd_Healthy p \<and> cd_Approved p \<and> c = p \<or>
      \<not> (cd_Healthy p \<and> cd_Approved p) \<and>
      find (\<lambda>c. cd_ProviderID c \<noteq> preferred \<and> cd_Healthy c \<and> cd_Approved c \<and> equivalent wanted (cd_Semantics c))
        candidates = Some c"
proof -
  obtain p where l: "catalogue_loop preferred {} None candidates = Some (Some p)"
    and e: "equivalent wanted (cd_Semantics p)"
    and r: "cd_Healthy p \<and> cd_Approved p \<and> c = p \<or>
      \<not> (cd_Healthy p \<and> cd_Approved p) \<and>
      find (\<lambda>c. cd_ProviderID c \<noteq> preferred \<and> cd_Healthy c \<and> cd_Approved c \<and> equivalent wanted (cd_Semantics c))
        candidates = Some c"
    using assms by (auto simp: Select_def split: if_splits option.splits)
  have "find (\<lambda>c. cd_ProviderID c = preferred) candidates = Some p"
    using catalogue_loop_Some [OF l] by (auto split: option.splits)
  then have "p \<in> set candidates" "cd_ProviderID p = preferred"
    by (auto simp: find_Some_iff)
  with e r that show thesis by blast
qed

lemma Select_distinct:
  "Select wanted preferred candidates = Inr c \<Longrightarrow> distinct (map cd_ProviderID candidates)"
  by (auto simp: Select_def dest: catalogue_loop_Some split: if_splits option.splits)

lemma equivalent_sets:
  "equivalent a b \<Longrightarrow> set (sm_Evidence a) = set (sm_Evidence b) \<and> set (sm_Assurances a) = set (sm_Assurances b)"
  by (auto simp: equivalent_def equalSet_def dest: arg_cong [where f = set])

section \<open>Lemmas: the limit\<close>



















section \<open>Lemmas: a breaker without a free probe\<close>












section \<open>Samples\<close>

definition sample_semantics :: Semantics where
  "sample_semantics = \<lparr>sm_Check = ''c'', sm_Country = ''NG'', sm_Evidence = [''e'', ''f''], sm_Assurances = [''a''],
     sm_ProcessingAuthority = ''pa'', sm_Recipient = ''r'', sm_Region = ''eu'', sm_Purpose = ''pu''\<rparr>"

definition sample_preferred :: Candidate where
  "sample_preferred = \<lparr>cd_ProviderID = ''p'', cd_Healthy = False, cd_Approved = True, cd_Semantics = sample_semantics\<rparr>"

definition sample_fallback :: Candidate where
  "sample_fallback = \<lparr>cd_ProviderID = ''q'', cd_Healthy = True, cd_Approved = True,
     cd_Semantics = sample_semantics\<lparr>sm_Evidence := [''f'', ''e'']\<rparr>\<rparr>"








section \<open>Properties\<close>

text \<open>
  Routing keeps the meaning of the check: the selected provider is a healthy and approved
  member of the catalogue that performs the same check for the same country, authority,
  recipient, region and purpose, from the same set of evidence kinds and with the same set of
  assurances; it is the preferred provider whenever that one is healthy and approved, and otherwise the
  first qualifying one in catalogue order.
\<close>

theorem select_preserves_meaning:
  assumes "Select wanted preferred candidates = Inr c"
  shows "c \<in> set candidates \<and> cd_Healthy c \<and> cd_Approved c
    \<and> sm_Check (cd_Semantics c) = sm_Check wanted \<and> sm_Country (cd_Semantics c) = sm_Country wanted
    \<and> sm_ProcessingAuthority (cd_Semantics c) = sm_ProcessingAuthority wanted
    \<and> sm_Recipient (cd_Semantics c) = sm_Recipient wanted
    \<and> sm_Region (cd_Semantics c) = sm_Region wanted \<and> sm_Purpose (cd_Semantics c) = sm_Purpose wanted
    \<and> set (sm_Evidence (cd_Semantics c)) = set (sm_Evidence wanted)
    \<and> set (sm_Assurances (cd_Semantics c)) = set (sm_Assurances wanted)
    \<and> (\<exists>p \<in> set candidates. cd_ProviderID p = preferred \<and>
        (if cd_Healthy p \<and> cd_Approved p then c = p else cd_ProviderID c \<noteq> preferred))
    \<and> (\<forall>i < length candidates. candidates ! i = c \<longrightarrow> cd_ProviderID c \<noteq> preferred \<longrightarrow>
        (\<forall>j < i. cd_ProviderID (candidates ! j) = preferred \<or> \<not> cd_Healthy (candidates ! j)
           \<or> \<not> cd_Approved (candidates ! j) \<or> \<not> equivalent wanted (cd_Semantics (candidates ! j))))"
proof -
  have d: "distinct candidates"
    using Select_distinct [OF assms] by (simp add: distinct_map)
  from assms obtain p where p: "p \<in> set candidates" "cd_ProviderID p = preferred" "equivalent wanted (cd_Semantics p)"
    and c: "cd_Healthy p \<and> cd_Approved p \<and> c = p \<or>
      \<not> (cd_Healthy p \<and> cd_Approved p) \<and>
      find (\<lambda>c. cd_ProviderID c \<noteq> preferred \<and> cd_Healthy c \<and> cd_Approved c \<and> equivalent wanted (cd_Semantics c))
        candidates = Some c"
    by (rule Select_Inr)
  from c have q: "c \<in> set candidates \<and> cd_Healthy c \<and> cd_Approved c \<and> equivalent wanted (cd_Semantics c)
      \<and> (if cd_Healthy p \<and> cd_Approved p then c = p else cd_ProviderID c \<noteq> preferred)"
    using p by (auto simp: find_Some_iff)
  have f: "\<forall>i < length candidates. candidates ! i = c \<longrightarrow> cd_ProviderID c \<noteq> preferred \<longrightarrow>
      (\<forall>j < i. cd_ProviderID (candidates ! j) = preferred \<or> \<not> cd_Healthy (candidates ! j)
         \<or> \<not> cd_Approved (candidates ! j) \<or> \<not> equivalent wanted (cd_Semantics (candidates ! j)))"
    using c p(2) d by (auto simp: find_Some_iff nth_eq_iff_index_eq)
  have m: "sm_Check (cd_Semantics c) = sm_Check wanted" "sm_Country (cd_Semantics c) = sm_Country wanted"
    "sm_ProcessingAuthority (cd_Semantics c) = sm_ProcessingAuthority wanted"
    "sm_Recipient (cd_Semantics c) = sm_Recipient wanted" "sm_Region (cd_Semantics c) = sm_Region wanted"
    "sm_Purpose (cd_Semantics c) = sm_Purpose wanted"
    using q by (simp_all add: equivalent_def)
  show ?thesis
    using q f m p(1,2) equivalent_sets [of wanted "cd_Semantics c"] by blast
qed

theorem select_preserves_meaning_witness:
  "cd_ProviderID sample_fallback = ''q'' \<and> cd_Healthy sample_fallback
   \<and> set (sm_Evidence (cd_Semantics sample_fallback)) = {''f'', ''e''}"
proof -
  have "Select sample_semantics ''p'' [sample_preferred, sample_fallback] = Inr sample_fallback"
    by (simp add: Select_def sample_semantics_def sample_preferred_def sample_fallback_def validSemantics_def
        uniqueSet_def equivalent_def equalSet_def)
  from select_preserves_meaning [OF this] show ?thesis
    by (simp add: sample_fallback_def sample_semantics_def)
qed





end
