(* ===== verification/Idempotency.thy ===== *)
theory Idempotency
  imports Identifiers Go_Text
begin

text \<open>
  \<^verbatim>\<open>internal/platform/idempotency\<close> (the request, its fingerprint, the stored result) and its
  PostgreSQL store (\<^verbatim>\<open>Reserve\<close>, \<^verbatim>\<open>Replay\<close>, \<^verbatim>\<open>Complete\<close>), with the transaction that uses them for
  webhook administration (\<^verbatim>\<open>ApplyManagement\<close> of \<^verbatim>\<open>internal/delivery/postgres/management.go\<close>). The
  table is a function from scopes to rows. The domain the command works on is any state; the
  command is a function on it that fails or gives the encoded result and the new state.

  Parameters: SHA-256, the ULID parser, whether a text is a JSON object (\<^verbatim>\<open>json.Valid\<close> and
  \<^verbatim>\<open>json.Unmarshal\<close> into a map) and the text PostgreSQL gives back for a stored \<^verbatim>\<open>jsonb\<close>. A
  \<^verbatim>\<open>timestamptz\<close> keeps whole microseconds. The transaction-scoped lock makes the transactions of
  one scope follow each other; a lock that is taken is the flag \<open>ae_locked\<close>.
\<close>

datatype (plugins only: size) idem_error =
    IdemConflict | IdemInProgress | IdemInvalid | IdemOutsideLifetime | IdemDisappeared
  | WorkFailed | StoreFailed | ContextCancelled | DeliveryConflict | DeliveryInvalid

record idem_env =
  ie_sha :: "string \<Rightarrow> string"
  ie_canon :: "string \<Rightarrow> string option"
  ie_object :: "string \<Rightarrow> bool"
  ie_jsonb :: "string \<Rightarrow> string"

section \<open>Requests and results\<close>

definition fingerprintDomain :: string where
  "fingerprintDomain = ''idq-idempotency-request'' @ [CHR 0x00] @ ''v1'' @ [CHR 0x00]"

definition NewFingerprint :: "idem_env \<Rightarrow> string \<Rightarrow> idem_error + string" where
  "NewFingerprint env canonical = guard (canonical \<noteq> []) IdemInvalid (Inr (ie_sha env (fingerprintDomain @ canonical)))"

definition ParseFingerprint :: "string \<Rightarrow> idem_error + string" where
  "ParseFingerprint v = guard (length v = 32) IdemInvalid (Inr v)"

record idem_Request =
  iq_tenantID :: string
  iq_principal :: string
  iq_operation :: string
  iq_key :: string
  iq_fingerprint :: string
  iq_createdAt :: go_time
  iq_expiresAt :: go_time

definition validOperation :: "string \<Rightarrow> bool" where
  "validOperation v \<longleftrightarrow> v \<noteq> [] \<and> length v \<le> 200 \<and> \<not> surrounding_space v \<and> is_lower (hd v) \<and>
     list_all (\<lambda>c. is_lower c \<or> is_digit c \<or> c \<in> set ''_.:-'') (tl v)"

definition validKey :: "string \<Rightarrow> bool" where
  "validKey v \<longleftrightarrow> v \<noteq> [] \<and> length v \<le> 255 \<and> \<not> surrounding_space v \<and>
     list_all (\<lambda>c. (0x20 :: nat) \<le> of_char c \<and> of_char c \<noteq> (0x7F :: nat)) v"

definition principal_suffix :: "string \<Rightarrow> bool" where
  "principal_suffix v \<longleftrightarrow> list_all (\<lambda>c. is_lower c \<or> is_upper c \<or> is_digit c \<or> c \<in> set ''_-'') v"

definition validPrincipal :: "(string \<Rightarrow> string option) \<Rightarrow> string \<Rightarrow> bool" where
  "validPrincipal canon v \<longleftrightarrow>
     \<not> isl (ParsePublic canon R_APIKey v) \<or> \<not> isl (ParsePublic canon R_CaptureToken v) \<or>
     (if take 4 v = ''wld_'' \<and> 8 \<le> length v \<and> length v \<le> 128 then principal_suffix (drop 4 v)
      else take 4 v = ''usr_'' \<and> 5 \<le> length v \<and> length v \<le> 128 \<and> principal_suffix (drop 4 v))"

definition NewRequest ::
  "idem_env \<Rightarrow> string \<Rightarrow> string \<Rightarrow> string \<Rightarrow> string \<Rightarrow> string \<Rightarrow> go_time \<Rightarrow> duration \<Rightarrow> idem_error + idem_Request" where
  "NewRequest env tenantID actor operation key canonical now retention =
     guard (tenantID \<noteq> [] \<and> actor \<noteq> [] \<and> validPrincipal (ie_canon env) actor \<and> validOperation operation
            \<and> validKey key \<and> \<not> IsZero now \<and> 0 < retention) IdemInvalid
       (and_then (NewFingerprint env canonical) (\<lambda>fingerprint.
          Inr \<lparr>iq_tenantID = tenantID, iq_principal = actor, iq_operation = operation, iq_key = key,
               iq_fingerprint = fingerprint, iq_createdAt = to_UTC now, iq_expiresAt = Add (to_UTC now) retention\<rparr>))"

record idem_Result =
  ir_status :: int
  ir_body :: string

definition NewResult :: "idem_env \<Rightarrow> int \<Rightarrow> string \<Rightarrow> idem_error + idem_Result" where
  "NewResult env status body =
     guard (200 \<le> status \<and> status \<le> 599 \<and> body \<noteq> [] \<and> ie_object env body) IdemInvalid
       (Inr \<lparr>ir_status = status, ir_body = body\<rparr>)"

definition ValidateStoredResult :: "idem_env \<Rightarrow> int \<Rightarrow> string \<Rightarrow> idem_error + idem_Result" where
  "ValidateStoredResult env status body = NewResult env status body"

section \<open>The store\<close>

record idem_row =
  ro_fingerprint :: string
  ro_state :: string
  ro_status :: "int option"
  ro_result :: "string option"
  ro_expiresAt :: go_time

type_synonym idem_scope = "string \<times> string \<times> string \<times> string"
type_synonym idem_db = "idem_scope \<Rightarrow> idem_row option"

definition request_scope :: "idem_Request \<Rightarrow> idem_scope" where
  "request_scope r = (iq_tenantID r, iq_principal r, iq_operation r, iq_key r)"

datatype Reservation = IsOwner | Replays idem_Result

definition stored_result :: "idem_env \<Rightarrow> idem_Request \<Rightarrow> idem_row \<Rightarrow> idem_error + idem_Result" where
  "stored_result env r row =
     guard (ro_fingerprint row = iq_fingerprint r) IdemConflict
       (case (ro_state row = ''completed'', ro_status row, ro_result row) of
          (True, Some status, Some body) \<Rightarrow> ValidateStoredResult env status body
        | _ \<Rightarrow> Inl IdemInProgress)"

definition Reserve :: "idem_env \<Rightarrow> bool \<Rightarrow> idem_Request \<Rightarrow> idem_db \<Rightarrow> idem_error + Reservation \<times> idem_db" where
  "Reserve env locked r db =
     guard locked IdemInProgress
       (let k = request_scope r;
            db1 = (case db k of None \<Rightarrow> db
                   | Some row \<Rightarrow> if \<not> After (ro_expiresAt row) (pg_time (iq_createdAt r)) then db(k := None) else db)
        in case db1 k of
             None \<Rightarrow> Inr (IsOwner, db1(k \<mapsto> \<lparr>ro_fingerprint = iq_fingerprint r, ro_state = ''pending'',
               ro_status = None, ro_result = None, ro_expiresAt = pg_time (iq_expiresAt r)\<rparr>))
           | Some row \<Rightarrow> and_then (stored_result env r row) (\<lambda>result. Inr (Replays result, db1)))"

definition idem_Replay :: "idem_env \<Rightarrow> idem_Request \<Rightarrow> go_time \<Rightarrow> idem_db \<Rightarrow> idem_error + idem_Result option" where
  "idem_Replay env r now db =
     guard (\<not> IsZero now) IdemInvalid
       (case db (request_scope r) of
          None \<Rightarrow> Inr None
        | Some row \<Rightarrow> if \<not> After (ro_expiresAt row) now then Inr None
                     else and_then (stored_result env r row) (\<lambda>result. Inr (Some result)))"

definition idem_Complete :: "idem_env \<Rightarrow> idem_Request \<Rightarrow> idem_Result \<Rightarrow> go_time \<Rightarrow> idem_db \<Rightarrow> idem_error + idem_db" where
  "idem_Complete env r result completedAt db =
     guard (\<not> IsZero completedAt \<and> \<not> Before completedAt (iq_createdAt r) \<and> \<not> After completedAt (iq_expiresAt r))
       IdemOutsideLifetime
       (case db (request_scope r) of
          None \<Rightarrow> Inl IdemConflict
        | Some row \<Rightarrow>
           guard (ro_fingerprint row = iq_fingerprint r \<and> ro_state row = ''pending'') IdemConflict
             (Inr (db(request_scope r \<mapsto> row\<lparr>ro_state := ''completed'', ro_status := Some (ir_status result),
                ro_result := Some (ie_jsonb env (ir_body result))\<rparr>))))"

section \<open>A command under an idempotency key\<close>

datatype commit_outcome = Commits | CommitFails | SerializationFailure bool

record apply_env =
  ae_locked :: bool
  ae_now :: go_time
  ae_commit :: commit_outcome

type_synonym 'd work = "'d \<Rightarrow> idem_error + string \<times> 'd"

text \<open>The body of the transaction; the flag of the reply is \<^verbatim>\<open>Replayed\<close>.\<close>

definition apply_transaction ::
  "idem_env \<Rightarrow> apply_env \<Rightarrow> idem_Request \<Rightarrow> 'd work \<Rightarrow> idem_db \<times> 'd \<Rightarrow> idem_error + (string \<times> bool) \<times> idem_db \<times> 'd" where
  "apply_transaction env run r work s =
     and_then (Reserve env (ae_locked run) r (fst s)) (\<lambda>(reservation, db').
       case reservation of
         Replays result \<Rightarrow> Inr ((ir_body result, True), (db', snd s))
       | IsOwner \<Rightarrow>
           and_then (work (snd s)) (\<lambda>(body, d').
             and_then (NewResult env 200 body) (\<lambda>replay.
               and_then (idem_Complete env r replay (pg_time (ae_now run)) db') (\<lambda>db''.
                 Inr ((body, False), (db'', d'))))))"

text \<open>The loop over at most three attempts: only a serialization failure or a deadlock is tried again.\<close>

fun ApplyManagement_loop ::
  "idem_env \<Rightarrow> apply_env list \<Rightarrow> idem_Request \<Rightarrow> 'd work \<Rightarrow> idem_db \<times> 'd
     \<Rightarrow> (idem_error + string \<times> bool) \<times> idem_db \<times> 'd" where
  "ApplyManagement_loop env [] r work s = (Inl DeliveryConflict, s)"
| "ApplyManagement_loop env (run # runs) r work s =
     (case ae_commit run of
        SerializationFailure cancelled \<Rightarrow>
          if cancelled then (Inl ContextCancelled, s) else ApplyManagement_loop env runs r work s
      | outcome \<Rightarrow>
          (case apply_transaction env run r work s of
             Inl e \<Rightarrow> (Inl e, s)
           | Inr (reply, s') \<Rightarrow> if outcome = Commits then (Inr reply, s') else (Inl StoreFailed, s)))"

definition ApplyManagement ::
  "idem_env \<Rightarrow> apply_env \<times> apply_env \<times> apply_env \<Rightarrow> string \<Rightarrow> idem_Request \<Rightarrow> 'd work \<Rightarrow> idem_db \<times> 'd
     \<Rightarrow> (idem_error + string \<times> bool) \<times> idem_db \<times> 'd" where
  "ApplyManagement env runs tenantID r work s =
     (if tenantID = [] \<or> iq_tenantID r \<noteq> tenantID then (Inl DeliveryInvalid, s)
      else case runs of (r1, r2, r3) \<Rightarrow> ApplyManagement_loop env [r1, r2, r3] r work s)"

section \<open>Lemmas\<close>

definition settled :: "idem_Request \<Rightarrow> string \<Rightarrow> idem_db \<Rightarrow> bool" where
  "settled r body db \<longleftrightarrow> db (request_scope r) = Some \<lparr>ro_fingerprint = iq_fingerprint r, ro_state = ''completed'',
     ro_status = Some 200, ro_result = Some body, ro_expiresAt = pg_time (iq_expiresAt r)\<rparr>"

definition retained :: "idem_Request \<Rightarrow> idem_Request \<Rightarrow> bool" where
  "retained r q \<longleftrightarrow> request_scope q = request_scope r \<longrightarrow> After (pg_time (iq_expiresAt r)) (pg_time (iq_createdAt q))"

lemma Reserve_owner:
  "Reserve env locked r db = Inr (IsOwner, db') \<Longrightarrow>
     db' = db(request_scope r \<mapsto> \<lparr>ro_fingerprint = iq_fingerprint r, ro_state = ''pending'',
       ro_status = None, ro_result = None, ro_expiresAt = pg_time (iq_expiresAt r)\<rparr>)"
  by (auto simp: Reserve_def chain_iff Let_def split: option.splits if_splits)

lemma Reserve_other:
  "Reserve env locked r db = Inr (reservation, db') \<Longrightarrow> k \<noteq> request_scope r \<Longrightarrow> db' k = db k"
  by (auto simp: Reserve_def chain_iff Let_def split: option.splits if_splits)

lemma apply_transaction_Inr:
  assumes "apply_transaction env run r work s = Inr ((body, replayed), s')"
  obtains result where "replayed" "Reserve env (ae_locked run) r (fst s) = Inr (Replays result, fst s')"
      "body = ir_body result" "snd s' = snd s"
    | db' where "\<not> replayed" "Reserve env (ae_locked run) r (fst s) = Inr (IsOwner, db')"
      "work (snd s) = Inr (body, snd s')"
      "idem_Complete env r \<lparr>ir_status = 200, ir_body = body\<rparr> (pg_time (ae_now run)) db' = Inr (fst s')"
proof -
  obtain reservation db' where r: "Reserve env (ae_locked run) r (fst s) = Inr (reservation, db')"
    using assms by (auto simp: apply_transaction_def chain_iff)
  show ?thesis
  proof (cases reservation)
    case IsOwner
    with assms r that(2) show ?thesis
      by (auto simp: apply_transaction_def chain_iff NewResult_def)
  next
    case (Replays result)
    with assms r that(1) show ?thesis
      by (auto simp: apply_transaction_def chain_iff)
  qed
qed

lemma apply_settles:
  assumes "apply_transaction env run r work s = Inr ((body, False), s')"
  shows "settled r (ie_jsonb env body) (fst s')"
  using assms
proof (cases rule: apply_transaction_Inr)
  case (2 db')
  from Reserve_owner [OF 2(2)] 2(4) show ?thesis
    by (auto simp: idem_Complete_def chain_iff settled_def dest!: sym [of _ "fst s'"])
qed simp

lemma Reserve_settled:
  assumes "settled r body db" and "request_scope q = request_scope r" and "retained r q"
  shows "Reserve env locked q db =
     guard locked IdemInProgress (guard (iq_fingerprint r = iq_fingerprint q) IdemConflict
       (and_then (ValidateStoredResult env 200 body) (\<lambda>result. Inr (Replays result, db))))"
  using assms
  by (auto simp: settled_def Reserve_def retained_def Let_def stored_result_def guard_def)

lemma apply_retained:
  assumes "settled r body (fst s)" and "retained r q"
    and "apply_transaction env run q work s = Inr ((text, replayed), s')"
  shows "settled r body (fst s')
    \<and> (request_scope q = request_scope r \<longrightarrow> s' = s \<and> text = body \<and> replayed \<and> iq_fingerprint q = iq_fingerprint r)"
  using assms(3)
proof (cases rule: apply_transaction_Inr)
  case (1 result)
  show ?thesis
  proof (cases "request_scope q = request_scope r")
    case True
    then show ?thesis
      using 1 assms(1) Reserve_settled [OF assms(1) True assms(2), of env "ae_locked run"]
      by (auto simp: chain_iff ValidateStoredResult_def NewResult_def prod_eq_iff)
  next
    case False
    then show ?thesis
      using Reserve_other [OF 1(2), of "request_scope r"] assms(1) by (auto simp: settled_def)
  qed
next
  case (2 db')
  have n: "request_scope q \<noteq> request_scope r"
  proof
    assume "request_scope q = request_scope r"
    from 2(2) [unfolded Reserve_settled [OF assms(1) this assms(2)]] show False by (simp add: chain_iff)
  qed
  then show ?thesis
    using Reserve_owner [OF 2(2)] 2(4) assms(1)
    by (auto simp: idem_Complete_def chain_iff settled_def dest!: sym [of _ "fst s'"])
qed

lemma ApplyManagement_loop_cases:
  "ApplyManagement_loop env runs r work s = (out, s') \<Longrightarrow>
     (\<exists>e. out = Inl e \<and> s' = s) \<or> (\<exists>run reply. out = Inr reply \<and> apply_transaction env run r work s = Inr (reply, s'))"
  by (induction runs) (auto split: commit_outcome.splits sum.splits if_splits)

lemma ApplyManagement_cases:
  assumes "ApplyManagement env runs tenantID r work s = (out, s')"
  obtains e where "out = Inl e" "s' = s"
    | run reply where "out = Inr reply" "apply_transaction env run r work s = Inr (reply, s')"
proof (cases "tenantID = [] \<or> iq_tenantID r \<noteq> tenantID")
  case True
  with assms that(1) show ?thesis by (auto simp: ApplyManagement_def)
next
  case False
  obtain r1 r2 r3 where "runs = (r1, r2, r3)" by (cases runs)
  with assms False have "ApplyManagement_loop env [r1, r2, r3] r work s = (out, s')"
    by (simp only: ApplyManagement_def if_False prod.case)
  from ApplyManagement_loop_cases [OF this] that show ?thesis by blast
qed

text \<open>A history of commands: the readings of the attempts, the caller's tenant, the request and the work.\<close>

datatype 'd command = Command "apply_env \<times> apply_env \<times> apply_env" string idem_Request "'d work"

fun command_request :: "'d command \<Rightarrow> idem_Request" where
  "command_request (Command runs tenantID r work) = r"

fun apply_command :: "idem_env \<Rightarrow> 'd command \<Rightarrow> idem_db \<times> 'd \<Rightarrow> idem_db \<times> 'd" where
  "apply_command env (Command runs tenantID r work) s = snd (ApplyManagement env runs tenantID r work s)"

lemma ApplyManagement_retained:
  assumes "settled r body (fst s)" and "retained r q" and "ApplyManagement env runs tenantID q work s = (out, s')"
  shows "settled r body (fst s')
    \<and> (request_scope q = request_scope r \<longrightarrow> s' = s \<and> (\<forall>reply. out = Inr reply \<longrightarrow> reply = (body, True)
         \<and> iq_fingerprint q = iq_fingerprint r))"
  using assms(3)
proof (cases rule: ApplyManagement_cases)
  case (2 run reply)
  then show ?thesis using apply_retained [OF assms(1,2)] by (cases reply) blast
qed (use assms(1) in simp)

lemma history_settled:
  assumes "settled r body (fst s)" and "\<forall>c \<in> set cs. retained r (command_request c)"
  shows "settled r body (fst (fold (apply_command env) cs s))"
  using assms
proof (induction cs arbitrary: s)
  case (Cons c cs)
  have "settled r body (fst (apply_command env c s))"
  proof (cases c)
    case (Command runs tenantID q work)
    then show ?thesis
      using ApplyManagement_retained [OF Cons.prems(1), of q env runs tenantID work] Cons.prems(2)
      by (cases "ApplyManagement env runs tenantID q work s") auto
  qed
  with Cons show ?case by simp
qed simp

lemma settled_replays:
  assumes "settled r body (fst s)" and "retained r q" and "request_scope q = request_scope r"
    and "iq_fingerprint q = iq_fingerprint r" and "body \<noteq> []" and "ie_object env body"
    and "iq_tenantID q \<noteq> []" and "ae_locked r1" and "ae_commit r1 = Commits"
  shows "ApplyManagement env (r1, r2, r3) (iq_tenantID q) q work s = (Inr (body, True), s)"
  using assms Reserve_settled [OF assms(1,3,2)]
  by (simp add: ApplyManagement_def apply_transaction_def ValidateStoredResult_def NewResult_def)

section \<open>A small history\<close>

definition sample_idem_env :: idem_env where
  "sample_idem_env = \<lparr>ie_sha = (\<lambda>s. take 32 (s @ replicate 32 (CHR ''0''))), ie_canon = Some, ie_object = (\<lambda>_. True),
     ie_jsonb = id\<rparr>"

definition sample_idem_request :: "int \<Rightarrow> idem_Request" where
  "sample_idem_request n = \<lparr>iq_tenantID = ''t'', iq_principal = ''usr_a'', iq_operation = ''webhooks.create'',
     iq_key = ''k'', iq_fingerprint = ''f'', iq_createdAt = utc_at n, iq_expiresAt = utc_at (n + hour)\<rparr>"

definition sample_idem_run :: apply_env where
  "sample_idem_run = \<lparr>ae_locked = True, ae_now = utc_at 5000, ae_commit = Commits\<rparr>"

definition sample_idem_work :: "nat work" where
  "sample_idem_work n = Inr (''{}'', n + 1)"

lemma sample_idem_first:
  "ApplyManagement sample_idem_env (sample_idem_run, sample_idem_run, sample_idem_run) ''t'' (sample_idem_request 1000) sample_idem_work
     (\<lambda>_. None, 0) =
   (Inr (''{}'', False), ((\<lambda>_. None)(request_scope (sample_idem_request 1000) \<mapsto>
      \<lparr>ro_fingerprint = ''f'', ro_state = ''completed'', ro_status = Some 200, ro_result = Some ''{}'',
       ro_expiresAt = pg_time (utc_at (1000 + hour))\<rparr>), 1))"
  by (simp add: ApplyManagement_def sample_idem_run_def apply_transaction_def Reserve_def idem_Complete_def NewResult_def
      sample_idem_request_def sample_idem_env_def sample_idem_work_def request_scope_def pg_time_def Truncate_def to_UTC_def IsZero_def Before_def
      After_def)

section \<open>Properties\<close>

text \<open>
  C6. A command under an idempotency key takes effect once: after it has committed, and however
  many commands follow (retried, conflicting, failing or of other scopes), a request in its scope
  made before the retention ends never changes the state; if it has the same input it is
  answered with the stored result as a replay, at once when the lock is free and the transaction
  commits, and if it has other input it is never answered with a result.
\<close>

theorem command_runs_once:
  assumes "ApplyManagement env runs tenantID r work s = (Inr (body, False), s')"
    and "\<forall>c \<in> set cs. retained r (command_request c)" and "t = fold (apply_command env) cs s'"
    and "request_scope q = request_scope r" and "retained r q"
  shows "snd (ApplyManagement env runs' tenantID' q work' t) = t
    \<and> (\<forall>reply. fst (ApplyManagement env runs' tenantID' q work' t) = Inr reply \<longrightarrow>
         reply = (ie_jsonb env body, True) \<and> iq_fingerprint q = iq_fingerprint r)
    \<and> (iq_fingerprint q = iq_fingerprint r \<and> ie_jsonb env body \<noteq> [] \<and> ie_object env (ie_jsonb env body)
         \<and> iq_tenantID q \<noteq> [] \<and> tenantID' = iq_tenantID q \<and> ae_locked (fst runs') \<and> ae_commit (fst runs') = Commits \<longrightarrow>
         fst (ApplyManagement env runs' tenantID' q work' t) = Inr (ie_jsonb env body, True))"
proof -
  have "settled r (ie_jsonb env body) (fst s')"
    using assms(1) by (cases rule: ApplyManagement_cases) (auto intro: apply_settles)
  then have t: "settled r (ie_jsonb env body) (fst t)"
    unfolding assms(3) using assms(2) by (rule history_settled)
  obtain out t' where rep: "ApplyManagement env runs' tenantID' q work' t = (out, t')" by (cases "ApplyManagement env runs' tenantID' q work' t")
  obtain r1 r2 r3 where r: "runs' = (r1, r2, r3)" by (cases runs')
  show ?thesis
    using ApplyManagement_retained [OF t assms(5) rep] assms(4) rep
      settled_replays [OF t assms(5,4), of env r1 r2 r3 work'] r by auto
qed

theorem command_runs_once_witness:
  "ApplyManagement sample_idem_env (sample_idem_run, sample_idem_run, sample_idem_run) ''t'' (sample_idem_request 2000) sample_idem_work
     (snd (ApplyManagement sample_idem_env (sample_idem_run, sample_idem_run, sample_idem_run) ''t'' (sample_idem_request 1000)
        sample_idem_work (\<lambda>_. None, 0)))
   = (Inr (''{}'', True), snd (ApplyManagement sample_idem_env (sample_idem_run, sample_idem_run, sample_idem_run) ''t''
        (sample_idem_request 1000) sample_idem_work (\<lambda>_. None, 0)))"
proof -
  have q: "request_scope (sample_idem_request 2000) = request_scope (sample_idem_request 1000)"
    "retained (sample_idem_request 1000) (sample_idem_request 2000)"
    by (simp_all add: request_scope_def sample_idem_request_def retained_def pg_time_ns After_def)
  show ?thesis
    using command_runs_once [OF sample_idem_first, where cs = "[]" and q = "sample_idem_request 2000" and work' = sample_idem_work
        and runs' = "(sample_idem_run, sample_idem_run, sample_idem_run)" and tenantID' = "''t''"] q sample_idem_first
    by (auto simp: sample_idem_env_def sample_idem_request_def sample_idem_run_def prod_eq_iff)
qed

end
