(* ===== verification/Webhook_Event.thy ===== *)
theory Webhook_Event
  imports Identifiers Go_Text
begin

text \<open>
  The public webhook contract and what goes over the wire: the event catalogue
  (\<^verbatim>\<open>contracts/webhook/v1/catalogue.go\<close>), the envelope (\<^verbatim>\<open>envelope.go\<close>), and the signature and the
  bounded diagnostic of \<^verbatim>\<open>internal/delivery/signing.go\<close>. SHA-256, HMAC-SHA-256 and the field names
  of a JSON object are parameters (\<open>we_fields\<close> is the decoder with nothing allowed after the value;
  the value \<^verbatim>\<open>null\<close> has no fields).
\<close>

record webhook_env =
  we_sha :: "string \<Rightarrow> string"
  we_mac :: "string \<Rightarrow> string \<Rightarrow> string"
  we_fields :: "string \<Rightarrow> string list option"

datatype event_error = ErrInvalidEvent | ErrInvalidSubscription

section \<open>The catalogue\<close>

definition event_SchemaVersion :: string where "event_SchemaVersion = ''1.0''"
definition Wildcard :: string where "Wildcard = ''*''"
definition MaximumSubscriptions :: nat where "MaximumSubscriptions = 64"
definition MaximumDataBytes :: nat where "MaximumDataBytes = 16 * 1024"
definition MaximumRegionBytes :: nat where "MaximumRegionBytes = 64"

record event_definition =
  df_Type :: string
  df_SchemaVersion :: string
  df_RequiredData :: "string list"
  df_OptionalData :: "string list"

definition define_event :: "string \<Rightarrow> string list \<Rightarrow> string list \<Rightarrow> event_definition" where
  "define_event name required optional =
     \<lparr>df_Type = name, df_SchemaVersion = event_SchemaVersion, df_RequiredData = required, df_OptionalData = optional\<rparr>"

definition definitions :: "event_definition list" where
  "definitions = [
    define_event ''subject.created'' [''subject_id'', ''version'']
      [''state'', ''external_reference_set'', ''subject''],
    define_event ''subject.updated'' [''subject_id'', ''version'']
      [''state'', ''external_reference_set'', ''subject''],
    define_event ''subject.deletion_requested'' [''subject_id'', ''deletion_id'']
      [''state'', ''subject''],
    define_event ''verification.created'' [''verification_id'', ''version'']
      [''subject_id'', ''policy_id'', ''verification''],
    define_event ''verification.collecting'' [''verification_id'', ''version'']
      [''subject_id'', ''verification''],
    define_event ''verification.processing'' [''verification_id'', ''version'']
      [''subject_id'', ''verification''],
    define_event ''verification.requires_input'' [''verification_id'', ''version'']
      [''case_id'', ''subject_id'', ''verification''],
    define_event ''verification.requires_review'' [''verification_id'', ''version'']
      [''case_id'', ''subject_id'', ''verification''],
    define_event ''verification.completed'' [''verification_id'', ''subject_id'', ''decision_id'']
      [''outcome'', ''decided_at'', ''verification''],
    define_event ''verification.cancelled'' [''verification_id'', ''version'']
      [''subject_id'', ''reason_code'', ''verification''],
    define_event ''verification.failed'' [''verification_id'', ''version'']
      [''subject_id'', ''reason_code'', ''verification''],
    define_event ''verification.expired'' [''verification_id'', ''version'']
      [''subject_id'', ''reason_code'', ''verification''],
    define_event ''decision.created'' [''decision_id'', ''verification_id'', ''policy_id'', ''revision'']
      [''outcome'', ''decided_at'', ''decision''],
    define_event ''decision.superseded'' [''decision_id'', ''verification_id'', ''policy_id'', ''revision'']
      [''outcome'', ''decided_at'', ''previous_decision_id'', ''decision''],
    define_event ''decision.corrected'' [''decision_id'', ''verification_id'', ''previous_decision_id'', ''case_id'']
      [''outcome'', ''decided_at'', ''decision''],
    define_event ''check.started'' [''verification_id'', ''check_id'', ''version'']
      [''evidence_type'', ''artefact'', ''check''],
    define_event ''check.completed'' [''verification_id'', ''check_id'', ''version'']
      [''outcome'', ''reason_code'', ''check''],
    define_event ''check.inconclusive'' [''verification_id'', ''check_id'', ''version'']
      [''outcome'', ''reason_code'', ''check''],
    define_event ''evidence.ready'' [''evidence_id'', ''verification_id'']
      [''evidence_type'', ''artefact'', ''acquisition_method'', ''assurances'', ''media_type'', ''evidence''],
    define_event ''evidence.deleted'' [''evidence_id'', ''verification_id'']
      [''reason_code'', ''evidence''],
    define_event ''consent.recorded'' [''verification_id'', ''authority_id'']
      [''notice_id'', ''subject_id'', ''authority''],
    define_event ''consent.revoked'' [''verification_id'', ''authority_id'']
      [''notice_id'', ''subject_id'', ''authority''],
    define_event ''processing_authority.created'' [''authority_id'', ''verification_id'']
      [''notice_id'', ''subject_id'', ''authority''],
    define_event ''processing_authority.restricted'' [''authority_id'', ''verification_id'']
      [''state'', ''authority''],
    define_event ''deletion_request.updated'' [''deletion_id'']
      [''state'', ''deletion''],
    define_event ''case.created'' [''case_id'', ''verification_id'']
      [''state'', ''required_certification'', ''case''],
    define_event ''case.assigned'' [''case_id'', ''verification_id'']
      [''operator_id'', ''state'', ''case''],
    define_event ''case.finding_recorded'' [''case_id'', ''verification_id'']
      [''finding_id'', ''resolution'', ''reason_code'', ''case''],
    define_event ''appeal.updated'' [''appeal_id'', ''case_id'']
      [''state'', ''outcome'', ''appeal''],
    define_event ''provider.degraded'' [''provider_id'', ''region'', ''state'', ''reason_code'', ''observed_at'']
      []
  ]"

definition AcceptedData :: "event_definition \<Rightarrow> string list" where
  "AcceptedData d = sort (df_RequiredData d @ df_OptionalData d)"

text \<open>\<^verbatim>\<open>sort.SearchStrings\<close> is the loop of a binary search.\<close>

definition definition_Accepts :: "event_definition \<Rightarrow> string list \<Rightarrow> event_error option" where
  "definition_Accepts d names =
     (if \<not> list_all (\<lambda>f. f \<in> set names) (df_RequiredData d) then Some ErrInvalidEvent
      else if \<not> list_all (\<lambda>f. snd (BinarySearch (AcceptedData d) f)) names then Some ErrInvalidEvent
      else None)"

definition Lookup :: "string \<Rightarrow> event_definition option" where
  "Lookup name = find (\<lambda>d. df_Type d = name) definitions"

definition IsWildcard :: "string \<Rightarrow> bool" where
  "IsWildcard selection \<longleftrightarrow> selection = Wildcard"

fun subscriptions_loop :: "nat \<Rightarrow> string set \<Rightarrow> string list \<Rightarrow> event_error + string list" where
  "subscriptions_loop total_entries seen [] = Inr []"
| "subscriptions_loop total_entries seen (e # es) =
     guard (e \<notin> seen) ErrInvalidSubscription
       (if IsWildcard e then guard (total_entries = 1) ErrInvalidSubscription (Inr [Wildcard])
        else guard (Lookup e \<noteq> None) ErrInvalidSubscription
               (and_then (subscriptions_loop total_entries (insert e seen) es) (\<lambda>rest. Inr (e # rest))))"

definition ValidateSubscriptions :: "string list \<Rightarrow> event_error + string list" where
  "ValidateSubscriptions selection =
     guard (selection \<noteq> [] \<and> length selection \<le> MaximumSubscriptions) ErrInvalidSubscription
       (subscriptions_loop (length selection) {} selection)"

definition Subscribes :: "string list \<Rightarrow> string \<Rightarrow> bool" where
  "Subscribes selection eventType \<longleftrightarrow> list_ex (\<lambda>e. IsWildcard e \<or> e = eventType) selection"

section \<open>The envelope\<close>

record event =
  ev_ID :: string
  ev_Type :: string
  ev_SchemaVersion :: string
  ev_CreatedAt :: go_time
  ev_TenantID :: string
  ev_Region :: string
  ev_Data :: string

definition crockford_char :: "char \<Rightarrow> bool" where
  "crockford_char c \<longleftrightarrow> is_digit c \<or> (is_upper c \<and> c \<notin> set ''ILOU'')"

definition validIdentifier :: "string \<Rightarrow> string \<Rightarrow> bool" where
  "validIdentifier prefix v \<longleftrightarrow> take (length prefix + 1) v = prefix @ ''_'' \<and> length v = length prefix + 1 + 26 \<and>
     list_all crockford_char (drop (length prefix + 1) v)"

definition event_Validate :: "webhook_env \<Rightarrow> event \<Rightarrow> event_error option" where
  "event_Validate env e =
     (case Lookup (ev_Type e) of
        None \<Rightarrow> Some ErrInvalidEvent
      | Some d \<Rightarrow>
         if df_SchemaVersion d \<noteq> ev_SchemaVersion e then Some ErrInvalidEvent
         else if \<not> validIdentifier ''evt'' (ev_ID e) \<or> \<not> validIdentifier ''ten'' (ev_TenantID e) \<or>
                 IsZero (ev_CreatedAt e) \<or> \<not> t_utc (ev_CreatedAt e) \<or>
                 length (ev_Region e) = 0 \<or> length (ev_Region e) > MaximumRegionBytes \<or>
                 length (ev_Data e) = 0 \<or> length (ev_Data e) > MaximumDataBytes then Some ErrInvalidEvent
         else (case we_fields env (ev_Data e) of
                 None \<Rightarrow> Some ErrInvalidEvent
               | Some names \<Rightarrow> definition_Accepts d names))"

text \<open>\<^verbatim>\<open>time.Unix(createdAt.UTC().Unix(), 0).UTC()\<close> drops the fraction of a second.\<close>

definition NewEvent ::
  "webhook_env \<Rightarrow> string \<Rightarrow> string \<Rightarrow> string \<Rightarrow> string \<Rightarrow> string \<Rightarrow> go_time \<Rightarrow> string \<Rightarrow> event_error + event" where
  "NewEvent env identifier tenantID region eventType schemaVersion createdAt body =
     (let e = \<lparr>ev_ID = identifier, ev_Type = eventType, ev_SchemaVersion = schemaVersion,
               ev_CreatedAt = to_UTC (Truncate createdAt second), ev_TenantID = tenantID, ev_Region = region,
               ev_Data = body\<rparr>
      in case event_Validate env e of None \<Rightarrow> Inr e | Some err \<Rightarrow> Inl err)"

definition deterministicAlphabet :: string where
  "deterministicAlphabet = ''0123456789ABCDEFGHJKMNPQRSTVWXYZ''"

definition DeterministicEventID :: "webhook_env \<Rightarrow> string \<Rightarrow> string" where
  "DeterministicEventID env seed =
     (let digest = we_sha env seed in
      ''evt_'' @ deterministicAlphabet ! (of_char (digest ! 0) mod 8) #
        map (\<lambda>i. deterministicAlphabet ! (of_char (digest ! i) mod 32)) [1..<26])"

section \<open>Signatures\<close>

datatype signing_error = ErrInvalidSignatureInput

record Signature =
  sg_Timestamp :: string
  sg_EventID :: string
  sg_Value :: string

definition FormatInt :: "int \<Rightarrow> string" where
  "FormatInt n = (if n < 0 then CHR ''-'' # FormatUint (nat (- n)) else FormatUint (nat n))"

definition canonical :: "string \<Rightarrow> string \<Rightarrow> string \<Rightarrow> string" where
  "canonical timestamp eventID body = timestamp @ CHR 0x0A # eventID @ CHR 0x0A # body"

definition unix_seconds :: "go_time \<Rightarrow> int" where
  "unix_seconds t = t_ns t div second - 62135596800"

definition webhook_Sign :: "webhook_env \<Rightarrow> string \<Rightarrow> string \<Rightarrow> go_time \<Rightarrow> string \<Rightarrow> signing_error + Signature" where
  "webhook_Sign env secret eventID occurredAt body =
     guard (32 \<le> length secret \<and> eventID \<noteq> [] \<and> \<not> IsZero occurredAt \<and> t_utc occurredAt \<and> length body \<le> 1048576)
       ErrInvalidSignatureInput
       (let timestamp = FormatInt (unix_seconds occurredAt) in
        Inr \<lparr>sg_Timestamp = timestamp, sg_EventID = eventID,
             sg_Value = ''v1='' @ hex_encode (we_mac env secret (canonical timestamp eventID body))\<rparr>)"

section \<open>Diagnostics\<close>

definition MaximumResponseExcerptBytes :: nat where
  "MaximumResponseExcerptBytes = 4096"

record SafeDiagnostic =
  sd_StatusCode :: int
  sd_ErrorClass :: string
  sd_RetryAfter :: duration
  sd_Excerpt :: string
  sd_Truncated :: bool

text \<open>
  \<^verbatim>\<open>utf8.DecodeRuneInString\<close>: the number of bytes of the rune a string starts with; 0 where it
  reports an invalid encoding (of width 1).
\<close>

fun rune_width :: "string \<Rightarrow> nat" where
  "rune_width [] = 0"
| "rune_width (a # s) =
     (let b = of_char a; (lo, hi) = second_range b in
      if b < 0x80 then 1
      else if 0xC2 \<le> b \<and> b \<le> 0xDF then
        (case s of c1 # _ \<Rightarrow> if continuation lo hi c1 then 2 else 0 | _ \<Rightarrow> 0)
      else if 0xE0 \<le> b \<and> b \<le> 0xEF then
        (case s of c1 # c2 # _ \<Rightarrow> if continuation lo hi c1 \<and> continuation 0x80 0xBF c2 then 3 else 0 | _ \<Rightarrow> 0)
      else if 0xF0 \<le> b \<and> b \<le> 0xF4 then
        (case s of c1 # c2 # c3 # _ \<Rightarrow>
             if continuation lo hi c1 \<and> continuation 0x80 0xBF c2 \<and> continuation 0x80 0xBF c3 then 4 else 0
         | _ \<Rightarrow> 0)
      else 0)"

definition replacement :: string where
  "replacement = [CHR 0xEF, CHR 0xBF, CHR 0xBD]"

text \<open>\<^verbatim>\<open>strings.ToValidUTF8\<close>: each run of invalid bytes becomes one replacement; \<open>invalid\<close> is set inside a run.\<close>

function ToValidUTF8 :: "bool \<Rightarrow> string \<Rightarrow> string" where
  "ToValidUTF8 invalid [] = []"
| "ToValidUTF8 invalid (a # s) =
     (if rune_width (a # s) = 0 then (if invalid then [] else replacement) @ ToValidUTF8 True s
      else take (rune_width (a # s)) (a # s) @ ToValidUTF8 False (drop (rune_width (a # s)) (a # s)))"
  by pat_completeness auto

termination
  by (relation "measure (\<lambda>(_, s). length s)") auto

definition RuneStart :: "char \<Rightarrow> bool" where
  "RuneStart c \<longleftrightarrow> of_char c div 64 \<noteq> (2 :: nat)"

text \<open>\<^verbatim>\<open>for cut > 0 && !utf8.RuneStart(excerpt[cut])\<close>\<close>

fun cut_loop :: "string \<Rightarrow> nat \<Rightarrow> nat" where
  "cut_loop s 0 = 0"
| "cut_loop s (Suc n) = (if RuneStart (s ! Suc n) then Suc n else cut_loop s n)"

definition WithResponse :: "string \<Rightarrow> SafeDiagnostic \<Rightarrow> SafeDiagnostic" where
  "WithResponse body d =
     (if body = [] then d
      else
        let d1 = (if length body > MaximumResponseExcerptBytes then d\<lparr>sd_Truncated := True\<rparr> else d);
            excerpt = ToValidUTF8 False (take MaximumResponseExcerptBytes body)
        in if length excerpt > MaximumResponseExcerptBytes
           then d1\<lparr>sd_Excerpt := take (cut_loop excerpt MaximumResponseExcerptBytes) excerpt, sd_Truncated := True\<rparr>
           else d1\<lparr>sd_Excerpt := excerpt\<rparr>)"

definition diagnostic_Validate :: "SafeDiagnostic \<Rightarrow> bool" where
  "diagnostic_Validate d \<longleftrightarrow>
     0 \<le> sd_StatusCode d \<and> sd_StatusCode d \<le> 599 \<and> sd_ErrorClass d \<noteq> [] \<and> length (sd_ErrorClass d) \<le> 64 \<and>
     list_all (\<lambda>c. of_char c \<notin> {0x20, 9, 13, 10 :: nat}) (sd_ErrorClass d) \<and>
     0 \<le> sd_RetryAfter d \<and> sd_RetryAfter d \<le> 24 * hour \<and>
     length (sd_Excerpt d) \<le> MaximumResponseExcerptBytes \<and> utf8_runes (sd_Excerpt d) \<noteq> None \<and>
     \<not> (sd_Truncated d \<and> sd_Excerpt d = [])"

definition NewSafeDiagnostic :: "int \<Rightarrow> string \<Rightarrow> duration \<Rightarrow> SafeDiagnostic option" where
  "NewSafeDiagnostic statusCode error_class retryAfter =
     (let d = \<lparr>sd_StatusCode = statusCode, sd_ErrorClass = error_class, sd_RetryAfter = retryAfter,
               sd_Excerpt = [], sd_Truncated = False\<rparr>
      in if diagnostic_Validate d then Some d else None)"

section \<open>Lemmas: catalogue and identifiers\<close>

lemma definition_Accepts_iff:
  "definition_Accepts d names = None \<longleftrightarrow>
     set (df_RequiredData d) \<subseteq> set names \<and> set names \<subseteq> set (df_RequiredData d) \<union> set (df_OptionalData d)"
  by (auto simp: definition_Accepts_def AcceptedData_def BinarySearch_iff list_all_iff)

lemma alphabet_crockford: "list_all crockford_char deterministicAlphabet"
  by (simp add: deterministicAlphabet_def crockford_char_def token_simps)

lemma length_alphabet: "length deterministicAlphabet = 32"
  by (simp add: deterministicAlphabet_def)

lemma alphabet_nth: "n < 32 \<Longrightarrow> crockford_char (deterministicAlphabet ! n)"
  using alphabet_crockford by (simp add: list_all_iff length_alphabet)

lemma DeterministicEventID_valid: "validIdentifier ''evt'' (DeterministicEventID env seed)"
  by (simp add: validIdentifier_def DeterministicEventID_def Let_def list_all_iff alphabet_nth)

section \<open>Lemmas: the signed message\<close>

lemma append_separator_eq:
  "c \<notin> set a \<Longrightarrow> c \<notin> set b \<Longrightarrow> a @ c # s = b @ c # t \<longleftrightarrow> a = b \<and> s = t"
  by (induction a arbitrary: b) (case_tac b; auto)+

lemma FormatUint_no_newline: "CHR 0x0A \<notin> set (FormatUint n)"
  using FormatUint_digits [of n] by (auto simp: list_all_iff is_digit_def less_eq_char_def)

lemma FormatInt_no_newline: "CHR 0x0A \<notin> set (FormatInt n)"
  by (simp add: FormatInt_def FormatUint_no_newline)

lemma FormatInt_inj: "FormatInt m = FormatInt n \<longleftrightarrow> m = n"
proof -
  have "hd (FormatUint k) \<noteq> CHR ''-''" for k
    using FormatUint_digits [of k] FormatUint_neq_Nil [of k]
    by (cases "FormatUint k") (auto simp: is_digit_def less_eq_char_def)
  then have "CHR ''-'' # s \<noteq> FormatUint k" for s k
    by (metis list.sel(1))
  then show ?thesis by (auto simp: FormatInt_def FormatUint_inj) metis+
qed

lemma canonical_inj:
  assumes "CHR 0x0A \<notin> set e" and "CHR 0x0A \<notin> set e'"
  shows "canonical (FormatInt n) e b = canonical (FormatInt n') e' b' \<longleftrightarrow> n = n' \<and> e = e' \<and> b = b'"
  unfolding canonical_def using assms
  by (simp add: append_separator_eq FormatInt_no_newline FormatInt_inj)

lemma event_no_newline:
  assumes "validIdentifier ''evt'' e"
  shows "CHR 0x0A \<notin> set e"
proof -
  have e: "set e = set (take 4 e) \<union> set (drop 4 e)" by (metis append_take_drop_id set_append)
  have four: "length ''evt'' + 1 = 4" by simp
  have "take 4 e = ''evt_''" "list_all crockford_char (drop 4 e)"
    using assms unfolding validIdentifier_def four by simp_all
  then show ?thesis
    by (auto simp: e list_all_iff crockford_char_def is_digit_def is_upper_def less_eq_char_def)
qed

section \<open>Lemmas: UTF-8\<close>

lemma rune_width_cases:
  assumes "0 < rune_width s"
  obtains a t where "s = a # t" "rune_width s = 1" "of_char a < (0x80 :: nat)"
  | a c1 t where "s = a # c1 # t" "rune_width s = 2" "(0xC2 :: nat) \<le> of_char a" "of_char a \<le> (0xDF :: nat)"
      "continuation (fst (second_range (of_char a))) (snd (second_range (of_char a))) c1"
  | a c1 c2 t where "s = a # c1 # c2 # t" "rune_width s = 3" "(0xE0 :: nat) \<le> of_char a" "of_char a \<le> (0xEF :: nat)"
      "continuation (fst (second_range (of_char a))) (snd (second_range (of_char a))) c1" "continuation 0x80 0xBF c2"
  | a c1 c2 c3 t where "s = a # c1 # c2 # c3 # t" "rune_width s = 4" "(0xF0 :: nat) \<le> of_char a"
      "of_char a \<le> (0xF4 :: nat)"
      "continuation (fst (second_range (of_char a))) (snd (second_range (of_char a))) c1" "continuation 0x80 0xBF c2"
      "continuation 0x80 0xBF c3"
proof (cases s)
  case (Cons a t)
  define b :: nat where "b = of_char a"
  consider "b < 0x80" | "0xC2 \<le> b" "b \<le> 0xDF" | "0xE0 \<le> b" "b \<le> 0xEF" | "0xF0 \<le> b" "b \<le> 0xF4"
    using assms Cons by (auto simp: Let_def b_def [symmetric] split: if_splits prod.splits)
  then show ?thesis
  proof cases
    case 1
    then show ?thesis using that(1) [of a t] Cons by (simp add: b_def Let_def split: prod.splits)
  next
    case 2
    then show ?thesis
      using that(2) [of a] Cons assms
      by (auto simp: b_def Let_def split: prod.splits list.splits if_splits)
  next
    case 3
    then show ?thesis
      using that(3) [of a] Cons assms
      by (auto simp: b_def Let_def split: prod.splits list.splits if_splits)
  next
    case 4
    then show ?thesis
      using that(4) [of a] Cons assms
      by (auto simp: b_def Let_def split: prod.splits list.splits if_splits)
  qed
qed (use assms in simp)

lemma rune_width_le: "rune_width s \<le> length s"
proof (cases "0 < rune_width s")
  case True
  then show ?thesis by (cases rule: rune_width_cases) simp_all
qed simp

lemma rune_width_4: "rune_width s \<le> 4"
proof (cases "0 < rune_width s")
  case True
  then show ?thesis by (cases rule: rune_width_cases) simp_all
qed simp

lemma utf8_runes_step:
  assumes "0 < rune_width s"
  shows "(utf8_runes s \<noteq> None) = (utf8_runes (drop (rune_width s) s) \<noteq> None)"
  using assms by (cases rule: rune_width_cases) (simp_all add: Let_def split: prod.splits)

lemma utf8_runes_stuck:
  assumes "s \<noteq> []" and "rune_width s = 0"
  shows "utf8_runes s = None"
proof (cases s)
  case (Cons a t)
  define b :: nat where "b = of_char a"
  consider "b < 0x80" | "0x80 \<le> b" "b < 0xC2" | "0xC2 \<le> b" "b \<le> 0xDF" | "0xE0 \<le> b" "b \<le> 0xEF"
    | "0xF0 \<le> b" "b \<le> 0xF4" | "0xF5 \<le> b"
    by linarith
  then show ?thesis
    using assms(2) unfolding Cons
    by cases (auto simp: b_def [symmetric] Let_def split: prod.splits list.splits if_splits)
qed (use assms in simp)

declare rune_width.simps(2) [simp del] utf8_runes.simps(2) [simp del]

lemma rune_width_prefix:
  assumes "0 < rune_width s"
  shows "rune_width (take (rune_width s) s @ t) = rune_width s"
  using assms by (cases rule: rune_width_cases) (simp_all add: rune_width.simps(2) Let_def split: prod.splits)

lemma second_range_continuation:
  "continuation (fst (second_range b)) (snd (second_range b)) c \<Longrightarrow> continuation 0x80 0xBF c"
  by (auto simp: second_range_def continuation_def split: if_splits)

lemma continuation_not_start: "continuation 0x80 0xBF c \<Longrightarrow> \<not> RuneStart c"
proof -
  assume "continuation 0x80 0xBF c"
  then have "0x80 \<le> (of_char c :: nat)" "(of_char c :: nat) \<le> 0xBF" by (simp_all add: continuation_def)
  then have "of_char c div 64 = (2 :: nat)" by linarith
  then show ?thesis by (simp add: RuneStart_def)
qed

lemma rune_tail_continuation:
  assumes "0 < i" and "i < rune_width s"
  shows "\<not> RuneStart (s ! i)"
proof -
  have "0 < rune_width s" using assms by simp
  then have "continuation 0x80 0xBF (s ! i)"
    using assms by (cases rule: rune_width_cases)
      (auto simp: less_Suc_eq numeral_2_eq_2 numeral_3_eq_3 eval_nat_numeral dest: second_range_continuation)
  then show ?thesis by (rule continuation_not_start)
qed

text \<open>A well-formed string cut where a rune starts is well-formed.\<close>

lemma utf8_take_boundary:
  "utf8_runes s \<noteq> None \<Longrightarrow> i \<le> length s \<Longrightarrow> i = length s \<or> RuneStart (s ! i) \<Longrightarrow> utf8_runes (take i s) \<noteq> None"
proof (induction "length s" arbitrary: s i rule: less_induct)
  case less
  show ?case
  proof (cases "i = 0")
    case False
    then have "s \<noteq> []" using less.prems(2) by auto
    then have w: "0 < rune_width s" using less.prems(1) utf8_runes_stuck [of s] by (cases "rune_width s") auto
    define w where "w = rune_width s"
    have wi: "w \<le> i"
      using rune_tail_continuation [of i s] less.prems(3) rune_width_le [of s] False less.prems(2) by (cases "i < rune_width s") (auto simp: w_def)
    have "utf8_runes (drop w s) \<noteq> None"
      using less.prems(1) utf8_runes_step [OF w] by (simp add: w_def)
    then have "utf8_runes (take (i - w) (drop w s)) \<noteq> None"
      using less.prems(2,3) wi w rune_width_le [of s]
      by (intro less.hyps) (auto simp: w_def)
    moreover have t: "take i s = take w s @ take (i - w) (drop w s)"
      using wi by (metis le_add_diff_inverse take_add)
    moreover have "rune_width (take i s) = w"
      unfolding t w_def by (rule rune_width_prefix [OF w])
    ultimately show ?thesis
      using utf8_runes_step [of "take i s"] w rune_width_le [of s]
      by (simp add: w_def)
  qed simp
qed

lemma utf8_append:
  "0 < rune_width s \<Longrightarrow> utf8_runes t \<noteq> None \<Longrightarrow> utf8_runes (take (rune_width s) s @ t) \<noteq> None"
  using utf8_runes_step [of "take (rune_width s) s @ t"] rune_width_prefix [of s t] rune_width_le [of s] by simp

lemma replacement_rune: "rune_width replacement = 3" "take 3 replacement = replacement"
  by (simp_all add: replacement_def rune_width.simps(2) second_range_def continuation_def)

lemma ToValidUTF8_valid: "utf8_runes (ToValidUTF8 invalid s) \<noteq> None"
proof (induction invalid s rule: ToValidUTF8.induct)
  case (2 invalid a s)
  show ?case
  proof (cases "rune_width (a # s) = 0")
    case True
    then have "utf8_runes (ToValidUTF8 True s) \<noteq> None" using 2 by simp
    then show ?thesis
      using True utf8_append [of replacement "ToValidUTF8 True s"] replacement_rune by (simp del: not_None_eq)
  next
    case False
    then show ?thesis using 2 utf8_append [of "a # s"] by (simp del: not_None_eq)
  qed
qed simp

lemma ToValidUTF8_nonempty: "s \<noteq> [] \<Longrightarrow> ToValidUTF8 False s \<noteq> []"
  by (cases s) (auto simp: replacement_def)

lemma ToValidUTF8_id: "utf8_runes s \<noteq> None \<Longrightarrow> ToValidUTF8 invalid s = s"
proof (induction invalid s rule: ToValidUTF8.induct)
  case (2 invalid a s)
  have "rune_width (a # s) \<noteq> 0" using "2.prems" utf8_runes_stuck [of "a # s"] by (metis list.distinct(2))
  then show ?case
    using "2.IH"(2) "2.prems" utf8_runes_step [of "a # s"] by simp
qed simp

lemma cut_loop_boundary:
  "cut_loop s n \<le> n \<and> (cut_loop s n = 0 \<or> RuneStart (s ! cut_loop s n))"
  by (induction n) auto

lemma cut_loop_ge: "k \<le> n \<Longrightarrow> 0 < k \<Longrightarrow> RuneStart (s ! k) \<Longrightarrow> k \<le> cut_loop s n"
  by (induction n) (auto simp: le_Suc_eq)

lemma rune_start_first:
  assumes "utf8_runes s \<noteq> None" and "s \<noteq> []"
  shows "RuneStart (s ! 0)"
proof -
  have "0 < rune_width s"
    using assms utf8_runes_stuck [of s] by (cases "rune_width s") auto
  then have "(of_char (s ! 0) :: nat) < 0x80 \<or> 0xC2 \<le> (of_char (s ! 0) :: nat)"
    by (cases rule: rune_width_cases) auto
  then have "of_char (s ! 0) div 64 \<noteq> (2 :: nat)"
    by linarith
  then show ?thesis by (simp add: RuneStart_def)
qed

lemma cut_loop_valid:
  assumes "utf8_runes s \<noteq> None" and "n < length s" and "4 \<le> n"
  shows "utf8_runes (take (cut_loop s n) s) \<noteq> None \<and> take (cut_loop s n) s \<noteq> [] \<and> cut_loop s n \<le> n"
proof -
  define w where "w = rune_width s"
  have w: "0 < w"
    using assms utf8_runes_stuck [of s] by (cases "s = []"; cases "rune_width s") (auto simp: w_def)
  have wn: "w \<le> n" using rune_width_4 [of s] assms(3) by (simp add: w_def)
  have "utf8_runes (drop w s) \<noteq> None"
    using assms(1) utf8_runes_step [of s] w by (simp add: w_def)
  then have "RuneStart (drop w s ! 0)"
    using wn assms(2) by (intro rune_start_first) auto
  then have "RuneStart (s ! w)" using wn assms(2) by simp
  then have "w \<le> cut_loop s n" using wn w by (intro cut_loop_ge)
  then show ?thesis
    using cut_loop_boundary [of s n] w assms(1,2)
    by (intro conjI utf8_take_boundary) auto
qed

section \<open>A small environment\<close>

definition sample_webhook_env :: webhook_env where
  "sample_webhook_env = \<lparr>we_sha = (\<lambda>_. replicate 32 (CHR ''0'')), we_mac = (\<lambda>k m. m),
     we_fields = (\<lambda>_. Some [''deletion_id''])\<rparr>"

definition sample_event :: event where
  "sample_event = \<lparr>ev_ID = ''evt_'' @ replicate 26 (CHR ''0''), ev_Type = ''deletion_request.updated'',
     ev_SchemaVersion = ''1.0'', ev_CreatedAt = utc_at second, ev_TenantID = ''ten_'' @ replicate 26 (CHR ''0''),
     ev_Region = ''eu'', ev_Data = ''{}''\<rparr>"

section \<open>Properties\<close>

text \<open>
  What a receiver answers never breaks the stored diagnostic: for any response bytes whatever,
  attaching them to a valid diagnostic gives a valid diagnostic, with an excerpt of at most 4096
  bytes of well-formed UTF-8 (cut at a rune, never empty when flagged as truncated), and a
  well-formed response of at most 4096 bytes is kept unchanged.
\<close>

theorem response_excerpt_bounded:
  assumes "diagnostic_Validate d"
  shows "diagnostic_Validate (WithResponse body d)
    \<and> (body \<noteq> [] \<and> utf8_runes body \<noteq> None \<and> length body \<le> MaximumResponseExcerptBytes \<longrightarrow>
        WithResponse body d = d\<lparr>sd_Excerpt := body\<rparr>)"
proof -
  define x where "x = ToValidUTF8 False (take MaximumResponseExcerptBytes body)"
  have "diagnostic_Validate (WithResponse body d)" if "body \<noteq> []"
  proof -
    have v: "utf8_runes x \<noteq> None" unfolding x_def by (rule ToValidUTF8_valid)
    have n: "x \<noteq> []" unfolding x_def using that by (intro ToValidUTF8_nonempty) (simp add: MaximumResponseExcerptBytes_def)
    show ?thesis
    proof (cases "length x > MaximumResponseExcerptBytes")
      case True
      have "4 \<le> MaximumResponseExcerptBytes" by (simp add: MaximumResponseExcerptBytes_def)
      from cut_loop_valid [OF v True this] True assms that show ?thesis
        by (simp add: WithResponse_def Let_def x_def [symmetric] diagnostic_Validate_def)
    next
      case False
      with v n assms that show ?thesis
        by (simp add: WithResponse_def Let_def x_def [symmetric] diagnostic_Validate_def)
    qed
  qed
  moreover have "WithResponse [] d = d" by (simp add: WithResponse_def)
  moreover have "WithResponse body d = d\<lparr>sd_Excerpt := body\<rparr>"
    if "body \<noteq> []" "utf8_runes body \<noteq> None" "length body \<le> MaximumResponseExcerptBytes"
    using that ToValidUTF8_id [of body False] by (simp add: WithResponse_def Let_def)
  ultimately show ?thesis using assms by (cases "body = []") auto
qed

theorem response_excerpt_bounded_witness:
  "diagnostic_Validate (WithResponse [CHR ''a'', CHR 0xFF, CHR 0xFE]
     \<lparr>sd_StatusCode = 500, sd_ErrorClass = ''server'', sd_RetryAfter = 0, sd_Excerpt = [], sd_Truncated = False\<rparr>)"
proof -
  have "diagnostic_Validate \<lparr>sd_StatusCode = 500, sd_ErrorClass = ''server'', sd_RetryAfter = 0, sd_Excerpt = [],
      sd_Truncated = False\<rparr>"
    by (simp add: diagnostic_Validate_def MaximumResponseExcerptBytes_def)
  from response_excerpt_bounded [OF this] show ?thesis by blast
qed

text \<open>
  A webhook signature binds its message: under a secret for which HMAC does not collide on the
  two signed messages, equal signature values mean the same event, the same second and the same
  body, so no part of one message can be moved into another.
\<close>

theorem webhook_signature_binds:
  assumes "webhook_Sign env secret e t b = Inr s" and "webhook_Sign env secret e' t' b' = Inr s'"
    and "validIdentifier ''evt'' e" and "validIdentifier ''evt'' e'"
    and "we_mac env secret (canonical (sg_Timestamp s) e b) = we_mac env secret (canonical (sg_Timestamp s') e' b') \<Longrightarrow>
      canonical (sg_Timestamp s) e b = canonical (sg_Timestamp s') e' b'"
    and "sg_Value s = sg_Value s'"
  shows "e = e' \<and> unix_seconds t = unix_seconds t' \<and> b = b' \<and> sg_Timestamp s = sg_Timestamp s'"
proof -
  have n: "CHR 0x0A \<notin> set e" "CHR 0x0A \<notin> set e'"
    using assms(3,4) event_no_newline by blast+
  have s: "sg_Timestamp s = FormatInt (unix_seconds t)" "sg_Timestamp s' = FormatInt (unix_seconds t')"
    using assms(1,2) by (auto simp: webhook_Sign_def Let_def chain_iff)
  have "we_mac env secret (canonical (sg_Timestamp s) e b) = we_mac env secret (canonical (sg_Timestamp s') e' b')"
    using assms(1,2,6) by (auto simp: webhook_Sign_def Let_def chain_iff hex_encode_inj)
  then have "canonical (sg_Timestamp s) e b = canonical (sg_Timestamp s') e' b'"
    by (rule assms(5))
  then have "unix_seconds t = unix_seconds t' \<and> e = e' \<and> b = b'"
    unfolding s by (simp add: canonical_inj [OF n])
  then show ?thesis by (simp add: s)
qed

theorem webhook_signature_binds_witness:
  "webhook_Sign sample_webhook_env (replicate 32 (CHR ''k'')) (ev_ID sample_event) (utc_at second) ''b''
   \<noteq> webhook_Sign sample_webhook_env (replicate 32 (CHR ''k'')) (ev_ID sample_event) (utc_at second) ''c''"
proof
  assume same: "webhook_Sign sample_webhook_env (replicate 32 (CHR ''k'')) (ev_ID sample_event) (utc_at second) ''b''
    = webhook_Sign sample_webhook_env (replicate 32 (CHR ''k'')) (ev_ID sample_event) (utc_at second) ''c''"
  obtain s where s: "webhook_Sign sample_webhook_env (replicate 32 (CHR ''k'')) (ev_ID sample_event) (utc_at second) ''b''
      = Inr s"
    by (simp add: webhook_Sign_def sample_event_def IsZero_def Let_def)
  have i: "validIdentifier ''evt'' (ev_ID sample_event)"
    by (simp add: sample_event_def validIdentifier_def crockford_char_def token_simps list_all_iff)
  have m: "we_mac sample_webhook_env (replicate 32 (CHR ''k'')) x = x" for x
    by (simp add: sample_webhook_env_def)
  have "''b'' = ''c''"
    using webhook_signature_binds [OF s s [unfolded same] i i] by (simp add: m)
  then show False by simp
qed

text \<open>
  The data of an event is closed by the catalogue: an envelope validates only with a catalogue
  type, canonical event and tenant identifiers, and data whose field names contain every required
  name and nothing but required and optional names; the identifier derived from any seed is a
  canonical event identifier.
\<close>

theorem event_data_closed:
  "(event_Validate env e = None \<longrightarrow>
     (\<exists>d names. d \<in> set definitions \<and> df_Type d = ev_Type e \<and> we_fields env (ev_Data e) = Some names
        \<and> set (df_RequiredData d) \<subseteq> set names \<and> set names \<subseteq> set (df_RequiredData d) \<union> set (df_OptionalData d)
        \<and> validIdentifier ''evt'' (ev_ID e) \<and> validIdentifier ''ten'' (ev_TenantID e)))
   \<and> validIdentifier ''evt'' (DeterministicEventID env seed)"
proof -
  have "d \<in> set definitions \<and> df_Type d = ev_Type e" if "Lookup (ev_Type e) = Some d" for d
    using that by (auto simp: Lookup_def find_Some_iff)
  then show ?thesis
    by (auto simp: event_Validate_def definition_Accepts_iff DeterministicEventID_valid split: option.splits if_splits)
qed

theorem event_data_closed_witness:
  "set [''deletion_id''] \<subseteq> set [''deletion_id''] \<and>
   event_Validate sample_webhook_env sample_event = None \<and> validIdentifier ''evt'' (ev_ID sample_event)"
proof -
  have v: "event_Validate sample_webhook_env sample_event = None"
    by (simp add: event_Validate_def sample_event_def sample_webhook_env_def Lookup_def definitions_def define_event_def
        event_SchemaVersion_def validIdentifier_def crockford_char_def token_simps list_all_iff IsZero_def MaximumRegionBytes_def
        MaximumDataBytes_def definition_Accepts_iff)
  then have "validIdentifier ''evt'' (ev_ID sample_event)"
    using event_data_closed [of sample_webhook_env sample_event "[]"] by blast
  with v show ?thesis by simp
qed

end
