(* ===== verification/Evidence_Registry.thy ===== *)
theory Evidence_Registry
  imports Go_Text
begin

text \<open>
  The vocabulary of evidence (\<^verbatim>\<open>internal/evidence/registry.go\<close>), the deployed revisions
  (\<^verbatim>\<open>builtin.go\<close>) and the catalogue that resolves exact references (\<^verbatim>\<open>catalog.go\<close>).

  A Go map of the registry is the list of its entries in the order they were added; lookups take
  the entry of a name, which is unique. The encoding of the canonical document followed by
  SHA-256 is the argument \<open>digest\<close>, on a document whose lists are sorted as the code sorts them;
  \<open>None\<close> is an encoding error. The defensive copies of the code are identities.
\<close>

datatype (plugins only: size) registry_error =
    KindInvalid | NameKind | NameNamespace | NameOwner | NameSegment | RevisionInvalid | NameDuplicate
  | NameUnknown | TypeEmpty | SupportsEmpty | TypeUnknown | TypeRepeated | SupportEmpty
  | ValueKindInvalid | DocumentUnencodable | RegistryNotFound | CatalogInvalid | RegistryMismatch

section \<open>Names\<close>

datatype Kind =
  KindEvidence | KindArtefact | KindMethod | KindPurpose | KindAssurance | KindConstraint | KindOther string

fun kind_text :: "Kind \<Rightarrow> string" where
  "kind_text KindEvidence = ''evidence''"
| "kind_text KindArtefact = ''artefact''"
| "kind_text KindMethod = ''method''"
| "kind_text KindPurpose = ''purpose''"
| "kind_text KindAssurance = ''assurance''"
| "kind_text KindConstraint = ''constraint''"
| "kind_text (KindOther s) = s"

fun kind_valid :: "Kind \<Rightarrow> bool" where
  "kind_valid (KindOther _) = False"
| "kind_valid _ = True"

definition reservedNamespace :: string where
  "reservedNamespace = ''idenqa''"

fun validSegment :: "string \<Rightarrow> bool" where
  "validSegment [] = False"
| "validSegment (c # cs) = (is_lower c \<and> list_all (\<lambda>d. is_lower d \<or> is_digit d \<or> d = CHR ''_'') cs)"

definition ParseName :: "Kind \<Rightarrow> string \<Rightarrow> registry_error + string" where
  "ParseName kind value =
     guard (kind_valid kind) KindInvalid
       (let parts = Split (CHR ''.'') value in
        guard (3 \<le> length parts \<and> parts ! (length parts - 2) = kind_text kind) NameKind
          (if parts ! 0 = reservedNamespace \<and> length parts \<noteq> 3 then Inl NameNamespace
           else if parts ! 0 \<noteq> reservedNamespace \<and> length parts < 4 then Inl NameOwner
           else guard (list_all validSegment parts) NameSegment (Inr value)))"

section \<open>Definitions\<close>

datatype ValueKind = ValueString | ValueInteger | ValueBoolean | ValueStringList | ValueOther string

fun value_kind_valid :: "ValueKind \<Rightarrow> bool" where
  "value_kind_valid (ValueOther _) = False"
| "value_kind_valid _ = True"

record evidence_type =
  ty_Name :: string
  ty_Artefacts :: "string list"

record MethodSupport =
  ms_EvidenceType :: string
  ms_Artefacts :: "string list"
  ms_Assurances :: "string list"

record AcquisitionMethod =
  am_Name :: string
  am_Supports :: "MethodSupport list"

record ConstraintDefinition =
  cd_Name :: string
  cd_ValueKind :: ValueKind
  cd_AppliesTo :: "string list"

record Definitions =
  df_Artefacts :: "string list"
  df_Evidence :: "evidence_type list"
  df_Methods :: "AcquisitionMethod list"
  df_Purposes :: "string list"
  df_Assurances :: "string list"
  df_Constraints :: "ConstraintDefinition list"

record Reference =
  rf_SchemaVersion :: nat
  rf_Revision :: nat
  rf_Digest :: string

record evidence_registry = Definitions +
  rg_revision :: nat
  rg_digest :: string

definition RegistrySchemaVersion :: nat where
  "RegistrySchemaVersion = 1"

definition registry_Reference :: "evidence_registry \<Rightarrow> Reference" where
  "registry_Reference r =
     \<lparr>rf_SchemaVersion = RegistrySchemaVersion, rf_Revision = rg_revision r, rf_Digest = rg_digest r\<rparr>"

section \<open>Validation\<close>

text \<open>\<^verbatim>\<open>addName\<close> over the names of one kind.\<close>

fun add_names :: "Kind \<Rightarrow> string list \<Rightarrow> string list \<Rightarrow> registry_error + string list" where
  "add_names kind done [] = Inr done"
| "add_names kind done (name # names) =
     and_then (ParseName kind name) (\<lambda>_.
       guard (name \<notin> set done) NameDuplicate (add_names kind (done @ [name]) names))"

fun validated_loop :: "Kind \<Rightarrow> string list \<Rightarrow> string list \<Rightarrow> string list \<Rightarrow> registry_error option" where
  "validated_loop kind allowed seen [] = None"
| "validated_loop kind allowed seen (name # names) =
     (case ParseName kind name of
        Inl e \<Rightarrow> Some e
      | Inr _ \<Rightarrow>
         if name \<notin> set allowed then Some NameUnknown
         else if name \<in> set seen then Some NameDuplicate
         else validated_loop kind allowed (name # seen) names)"

definition validatedNames :: "Kind \<Rightarrow> string list \<Rightarrow> string list \<Rightarrow> registry_error + string list" where
  "validatedNames kind names allowed =
     (case validated_loop kind allowed [] names of Some e \<Rightarrow> Inl e | None \<Rightarrow> Inr (sort names))"

fun add_types :: "string list \<Rightarrow> evidence_type list \<Rightarrow> evidence_type list \<Rightarrow> registry_error + evidence_type list" where
  "add_types artefacts done [] = Inr done"
| "add_types artefacts done (t # ts) =
     and_then (ParseName KindEvidence (ty_Name t)) (\<lambda>_.
       guard (ty_Name t \<notin> ty_Name ` set done) NameDuplicate
         (and_then (validatedNames KindArtefact (ty_Artefacts t) artefacts) (\<lambda>names.
           guard (names \<noteq> []) TypeEmpty
             (add_types artefacts (done @ [t\<lparr>ty_Artefacts := names\<rparr>]) ts))))"

definition find_type :: "string \<Rightarrow> evidence_type list \<Rightarrow> evidence_type option" where
  "find_type name ts = List.find (\<lambda>t. ty_Name t = name) ts"

fun add_supports ::
  "evidence_type list \<Rightarrow> string list \<Rightarrow> string list \<Rightarrow> MethodSupport list \<Rightarrow> registry_error + MethodSupport list" where
  "add_supports types assurances seen [] = Inr []"
| "add_supports types assurances seen (s # ss) =
     (case find_type (ms_EvidenceType s) types of
        None \<Rightarrow> Inl TypeUnknown
      | Some t \<Rightarrow>
         guard (ms_EvidenceType s \<notin> set seen) TypeRepeated
           (and_then (validatedNames KindArtefact (ms_Artefacts s) (ty_Artefacts t)) (\<lambda>artefacts.
             guard (artefacts \<noteq> []) SupportEmpty
               (and_then (validatedNames KindAssurance (ms_Assurances s) assurances) (\<lambda>names.
                 and_then (add_supports types assurances (ms_EvidenceType s # seen) ss) (\<lambda>rest.
                   Inr (s\<lparr>ms_Artefacts := artefacts, ms_Assurances := names\<rparr> # rest)))))))"

fun add_methods ::
  "evidence_type list \<Rightarrow> string list \<Rightarrow> AcquisitionMethod list \<Rightarrow> AcquisitionMethod list \<Rightarrow> registry_error + AcquisitionMethod list" where
  "add_methods types assurances done [] = Inr done"
| "add_methods types assurances done (m # ms) =
     and_then (ParseName KindMethod (am_Name m)) (\<lambda>_.
       guard (am_Name m \<notin> am_Name ` set done) NameDuplicate
         (guard (am_Supports m \<noteq> []) SupportsEmpty
           (and_then (add_supports types assurances [] (am_Supports m)) (\<lambda>supports.
             add_methods types assurances (done @ [m\<lparr>am_Supports := supports\<rparr>]) ms))))"

fun add_constraints ::
  "string list \<Rightarrow> ConstraintDefinition list \<Rightarrow> ConstraintDefinition list \<Rightarrow> registry_error + ConstraintDefinition list" where
  "add_constraints types done [] = Inr done"
| "add_constraints types done (c # cs) =
     and_then (ParseName KindConstraint (cd_Name c)) (\<lambda>_.
       guard (cd_Name c \<notin> cd_Name ` set done) NameDuplicate
         (guard (value_kind_valid (cd_ValueKind c)) ValueKindInvalid
           (and_then (validatedNames KindEvidence (cd_AppliesTo c) types) (\<lambda>names.
             add_constraints types (done @ [c\<lparr>cd_AppliesTo := names\<rparr>]) cs))))"

text \<open>The document behind the digest: every list sorted.\<close>

definition canonicalDefinitions :: "nat \<Rightarrow> Definitions \<Rightarrow> nat \<times> Definitions" where
  "canonicalDefinitions revision d =
     (revision,
      \<lparr>df_Artefacts = sort (df_Artefacts d), df_Evidence = sort_key ty_Name (df_Evidence d),
       df_Methods = sort_key am_Name
         (map (\<lambda>m. m\<lparr>am_Supports := sort_key ms_EvidenceType (am_Supports m)\<rparr>) (df_Methods d)),
       df_Purposes = sort (df_Purposes d), df_Assurances = sort (df_Assurances d),
       df_Constraints = sort_key cd_Name (df_Constraints d)\<rparr>)"

definition validated_definitions :: "Definitions \<Rightarrow> registry_error + Definitions" where
  "validated_definitions d =
     and_then (add_names KindArtefact [] (df_Artefacts d)) (\<lambda>artefacts.
     and_then (add_names KindPurpose [] (df_Purposes d)) (\<lambda>purposes.
     and_then (add_names KindAssurance [] (df_Assurances d)) (\<lambda>assurances.
     and_then (add_types artefacts [] (df_Evidence d)) (\<lambda>types.
     and_then (add_methods types assurances [] (df_Methods d)) (\<lambda>methods.
     and_then (add_constraints (map ty_Name types) [] (df_Constraints d)) (\<lambda>constraints.
       Inr \<lparr>df_Artefacts = artefacts, df_Evidence = types, df_Methods = methods, df_Purposes = purposes,
            df_Assurances = assurances, df_Constraints = constraints\<rparr>))))))"

definition NewRegistry ::
  "(nat \<times> Definitions \<Rightarrow> string option) \<Rightarrow> nat \<Rightarrow> Definitions \<Rightarrow> registry_error + evidence_registry" where
  "NewRegistry digest revision d =
     guard (revision \<noteq> 0) RevisionInvalid
       (and_then (validated_definitions d) (\<lambda>v.
         case digest (canonicalDefinitions revision v) of
           None \<Rightarrow> Inl DocumentUnencodable
         | Some hash \<Rightarrow> Inr (Definitions.extend v \<lparr>rg_revision = revision, rg_digest = hash\<rparr>)))"

section \<open>Queries\<close>

fun registry_Has :: "evidence_registry \<Rightarrow> Kind \<Rightarrow> string \<Rightarrow> bool" where
  "registry_Has r KindArtefact name = (name \<in> set (df_Artefacts r))"
| "registry_Has r KindEvidence name = (name \<in> ty_Name ` set (df_Evidence r))"
| "registry_Has r KindMethod name = (name \<in> am_Name ` set (df_Methods r))"
| "registry_Has r KindPurpose name = (name \<in> set (df_Purposes r))"
| "registry_Has r KindAssurance name = (name \<in> set (df_Assurances r))"
| "registry_Has r KindConstraint name = (name \<in> cd_Name ` set (df_Constraints r))"
| "registry_Has r (KindOther _) name = False"

definition registry_EvidenceType :: "evidence_registry \<Rightarrow> string \<Rightarrow> evidence_type option" where
  "registry_EvidenceType r name = find_type name (df_Evidence r)"

definition registry_Method :: "evidence_registry \<Rightarrow> string \<Rightarrow> AcquisitionMethod option" where
  "registry_Method r name = List.find (\<lambda>m. am_Name m = name) (df_Methods r)"

record Capabilities =
  ca_Registry :: Reference
  ca_Methods :: "string list"

definition ValidateCapabilities :: "evidence_registry \<Rightarrow> Capabilities \<Rightarrow> registry_error option" where
  "ValidateCapabilities r c =
     (if ca_Registry c \<noteq> registry_Reference r then Some RegistryMismatch
      else case validatedNames KindMethod (ca_Methods c) (map am_Name (df_Methods r)) of
             Inl e \<Rightarrow> Some e | Inr _ \<Rightarrow> None)"

text \<open>\<^verbatim>\<open>validateAcquisition\<close> of \<^verbatim>\<open>asset.go\<close>: what a capture claims must be supported.\<close>

definition validateAcquisition ::
  "evidence_registry \<Rightarrow> string \<Rightarrow> string \<Rightarrow> string \<Rightarrow> string list \<Rightarrow> string list option" where
  "validateAcquisition r evidenceType artefact method assurances =
     (case registry_EvidenceType r evidenceType of
        None \<Rightarrow> None
      | Some t \<Rightarrow>
         if artefact \<notin> set (ty_Artefacts t) then None
         else case registry_Method r method of
                None \<Rightarrow> None
              | Some m \<Rightarrow>
                 (case List.find (\<lambda>s. ms_EvidenceType s = evidenceType) (am_Supports m) of
                    None \<Rightarrow> None
                  | Some s \<Rightarrow>
                     if ms_EvidenceType s = [] \<or> artefact \<notin> set (ms_Artefacts s) then None
                     else let validated = compact (sort assurances) in
                          if list_all (\<lambda>a. a \<in> set (ms_Assurances s)) validated then Some validated else None))"

section \<open>The catalogue\<close>

type_synonym Catalog = "(Reference \<times> evidence_registry) list"

fun catalog_loop :: "Catalog \<Rightarrow> evidence_registry list \<Rightarrow> registry_error + Catalog" where
  "catalog_loop indexed [] = Inr indexed"
| "catalog_loop indexed (r # rs) =
     (let ref = registry_Reference r in
      guard (rf_SchemaVersion ref \<noteq> 0 \<and> rf_Revision ref \<noteq> 0 \<and> rf_Digest ref \<noteq> []) CatalogInvalid
        (guard (ref \<notin> fst ` set indexed) CatalogInvalid (catalog_loop (indexed @ [(ref, r)]) rs)))"

definition NewCatalog :: "evidence_registry list \<Rightarrow> registry_error + Catalog" where
  "NewCatalog rs = guard (rs \<noteq> []) CatalogInvalid (catalog_loop [] rs)"

definition catalog_Resolve :: "Catalog \<Rightarrow> Reference \<Rightarrow> registry_error + evidence_registry" where
  "catalog_Resolve c ref = (case map_of c ref of None \<Rightarrow> Inl RegistryNotFound | Some r \<Rightarrow> Inr r)"

definition builtInDefinitions :: Definitions where
  "builtInDefinitions =
     \<lparr>df_Artefacts = [''idenqa.artefact.document_front'', ''idenqa.artefact.document_back'', ''idenqa.artefact.selfie_image''],
      df_Evidence =
        [\<lparr>ty_Name = ''idenqa.evidence.document_image'',
          ty_Artefacts = [''idenqa.artefact.document_front'', ''idenqa.artefact.document_back'']\<rparr>,
         \<lparr>ty_Name = ''idenqa.evidence.selfie_image'', ty_Artefacts = [''idenqa.artefact.selfie_image'']\<rparr>],
      df_Methods =
        [\<lparr>am_Name = ''idenqa.method.file_upload'', am_Supports =
            [\<lparr>ms_EvidenceType = ''idenqa.evidence.document_image'',
              ms_Artefacts = [''idenqa.artefact.document_front'', ''idenqa.artefact.document_back''], ms_Assurances = []\<rparr>,
             \<lparr>ms_EvidenceType = ''idenqa.evidence.selfie_image'', ms_Artefacts = [''idenqa.artefact.selfie_image''],
              ms_Assurances = []\<rparr>]\<rparr>,
         \<lparr>am_Name = ''idenqa.method.live_camera'', am_Supports =
            [\<lparr>ms_EvidenceType = ''idenqa.evidence.document_image'',
              ms_Artefacts = [''idenqa.artefact.document_front'', ''idenqa.artefact.document_back''],
              ms_Assurances = [''idenqa.assurance.freshness'', ''idenqa.assurance.live_capture'',
                ''idenqa.assurance.capture_integrity'']\<rparr>,
             \<lparr>ms_EvidenceType = ''idenqa.evidence.selfie_image'', ms_Artefacts = [''idenqa.artefact.selfie_image''],
              ms_Assurances = [''idenqa.assurance.freshness'', ''idenqa.assurance.live_capture'',
                ''idenqa.assurance.capture_integrity'']\<rparr>]\<rparr>],
      df_Purposes = [''idenqa.purpose.identity_verification''],
      df_Assurances =
        [''idenqa.assurance.freshness'', ''idenqa.assurance.live_capture'', ''idenqa.assurance.capture_integrity'',
         ''idenqa.assurance.passive_liveness'', ''idenqa.assurance.active_liveness''],
      df_Constraints =
        [\<lparr>cd_Name = ''idenqa.constraint.allowed_countries'', cd_ValueKind = ValueStringList,
          cd_AppliesTo = [''idenqa.evidence.document_image'']\<rparr>,
         \<lparr>cd_Name = ''idenqa.constraint.allowed_media_types'', cd_ValueKind = ValueStringList, cd_AppliesTo = []\<rparr>,
         \<lparr>cd_Name = ''idenqa.constraint.maximum_bytes'', cd_ValueKind = ValueInteger, cd_AppliesTo = []\<rparr>]\<rparr>"

definition panAfricanAssurances :: "string list" where
  "panAfricanAssurances =
     [''idenqa.assurance.face_match_1to1'', ''idenqa.assurance.document_authenticity'',
      ''idenqa.assurance.capture_quality'', ''idenqa.assurance.mrz_parsed'', ''idenqa.assurance.barcode_parsed'']"

definition BuiltInRegistry :: "(nat \<times> Definitions \<Rightarrow> string option) \<Rightarrow> registry_error + evidence_registry" where
  "BuiltInRegistry digest = NewRegistry digest 1 builtInDefinitions"

definition PanAfricanRegistry :: "(nat \<times> Definitions \<Rightarrow> string option) \<Rightarrow> registry_error + evidence_registry" where
  "PanAfricanRegistry digest =
     NewRegistry digest 2 (builtInDefinitions\<lparr>df_Assurances := df_Assurances builtInDefinitions @ panAfricanAssurances\<rparr>)"

definition FraudRegistry :: "(nat \<times> Definitions \<Rightarrow> string option) \<Rightarrow> registry_error + evidence_registry" where
  "FraudRegistry digest =
     NewRegistry digest 3 (builtInDefinitions
       \<lparr>df_Assurances := df_Assurances builtInDefinitions @ panAfricanAssurances,
        df_Purposes := df_Purposes builtInDefinitions @ [''idenqa.purpose.fraud_prevention'']\<rparr>)"

definition BuiltInCatalog :: "(nat \<times> Definitions \<Rightarrow> string option) \<Rightarrow> registry_error + Catalog" where
  "BuiltInCatalog digest =
     and_then (BuiltInRegistry digest) (\<lambda>a.
     and_then (PanAfricanRegistry digest) (\<lambda>b.
     and_then (FraudRegistry digest) (\<lambda>c. NewCatalog [a, b, c])))"


section \<open>What a registry accepts\<close>

text \<open>The conditions of \<^verbatim>\<open>NewRegistry\<close> without its loops, and the values it stores.\<close>

abbreviation name_ok :: "Kind \<Rightarrow> string \<Rightarrow> bool" where
  "name_ok kind n \<equiv> \<not> isl (ParseName kind n)"

definition names_within :: "Kind \<Rightarrow> string list \<Rightarrow> string set \<Rightarrow> bool" where
  "names_within kind ns allowed \<longleftrightarrow> (\<forall>n \<in> set ns. name_ok kind n) \<and> set ns \<subseteq> allowed \<and> distinct ns"

definition norm_type :: "evidence_type \<Rightarrow> evidence_type" where
  "norm_type t = t\<lparr>ty_Artefacts := sort (ty_Artefacts t)\<rparr>"

definition norm_support :: "MethodSupport \<Rightarrow> MethodSupport" where
  "norm_support s = s\<lparr>ms_Artefacts := sort (ms_Artefacts s), ms_Assurances := sort (ms_Assurances s)\<rparr>"

definition norm_method :: "AcquisitionMethod \<Rightarrow> AcquisitionMethod" where
  "norm_method m = m\<lparr>am_Supports := map norm_support (am_Supports m)\<rparr>"

definition norm_constraint :: "ConstraintDefinition \<Rightarrow> ConstraintDefinition" where
  "norm_constraint c = c\<lparr>cd_AppliesTo := sort (cd_AppliesTo c)\<rparr>"

definition type_ok :: "string set \<Rightarrow> evidence_type \<Rightarrow> bool" where
  "type_ok artefacts t \<longleftrightarrow> name_ok KindEvidence (ty_Name t) \<and> names_within KindArtefact (ty_Artefacts t) artefacts
     \<and> ty_Artefacts t \<noteq> []"

definition support_ok :: "evidence_type set \<Rightarrow> string set \<Rightarrow> MethodSupport \<Rightarrow> bool" where
  "support_ok types assurances s \<longleftrightarrow>
     (\<exists>t \<in> types. ty_Name t = ms_EvidenceType s \<and> names_within KindArtefact (ms_Artefacts s) (set (ty_Artefacts t)))
     \<and> ms_Artefacts s \<noteq> [] \<and> names_within KindAssurance (ms_Assurances s) assurances"

definition method_ok :: "evidence_type set \<Rightarrow> string set \<Rightarrow> AcquisitionMethod \<Rightarrow> bool" where
  "method_ok types assurances m \<longleftrightarrow> name_ok KindMethod (am_Name m) \<and> am_Supports m \<noteq> []
     \<and> distinct (map ms_EvidenceType (am_Supports m)) \<and> (\<forall>s \<in> set (am_Supports m). support_ok types assurances s)"

definition constraint_ok :: "string set \<Rightarrow> ConstraintDefinition \<Rightarrow> bool" where
  "constraint_ok types c \<longleftrightarrow> name_ok KindConstraint (cd_Name c) \<and> value_kind_valid (cd_ValueKind c)
     \<and> names_within KindEvidence (cd_AppliesTo c) types"

definition definitions_ok :: "Definitions \<Rightarrow> bool" where
  "definitions_ok d \<longleftrightarrow>
     (\<forall>n \<in> set (df_Artefacts d). name_ok KindArtefact n) \<and> distinct (df_Artefacts d)
     \<and> (\<forall>n \<in> set (df_Purposes d). name_ok KindPurpose n) \<and> distinct (df_Purposes d)
     \<and> (\<forall>n \<in> set (df_Assurances d). name_ok KindAssurance n) \<and> distinct (df_Assurances d)
     \<and> (\<forall>t \<in> set (df_Evidence d). type_ok (set (df_Artefacts d)) t) \<and> distinct (map ty_Name (df_Evidence d))
     \<and> (\<forall>m \<in> set (df_Methods d). method_ok (set (df_Evidence d)) (set (df_Assurances d)) m)
     \<and> distinct (map am_Name (df_Methods d))
     \<and> (\<forall>c \<in> set (df_Constraints d). constraint_ok (ty_Name ` set (df_Evidence d)) c)
     \<and> distinct (map cd_Name (df_Constraints d))"

definition norm_definitions :: "Definitions \<Rightarrow> Definitions" where
  "norm_definitions d = d\<lparr>df_Evidence := map norm_type (df_Evidence d), df_Methods := map norm_method (df_Methods d),
     df_Constraints := map norm_constraint (df_Constraints d)\<rparr>"

lemma parse_ok [simp]: "ParseName kind n = Inr v \<longleftrightarrow> name_ok kind n \<and> v = n"
  by (auto simp: ParseName_def guard_def Let_def)

lemma add_names_iff:
  "add_names kind acc ns = Inr out \<longleftrightarrow>
     (\<forall>n \<in> set ns. name_ok kind n) \<and> distinct ns \<and> set ns \<inter> set acc = {} \<and> out = acc @ ns"
  by (induction ns arbitrary: acc) (auto simp: chain_iff)

lemma validated_loop_iff:
  "validated_loop kind allowed seen ns = None \<longleftrightarrow> names_within kind ns (set allowed) \<and> set ns \<inter> set seen = {}"
  by (induction ns arbitrary: seen) (auto simp: names_within_def split: sum.splits)

lemma validatedNames_iff:
  "validatedNames kind ns allowed = Inr out \<longleftrightarrow> names_within kind ns (set allowed) \<and> out = sort ns"
  using validated_loop_iff [of kind allowed "[]" ns] by (auto simp: validatedNames_def split: option.splits)

lemma add_types_iff:
  "add_types artefacts acc ts = Inr out \<longleftrightarrow>
     (\<forall>t \<in> set ts. type_ok (set artefacts) t) \<and> distinct (map ty_Name ts)
     \<and> ty_Name ` set ts \<inter> ty_Name ` set acc = {} \<and> out = acc @ map norm_type ts"
  by (induction ts arbitrary: acc)
    (auto simp: chain_iff validatedNames_iff type_ok_def norm_type_def)

lemma find_type_iff:
  "distinct (map ty_Name ts) \<Longrightarrow> find_type name ts = Some t \<longleftrightarrow> t \<in> set ts \<and> ty_Name t = name"
  unfolding find_type_def by (induction ts) (auto simp: image_iff)

lemma add_supports_iff:
  assumes "distinct (map ty_Name types)"
  shows "add_supports types assurances seen ss = Inr out \<longleftrightarrow>
     (\<forall>s \<in> set ss. support_ok (set types) (set assurances) s) \<and> distinct (map ms_EvidenceType ss)
     \<and> ms_EvidenceType ` set ss \<inter> set seen = {} \<and> out = map norm_support ss"
proof (induction ss arbitrary: seen out)
  case (Cons s ss)
  show ?case
  proof (cases "find_type (ms_EvidenceType s) types")
    case None
    then have "\<not> support_ok (set types) (set assurances) s"
      by (auto simp: support_ok_def find_type_def find_None_iff)
    then show ?thesis using None by simp
  next
    case (Some t)
    then have t: "t \<in> set types" "ty_Name t = ms_EvidenceType s" by (simp_all add: find_type_iff [OF assms])
    have "u = t" if "u \<in> set types" "ty_Name u = ms_EvidenceType s" for u
      using that Some find_type_iff [OF assms, of "ms_EvidenceType s" u] by simp
    with t have "support_ok (set types) (set assurances) s \<longleftrightarrow>
        names_within KindArtefact (ms_Artefacts s) (set (ty_Artefacts t)) \<and> ms_Artefacts s \<noteq> []
        \<and> names_within KindAssurance (ms_Assurances s) (set assurances)"
      unfolding support_ok_def by metis
    then show ?thesis
      using Some by (auto simp: chain_iff validatedNames_iff Cons.IH norm_support_def)
  qed
qed auto

lemma add_methods_iff:
  assumes "distinct (map ty_Name types)"
  shows "add_methods types assurances acc ms = Inr out \<longleftrightarrow>
     (\<forall>m \<in> set ms. method_ok (set types) (set assurances) m) \<and> distinct (map am_Name ms)
     \<and> am_Name ` set ms \<inter> am_Name ` set acc = {} \<and> out = acc @ map norm_method ms"
  by (induction ms arbitrary: acc)
    (auto simp: chain_iff add_supports_iff [OF assms] method_ok_def norm_method_def)

lemma add_constraints_iff:
  "add_constraints types acc cs = Inr out \<longleftrightarrow>
     (\<forall>c \<in> set cs. constraint_ok (set types) c) \<and> distinct (map cd_Name cs)
     \<and> cd_Name ` set cs \<inter> cd_Name ` set acc = {} \<and> out = acc @ map norm_constraint cs"
  by (induction cs arbitrary: acc)
    (auto simp: chain_iff validatedNames_iff constraint_ok_def norm_constraint_def)

lemma norm_type_simps [simp]:
  "ty_Name (norm_type t) = ty_Name t" "set (ty_Artefacts (norm_type t)) = set (ty_Artefacts t)"
  by (simp_all add: norm_type_def)

lemma norm_names [simp]:
  "am_Name (norm_method m) = am_Name m" "cd_Name (norm_constraint c) = cd_Name c"
  "ms_EvidenceType (norm_support s) = ms_EvidenceType s" "map ty_Name (map norm_type ts) = map ty_Name ts"
  by (simp_all add: norm_method_def norm_constraint_def norm_support_def)

lemma support_ok_norm: "support_ok (norm_type ` types) = support_ok types"
  by (rule ext, rule ext) (auto simp: support_ok_def)

lemma validated_definitions_iff:
  "validated_definitions d = Inr v \<longleftrightarrow> definitions_ok d \<and> v = norm_definitions d"
proof -
  have "distinct (map ty_Name (map norm_type (df_Evidence d))) = distinct (map ty_Name (df_Evidence d))"
    by (simp only: norm_names)
  then show ?thesis
    by (auto simp: validated_definitions_def chain_iff add_names_iff add_types_iff add_methods_iff add_constraints_iff
        definitions_ok_def norm_definitions_def method_ok_def support_ok_norm image_image simp del: map_map)
qed


lemma NewRegistry_iff:
  "NewRegistry digest revision d = Inr r \<longleftrightarrow> revision \<noteq> 0 \<and> definitions_ok d \<and>
     (\<exists>hash. digest (canonicalDefinitions revision (norm_definitions d)) = Some hash
       \<and> r = Definitions.extend (norm_definitions d) \<lparr>rg_revision = revision, rg_digest = hash\<rparr>)"
  by (auto simp: NewRegistry_def chain_iff validated_definitions_iff split: option.splits)

section \<open>The order of definitions does not matter\<close>

definition canon_method :: "AcquisitionMethod \<Rightarrow> AcquisitionMethod" where
  "canon_method m = (norm_method m)\<lparr>am_Supports := sort_key ms_EvidenceType (am_Supports (norm_method m))\<rparr>"

definition same_content :: "Definitions \<Rightarrow> Definitions \<Rightarrow> bool" where
  "same_content d e \<longleftrightarrow>
     mset (df_Artefacts d) = mset (df_Artefacts e) \<and> mset (df_Purposes d) = mset (df_Purposes e)
     \<and> mset (df_Assurances d) = mset (df_Assurances e)
     \<and> mset (map norm_type (df_Evidence d)) = mset (map norm_type (df_Evidence e))
     \<and> mset (map canon_method (df_Methods d)) = mset (map canon_method (df_Methods e))
     \<and> mset (map norm_constraint (df_Constraints d)) = mset (map norm_constraint (df_Constraints e))"

lemma names_within_sort [simp]: "names_within kind (sort ns) allowed = names_within kind ns allowed"
  by (simp add: names_within_def)

lemma type_ok_norm: "type_ok artefacts (norm_type t) = type_ok artefacts t"
  by (simp add: type_ok_def norm_type_def)

lemma support_ok_norm_support: "support_ok types assurances (norm_support s) = support_ok types assurances s"
  by (simp add: support_ok_def norm_support_def)

lemma map_norm_support [simp]: "map ms_EvidenceType (map norm_support ss) = map ms_EvidenceType ss"
  by simp

lemma method_ok_canon: "method_ok types assurances (canon_method m) = method_ok types assurances m"
  by (simp add: method_ok_def canon_method_def norm_method_def support_ok_norm_support distinct_map_sort_key
      del: map_map)

lemma constraint_ok_norm: "constraint_ok types (norm_constraint c) = constraint_ok types c"
  by (simp add: constraint_ok_def norm_constraint_def)

lemma map_names_mset:
  assumes "mset (map f xs) = mset (map f ys)" and "\<And>x. name (f x) = name x"
  shows "distinct (map name xs) = distinct (map name ys)" and "name ` set xs = name ` set ys"
proof -
  have "mset (map name (map f xs)) = mset (map name (map f ys))"
    using assms(1) by (metis mset_map)
  then have *: "mset (map name xs) = mset (map name ys)"
    using assms(2) by (simp add: comp_def)
  then show "distinct (map name xs) = distinct (map name ys)"
    by (rule mset_eq_imp_distinct_iff)
  from * show "name ` set xs = name ` set ys"
    by (metis list.set_map set_mset_mset)
qed

lemma ball_norm_mset:
  assumes "mset (map f xs) = mset (map f ys)" and "\<And>x. P (f x) = P x"
  shows "(\<forall>x \<in> set xs. P x) = (\<forall>y \<in> set ys. P y)"
proof -
  have "f ` set xs = f ` set ys"
    using assms(1) by (metis list.set_map set_mset_mset)
  then show ?thesis using assms(2) by (metis imageE imageI)
qed

lemma method_ok_types: "norm_type ` types = norm_type ` types' \<Longrightarrow> method_ok types = method_ok types'"
  by (rule ext, rule ext) (metis method_ok_def support_ok_norm)

lemma canon_method_name [simp]: "am_Name (canon_method m) = am_Name m"
  by (simp add: canon_method_def)

lemma same_content_ok:
  assumes "same_content d e"
  shows "definitions_ok d = definitions_ok e"
proof -
  note s = assms [unfolded same_content_def]
  have sets: "set (df_Artefacts d) = set (df_Artefacts e)" "set (df_Purposes d) = set (df_Purposes e)"
    "set (df_Assurances d) = set (df_Assurances e)"
    using s by (metis set_mset_mset)+
  have dist: "distinct (df_Artefacts d) = distinct (df_Artefacts e)" "distinct (df_Purposes d) = distinct (df_Purposes e)"
    "distinct (df_Assurances d) = distinct (df_Assurances e)"
    using s by (metis mset_eq_imp_distinct_iff)+
  have types: "norm_type ` set (df_Evidence d) = norm_type ` set (df_Evidence e)"
    using s by (metis list.set_map set_mset_mset)
  note t = map_names_mset [where name = ty_Name and f = norm_type, OF _ norm_type_simps(1)]
  note m = map_names_mset [where name = am_Name and f = canon_method, OF _ canon_method_name]
  note c = map_names_mset [where name = cd_Name and f = norm_constraint, OF _ norm_names(2)]
  have "(\<forall>t \<in> set (df_Evidence d). type_ok (set (df_Artefacts d)) t) =
      (\<forall>t \<in> set (df_Evidence e). type_ok (set (df_Artefacts e)) t)"
    unfolding sets by (rule ball_norm_mset [where f = norm_type]) (use s type_ok_norm in auto)
  moreover have "(\<forall>m \<in> set (df_Methods d). method_ok (set (df_Evidence d)) (set (df_Assurances d)) m) =
      (\<forall>m \<in> set (df_Methods e). method_ok (set (df_Evidence e)) (set (df_Assurances e)) m)"
    unfolding sets method_ok_types [OF types]
    by (rule ball_norm_mset [where f = canon_method]) (use s method_ok_canon in auto)
  moreover have "(\<forall>c \<in> set (df_Constraints d). constraint_ok (ty_Name ` set (df_Evidence d)) c) =
      (\<forall>c \<in> set (df_Constraints e). constraint_ok (ty_Name ` set (df_Evidence e)) c)"
    unfolding t(2) [of "df_Evidence d" "df_Evidence e", OF conjunct1 [OF conjunct2 [OF conjunct2 [OF conjunct2 [OF s]]]]]
    by (rule ball_norm_mset [where f = norm_constraint]) (use s constraint_ok_norm in auto)
  ultimately show ?thesis
    using s by (simp add: definitions_ok_def sets dist t(1) [of "df_Evidence d" "df_Evidence e"]
        m(1) [of "df_Methods d" "df_Methods e"] c(1) [of "df_Constraints d" "df_Constraints e"])
qed

lemma canonical_methods:
  "map (\<lambda>m. m\<lparr>am_Supports := sort_key ms_EvidenceType (am_Supports m)\<rparr>) (map norm_method ms) = map canon_method ms"
  by (simp add: canon_method_def)

lemma same_content_document:
  assumes "same_content d e" and "definitions_ok d"
  shows "canonicalDefinitions revision (norm_definitions d) = canonicalDefinitions revision (norm_definitions e)"
proof -
  note s = assms(1) [unfolded same_content_def]
  have *: "distinct (map ty_Name (map norm_type (df_Evidence d)))" "distinct (map am_Name (map canon_method (df_Methods d)))"
    "distinct (map cd_Name (map norm_constraint (df_Constraints d)))"
    using assms(2) by (simp_all add: definitions_ok_def comp_def)
  have "sort_key ty_Name (map norm_type (df_Evidence d)) = sort_key ty_Name (map norm_type (df_Evidence e))"
    "sort_key am_Name (map canon_method (df_Methods d)) = sort_key am_Name (map canon_method (df_Methods e))"
    "sort_key cd_Name (map norm_constraint (df_Constraints d)) = sort_key cd_Name (map norm_constraint (df_Constraints e))"
    using s * by (auto intro!: sort_key_distinct_unique simp del: mset_map)
  moreover have "sort (df_Artefacts d) = sort (df_Artefacts e)" "sort (df_Purposes d) = sort (df_Purposes e)"
    "sort (df_Assurances d) = sort (df_Assurances e)"
    using s by (auto intro: sort_perm)
  ultimately show ?thesis
    by (simp add: canonicalDefinitions_def norm_definitions_def canonical_methods del: map_map)
qed


section \<open>The deployed revisions\<close>

definition sample_digest :: "nat \<times> Definitions \<Rightarrow> string option" where
  "sample_digest = (\<lambda>(revision, d). Some (''sha256:'' @ FormatUint revision))"

lemma sample_digest_some: "\<exists>hash. sample_digest x = Some hash \<and> hash \<noteq> []"
  by (cases x) (simp add: sample_digest_def)

lemma builtin_ok: "definitions_ok builtInDefinitions"
  by code_simp

lemma panAfrican_ok:
  "definitions_ok (builtInDefinitions\<lparr>df_Assurances := df_Assurances builtInDefinitions @ panAfricanAssurances\<rparr>)"
  by code_simp

lemma fraud_ok:
  "definitions_ok (builtInDefinitions
     \<lparr>df_Assurances := df_Assurances builtInDefinitions @ panAfricanAssurances,
      df_Purposes := df_Purposes builtInDefinitions @ [''idenqa.purpose.fraud_prevention'']\<rparr>)"
  by code_simp


lemma NewRegistry_content:
  assumes "NewRegistry digest revision d = Inr r"
  shows "rg_revision r = revision \<and> (\<exists>x. digest x = Some (rg_digest r)) \<and> df_Methods r = map norm_method (df_Methods d)"
proof -
  obtain hash where "digest (canonicalDefinitions revision (norm_definitions d)) = Some hash"
      "r = Definitions.extend (norm_definitions d) \<lparr>rg_revision = revision, rg_digest = hash\<rparr>"
    using assms by (auto simp: NewRegistry_iff)
  moreover from this have "rg_digest r = hash" "rg_revision r = revision"
      "df_Methods r = map norm_method (df_Methods d)"
    by (simp_all add: Definitions.defs norm_definitions_def)
  ultimately show ?thesis by (intro conjI exI) simp_all
qed

lemma NewRegistry_accepts: "revision \<noteq> 0 \<Longrightarrow> definitions_ok d \<Longrightarrow> digest (canonicalDefinitions revision (norm_definitions d)) \<noteq> None \<Longrightarrow>
  \<exists>r. NewRegistry digest revision d = Inr r"
  by (auto simp: NewRegistry_iff)

lemma deployed_content:
  "BuiltInRegistry digest = Inr r \<Longrightarrow> rg_revision r = 1 \<and> (\<exists>x. digest x = Some (rg_digest r))
     \<and> df_Methods r = map norm_method (df_Methods builtInDefinitions)"
  "PanAfricanRegistry digest = Inr r \<Longrightarrow> rg_revision r = 2 \<and> (\<exists>x. digest x = Some (rg_digest r))
     \<and> df_Methods r = map norm_method (df_Methods builtInDefinitions)"
  "FraudRegistry digest = Inr r \<Longrightarrow> rg_revision r = 3 \<and> (\<exists>x. digest x = Some (rg_digest r))
     \<and> df_Methods r = map norm_method (df_Methods builtInDefinitions)"
  unfolding BuiltInRegistry_def PanAfricanRegistry_def FraudRegistry_def by (drule NewRegistry_content, simp)+

lemma validateAcquisition_assurances:
  assumes "validateAcquisition r evidenceType artefact method assurances = Some validated" and "a \<in> set assurances"
  shows "\<exists>m \<in> set (df_Methods r). \<exists>s \<in> set (am_Supports m). am_Name m = method \<and> a \<in> set (ms_Assurances s)"
  using assms
  by (auto simp: validateAcquisition_def registry_Method_def Let_def list_all_iff find_Some_iff split: option.splits if_splits)
    (metis nth_mem)

lemma builtin_supports:
  "\<forall>m \<in> set (map norm_method (df_Methods builtInDefinitions)). \<forall>s \<in> set (am_Supports m).
     ''idenqa.assurance.passive_liveness'' \<notin> set (ms_Assurances s) \<and> ''idenqa.assurance.active_liveness'' \<notin> set (ms_Assurances s)"
  by code_simp

section \<open>Properties\<close>

text \<open>
  A registry reference pins content, not spelling: definitions that differ only in the order
  of their lists (names, evidence types, methods, constraints and the lists inside them) are
  accepted alike and get the same reference, so the digest a profile pins does not depend on how
  the revision was written down.
\<close>

theorem registry_reference_order_free:
  assumes "NewRegistry digest revision d = Inr r" and "same_content d e"
  shows "\<exists>q. NewRegistry digest revision e = Inr q \<and> registry_Reference q = registry_Reference r"
  using assms same_content_ok [OF assms(2)] same_content_document [OF assms(2), of revision]
  by (auto simp: NewRegistry_iff registry_Reference_def Definitions.defs)

theorem registry_reference_order_free_witness:
  "\<exists>r q. NewRegistry sample_digest 1 builtInDefinitions = Inr r
     \<and> NewRegistry sample_digest 1 (builtInDefinitions\<lparr>df_Artefacts := rev (df_Artefacts builtInDefinitions)\<rparr>) = Inr q
     \<and> registry_Reference q = registry_Reference r"
proof -
  obtain r where r: "NewRegistry sample_digest 1 builtInDefinitions = Inr r"
    using NewRegistry_accepts [OF _ builtin_ok, of 1 sample_digest] sample_digest_some
    by (metis option.distinct(1) zero_neq_one)
  have "same_content builtInDefinitions (builtInDefinitions\<lparr>df_Artefacts := rev (df_Artefacts builtInDefinitions)\<rparr>)"
    by (simp add: same_content_def)
  from registry_reference_order_free [OF r this] r show ?thesis by blast
qed

text \<open>
  The deployed catalogue: whenever documents can be encoded, all three built-in revisions are
  accepted, each is found under its own reference and no other, and none of them lets an
  acquisition claim passive or active liveness, which no still-image method establishes.
\<close>

theorem builtin_catalogue:
  assumes "\<And>x. \<exists>hash. digest x = Some hash \<and> hash \<noteq> []"
  shows "\<exists>c. BuiltInCatalog digest = Inr c \<and> map (\<lambda>(ref, r). rf_Revision ref) c = [1, 2, 3]
    \<and> (\<forall>(ref, r) \<in> set c. registry_Reference r = ref \<and> catalog_Resolve c ref = Inr r
        \<and> (\<forall>evidenceType artefact method assurances.
             ''idenqa.assurance.passive_liveness'' \<in> set assurances \<or> ''idenqa.assurance.active_liveness'' \<in> set assurances \<longrightarrow>
             validateAcquisition r evidenceType artefact method assurances = None))"
proof -
  have some: "\<exists>y. digest x = Some y" for x using assms by blast
  have "\<exists>a. BuiltInRegistry digest = Inr a" "\<exists>b. PanAfricanRegistry digest = Inr b" "\<exists>c. FraudRegistry digest = Inr c"
    unfolding BuiltInRegistry_def PanAfricanRegistry_def FraudRegistry_def
    by (rule NewRegistry_accepts; simp add: builtin_ok panAfrican_ok fraud_ok some)+
  then obtain a b c where abc: "BuiltInRegistry digest = Inr a" "PanAfricanRegistry digest = Inr b" "FraudRegistry digest = Inr c"
    by blast
  have rev: "rg_revision a = 1" "rg_revision b = 2" "rg_revision c = 3"
    using abc deployed_content by auto
  have hash: "rg_digest a \<noteq> []" "rg_digest b \<noteq> []" "rg_digest c \<noteq> []"
    using abc deployed_content assms by (metis option.inject)+
  have live: "validateAcquisition r evidenceType artefact acquisition assurances = None"
    if "r \<in> {a, b, c}" "''idenqa.assurance.passive_liveness'' \<in> set assurances \<or> ''idenqa.assurance.active_liveness'' \<in> set assurances"
    for r evidenceType artefact acquisition assurances
  proof -
    have "df_Methods r = map norm_method (df_Methods builtInDefinitions)"
      using that(1) abc deployed_content by auto
    then have no: "''idenqa.assurance.passive_liveness'' \<notin> set (ms_Assurances s) \<and> ''idenqa.assurance.active_liveness'' \<notin> set (ms_Assurances s)"
      if "m \<in> set (df_Methods r)" "s \<in> set (am_Supports m)" for m s
      using that builtin_supports by metis
    have "False" if "validateAcquisition r evidenceType artefact acquisition assurances = Some validated" for validated
      using that(1) \<open>_ \<or> _\<close> validateAcquisition_assurances [OF that] no by blast
    then show ?thesis by (cases "validateAcquisition r evidenceType artefact acquisition assurances") blast+
  qed
  let ?c = "map (\<lambda>r. (registry_Reference r, r)) [a, b, c]"
  have "BuiltInCatalog digest = Inr ?c"
    using rev hash by (simp add: BuiltInCatalog_def abc NewCatalog_def registry_Reference_def RegistrySchemaVersion_def)
  moreover have "map (\<lambda>(ref, r). rf_Revision ref) ?c = [1, 2, 3]"
    by (simp add: registry_Reference_def rev)
  moreover have "catalog_Resolve ?c (registry_Reference r) = Inr r" if "r \<in> {a, b, c}" for r
    using that rev by (auto simp: catalog_Resolve_def registry_Reference_def)
  ultimately show ?thesis
    using live by (intro exI [of _ ?c]) auto
qed

theorem builtin_catalogue_witness:
  "\<exists>c. BuiltInCatalog sample_digest = Inr c \<and> map (\<lambda>(ref, r). rf_Revision ref) c = [1, 2, 3]"
  using builtin_catalogue [of sample_digest, OF sample_digest_some] by (elim exE conjE, intro exI conjI)

end
