(* ===== verification/Protected_Content.thy ===== *)
theory Protected_Content
  imports Evidence_Registry Aggregate_Contracts
begin

text \<open>
  Protected evidence content: wrapped keys (\<^verbatim>\<open>internal/platform/kms/kms.go\<close>), digests, contexts and
  envelopes (\<^verbatim>\<open>internal/platform/crypto/crypto.go\<close>), object references
  (\<^verbatim>\<open>internal/platform/objectstore/objectstore.go\<close>), content and the evidence asset
  (\<^verbatim>\<open>internal/evidence/content.go\<close>, \<^verbatim>\<open>asset.go\<close>).

  The environment \<open>evidence_env\<close> holds SHA-256, \<^verbatim>\<open>json.Marshal\<close> of the encryption context and the
  media type that \<^verbatim>\<open>mime.ParseMediaType\<close> finds. Errors without a sentinel are \<open>EvidenceInvalid\<close>.
\<close>

datatype (plugins only: size code) evidence_error =
    EvidenceInvalid | EvidenceNotFound | EvidenceConflict | EvidenceVersionConflict | ReadDenied
  | GrantDenied | GrantConflict | ContentIntegrity | QuarantineIncomplete | EvidenceUnavailable
  | UploadNotFound | UploadConflict | UploadVersionConflict | UploadExpired | UploadMetadata
  | UploadBodyLength | UploadBodyDigest | UploadSignature | UploadBodyIncomplete

section \<open>Labels\<close>

text \<open>\<^verbatim>\<open>^[a-z][a-z0-9]*(?:[._-][a-z0-9]+)+$\<close>: \<open>sep\<close> just after a separator, \<open>seen\<close> once there was one.\<close>

fun class_tail :: "bool \<Rightarrow> bool \<Rightarrow> string \<Rightarrow> bool" where
  "class_tail sep seen [] = (seen \<and> \<not> sep)"
| "class_tail sep seen (c # cs) =
     (if c \<in> set ''._-'' then \<not> sep \<and> class_tail True True cs
      else (is_lower c \<or> is_digit c) \<and> class_tail False seen cs)"

fun classificationExpression :: "string \<Rightarrow> bool" where
  "classificationExpression [] = False"
| "classificationExpression (c # cs) = (is_lower c \<and> class_tail False False cs)"

definition maxClassificationLength :: nat where
  "maxClassificationLength = 200"

definition validClassification :: "string \<Rightarrow> bool" where
  "validClassification v \<longleftrightarrow> \<not> surrounding_space v \<and> v \<noteq> [] \<and> length v \<le> maxClassificationLength
     \<and> classificationExpression v"

fun validRequirementKey :: "string \<Rightarrow> bool" where
  "validRequirementKey [] = False"
| "validRequirementKey (c # cs) = (length (c # cs) \<le> 64 \<and> is_lower c \<and>
     list_all (\<lambda>d. is_lower d \<or> is_digit d \<or> d = CHR ''_'') cs)"

definition validGrantLabel :: "string \<Rightarrow> bool" where
  "validGrantLabel v \<longleftrightarrow> \<not> surrounding_space v \<and> v \<noteq> [] \<and> length v \<le> 512
     \<and> list_all (\<lambda>r. \<not> rune_IsSpace r \<and> \<not> IsControl r) (string_runes v)"

definition validAuditReason :: "string \<Rightarrow> bool" where
  "validAuditReason v \<longleftrightarrow> \<not> surrounding_space v \<and> v \<noteq> [] \<and> length v \<le> 500
     \<and> list_all (\<lambda>r. \<not> IsControl r) (string_runes v)"

section \<open>Wrapped keys\<close>

record WrappedKey =
  wk_Provider :: string
  wk_Reference :: string
  wk_Version :: string
  wk_Algorithm :: string
  wk_Ciphertext :: string

definition wrapped_IsZero :: "WrappedKey \<Rightarrow> bool" where
  "wrapped_IsZero k \<longleftrightarrow> wk_Ciphertext k = []"

definition maxWrappedKeyLength :: nat where
  "maxWrappedKeyLength = 64 * 1024"

text \<open>\<^verbatim>\<open>validLabel\<close> of \<^verbatim>\<open>kms.go\<close>: every rune below 0x21 and 0x7f is a byte of its own.\<close>

definition kms_validLabel :: "string \<Rightarrow> bool" where
  "kms_validLabel v \<longleftrightarrow> \<not> surrounding_space v \<and> v \<noteq> [] \<and> length v \<le> 512
     \<and> list_all (\<lambda>c. (0x21 :: nat) \<le> of_char c \<and> of_char c \<noteq> (0x7F :: nat)) v"

fun kms_validName :: "nat \<Rightarrow> string \<Rightarrow> bool" where
  "kms_validName limit [] = False"
| "kms_validName limit (c # cs) =
     (length (c # cs) \<le> limit \<and> is_lower c
      \<and> list_all (\<lambda>d. d \<in> set ''._-'' \<or> is_lower d \<or> is_digit d) cs \<and> list_ex (\<lambda>d. d \<in> set ''._-'') cs)"

definition NewPurpose :: "string \<Rightarrow> evidence_error + string" where
  "NewPurpose v = guard (kms_validName 200 v) EvidenceInvalid (Inr v)"

definition NewWrappedKey :: "WrappedKey \<Rightarrow> evidence_error + WrappedKey" where
  "NewWrappedKey k =
     guard (kms_validLabel (wk_Provider k) \<and> kms_validLabel (wk_Reference k) \<and> kms_validLabel (wk_Version k)
            \<and> kms_validLabel (wk_Algorithm k)) EvidenceInvalid
       (guard (wk_Ciphertext k \<noteq> [] \<and> length (wk_Ciphertext k) \<le> maxWrappedKeyLength) EvidenceInvalid (Inr k))"

section \<open>Digests, contexts and envelopes\<close>

definition NewDigest :: "string \<Rightarrow> evidence_error + string" where
  "NewDigest v =
     guard (length v = 7 + 64 \<and> take 7 v = ''sha256:'') EvidenceInvalid
       (case hex_decode (drop 7 v) of
          None \<Rightarrow> Inl EvidenceInvalid
        | Some raw \<Rightarrow> guard (length raw = 32 \<and> hex_encode raw = drop 7 v) EvidenceInvalid (Inr v))"

record crypto_context =
  cx_schemaVersion :: nat
  cx_data :: string
  cx_digest :: string

record evidence_env =
  ee_sha :: "string \<Rightarrow> string"
  ee_json :: "(string \<times> string) list \<times> nat list \<times> Reference \<Rightarrow> string option"
  ee_mime :: "string \<Rightarrow> string option"

definition digest_text :: "string \<Rightarrow> string" where
  "digest_text raw = ''sha256:'' @ hex_encode raw"

definition digest_Sum :: "evidence_env \<Rightarrow> string \<Rightarrow> string" where
  "digest_Sum env v = digest_text (ee_sha env v)"

definition maxContextLength :: nat where
  "maxContextLength = 32 * 1024"

definition NewContext :: "evidence_env \<Rightarrow> nat \<Rightarrow> string \<Rightarrow> evidence_error + crypto_context" where
  "NewContext env schemaVersion bytes =
     guard (schemaVersion \<noteq> 0 \<and> bytes \<noteq> [] \<and> length bytes \<le> maxContextLength) EvidenceInvalid
       (Inr \<lparr>cx_schemaVersion = schemaVersion, cx_data = bytes, cx_digest = digest_Sum env bytes\<rparr>)"

record EnvelopeRecord =
  en_FormatVersion :: nat
  en_ContentAlgorithm :: string
  en_Purpose :: string
  en_WrappedKey :: WrappedKey
  en_ContextSchemaVersion :: nat
  en_ContextDigest :: string

definition crypto_validLabel :: "string \<Rightarrow> bool" where
  "crypto_validLabel v \<longleftrightarrow> v \<noteq> [] \<and> length v \<le> 200 \<and> list_all (\<lambda>c. is_upper c \<or> is_digit c \<or> c \<in> set ''_-.'') v"

definition NewEnvelope :: "EnvelopeRecord \<Rightarrow> evidence_error + EnvelopeRecord" where
  "NewEnvelope e =
     guard (en_FormatVersion e \<noteq> 0 \<and> crypto_validLabel (en_ContentAlgorithm e) \<and> en_ContextSchemaVersion e \<noteq> 0) EvidenceInvalid
       (and_then (NewPurpose (en_Purpose e)) (\<lambda>_.
        and_then (NewDigest (en_ContextDigest e)) (\<lambda>digest.
        and_then (NewWrappedKey (en_WrappedKey e)) (\<lambda>key.
          Inr (e\<lparr>en_ContextDigest := digest, en_WrappedKey := key\<rparr>)))))"

section \<open>Object references\<close>

text \<open>\<^verbatim>\<open>path.Clean\<close>: the segments that remain, last first; \<^verbatim>\<open>..\<close> removes the one before it.\<close>

fun clean_segments :: "bool \<Rightarrow> string list \<Rightarrow> string list \<Rightarrow> string list" where
  "clean_segments rooted stack [] = rev stack"
| "clean_segments rooted stack (p # ps) =
     (if p = [] \<or> p = ''.'' then clean_segments rooted stack ps
      else if p = ''..'' then
        (case stack of
           [] \<Rightarrow> clean_segments rooted (if rooted then [] else [''..'']) ps
         | q # rest \<Rightarrow> clean_segments rooted (if q = ''..'' then p # stack else rest) ps)
      else clean_segments rooted (p # stack) ps)"

definition path_Clean :: "string \<Rightarrow> string" where
  "path_Clean v =
     (let rooted = (v \<noteq> [] \<and> hd v = CHR ''/'');
          cleaned = Join (CHR ''/'') (clean_segments rooted [] (Split (CHR ''/'') v))
      in if rooted then CHR ''/'' # cleaned else if cleaned = [] then ''.'' else cleaned)"

definition object_segment :: "string \<Rightarrow> bool" where
  "object_segment v \<longleftrightarrow> list_all (\<lambda>c. is_lower c \<or> is_upper c \<or> is_digit c \<or> c \<in> set ''_-.'') v"

definition maxKeyLength :: nat where
  "maxKeyLength = 1024"

definition NewKey :: "string \<Rightarrow> evidence_error + string" where
  "NewKey v =
     guard (v \<noteq> [] \<and> length v \<le> maxKeyLength \<and> hd v \<noteq> CHR ''/'' \<and> CHR 0x5C \<notin> set v \<and> path_Clean v = v \<and> v \<noteq> ''.'')
       EvidenceInvalid
       (guard (list_all (\<lambda>p. p \<noteq> [] \<and> p \<noteq> ''..'' \<and> object_segment p) (Split (CHR ''/'') v)) EvidenceInvalid (Inr v))"

record ObjectRecord =
  ob_Key :: string
  ob_Version :: string
  ob_Size :: int
  ob_Checksum :: string

definition object_validVersion :: "string \<Rightarrow> bool" where
  "object_validVersion v \<longleftrightarrow> \<not> surrounding_space v \<and> v \<noteq> [] \<and> length v \<le> 200 \<and> object_segment v \<and> v \<noteq> ''.'' \<and> v \<noteq> ''..''"

definition NewObject :: "ObjectRecord \<Rightarrow> evidence_error + ObjectRecord" where
  "NewObject r =
     and_then (NewKey (ob_Key r)) (\<lambda>key.
       guard (object_validVersion (ob_Version r) \<and> 0 \<le> ob_Size r) EvidenceInvalid
         (and_then (NewDigest (ob_Checksum r)) (\<lambda>checksum. Inr (r\<lparr>ob_Key := key, ob_Checksum := checksum\<rparr>))))"

section \<open>Content\<close>

record ContentRecord =
  co_Object :: ObjectRecord
  co_Envelope :: EnvelopeRecord
  co_PlaintextDigest :: string
  co_MediaType :: string

definition to_lower :: "char \<Rightarrow> char" where
  "to_lower c = (if is_upper c then char_of (of_char c + 32 :: nat) else c)"

definition NewContent :: "evidence_env \<Rightarrow> ContentRecord \<Rightarrow> crypto_context \<Rightarrow> evidence_error + ContentRecord" where
  "NewContent env r cx =
     and_then (NewObject (co_Object r)) (\<lambda>object.
     and_then (NewEnvelope (co_Envelope r)) (\<lambda>envelope.
       guard (en_ContextSchemaVersion envelope = cx_schemaVersion cx \<and> en_ContextDigest envelope = cx_digest cx) EvidenceInvalid
         (and_then (NewDigest (co_PlaintextDigest r)) (\<lambda>digest.
           case ee_mime env (co_MediaType r) of
             None \<Rightarrow> Inl EvidenceInvalid
           | Some mediaType \<Rightarrow>
              guard (mediaType \<noteq> [] \<and> length (co_MediaType r) \<le> 200 \<and> CHR 0x0D \<notin> set (co_MediaType r)
                     \<and> CHR 0x0A \<notin> set (co_MediaType r)) EvidenceInvalid
                (Inr \<lparr>co_Object = object, co_Envelope = envelope, co_PlaintextDigest = digest,
                      co_MediaType = map to_lower mediaType\<rparr>)))))"

section \<open>The evidence asset\<close>

datatype (plugins only: size code) evidence_state = StateAvailable | StateQuarantined | StateDeleted | EvidenceStateOther string

datatype (plugins only: size code) evidence_integrity = IntegrityVerified | IntegrityFailed | IntegrityOther string

record evidence_record =
  ea_ID :: string
  ea_TenantID :: string
  ea_SubjectID :: string
  ea_VerificationID :: string
  ea_RequirementKey :: string
  ea_EvidenceType :: string
  ea_Artefact :: string
  ea_AcquisitionMethod :: string
  ea_Assurances :: "string list"
  ea_Registry :: Reference
  ea_Region :: string
  ea_RetentionClass :: string
  ea_ContentRevision :: nat
  ea_Content :: ContentRecord
  ea_Integrity :: evidence_integrity
  ea_State :: evidence_state
  ea_Version :: int
  ea_CreatedAt :: go_time
  ea_UpdatedAt :: go_time
  ea_QuarantineReason :: string
  ea_QuarantinedAt :: "go_time option"

definition ContentEncryptionPurpose :: string where
  "ContentEncryptionPurpose = ''idenqa.evidence.content''"

definition ContentContextSchemaVersion :: nat where
  "ContentContextSchemaVersion = 1"

definition context_document :: "evidence_record \<Rightarrow> (string \<times> string) list \<times> nat list \<times> Reference" where
  "context_document r =
     ([(''domain'', ContentEncryptionPurpose), (''tenant_id'', ea_TenantID r), (''verification_id'', ea_VerificationID r),
       (''evidence_id'', ea_ID r), (''requirement_key'', ea_RequirementKey r), (''evidence_type'', ea_EvidenceType r),
       (''artefact'', ea_Artefact r), (''acquisition_method'', ea_AcquisitionMethod r),
       (''object_purpose'', ContentEncryptionPurpose)],
      [ContentContextSchemaVersion, ea_ContentRevision r], ea_Registry r)"

definition AuthenticatedContext :: "evidence_env \<Rightarrow> evidence_record \<Rightarrow> evidence_error + crypto_context" where
  "AuthenticatedContext env r =
     guard (ea_ID r \<noteq> [] \<and> ea_TenantID r \<noteq> [] \<and> ea_VerificationID r \<noteq> [] \<and> ea_RequirementKey r \<noteq> [] \<and> ea_EvidenceType r \<noteq> []
            \<and> ea_Artefact r \<noteq> [] \<and> ea_AcquisitionMethod r \<noteq> [] \<and> ea_ContentRevision r \<noteq> 0) EvidenceInvalid
       (case ee_json env (context_document r) of
          None \<Rightarrow> Inl EvidenceInvalid
        | Some encoded \<Rightarrow> NewContext env ContentContextSchemaVersion encoded)"

definition validateLifecycle :: "evidence_record \<Rightarrow> evidence_error option" where
  "validateLifecycle r =
     (let integrity_known = (ea_Integrity r = IntegrityVerified \<or> ea_Integrity r = IntegrityFailed) in
      case ea_State r of
        StateAvailable \<Rightarrow>
          if ea_Integrity r \<noteq> IntegrityVerified \<or> ea_QuarantineReason r \<noteq> [] \<or> ea_QuarantinedAt r \<noteq> None
          then Some EvidenceInvalid else None
      | StateQuarantined \<Rightarrow>
          if \<not> integrity_known \<or> \<not> validClassification (ea_QuarantineReason r)
             \<or> (case ea_QuarantinedAt r of None \<Rightarrow> True | Some t \<Rightarrow> to_UTC t \<noteq> ea_UpdatedAt r)
          then Some EvidenceInvalid else None
      | StateDeleted \<Rightarrow>
          if \<not> integrity_known then Some EvidenceInvalid
          else if (ea_QuarantineReason r = []) \<noteq> (ea_QuarantinedAt r = None) then Some EvidenceInvalid
          else if (case ea_QuarantinedAt r of None \<Rightarrow> False
                   | Some t \<Rightarrow> \<not> validClassification (ea_QuarantineReason r) \<or> After t (ea_UpdatedAt r))
          then Some EvidenceInvalid else None
      | EvidenceStateOther _ \<Rightarrow> Some EvidenceInvalid)"

definition restoreAsset :: "evidence_env \<Rightarrow> evidence_registry \<Rightarrow> evidence_record \<Rightarrow> evidence_error + evidence_record" where
  "restoreAsset env registry r0 =
     (let r = r0\<lparr>ea_CreatedAt := to_UTC (ea_CreatedAt r0), ea_UpdatedAt := to_UTC (ea_UpdatedAt r0)\<rparr> in
      guard (ea_ID r \<noteq> [] \<and> ea_TenantID r \<noteq> [] \<and> ea_SubjectID r \<noteq> [] \<and> ea_VerificationID r \<noteq> [] \<and> ea_ContentRevision r \<noteq> 0)
        EvidenceInvalid
        (guard (validRequirementKey (ea_RequirementKey r) \<and> validClassification (ea_Region r)
                \<and> validClassification (ea_RetentionClass r)) EvidenceInvalid
          (guard (ea_Registry r = registry_Reference registry) EvidenceInvalid
            (case validateAcquisition registry (ea_EvidenceType r) (ea_Artefact r) (ea_AcquisitionMethod r) (ea_Assurances r) of
               None \<Rightarrow> Inl EvidenceInvalid
             | Some assurances \<Rightarrow>
                (let r = r\<lparr>ea_Assurances := assurances\<rparr> in
                 guard (1 \<le> ea_Version r \<and> \<not> IsZero (ea_CreatedAt r) \<and> \<not> Before (ea_UpdatedAt r) (ea_CreatedAt r)) EvidenceInvalid
                   (case validateLifecycle r of
                      Some e \<Rightarrow> Inl e
                    | None \<Rightarrow>
                       and_then (AuthenticatedContext env r) (\<lambda>cx.
                       and_then (NewContent env (ea_Content r) cx) (\<lambda>content.
                         Inr (r\<lparr>ea_Content := content\<rparr>)))))))))"

definition NewAvailable :: "evidence_env \<Rightarrow> evidence_registry \<Rightarrow> evidence_record \<Rightarrow> evidence_error + evidence_record" where
  "NewAvailable env registry r =
     restoreAsset env registry (r\<lparr>ea_Integrity := IntegrityVerified, ea_State := StateAvailable, ea_Version := 1,
       ea_UpdatedAt := ea_CreatedAt r, ea_QuarantineReason := [], ea_QuarantinedAt := None\<rparr>)"

definition CanRead :: "evidence_record \<Rightarrow> bool" where
  "CanRead r \<longleftrightarrow> ea_State r = StateAvailable \<and> ea_Integrity r = IntegrityVerified"

definition Quarantine :: "int \<Rightarrow> string \<Rightarrow> go_time \<Rightarrow> evidence_record \<Rightarrow> evidence_error + evidence_record" where
  "Quarantine expectedVersion reason now r =
     guard (expectedVersion = ea_Version r) EvidenceVersionConflict
       (guard (ea_State r = StateAvailable \<and> validClassification reason \<and> \<not> IsZero now \<and> After (to_UTC now) (ea_UpdatedAt r))
          EvidenceConflict
         (Inr (r\<lparr>ea_State := StateQuarantined, ea_Version := i64 (ea_Version r + 1), ea_UpdatedAt := to_UTC now,
                ea_QuarantineReason := reason, ea_QuarantinedAt := Some (to_UTC now)\<rparr>)))"

definition FailIntegrity :: "int \<Rightarrow> string \<Rightarrow> go_time \<Rightarrow> evidence_record \<Rightarrow> evidence_error + evidence_record" where
  "FailIntegrity expectedVersion reason now r =
     and_then (Quarantine expectedVersion reason now r) (\<lambda>q. Inr (q\<lparr>ea_Integrity := IntegrityFailed\<rparr>))"


datatype asset_command = QuarantineAsset int string go_time | FailAsset int string go_time

fun apply_asset :: "asset_command \<Rightarrow> evidence_record \<Rightarrow> evidence_error + evidence_record" where
  "apply_asset (QuarantineAsset v reason now) r = Quarantine v reason now r"
| "apply_asset (FailAsset v reason now) r = FailIntegrity v reason now r"

fun asset_expected :: "asset_command \<Rightarrow> int" where
  "asset_expected (QuarantineAsset v _ _) = v"
| "asset_expected (FailAsset v _ _) = v"

section \<open>Lemmas: object keys\<close>

lemma clean_segments_append:
  "clean_segments rooted stack (ps @ qs) = clean_segments rooted (rev (clean_segments rooted stack ps)) qs"
  by (induction rooted stack ps rule: clean_segments.induct) (auto split: list.splits)

definition plain_segment :: "string \<Rightarrow> bool" where
  "plain_segment p \<longleftrightarrow> p \<noteq> [] \<and> p \<noteq> ''.'' \<and> p \<noteq> ''..''"

lemma clean_segments_plain: "list_all plain_segment ps \<Longrightarrow> clean_segments rooted stack ps = rev stack @ ps"
  by (induction ps arbitrary: stack) (auto simp: plain_segment_def)

lemma clean_segments_no_dot:
  assumes "p \<in> set (clean_segments rooted stack ps)" and "\<forall>q \<in> set stack. q \<noteq> [] \<and> q \<noteq> ''.''"
  shows "p \<noteq> [] \<and> p \<noteq> ''.''"
  using assms by (induction rooted stack ps rule: clean_segments.induct) (auto split: list.splits if_splits)

lemma clean_segments_sep:
  assumes "p \<in> set (clean_segments rooted stack ps)" and "\<forall>q \<in> set stack. c \<notin> set q" and "\<forall>q \<in> set ps. c \<notin> set q"
    and "c \<noteq> CHR ''.''"
  shows "c \<notin> set p"
  using assms by (induction rooted stack ps rule: clean_segments.induct) (auto split: list.splits if_splits)

lemma NewKey_segments:
  assumes "NewKey v = Inr k"
  shows "k = v" "list_all plain_segment (Split (CHR ''/'') v)" "v \<noteq> []"
proof -
  show "k = v" "v \<noteq> []" using assms by (auto simp: NewKey_def chain_iff)
  let ?cs = "clean_segments False [] (Split (CHR ''/'') v)"
  have v: "hd v \<noteq> CHR ''/''" "path_Clean v = v" "v \<noteq> ''.''" "v \<noteq> []"
    and segs: "\<forall>p \<in> set (Split (CHR ''/'') v). p \<noteq> [] \<and> p \<noteq> ''..''"
    using assms by (auto simp: NewKey_def chain_iff list_all_iff)
  have "Join (CHR ''/'') ?cs = v" and ne: "?cs \<noteq> []"
    using v by (auto simp: path_Clean_def Let_def split: if_splits)
  moreover have "CHR ''/'' \<notin> set p" if "p \<in> set ?cs" for p
    by (rule clean_segments_sep [OF that]) (auto dest: Split_no_separator)
  ultimately have eq: "Split (CHR ''/'') v = ?cs"
    using Split_Join by metis
  have "p \<noteq> [] \<and> p \<noteq> ''.''" if "p \<in> set ?cs" for p
    by (rule clean_segments_no_dot [OF that]) simp
  with eq segs show "list_all plain_segment (Split (CHR ''/'') v)"
    by (auto simp: list_all_iff plain_segment_def)
qed

lemma Join_append: "qs \<noteq> [] \<Longrightarrow> ps \<noteq> [] \<Longrightarrow> Join c (ps @ qs) = Join c ps @ c # Join c qs"
proof (induction ps)
  case (Cons p ps)
  then show ?case by (cases ps; cases qs) auto
qed simp

lemma Split_concat: "Split c (a @ c # b) = Split c a @ Split c b"
proof (induction a)
  case (Cons x a)
  then show ?case by (auto split: list.splits)
qed simp

section \<open>Lemmas: the asset\<close>

lemma Quarantine_Inr:
  assumes "Quarantine v reason now r = Inr q"
  shows "v = ea_Version r \<and> ea_State r = StateAvailable \<and> validClassification reason \<and> t_ns (ea_UpdatedAt r) < t_ns now
    \<and> q = r\<lparr>ea_State := StateQuarantined, ea_Version := i64 (ea_Version r + 1), ea_UpdatedAt := to_UTC now,
            ea_QuarantineReason := reason, ea_QuarantinedAt := Some (to_UTC now)\<rparr>"
  using assms by (auto simp: Quarantine_def chain_iff After_def)

lemma apply_asset_Inr:
  assumes "apply_asset c r = Inr q"
  obtains now reason integrity where "ea_State r = StateAvailable" "validClassification reason"
    "t_ns (ea_UpdatedAt r) < t_ns now" "asset_expected c = ea_Version r"
    "integrity = ea_Integrity r \<or> integrity = IntegrityFailed"
    "q = r\<lparr>ea_State := StateQuarantined, ea_Version := i64 (ea_Version r + 1), ea_UpdatedAt := to_UTC now,
           ea_QuarantineReason := reason, ea_QuarantinedAt := Some (to_UTC now), ea_Integrity := integrity\<rparr>"
proof (cases c)
  case (QuarantineAsset v reason now)
  with assms have "Quarantine v reason now r = Inr q" by simp
  from Quarantine_Inr [OF this] QuarantineAsset show ?thesis by (intro that [of reason now "ea_Integrity r"]) auto
next
  case (FailAsset v reason now)
  with assms obtain q' where "Quarantine v reason now r = Inr q'" "q = q'\<lparr>ea_Integrity := IntegrityFailed\<rparr>"
    by (auto simp: FailIntegrity_def chain_iff)
  with Quarantine_Inr [OF this(1)] FailAsset show ?thesis by (intro that [of reason now IntegrityFailed]) auto
qed

interpretation asset_version: optimistic_aggregate apply_asset ea_Version asset_expected
  by unfold_locales (auto elim!: apply_asset_Inr)

fun asset_edge :: "evidence_state \<Rightarrow> evidence_state \<Rightarrow> bool" where
  "asset_edge StateAvailable q = (q = StateQuarantined)"
| "asset_edge _ q = False"

interpretation asset_flow: phased_workflow apply_asset ea_State asset_edge "\<lambda>p. p \<noteq> StateAvailable"
proof
  fix c s s' assume "apply_asset c s = Inr s'"
  then show "s' = s \<or> asset_edge (ea_State s) (ea_State s')" by (auto elim!: apply_asset_Inr)
next
  fix p q :: evidence_state assume "p \<noteq> StateAvailable"
  then show "\<not> asset_edge p q" by (cases p) auto
qed

text \<open>The parts of an asset that its validation checks and a quarantine does not touch.\<close>

lemma AuthenticatedContext_cong:
  "AuthenticatedContext env (r\<lparr>ea_State := st, ea_Version := v, ea_UpdatedAt := u, ea_QuarantineReason := reason,
     ea_QuarantinedAt := qt, ea_Integrity := i\<rparr>) = AuthenticatedContext env r"
  by (simp add: AuthenticatedContext_def context_document_def)

lemma restoreAsset_fixed_iff:
  "restoreAsset env registry r = Inr r \<longleftrightarrow>
     t_utc (ea_CreatedAt r) \<and> t_utc (ea_UpdatedAt r)
     \<and> ea_ID r \<noteq> [] \<and> ea_TenantID r \<noteq> [] \<and> ea_SubjectID r \<noteq> [] \<and> ea_VerificationID r \<noteq> [] \<and> ea_ContentRevision r \<noteq> 0
     \<and> validRequirementKey (ea_RequirementKey r) \<and> validClassification (ea_Region r) \<and> validClassification (ea_RetentionClass r)
     \<and> ea_Registry r = registry_Reference registry
     \<and> validateAcquisition registry (ea_EvidenceType r) (ea_Artefact r) (ea_AcquisitionMethod r) (ea_Assurances r)
         = Some (ea_Assurances r)
     \<and> 1 \<le> ea_Version r \<and> \<not> IsZero (ea_CreatedAt r) \<and> \<not> Before (ea_UpdatedAt r) (ea_CreatedAt r)
     \<and> validateLifecycle r = None
     \<and> (\<exists>cx. AuthenticatedContext env r = Inr cx \<and> NewContent env (ea_Content r) cx = Inr (ea_Content r))"
  (is "_ \<longleftrightarrow> ?rhs")
proof
  assume ?rhs
  then show "restoreAsset env registry r = Inr r"
    by (auto simp: restoreAsset_def Let_def chain_iff to_UTC_id)
next
  assume r: "restoreAsset env registry r = Inr r"
  let ?t = "r\<lparr>ea_CreatedAt := to_UTC (ea_CreatedAt r), ea_UpdatedAt := to_UTC (ea_UpdatedAt r)\<rparr>"
  from r obtain assurances where a: "validateAcquisition registry (ea_EvidenceType r) (ea_Artefact r) (ea_AcquisitionMethod r)
      (ea_Assurances r) = Some assurances"
    by (auto simp: restoreAsset_def Let_def chain_iff split: option.splits)
  let ?u = "?t\<lparr>ea_Assurances := assurances\<rparr>"
  from r a obtain cx content where c: "AuthenticatedContext env ?u = Inr cx" "NewContent env (ea_Content r) cx = Inr content"
      "r = ?u\<lparr>ea_Content := content\<rparr>" "validateLifecycle ?u = None"
    by (auto simp: restoreAsset_def Let_def chain_iff split: option.splits)
  have f: "t_utc (ea_CreatedAt r)" "t_utc (ea_UpdatedAt r)" "assurances = ea_Assurances r" "content = ea_Content r"
    using arg_cong [OF c(3), of ea_CreatedAt] arg_cong [OF c(3), of ea_UpdatedAt] arg_cong [OF c(3), of ea_Assurances]
      arg_cong [OF c(3), of ea_Content] by (simp_all add: to_UTC_def) (metis go_time.surjective go_time.update_convs(2) go_time.select_convs(2))+
  then have u: "?u = r" by (simp add: to_UTC_id)
  show ?rhs using r a c f unfolding u
    by (auto simp: restoreAsset_def Let_def chain_iff to_UTC_id split: option.splits)
qed

lemma quarantine_restores:
  assumes "restoreAsset env registry r = Inr r" and "apply_asset c r = Inr q" and "ea_Version r < int64_max"
  shows "restoreAsset env registry q = Inr q"
proof -
  from assms(2) obtain now reason integrity where q: "ea_State r = StateAvailable" "validClassification reason"
      "t_ns (ea_UpdatedAt r) < t_ns now" "integrity = ea_Integrity r \<or> integrity = IntegrityFailed"
      "q = r\<lparr>ea_State := StateQuarantined, ea_Version := i64 (ea_Version r + 1), ea_UpdatedAt := to_UTC now,
           ea_QuarantineReason := reason, ea_QuarantinedAt := Some (to_UTC now), ea_Integrity := integrity\<rparr>"
    by (elim apply_asset_Inr)
  have r: "ea_Integrity r = IntegrityVerified" "1 \<le> ea_Version r" "\<not> Before (ea_UpdatedAt r) (ea_CreatedAt r)"
    using assms(1) q(1) by (auto simp: restoreAsset_fixed_iff validateLifecycle_def split: if_splits)
  have "i64 (ea_Version r + 1) = ea_Version r + 1"
    using r(2) assms(3) by (intro i64_succ) (simp_all add: int64_min_def)
  then show ?thesis
    using assms(1) q r unfolding restoreAsset_fixed_iff q(5) AuthenticatedContext_cong
    by (auto simp: validateLifecycle_def Before_def)
qed


lemma restoreAsset_context:
  assumes "restoreAsset env registry r = Inr a"
  obtains encoded where "ee_json env (context_document r) = Some encoded"
    "en_ContextDigest (co_Envelope (ea_Content r)) = digest_Sum env encoded"
proof -
  have "\<exists>encoded. ee_json env (context_document r) = Some encoded
      \<and> en_ContextDigest (co_Envelope (ea_Content r)) = digest_Sum env encoded"
    using assms
    by (auto simp: restoreAsset_def Let_def chain_iff AuthenticatedContext_def NewContext_def NewContent_def NewEnvelope_def
        NewDigest_def context_document_def split: option.splits)
  then show ?thesis using that by blast
qed

section \<open>Samples\<close>

definition sample_evidence_env :: evidence_env where
  "sample_evidence_env = \<lparr>ee_sha = (\<lambda>s. take 32 (s @ replicate 32 (CHR ''0''))),
     ee_json = (\<lambda>(strings, _, _). Some (concat (map snd strings))), ee_mime = Some\<rparr>"

definition sample_registry :: evidence_registry where
  "sample_registry = \<lparr>df_Artefacts = [''a''], df_Evidence = [\<lparr>ty_Name = ''t'', ty_Artefacts = [''a'']\<rparr>],
     df_Methods = [\<lparr>am_Name = ''m'', am_Supports = [\<lparr>ms_EvidenceType = ''t'', ms_Artefacts = [''a''], ms_Assurances = [''f'']\<rparr>]\<rparr>],
     df_Purposes = [''p''], df_Assurances = [''f''], df_Constraints = [], rg_revision = 1, rg_digest = ''d''\<rparr>"

definition sample_wrapped_key :: WrappedKey where
  "sample_wrapped_key = \<lparr>wk_Provider = ''local'', wk_Reference = ''kek'', wk_Version = ''1'', wk_Algorithm = ''AES'', wk_Ciphertext = ''c''\<rparr>"

definition sample_asset_for :: "string \<Rightarrow> evidence_record" where
  "sample_asset_for identifier =
     (let r = \<lparr>ea_ID = identifier, ea_TenantID = ''ten'', ea_SubjectID = ''sub'', ea_VerificationID = ''ver'', ea_RequirementKey = ''face'',
        ea_EvidenceType = ''t'', ea_Artefact = ''a'',
        ea_AcquisitionMethod = ''m'', ea_Assurances = [''f''],
        ea_Registry = registry_Reference sample_registry, ea_Region = ''eu.w'', ea_RetentionClass = ''s.t'',
        ea_ContentRevision = 1,
        ea_Content = \<lparr>co_Object = \<lparr>ob_Key = ''ten/obj'', ob_Version = ''v1'', ob_Size = 3, ob_Checksum = digest_text (replicate 32 (CHR 0x00))\<rparr>,
          co_Envelope = \<lparr>en_FormatVersion = 1, en_ContentAlgorithm = ''AES256'', en_Purpose = ''e.c'',
             en_WrappedKey = sample_wrapped_key, en_ContextSchemaVersion = 1, en_ContextDigest = []\<rparr>,
          co_PlaintextDigest = digest_text (replicate 32 (CHR 0x00)), co_MediaType = ''image/png''\<rparr>,
        ea_Integrity = IntegrityVerified, ea_State = StateAvailable, ea_Version = 1, ea_CreatedAt = utc_at 1,
        ea_UpdatedAt = utc_at 1, ea_QuarantineReason = [], ea_QuarantinedAt = None\<rparr>;
          encoded = the (ee_json sample_evidence_env (context_document r))
      in r\<lparr>ea_Content := (ea_Content r)\<lparr>co_Envelope := (co_Envelope (ea_Content r))
           \<lparr>en_ContextDigest := digest_Sum sample_evidence_env encoded\<rparr>\<rparr>\<rparr>)"

definition sample_asset :: evidence_record where
  "sample_asset = sample_asset_for ''evd_1''"

lemma NewDigest_text: "length raw = 32 \<Longrightarrow> NewDigest (digest_text raw) = Inr (digest_text raw)"
  by (simp add: NewDigest_def digest_text_def hex_roundtrip hex_encode_length)

lemma digest_text_inj: "digest_text a = digest_text b \<longleftrightarrow> a = b"
  by (simp add: digest_text_def hex_encode_inj)

lemma sample_env [simp]:
  "length (ee_sha sample_evidence_env v) = 32" "ee_mime sample_evidence_env v = Some v"
  "ee_json sample_evidence_env (strings, ns, ref) = Some (concat (map snd strings))"
  by (simp_all add: sample_evidence_env_def)

lemma sample_labels:
  "validRequirementKey ''face''" "validClassification ''eu.w''" "validClassification ''s.t''"
  "validClassification ''bad.bytes''"
  by code_simp+

lemma sample_acquisition:
  "validateAcquisition sample_registry ''t'' ''a'' ''m'' [''f''] = Some [''f'']"
  by code_simp

lemma sample_object:
  "NewKey ''ten/obj'' = Inr ''ten/obj''" "object_validVersion ''v1''"
  "NewWrappedKey sample_wrapped_key = Inr sample_wrapped_key" "NewPurpose ''e.c'' = Inr ''e.c''"
  "crypto_validLabel ''AES256''"
  by (simp_all add: NewKey_def path_Clean_def object_segment_def object_validVersion_def NewWrappedKey_def kms_validLabel_def
      sample_wrapped_key_def NewPurpose_def crypto_validLabel_def maxKeyLength_def maxWrappedKeyLength_def
      surrounding_space_def space_encodings_def upt_rec token_simps)

lemma sample_asset_restores:
  assumes "0 < length identifier" and "length identifier \<le> 64"
  shows "restoreAsset sample_evidence_env sample_registry (sample_asset_for identifier) = Inr (sample_asset_for identifier)"
  unfolding restoreAsset_fixed_iff using assms
  by (simp add: sample_asset_for_def Let_def sample_labels sample_acquisition validateLifecycle_def AuthenticatedContext_def
      context_document_def ContentEncryptionPurpose_def ContentContextSchemaVersion_def NewContext_def maxContextLength_def
      NewContent_def NewObject_def sample_object NewEnvelope_def digest_Sum_def NewDigest_text
      IsZero_def Before_def to_lower_def is_upper_def del: validRequirementKey.simps)

section \<open>Properties\<close>

text \<open>
  An accepted object key stays below its root: whatever directory it is joined to, cleaning
  the joined path gives the cleaned directory followed by the key as it is, so no accepted key
  names a file outside the directory of the store.
\<close>

theorem object_key_confined:
  assumes "NewKey v = Inr k" and "path_Clean (CHR ''/'' # root) \<noteq> ''/''"
  shows "path_Clean (CHR ''/'' # root @ CHR ''/'' # k) = path_Clean (CHR ''/'' # root) @ CHR ''/'' # k"
proof -
  note k = NewKey_segments [OF assms(1)]
  let ?r = "clean_segments True [] (Split (CHR ''/'') (CHR ''/'' # root))"
  have "Split (CHR ''/'') (CHR ''/'' # root @ CHR ''/'' # k) = Split (CHR ''/'') (CHR ''/'' # root) @ Split (CHR ''/'') k"
    by (simp add: Split_concat)
  then have "clean_segments True [] (Split (CHR ''/'') (CHR ''/'' # root @ CHR ''/'' # k)) = ?r @ Split (CHR ''/'') k"
    using k(1,2) by (simp only: clean_segments_append clean_segments_plain rev_rev_ident)
  moreover have "?r \<noteq> []"
    using assms(2) by (auto simp: path_Clean_def simp del: Split.simps)
  ultimately show ?thesis
    using Join_append [OF Split_neq_Nil, of ?r "CHR ''/''" "CHR ''/''" k]
    by (simp add: path_Clean_def Let_def Join_Split del: Split.simps)
qed

theorem object_key_confined_witness:
  "path_Clean (''/var/../data/'' @ ''ten/obj'') = ''/data/ten/obj''"
proof -
  have "path_Clean ''/var/../data'' = ''/data''" by code_simp
  with object_key_confined [OF sample_object(1), of "''var/../data''"] show ?thesis by simp
qed

text \<open>
  A ciphertext cannot be moved to another asset: when two stored assets both pass validation
  and carry the same context digest in their envelopes, they have the same tenant, verification, evidence
  identifier, requirement, evidence type, artefact, method, registry and revision, as long as
  the JSON encoder and SHA-256 do not collide on their two context documents.
\<close>

theorem envelope_not_transferable:
  assumes "restoreAsset env registry a = Inr a'" and "restoreAsset env registry' b = Inr b'"
    and "en_ContextDigest (co_Envelope (ea_Content a)) = en_ContextDigest (co_Envelope (ea_Content b))"
    and "ee_json env (context_document a) = ee_json env (context_document b) \<Longrightarrow> context_document a = context_document b"
    and "\<And>x y. ee_json env (context_document a) = Some x \<Longrightarrow> ee_json env (context_document b) = Some y \<Longrightarrow>
      ee_sha env x = ee_sha env y \<Longrightarrow> x = y"
  shows "ea_TenantID a = ea_TenantID b \<and> ea_VerificationID a = ea_VerificationID b \<and> ea_ID a = ea_ID b
    \<and> ea_RequirementKey a = ea_RequirementKey b \<and> ea_EvidenceType a = ea_EvidenceType b \<and> ea_Artefact a = ea_Artefact b
    \<and> ea_AcquisitionMethod a = ea_AcquisitionMethod b \<and> ea_Registry a = ea_Registry b
    \<and> ea_ContentRevision a = ea_ContentRevision b"
proof -
  obtain x where x: "ee_json env (context_document a) = Some x"
      "en_ContextDigest (co_Envelope (ea_Content a)) = digest_Sum env x"
    using assms(1) by (rule restoreAsset_context)
  obtain y where y: "ee_json env (context_document b) = Some y"
      "en_ContextDigest (co_Envelope (ea_Content b)) = digest_Sum env y"
    using assms(2) by (rule restoreAsset_context)
  have "ee_sha env x = ee_sha env y"
    using x y assms(3) by (simp add: digest_Sum_def digest_text_inj)
  with x y assms(4,5) have "context_document a = context_document b" by simp
  then show ?thesis by (simp add: context_document_def)
qed

theorem envelope_not_transferable_witness:
  "\<exists>q. apply_asset (QuarantineAsset 1 ''bad.bytes'' (utc_at 2)) sample_asset = Inr q \<and> ea_State q = StateQuarantined
     \<and> ea_ID q = ea_ID sample_asset"
proof -
  have r: "restoreAsset sample_evidence_env sample_registry sample_asset = Inr sample_asset"
    unfolding sample_asset_def by (rule sample_asset_restores) simp_all
  have v: "ea_Version sample_asset = 1" "ea_State sample_asset = StateAvailable" "ea_UpdatedAt sample_asset = utc_at 1"
    by (simp_all add: sample_asset_def sample_asset_for_def Let_def)
  then obtain q where q: "apply_asset (QuarantineAsset 1 ''bad.bytes'' (utc_at 2)) sample_asset = Inr q"
    by (simp add: Quarantine_def sample_labels After_def IsZero_def)
  then have f: "ea_State q = StateQuarantined" "context_document q = context_document sample_asset"
      "ea_Content q = ea_Content sample_asset"
    by (auto dest!: Quarantine_Inr simp: context_document_def)
  have "restoreAsset sample_evidence_env sample_registry q = Inr q"
    using quarantine_restores [OF r q] v by (simp add: int64_max_def)
  from envelope_not_transferable [OF this r] f have "ea_ID q = ea_ID sample_asset" by simp
  with q f show ?thesis by blast
qed

end
