(* ===== verification/Evidence_Grant.thy ===== *)
theory Evidence_Grant
  imports Protected_Content
begin

text \<open>
  Processing grants (\<^verbatim>\<open>internal/evidence/grant.go\<close>), their issue and the controlled read
  (\<^verbatim>\<open>access.go\<close>), and the transactions of the PostgreSQL store that create, claim, revoke and close them
  (\<^verbatim>\<open>postgres/grant_store.go\<close>; quarantine in \<^verbatim>\<open>postgres/store.go\<close>).

  The tables of one tenant are functions from identifiers. A transaction takes the row lock it
  needs first, so it is one step; a \<^verbatim>\<open>timestamptz\<close> keeps whole microseconds. Stored identifiers are
  the canonical ones their types print. A read is a process between its transactions: it may be
  interleaved with any others, stop anywhere, and be started again under the same redemption.
  The authorizer, the object store, the opener of ciphertexts and the clock are parameters; the
  receiver behaves as its interface documents (it commits one redemption once, and on a repetition skips the
  production and calls back).
\<close>

section \<open>Grants\<close>

definition OperationPlaintextRead :: string where
  "OperationPlaintextRead = ''evidence.plaintext.read''"

definition VariantOriginal :: string where
  "VariantOriginal = ''evidence.variant.original''"

definition maxGrantUses :: nat where
  "maxGrantUses = 32"

definition maxGrantLifetime :: duration where
  "maxGrantLifetime = hour"

record Runner =
  rn_Identity :: string
  rn_WorkloadVersion :: string

definition runner_Valid :: "Runner \<Rightarrow> bool" where
  "runner_Valid r \<longleftrightarrow> validGrantLabel (rn_Identity r) \<and> validGrantLabel (rn_WorkloadVersion r)"

record Actor =
  ac_Type :: string
  ac_ID :: string

record CommandAttribution =
  ab_Principal :: Actor
  ab_TenantActor :: Actor
  ab_Reason :: string

definition attribution_Valid :: "CommandAttribution \<Rightarrow> bool" where
  "attribution_Valid a \<longleftrightarrow> validClassification (ac_Type (ab_Principal a)) \<and> validGrantLabel (ac_ID (ab_Principal a))
     \<and> validClassification (ac_Type (ab_TenantActor a)) \<and> validGrantLabel (ac_ID (ab_TenantActor a))
     \<and> validAuditReason (ab_Reason a)"

record GrantRecord =
  gr_ID :: string
  gr_TenantID :: string
  gr_SubjectID :: string
  gr_VerificationID :: string
  gr_EvidenceID :: string
  gr_RequirementKey :: string
  gr_AuthorityID :: string
  gr_ResponseID :: string
  gr_CheckReference :: string
  gr_Runner :: Runner
  gr_Purpose :: string
  gr_Operation :: string
  gr_PermittedVariants :: "string list"
  gr_Region :: string
  gr_RecipientReference :: string
  gr_OutputDestination :: string
  gr_PolicyReference :: string
  gr_MaximumUses :: nat
  gr_Uses :: nat
  gr_CreatedAt :: go_time
  gr_ExpiresAt :: go_time
  gr_RevokedAt :: "go_time option"

definition grant_scope_ok :: "GrantRecord \<Rightarrow> bool" where
  "grant_scope_ok r \<longleftrightarrow> runner_Valid (gr_Runner r) \<and> validClassification (gr_CheckReference r)
     \<and> validClassification (gr_Purpose r) \<and> validRequirementKey (gr_RequirementKey r)
     \<and> gr_Operation r = OperationPlaintextRead \<and> validClassification (gr_Region r)
     \<and> validClassification (gr_RecipientReference r) \<and> validClassification (gr_OutputDestination r)
     \<and> validClassification (gr_PolicyReference r)"

definition RestoreGrant :: "GrantRecord \<Rightarrow> evidence_error + GrantRecord" where
  "RestoreGrant r0 =
     (let r = r0\<lparr>gr_CreatedAt := to_UTC (gr_CreatedAt r0), gr_ExpiresAt := to_UTC (gr_ExpiresAt r0)\<rparr> in
      guard (gr_ID r \<noteq> [] \<and> gr_TenantID r \<noteq> [] \<and> gr_SubjectID r \<noteq> [] \<and> gr_VerificationID r \<noteq> [] \<and> gr_EvidenceID r \<noteq> []
             \<and> gr_AuthorityID r \<noteq> [] \<and> gr_ResponseID r \<noteq> []) EvidenceInvalid
        (guard (grant_scope_ok r) EvidenceInvalid
          (guard (gr_PermittedVariants r \<noteq> [] \<and> length (gr_PermittedVariants r) \<le> 16) EvidenceInvalid
            (let variants = compact (sort (gr_PermittedVariants r)) in
             guard (list_all validClassification variants \<and> VariantOriginal \<in> set variants) EvidenceInvalid
               (guard (gr_MaximumUses r \<noteq> 0 \<and> gr_MaximumUses r \<le> maxGrantUses \<and> gr_Uses r \<le> gr_MaximumUses r
                       \<and> \<not> IsZero (gr_CreatedAt r) \<and> After (gr_ExpiresAt r) (gr_CreatedAt r)
                       \<and> Sub (gr_ExpiresAt r) (gr_CreatedAt r) \<le> maxGrantLifetime) EvidenceInvalid
                 (case gr_RevokedAt r of
                    None \<Rightarrow> Inr (r\<lparr>gr_PermittedVariants := variants\<rparr>)
                  | Some t \<Rightarrow>
                     guard (\<not> Before (to_UTC t) (gr_CreatedAt r)) EvidenceInvalid
                       (Inr (r\<lparr>gr_PermittedVariants := variants, gr_RevokedAt := Some (to_UTC t)\<rparr>))))))))"

definition NewGrant :: "GrantRecord \<Rightarrow> evidence_error + GrantRecord" where
  "NewGrant r = RestoreGrant (r\<lparr>gr_Uses := 0, gr_RevokedAt := None\<rparr>)"

definition ClaimedFor :: "Runner \<Rightarrow> go_time \<Rightarrow> GrantRecord \<Rightarrow> bool" where
  "ClaimedFor runner now g \<longleftrightarrow> gr_Runner g = runner \<and> 0 < gr_Uses g \<and> gr_Uses g \<le> gr_MaximumUses g
     \<and> gr_RevokedAt g = None \<and> \<not> Before (to_UTC now) (gr_CreatedAt g) \<and> Before (to_UTC now) (gr_ExpiresAt g)"

definition grant_Claim :: "Runner \<Rightarrow> go_time \<Rightarrow> GrantRecord \<Rightarrow> evidence_error + GrantRecord" where
  "grant_Claim runner now g =
     guard (runner = gr_Runner g \<and> \<not> Before (to_UTC now) (gr_CreatedAt g) \<and> Before (to_UTC now) (gr_ExpiresAt g)
            \<and> gr_RevokedAt g = None \<and> gr_Uses g < gr_MaximumUses g) GrantDenied
       (Inr (g\<lparr>gr_Uses := gr_Uses g + 1\<rparr>))"

definition grant_Revoke :: "go_time \<Rightarrow> GrantRecord \<Rightarrow> evidence_error + GrantRecord" where
  "grant_Revoke now g =
     guard (gr_RevokedAt g = None \<and> \<not> Before (to_UTC now) (gr_CreatedAt g)) GrantConflict
       (Inr (g\<lparr>gr_RevokedAt := Some (to_UTC now)\<rparr>))"

definition grant_Binds :: "evidence_record \<Rightarrow> GrantRecord \<Rightarrow> bool" where
  "grant_Binds a g \<longleftrightarrow> gr_TenantID g = ea_TenantID a \<and> gr_SubjectID g = ea_SubjectID a
     \<and> gr_VerificationID g = ea_VerificationID a \<and> gr_EvidenceID g = ea_ID a
     \<and> gr_RequirementKey g = ea_RequirementKey a \<and> gr_Region g = ea_Region a
     \<and> gr_Operation g = OperationPlaintextRead \<and> VariantOriginal \<in> set (gr_PermittedVariants g)"

record ReadAuthorization =
  ra_TenantID :: string
  ra_SubjectID :: string
  ra_VerificationID :: string
  ra_EvidenceID :: string
  ra_RequirementKey :: string
  ra_Purpose :: string
  ra_EvidenceType :: string
  ra_RecipientReference :: string
  ra_Region :: string

record AuthorizationDecision =
  ad_AuthorityID :: string
  ad_ResponseID :: string
  ad_PolicyReference :: string

section \<open>Redemptions\<close>

datatype (plugins only: size code) grant_outcome =
  OutcomePending | OutcomeSucceeded | OutcomeDenied | OutcomeIntegrityFailed | OutcomeFailed | GrantOutcomeOther string

fun validGrantOutcome :: "grant_outcome \<Rightarrow> bool" where
  "validGrantOutcome OutcomePending = False"
| "validGrantOutcome (GrantOutcomeOther _) = False"
| "validGrantOutcome _ = True"

record Redemption =
  re_id :: string
  re_grant :: GrantRecord
  re_outcome :: grant_outcome

definition RestoreRedemption :: "string \<Rightarrow> GrantRecord \<Rightarrow> grant_outcome \<Rightarrow> evidence_error + Redemption" where
  "RestoreRedemption identifier claimed outcome =
     guard (identifier \<noteq> [] \<and> gr_ID claimed \<noteq> [] \<and> gr_Uses claimed \<noteq> 0
            \<and> (outcome = OutcomePending \<or> validGrantOutcome outcome)) EvidenceInvalid
       (Inr \<lparr>re_id = identifier, re_grant = claimed, re_outcome = outcome\<rparr>)"

definition redemption_Complete :: "grant_outcome \<Rightarrow> Redemption \<Rightarrow> evidence_error + Redemption" where
  "redemption_Complete outcome r =
     (if re_outcome r \<noteq> OutcomePending then guard (re_outcome r = outcome) GrantConflict (Inr r)
      else RestoreRedemption (re_id r) (re_grant r) outcome)"

definition ValidFor :: "string \<Rightarrow> Runner \<Rightarrow> go_time \<Rightarrow> Redemption \<Rightarrow> bool" where
  "ValidFor grantID runner now r \<longleftrightarrow>
     re_id r \<noteq> [] \<and> gr_ID (re_grant r) = grantID \<and> gr_Runner (re_grant r) = runner \<and> gr_Uses (re_grant r) \<noteq> 0
     \<and> (if re_outcome r = OutcomePending then ClaimedFor runner now (re_grant r) else validGrantOutcome (re_outcome r))"

record ReceiverBinding =
  rb_Runner :: Runner
  rb_CheckReference :: string
  rb_OutputDestination :: string

definition receiver_Binds :: "GrantRecord \<Rightarrow> ReceiverBinding \<Rightarrow> bool" where
  "receiver_Binds g b \<longleftrightarrow> rb_Runner b = gr_Runner g \<and> rb_CheckReference b = gr_CheckReference g
     \<and> rb_OutputDestination b = gr_OutputDestination g"

section \<open>The store\<close>

record redemption_row =
  rr_GrantID :: string
  rr_Runner :: Runner
  rr_ClaimedUse :: "nat option"
  rr_DenialReason :: "string option"
  rr_AttemptedAt :: go_time

record access_attempt =
  aa_GrantID :: string
  aa_RedemptionID :: string
  aa_Decision :: string
  aa_Reason :: "string option"

record grant_db =
  gd_assets :: "string \<Rightarrow> evidence_record option"
  gd_grants :: "string \<Rightarrow> GrantRecord option"
  gd_redemptions :: "string \<Rightarrow> redemption_row option"
  gd_outcomes :: "string \<Rightarrow> (string \<times> grant_outcome) option"
  gd_attempts :: "access_attempt list"

definition insertGrantAccessAttempt :: "string \<Rightarrow> string \<Rightarrow> string \<Rightarrow> string option \<Rightarrow> grant_db \<Rightarrow> grant_db" where
  "insertGrantAccessAttempt grantID redemptionID decision reason db =
     db\<lparr>gd_attempts := gd_attempts db @ [\<lparr>aa_GrantID = grantID, aa_RedemptionID = redemptionID, aa_Decision = decision,
                                          aa_Reason = reason\<rparr>]\<rparr>"

definition CreateGrant :: "string \<Rightarrow> GrantRecord \<Rightarrow> CommandAttribution \<Rightarrow> grant_db \<Rightarrow> evidence_error + grant_db" where
  "CreateGrant tenantID g attribution db =
     guard (tenantID \<noteq> [] \<and> gr_TenantID g = tenantID \<and> gr_Uses g = 0 \<and> gr_RevokedAt g = None \<and> attribution_Valid attribution)
       GrantDenied
       (guard (gd_grants db (gr_ID g) = None) EvidenceUnavailable
         (Inr (db\<lparr>gd_grants := (gd_grants db)(gr_ID g \<mapsto>
            g\<lparr>gr_CreatedAt := pg_time (gr_CreatedAt g), gr_ExpiresAt := pg_time (gr_ExpiresAt g)\<rparr>)\<rparr>)))"

definition restoreExistingRedemption ::
  "string \<Rightarrow> string \<Rightarrow> Runner \<Rightarrow> redemption_row \<Rightarrow> grant_db \<Rightarrow> evidence_error + Redemption option" where
  "restoreExistingRedemption grantID redemptionID runner row db =
     (case rr_ClaimedUse row of
        None \<Rightarrow> Inr None
      | Some use \<Rightarrow>
         if rr_GrantID row \<noteq> grantID \<or> rr_Runner row \<noteq> runner \<or> rr_DenialReason row \<noteq> None then Inr None
         else (case gd_grants db grantID of
                 None \<Rightarrow> Inr None
               | Some g \<Rightarrow>
                  and_then (RestoreGrant (g\<lparr>gr_Uses := use\<rparr>)) (\<lambda>grant.
                  and_then (RestoreRedemption redemptionID grant
                     (case gd_outcomes db redemptionID of
                        Some (g', outcome) \<Rightarrow> if g' = grantID then outcome else OutcomePending
                      | None \<Rightarrow> OutcomePending)) (\<lambda>r. Inr (Some r)))))"

definition denialReason :: "GrantRecord \<Rightarrow> Runner \<Rightarrow> go_time \<Rightarrow> string" where
  "denialReason g runner now =
     (if runner \<noteq> gr_Runner g then ''runner_mismatch''
      else if Before (to_UTC now) (gr_CreatedAt g) then ''not_started''
      else if gr_RevokedAt g \<noteq> None then ''revoked''
      else if \<not> Before (to_UTC now) (gr_ExpiresAt g) then ''expired''
      else ''exhausted'')"

definition recordDeniedRedemption :: "GrantRecord \<Rightarrow> string \<Rightarrow> Runner \<Rightarrow> go_time \<Rightarrow> grant_db \<Rightarrow> grant_db" where
  "recordDeniedRedemption g redemptionID runner now db =
     db\<lparr>gd_redemptions := (gd_redemptions db)(redemptionID \<mapsto>
          \<lparr>rr_GrantID = gr_ID g, rr_Runner = runner, rr_ClaimedUse = None, rr_DenialReason = Some (denialReason g runner now),
           rr_AttemptedAt = pg_time now\<rparr>),
        gd_outcomes := (case gd_outcomes db redemptionID of
            None \<Rightarrow> (gd_outcomes db)(redemptionID \<mapsto> (gr_ID g, OutcomeDenied)) | Some _ \<Rightarrow> gd_outcomes db)\<rparr>"

text \<open>\<^verbatim>\<open>ClaimGrant\<close>: the result, and the tables after the transaction (unchanged when it is rolled back).\<close>

definition claim_new ::
  "string \<Rightarrow> string \<Rightarrow> Runner \<Rightarrow> go_time \<Rightarrow> GrantRecord \<Rightarrow> grant_db \<Rightarrow> (evidence_error + Redemption) \<times> grant_db" where
  "claim_new grantID redemptionID runner now row db =
     (case RestoreGrant row of
        Inl e \<Rightarrow> (Inl e, db)
      | Inr grant \<Rightarrow>
         (case grant_Claim runner now grant of
            Inl _ \<Rightarrow> (Inl GrantDenied,
               insertGrantAccessAttempt grantID redemptionID ''denied'' (Some (denialReason grant runner now))
                 (recordDeniedRedemption grant redemptionID runner now db))
          | Inr claimed \<Rightarrow>
             (let updated = row\<lparr>gr_Uses := gr_Uses row + 1\<rparr>;
                  db' = db\<lparr>gd_grants := (gd_grants db)(grantID \<mapsto> updated),
                           gd_redemptions := (gd_redemptions db)(redemptionID \<mapsto>
                             \<lparr>rr_GrantID = grantID, rr_Runner = runner, rr_ClaimedUse = Some (gr_Uses updated),
                              rr_DenialReason = None, rr_AttemptedAt = pg_time now\<rparr>)\<rparr>
              in case and_then (RestoreGrant updated) (\<lambda>persisted.
                        guard (gr_Uses persisted = gr_Uses claimed) EvidenceInvalid
                          (RestoreRedemption redemptionID persisted OutcomePending)) of
                   Inl e \<Rightarrow> (Inl e, db)
                 | Inr r \<Rightarrow> (Inr r, insertGrantAccessAttempt grantID redemptionID ''claimed'' None db'))))"

definition ClaimGrant ::
  "string \<Rightarrow> string \<Rightarrow> string \<Rightarrow> Runner \<Rightarrow> go_time \<Rightarrow> grant_db \<Rightarrow> (evidence_error + Redemption) \<times> grant_db" where
  "ClaimGrant tenantID grantID redemptionID runner now db =
     (if tenantID = [] \<or> grantID = [] \<or> redemptionID = [] \<or> \<not> runner_Valid runner \<or> IsZero now then (Inl GrantDenied, db)
      else case gd_redemptions db redemptionID of
        Some existing \<Rightarrow>
          (case restoreExistingRedemption grantID redemptionID runner existing db of
             Inl e \<Rightarrow> (Inl e, db)
           | Inr None \<Rightarrow> (Inl GrantDenied,
               insertGrantAccessAttempt grantID redemptionID ''denied''
                 (Some (if rr_GrantID existing = grantID \<and> rr_Runner existing = runner
                        then (case rr_DenialReason existing of Some v \<Rightarrow> v | None \<Rightarrow> ''redemption_mismatch'')
                        else ''redemption_mismatch'')) db)
           | Inr (Some r) \<Rightarrow> (Inr r,
               insertGrantAccessAttempt grantID redemptionID
                 (if validGrantOutcome (re_outcome r) then ''replayed_terminal'' else ''replayed_pending'') None db))
      | None \<Rightarrow>
          (case gd_grants db grantID of
             None \<Rightarrow> (Inl GrantDenied, insertGrantAccessAttempt grantID redemptionID ''denied'' (Some ''not_found'') db)
           | Some row \<Rightarrow> claim_new grantID redemptionID runner now row db))"

definition RecordGrantOutcome ::
  "string \<Rightarrow> Redemption \<Rightarrow> grant_outcome \<Rightarrow> go_time \<Rightarrow> grant_db \<Rightarrow> evidence_error + grant_db" where
  "RecordGrantOutcome tenantID r outcome now db =
     guard (tenantID \<noteq> [] \<and> re_id r \<noteq> [] \<and> gr_TenantID (re_grant r) = tenantID \<and> \<not> IsZero now) GrantDenied
       (and_then (redemption_Complete outcome r) (\<lambda>_.
          case gd_redemptions db (re_id r) of
            None \<Rightarrow> Inl GrantDenied
          | Some row \<Rightarrow>
             guard (rr_ClaimedUse row = Some (gr_Uses (re_grant r)) \<and> rr_DenialReason row = None
                    \<and> rr_GrantID row = gr_ID (re_grant r) \<and> rr_Runner row = gr_Runner (re_grant r)) GrantDenied
               (guard (\<not> Before (to_UTC now) (rr_AttemptedAt row)) GrantConflict
                 (case gd_outcomes db (re_id r) of
                    None \<Rightarrow> Inr (db\<lparr>gd_outcomes := (gd_outcomes db)(re_id r \<mapsto> (gr_ID (re_grant r), outcome))\<rparr>)
                  | Some (g, existing) \<Rightarrow>
                     guard (g = gr_ID (re_grant r)) EvidenceUnavailable
                       (guard (existing = outcome) GrantConflict (Inr db))))))"

definition RevokeGrant ::
  "string \<Rightarrow> string \<Rightarrow> CommandAttribution \<Rightarrow> go_time \<Rightarrow> grant_db \<Rightarrow> evidence_error + grant_db" where
  "RevokeGrant tenantID grantID attribution now db =
     guard (tenantID \<noteq> [] \<and> grantID \<noteq> [] \<and> attribution_Valid attribution \<and> \<not> IsZero now) GrantDenied
       (case gd_grants db grantID of
          None \<Rightarrow> Inl GrantDenied
        | Some row \<Rightarrow>
           and_then (RestoreGrant row) (\<lambda>grant.
           and_then (grant_Revoke now grant) (\<lambda>_.
             let updated = row\<lparr>gr_RevokedAt := Some (pg_time now)\<rparr> in
             guard (gr_RevokedAt row = None) GrantConflict
               (and_then (RestoreGrant updated) (\<lambda>_.
                 Inr (db\<lparr>gd_grants := (gd_grants db)(grantID \<mapsto> updated)\<rparr>))))))"

text \<open>\<^verbatim>\<open>QuarantineIntegrity\<close> and the \<^verbatim>\<open>UpdateLifecycle\<close> it calls.\<close>

definition UpdateLifecycle :: "string \<Rightarrow> evidence_record \<Rightarrow> int \<Rightarrow> grant_db \<Rightarrow> evidence_error + grant_db" where
  "UpdateLifecycle tenantID a expectedVersion db =
     guard (tenantID \<noteq> [] \<and> ea_TenantID a = tenantID) EvidenceNotFound
       (guard (1 \<le> expectedVersion \<and> ea_Version a = i64 (expectedVersion + 1) \<and> ea_State a = StateQuarantined
               \<and> ea_QuarantinedAt a \<noteq> None) EvidenceConflict
         (case gd_assets db (ea_ID a) of
            None \<Rightarrow> Inl EvidenceVersionConflict
          | Some row \<Rightarrow>
             guard (ea_Version row = expectedVersion \<and> ea_State row = StateAvailable) EvidenceVersionConflict
               (Inr (db\<lparr>gd_assets := (gd_assets db)(ea_ID a \<mapsto>
                  row\<lparr>ea_Integrity := ea_Integrity a, ea_State := ea_State a, ea_Version := ea_Version a,
                      ea_UpdatedAt := pg_time (ea_UpdatedAt a), ea_QuarantineReason := ea_QuarantineReason a,
                      ea_QuarantinedAt := map_option pg_time (ea_QuarantinedAt a)\<rparr>)\<rparr>))))"

definition QuarantineIntegrity :: "string \<Rightarrow> evidence_record \<Rightarrow> int \<Rightarrow> grant_db \<Rightarrow> evidence_error + grant_db" where
  "QuarantineIntegrity tenantID a expectedVersion db =
     guard (ea_State a = StateQuarantined \<and> ea_Integrity a = IntegrityFailed \<and> ea_QuarantinedAt a \<noteq> None) EvidenceConflict
       (UpdateLifecycle tenantID a expectedVersion db)"

section \<open>Issuing a grant\<close>

record GrantInput =
  gi_EvidenceID :: string
  gi_CheckReference :: string
  gi_Runner :: Runner
  gi_Purpose :: string
  gi_PermittedVariants :: "string list"
  gi_RecipientReference :: string
  gi_OutputDestination :: string
  gi_MaximumUses :: nat
  gi_TTL :: duration
  gi_Attribution :: CommandAttribution

definition read_authorization :: "string \<Rightarrow> evidence_record \<Rightarrow> string \<Rightarrow> string \<Rightarrow> ReadAuthorization" where
  "read_authorization tenantID a purpose recipient =
     \<lparr>ra_TenantID = tenantID, ra_SubjectID = ea_SubjectID a, ra_VerificationID = ea_VerificationID a, ra_EvidenceID = ea_ID a,
      ra_RequirementKey = ea_RequirementKey a, ra_Purpose = purpose, ra_EvidenceType = ea_EvidenceType a,
      ra_RecipientReference = recipient, ra_Region = ea_Region a\<rparr>"

definition grant_Issue ::
  "Catalog \<Rightarrow> (ReadAuthorization \<Rightarrow> AuthorizationDecision option) \<Rightarrow> duration \<Rightarrow> string \<Rightarrow> string option \<Rightarrow> go_time \<Rightarrow> GrantInput
     \<Rightarrow> grant_db \<Rightarrow> evidence_error + GrantRecord \<times> grant_db" where
  "grant_Issue catalog authorize maximumTTL tenantID fresh clock input db =
     guard (tenantID \<noteq> [] \<and> gi_EvidenceID input \<noteq> [] \<and> 0 < gi_TTL input \<and> attribution_Valid (gi_Attribution input)
            \<and> gi_TTL input \<le> maximumTTL) GrantDenied
       (case gd_assets db (gi_EvidenceID input) of
          None \<Rightarrow> Inl ReadDenied
        | Some a \<Rightarrow>
           guard (CanRead a) ReadDenied
             (case catalog_Resolve catalog (ea_Registry a) of
                Inl _ \<Rightarrow> Inl ReadDenied
              | Inr registry \<Rightarrow>
                 guard (registry_Has registry KindPurpose (gi_Purpose input)) ReadDenied
                   (case authorize (read_authorization tenantID a (gi_Purpose input) (gi_RecipientReference input)) of
                      None \<Rightarrow> Inl ReadDenied
                    | Some decision \<Rightarrow>
                       (case fresh of
                          None \<Rightarrow> Inl EvidenceUnavailable
                        | Some identifier \<Rightarrow>
                           and_then (NewGrant
                             \<lparr>gr_ID = identifier, gr_TenantID = tenantID, gr_SubjectID = ea_SubjectID a,
                              gr_VerificationID = ea_VerificationID a, gr_EvidenceID = ea_ID a,
                              gr_RequirementKey = ea_RequirementKey a, gr_AuthorityID = ad_AuthorityID decision,
                              gr_ResponseID = ad_ResponseID decision, gr_CheckReference = gi_CheckReference input,
                              gr_Runner = gi_Runner input, gr_Purpose = gi_Purpose input, gr_Operation = OperationPlaintextRead,
                              gr_PermittedVariants = gi_PermittedVariants input, gr_Region = ea_Region a,
                              gr_RecipientReference = gi_RecipientReference input,
                              gr_OutputDestination = gi_OutputDestination input,
                              gr_PolicyReference = ad_PolicyReference decision, gr_MaximumUses = gi_MaximumUses input,
                              gr_Uses = 0, gr_CreatedAt = to_UTC clock, gr_ExpiresAt = Add (to_UTC clock) (gi_TTL input),
                              gr_RevokedAt = None\<rparr>) (\<lambda>g.
                           and_then (CreateGrant tenantID g (gi_Attribution input) db) (\<lambda>db'. Inr (g, db')))))))"

section \<open>The controlled read\<close>

datatype (plugins only: size code) read_cause = CauseCiphertextIntegrity | CauseContentIntegrity | CauseOther

text \<open>The checks between the claim and the asset: denied, already closed, or to go on.\<close>

datatype (plugins only: size code) admission = AdmitDenied | AdmitClosed | AdmitProceed

definition read_admit ::
  "string \<Rightarrow> string \<Rightarrow> string \<Rightarrow> Runner \<Rightarrow> ReceiverBinding \<Rightarrow> go_time \<Rightarrow> Redemption \<Rightarrow> admission" where
  "read_admit tenantID grantID redemptionID runner binding now r =
     (if re_id r \<noteq> redemptionID \<or> gr_TenantID (re_grant r) \<noteq> tenantID \<or> \<not> ValidFor grantID runner now r
         \<or> \<not> receiver_Binds (re_grant r) binding then AdmitDenied
      else if validGrantOutcome (re_outcome r) then AdmitClosed
      else AdmitProceed)"

definition read_permitted :: "evidence_record \<Rightarrow> AuthorizationDecision option \<Rightarrow> GrantRecord \<Rightarrow> bool" where
  "read_permitted a decision g \<longleftrightarrow> CanRead a \<and> grant_Binds a g
     \<and> (case decision of
          None \<Rightarrow> False
        | Some d \<Rightarrow> ad_AuthorityID d = gr_AuthorityID g \<and> ad_ResponseID d = gr_ResponseID g
            \<and> ad_PolicyReference d = gr_PolicyReference g)"

text \<open>
  The production of the plaintext: \<open>opened\<close> is what the opener and the closing of the ciphertext
  gave under the envelope and the authenticated context of the asset.
\<close>

definition read_produce ::
  "evidence_env \<Rightarrow> (EnvelopeRecord \<Rightarrow> crypto_context \<Rightarrow> read_cause + string) \<Rightarrow> evidence_record \<Rightarrow> read_cause + string" where
  "read_produce env opened a =
     (case AuthenticatedContext env a of
        Inl _ \<Rightarrow> Inl CauseOther
      | Inr cx \<Rightarrow>
         and_then (opened (co_Envelope (ea_Content a)) cx) (\<lambda>plain.
           guard (digest_Sum env plain = co_PlaintextDigest (ea_Content a)) CauseContentIntegrity (Inr plain)))"

text \<open>A read between its transactions.\<close>

datatype read_pc =
    Admitted Redemption
  | Permitted Redemption evidence_record AuthorizationDecision
  | Delivered Redemption
  | Quarantining Redemption evidence_record int
  | Closing Redemption grant_outcome

text \<open>\<^verbatim>\<open>failed\<close>: what follows a failure before the receiver committed.\<close>

definition read_failed :: "Redemption \<Rightarrow> evidence_record \<Rightarrow> read_cause \<Rightarrow> go_time \<Rightarrow> read_pc" where
  "read_failed r a cause now =
     (if cause = CauseOther then Closing r OutcomeFailed
      else case FailIntegrity (ea_Version a)
                  (if cause = CauseCiphertextIntegrity then ''evidence.integrity.ciphertext_object''
                   else ''evidence.integrity.plaintext_digest'') now a of
             Inl _ \<Rightarrow> Closing r OutcomeFailed
           | Inr failed \<Rightarrow> Quarantining r failed (ea_Version a))"

record read_state =
  rd_db :: grant_db
  rd_procs :: "read_pc list"
  rd_released :: "string \<Rightarrow> (evidence_record \<times> AuthorizationDecision \<times> string) option"

abbreviation goes_on :: "read_pc \<Rightarrow> read_pc list \<Rightarrow> read_state \<Rightarrow> read_state" where
  "goes_on p qs s \<equiv> s\<lparr>rd_procs := qs @ remove1 p (rd_procs s)\<rparr>"

inductive read_step :: "string \<Rightarrow> evidence_env \<Rightarrow> read_state \<Rightarrow> read_state \<Rightarrow> bool" for tenantID env where
  claims: "ClaimGrant tenantID grantID redemptionID runner now (rd_db s) = (result, db') \<Longrightarrow>
     read_step tenantID env s (s\<lparr>rd_db := db', rd_procs :=
       (case result of Inl _ \<Rightarrow> []
        | Inr r \<Rightarrow> (case read_admit tenantID grantID redemptionID runner binding now r of
             AdmitDenied \<Rightarrow> [Closing r OutcomeDenied] | AdmitClosed \<Rightarrow> [] | AdmitProceed \<Rightarrow> [Admitted r])) @ rd_procs s\<rparr>)"
| permits: "Admitted r \<in> set (rd_procs s) \<Longrightarrow> gd_assets (rd_db s) (gr_EvidenceID (re_grant r)) = Some a \<Longrightarrow>
     read_permitted a (Some d) (re_grant r) \<Longrightarrow> read_step tenantID env s (goes_on (Admitted r) [Permitted r a d] s)"
| refuses: "Admitted r \<in> set (rd_procs s) \<Longrightarrow>
     read_step tenantID env s (goes_on (Admitted r) [Closing r OutcomeDenied] s)"
| delivers: "Permitted r a d \<in> set (rd_procs s) \<Longrightarrow> rd_released s (re_id r) = None \<Longrightarrow> read_produce env opened a = Inr plain \<Longrightarrow>
     read_step tenantID env s (goes_on (Permitted r a d) [Delivered r]
       (s\<lparr>rd_released := (rd_released s)(re_id r \<mapsto> (a, d, plain))\<rparr>))"
| repeats: "Permitted r a d \<in> set (rd_procs s) \<Longrightarrow> rd_released s (re_id r) \<noteq> None \<Longrightarrow>
     read_step tenantID env s (goes_on (Permitted r a d) [Delivered r] s)"
| fails: "Permitted r a d \<in> set (rd_procs s) \<Longrightarrow>
     read_step tenantID env s (goes_on (Permitted r a d) [read_failed r a cause now] s)"
| quarantines: "Quarantining r failed v \<in> set (rd_procs s) \<Longrightarrow> QuarantineIntegrity tenantID failed v (rd_db s) = Inr db' \<Longrightarrow>
     read_step tenantID env s (goes_on (Quarantining r failed v) [Closing r OutcomeIntegrityFailed] (s\<lparr>rd_db := db'\<rparr>))"
| unquarantined: "Quarantining r failed v \<in> set (rd_procs s) \<Longrightarrow>
     read_step tenantID env s (goes_on (Quarantining r failed v) [Closing r OutcomeFailed] s)"
| audits: "Delivered r \<in> set (rd_procs s) \<Longrightarrow> RecordGrantOutcome tenantID r OutcomeSucceeded now (rd_db s) = Inr db' \<Longrightarrow>
     read_step tenantID env s (goes_on (Delivered r) [] (s\<lparr>rd_db := db'\<rparr>))"
| closes: "Closing r outcome \<in> set (rd_procs s) \<Longrightarrow> RecordGrantOutcome tenantID r outcome now (rd_db s) = Inr db' \<Longrightarrow>
     read_step tenantID env s (goes_on (Closing r outcome) [] (s\<lparr>rd_db := db'\<rparr>))"
| stops: "read_step tenantID env s (goes_on p [] s)"
| creates: "NewGrant g = Inr g' \<Longrightarrow> CreateGrant tenantID g' attribution (rd_db s) = Inr db' \<Longrightarrow>
     read_step tenantID env s (s\<lparr>rd_db := db'\<rparr>)"
| revokes: "RevokeGrant tenantID grantID attribution now (rd_db s) = Inr db' \<Longrightarrow>
     read_step tenantID env s (s\<lparr>rd_db := db'\<rparr>)"
| collects: "read_step tenantID env s (s\<lparr>rd_db := (rd_db s)\<lparr>gd_assets := assets\<rparr>\<rparr>)"

inductive_cases read_stepE: "read_step tenantID env s t"

definition read_start :: "(string \<Rightarrow> evidence_record option) \<Rightarrow> read_state" where
  "read_start assets =
     \<lparr>rd_db = \<lparr>gd_assets = assets, gd_grants = (\<lambda>_. None), gd_redemptions = (\<lambda>_. None), gd_outcomes = (\<lambda>_. None),
              gd_attempts = []\<rparr>, rd_procs = [], rd_released = (\<lambda>_. None)\<rparr>"

section \<open>Lemmas: restoring a grant\<close>

definition grant_valid :: "GrantRecord \<Rightarrow> bool" where
  "grant_valid r \<longleftrightarrow> gr_ID r \<noteq> [] \<and> gr_TenantID r \<noteq> [] \<and> gr_SubjectID r \<noteq> [] \<and> gr_VerificationID r \<noteq> [] \<and> gr_EvidenceID r \<noteq> []
     \<and> gr_AuthorityID r \<noteq> [] \<and> gr_ResponseID r \<noteq> [] \<and> grant_scope_ok r
     \<and> gr_PermittedVariants r \<noteq> [] \<and> length (gr_PermittedVariants r) \<le> 16
     \<and> (\<forall>v \<in> set (gr_PermittedVariants r). validClassification v) \<and> VariantOriginal \<in> set (gr_PermittedVariants r)
     \<and> gr_MaximumUses r \<noteq> 0 \<and> gr_MaximumUses r \<le> 32 \<and> gr_Uses r \<le> gr_MaximumUses r
     \<and> t_ns (gr_CreatedAt r) \<noteq> 0 \<and> t_ns (gr_CreatedAt r) < t_ns (gr_ExpiresAt r)
     \<and> t_ns (gr_ExpiresAt r) - t_ns (gr_CreatedAt r) \<le> hour
     \<and> (\<forall>t. gr_RevokedAt r = Some t \<longrightarrow> t_ns (gr_CreatedAt r) \<le> t_ns t)"

definition grant_norm :: "GrantRecord \<Rightarrow> GrantRecord" where
  "grant_norm r = r\<lparr>gr_CreatedAt := to_UTC (gr_CreatedAt r), gr_ExpiresAt := to_UTC (gr_ExpiresAt r),
     gr_PermittedVariants := compact (sort (gr_PermittedVariants r)), gr_RevokedAt := map_option to_UTC (gr_RevokedAt r)\<rparr>"

lemma grant_scope_ok_times [simp]:
  "grant_scope_ok (r\<lparr>gr_CreatedAt := c, gr_ExpiresAt := e\<rparr>) = grant_scope_ok r"
  by (simp add: grant_scope_ok_def)

lemma RestoreGrant_iff: "RestoreGrant r = Inr g \<longleftrightarrow> grant_valid r \<and> g = grant_norm r"
proof -
  have "Sub (to_UTC (gr_ExpiresAt r)) (to_UTC (gr_CreatedAt r)) \<le> hour \<longleftrightarrow> t_ns (gr_ExpiresAt r) - t_ns (gr_CreatedAt r) \<le> hour"
    by (subst Sub_le_iff) (simp_all add: int64_min_def int64_max_def)
  then show ?thesis
    by (cases "gr_RevokedAt r")
      (auto simp: RestoreGrant_def Let_def chain_iff grant_valid_def grant_norm_def maxGrantUses_def maxGrantLifetime_def
        list_all_iff IsZero_def After_def Before_def)
qed

lemma grant_norm_simps [simp]:
  "gr_ID (grant_norm r) = gr_ID r" "gr_Uses (grant_norm r) = gr_Uses r" "gr_MaximumUses (grant_norm r) = gr_MaximumUses r"
  "gr_Runner (grant_norm r) = gr_Runner r" "gr_TenantID (grant_norm r) = gr_TenantID r"
  "(gr_RevokedAt (grant_norm r) = None) = (gr_RevokedAt r = None)"
  "t_ns (gr_CreatedAt (grant_norm r)) = t_ns (gr_CreatedAt r)" "t_ns (gr_ExpiresAt (grant_norm r)) = t_ns (gr_ExpiresAt r)"
  by (simp_all add: grant_norm_def)

text \<open>What a grant is apart from its uses and its revocation.\<close>

definition grant_core :: "GrantRecord \<Rightarrow> GrantRecord" where
  "grant_core g = (grant_norm g)\<lparr>gr_Uses := 0, gr_RevokedAt := None\<rparr>"

lemma grant_core_simps [simp]:
  "grant_core (grant_norm g) = grant_core g" "grant_core (g\<lparr>gr_Uses := n\<rparr>) = grant_core g"
  "grant_core (g\<lparr>gr_RevokedAt := t\<rparr>) = grant_core g"
  by (simp_all add: grant_core_def grant_norm_def compact_sort_idem)

lemma grant_core_fields:
  assumes "grant_core g = grant_core h"
  shows "gr_ID g = gr_ID h" "gr_MaximumUses g = gr_MaximumUses h" "gr_Runner g = gr_Runner h"
    "read_permitted a d g = read_permitted a d h"
proof -
  show "gr_ID g = gr_ID h" "gr_MaximumUses g = gr_MaximumUses h" "gr_Runner g = gr_Runner h"
    using arg_cong [OF assms, of gr_ID] arg_cong [OF assms, of gr_MaximumUses] arg_cong [OF assms, of gr_Runner]
    by (simp_all add: grant_core_def grant_norm_def)
  have p: "read_permitted a d x = read_permitted a d (grant_core x)" for x
    by (cases d) (simp_all add: read_permitted_def grant_Binds_def grant_core_def grant_norm_def)
  show "read_permitted a d g = read_permitted a d h"
    unfolding p [of g] p [of h] assms by (rule refl)
qed

section \<open>Lemmas: the tables only grow\<close>

definition extends_db :: "grant_db \<Rightarrow> grant_db \<Rightarrow> bool" where
  "extends_db db db' \<longleftrightarrow>
     (\<forall>k row. gd_redemptions db k = Some row \<longrightarrow> gd_redemptions db' k = Some row)
     \<and> (\<forall>k g. gd_grants db k = Some g \<longrightarrow> (\<exists>g'. gd_grants db' k = Some g' \<and> grant_core g' = grant_core g))
     \<and> (\<forall>k x. gd_outcomes db k = Some x \<longrightarrow> gd_outcomes db' k = Some x)"

text \<open>Uses are counted by redemptions: the claimed uses of a grant are 1 to its use count, each once.\<close>

definition claimed_by :: "grant_db \<Rightarrow> string \<Rightarrow> nat \<Rightarrow> string \<Rightarrow> bool" where
  "claimed_by db g u k \<longleftrightarrow> (\<exists>row. gd_redemptions db k = Some row \<and> rr_GrantID row = g \<and> rr_ClaimedUse row = Some u)"

definition uses_sound :: "grant_db \<Rightarrow> bool" where
  "uses_sound db \<longleftrightarrow>
     (\<forall>k g. gd_grants db k = Some g \<longrightarrow> gr_ID g = k \<and> gr_Uses g \<le> gr_MaximumUses g \<and> gr_MaximumUses g \<le> 32)
     \<and> (\<forall>k g u. claimed_by db g u k \<longrightarrow> (\<exists>h. gd_grants db g = Some h \<and> 1 \<le> u \<and> u \<le> gr_Uses h))
     \<and> (\<forall>g u j k. claimed_by db g u j \<longrightarrow> claimed_by db g u k \<longrightarrow> j = k)
     \<and> (\<forall>g h u. gd_grants db g = Some h \<longrightarrow> 1 \<le> u \<longrightarrow> u \<le> gr_Uses h \<longrightarrow> (\<exists>k. claimed_by db g u k))"

lemma extends_db_refl: "extends_db db db"
  by (auto simp: extends_db_def)

lemma extends_dbD:
  assumes "extends_db db db'"
  shows "gd_redemptions db k = Some row \<Longrightarrow> gd_redemptions db' k = Some row"
    "gd_grants db k = Some g \<Longrightarrow> \<exists>h. gd_grants db' k = Some h \<and> grant_core h = grant_core g"
    "gd_outcomes db k = Some x \<Longrightarrow> gd_outcomes db' k = Some x"
  using assms unfolding extends_db_def by metis+

lemma extends_db_trans:
  assumes "extends_db a b" and "extends_db b c"
  shows "extends_db a c"
  unfolding extends_db_def
proof (intro conjI allI impI)
  fix k g assume "gd_grants a k = Some g"
  then obtain h where h: "gd_grants b k = Some h" "grant_core h = grant_core g" using extends_dbD(2) [OF assms(1)] by blast
  from extends_dbD(2) [OF assms(2) h(1)] h(2) show "\<exists>h. gd_grants c k = Some h \<and> grant_core h = grant_core g" by simp
next
  fix k row assume "gd_redemptions a k = Some row"
  from extends_dbD(1) [OF assms(2) extends_dbD(1) [OF assms(1) this]] show "gd_redemptions c k = Some row" .
next
  fix k x assume "gd_outcomes a k = Some x"
  from extends_dbD(3) [OF assms(2) extends_dbD(3) [OF assms(1) this]] show "gd_outcomes c k = Some x" .
qed

lemma attempt_logged [simp]:
  "gd_grants (insertGrantAccessAttempt g k d r db) = gd_grants db"
  "gd_redemptions (insertGrantAccessAttempt g k d r db) = gd_redemptions db"
  "gd_outcomes (insertGrantAccessAttempt g k d r db) = gd_outcomes db"
  by (simp_all add: insertGrantAccessAttempt_def)

text \<open>The three effects a claim can have on the tables.\<close>

lemma ClaimGrant_cases:
  assumes "ClaimGrant tenantID grantID k runner now db = (result, db')"
  obtains (same) "gd_grants db' = gd_grants db" "gd_redemptions db' = gd_redemptions db" "gd_outcomes db' = gd_outcomes db"
      "\<And>r. result = Inr r \<Longrightarrow> \<exists>row. gd_redemptions db k = Some row \<and> restoreExistingRedemption grantID k runner row db = Inr (Some r)"
  | (denied) row g where "gd_redemptions db k = None" "gd_grants db grantID = Some g"
      "gd_grants db' = gd_grants db" "gd_redemptions db' = (gd_redemptions db)(k \<mapsto> row)" "rr_ClaimedUse row = None"
      "\<And>j x. gd_outcomes db j = Some x \<Longrightarrow> gd_outcomes db' j = Some x" "result = Inl GrantDenied"
  | (claimed) g row where "gd_redemptions db k = None" "gd_grants db grantID = Some g" "gr_Uses g < gr_MaximumUses g"
      "gd_grants db' = (gd_grants db)(grantID \<mapsto> g\<lparr>gr_Uses := gr_Uses g + 1\<rparr>)"
      "row = \<lparr>rr_GrantID = grantID, rr_Runner = gr_Runner g, rr_ClaimedUse = Some (gr_Uses g + 1), rr_DenialReason = None,
              rr_AttemptedAt = pg_time now\<rparr>"
      "gd_redemptions db' = (gd_redemptions db)(k \<mapsto> row)" "gd_outcomes db' = gd_outcomes db"
      "result = Inr \<lparr>re_id = k, re_grant = grant_norm (g\<lparr>gr_Uses := gr_Uses g + 1\<rparr>), re_outcome = OutcomePending\<rparr>"
proof (cases "gd_redemptions db k")
  case (Some row)
  with assms have "gd_grants db' = gd_grants db" "gd_redemptions db' = gd_redemptions db" "gd_outcomes db' = gd_outcomes db"
      "result = Inr r \<Longrightarrow> restoreExistingRedemption grantID k runner row db = Inr (Some r)" for r
    by (auto simp: ClaimGrant_def split: if_splits sum.splits option.splits)
  with Some show ?thesis by (intro same) auto
next
  case None
  show ?thesis
  proof (cases "tenantID = [] \<or> grantID = [] \<or> k = [] \<or> \<not> runner_Valid runner \<or> IsZero now \<or> gd_grants db grantID = None")
    case True
    with assms None show ?thesis by (intro same) (auto simp: ClaimGrant_def split: if_splits)
  next
    case False
    then obtain g where g: "gd_grants db grantID = Some g" by blast
    with assms None False have new: "claim_new grantID k runner now g db = (result, db')"
      by (auto simp: ClaimGrant_def)
    show ?thesis
    proof (cases "grant_valid g")
      case invalid: False
      then have "\<not> (\<exists>h. RestoreGrant g = Inr h)" by (simp add: RestoreGrant_iff)
      with new show ?thesis by (intro same) (auto simp: claim_new_def split: sum.splits)
    next
      case valid: True
      then have restored: "RestoreGrant g = Inr (grant_norm g)" by (simp add: RestoreGrant_iff)
      show ?thesis
      proof (cases "grant_Claim runner now (grant_norm g)")
        case (Inl e)
        with new restored None g show ?thesis
          by (intro denied) (auto simp: claim_new_def recordDeniedRedemption_def split: option.splits)
      next
        case (Inr h)
        then have h: "runner = gr_Runner g" "gr_Uses g < gr_MaximumUses g" "h = (grant_norm g)\<lparr>gr_Uses := gr_Uses g + 1\<rparr>"
          by (auto simp: grant_Claim_def chain_iff)
        have "grant_valid (g\<lparr>gr_Uses := gr_Uses g + 1\<rparr>)"
          using valid h(2) by (simp add: grant_valid_def grant_scope_ok_def)
        then have "RestoreGrant (g\<lparr>gr_Uses := gr_Uses g + 1\<rparr>) = Inr (grant_norm (g\<lparr>gr_Uses := gr_Uses g + 1\<rparr>))"
          by (simp add: RestoreGrant_iff)
        moreover have "RestoreRedemption k (grant_norm (g\<lparr>gr_Uses := gr_Uses g + 1\<rparr>)) OutcomePending =
            Inr \<lparr>re_id = k, re_grant = grant_norm (g\<lparr>gr_Uses := gr_Uses g + 1\<rparr>), re_outcome = OutcomePending\<rparr>"
          using False valid by (simp add: RestoreRedemption_def grant_valid_def)
        ultimately show ?thesis
          using new restored Inr h None g by (intro claimed) (auto simp: claim_new_def Let_def)
      qed
    qed
  qed
qed


lemma ClaimGrant_extends:
  assumes "ClaimGrant tenantID grantID k runner now db = (result, db')"
  shows "extends_db db db'"
  using assms by (cases rule: ClaimGrant_cases) (auto simp: extends_db_def)

lemma RecordGrantOutcome_Inr:
  assumes "RecordGrantOutcome tenantID r outcome now db = Inr db'"
  shows "gd_grants db' = gd_grants db \<and> gd_redemptions db' = gd_redemptions db \<and> gd_assets db' = gd_assets db
    \<and> (gd_outcomes db' = gd_outcomes db \<or>
        gd_outcomes db (re_id r) = None \<and> gd_outcomes db' = (gd_outcomes db)(re_id r \<mapsto> (gr_ID (re_grant r), outcome)))"
  using assms by (auto simp: RecordGrantOutcome_def chain_iff split: option.splits)

lemma RevokeGrant_Inr:
  assumes "RevokeGrant tenantID grantID attribution now db = Inr db'"
  obtains g where "gd_grants db grantID = Some g"
    "db' = db\<lparr>gd_grants := (gd_grants db)(grantID \<mapsto> g\<lparr>gr_RevokedAt := Some (pg_time now)\<rparr>)\<rparr>"
  using assms by (auto simp: RevokeGrant_def chain_iff Let_def split: option.splits)

lemma CreateGrant_Inr:
  assumes "CreateGrant tenantID g attribution db = Inr db'"
  shows "gd_grants db (gr_ID g) = None \<and> gr_Uses g = 0 \<and> db' = db\<lparr>gd_grants := (gd_grants db)(gr_ID g \<mapsto>
    g\<lparr>gr_CreatedAt := pg_time (gr_CreatedAt g), gr_ExpiresAt := pg_time (gr_ExpiresAt g)\<rparr>)\<rparr>"
  using assms by (auto simp: CreateGrant_def chain_iff)

lemma QuarantineIntegrity_Inr:
  assumes "QuarantineIntegrity tenantID a v db = Inr db'"
  shows "gd_grants db' = gd_grants db \<and> gd_redemptions db' = gd_redemptions db \<and> gd_outcomes db' = gd_outcomes db"
  using assms by (auto simp: QuarantineIntegrity_def UpdateLifecycle_def chain_iff split: option.splits)

lemma NewGrant_Inr: "NewGrant g = Inr h \<Longrightarrow> gr_MaximumUses h \<le> 32"
  by (auto simp: NewGrant_def RestoreGrant_iff grant_valid_def)

lemma step_extends:
  assumes "read_step tenantID env s t"
  shows "extends_db (rd_db s) (rd_db t)"
  using assms
proof cases
  case (claims grantID k runner now result db' binding)
  then show ?thesis using ClaimGrant_extends by simp
next
  case (quarantines r failed v db')
  then show ?thesis using QuarantineIntegrity_Inr by (fastforce simp: extends_db_def)
next
  case (audits r now db')
  then show ?thesis using RecordGrantOutcome_Inr by (fastforce simp: extends_db_def)
next
  case (closes r outcome now db')
  then show ?thesis using RecordGrantOutcome_Inr by (fastforce simp: extends_db_def)
next
  case (creates g g' attribution db')
  then show ?thesis using CreateGrant_Inr by (fastforce simp: extends_db_def)
next
  case (revokes grantID attribution now db')
  then show ?thesis by (auto simp: extends_db_def elim!: RevokeGrant_Inr)
qed (auto simp: extends_db_def)

lemma uses_sound_cong:
  "claimed_by db' = claimed_by db \<Longrightarrow> gd_grants db' = gd_grants db \<Longrightarrow> uses_sound db' = uses_sound db"
  by (simp add: uses_sound_def)

lemma uses_sound_same_uses:
  assumes "uses_sound db" and c: "claimed_by db' = claimed_by db"
    and new: "\<And>k h. gd_grants db' k = Some h \<Longrightarrow> gr_ID h = k \<and> gr_Uses h \<le> gr_MaximumUses h \<and> gr_MaximumUses h \<le> 32
      \<and> (gr_Uses h = 0 \<or> (\<exists>g. gd_grants db k = Some g \<and> gr_Uses g = gr_Uses h))"
    and old: "\<And>k g. gd_grants db k = Some g \<Longrightarrow> \<exists>h. gd_grants db' k = Some h \<and> gr_Uses h = gr_Uses g"
  shows "uses_sound db'"
  unfolding uses_sound_def c
proof (intro conjI allI impI)
  note u = assms(1) [unfolded uses_sound_def]
  fix k g v assume "claimed_by db g v k"
  then obtain h where "gd_grants db g = Some h" "1 \<le> v" "v \<le> gr_Uses h" using u by blast
  then show "\<exists>h. gd_grants db' g = Some h \<and> 1 \<le> v \<and> v \<le> gr_Uses h" using old by fastforce
next
  fix g h v assume "gd_grants db' g = Some h" "1 \<le> v" "v \<le> gr_Uses h"
  then obtain x where "gd_grants db g = Some x" "gr_Uses x = gr_Uses h" using new by fastforce
  then show "\<exists>k. claimed_by db g v k"
    using assms(1) \<open>1 \<le> v\<close> \<open>v \<le> gr_Uses h\<close> by (auto simp: uses_sound_def)
qed (use assms(1) new in \<open>auto simp: uses_sound_def\<close>)

lemma ClaimGrant_uses:
  assumes "ClaimGrant tenantID grantID k runner now db = (result, db')" and "uses_sound db"
  shows "uses_sound db'"
  using assms(1)
proof (cases rule: ClaimGrant_cases)
  case same
  then have "claimed_by db' = claimed_by db" by (intro ext) (simp add: claimed_by_def)
  then show ?thesis using assms(2) same uses_sound_cong [of db' db] by blast
next
  case (denied row g)
  then have "claimed_by db' = claimed_by db" by (intro ext) (auto simp: claimed_by_def)
  then show ?thesis using assms(2) denied uses_sound_cong [of db' db] by blast
next
  case (claimed g row)
  note u = assms(2) [unfolded uses_sound_def]
  have who: "claimed_by db' h v j \<longleftrightarrow> claimed_by db h v j \<or> h = grantID \<and> v = gr_Uses g + 1 \<and> j = k" for h v j
    using claimed(1,5,6) by (auto simp: claimed_by_def)
  have low: "v \<le> gr_Uses g" if "claimed_by db grantID v j" for v j
    using u that claimed(2) by (metis option.inject)
  have ok: "gr_ID g = grantID" "gr_MaximumUses g \<le> 32" using u claimed(2) by blast+
  show ?thesis
    unfolding uses_sound_def
  proof (intro conjI allI impI)
    fix j h assume "gd_grants db' j = Some h"
    then show "gr_ID h = j" "gr_Uses h \<le> gr_MaximumUses h" "gr_MaximumUses h \<le> 32"
      using u claimed(3,4) ok by (auto split: if_splits)
  next
    fix j h v assume "claimed_by db' h v j"
    then consider "claimed_by db h v j" | "h = grantID" "v = gr_Uses g + 1" unfolding who by blast
    then show "\<exists>x. gd_grants db' h = Some x \<and> 1 \<le> v \<and> v \<le> gr_Uses x"
    proof cases
      case 1
      then obtain x where "gd_grants db h = Some x" "1 \<le> v" "v \<le> gr_Uses x" using u by blast
      then show ?thesis using claimed(2,4) by auto
    next
      case 2
      then show ?thesis using claimed(4) by simp
    qed
  next
    fix h v i j assume "claimed_by db' h v i" "claimed_by db' h v j"
    then show "i = j" unfolding who using u low by fastforce
  next
    fix h x v assume a: "gd_grants db' h = Some x" "1 \<le> v" "v \<le> gr_Uses x"
    then have "h = grantID \<and> v = gr_Uses g + 1 \<or> (\<exists>y. gd_grants db h = Some y \<and> v \<le> gr_Uses y)"
      using claimed(2,4) by (auto split: if_splits)
    then show "\<exists>j. claimed_by db' h v j" unfolding who using u a(2) by blast
  qed
qed

lemma step_uses:
  assumes "read_step tenantID env s t" and "uses_sound (rd_db s)"
  shows "uses_sound (rd_db t)"
  using assms(1)
proof cases
  case (claims grantID k runner now result db' binding)
  then show ?thesis using ClaimGrant_uses assms(2) by simp
next
  case (quarantines r failed v db')
  have "claimed_by (rd_db t) = claimed_by (rd_db s)" "gd_grants (rd_db t) = gd_grants (rd_db s)"
    using quarantines QuarantineIntegrity_Inr by (auto simp: claimed_by_def intro!: ext)
  then show ?thesis using assms(2) uses_sound_cong by blast
next
  case (audits r now db')
  have "claimed_by (rd_db t) = claimed_by (rd_db s)" "gd_grants (rd_db t) = gd_grants (rd_db s)"
    using audits RecordGrantOutcome_Inr by (auto simp: claimed_by_def intro!: ext)
  then show ?thesis using assms(2) uses_sound_cong by blast
next
  case (closes r outcome now db')
  have "claimed_by (rd_db t) = claimed_by (rd_db s)" "gd_grants (rd_db t) = gd_grants (rd_db s)"
    using closes RecordGrantOutcome_Inr by (auto simp: claimed_by_def intro!: ext)
  then show ?thesis using assms(2) uses_sound_cong by blast
next
  case (creates g g' attribution db')
  note c = CreateGrant_Inr [OF creates(3)] and m = NewGrant_Inr [OF creates(2)]
  have "claimed_by db' = claimed_by (rd_db s)" using c by (simp add: claimed_by_def [abs_def])
  then have "uses_sound db'"
    by (rule uses_sound_same_uses [OF assms(2)]) (use assms(2) c m in \<open>auto simp: uses_sound_def split: if_splits\<close>)
  then show ?thesis using creates(1) by simp
next
  case (revokes grantID attribution now db')
  from revokes(2) obtain g where g: "gd_grants (rd_db s) grantID = Some g"
      "db' = (rd_db s)\<lparr>gd_grants := (gd_grants (rd_db s))(grantID \<mapsto> g\<lparr>gr_RevokedAt := Some (pg_time now)\<rparr>)\<rparr>"
    by (rule RevokeGrant_Inr)
  have "claimed_by db' = claimed_by (rd_db s)" using g by (simp add: claimed_by_def [abs_def])
  then have "uses_sound db'"
    by (rule uses_sound_same_uses [OF assms(2)]) (use assms(2) g in \<open>auto simp: uses_sound_def split: if_splits\<close>)
  then show ?thesis using revokes(1) by simp
qed (use assms(2) in \<open>auto simp: uses_sound_def claimed_by_def\<close>)

section \<open>Lemmas: reads\<close>

definition redemption_sound :: "grant_db \<Rightarrow> Redemption \<Rightarrow> bool" where
  "redemption_sound db r \<longleftrightarrow> (\<exists>row g. gd_redemptions db (re_id r) = Some row \<and> rr_ClaimedUse row = Some (gr_Uses (re_grant r))
     \<and> rr_GrantID row = gr_ID (re_grant r) \<and> gd_grants db (gr_ID (re_grant r)) = Some g
     \<and> grant_core g = grant_core (re_grant r))"

fun proc_sound :: "grant_db \<Rightarrow> read_pc \<Rightarrow> bool" where
  "proc_sound db (Admitted r) = redemption_sound db r"
| "proc_sound db (Permitted r a d) = (redemption_sound db r \<and> read_permitted a (Some d) (re_grant r))"
| "proc_sound db (Delivered r) = redemption_sound db r"
| "proc_sound db (Quarantining r a v) = redemption_sound db r"
| "proc_sound db (Closing r outcome) = redemption_sound db r"

definition released_sound :: "evidence_env \<Rightarrow> grant_db \<Rightarrow> string \<Rightarrow> evidence_record \<times> AuthorizationDecision \<times> string \<Rightarrow> bool" where
  "released_sound env db k x = (case x of (a, d, plain) \<Rightarrow>
     (\<exists>row g. gd_redemptions db k = Some row \<and> rr_ClaimedUse row \<noteq> None \<and> gd_grants db (rr_GrantID row) = Some g
       \<and> read_permitted a (Some d) g \<and> digest_Sum env plain = co_PlaintextDigest (ea_Content a)))"

definition read_sound :: "evidence_env \<Rightarrow> read_state \<Rightarrow> bool" where
  "read_sound env s \<longleftrightarrow> uses_sound (rd_db s) \<and> (\<forall>p \<in> set (rd_procs s). proc_sound (rd_db s) p)
     \<and> (\<forall>k x. rd_released s k = Some x \<longrightarrow> released_sound env (rd_db s) k x)"

lemma redemption_sound_mono: "extends_db db db' \<Longrightarrow> redemption_sound db r \<Longrightarrow> redemption_sound db' r"
  unfolding extends_db_def redemption_sound_def by metis

lemma proc_sound_mono: "extends_db db db' \<Longrightarrow> proc_sound db p \<Longrightarrow> proc_sound db' p"
  by (cases p) (auto intro: redemption_sound_mono)

lemma released_sound_mono: "extends_db db db' \<Longrightarrow> released_sound env db k x \<Longrightarrow> released_sound env db' k x"
  by (cases x) (fastforce simp: extends_db_def released_sound_def dest: grant_core_fields(4))

lemma restoreExisting_Inr:
  assumes "restoreExistingRedemption grantID k runner row db = Inr (Some r)"
  obtains u g where "rr_ClaimedUse row = Some u" "rr_GrantID row = grantID" "rr_Runner row = runner" "rr_DenialReason row = None"
    "gd_grants db grantID = Some g" "grant_valid (g\<lparr>gr_Uses := u\<rparr>)" "re_grant r = grant_norm (g\<lparr>gr_Uses := u\<rparr>)" "re_id r = k"
  using assms
  by (auto simp: restoreExistingRedemption_def RestoreRedemption_def RestoreGrant_iff chain_iff split: option.splits if_splits)

lemma ClaimGrant_sound:
  assumes "ClaimGrant tenantID grantID k runner now db = (Inr r, db')" and "uses_sound db"
  shows "redemption_sound db' r"
  using assms(1)
proof (cases rule: ClaimGrant_cases)
  case same
  then obtain row where row: "gd_redemptions db k = Some row" "restoreExistingRedemption grantID k runner row db = Inr (Some r)"
    by blast
  from row(2) obtain u g where g: "rr_ClaimedUse row = Some u" "rr_GrantID row = grantID" "gd_grants db grantID = Some g"
      "re_grant r = grant_norm (g\<lparr>gr_Uses := u\<rparr>)" "re_id r = k"
    by (rule restoreExisting_Inr) blast
  moreover have "gr_ID g = grantID" using assms(2) g(3) by (simp add: uses_sound_def)
  ultimately show ?thesis using row(1) same by (simp add: redemption_sound_def)
next
  case (claimed g row)
  moreover have "gr_ID g = grantID" using assms(2) claimed(2) by (simp add: uses_sound_def)
  ultimately show ?thesis by (auto simp: redemption_sound_def)
qed simp

lemma read_produce_digest: "read_produce env opened a = Inr plain \<Longrightarrow> digest_Sum env plain = co_PlaintextDigest (ea_Content a)"
  by (auto simp: read_produce_def chain_iff split: sum.splits)

lemma delivers_sound:
  assumes "redemption_sound db r" and "read_permitted a (Some d) (re_grant r)" and "read_produce env opened a = Inr plain"
  shows "released_sound env db (re_id r) (a, d, plain)"
proof -
  obtain row g where "gd_redemptions db (re_id r) = Some row" "rr_ClaimedUse row = Some (gr_Uses (re_grant r))"
      "rr_GrantID row = gr_ID (re_grant r)" "gd_grants db (gr_ID (re_grant r)) = Some g" "grant_core g = grant_core (re_grant r)"
    using assms(1) by (auto simp: redemption_sound_def)
  then show ?thesis
    using assms(2) read_produce_digest [OF assms(3)] grant_core_fields(4) [of g "re_grant r"] by (auto simp: released_sound_def)
qed

lemma read_failed_sound: "redemption_sound db r \<Longrightarrow> proc_sound db (read_failed r a cause now)"
  by (auto simp: read_failed_def split: sum.splits)

lemma step_procs:
  assumes "read_step tenantID env s t" and "read_sound env s"
  shows "\<forall>p \<in> set (rd_procs t). proc_sound (rd_db t) p"
proof -
  have old: "proc_sound (rd_db t) p" if "p \<in> set (rd_procs s)" for p
    using that assms(2) proc_sound_mono [OF step_extends [OF assms(1)]] by (auto simp: read_sound_def)
  have kept: "proc_sound (rd_db t) p" if "p \<in> set (remove1 q (rd_procs s))" for p q
    using old set_remove1_subset that by fast
  from assms(1) show ?thesis
  proof cases
    case (claims grantID k runner now result db' binding)
    have "redemption_sound (rd_db t) r" if "result = Inr r" for r
      using ClaimGrant_sound [of tenantID grantID k runner now "rd_db s" r db'] claims that assms(2) by (simp add: read_sound_def)
    then show ?thesis using claims old by (auto split: sum.splits admission.splits)
  qed (use old kept read_failed_sound in \<open>fastforce simp del: set_remove1_eq\<close>)+
qed

lemma step_sound:
  assumes "read_step tenantID env s t" and "read_sound env s"
  shows "read_sound env t"
proof -
  have old: "released_sound env (rd_db t) k x" if "rd_released s k = Some x" for k x
    by (rule released_sound_mono [OF step_extends [OF assms(1)]],
        rule assms(2) [unfolded read_sound_def, THEN conjunct2, THEN conjunct2, rule_format, OF that])
  from assms(1) have "\<forall>k x. rd_released t k = Some x \<longrightarrow> released_sound env (rd_db t) k x"
  proof cases
    case (delivers r a d opened plain)
    have "proc_sound (rd_db s) (Permitted r a d)" using delivers assms(2) by (auto simp: read_sound_def)
    then have "released_sound env (rd_db s) (re_id r) (a, d, plain)" using delivers by (auto intro: delivers_sound)
    then show ?thesis using delivers old by (auto split: if_splits)
  qed (use old in auto)
  then show ?thesis
    using step_procs [OF assms] step_uses [OF assms(1)] assms(2) by (simp add: read_sound_def)
qed

lemma read_run_sound: "(read_step tenantID env)\<^sup>*\<^sup>* (read_start assets) s \<Longrightarrow> read_sound env s"
proof (induction rule: rtranclp_induct)
  case base
  then show ?case by (simp add: read_sound_def read_start_def uses_sound_def claimed_by_def)
qed (rule step_sound)

lemma run_extends: "(read_step tenantID env)\<^sup>*\<^sup>* s t \<Longrightarrow> extends_db (rd_db s) (rd_db t)"
  by (induction rule: rtranclp_induct) (auto intro: extends_db_refl extends_db_trans step_extends)

lemma run_released: "(read_step tenantID env)\<^sup>*\<^sup>* s t \<Longrightarrow> rd_released s k = Some x \<Longrightarrow> rd_released t k = Some x"
proof (induction rule: rtranclp_induct)
  case (step t u)
  from step(2) step.IH step.prems show ?case by cases auto
qed

section \<open>Samples\<close>

definition sample_runner :: Runner where
  "sample_runner = \<lparr>rn_Identity = ''u'', rn_WorkloadVersion = ''v''\<rparr>"

definition sample_actor :: Actor where
  "sample_actor = \<lparr>ac_Type = ''a.k'', ac_ID = ''k''\<rparr>"

definition sample_attribution :: CommandAttribution where
  "sample_attribution = \<lparr>ab_Principal = sample_actor, ab_TenantActor = sample_actor, ab_Reason = ''r''\<rparr>"

definition sample_grant :: GrantRecord where
  "sample_grant =
     \<lparr>gr_ID = ''g'', gr_TenantID = ''ten'', gr_SubjectID = ''sub'', gr_VerificationID = ''ver'', gr_EvidenceID = ''e'',
      gr_RequirementKey = ''face'', gr_AuthorityID = ''au'', gr_ResponseID = ''re'', gr_CheckReference = ''c.f'', gr_Runner = sample_runner,
      gr_Purpose = ''p.v'', gr_Operation = OperationPlaintextRead, gr_PermittedVariants = [VariantOriginal], gr_Region = ''eu.w'',
      gr_RecipientReference = ''r.f'', gr_OutputDestination = ''o.d'', gr_PolicyReference = ''p.r'', gr_MaximumUses = 1, gr_Uses = 0,
      gr_CreatedAt = utc_at second, gr_ExpiresAt = utc_at (2 * second), gr_RevokedAt = None\<rparr>"

definition sample_plain :: string where
  "sample_plain = ''x''"

text \<open>The sample asset with the digest of the sample plaintext.\<close>

definition sample_evidence :: evidence_record where
  "sample_evidence = (sample_asset_for ''e'')\<lparr>ea_Content := (ea_Content (sample_asset_for ''e''))
     \<lparr>co_PlaintextDigest := digest_Sum sample_evidence_env sample_plain\<rparr>\<rparr>"

definition sample_decision :: AuthorizationDecision where
  "sample_decision = \<lparr>ad_AuthorityID = ''au'', ad_ResponseID = ''re'', ad_PolicyReference = ''p.r''\<rparr>"

definition sample_binding :: ReceiverBinding where
  "sample_binding = \<lparr>rb_Runner = sample_runner, rb_CheckReference = ''c.f'', rb_OutputDestination = ''o.d''\<rparr>"

lemma sample_grant_labels:
  "validClassification ''c.f''" "validClassification ''p.v''" "validClassification ''eu.w''" "validClassification ''r.f''"
  "validClassification ''o.d''" "validClassification ''p.r''" "validClassification VariantOriginal" "runner_Valid sample_runner"
  "attribution_Valid sample_attribution" "validRequirementKey ''face''"
  by (simp_all add: validClassification_def maxClassificationLength_def VariantOriginal_def runner_Valid_def attribution_Valid_def
      validGrantLabel_def validAuditReason_def sample_runner_def sample_attribution_def sample_actor_def graphic_runes
      graphic_no_space graphic_def rune_IsSpace_def IsControl_def token_simps)

lemma sample_grant_valid: "grant_valid sample_grant" "grant_norm sample_grant = sample_grant"
  by (simp_all add: grant_valid_def grant_norm_def grant_scope_ok_def sample_grant_def sample_grant_labels to_UTC_def
      del: validRequirementKey.simps)


definition sample_released :: read_state where
  "sample_released =
     \<lparr>rd_db = \<lparr>gd_assets = [''e'' \<mapsto> sample_evidence], gd_grants = [''g'' \<mapsto> sample_grant\<lparr>gr_Uses := 1\<rparr>],
        gd_redemptions = [''k'' \<mapsto> \<lparr>rr_GrantID = ''g'', rr_Runner = sample_runner, rr_ClaimedUse = Some 1, rr_DenialReason = None,
          rr_AttemptedAt = utc_at second\<rparr>], gd_outcomes = (\<lambda>_. None),
        gd_attempts = [\<lparr>aa_GrantID = ''g'', aa_RedemptionID = ''k'', aa_Decision = ''claimed'', aa_Reason = None\<rparr>]\<rparr>,
      rd_procs = [], rd_released = [''k'' \<mapsto> (sample_evidence, sample_decision, sample_plain)]\<rparr>"

definition sample_redemption :: Redemption where
  "sample_redemption = \<lparr>re_id = ''k'', re_grant = sample_grant\<lparr>gr_Uses := 1\<rparr>, re_outcome = OutcomePending\<rparr>"

lemma sample_norm: "grant_norm (sample_grant\<lparr>gr_Uses := n\<rparr>) = sample_grant\<lparr>gr_Uses := n\<rparr>"
  using sample_grant_valid(2) by (simp add: grant_norm_def sample_grant_def)

lemma sample_valid_used: "n \<le> 1 \<Longrightarrow> grant_valid (sample_grant\<lparr>gr_Uses := n\<rparr>)"
  using sample_grant_valid(1) by (simp add: grant_valid_def grant_scope_ok_def sample_grant_def)

lemma sample_grant_fields [simp]:
  "gr_ID sample_grant = ''g''" "gr_Uses sample_grant = 0" "gr_MaximumUses sample_grant = 1" "gr_Runner sample_grant = sample_runner"
  "gr_TenantID sample_grant = ''ten''" "gr_RevokedAt sample_grant = None" "gr_CreatedAt sample_grant = utc_at second"
  "gr_ExpiresAt sample_grant = utc_at (2 * second)" "gr_EvidenceID sample_grant = ''e''"
  "gr_CheckReference sample_grant = ''c.f''" "gr_OutputDestination sample_grant = ''o.d''"
  by (simp_all add: sample_grant_def)

lemma sample_pg [simp]: "pg_time (utc_at second) = utc_at second" "pg_time (utc_at 2000000000) = utc_at 2000000000"
  by (simp_all add: pg_time_def Truncate_def to_UTC_def)

lemma sample_creates:
  "NewGrant sample_grant = Inr sample_grant"
  "CreateGrant ''ten'' sample_grant sample_attribution (rd_db (read_start [''e'' \<mapsto> sample_evidence])) =
     Inr ((rd_db (read_start [''e'' \<mapsto> sample_evidence]))\<lparr>gd_grants := [''g'' \<mapsto> sample_grant]\<rparr>)"
proof -
  have "sample_grant\<lparr>gr_Uses := 0, gr_RevokedAt := None\<rparr> = sample_grant" by (simp add: sample_grant_def)
  then show "NewGrant sample_grant = Inr sample_grant"
    unfolding NewGrant_def RestoreGrant_iff using sample_grant_valid by (simp only: simp_thms)
  have eq: "sample_grant\<lparr>gr_CreatedAt := utc_at second, gr_ExpiresAt := utc_at 2000000000\<rparr> = sample_grant"
    by (simp add: sample_grant_def)
  show "CreateGrant ''ten'' sample_grant sample_attribution (rd_db (read_start [''e'' \<mapsto> sample_evidence])) =
     Inr ((rd_db (read_start [''e'' \<mapsto> sample_evidence]))\<lparr>gd_grants := [''g'' \<mapsto> sample_grant]\<rparr>)"
    by (simp add: CreateGrant_def sample_grant_labels read_start_def) (simp only: eq)
qed

lemma sample_claims:
  "ClaimGrant ''ten'' ''g'' ''k'' sample_runner (utc_at second)
     ((rd_db (read_start [''e'' \<mapsto> sample_evidence]))\<lparr>gd_grants := [''g'' \<mapsto> sample_grant]\<rparr>) =
   (Inr sample_redemption, rd_db sample_released)"
proof -
  have c: "RestoreGrant sample_grant = Inr sample_grant"
    using sample_grant_valid by (simp add: RestoreGrant_iff)
  have u: "RestoreGrant (sample_grant\<lparr>gr_Uses := 1\<rparr>) = Inr (sample_grant\<lparr>gr_Uses := 1\<rparr>)"
    using sample_valid_used [of 1] by (simp add: RestoreGrant_iff sample_norm)
  have "grant_Claim sample_runner (utc_at second) sample_grant = Inr (sample_grant\<lparr>gr_Uses := 1\<rparr>)"
    by (simp add: grant_Claim_def Before_def)
  with c u show ?thesis
    by (simp add: ClaimGrant_def claim_new_def Let_def read_start_def sample_grant_labels IsZero_def RestoreRedemption_def
        insertGrantAccessAttempt_def sample_released_def sample_redemption_def)
qed

lemma sample_admits:
  "read_admit ''ten'' ''g'' ''k'' sample_runner sample_binding (utc_at second) sample_redemption = AdmitProceed"
  by (simp add: read_admit_def sample_redemption_def ValidFor_def ClaimedFor_def receiver_Binds_def sample_binding_def Before_def)

lemma sample_evidence_permitted: "read_permitted sample_evidence (Some sample_decision) (re_grant sample_redemption)"
  by (simp add: read_permitted_def CanRead_def grant_Binds_def sample_evidence_def sample_asset_for_def Let_def sample_redemption_def
      sample_grant_def sample_decision_def)

lemma sample_produces: "read_produce sample_evidence_env (\<lambda>_ _. Inr sample_plain) sample_evidence = Inr sample_plain"
  by (simp add: read_produce_def AuthenticatedContext_def context_document_def NewContext_def maxContextLength_def
      sample_evidence_def sample_asset_for_def Let_def ContentEncryptionPurpose_def ContentContextSchemaVersion_def)

lemma sample_reaches: "(read_step ''ten'' sample_evidence_env)\<^sup>*\<^sup>* (read_start [''e'' \<mapsto> sample_evidence]) sample_released"
proof -
  let ?db1 = "(rd_db (read_start [''e'' \<mapsto> sample_evidence]))\<lparr>gd_grants := [''g'' \<mapsto> sample_grant]\<rparr>"
  let ?s1 = "(read_start [''e'' \<mapsto> sample_evidence])\<lparr>rd_db := ?db1\<rparr>"
  let ?s2 = "?s1\<lparr>rd_db := rd_db sample_released, rd_procs := [Admitted sample_redemption]\<rparr>"
  let ?s3 = "?s2\<lparr>rd_procs := [Permitted sample_redemption sample_evidence sample_decision]\<rparr>"
  let ?s4 = "?s3\<lparr>rd_procs := [Delivered sample_redemption], rd_released := rd_released sample_released\<rparr>"
  have "read_step ''ten'' sample_evidence_env (read_start [''e'' \<mapsto> sample_evidence]) ?s1"
    by (rule creates [OF sample_creates])
  moreover have "read_step ''ten'' sample_evidence_env ?s1 ?s2"
    using claims [of "''ten''" "''g''" "''k''" sample_runner "utc_at second" ?s1 "Inr sample_redemption" "rd_db sample_released"
        sample_evidence_env sample_binding] sample_claims
    by (simp add: sample_admits read_start_def)
  moreover have "read_step ''ten'' sample_evidence_env ?s2 ?s3"
    using permits [of sample_redemption ?s2 sample_evidence sample_decision "''ten''" sample_evidence_env] sample_evidence_permitted
    by (simp add: sample_released_def sample_redemption_def)
  moreover have "read_step ''ten'' sample_evidence_env ?s3 ?s4"
    using delivers [of sample_redemption sample_evidence sample_decision ?s3 sample_evidence_env "\<lambda>_ _. Inr sample_plain" sample_plain "''ten''"]
      sample_produces
    by (simp add: read_start_def sample_released_def sample_redemption_def fun_upd_def)
  moreover have "read_step ''ten'' sample_evidence_env ?s4 sample_released"
    using stops [of "''ten''" sample_evidence_env ?s4 "Delivered sample_redemption"]
    by (simp add: read_start_def sample_released_def)
  ultimately show ?thesis by (meson rtranclp.rtrancl_refl rtranclp.rtrancl_into_rtrancl)
qed

section \<open>Properties\<close>





text \<open>
  C37. A delivery can be recorded as a denial: when plaintext was committed to its receiver but the success was
  not yet recorded, and the same redemption is read again at or after the expiry of its grant,
  the read records the terminal outcome \<^verbatim>\<open>denied\<close>, and the redemption stays denied although its plaintext was released.
\<close>

theorem released_then_denied:
  assumes "(read_step tenantID env)\<^sup>*\<^sup>* (read_start assets) s" and "rd_released s k \<noteq> None" and "gd_outcomes (rd_db s) k = None"
    and "ClaimGrant tenantID g k runner now (rd_db s) = (Inr r, db')"
    and "gr_TenantID (re_grant r) = tenantID" and "gr_Runner (re_grant r) = runner"
    and "\<not> Before (to_UTC now) (gr_ExpiresAt (re_grant r))"
    and "\<And>row. gd_redemptions (rd_db s) k = Some row \<Longrightarrow> \<not> Before (to_UTC now) (rr_AttemptedAt row)"
  shows "\<exists>t. (read_step tenantID env)\<^sup>*\<^sup>* s t \<and> gd_outcomes (rd_db t) k = Some (g, OutcomeDenied)
    \<and> rd_released t k = rd_released s k
    \<and> (\<forall>u. (read_step tenantID env)\<^sup>*\<^sup>* t u \<longrightarrow> gd_outcomes (rd_db u) k = Some (g, OutcomeDenied))"
proof -
  have sound: "read_sound env s" using assms(1) by (rule read_run_sound)
  have old: "gd_redemptions (rd_db s) k \<noteq> None"
    using assms(2) sound by (fastforce simp: read_sound_def released_sound_def)
  from assms(4) old obtain row where row: "gd_redemptions (rd_db s) k = Some row" "gd_redemptions db' = gd_redemptions (rd_db s)"
      "gd_outcomes db' = gd_outcomes (rd_db s)" "restoreExistingRedemption g k runner row (rd_db s) = Inr (Some r)"
    by (cases rule: ClaimGrant_cases) auto
  from row(4) obtain v h where h: "rr_ClaimedUse row = Some v" "rr_GrantID row = g" "rr_Runner row = runner" "rr_DenialReason row = None"
      "gd_grants (rd_db s) g = Some h" "re_grant r = grant_norm (h\<lparr>gr_Uses := v\<rparr>)" "re_id r = k"
    by (rule restoreExisting_Inr)
  have pending: "re_outcome r = OutcomePending" "gr_ID (re_grant r) \<noteq> []" "gr_Uses (re_grant r) \<noteq> 0" "k \<noteq> []"
    using row(4) assms(3) by (auto simp: restoreExistingRedemption_def RestoreRedemption_def chain_iff split: option.splits if_splits)
  have start: "tenantID \<noteq> []" "\<not> IsZero now" using assms(4) by (auto simp: ClaimGrant_def split: if_splits)
  have id: "gr_ID (re_grant r) = g" "gr_Uses (re_grant r) = v"
    using sound h(5,6) by (auto simp: read_sound_def uses_sound_def)
  have admit: "read_admit tenantID g k runner binding now r = AdmitDenied" for binding
    using assms(7) pending(1) by (simp add: read_admit_def ValidFor_def ClaimedFor_def)
  let ?s1 = "s\<lparr>rd_db := db', rd_procs := [Closing r OutcomeDenied] @ rd_procs s\<rparr>"
  let ?db2 = "db'\<lparr>gd_outcomes := (gd_outcomes db')(k \<mapsto> (g, OutcomeDenied))\<rparr>"
  have s1: "read_step tenantID env s ?s1"
    using claims [of tenantID g k runner now s "Inr r" db' env, OF assms(4)] admit by simp
  have "RecordGrantOutcome tenantID r OutcomeDenied now db' = Inr ?db2"
    using pending start assms(3,5,6) assms(8) [OF row(1)] row h id
    by (simp add: RecordGrantOutcome_def redemption_Complete_def RestoreRedemption_def)
  then have s2: "read_step tenantID env ?s1 (goes_on (Closing r OutcomeDenied) [] (?s1\<lparr>rd_db := ?db2\<rparr>))"
    by (intro closes [where now = now]) simp_all
  let ?t = "goes_on (Closing r OutcomeDenied) [] (?s1\<lparr>rd_db := ?db2\<rparr>)"
  have "gd_outcomes (rd_db u) k = Some (g, OutcomeDenied)" if "(read_step tenantID env)\<^sup>*\<^sup>* ?t u" for u
    by (rule extends_dbD(3) [OF run_extends [OF that]]) simp
  moreover have "(read_step tenantID env)\<^sup>*\<^sup>* s ?t" using s1 s2 by (meson rtranclp.rtrancl_refl rtranclp.rtrancl_into_rtrancl)
  ultimately show ?thesis by (intro exI [of _ ?t]) simp
qed

lemma sample_reclaims:
  "ClaimGrant ''ten'' ''g'' ''k'' sample_runner (utc_at (3 * second)) (rd_db sample_released) =
     (Inr sample_redemption, insertGrantAccessAttempt ''g'' ''k'' ''replayed_pending'' None (rd_db sample_released))"
proof -
  have "RestoreGrant (sample_grant\<lparr>gr_Uses := 1\<rparr>) = Inr (sample_grant\<lparr>gr_Uses := 1\<rparr>)"
    using sample_valid_used [of 1] by (simp add: RestoreGrant_iff sample_norm)
  then show ?thesis
    by (simp add: ClaimGrant_def restoreExistingRedemption_def RestoreRedemption_def sample_released_def sample_redemption_def
        sample_grant_labels IsZero_def)
qed

theorem released_then_denied_witness:
  "\<exists>t. (read_step ''ten'' sample_evidence_env)\<^sup>*\<^sup>* (read_start [''e'' \<mapsto> sample_evidence]) t
     \<and> gd_outcomes (rd_db t) ''k'' = Some (''g'', OutcomeDenied)
     \<and> rd_released t ''k'' = Some (sample_evidence, sample_decision, sample_plain)"
proof -
  have "\<exists>t. (read_step ''ten'' sample_evidence_env)\<^sup>*\<^sup>* sample_released t \<and> gd_outcomes (rd_db t) ''k'' = Some (''g'', OutcomeDenied)
     \<and> rd_released t ''k'' = rd_released sample_released ''k''
     \<and> (\<forall>u. (read_step ''ten'' sample_evidence_env)\<^sup>*\<^sup>* t u \<longrightarrow> gd_outcomes (rd_db u) ''k'' = Some (''g'', OutcomeDenied))"
    by (rule released_then_denied [OF sample_reaches _ _ sample_reclaims])
      (auto simp: sample_released_def sample_redemption_def Before_def)
  then show ?thesis using sample_reaches by (auto simp: sample_released_def intro: rtranclp_trans)
qed

end
