(* ===== verification/Evidence_Upload.thy ===== *)
theory Evidence_Upload
  imports Evidence_Grant
begin

text \<open>
  Evidence-upload intents (\<^verbatim>\<open>internal/evidence/upload.go\<close>), the checks before a body is accepted
  (\<^verbatim>\<open>upload_preflight.go\<close>), the capture progress read (\<^verbatim>\<open>progress.go\<close>) and the transactions of
  \<^verbatim>\<open>postgres/upload_store.go\<close> that find, claim, release and reject an attempt.

  The fields that creation fixes and no operation changes are the record \<open>upload_binding\<close>; the input of
  \<^verbatim>\<open>NewUpload\<close> and the durable record extend it. \<^verbatim>\<open>Attempt\<close> is a \<^verbatim>\<open>uint32\<close>, \<^verbatim>\<open>Version\<close> an \<^verbatim>\<open>int64\<close>.
  A media type is accepted only when it is one of two literals, which the MIME parser returns
  unchanged, so the parser does not appear. The rows of one tenant are functions from
  identifiers; a timestamp column keeps whole microseconds, and temporal frames have their own table. The
  session and credential rows a claim locks are parameters of that transaction. The acceptance transaction
  (which spans the session, its authority, reconciliation and the event outbox) is not modelled beyond the
  \<^verbatim>\<open>Accept\<close> it calls.
\<close>

section \<open>Policy\<close>

datatype (plugins only: size code) upload_error =
    UploadInvalid
  | ErrUploadNotFound
  | ErrUploadConflict
  | ErrUploadVersionConflict
  | ErrUploadExpired
  | ErrUploadMetadata

definition MediaTypeJPEG :: string where
  "MediaTypeJPEG = ''image/jpeg''"

definition MediaTypePNG :: string where
  "MediaTypePNG = ''image/png''"

definition MinimumUploadMaximumBytes :: int where
  "MinimumUploadMaximumBytes = 1048576"

definition MaximumUploadMaximumBytes :: int where
  "MaximumUploadMaximumBytes = 67108864"

definition MinimumUploadIntentLifetime :: duration where
  "MinimumUploadIntentLifetime = 5 * minute"

definition MaximumUploadIntentLifetime :: duration where
  "MaximumUploadIntentLifetime = 60 * minute"

definition MinimumUploadAttemptTimeout :: duration where
  "MinimumUploadAttemptTimeout = minute"

definition MaximumUploadAttemptTimeout :: duration where
  "MaximumUploadAttemptTimeout = 15 * minute"

lemmas upload_limits = MinimumUploadMaximumBytes_def MaximumUploadMaximumBytes_def MinimumUploadIntentLifetime_def
  MaximumUploadIntentLifetime_def MinimumUploadAttemptTimeout_def MaximumUploadAttemptTimeout_def

definition validCanonicalUploadMediaType :: "string \<Rightarrow> bool" where
  "validCanonicalUploadMediaType v \<longleftrightarrow> v = MediaTypeJPEG \<or> v = MediaTypePNG"

definition validateUploadMediaTypes :: "string list \<Rightarrow> upload_error + string list" where
  "validateUploadMediaTypes values =
     guard (values \<noteq> [] \<and> length values \<le> 2) UploadInvalid
       (let result = compact (sort values) in
        guard (length result = length values) UploadInvalid
          (guard (list_all validCanonicalUploadMediaType result) UploadInvalid (Inr result)))"

definition uploadMediaTypesAreSubset :: "string list \<Rightarrow> string list \<Rightarrow> bool" where
  "uploadMediaTypesAreSubset values allowed \<longleftrightarrow> list_all (\<lambda>v. v \<in> set allowed) values"

record UploadPolicy =
  po_maximumBytes :: int
  po_intentLifetime :: duration
  po_attemptTimeout :: duration
  po_allowedMediaTypes :: "string list"

definition DefaultUploadPolicy :: UploadPolicy where
  "DefaultUploadPolicy = \<lparr>po_maximumBytes = 16777216, po_intentLifetime = 15 * minute, po_attemptTimeout = 10 * minute,
     po_allowedMediaTypes = [MediaTypeJPEG, MediaTypePNG]\<rparr>"

text \<open>The configuration has the fields of the policy it becomes.\<close>

definition NewUploadPolicy :: "UploadPolicy \<Rightarrow> upload_error + UploadPolicy" where
  "NewUploadPolicy config =
     guard (MinimumUploadMaximumBytes \<le> po_maximumBytes config \<and> po_maximumBytes config \<le> MaximumUploadMaximumBytes
            \<and> MinimumUploadIntentLifetime \<le> po_intentLifetime config \<and> po_intentLifetime config \<le> MaximumUploadIntentLifetime
            \<and> MinimumUploadAttemptTimeout \<le> po_attemptTimeout config \<and> po_attemptTimeout config \<le> MaximumUploadAttemptTimeout
            \<and> po_intentLifetime config mod millisecond = 0 \<and> po_attemptTimeout config mod millisecond = 0) UploadInvalid
       (and_then (validateUploadMediaTypes (po_allowedMediaTypes config)) (\<lambda>mediaTypes.
          Inr (config\<lparr>po_allowedMediaTypes := mediaTypes\<rparr>)))"

definition policy_isZero :: "UploadPolicy \<Rightarrow> bool" where
  "policy_isZero p \<longleftrightarrow> po_maximumBytes p = 0 \<or> po_intentLifetime p = 0 \<or> po_attemptTimeout p = 0 \<or> po_allowedMediaTypes p = []"

section \<open>Intents\<close>

datatype (plugins only: size code) upload_state =
  UploadStateIssued | UploadStateUploading | UploadStateAccepted | UploadStateRejected | UploadStateExpired | UploadStateOther string

record TemporalFrame =
  tf_SequenceDigest :: string
  tf_Index :: nat
  tf_Count :: nat
  tf_ChallengeID :: string
  tf_CapturedAt :: go_time
  tf_PreviousDigest :: string

record upload_binding =
  up_ID :: string
  up_TenantID :: string
  up_CaptureTokenID :: string
  up_SubjectID :: string
  up_VerificationID :: string
  up_EvidenceID :: string
  up_AuthorityID :: string
  up_ResponseID :: string
  up_ProfileID :: string
  up_ProfileRevision :: nat
  up_ProfileDigest :: string
  up_RequirementKey :: string
  up_Purpose :: string
  up_EvidenceType :: string
  up_Artefact :: string
  up_AcquisitionMethod :: string
  up_FallbackCondition :: string
  up_Assurances :: "string list"
  up_AllowedMediaTypes :: "string list"
  up_MaximumBytes :: int
  up_ExpectedBytes :: int
  up_ExpectedDigest :: string
  up_MediaType :: string
  up_Region :: string
  up_RetentionClass :: string
  up_CreatedAt :: go_time
  up_Sequence :: "TemporalFrame option"

record UploadInput = upload_binding +
  ui_SessionExpiresAt :: go_time

record UploadRecord = upload_binding +
  ur_Registry :: Reference
  ur_EncryptionPurpose :: string
  ur_State :: upload_state
  ur_Version :: int
  ur_Attempt :: nat
  ur_AttemptTimeout :: duration
  ur_LeaseExpiresAt :: "go_time option"
  ur_UpdatedAt :: go_time
  ur_ExpiresAt :: go_time
  ur_AcceptedAt :: "go_time option"
  ur_RejectionReason :: string

definition digest_valid :: "string \<Rightarrow> bool" where
  "digest_valid v \<longleftrightarrow> (case NewDigest v of Inl _ \<Rightarrow> False | Inr _ \<Rightarrow> True)"

definition validateTemporalFrame :: "TemporalFrame option \<Rightarrow> bool" where
  "validateTemporalFrame frame \<longleftrightarrow>
     (case frame of
        None \<Rightarrow> True
      | Some f \<Rightarrow> digest_valid (tf_SequenceDigest f) \<and> 2 \<le> tf_Count f \<and> tf_Count f \<le> 32 \<and> tf_Index f < tf_Count f
          \<and> validClassification (tf_ChallengeID f) \<and> \<not> IsZero (tf_CapturedAt f) \<and> t_utc (tf_CapturedAt f)
          \<and> (if tf_Index f = 0 then tf_PreviousDigest f = [] else digest_valid (tf_PreviousDigest f)))"

definition cloneTemporalFrame :: "TemporalFrame option \<Rightarrow> TemporalFrame option" where
  "cloneTemporalFrame = map_option (\<lambda>f. f\<lparr>tf_CapturedAt := to_UTC (tf_CapturedAt f)\<rparr>)"

definition validUploadFallbackCondition :: "string \<Rightarrow> bool" where
  "validUploadFallbackCondition v \<longleftrightarrow> v \<in> {'''', ''capability_unavailable'', ''method_unavailable'', ''capture_failed''}"

fun validateUploadState :: "UploadRecord \<Rightarrow> bool" where
  "validateUploadState r =
     (case ur_State r of
        UploadStateIssued \<Rightarrow> ur_LeaseExpiresAt r = None \<and> ur_AcceptedAt r = None \<and> ur_RejectionReason r = []
          \<and> Before (ur_UpdatedAt r) (ur_ExpiresAt r)
      | UploadStateUploading \<Rightarrow> ur_Attempt r \<noteq> 0 \<and> ur_AcceptedAt r = None \<and> ur_RejectionReason r = []
          \<and> (case ur_LeaseExpiresAt r of None \<Rightarrow> False
             | Some lease \<Rightarrow> After lease (ur_UpdatedAt r) \<and> \<not> After lease (ur_ExpiresAt r))
      | UploadStateAccepted \<Rightarrow> ur_Attempt r \<noteq> 0 \<and> ur_LeaseExpiresAt r = None \<and> ur_AcceptedAt r = Some (ur_UpdatedAt r)
          \<and> ur_RejectionReason r = [] \<and> Before (ur_UpdatedAt r) (ur_ExpiresAt r)
      | UploadStateRejected \<Rightarrow> ur_Attempt r \<noteq> 0 \<and> ur_LeaseExpiresAt r = None \<and> ur_AcceptedAt r = None
          \<and> validClassification (ur_RejectionReason r) \<and> Before (ur_UpdatedAt r) (ur_ExpiresAt r)
      | UploadStateExpired \<Rightarrow> ur_LeaseExpiresAt r = None \<and> ur_AcceptedAt r = None \<and> ur_RejectionReason r = []
          \<and> \<not> Before (ur_UpdatedAt r) (ur_ExpiresAt r)
      | UploadStateOther _ \<Rightarrow> False)"

text \<open>\<^verbatim>\<open>validateUploadRecord\<close> in three parts: what the binding says, the limits and times, the state.\<close>

definition upload_binding_ok :: "evidence_registry \<Rightarrow> UploadRecord \<Rightarrow> bool" where
  "upload_binding_ok registry r \<longleftrightarrow>
     up_ID r \<noteq> [] \<and> up_TenantID r \<noteq> [] \<and> up_CaptureTokenID r \<noteq> [] \<and> up_SubjectID r \<noteq> [] \<and> up_VerificationID r \<noteq> []
     \<and> up_EvidenceID r \<noteq> [] \<and> up_AuthorityID r \<noteq> [] \<and> up_ResponseID r \<noteq> [] \<and> up_ProfileID r \<noteq> []
     \<and> up_ProfileRevision r \<noteq> 0 \<and> validRequirementKey (up_RequirementKey r)
     \<and> ur_Registry r = registry_Reference registry \<and> registry_Has registry KindPurpose (up_Purpose r)
     \<and> validUploadFallbackCondition (up_FallbackCondition r)
     \<and> digest_valid (up_ProfileDigest r) \<and> digest_valid (up_ExpectedDigest r) \<and> validateTemporalFrame (up_Sequence r)
     \<and> validateAcquisition registry (up_EvidenceType r) (up_Artefact r) (up_AcquisitionMethod r) (up_Assurances r)
         = Some (up_Assurances r)
     \<and> validateUploadMediaTypes (up_AllowedMediaTypes r) = Inr (up_AllowedMediaTypes r)
     \<and> validCanonicalUploadMediaType (up_MediaType r) \<and> up_MediaType r \<in> set (up_AllowedMediaTypes r)"

definition upload_limits_ok :: "UploadRecord \<Rightarrow> bool" where
  "upload_limits_ok r \<longleftrightarrow>
     1 \<le> up_MaximumBytes r \<and> up_MaximumBytes r \<le> MaximumUploadMaximumBytes
     \<and> 1 \<le> up_ExpectedBytes r \<and> up_ExpectedBytes r \<le> up_MaximumBytes r
     \<and> ur_EncryptionPurpose r = ContentEncryptionPurpose
     \<and> MinimumUploadAttemptTimeout \<le> ur_AttemptTimeout r \<and> ur_AttemptTimeout r \<le> MaximumUploadAttemptTimeout
     \<and> validClassification (up_Region r) \<and> validClassification (up_RetentionClass r)
     \<and> 1 \<le> ur_Version r \<and> \<not> IsZero (up_CreatedAt r) \<and> \<not> Before (ur_UpdatedAt r) (up_CreatedAt r)
     \<and> After (ur_ExpiresAt r) (up_CreatedAt r)
     \<and> \<not> After (ur_ExpiresAt r) (Add (up_CreatedAt r) MaximumUploadIntentLifetime)"

definition validateUploadRecord :: "evidence_registry \<Rightarrow> UploadRecord \<Rightarrow> upload_error option" where
  "validateUploadRecord registry r =
     (if \<not> upload_binding_ok registry r then Some UploadInvalid
      else if \<not> upload_limits_ok r then Some UploadInvalid
      else if \<not> validateUploadState r then
        Some (case ur_State r of UploadStateOther _ \<Rightarrow> UploadInvalid | _ \<Rightarrow> ErrUploadConflict)
      else None)"

definition RestoreUpload :: "evidence_registry \<Rightarrow> UploadRecord \<Rightarrow> upload_error + UploadRecord" where
  "RestoreUpload registry r0 =
     (let r = r0\<lparr>up_CreatedAt := to_UTC (up_CreatedAt r0), ur_UpdatedAt := to_UTC (ur_UpdatedAt r0),
                 ur_ExpiresAt := to_UTC (ur_ExpiresAt r0), ur_LeaseExpiresAt := map_option to_UTC (ur_LeaseExpiresAt r0),
                 ur_AcceptedAt := map_option to_UTC (ur_AcceptedAt r0)\<rparr> in
      case validateUploadRecord registry r of
        Some e \<Rightarrow> Inl e
      | None \<Rightarrow> Inr (r\<lparr>up_Sequence := cloneTemporalFrame (up_Sequence r)\<rparr>))"

definition NewUpload :: "UploadInput \<Rightarrow> evidence_registry \<Rightarrow> UploadPolicy \<Rightarrow> upload_error + UploadRecord" where
  "NewUpload input registry policy =
     (let createdAt = to_UTC (up_CreatedAt input); sessionExpiresAt = to_UTC (ui_SessionExpiresAt input) in
      guard (\<not> policy_isZero policy \<and> \<not> IsZero createdAt \<and> After sessionExpiresAt createdAt) UploadInvalid
        (and_then (validateUploadMediaTypes (up_AllowedMediaTypes input)) (\<lambda>mediaTypes.
          case validateAcquisition registry (up_EvidenceType input) (up_Artefact input) (up_AcquisitionMethod input) (up_Assurances input) of
            None \<Rightarrow> Inl UploadInvalid
          | Some assurances \<Rightarrow>
             guard (1 \<le> up_MaximumBytes input \<and> up_MaximumBytes input \<le> po_maximumBytes policy
                    \<and> 1 \<le> up_ExpectedBytes input \<and> up_ExpectedBytes input \<le> up_MaximumBytes input
                    \<and> uploadMediaTypesAreSubset mediaTypes (po_allowedMediaTypes policy)
                    \<and> up_MediaType input \<in> set (po_allowedMediaTypes policy) \<and> up_MediaType input \<in> set mediaTypes) UploadInvalid
               (let expiresAt = Add createdAt (po_intentLifetime policy);
                    expiresAt = (if Before sessionExpiresAt expiresAt then sessionExpiresAt else expiresAt) in
                RestoreUpload registry
                  (upload_binding.extend
                     ((upload_binding.truncate input)\<lparr>up_Assurances := assurances, up_AllowedMediaTypes := mediaTypes,
                        up_CreatedAt := createdAt, up_Sequence := cloneTemporalFrame (up_Sequence input)\<rparr>)
                     (UploadRecord.fields (registry_Reference registry) ContentEncryptionPurpose UploadStateIssued 1 0
                        (po_attemptTimeout policy) None createdAt expiresAt None [])))))) "

definition WithTemporalFrame :: "TemporalFrame \<Rightarrow> UploadRecord \<Rightarrow> upload_error + UploadRecord" where
  "WithTemporalFrame frame r =
     guard (up_Sequence r = None \<and> validateTemporalFrame (Some frame)) ErrUploadConflict
       (Inr (r\<lparr>up_Sequence := cloneTemporalFrame (Some frame)\<rparr>))"

section \<open>Transitions\<close>

definition ClaimAttempt :: "int \<Rightarrow> go_time \<Rightarrow> UploadRecord \<Rightarrow> upload_error + UploadRecord" where
  "ClaimAttempt expectedVersion now0 r =
     guard (expectedVersion = ur_Version r) ErrUploadVersionConflict
       (let now = to_UTC now0 in
        guard (\<not> IsZero now \<and> \<not> Before now (ur_UpdatedAt r)) ErrUploadConflict
          (guard (Before now (ur_ExpiresAt r)) ErrUploadExpired
            (guard (\<not> (ur_State r = UploadStateUploading
                       \<and> (case ur_LeaseExpiresAt r of None \<Rightarrow> False | Some lease \<Rightarrow> Before now lease))) ErrUploadConflict
              (guard (ur_State r = UploadStateIssued \<or> ur_State r = UploadStateUploading) ErrUploadConflict
                (let lease = Add now (ur_AttemptTimeout r);
                     lease = (if Before (ur_ExpiresAt r) lease then ur_ExpiresAt r else lease) in
                 Inr (r\<lparr>ur_State := UploadStateUploading, ur_Version := i64 (ur_Version r + 1),
                        ur_Attempt := (ur_Attempt r + 1) mod 2 ^ 32, ur_UpdatedAt := now, ur_LeaseExpiresAt := Some lease\<rparr>))))))"

definition upload_FailAttempt :: "int \<Rightarrow> nat \<Rightarrow> go_time \<Rightarrow> UploadRecord \<Rightarrow> upload_error + UploadRecord" where
  "upload_FailAttempt expectedVersion attempt now0 r =
     guard (expectedVersion = ur_Version r) ErrUploadVersionConflict
       (guard (ur_State r = UploadStateUploading \<and> ur_Attempt r = attempt) ErrUploadConflict
         (let now = to_UTC now0 in
          guard (\<not> IsZero now \<and> \<not> Before now (ur_UpdatedAt r)) ErrUploadConflict
            (Inr (r\<lparr>ur_Version := i64 (ur_Version r + 1), ur_UpdatedAt := now, ur_LeaseExpiresAt := None,
                    ur_State := (if \<not> Before now (ur_ExpiresAt r) then UploadStateExpired else UploadStateIssued)\<rparr>))))"

definition upload_binds :: "evidence_record \<Rightarrow> UploadRecord \<Rightarrow> bool" where
  "upload_binds a r \<longleftrightarrow> ea_ID a = up_EvidenceID r \<and> ea_TenantID a = up_TenantID r \<and> ea_SubjectID a = up_SubjectID r
     \<and> ea_VerificationID a = up_VerificationID r \<and> ea_RequirementKey a = up_RequirementKey r \<and> ea_Registry a = ur_Registry r
     \<and> ea_EvidenceType a = up_EvidenceType r \<and> ea_Artefact a = up_Artefact r \<and> ea_AcquisitionMethod a = up_AcquisitionMethod r
     \<and> ea_Assurances a = up_Assurances r \<and> ea_Region a = up_Region r \<and> ea_RetentionClass a = up_RetentionClass r
     \<and> ea_ContentRevision a = 1 \<and> ea_State a = StateAvailable \<and> ea_Integrity a = IntegrityVerified \<and> ea_Version a = 1"

text \<open>The guard that \<^verbatim>\<open>Accept\<close> and \<^verbatim>\<open>Reject\<close> share: the current attempt, inside its lease and the intent's lifetime.\<close>

definition attempt_current :: "nat \<Rightarrow> go_time \<Rightarrow> UploadRecord \<Rightarrow> bool" where
  "attempt_current attempt now r \<longleftrightarrow> ur_State r = UploadStateUploading \<and> ur_Attempt r = attempt
     \<and> (case ur_LeaseExpiresAt r of None \<Rightarrow> False | Some lease \<Rightarrow> Before now lease)
     \<and> \<not> IsZero now \<and> \<not> Before now (ur_UpdatedAt r) \<and> Before now (ur_ExpiresAt r)"

definition upload_Accept :: "int \<Rightarrow> nat \<Rightarrow> evidence_record \<Rightarrow> int \<Rightarrow> go_time \<Rightarrow> UploadRecord \<Rightarrow> upload_error + UploadRecord" where
  "upload_Accept expectedVersion attempt asset plaintextBytes now0 r =
     guard (expectedVersion = ur_Version r) ErrUploadVersionConflict
       (let now = to_UTC now0 in
        guard (attempt_current attempt now r \<and> plaintextBytes = up_ExpectedBytes r \<and> upload_binds asset r) ErrUploadConflict
          (guard (co_PlaintextDigest (ea_Content asset) = up_ExpectedDigest r \<and> co_MediaType (ea_Content asset) = up_MediaType r)
             ErrUploadConflict
            (Inr (r\<lparr>ur_State := UploadStateAccepted, ur_Version := i64 (ur_Version r + 1), ur_UpdatedAt := now,
                    ur_LeaseExpiresAt := None, ur_AcceptedAt := Some now\<rparr>))))"

definition upload_Reject :: "int \<Rightarrow> nat \<Rightarrow> string \<Rightarrow> go_time \<Rightarrow> UploadRecord \<Rightarrow> upload_error + UploadRecord" where
  "upload_Reject expectedVersion attempt reason now0 r =
     guard (expectedVersion = ur_Version r) ErrUploadVersionConflict
       (let now = to_UTC now0 in
        guard (attempt_current attempt now r \<and> validClassification reason) ErrUploadConflict
          (Inr (r\<lparr>ur_State := UploadStateRejected, ur_Version := i64 (ur_Version r + 1), ur_UpdatedAt := now,
                  ur_LeaseExpiresAt := None, ur_RejectionReason := reason\<rparr>)))"

definition upload_Expire :: "int \<Rightarrow> go_time \<Rightarrow> UploadRecord \<Rightarrow> upload_error + UploadRecord" where
  "upload_Expire expectedVersion now0 r =
     guard (expectedVersion = ur_Version r) ErrUploadVersionConflict
       (let now = to_UTC now0 in
        guard (\<not> IsZero now \<and> \<not> Before now (ur_ExpiresAt r)
               \<and> (ur_State r = UploadStateIssued \<or> ur_State r = UploadStateUploading)) ErrUploadConflict
          (Inr (r\<lparr>ur_State := UploadStateExpired, ur_Version := i64 (ur_Version r + 1), ur_UpdatedAt := now,
                  ur_LeaseExpiresAt := None\<rparr>)))"

datatype upload_command =
    ClaimUpload int go_time
  | FailUpload int nat go_time
  | AcceptUpload int nat evidence_record int go_time
  | RejectUpload int nat string go_time
  | ExpireUpload int go_time

fun apply_upload :: "upload_command \<Rightarrow> UploadRecord \<Rightarrow> upload_error + UploadRecord" where
  "apply_upload (ClaimUpload v now) r = ClaimAttempt v now r"
| "apply_upload (FailUpload v attempt now) r = upload_FailAttempt v attempt now r"
| "apply_upload (AcceptUpload v attempt asset n now) r = upload_Accept v attempt asset n now r"
| "apply_upload (RejectUpload v attempt reason now) r = upload_Reject v attempt reason now r"
| "apply_upload (ExpireUpload v now) r = upload_Expire v now r"

fun upload_expected :: "upload_command \<Rightarrow> int" where
  "upload_expected (ClaimUpload v _) = v"
| "upload_expected (FailUpload v _ _) = v"
| "upload_expected (AcceptUpload v _ _ _ _) = v"
| "upload_expected (RejectUpload v _ _ _) = v"
| "upload_expected (ExpireUpload v _) = v"

section \<open>The store\<close>

record frame_row =
  fr_VerificationID :: string
  fr_EvidenceID :: string
  fr_ContentDigest :: string
  fr_Frame :: TemporalFrame

record upload_audit =
  ua_UploadID :: string
  ua_Version :: int
  ua_Attempt :: nat
  ua_Action :: string
  ua_PrincipalID :: string
  ua_Reason :: string
  ua_OccurredAt :: go_time

text \<open>The tables of one tenant; the intent rows hold no temporal frame.\<close>

record upload_db =
  ud_intents :: "string \<Rightarrow> UploadRecord option"
  ud_frames :: "string \<Rightarrow> frame_row option"
  ud_audit :: "upload_audit list"

definition restoreUpload :: "Catalog \<Rightarrow> UploadRecord \<Rightarrow> upload_error + UploadRecord" where
  "restoreUpload catalog row =
     (case catalog_Resolve catalog (ur_Registry row) of
        Inl _ \<Rightarrow> Inl UploadInvalid
      | Inr registry \<Rightarrow> RestoreUpload registry row)"

definition restoreTemporalFrame :: "upload_db \<Rightarrow> UploadRecord \<Rightarrow> upload_error + UploadRecord" where
  "restoreTemporalFrame db r =
     (case ud_frames db (up_ID r) of
        None \<Rightarrow> Inr r
      | Some row \<Rightarrow>
         guard (fr_VerificationID row = up_VerificationID r \<and> fr_EvidenceID row = up_EvidenceID r
                \<and> fr_ContentDigest row = up_ExpectedDigest r) UploadInvalid
           (WithTemporalFrame (fr_Frame row) r))"

definition FindUpload :: "Catalog \<Rightarrow> string \<Rightarrow> string \<Rightarrow> upload_db \<Rightarrow> upload_error + UploadRecord" where
  "FindUpload catalog tenantID uploadID db =
     guard (tenantID \<noteq> [] \<and> uploadID \<noteq> []) ErrUploadNotFound
       (case ud_intents db uploadID of
          None \<Rightarrow> Inl ErrUploadNotFound
        | Some row \<Rightarrow>
           guard (up_TenantID row = tenantID) ErrUploadNotFound
             (and_then (restoreUpload catalog row) (restoreTemporalFrame db)))"

text \<open>\<^verbatim>\<open>TransitionEvidenceUploadIntent\<close>: the columns it sets, at the precision of the columns.\<close>

definition transition_row :: "UploadRecord \<Rightarrow> UploadRecord \<Rightarrow> UploadRecord" where
  "transition_row new row =
     row\<lparr>ur_State := ur_State new, ur_Version := ur_Version new, ur_Attempt := ur_Attempt new,
         ur_LeaseExpiresAt := map_option pg_time (ur_LeaseExpiresAt new), ur_UpdatedAt := pg_time (ur_UpdatedAt new),
         ur_AcceptedAt := map_option pg_time (ur_AcceptedAt new), ur_RejectionReason := ur_RejectionReason new\<rparr>"

definition insertUploadAudit :: "UploadRecord \<Rightarrow> string \<Rightarrow> string \<Rightarrow> string \<Rightarrow> upload_db \<Rightarrow> upload_db" where
  "insertUploadAudit r principalID action reason db =
     db\<lparr>ud_audit := ud_audit db @ [\<lparr>ua_UploadID = up_ID r, ua_Version = ur_Version r, ua_Attempt = ur_Attempt r,
          ua_Action = action, ua_PrincipalID = principalID, ua_Reason = reason,
          ua_OccurredAt = pg_time (ur_UpdatedAt r)\<rparr>]\<rparr>"

definition maxInt32 :: nat where
  "maxInt32 = 2147483647"

text \<open>
  \<^verbatim>\<open>lockUploadSession\<close>: the session row and the credential row under their locks, each absent or with
  whether it is still live at the clock (collecting and unexpired; unrevoked and unexpired).
\<close>

definition lockUploadSession :: "bool option \<Rightarrow> bool option \<Rightarrow> upload_error option" where
  "lockUploadSession session token =
     (case session of
        None \<Rightarrow> Some ErrUploadNotFound
      | Some collecting \<Rightarrow>
         (case token of
            None \<Rightarrow> Some ErrUploadNotFound
          | Some live \<Rightarrow> if collecting \<and> live then None else Some ErrUploadConflict))"

text \<open>
  \<open>starting\<close> is what locking the parent rows gives a transition that begins an attempt (an error or
  none), and \<open>None\<close> when the transition does not lock them.
\<close>

definition transitionUpload ::
  "Catalog \<Rightarrow> string \<Rightarrow> string \<Rightarrow> string \<Rightarrow> upload_error option option \<Rightarrow> (UploadRecord \<Rightarrow> upload_error + (UploadRecord \<times> string \<times> string))
    \<Rightarrow> upload_db \<Rightarrow> upload_error + (UploadRecord \<times> upload_db)" where
  "transitionUpload catalog tenantID principalID uploadID starting transition db =
     guard (tenantID \<noteq> [] \<and> principalID \<noteq> [] \<and> uploadID \<noteq> []) ErrUploadNotFound
       (case ud_intents db uploadID of
          None \<Rightarrow> Inl ErrUploadNotFound
        | Some row \<Rightarrow>
           guard (up_TenantID row = tenantID) ErrUploadNotFound
             (case (case starting of None \<Rightarrow> None
                    | Some locked \<Rightarrow> if up_CaptureTokenID row = principalID then locked else Some ErrUploadNotFound) of
                Some e \<Rightarrow> Inl e
              | None \<Rightarrow>
                 and_then (restoreUpload catalog row) (\<lambda>current.
                   guard (up_CaptureTokenID current = principalID) ErrUploadNotFound
                     (and_then (transition current) (\<lambda>(result, action, reason).
                        guard (ur_Attempt result \<le> maxInt32) UploadInvalid
                          (guard (ur_Version row = ur_Version current) ErrUploadVersionConflict
                            (let persisted = transition_row result row in
                             and_then (restoreUpload catalog persisted) (\<lambda>result.
                               Inr (result, insertUploadAudit result principalID action reason
                                      (db\<lparr>ud_intents := (ud_intents db)(uploadID := Some persisted)\<rparr>))))))))))"

definition ClaimUploadAttempt ::
  "Catalog \<Rightarrow> string \<Rightarrow> string \<Rightarrow> string \<Rightarrow> upload_error option \<Rightarrow> int \<Rightarrow> go_time \<Rightarrow> upload_db \<Rightarrow> upload_error + (UploadRecord \<times> upload_db)" where
  "ClaimUploadAttempt catalog tenantID principalID uploadID session expectedVersion now =
     transitionUpload catalog tenantID principalID uploadID (Some session)
       (\<lambda>upload. and_then (ClaimAttempt expectedVersion now upload) (\<lambda>t. Inr (t, ''claim'', [])))"




section \<open>Preflight and progress\<close>

record UploadPrincipal =
  pr_TenantID :: string
  pr_CaptureTokenID :: string
  pr_VerificationID :: string

record UploadMetadata =
  um_ExpectedVersion :: int
  um_ContentLength :: int
  um_MediaType :: string
  um_Digest :: string

definition preflight_Find :: "Catalog \<Rightarrow> UploadPrincipal \<Rightarrow> string \<Rightarrow> upload_db \<Rightarrow> upload_error + UploadRecord" where
  "preflight_Find catalog p uploadID db =
     guard (pr_TenantID p \<noteq> [] \<and> pr_CaptureTokenID p \<noteq> [] \<and> pr_VerificationID p \<noteq> [] \<and> uploadID \<noteq> []) ErrUploadNotFound
       (and_then (FindUpload catalog (pr_TenantID p) uploadID db) (\<lambda>r.
          guard (up_TenantID r = pr_TenantID p \<and> up_CaptureTokenID r = pr_CaptureTokenID p \<and> up_VerificationID r = pr_VerificationID p)
            ErrUploadNotFound (Inr r)))"

text \<open>\<open>dbc\<close> is the store when the claim runs, which other requests may have changed since \<open>db\<close> was read.\<close>

definition preflight_Begin ::
  "Catalog \<Rightarrow> UploadPrincipal \<Rightarrow> string \<Rightarrow> UploadMetadata \<Rightarrow> upload_error option \<Rightarrow> go_time \<Rightarrow> upload_db \<Rightarrow> upload_db
    \<Rightarrow> upload_error + (UploadRecord \<times> upload_db)" where
  "preflight_Begin catalog p uploadID m session now db dbc =
     and_then (preflight_Find catalog p uploadID db) (\<lambda>r.
       guard (um_ContentLength m = up_ExpectedBytes r \<and> um_MediaType m = up_MediaType r \<and> um_Digest m = up_ExpectedDigest r)
         ErrUploadMetadata
         (if ur_State r = UploadStateAccepted then
            guard (um_ExpectedVersion m = ur_Version r
                   \<or> (0 < um_ExpectedVersion m \<and> um_ExpectedVersion m = i64 (ur_Version r - 2))) ErrUploadVersionConflict (Inr (r, dbc))
          else if ur_State r = UploadStateUploading \<and> um_ExpectedVersion m = i64 (ur_Version r - 1) then Inl ErrUploadConflict
          else guard (um_ExpectedVersion m = ur_Version r) ErrUploadVersionConflict
                 (ClaimUploadAttempt catalog (pr_TenantID p) (pr_CaptureTokenID p) uploadID session (um_ExpectedVersion m)
                    (Truncate (to_UTC now) 1000) dbc)))"

definition maxCaptureCompletions :: nat where
  "maxCaptureCompletions = 256"

record CaptureCompletion =
  cc_UploadID :: string
  cc_EvidenceID :: string
  cc_RequirementKey :: string
  cc_EvidenceType :: string
  cc_Artefact :: string
  cc_AcquisitionMethod :: string
  cc_FallbackCondition :: string

definition completion_of :: "UploadRecord \<Rightarrow> CaptureCompletion" where
  "completion_of r = \<lparr>cc_UploadID = up_ID r, cc_EvidenceID = up_EvidenceID r, cc_RequirementKey = up_RequirementKey r,
     cc_EvidenceType = up_EvidenceType r, cc_Artefact = up_Artefact r, cc_AcquisitionMethod = up_AcquisitionMethod r,
     cc_FallbackCondition = up_FallbackCondition r\<rparr>"

text \<open>\<open>recovered\<close> is what the lineage check answers for an upload of an earlier credential.\<close>

fun progress_loop ::
  "UploadPrincipal \<Rightarrow> (string \<Rightarrow> upload_error + bool) \<Rightarrow> string list \<Rightarrow> string list \<Rightarrow> UploadRecord list \<Rightarrow> upload_error + CaptureCompletion list" where
  "progress_loop p recovered uploads evidences [] = Inr []"
| "progress_loop p recovered uploads evidences (r # rs) =
     guard (ur_State r = UploadStateAccepted \<and> up_TenantID r = pr_TenantID p \<and> up_VerificationID r = pr_VerificationID p) UploadInvalid
       (and_then (if up_CaptureTokenID r = pr_CaptureTokenID p then Inr True else recovered (up_ID r)) (\<lambda>allowed.
         guard allowed ErrUploadNotFound
           (guard (up_ID r \<notin> set uploads) UploadInvalid
             (guard (up_EvidenceID r \<notin> set evidences) UploadInvalid
               (and_then (progress_loop p recovered (up_ID r # uploads) (up_EvidenceID r # evidences) rs) (\<lambda>cs.
                  Inr (completion_of r # cs)))))))"

definition progress_Find ::
  "UploadPrincipal \<Rightarrow> (string \<Rightarrow> upload_error + bool) \<Rightarrow> upload_error + UploadRecord list \<Rightarrow> upload_error + CaptureCompletion list" where
  "progress_Find p recovered listed =
     guard (pr_TenantID p \<noteq> [] \<and> pr_CaptureTokenID p \<noteq> [] \<and> pr_VerificationID p \<noteq> []) ErrUploadNotFound
       (and_then listed (\<lambda>uploads.
          guard (length uploads \<le> maxCaptureCompletions) UploadInvalid (progress_loop p recovered [] [] uploads)))"

section \<open>Lemmas: the aggregate\<close>

lemma validateUploadMediaTypes_idem: "validateUploadMediaTypes vs = Inr ws \<Longrightarrow> validateUploadMediaTypes ws = Inr ws"
  by (auto simp: validateUploadMediaTypes_def chain_iff Let_def compact_id adjacent_dup_sorted sorted_compact sort_key_id_if_sorted)

text \<open>The lifecycle fields a transition may change; the rest of the record is fixed.\<close>

definition upload_core :: "UploadRecord \<Rightarrow> UploadRecord" where
  "upload_core r = r\<lparr>ur_State := UploadStateIssued, ur_Version := 1, ur_Attempt := 0, ur_LeaseExpiresAt := None,
     ur_UpdatedAt := time_zero, ur_AcceptedAt := None, ur_RejectionReason := []\<rparr>"

definition upload_open :: "UploadRecord \<Rightarrow> bool" where
  "upload_open r \<longleftrightarrow> ur_State r = UploadStateIssued \<or> ur_State r = UploadStateUploading"

lemma upload_binding_ok_core: "upload_binding_ok registry (upload_core r) = upload_binding_ok registry r"
  by (simp add: upload_binding_ok_def upload_core_def)

text \<open>A record that restoring leaves as it is.\<close>

definition upload_times_utc :: "UploadRecord \<Rightarrow> bool" where
  "upload_times_utc r \<longleftrightarrow> t_utc (up_CreatedAt r) \<and> t_utc (ur_UpdatedAt r) \<and> t_utc (ur_ExpiresAt r)
     \<and> pred_option t_utc (ur_LeaseExpiresAt r) \<and> pred_option t_utc (ur_AcceptedAt r)"

definition upload_valid :: "evidence_registry \<Rightarrow> UploadRecord \<Rightarrow> bool" where
  "upload_valid registry r \<longleftrightarrow> upload_binding_ok registry r \<and> upload_limits_ok r \<and> validateUploadState r \<and> upload_times_utc r"

lemma cloneTemporalFrame_valid: "validateTemporalFrame f \<Longrightarrow> cloneTemporalFrame f = f"
  by (cases f) (simp_all add: validateTemporalFrame_def cloneTemporalFrame_def to_UTC_id)

lemma map_option_UTC: "pred_option t_utc x \<Longrightarrow> map_option to_UTC x = x"
  by (cases x) (simp_all add: to_UTC_id)

lemma validateUploadRecord_None:
  "validateUploadRecord registry r = None \<longleftrightarrow> upload_binding_ok registry r \<and> upload_limits_ok r \<and> validateUploadState r"
  by (simp add: validateUploadRecord_def del: validateUploadState.simps)

lemma RestoreUpload_valid: "upload_valid registry r \<Longrightarrow> RestoreUpload registry r = Inr r"
proof -
  assume v: "upload_valid registry r"
  then have "cloneTemporalFrame (up_Sequence r) = up_Sequence r"
    by (intro cloneTemporalFrame_valid) (simp add: upload_valid_def upload_binding_ok_def)
  moreover have "validateUploadRecord registry r = None"
    using v by (simp add: upload_valid_def validateUploadRecord_None del: validateUploadState.simps)
  ultimately show ?thesis
    using v by (simp add: RestoreUpload_def upload_valid_def upload_times_utc_def to_UTC_id map_option_UTC
                  del: validateUploadState.simps)
qed

lemma RestoreUpload_Inr_valid: "RestoreUpload registry r = Inr q \<Longrightarrow> upload_valid registry q"
proof -
  define n where "n = r\<lparr>up_CreatedAt := to_UTC (up_CreatedAt r), ur_UpdatedAt := to_UTC (ur_UpdatedAt r),
                 ur_ExpiresAt := to_UTC (ur_ExpiresAt r), ur_LeaseExpiresAt := map_option to_UTC (ur_LeaseExpiresAt r),
                 ur_AcceptedAt := map_option to_UTC (ur_AcceptedAt r)\<rparr>"
  assume "RestoreUpload registry r = Inr q"
  then have v: "validateUploadRecord registry n = None" and q: "q = n\<lparr>up_Sequence := cloneTemporalFrame (up_Sequence n)\<rparr>"
    unfolding RestoreUpload_def Let_def n_def [symmetric] by (simp_all split: option.splits)
  have "cloneTemporalFrame (up_Sequence n) = up_Sequence n"
    using v by (intro cloneTemporalFrame_valid) (simp add: validateUploadRecord_None upload_binding_ok_def)
  then have "q = n" using q by simp
  moreover have "upload_times_utc n"
    by (simp add: n_def upload_times_utc_def option.pred_map comp_def option.pred_True)
  ultimately show "upload_valid registry q"
    using v by (simp add: upload_valid_def validateUploadRecord_None del: validateUploadState.simps)
qed


text \<open>What a successful command does: the four ways to leave an open intent.\<close>

lemma ClaimAttempt_Inr:
  assumes "ClaimAttempt v now r = Inr q"
  obtains lease where "v = ur_Version r" "upload_open r" "\<not> Before (to_UTC now) (ur_UpdatedAt r)"
    "Before (to_UTC now) (ur_ExpiresAt r)"
    "lease = ur_ExpiresAt r \<and> t_ns (ur_ExpiresAt r) < t_ns now + ur_AttemptTimeout r
      \<or> lease = Add (to_UTC now) (ur_AttemptTimeout r) \<and> t_ns now + ur_AttemptTimeout r \<le> t_ns (ur_ExpiresAt r)"
    "ur_State r = UploadStateUploading \<longrightarrow> (\<forall>l. ur_LeaseExpiresAt r = Some l \<longrightarrow> \<not> Before (to_UTC now) l)"
    "q = r\<lparr>ur_State := UploadStateUploading, ur_Version := i64 (ur_Version r + 1),
           ur_Attempt := (ur_Attempt r + 1) mod 2 ^ 32, ur_UpdatedAt := to_UTC now, ur_LeaseExpiresAt := Some lease\<rparr>"
proof -
  define lease where "lease = (if Before (ur_ExpiresAt r) (Add (to_UTC now) (ur_AttemptTimeout r)) then ur_ExpiresAt r
    else Add (to_UTC now) (ur_AttemptTimeout r))"
  show thesis
    by (rule that [of lease]; insert assms)
       (auto simp: lease_def ClaimAttempt_def chain_iff Let_def upload_open_def Before_def Add_def split: option.splits if_splits)
qed

lemma upload_FailAttempt_Inr:
  assumes "upload_FailAttempt v attempt now r = Inr q"
  shows "v = ur_Version r \<and> ur_State r = UploadStateUploading \<and> \<not> Before (to_UTC now) (ur_UpdatedAt r)
    \<and> q = r\<lparr>ur_Version := i64 (ur_Version r + 1), ur_UpdatedAt := to_UTC now, ur_LeaseExpiresAt := None,
           ur_State := (if \<not> Before (to_UTC now) (ur_ExpiresAt r) then UploadStateExpired else UploadStateIssued)\<rparr>"
  using assms by (auto simp: upload_FailAttempt_def chain_iff Let_def)

lemma upload_Accept_Inr:
  assumes "upload_Accept v attempt asset n now r = Inr q"
  shows "v = ur_Version r \<and> attempt_current attempt (to_UTC now) r \<and> n = up_ExpectedBytes r \<and> upload_binds asset r
    \<and> co_PlaintextDigest (ea_Content asset) = up_ExpectedDigest r \<and> co_MediaType (ea_Content asset) = up_MediaType r
    \<and> q = r\<lparr>ur_State := UploadStateAccepted, ur_Version := i64 (ur_Version r + 1), ur_UpdatedAt := to_UTC now,
           ur_LeaseExpiresAt := None, ur_AcceptedAt := Some (to_UTC now)\<rparr>"
  using assms by (auto simp: upload_Accept_def chain_iff Let_def)

lemma upload_Reject_Inr:
  assumes "upload_Reject v attempt reason now r = Inr q"
  shows "v = ur_Version r \<and> attempt_current attempt (to_UTC now) r \<and> validClassification reason
    \<and> q = r\<lparr>ur_State := UploadStateRejected, ur_Version := i64 (ur_Version r + 1), ur_UpdatedAt := to_UTC now,
           ur_LeaseExpiresAt := None, ur_RejectionReason := reason\<rparr>"
  using assms by (auto simp: upload_Reject_def chain_iff Let_def)

lemma upload_Expire_Inr:
  assumes "upload_Expire v now r = Inr q"
  shows "v = ur_Version r \<and> upload_open r \<and> \<not> Before (to_UTC now) (ur_ExpiresAt r)
    \<and> q = r\<lparr>ur_State := UploadStateExpired, ur_Version := i64 (ur_Version r + 1), ur_UpdatedAt := to_UTC now,
           ur_LeaseExpiresAt := None\<rparr>"
  using assms by (auto simp: upload_Expire_def chain_iff Let_def upload_open_def)

lemma attempt_current_open: "attempt_current attempt now r \<Longrightarrow> upload_open r"
  by (simp add: attempt_current_def upload_open_def)

lemma apply_upload_Inr:
  assumes "apply_upload c r = Inr q"
  shows "upload_expected c = ur_Version r \<and> upload_open r \<and> upload_core q = upload_core r \<and> ur_Version q = i64 (ur_Version r + 1)
    \<and> ur_Attempt q = (case c of ClaimUpload _ _ \<Rightarrow> (ur_Attempt r + 1) mod 2 ^ 32 | _ \<Rightarrow> ur_Attempt r)"
proof (cases c)
  case (ClaimUpload v now)
  with assms show ?thesis by (auto elim!: ClaimAttempt_Inr simp: upload_core_def)
next
  case (FailUpload v a now)
  with assms upload_FailAttempt_Inr [of v a now r q] show ?thesis by (auto simp: upload_core_def upload_open_def)
next
  case (AcceptUpload v a asset n now)
  with assms upload_Accept_Inr [of v a asset n now r q] attempt_current_open show ?thesis by (auto simp: upload_core_def)
next
  case (RejectUpload v a reason now)
  with assms upload_Reject_Inr [of v a reason now r q] attempt_current_open show ?thesis by (auto simp: upload_core_def)
next
  case (ExpireUpload v now)
  with assms upload_Expire_Inr [of v now r q] show ?thesis by (auto simp: upload_core_def)
qed

interpretation upload_version: optimistic_aggregate apply_upload ur_Version upload_expected
  by unfold_locales (auto dest: apply_upload_Inr)

fun upload_edge :: "upload_state \<Rightarrow> upload_state \<Rightarrow> bool" where
  "upload_edge UploadStateIssued q = (q = UploadStateUploading \<or> q = UploadStateExpired)"
| "upload_edge UploadStateUploading q =
     (q = UploadStateUploading \<or> q = UploadStateIssued \<or> q = UploadStateAccepted \<or> q = UploadStateRejected \<or> q = UploadStateExpired)"
| "upload_edge _ q = False"

lemma upload_open_iff: "upload_open r \<longleftrightarrow> (\<exists>q. upload_edge (ur_State r) q)"
  by (cases "ur_State r") (auto simp: upload_open_def)

lemma apply_upload_edge:
  assumes "apply_upload c r = Inr q"
  shows "upload_edge (ur_State r) (ur_State q)"
proof (cases c)
  case (ClaimUpload v now)
  with assms show ?thesis by (auto elim!: ClaimAttempt_Inr simp: upload_open_def)
next
  case (FailUpload v a now)
  with assms upload_FailAttempt_Inr [of v a now r q] show ?thesis by auto
next
  case (AcceptUpload v a asset n now)
  with assms upload_Accept_Inr [of v a asset n now r q] show ?thesis by (auto simp: attempt_current_def)
next
  case (RejectUpload v a reason now)
  with assms upload_Reject_Inr [of v a reason now r q] show ?thesis by (auto simp: attempt_current_def)
next
  case (ExpireUpload v now)
  with assms upload_Expire_Inr [of v now r q] show ?thesis by (auto simp: upload_open_def)
qed

interpretation upload_flow: phased_workflow apply_upload ur_State upload_edge "\<lambda>p. \<forall>q. \<not> upload_edge p q"
  by unfold_locales (auto dest: apply_upload_edge)

fun is_claim :: "upload_command \<Rightarrow> bool" where
  "is_claim (ClaimUpload _ _) = True"
| "is_claim _ = False"

abbreviation claims :: "upload_command list \<Rightarrow> nat" where
  "claims cs \<equiv> length (filter is_claim cs)"

lemma upload_core_fields:
  assumes "upload_core q = upload_core r"
  shows "up_CreatedAt q = up_CreatedAt r" "ur_ExpiresAt q = ur_ExpiresAt r" "ur_AttemptTimeout q = ur_AttemptTimeout r"
    "ur_Registry q = ur_Registry r" "upload_binding.truncate q = upload_binding.truncate r"
    "ur_EncryptionPurpose q = ur_EncryptionPurpose r"
  using assms by (cases q; cases r; simp add: upload_core_def upload_binding.defs)+

lemma upload_truncate_fields:
  assumes "upload_binding.truncate q = upload_binding.truncate r"
  shows "up_MaximumBytes q = up_MaximumBytes r" "up_ExpectedBytes q = up_ExpectedBytes r" "up_Region q = up_Region r"
    "up_RetentionClass q = up_RetentionClass r" "up_ExpectedDigest q = up_ExpectedDigest r" "up_MediaType q = up_MediaType r"
  using assms by (cases q; cases r; simp add: upload_binding.defs)+

lemma upload_valid_moved:
  assumes "upload_valid registry r" and core: "upload_core q = upload_core r"
    and "1 \<le> ur_Version q" "t_ns (up_CreatedAt r) \<le> t_ns (ur_UpdatedAt q)" "validateUploadState q"
    and "t_utc (ur_UpdatedAt q)" "pred_option t_utc (ur_LeaseExpiresAt q)" "pred_option t_utc (ur_AcceptedAt q)"
  shows "upload_valid registry q"
  unfolding upload_valid_def
proof (intro conjI)
  note same = upload_core_fields [OF core] upload_truncate_fields [OF upload_core_fields(5) [OF core]]
  show "upload_binding_ok registry q"
    using assms(1) core by (metis upload_valid_def upload_binding_ok_core)
  show "upload_limits_ok q" "upload_times_utc q"
    using assms(1,3,4,6-8) by (simp_all add: upload_valid_def upload_limits_ok_def upload_times_utc_def same Before_def del: validateUploadState.simps)
qed (rule assms)

lemma apply_upload_valid:
  assumes step: "apply_upload c r = Inr q" and v: "upload_valid registry r"
    and room: "ur_Version r < int64_max" "is_claim c \<longrightarrow> ur_Attempt r + 1 < 2 ^ 32"
  shows "upload_valid registry q"
proof -
  have lim: "upload_limits_ok r" and st: "validateUploadState r" and utc: "upload_times_utc r"
    using v by (auto simp: upload_valid_def simp del: validateUploadState.simps)
  have created: "t_ns (up_CreatedAt r) \<le> t_ns (ur_UpdatedAt r)" "1 \<le> ur_Version r"
    "t_ns (up_CreatedAt r) < t_ns (ur_ExpiresAt r)" "60000000000 \<le> ur_AttemptTimeout r"
    using lim by (auto simp: upload_limits_ok_def Before_def After_def MinimumUploadAttemptTimeout_def)
  have i: "i64 (ur_Version r + 1) = ur_Version r + 1"
    using created room by (intro i64_succ) (simp_all add: int64_min_def)
  have core: "upload_core q = upload_core r" and version: "1 \<le> ur_Version q"
    using apply_upload_Inr [OF step] created i by auto
  note moved = upload_valid_moved [OF v core version]
  show ?thesis
  proof (cases c)
    case (ClaimUpload u now)
    then have "ClaimAttempt u now r = Inr q" "ur_Attempt r + 1 < 2 ^ 32" using step room by auto
    then show ?thesis
      using created st utc
      by (elim ClaimAttempt_Inr, intro moved)
         (auto simp: upload_open_def upload_times_utc_def Before_def After_def Add_def split: option.splits)
  next
    case (FailUpload u a now)
    with step have "upload_FailAttempt u a now r = Inr q" by simp
    from upload_FailAttempt_Inr [OF this] show ?thesis
      using created st utc by (intro moved) (auto simp: upload_times_utc_def Before_def split: option.splits)
  next
    case (AcceptUpload u a asset n now)
    with step have "upload_Accept u a asset n now r = Inr q" by simp
    from upload_Accept_Inr [OF this] show ?thesis
      using created st utc
      by (intro moved) (auto simp: attempt_current_def upload_times_utc_def Before_def split: option.splits)
  next
    case (RejectUpload u a reason now)
    with step have "upload_Reject u a reason now r = Inr q" by simp
    from upload_Reject_Inr [OF this] show ?thesis
      using created st utc
      by (intro moved) (auto simp: attempt_current_def upload_times_utc_def Before_def split: option.splits)
  next
    case (ExpireUpload u now)
    with step have "upload_Expire u now r = Inr q" by simp
    from upload_Expire_Inr [OF this] show ?thesis
      using created st utc by (intro moved) (auto simp: upload_open_def upload_times_utc_def Before_def split: option.splits)
  qed
qed

lemma run_upload_valid:
  assumes "run_all apply_upload cs r = Inr q" and "upload_valid registry r"
    and "ur_Version r + int (length cs) \<le> int64_max" and "ur_Attempt r + claims cs < 2 ^ 32"
  shows "upload_valid registry q \<and> upload_core q = upload_core r \<and> ur_Version q = ur_Version r + int (length cs)
    \<and> ur_Attempt q = ur_Attempt r + claims cs"
  using assms
proof (induction cs arbitrary: r)
  case Nil
  then show ?case by simp
next
  case (Cons c cs)
  from Cons.prems(1) obtain t where t: "apply_upload c r = Inr t" "run_all apply_upload cs t = Inr q"
    by (auto split: sum.splits)
  have ver: "1 \<le> ur_Version r" "i64 (ur_Version r + 1) = ur_Version r + 1"
    using Cons.prems(2,3) by (auto simp: upload_valid_def upload_limits_ok_def int64_min_def intro!: i64_succ)
  note d = apply_upload_Inr [OF t(1)]
  have att: "ur_Attempt t = ur_Attempt r + (if is_claim c then 1 else 0)"
    using d Cons.prems(4) by (cases c) auto
  have "upload_valid registry t"
    using Cons.prems by (intro apply_upload_valid [OF t(1)]) auto
  then show ?case
    using Cons.IH [OF t(2)] Cons.prems(3,4) d ver att by (auto split: if_splits)
qed

lemma NewUpload_Inr:
  assumes "NewUpload input registry policy = Inr u"
  shows "upload_valid registry u \<and> ur_State u = UploadStateIssued \<and> ur_Version u = 1 \<and> ur_Attempt u = 0
    \<and> t_ns (ur_ExpiresAt u) \<le> t_ns (ui_SessionExpiresAt input)
    \<and> t_ns (ur_ExpiresAt u) \<le> t_ns (up_CreatedAt u) + po_intentLifetime policy
    \<and> up_ExpectedDigest u = up_ExpectedDigest input \<and> up_ExpectedBytes u = up_ExpectedBytes input
    \<and> up_EvidenceID u = up_EvidenceID input \<and> up_TenantID u = up_TenantID input"
proof -
  from assms obtain r where r: "RestoreUpload registry r = Inr u"
    and "ur_State r = UploadStateIssued" "ur_Version r = 1" "ur_Attempt r = 0"
      "t_ns (ur_ExpiresAt r) \<le> t_ns (ui_SessionExpiresAt input)"
      "t_ns (ur_ExpiresAt r) \<le> t_ns (up_CreatedAt r) + po_intentLifetime policy"
      "up_ExpectedDigest r = up_ExpectedDigest input" "up_ExpectedBytes r = up_ExpectedBytes input"
      "up_EvidenceID r = up_EvidenceID input" "up_TenantID r = up_TenantID input"
    by (auto simp: NewUpload_def chain_iff Let_def upload_binding.defs UploadRecord.defs Before_def Add_def
          split: option.splits if_splits)
  then show ?thesis
    using RestoreUpload_Inr_valid [OF r] by (auto simp: RestoreUpload_def Let_def split: option.splits)
qed

lemma upload_binds_core: "upload_core q = upload_core r \<Longrightarrow> upload_binds asset q = upload_binds asset r"
  by (cases q; cases r; simp add: upload_core_def upload_binds_def)

lemma accepted_by:
  assumes "apply_upload c r = Inr q" and "ur_State q = UploadStateAccepted"
  obtains v attempt asset n now where "c = AcceptUpload v attempt asset n now" "upload_Accept v attempt asset n now r = Inr q"
  using assms by (cases c) (auto elim!: ClaimAttempt_Inr dest!: upload_FailAttempt_Inr upload_Reject_Inr upload_Expire_Inr split: if_splits)

section \<open>Lemmas: the store\<close>

text \<open>A row as the columns hold it: creation and expiry in whole microseconds, no temporal frame.\<close>

definition row_precise :: "UploadRecord \<Rightarrow> bool" where
  "row_precise r \<longleftrightarrow> t_ns (up_CreatedAt r) mod 1000 = 0 \<and> t_ns (ur_ExpiresAt r) mod 1000 = 0"

lemma transition_row_core: "upload_core q = upload_core r \<Longrightarrow> upload_core (transition_row q r) = upload_core r"
  by (simp add: upload_core_def transition_row_def)

lemma transition_row_state:
  assumes st: "validateUploadState q" and same: "ur_ExpiresAt q = ur_ExpiresAt r" and "row_precise r"
    and lease: "\<And>l. ur_LeaseExpiresAt q = Some l \<Longrightarrow> t_ns (ur_UpdatedAt q) + 1000 \<le> t_ns l \<or> l = ur_ExpiresAt r"
  shows "validateUploadState (transition_row q r)"
proof -
  have e: "t_ns (ur_ExpiresAt r) mod 1000 = 0" using assms(3) by (simp add: row_precise_def)
  then have p: "t_ns (pg_time (ur_ExpiresAt r)) = t_ns (ur_ExpiresAt r)" by (simp add: pg_time_ns)
  show ?thesis
  proof (cases "ur_State q = UploadStateUploading")
    case True
    then obtain l where l: "ur_LeaseExpiresAt q = Some l" "t_ns (ur_UpdatedAt q) < t_ns l" "t_ns l \<le> t_ns (ur_ExpiresAt r)"
      using st same by (auto simp: After_def split: option.splits)
    have "t_ns (pg_time (ur_UpdatedAt q)) < t_ns (pg_time l)"
      using lease [OF l(1)]
    proof
      assume "t_ns (ur_UpdatedAt q) + 1000 \<le> t_ns l"
      then show ?thesis by (rule pg_time_room)
    next
      assume "l = ur_ExpiresAt r"
      with l(2) e p show ?thesis by (simp add: pg_time_less)
    qed
    moreover have "t_ns (pg_time l) \<le> t_ns (ur_ExpiresAt r)"
      using pg_time_mono [OF l(3)] p by simp
    ultimately show ?thesis
      using True st l(1) by (simp add: transition_row_def After_def)
  next
    case False
    then show ?thesis
      using st same e by (cases "ur_State q") (auto simp: transition_row_def Before_def pg_time_less)
  qed
qed

lemma apply_upload_lease:
  assumes "apply_upload c r = Inr q" and "upload_limits_ok r" and "ur_LeaseExpiresAt q = Some l"
  shows "t_ns (ur_UpdatedAt q) + 1000 \<le> t_ns l \<or> l = ur_ExpiresAt r"
proof (cases c)
  case (ClaimUpload v now)
  with assms(1) have "ClaimAttempt v now r = Inr q" by simp
  then show ?thesis
    using assms(2,3) by (elim ClaimAttempt_Inr) (auto simp: upload_limits_ok_def MinimumUploadAttemptTimeout_def Add_def)
qed (use assms in \<open>auto dest!: upload_FailAttempt_Inr upload_Accept_Inr upload_Reject_Inr upload_Expire_Inr\<close>)

lemma transition_row_valid:
  assumes step: "apply_upload c r = Inr q" and v: "upload_valid registry r" and p: "row_precise r"
    and room: "ur_Version r < int64_max" "is_claim c \<longrightarrow> ur_Attempt r + 1 < 2 ^ 32"
  shows "upload_valid registry (transition_row q r) \<and> row_precise (transition_row q r)"
proof
  have q: "upload_valid registry q" using apply_upload_valid [OF step v room] .
  have core: "upload_core q = upload_core r" using apply_upload_Inr [OF step] by simp
  note same = upload_core_fields [OF core]
  have lim: "upload_limits_ok r" using v by (simp add: upload_valid_def del: validateUploadState.simps)
  have "validateUploadState (transition_row q r)"
  proof (rule transition_row_state)
    show "validateUploadState q" using q by (simp add: upload_valid_def del: validateUploadState.simps)
    show "ur_ExpiresAt q = ur_ExpiresAt r" by (rule same)
    show "row_precise r" by (rule p)
    show "t_ns (ur_UpdatedAt q) + 1000 \<le> t_ns l \<or> l = ur_ExpiresAt r" if "ur_LeaseExpiresAt q = Some l" for l
      using step lim that by (rule apply_upload_lease)
  qed
  moreover have "t_ns (up_CreatedAt r) \<le> t_ns (pg_time (ur_UpdatedAt q))"
    using q p same by (simp add: upload_valid_def upload_limits_ok_def row_precise_def Before_def pg_time_le del: validateUploadState.simps)
  moreover have "1 \<le> ur_Version q" using q by (simp add: upload_valid_def upload_limits_ok_def del: validateUploadState.simps)
  moreover have "ur_Version (transition_row q r) = ur_Version q" "ur_UpdatedAt (transition_row q r) = pg_time (ur_UpdatedAt q)"
    "pred_option t_utc (ur_LeaseExpiresAt (transition_row q r))" "pred_option t_utc (ur_AcceptedAt (transition_row q r))"
    by (simp_all add: transition_row_def option.pred_map comp_def pg_time_ns option.pred_True)
  ultimately show "upload_valid registry (transition_row q r)"
    by (intro upload_valid_moved [OF v transition_row_core [OF core]]) (simp_all add: pg_time_ns del: validateUploadState.simps)
  show "row_precise (transition_row q r)" using p by (simp add: row_precise_def transition_row_def)
qed

text \<open>The result of a transaction that stores \<open>q\<close>, and one lemma for the three transactions.\<close>

definition stored_transition :: "upload_db \<Rightarrow> string \<Rightarrow> UploadRecord \<Rightarrow> string \<Rightarrow> string \<Rightarrow> UploadRecord \<Rightarrow> upload_error + (UploadRecord \<times> upload_db)" where
  "stored_transition db uploadID row action reason q =
     (let r = transition_row q row in
      Inr (r, insertUploadAudit r (up_CaptureTokenID row) action reason (db\<lparr>ud_intents := (ud_intents db)(uploadID := Some r)\<rparr>)))"

lemma transitionUpload_refines:
  assumes row: "ud_intents db uploadID = Some row" "upload_valid registry row" "row_precise row"
    "catalog_Resolve catalog (ur_Registry row) = Inr registry" "uploadID \<noteq> []"
    and room: "ur_Version row < int64_max" "ur_Attempt row < maxInt32"
    and tr: "\<And>r. transition r = and_then (apply_upload c r) (\<lambda>t. Inr (t, action t, reason t))"
  shows "transitionUpload catalog (up_TenantID row) (up_CaptureTokenID row) uploadID starting transition db =
    (case (case starting of None \<Rightarrow> None | Some locked \<Rightarrow> locked) of
       Some e \<Rightarrow> Inl e
     | None \<Rightarrow>
        and_then (apply_upload c row) (\<lambda>q. stored_transition db uploadID row (action q) (reason q) q))"
proof -
  have ids: "up_TenantID row \<noteq> []" "up_CaptureTokenID row \<noteq> []"
    using row(2) by (simp_all add: upload_valid_def upload_binding_ok_def del: validateUploadState.simps)
  have cur: "restoreUpload catalog row = Inr row"
    using row by (simp add: restoreUpload_def RestoreUpload_valid)
  have next': "ur_Attempt q \<le> maxInt32 \<and> restoreUpload catalog (transition_row q row) = Inr (transition_row q row)"
    if "apply_upload c row = Inr q" for q
  proof -
    have "ur_Attempt row + 1 < 2 ^ 32" using room(2) by (simp add: maxInt32_def)
    then have "upload_valid registry (transition_row q row)"
      using transition_row_valid [OF that row(2,3) room(1)] by simp
    moreover have "ur_Registry (transition_row q row) = ur_Registry row" by (simp add: transition_row_def)
    ultimately have "restoreUpload catalog (transition_row q row) = Inr (transition_row q row)"
      using row(4) by (simp add: restoreUpload_def RestoreUpload_valid)
    moreover have "ur_Attempt q \<le> maxInt32"
      using apply_upload_Inr [OF that] room(2) by (auto simp: maxInt32_def split: upload_command.splits)
    ultimately show ?thesis by simp
  qed
  show ?thesis
  proof (cases "apply_upload c row")
    case (Inl e)
    then show ?thesis
      using row(1,5) ids cur by (simp add: transitionUpload_def tr split: option.splits)
  next
    case (Inr q)
    with next' [OF Inr] show ?thesis
      using row(1,5) ids cur by (simp add: transitionUpload_def tr Let_def stored_transition_def split: option.splits)
  qed
qed

section \<open>Samples\<close>

definition sample_body :: string where
  "sample_body = map char_of [0x89, 0x50, 0x4e, 0x47, 0x0d, 0x0a, 0x1a, 0x0a, 0x21 :: nat]"

definition sample_input :: UploadInput where
  "sample_input =
     \<lparr>up_ID = ''u'', up_TenantID = ''ten'', up_CaptureTokenID = ''cap'', up_SubjectID = ''sub'', up_VerificationID = ''ver'',
      up_EvidenceID = ''e'', up_AuthorityID = ''au'', up_ResponseID = ''re'', up_ProfileID = ''pr'', up_ProfileRevision = 1,
      up_ProfileDigest = digest_text (replicate 32 (CHR 0x00)), up_RequirementKey = ''face'', up_Purpose = ''p'', up_EvidenceType = ''t'',
      up_Artefact = ''a'', up_AcquisitionMethod = ''m'', up_FallbackCondition = [], up_Assurances = [''f''],
      up_AllowedMediaTypes = [MediaTypePNG], up_MaximumBytes = 100, up_ExpectedBytes = 9,
      up_ExpectedDigest = digest_Sum sample_evidence_env sample_body, up_MediaType = MediaTypePNG, up_Region = ''eu.w'',
      up_RetentionClass = ''s.t'', up_CreatedAt = utc_at minute, up_Sequence = None, ui_SessionExpiresAt = utc_at hour\<rparr>"

definition sample_upload :: UploadRecord where
  "sample_upload = upload_binding.extend (upload_binding.truncate sample_input)
     (UploadRecord.fields (registry_Reference sample_registry) ContentEncryptionPurpose UploadStateIssued 1 0
        (10 * minute) None (utc_at minute) (utc_at (16 * minute)) None [])"

definition sample_upload_db :: upload_db where
  "sample_upload_db = \<lparr>ud_intents = [''u'' \<mapsto> sample_upload], ud_frames = (\<lambda>_. None), ud_audit = []\<rparr>"

definition sample_uploaded :: evidence_record where
  "sample_uploaded = (sample_asset_for ''e'')\<lparr>ea_Content := (ea_Content (sample_asset_for ''e''))
     \<lparr>co_PlaintextDigest := digest_Sum sample_evidence_env sample_body, co_MediaType := MediaTypePNG\<rparr>\<rparr>"

definition sample_uploads :: "upload_command list" where
  "sample_uploads = [ClaimUpload 1 (utc_at (2 * minute)), ClaimUpload 2 (utc_at (12 * minute)), FailUpload 3 2 (utc_at (13 * minute)),
     ClaimUpload 4 (utc_at (14 * minute)), AcceptUpload 5 3 sample_uploaded 9 (utc_at (15 * minute))]"

lemma digest_valid_text: "length raw = 32 \<Longrightarrow> digest_valid (digest_text raw)"
  by (simp add: digest_valid_def NewDigest_text)

lemmas sample_upload_simps = sample_upload_def sample_input_def upload_binding.defs UploadRecord.defs

lemma sample_purpose: "''p'' \<in> set (df_Purposes sample_registry)"
  by (simp add: sample_registry_def)

lemma sample_upload_valid: "upload_valid sample_registry sample_upload"
  by (simp add: upload_valid_def upload_binding_ok_def upload_limits_ok_def upload_times_utc_def sample_upload_simps
      sample_labels sample_acquisition validUploadFallbackCondition_def digest_Sum_def digest_valid_text validateTemporalFrame_def
      validateUploadMediaTypes_def validCanonicalUploadMediaType_def upload_limits go_time_simps sample_purpose
      del: validRequirementKey.simps)

lemma sample_upload_new: "NewUpload sample_input sample_registry DefaultUploadPolicy = Inr sample_upload"
proof -
  have "NewUpload sample_input sample_registry DefaultUploadPolicy = RestoreUpload sample_registry sample_upload"
    by (simp add: NewUpload_def DefaultUploadPolicy_def policy_isZero_def validateUploadMediaTypes_def
        sample_acquisition uploadMediaTypesAreSubset_def validCanonicalUploadMediaType_def go_time_simps cloneTemporalFrame_def
        sample_upload_simps Let_def)
  with RestoreUpload_valid [OF sample_upload_valid] show ?thesis by simp
qed

lemma sample_uploads_run: "\<exists>q. run_all apply_upload sample_uploads sample_upload = Inr q \<and> ur_State q = UploadStateAccepted"
  by (simp add: sample_uploads_def ClaimAttempt_def upload_FailAttempt_def upload_Accept_def Let_def attempt_current_def
      upload_binds_def sample_uploaded_def sample_asset_for_def go_time_simps i64_def sample_upload_simps)

section \<open>Properties\<close>

text \<open>
  C15. Take any intent that \<^verbatim>\<open>NewUpload\<close> creates and any sequence of fewer than $2^{32}$ commands that each
  succeeds. The intent restores unchanged from its record, so the validation of durable records accepts
  every state the commands reach; what creation bound (identifiers, sizes, digest, media type, placement,
  expiry, which never exceeds that of the session) is as it was; the version counts the commands
  and the attempt the claims. An accepted, rejected or expired intent takes no further command. An
  accepted one was accepted by its last command, under the newest attempt and before the expiry, for
  available and verified evidence with exactly its binding, size, digest and media type.
\<close>

theorem upload_history_sound:
  assumes "NewUpload input registry policy = Inr u" and "run_all apply_upload cs u = Inr q" and "length cs < 2 ^ 32"
  shows "RestoreUpload registry q = Inr q
    \<and> upload_binding.truncate q = upload_binding.truncate u \<and> ur_ExpiresAt q = ur_ExpiresAt u
    \<and> t_ns (ur_ExpiresAt q) \<le> t_ns (ui_SessionExpiresAt input)
    \<and> ur_Version q = 1 + int (length cs) \<and> ur_Attempt q = claims cs
    \<and> (ur_State q \<noteq> UploadStateIssued \<longrightarrow> ur_State q \<noteq> UploadStateUploading \<longrightarrow> (\<forall>c. \<exists>e. apply_upload c q = Inl e))
    \<and> (ur_State q = UploadStateAccepted \<longrightarrow>
         (\<exists>ds v asset now. cs = ds @ [AcceptUpload v (claims cs) asset (up_ExpectedBytes input) now]
            \<and> upload_binds asset q \<and> co_PlaintextDigest (ea_Content asset) = up_ExpectedDigest input
            \<and> co_MediaType (ea_Content asset) = up_MediaType q \<and> Before now (ur_ExpiresAt q)))"
proof (intro conjI impI)
  note new = NewUpload_Inr [OF assms(1)]
  have "claims cs < 2 ^ 32" using length_filter_le assms(3) by (rule le_less_trans)
  then have run: "upload_valid registry q" "upload_core q = upload_core u" "ur_Version q = 1 + int (length cs)" "ur_Attempt q = claims cs"
    using run_upload_valid [OF assms(2), of registry] new assms(3) by (auto simp: int64_max_def)
  show "RestoreUpload registry q = Inr q" using run(1) by (rule RestoreUpload_valid)
  show "upload_binding.truncate q = upload_binding.truncate u" "ur_ExpiresAt q = ur_ExpiresAt u"
    "t_ns (ur_ExpiresAt q) \<le> t_ns (ui_SessionExpiresAt input)"
    using upload_core_fields [OF run(2)] new by simp_all
  show "ur_Version q = 1 + int (length cs)" "ur_Attempt q = claims cs" by fact+
  show "\<forall>c. \<exists>e. apply_upload c q = Inl e"
    if "ur_State q \<noteq> UploadStateIssued" "ur_State q \<noteq> UploadStateUploading"
    using that apply_upload_Inr upload_open_def by (metis sum.exhaust)
  assume acc: "ur_State q = UploadStateAccepted"
  with assms(2) new have "cs \<noteq> []" by auto
  then obtain ds c where cs: "cs = ds @ [c]" by (metis rev_exhaust)
  with assms(2) obtain r where r: "apply_upload c r = Inr q" by (auto simp: run_all_append split: sum.splits)
  then obtain v attempt asset n now where c: "c = AcceptUpload v attempt asset n now" "upload_Accept v attempt asset n now r = Inr q"
    using acc by (rule accepted_by)
  have core: "upload_core q = upload_core r" using apply_upload_Inr [OF r] by simp
  have q: "upload_core r = upload_core u" using core run(2) by simp
  note bound = upload_core_fields [OF q] upload_truncate_fields [OF upload_core_fields(5) [OF q]]
  note a0 = upload_Accept_Inr [OF c(2)]
  have now: "Before now (ur_ExpiresAt r)" using a0 by (simp add: attempt_current_def Before_def)
  have a: "n = up_ExpectedBytes input" "attempt = ur_Attempt q" "upload_binds asset q"
    "co_PlaintextDigest (ea_Content asset) = up_ExpectedDigest input" "co_MediaType (ea_Content asset) = up_MediaType q"
    "Before now (ur_ExpiresAt q)"
    using a0 new bound now upload_binds_core [OF core] by (simp_all add: attempt_current_def)
  show "\<exists>ds v asset now. cs = ds @ [AcceptUpload v (claims cs) asset (up_ExpectedBytes input) now]
      \<and> upload_binds asset q \<and> co_PlaintextDigest (ea_Content asset) = up_ExpectedDigest input
      \<and> co_MediaType (ea_Content asset) = up_MediaType q \<and> Before now (ur_ExpiresAt q)"
    using a cs c(1) run(4) by (intro exI [of _ ds] exI [of _ v] exI [of _ asset] exI [of _ now]) simp
qed

theorem upload_history_sound_witness:
  "\<exists>q. run_all apply_upload sample_uploads sample_upload = Inr q \<and> RestoreUpload sample_registry q = Inr q
     \<and> ur_Version q = 6 \<and> ur_Attempt q = 3 \<and> (\<forall>c. \<exists>e. apply_upload c q = Inl e)
     \<and> (\<exists>asset. upload_binds asset q \<and> co_PlaintextDigest (ea_Content asset) = digest_Sum sample_evidence_env sample_body)"
proof -
  obtain q where q: "run_all apply_upload sample_uploads sample_upload = Inr q" "ur_State q = UploadStateAccepted"
    using sample_uploads_run by blast
  have "length sample_uploads < 2 ^ 32" "length sample_uploads = 5" "claims sample_uploads = 3"
    by (simp_all add: sample_uploads_def)
  moreover have "up_ExpectedDigest sample_input = digest_Sum sample_evidence_env sample_body"
    by (simp add: sample_input_def)
  ultimately show ?thesis
    using upload_history_sound [OF sample_upload_new q(1)] q by auto
qed



lemma transitionUpload_Inr:
  assumes "transitionUpload catalog tenantID principalID uploadID starting transition db = Inr (r, db')"
  obtains row current q action reason where "ud_intents db uploadID = Some row" "up_TenantID row = tenantID"
    "restoreUpload catalog row = Inr current" "up_CaptureTokenID current = principalID" "transition current = Inr (q, action, reason)"
    "restoreUpload catalog (transition_row q row) = Inr r" "starting \<noteq> None \<longrightarrow> starting = Some None"
    "db' = insertUploadAudit r principalID action reason (db\<lparr>ud_intents := (ud_intents db)(uploadID := Some (transition_row q row))\<rparr>)"
  using assms by (auto simp: transitionUpload_def chain_iff Let_def split: option.splits if_splits)

text \<open>
  A body is let in only for its own intent: when the preflight succeeds, the intent it read belongs to the
  tenant, capture credential and verification of the caller, and the announced length, media type and digest are
  those of the intent. Either the intent is already accepted, the caller's version is the accepted one or that
  of the accepted claim, and nothing is written; or the store took a claim at exactly the caller's version, with
  session and credential live, from an intent that was issued or whose lease had run out before its
  expiry, and one claim is audited.
\<close>

theorem upload_begin_guarded:
  assumes "preflight_Begin catalog p uploadID m session now db dbc = Inr (r, db')"
  shows "\<exists>found. FindUpload catalog (pr_TenantID p) uploadID db = Inr found
    \<and> up_TenantID found = pr_TenantID p \<and> up_CaptureTokenID found = pr_CaptureTokenID p \<and> up_VerificationID found = pr_VerificationID p
    \<and> um_ContentLength m = up_ExpectedBytes found \<and> um_MediaType m = up_MediaType found \<and> um_Digest m = up_ExpectedDigest found
    \<and> (ur_State found = UploadStateAccepted \<and> r = found \<and> db' = dbc
         \<and> (um_ExpectedVersion m = ur_Version found \<or> um_ExpectedVersion m = i64 (ur_Version found - 2))
       \<or> ur_State found \<noteq> UploadStateAccepted \<and> session = None
         \<and> (\<exists>row current. ud_intents dbc uploadID = Some row \<and> restoreUpload catalog row = Inr current
              \<and> ur_Version current = um_ExpectedVersion m \<and> up_CaptureTokenID current = pr_CaptureTokenID p
              \<and> (ur_State current = UploadStateIssued
                 \<or> ur_State current = UploadStateUploading
                   \<and> (\<forall>lease. ur_LeaseExpiresAt current = Some lease \<longrightarrow> \<not> Before (Truncate (to_UTC now) 1000) lease))
              \<and> Before (Truncate (to_UTC now) 1000) (ur_ExpiresAt current)
              \<and> ur_State r = UploadStateUploading \<and> ur_Version r = i64 (um_ExpectedVersion m + 1)
              \<and> length (ud_audit db') = length (ud_audit dbc) + 1))"
proof -
  define at' where "at' = Truncate (to_UTC now) 1000"
  have utc: "to_UTC at' = at'" by (simp add: at'_def Truncate_def to_UTC_def)
  from assms obtain found where f: "FindUpload catalog (pr_TenantID p) uploadID db = Inr found"
    "up_TenantID found = pr_TenantID p" "up_CaptureTokenID found = pr_CaptureTokenID p" "up_VerificationID found = pr_VerificationID p"
    "um_ContentLength m = up_ExpectedBytes found" "um_MediaType m = up_MediaType found" "um_Digest m = up_ExpectedDigest found"
    by (auto simp: preflight_Begin_def preflight_Find_def chain_iff)
  show ?thesis
  proof (cases "ur_State found = UploadStateAccepted")
    case True
    with assms f show ?thesis
      by (intro exI [of _ found]) (auto simp: preflight_Begin_def preflight_Find_def chain_iff)
  next
    case False
    with assms f have "ClaimUploadAttempt catalog (pr_TenantID p) (pr_CaptureTokenID p) uploadID session (um_ExpectedVersion m) at' dbc = Inr (r, db')"
      by (auto simp: preflight_Begin_def preflight_Find_def chain_iff at'_def split: if_splits)
    then obtain row current q where c: "ud_intents dbc uploadID = Some row" "restoreUpload catalog row = Inr current"
        "up_CaptureTokenID current = pr_CaptureTokenID p" "ClaimAttempt (um_ExpectedVersion m) at' current = Inr q"
        "restoreUpload catalog (transition_row q row) = Inr r" "session = None" "length (ud_audit db') = length (ud_audit dbc) + 1"
      unfolding ClaimUploadAttempt_def
      by (elim transitionUpload_Inr) (auto simp: chain_iff insertUploadAudit_def)
    have "ur_State r = ur_State q" "ur_Version r = ur_Version q"
      using c(5) by (auto simp: restoreUpload_def RestoreUpload_def Let_def transition_row_def split: sum.splits option.splits)
    with c(4) utc have "ur_Version current = um_ExpectedVersion m" "Before at' (ur_ExpiresAt current)" "ur_State r = UploadStateUploading"
      "ur_Version r = i64 (um_ExpectedVersion m + 1)" "ur_State current = UploadStateIssued
       \<or> ur_State current = UploadStateUploading \<and> (\<forall>lease. ur_LeaseExpiresAt current = Some lease \<longrightarrow> \<not> Before at' lease)"
      by (auto elim!: ClaimAttempt_Inr simp: upload_open_def)
    with False f c show ?thesis
      unfolding at'_def by - (rule exI [of _ found], simp)
  qed
qed

definition sample_principal :: UploadPrincipal where
  "sample_principal = \<lparr>pr_TenantID = ''ten'', pr_CaptureTokenID = ''cap'', pr_VerificationID = ''ver''\<rparr>"

definition sample_metadata :: UploadMetadata where
  "sample_metadata = \<lparr>um_ExpectedVersion = 1, um_ContentLength = 9, um_MediaType = MediaTypePNG,
     um_Digest = digest_Sum sample_evidence_env sample_body\<rparr>"

theorem upload_begin_guarded_witness:
  "\<exists>r db'. preflight_Begin [(registry_Reference sample_registry, sample_registry)] sample_principal ''u'' sample_metadata None
       (utc_at (2 * minute)) sample_upload_db sample_upload_db = Inr (r, db')
     \<and> ur_State r = UploadStateUploading \<and> ur_Version r = 2 \<and> length (ud_audit db') = 1"
proof -
  let ?cat = "[(registry_Reference sample_registry, sample_registry)]"
  have row: "ud_intents sample_upload_db ''u'' = Some sample_upload" by (simp add: sample_upload_db_def)
  have f: "up_TenantID sample_upload = ''ten''" "up_CaptureTokenID sample_upload = ''cap''" "ur_Version sample_upload = 1"
    "ur_Attempt sample_upload = 0" "row_precise sample_upload" "ur_Registry sample_upload = registry_Reference sample_registry"
    "up_VerificationID sample_upload = ''ver''" "up_ID sample_upload = ''u''" "ur_State sample_upload = UploadStateIssued"
    "up_ExpectedBytes sample_upload = 9" "up_MediaType sample_upload = MediaTypePNG"
    "up_ExpectedDigest sample_upload = digest_Sum sample_evidence_env sample_body"
    by (simp_all add: sample_upload_simps row_precise_def)
  have cat: "catalog_Resolve ?cat (ur_Registry sample_upload) = Inr sample_registry" by (simp add: f catalog_Resolve_def)
  obtain q where q: "ClaimAttempt 1 (utc_at (2 * minute)) sample_upload = Inr q"
    by (auto simp: ClaimAttempt_def sample_upload_simps Let_def go_time_simps)
  have found: "FindUpload ?cat ''ten'' ''u'' sample_upload_db = Inr sample_upload"
    by (simp add: FindUpload_def row f restoreUpload_def cat [unfolded f] RestoreUpload_valid [OF sample_upload_valid]
        restoreTemporalFrame_def) (simp add: sample_upload_db_def)
  have "\<exists>r db'. transitionUpload ?cat (up_TenantID sample_upload) (up_CaptureTokenID sample_upload) ''u'' (Some None)
       (\<lambda>upload. and_then (ClaimAttempt 1 (utc_at (2 * minute)) upload) (\<lambda>t. Inr (t, ''claim'', []))) sample_upload_db = Inr (r, db')"
    by (subst transitionUpload_refines [OF row sample_upload_valid f(5) cat, where c = "ClaimUpload 1 (utc_at (2 * minute))"
          and action = "\<lambda>_. ''claim''" and reason = "\<lambda>_. []"])
       (simp_all add: f int64_max_def maxInt32_def q [simplified] stored_transition_def Let_def)
  then obtain r db' where b: "preflight_Begin ?cat sample_principal ''u'' sample_metadata None (utc_at (2 * minute)) sample_upload_db sample_upload_db
      = Inr (r, db')"
    by (auto simp: preflight_Begin_def preflight_Find_def sample_principal_def sample_metadata_def found f ClaimUploadAttempt_def Truncate_def to_UTC_def)
  from upload_begin_guarded [OF b] have "ur_State r = UploadStateUploading \<and> ur_Version r = 2 \<and> length (ud_audit db') = 1"
    using found f by (auto simp: sample_principal_def sample_metadata_def sample_upload_db_def i64_def)
  with b show ?thesis by blast
qed

end
