(* ===== verification/Upload_Body.thy ===== *)
theory Upload_Body
  imports Evidence_Upload "HOL-Library.Sublist"
begin

text \<open>
  The streaming validation of an uploaded body (\<^verbatim>\<open>internal/evidence/upload_body.go\<close>) on top of the part of
  \<^verbatim>\<open>bufio.Reader\<close> it uses (\<^verbatim>\<open>NewReaderSize\<close>, which keeps at least 16 bytes, \<^verbatim>\<open>Peek\<close> and \<^verbatim>\<open>Read\<close>).

  The source is any reader that delivers some bytes and then for ever one error. How it splits
  the bytes is a schedule: each entry says how many bytes the call is willing to give (none is allowed)
  and whether the call that gives the last byte reports the end with it; after the schedule it gives as
  much as fits. The digester is its input so far, hashed by the SHA-256 of the environment.
\<close>

section \<open>Readers\<close>

datatype (plugins only: size code) io_error = IoEOF | IoNoProgress | IoBufferFull | IoOther string

record body_source =
  so_rest :: string
  so_end :: io_error
  so_schedule :: "(nat \<times> bool) list"

definition source_read :: "nat \<Rightarrow> body_source \<Rightarrow> string \<times> io_error option \<times> body_source" where
  "source_read m s =
     (if so_rest s = [] then ([], Some (so_end s), s)
      else let (k, eager) = (case so_schedule s of [] \<Rightarrow> (m, False) | e # _ \<Rightarrow> e);
               n = min k m in
           (take n (so_rest s), if eager \<and> drop n (so_rest s) = [] then Some (so_end s) else None,
            s\<lparr>so_rest := drop n (so_rest s), so_schedule := tl (so_schedule s)\<rparr>))"

record bufio_reader =
  bf_buf :: string
  bf_err :: "io_error option"
  bf_src :: body_source

definition minReadBufferSize :: nat where
  "minReadBufferSize = 16"

definition maxConsecutiveEmptyReads :: nat where
  "maxConsecutiveEmptyReads = 100"

fun fill_loop :: "nat \<Rightarrow> bufio_reader \<Rightarrow> bufio_reader" where
  "fill_loop 0 b = b\<lparr>bf_err := Some IoNoProgress\<rparr>"
| "fill_loop (Suc i) b =
     (case source_read (minReadBufferSize - length (bf_buf b)) (bf_src b) of
        (chunk, err, src) \<Rightarrow>
          (let b' = b\<lparr>bf_buf := bf_buf b @ chunk, bf_src := src\<rparr> in
           if err \<noteq> None then b'\<lparr>bf_err := err\<rparr> else if chunk \<noteq> [] then b' else fill_loop i b'))"

lemma fill_loop_progress:
  "bf_err b = None \<Longrightarrow> bf_err (fill_loop i b) = None \<Longrightarrow> length (bf_buf b) < length (bf_buf (fill_loop i b))"
  by (induction i b rule: fill_loop.induct) (auto split: prod.splits if_splits simp: Let_def)

function peek_loop :: "nat \<Rightarrow> bufio_reader \<Rightarrow> bufio_reader" where
  "peek_loop n b =
     (if length (bf_buf b) < n \<and> length (bf_buf b) < minReadBufferSize \<and> bf_err b = None
      then peek_loop n (fill_loop maxConsecutiveEmptyReads b) else b)"
  by pat_completeness auto
termination
proof (relation "measure (\<lambda>(n, b). if bf_err b = None then Suc (n - length (bf_buf b)) else 0)")
  fix n and b :: bufio_reader assume "length (bf_buf b) < n \<and> length (bf_buf b) < minReadBufferSize \<and> bf_err b = None"
  then show "((n, fill_loop maxConsecutiveEmptyReads b), n, b)
      \<in> measure (\<lambda>(n, b). if bf_err b = None then Suc (n - length (bf_buf b)) else 0)"
    using fill_loop_progress [of b maxConsecutiveEmptyReads] by auto
qed simp

declare peek_loop.simps [simp del]

definition bufio_Peek :: "nat \<Rightarrow> bufio_reader \<Rightarrow> string \<times> io_error option \<times> bufio_reader" where
  "bufio_Peek n b =
     (let b' = peek_loop n b in
      if length (bf_buf b') < n
      then (bf_buf b', Some (case bf_err b' of None \<Rightarrow> IoBufferFull | Some e \<Rightarrow> e), b'\<lparr>bf_err := None\<rparr>)
      else (take n (bf_buf b'), None, b'))"

definition bufio_Read :: "nat \<Rightarrow> bufio_reader \<Rightarrow> string \<times> io_error option \<times> bufio_reader" where
  "bufio_Read m b =
     (if m = 0 then (if bf_buf b \<noteq> [] then ([], None, b) else ([], bf_err b, b\<lparr>bf_err := None\<rparr>))
      else if bf_buf b \<noteq> [] then (take m (bf_buf b), None, b\<lparr>bf_buf := drop m (bf_buf b)\<rparr>)
      else if bf_err b \<noteq> None then ([], bf_err b, b\<lparr>bf_err := None\<rparr>)
      else if minReadBufferSize \<le> m then
        (case source_read m (bf_src b) of (chunk, err, src) \<Rightarrow> (chunk, err, b\<lparr>bf_src := src\<rparr>))
      else
        (case source_read minReadBufferSize (bf_src b) of
           (chunk, err, src) \<Rightarrow>
             if chunk = [] then ([], err, b\<lparr>bf_src := src\<rparr>)
             else (take m chunk, None, b\<lparr>bf_buf := drop m chunk, bf_err := err, bf_src := src\<rparr>)))"

section \<open>The upload reader\<close>

datatype (plugins only: size code) body_error =
    BodyConflict
  | BodyLength
  | BodyDigest
  | BodySignature
  | BodyIncomplete
  | BodySignatureRead io_error
  | BodyRead io_error
  | BodyTrailer io_error
  | BodyEOF

record ValidatedBody =
  vb_Bytes :: int
  vb_Digest :: string

record UploadReader =
  br_source :: bufio_reader
  br_hashed :: string
  br_expectedBytes :: int
  br_expectedDigest :: string
  br_observedBytes :: int
  br_result :: ValidatedBody
  br_terminal :: "body_error option"
  br_isValidated :: bool

definition jpegSignature :: string where
  "jpegSignature = map char_of [0xff, 0xd8, 0xff :: nat]"

definition pngSignature :: string where
  "pngSignature = map char_of [0x89, 0x50, 0x4e, 0x47, 0x0d, 0x0a, 0x1a, 0x0a :: nat]"

definition file_signature :: "string \<Rightarrow> string option" where
  "file_signature mediaType =
     (if mediaType = MediaTypeJPEG then Some jpegSignature else if mediaType = MediaTypePNG then Some pngSignature else None)"

definition validateUploadSignature :: "bufio_reader \<Rightarrow> string \<Rightarrow> body_error + bufio_reader" where
  "validateUploadSignature source mediaType =
     (case file_signature mediaType of
        None \<Rightarrow> Inl BodySignature
      | Some signature \<Rightarrow>
         (case bufio_Peek (length signature) source of
            (observed, err, source') \<Rightarrow>
              (case err of
                 Some e \<Rightarrow> Inl (if e = IoEOF then BodySignature else BodySignatureRead e)
               | None \<Rightarrow> guard (observed = signature) BodySignature (Inr source'))))"

definition NewUploadReader :: "UploadRecord \<Rightarrow> body_source \<Rightarrow> body_error + UploadReader" where
  "NewUploadReader upload source =
     guard (ur_State upload = UploadStateUploading \<and> 1 \<le> up_ExpectedBytes upload) BodyConflict
       (and_then (validateUploadSignature \<lparr>bf_buf = [], bf_err = None, bf_src = source\<rparr> (up_MediaType upload)) (\<lambda>buffered.
          Inr \<lparr>br_source = buffered, br_hashed = [], br_expectedBytes = up_ExpectedBytes upload,
               br_expectedDigest = up_ExpectedDigest upload, br_observedBytes = 0, br_result = \<lparr>vb_Bytes = 0, vb_Digest = []\<rparr>,
               br_terminal = None, br_isValidated = False\<rparr>))"

definition finalise :: "evidence_env \<Rightarrow> UploadReader \<Rightarrow> body_error option \<times> UploadReader" where
  "finalise env r =
     (case bufio_Read 1 (br_source r) of
        (chunk, err, source) \<Rightarrow>
          (let r' = r\<lparr>br_source := source\<rparr> in
           if chunk \<noteq> [] then (Some BodyLength, r')
           else case err of
             None \<Rightarrow> (Some (BodyTrailer IoNoProgress), r')
           | Some e \<Rightarrow>
              if e \<noteq> IoEOF then (Some (BodyTrailer e), r')
              else let digest = digest_Sum env (br_hashed r) in
                   if digest \<noteq> br_expectedDigest r then (Some BodyDigest, r')
                   else (None, r'\<lparr>br_result := \<lparr>vb_Bytes = br_observedBytes r, vb_Digest = digest\<rparr>, br_isValidated := True\<rparr>)))"

text \<open>
  \<open>m\<close> is the length of the destination; the delivered bytes are the first component. \<open>read_more\<close> is the part
  of \<^verbatim>\<open>Read\<close> after the destination was cut to the remaining length \<open>k\<close>.
\<close>

definition read_more :: "evidence_env \<Rightarrow> nat \<Rightarrow> UploadReader \<Rightarrow> string \<times> body_error option \<times> UploadReader" where
  "read_more env k r =
     (case bufio_Read k (br_source r) of
        (chunk, err, source) \<Rightarrow>
          (let r' = r\<lparr>br_source := source, br_hashed := br_hashed r @ chunk,
                      br_observedBytes := br_observedBytes r + int (length chunk)\<rparr>;
               stop = (\<lambda>e. (chunk, Some e, r'\<lparr>br_terminal := Some e\<rparr>)) in
           if err \<noteq> None \<and> err \<noteq> Some IoEOF then stop (BodyRead (the err))
           else if br_observedBytes r' < br_expectedBytes r' then
             (if err = Some IoEOF then stop BodyLength
              else if chunk = [] then stop (BodyRead IoNoProgress)
              else (chunk, None, r'))
           else case finalise env r' of
                  (Some e, r'') \<Rightarrow> (chunk, Some e, r''\<lparr>br_terminal := Some e\<rparr>)
                | (None, r'') \<Rightarrow> (chunk, None, r'')))"

definition upload_Read :: "evidence_env \<Rightarrow> nat \<Rightarrow> UploadReader \<Rightarrow> string \<times> body_error option \<times> UploadReader" where
  "upload_Read env m r =
     (if m = 0 then ([], None, r)
      else case br_terminal r of
        Some e \<Rightarrow> ([], Some e, r)
      | None \<Rightarrow>
         if br_isValidated r then ([], Some BodyEOF, r)
         else let remaining = br_expectedBytes r - br_observedBytes r in
              read_more env (if remaining < int m then nat remaining else m) r)"

definition reader_Result :: "UploadReader \<Rightarrow> body_error + ValidatedBody" where
  "reader_Result r =
     (case br_terminal r of
        Some e \<Rightarrow> Inl e
      | None \<Rightarrow> if \<not> br_isValidated r then Inl BodyIncomplete else Inr (br_result r))"

text \<open>A consumer: one read per destination length, whatever the reads return.\<close>

fun run_reads :: "evidence_env \<Rightarrow> UploadReader \<Rightarrow> nat list \<Rightarrow> string \<times> UploadReader" where
  "run_reads env r [] = ([], r)"
| "run_reads env r (m # ms) =
     (case upload_Read env m r of (chunk, _, r') \<Rightarrow> (case run_reads env r' ms of (rest, r'') \<Rightarrow> (chunk @ rest, r'')))"

section \<open>Lemmas: buffered reading\<close>

lemma source_read_spec:
  assumes "source_read m s = (chunk, err, s')"
  shows "chunk @ so_rest s' = so_rest s" "so_end s' = so_end s" "length chunk \<le> m"
    "err = None \<or> err = Some (so_end s) \<and> so_rest s' = []"
  using assms by (auto simp: source_read_def Let_def min_def split: if_splits list.splits prod.splits)

text \<open>A source that never makes a call wait.\<close>

definition progressing :: "body_source \<Rightarrow> bool" where
  "progressing s \<longleftrightarrow> list_all (\<lambda>(k, _). 0 < k) (so_schedule s)"

lemma source_read_progress:
  assumes "source_read m s = (chunk, err, s')" and "progressing s" and "0 < m"
  shows "progressing s'" "chunk \<noteq> [] \<or> so_rest s = [] \<and> err = Some (so_end s)"
  using assms by (auto simp: source_read_def progressing_def Let_def min_def split: if_splits list.splits prod.splits)

text \<open>What is still to be delivered, and the state in which the reader and its source agree about the end.\<close>

definition pending :: "bufio_reader \<Rightarrow> string" where
  "pending b = bf_buf b @ so_rest (bf_src b)"

definition buf_ok :: "io_error \<Rightarrow> bufio_reader \<Rightarrow> bool" where
  "buf_ok e b \<longleftrightarrow> so_end (bf_src b) = e \<and> (bf_err b = None \<or> bf_err b = Some e \<and> so_rest (bf_src b) = [])"

lemma bufio_Read_spec:
  assumes read: "bufio_Read m b = (chunk, err, b')" and ok: "buf_ok e b" and m: "0 < m"
  shows "chunk @ pending b' = pending b" "length chunk \<le> m" "buf_ok e b'" "err = None \<or> err = Some e \<and> pending b' = []"
proof -
  consider (buffered) "bf_buf b \<noteq> []" | (failed) "bf_buf b = []" "bf_err b \<noteq> None"
    | (direct) "bf_buf b = []" "bf_err b = None" "minReadBufferSize \<le> m"
    | (refill) "bf_buf b = []" "bf_err b = None" "m < minReadBufferSize"
    by fastforce
  then have "chunk @ pending b' = pending b \<and> length chunk \<le> m \<and> buf_ok e b' \<and> (err = None \<or> err = Some e \<and> pending b' = [])"
  proof cases
    case direct
    obtain c x s where c: "source_read m (bf_src b) = (c, x, s)" by (metis prod_cases3)
    with source_read_spec [OF c] direct read ok m show ?thesis
      by (auto simp: bufio_Read_def pending_def buf_ok_def)
  next
    case refill
    obtain c x s where c: "source_read minReadBufferSize (bf_src b) = (c, x, s)" by (metis prod_cases3)
    with source_read_spec [OF c] refill read ok m show ?thesis
      by (auto simp: bufio_Read_def pending_def buf_ok_def append_assoc [symmetric] simp del: append_assoc split: if_splits)
  qed (use read ok m in \<open>auto simp: bufio_Read_def pending_def buf_ok_def append_assoc [symmetric] simp del: append_assoc\<close>)
  then show "chunk @ pending b' = pending b" "length chunk \<le> m" "buf_ok e b'" "err = None \<or> err = Some e \<and> pending b' = []"
    by blast+
qed

lemma bufio_Read_progress:
  assumes "bufio_Read m b = (chunk, err, b')" and "buf_ok e b" and "0 < m" and "progressing (bf_src b)"
  shows "progressing (bf_src b')" "chunk \<noteq> [] \<or> pending b = [] \<and> err = Some e"
proof -
  obtain c x s where c: "source_read m (bf_src b) = (c, x, s)" by (metis prod_cases3)
  obtain d y u where d: "source_read minReadBufferSize (bf_src b) = (d, y, u)" by (metis prod_cases3)
  have "0 < minReadBufferSize" by (simp add: minReadBufferSize_def)
  then have "progressing (bf_src b') \<and> (chunk \<noteq> [] \<or> pending b = [] \<and> err = Some e)"
    using assms source_read_progress [OF c] source_read_progress [OF d]
    by (auto simp: bufio_Read_def pending_def buf_ok_def c d split: if_splits)
  then show "progressing (bf_src b')" "chunk \<noteq> [] \<or> pending b = [] \<and> err = Some e" by blast+
qed

lemma fill_loop_spec:
  assumes "buf_ok e b" and "bf_err b = None" and "length (bf_buf b) < minReadBufferSize"
  shows "pending (fill_loop i b) = pending b \<and> (buf_ok e (fill_loop i b) \<or> bf_err (fill_loop i b) = Some IoNoProgress \<and> bf_buf (fill_loop i b) = bf_buf b)"
  using assms
proof (induction i arbitrary: b)
  case 0
  then show ?case by (simp add: pending_def)
next
  case (Suc i)
  obtain c x s where c: "source_read (minReadBufferSize - length (bf_buf b)) (bf_src b) = (c, x, s)" by (metis prod_cases3)
  note spec = source_read_spec [OF c]
  show ?case
  proof (cases "x = None \<and> c = []")
    case True
    let ?b = "b\<lparr>bf_buf := bf_buf b @ c, bf_src := s\<rparr>"
    have "fill_loop (Suc i) b = fill_loop i ?b" using True c by simp
    moreover have "pending ?b = pending b" "buf_ok e ?b" "bf_buf ?b = bf_buf b"
      using True spec Suc.prems by (auto simp: pending_def buf_ok_def)
    moreover have "bf_err ?b = None" "length (bf_buf ?b) < minReadBufferSize"
      using True Suc.prems by auto
    ultimately show ?thesis using Suc.IH [of ?b] by simp
  next
    case False
    with spec Suc.prems show ?thesis by (auto simp: c pending_def buf_ok_def)
  qed
qed

lemma fill_loop_progressing:
  assumes "buf_ok e b" and "bf_err b = None" and "length (bf_buf b) < minReadBufferSize" and "progressing (bf_src b)" and "0 < i"
  shows "pending (fill_loop i b) = pending b \<and> buf_ok e (fill_loop i b) \<and> progressing (bf_src (fill_loop i b))"
proof -
  obtain c x s where c: "source_read (minReadBufferSize - length (bf_buf b)) (bf_src b) = (c, x, s)" by (metis prod_cases3)
  from assms(5) obtain j where "i = Suc j" by (cases i) auto
  with source_read_spec [OF c] source_read_progress [OF c assms(4)] assms show ?thesis
    by (auto simp: c pending_def buf_ok_def Let_def)
qed

lemma peek_loop_spec:
  "buf_ok e b \<Longrightarrow> pending (peek_loop n b) = pending b \<and> (n \<le> length (bf_buf (peek_loop n b)) \<longrightarrow> buf_ok e (peek_loop n b))"
proof (induction n b rule: peek_loop.induct)
  case (1 n b)
  let ?f = "fill_loop maxConsecutiveEmptyReads b"
  show ?case
  proof (cases "length (bf_buf b) < n \<and> length (bf_buf b) < minReadBufferSize \<and> bf_err b = None")
    case True
    then have f: "pending ?f = pending b" "buf_ok e ?f \<or> bf_err ?f = Some IoNoProgress \<and> bf_buf ?f = bf_buf b"
      using fill_loop_spec [OF 1(2)] by auto
    have step: "peek_loop n b = peek_loop n ?f" using True by (subst peek_loop.simps) simp
    from f(2) show ?thesis
    proof
      assume "buf_ok e ?f"
      with 1(1) [OF True] f(1) step show ?thesis by simp
    next
      assume no: "bf_err ?f = Some IoNoProgress \<and> bf_buf ?f = bf_buf b"
      then have "peek_loop n ?f = ?f" by (subst peek_loop.simps) simp
      with no True f(1) step show ?thesis by simp
    qed
  next
    case False
    then have "peek_loop n b = b" by (simp only: peek_loop.simps [of n b] if_False)
    with 1(2) show ?thesis by simp
  qed
qed

lemma peek_loop_progressing:
  "buf_ok e b \<Longrightarrow> progressing (bf_src b) \<Longrightarrow> n \<le> length (pending b) \<Longrightarrow> n \<le> minReadBufferSize \<Longrightarrow>
    n \<le> length (bf_buf (peek_loop n b)) \<and> progressing (bf_src (peek_loop n b))"
proof (induction n b rule: peek_loop.induct)
  case (1 n b)
  let ?f = "fill_loop maxConsecutiveEmptyReads b"
  show ?case
  proof (cases "length (bf_buf b) < n \<and> length (bf_buf b) < minReadBufferSize \<and> bf_err b = None")
    case True
    then have f: "pending ?f = pending b" "buf_ok e ?f" "progressing (bf_src ?f)"
      using fill_loop_progressing [OF 1(2)] 1(3) by (simp_all add: maxConsecutiveEmptyReads_def)
    have "peek_loop n b = peek_loop n ?f" using True by (subst peek_loop.simps) simp
    with 1(1) [OF True f(2,3)] 1(4,5) f(1) show ?thesis by simp
  next
    case False
    then have "peek_loop n b = b" by (simp only: peek_loop.simps [of n b] if_False)
    with False 1(2-5) show ?thesis by (auto simp: buf_ok_def pending_def)
  qed
qed

section \<open>Lemmas: the upload reader\<close>

text \<open>
  The reader after delivering \<open>out\<close> of a source with bytes \<open>body\<close> and end \<open>e\<close>: still reading, or
  validated, or stopped.
\<close>

definition reader_inv :: "evidence_env \<Rightarrow> string \<Rightarrow> io_error \<Rightarrow> string \<Rightarrow> UploadReader \<Rightarrow> bool" where
  "reader_inv env body e out r \<longleftrightarrow>
     br_hashed r = out \<and> br_observedBytes r = int (length out) \<and> prefix out body \<and> int (length out) \<le> br_expectedBytes r
     \<and> (br_terminal r = None \<longrightarrow>
          (if br_isValidated r
           then out = body \<and> int (length body) = br_expectedBytes r \<and> e = IoEOF \<and> digest_Sum env body = br_expectedDigest r
                \<and> br_result r = \<lparr>vb_Bytes = int (length body), vb_Digest = digest_Sum env body\<rparr>
           else body = out @ pending (br_source r) \<and> buf_ok e (br_source r) \<and> int (length out) < br_expectedBytes r))"

text \<open>Between the chunk that completes the expected length and the end of the read.\<close>

lemma finalise_spec:
  assumes "finalise env r = (x, r')" and "body = br_hashed r @ pending (br_source r)" and "buf_ok e (br_source r)"
    and "br_terminal r = None" "\<not> br_isValidated r" "br_observedBytes r = int (length (br_hashed r))"
    and "br_observedBytes r = br_expectedBytes r"
  shows "br_hashed r' = br_hashed r \<and> br_observedBytes r' = br_observedBytes r \<and> br_expectedBytes r' = br_expectedBytes r
    \<and> br_expectedDigest r' = br_expectedDigest r
    \<and> (x = None \<longrightarrow> br_terminal r' = None \<and> br_isValidated r' \<and> br_hashed r = body \<and> e = IoEOF
         \<and> digest_Sum env body = br_expectedDigest r \<and> br_result r' = \<lparr>vb_Bytes = int (length body), vb_Digest = digest_Sum env body\<rparr>)"
proof -
  obtain chunk err b where read: "bufio_Read 1 (br_source r) = (chunk, err, b)" by (metis prod_cases3)
  note spec = bufio_Read_spec [OF read assms(3)]
  show ?thesis
    using assms spec by (auto simp: finalise_def read [unfolded One_nat_def] Let_def split: if_splits option.splits)
qed

lemma upload_Read_idle:
  assumes "m = 0 \<or> br_terminal r \<noteq> None \<or> br_isValidated r"
  shows "\<exists>x. upload_Read env m r = ([], x, r)"
  using assms by (cases "br_terminal r") (auto simp: upload_Read_def)

lemma upload_Read_inv:
  assumes read: "upload_Read env m r = (chunk, x, r')" and inv: "reader_inv env body e out r"
  shows "reader_inv env body e (out @ chunk) r' \<and> br_expectedBytes r' = br_expectedBytes r \<and> br_expectedDigest r' = br_expectedDigest r"
proof (cases "m = 0 \<or> br_terminal r \<noteq> None \<or> br_isValidated r")
  case True
  then obtain y where "upload_Read env m r = ([], y, r)" using upload_Read_idle by blast
  with read inv show ?thesis by simp
next
  case False
  define k where "k = (if br_expectedBytes r - br_observedBytes r < int m then nat (br_expectedBytes r - br_observedBytes r) else m)"
  have r: "br_hashed r = out" "br_observedBytes r = int (length out)" "body = out @ pending (br_source r)"
    "buf_ok e (br_source r)" "int (length out) < br_expectedBytes r"
    using False inv by (auto simp: reader_inv_def)
  then have k: "0 < k" "int k \<le> br_expectedBytes r - int (length out)" using False by (auto simp: k_def)
  obtain c err b where buf: "bufio_Read k (br_source r) = (c, err, b)" by (metis prod_cases3)
  note spec = bufio_Read_spec [OF buf r(4) k(1)]
  define r1 where "r1 = r\<lparr>br_source := b, br_hashed := out @ c, br_observedBytes := int (length out) + int (length c)\<rparr>"
  have c: "body = (out @ c) @ pending b" "int (length (out @ c)) \<le> br_expectedBytes r"
    using r(3) spec(1,2) k(2) by auto
  obtain f r2 where fin: "finalise env r1 = (f, r2)" by (metis surj_pair)
  have fin_spec: "br_hashed r2 = out @ c \<and> br_observedBytes r2 = int (length (out @ c)) \<and> br_expectedBytes r2 = br_expectedBytes r
      \<and> br_expectedDigest r2 = br_expectedDigest r
      \<and> (f = None \<longrightarrow> br_terminal r2 = None \<and> br_isValidated r2 \<and> out @ c = body \<and> e = IoEOF
         \<and> int (length body) = br_expectedBytes r
         \<and> digest_Sum env body = br_expectedDigest r \<and> br_result r2 = \<lparr>vb_Bytes = int (length body), vb_Digest = digest_Sum env body\<rparr>)"
    if "\<not> int (length (out @ c)) < br_expectedBytes r"
    using finalise_spec [OF fin, of body e] c spec(3) False that by (auto simp: r1_def)
  have red: "upload_Read env m r = (let stop = (\<lambda>z. (c, Some z, r1\<lparr>br_terminal := Some z\<rparr>)) in
       if err \<noteq> None \<and> err \<noteq> Some IoEOF then stop (BodyRead (the err))
       else if int (length (out @ c)) < br_expectedBytes r then
         (if err = Some IoEOF then stop BodyLength else if c = [] then stop (BodyRead IoNoProgress) else (c, None, r1))
       else case f of Some z \<Rightarrow> (c, Some z, r2\<lparr>br_terminal := Some z\<rparr>) | None \<Rightarrow> (c, None, r2))"
  proof -
    have "upload_Read env m r = read_more env k r" using False by (simp add: upload_Read_def k_def)
    then show ?thesis
      by (simp add: read_more_def buf r(1,2) r1_def [symmetric] fin Let_def split: option.split) (simp add: r1_def)
  qed
  have "prefix (out @ c) body" using c(1) by (rule prefixI)
  with red read c r(1,2) spec(3) fin_spec False show ?thesis
    by (cases "int (length (out @ c)) < br_expectedBytes r"; cases err; cases f)
       (auto simp: Let_def reader_inv_def r1_def split: io_error.splits if_splits)
qed

lemma run_reads_inv:
  "reader_inv env body e out r \<Longrightarrow> run_reads env r ms = (rest, r') \<Longrightarrow> reader_inv env body e (out @ rest) r'
    \<and> br_expectedBytes r' = br_expectedBytes r \<and> br_expectedDigest r' = br_expectedDigest r"
proof (induction ms arbitrary: out r rest)
  case (Cons m ms)
  obtain c x s where s: "upload_Read env m r = (c, x, s)" by (metis prod_cases3)
  obtain rest2 where "run_reads env s ms = (rest2, r')" "rest = c @ rest2"
    using Cons.prems(2) by (auto simp: s split: prod.splits)
  with Cons.IH upload_Read_inv [OF s Cons.prems(1)] show ?case by fastforce
qed simp

lemma NewUploadReader_inv:
  assumes "NewUploadReader u source = Inr r"
  shows "reader_inv env (so_rest source) (so_end source) [] r" "br_expectedBytes r = up_ExpectedBytes u"
    "br_expectedDigest r = up_ExpectedDigest u" "\<exists>signature. file_signature (up_MediaType u) = Some signature \<and> prefix signature (so_rest source)"
proof -
  let ?b = "\<lparr>bf_buf = [], bf_err = None, bf_src = source\<rparr>"
  from assms obtain signature where s: "file_signature (up_MediaType u) = Some signature"
    by (auto simp: NewUploadReader_def validateUploadSignature_def chain_iff split: option.splits)
  let ?p = "peek_loop (length signature) ?b"
  have ok: "buf_ok (so_end source) ?b" "pending ?b = so_rest source" by (simp_all add: buf_ok_def pending_def)
  from assms s have p: "length signature \<le> length (bf_buf ?p)" "take (length signature) (bf_buf ?p) = signature"
    and r: "br_source r = ?p" "br_hashed r = []" "br_expectedBytes r = up_ExpectedBytes u" "br_expectedDigest r = up_ExpectedDigest u"
      "br_observedBytes r = 0" "br_terminal r = None" "\<not> br_isValidated r" "1 \<le> up_ExpectedBytes u"
    by (auto simp: NewUploadReader_def validateUploadSignature_def bufio_Peek_def Let_def chain_iff split: if_splits)
  note peek = peek_loop_spec [OF ok(1), of "length signature"]
  show "reader_inv env (so_rest source) (so_end source) [] r"
    using peek p r ok by (simp add: reader_inv_def)
  show "br_expectedBytes r = up_ExpectedBytes u" "br_expectedDigest r = up_ExpectedDigest u" by fact+
  have "prefix signature (pending ?p)"
    using p(2) take_is_prefix unfolding pending_def by (metis prefix_append)
  then show "\<exists>signature. file_signature (up_MediaType u) = Some signature \<and> prefix signature (so_rest source)"
    using s peek ok by auto
qed

text \<open>
  C16. The upload reader trusts nothing of the body: whatever way the source splits its bytes, whatever error
  it ends with and whatever destination lengths the consumer reads with, what has been
  delivered is a prefix of the body and never longer than the length the intent expects. A result is
  given out only when the source ended cleanly, all of the body was delivered, its length and SHA-256
  digest are those of the intent, and it starts with the signature of the declared media type; the
  result holds that length and digest.
\<close>

theorem upload_reader_exact:
  assumes "NewUploadReader u source = Inr r" and "run_reads env r ms = (out, r')"
  shows "prefix out (so_rest source) \<and> int (length out) \<le> up_ExpectedBytes u
    \<and> (\<forall>v. reader_Result r' = Inr v \<longrightarrow>
         out = so_rest source \<and> int (length out) = up_ExpectedBytes u \<and> digest_Sum env out = up_ExpectedDigest u \<and> so_end source = IoEOF
         \<and> (\<exists>signature. file_signature (up_MediaType u) = Some signature \<and> prefix signature out)
         \<and> v = \<lparr>vb_Bytes = up_ExpectedBytes u, vb_Digest = up_ExpectedDigest u\<rparr>)"
proof -
  note new = NewUploadReader_inv [OF assms(1)]
  have inv: "reader_inv env (so_rest source) (so_end source) out r'" "br_expectedBytes r' = up_ExpectedBytes u"
    "br_expectedDigest r' = up_ExpectedDigest u"
    using run_reads_inv [OF new(1) assms(2)] new(2,3) by simp_all
  have done': "out = so_rest source \<and> int (length out) = up_ExpectedBytes u \<and> digest_Sum env out = up_ExpectedDigest u
      \<and> so_end source = IoEOF \<and> v = \<lparr>vb_Bytes = up_ExpectedBytes u, vb_Digest = up_ExpectedDigest u\<rparr>"
    if "reader_Result r' = Inr v" for v
  proof -
    have "br_terminal r' = None" "br_isValidated r'" "v = br_result r'"
      using that by (auto simp: reader_Result_def split: option.splits if_splits)
    with inv show ?thesis by (simp add: reader_inv_def)
  qed
  have "prefix out (so_rest source)" "int (length out) \<le> up_ExpectedBytes u"
    using inv by (simp_all add: reader_inv_def)
  with new(4) done' show ?thesis by metis
qed

lemma upload_Read_step:
  assumes "reader_inv env body e out r" and "br_terminal r = None" "\<not> br_isValidated r" "0 < m"
    and "progressing (bf_src (br_source r))" and "e = IoEOF" "int (length body) = br_expectedBytes r" "digest_Sum env body = br_expectedDigest r"
    and read: "upload_Read env m r = (c, x, r')"
  shows "c \<noteq> [] \<and> br_terminal r' = None \<and> (br_isValidated r' \<or> progressing (bf_src (br_source r')))"
proof -
  define k where "k = (if br_expectedBytes r - br_observedBytes r < int m then nat (br_expectedBytes r - br_observedBytes r) else m)"
  have r: "br_hashed r = out" "br_observedBytes r = int (length out)" "body = out @ pending (br_source r)"
    "buf_ok e (br_source r)" "int (length out) < br_expectedBytes r"
    using assms(1-3) by (auto simp: reader_inv_def)
  then have k: "0 < k" using assms(4) by (auto simp: k_def)
  obtain d err b where buf: "bufio_Read k (br_source r) = (d, err, b)" by (metis prod_cases3)
  note spec = bufio_Read_spec [OF buf r(4) k]
  note prog = bufio_Read_progress [OF buf r(4) k assms(5)]
  have "pending (br_source r) \<noteq> []" using r(3,5) assms(7) by auto
  then have d: "d \<noteq> []" using prog(2) by simp
  have body: "body = (out @ d) @ pending b" using r(3) spec(1) by simp
  have more: "read_more env k r = (c, x, r')" using read assms(2-4) by (simp add: upload_Read_def k_def Let_def)
  show ?thesis
  proof (cases "int (length (out @ d)) < br_expectedBytes r")
    case True
    then have "pending b \<noteq> []" using body assms(7) by auto
    then have "err = None" using spec(4) by simp
    with True d prog(1) more assms(2) r(1,2) show ?thesis
      by (auto simp: read_more_def buf)
  next
    case False
    moreover have "int (length body) = int (length (out @ d)) + int (length (pending b))" using body by simp
    ultimately have "length (pending b) = 0" using assms(7) by linarith
    then have "pending b = []" by simp
    obtain g y b2 where last: "bufio_Read 1 b = (g, y, b2)" by (metis prod_cases3)
    have "g = []" "y = Some IoEOF"
      using bufio_Read_spec [OF last spec(3)] bufio_Read_progress [OF last spec(3) _ prog(1)] \<open>pending b = []\<close> assms(6) by auto
    moreover have "err = None \<or> err = Some IoEOF" using spec(4) assms(6) by auto
    ultimately show ?thesis
      using False d more assms(2,8) r(1,2) body \<open>pending b = []\<close>
      by (auto simp: read_more_def buf finalise_def last [unfolded One_nat_def] Let_def)
  qed
qed

text \<open>Every read of a good body from a source that keeps going either delivers a byte or follows the validation.\<close>

lemma run_reads_validates:
  assumes "reader_inv env body IoEOF out r" and "br_terminal r = None"
    and "br_isValidated r \<or> progressing (bf_src (br_source r))"
    and "int (length body) = br_expectedBytes r" "digest_Sum env body = br_expectedDigest r"
    and "list_all (\<lambda>m. 0 < m) ms" and "length body \<le> length out + length ms" and "run_reads env r ms = (rest, r')"
  shows "br_terminal r' = None \<and> br_isValidated r'"
  using assms
proof (induction ms arbitrary: out r rest)
  case Nil
  then show ?case by (auto simp: reader_inv_def split: if_splits)
next
  case (Cons m ms)
  obtain c x s where s: "upload_Read env m r = (c, x, s)" by (metis prod_cases3)
  obtain rest2 where s2: "run_reads env s ms = (rest2, r')"
    using Cons.prems(8) by (auto simp: s split: prod.splits)
  note step = upload_Read_inv [OF s Cons.prems(1)]
  have "br_terminal s = None \<and> (br_isValidated s \<or> progressing (bf_src (br_source s)))
      \<and> length body \<le> length (out @ c) + length ms"
  proof (cases "br_isValidated r")
    case True
    then have "c = []" "s = r" using upload_Read_idle [of m r env] s by auto
    moreover have "out = body" using True Cons.prems(1,2) by (simp add: reader_inv_def)
    ultimately show ?thesis using True Cons.prems(2) by simp
  next
    case False
    then have "c \<noteq> [] \<and> br_terminal s = None \<and> (br_isValidated s \<or> progressing (bf_src (br_source s)))"
      using upload_Read_step [OF Cons.prems(1,2) False _ _ refl Cons.prems(4,5) s] Cons.prems(3,6) by auto
    moreover from this have "1 \<le> length c" by (cases c) auto
    ultimately show ?thesis using Cons.prems(7) by simp
  qed
  then show ?case
    using Cons.IH [of "out @ c" s rest2] step s2 Cons.prems(4-6) by simp
qed

lemma good_body_accepted:
  assumes "ur_State u = UploadStateUploading" and "int (length (so_rest source)) = up_ExpectedBytes u" and "so_end source = IoEOF"
    and "digest_Sum env (so_rest source) = up_ExpectedDigest u"
    and "file_signature (up_MediaType u) = Some signature" and "prefix signature (so_rest source)"
    and "progressing source" and "list_all (\<lambda>m. 0 < m) ms" and "length (so_rest source) \<le> length ms"
  shows "\<exists>r r'. NewUploadReader u source = Inr r \<and> run_reads env r ms = (so_rest source, r')
    \<and> reader_Result r' = Inr \<lparr>vb_Bytes = up_ExpectedBytes u, vb_Digest = up_ExpectedDigest u\<rparr>"
proof -
  let ?b = "\<lparr>bf_buf = [], bf_err = None, bf_src = source\<rparr>" and ?n = "length signature"
  have sig: "0 < ?n" "?n \<le> minReadBufferSize"
    using assms(5) by (auto simp: file_signature_def jpegSignature_def pngSignature_def minReadBufferSize_def split: if_splits)
  have ok: "buf_ok IoEOF ?b" "pending ?b = so_rest source" "progressing (bf_src ?b)"
    using assms(3,7) by (simp_all add: buf_ok_def pending_def)
  have n: "?n \<le> length (pending ?b)" using assms(6) ok(2) by (simp add: prefix_length_le)
  let ?p = "peek_loop ?n ?b"
  have peek: "?n \<le> length (bf_buf ?p)" "progressing (bf_src ?p)" "pending ?p = so_rest source"
    using peek_loop_progressing [OF ok(1,3) n sig(2)] peek_loop_spec [OF ok(1), of ?n] ok(2) by auto
  have "take ?n (bf_buf ?p) = take ?n (pending ?p)" using peek(1) by (simp add: pending_def)
  also have "\<dots> = signature" using assms(6) peek(3) by (auto simp: prefix_def)
  finally have seen: "take ?n (bf_buf ?p) = signature" .
  have "1 \<le> up_ExpectedBytes u" using n sig(1) assms(2) unfolding ok(2) by linarith
  then obtain r where r: "NewUploadReader u source = Inr r" "br_source r = ?p" "br_terminal r = None"
    using assms(1,5) peek(1) seen
    by (auto simp: NewUploadReader_def validateUploadSignature_def bufio_Peek_def Let_def)
  note new = NewUploadReader_inv(1) [OF r(1), of env] NewUploadReader_inv(2,3) [OF r(1)]
  obtain out r' where run: "run_reads env r ms = (out, r')" by (metis surj_pair)
  have "br_terminal r' = None \<and> br_isValidated r'"
    using new r(2,3) assms peek(2) run by (intro run_reads_validates [of env "so_rest source" "[]" r ms]) simp_all
  then have "reader_Result r' = Inr (br_result r')" by (simp add: reader_Result_def)
  moreover have "reader_inv env (so_rest source) IoEOF out r'"
    using run_reads_inv [OF new(1) run] assms(3) by simp
  ultimately show ?thesis
    using r(1) run assms(2,4) \<open>br_terminal r' = None \<and> br_isValidated r'\<close> by (auto simp: reader_inv_def)
qed

text \<open>
  C23. A good body is accepted: for a claimed upload, a source that ends cleanly, keeps delivering, and whose
  bytes have the expected length and digest and the signature of the media type is accepted by
  \<^verbatim>\<open>NewUploadReader\<close>, and after as many reads into non-empty destinations as the body has bytes (fewer
  when they are larger) everything has been delivered and the result is available, however the bytes were
  split.
\<close>

theorem upload_reader_validates:
  assumes "ur_State u = UploadStateUploading" and "int (length (so_rest source)) = up_ExpectedBytes u" and "so_end source = IoEOF"
    and "digest_Sum env (so_rest source) = up_ExpectedDigest u"
    and "file_signature (up_MediaType u) = Some signature" and "prefix signature (so_rest source)"
    and "progressing source" and "list_all (\<lambda>m. 0 < m) ms" and "length (so_rest source) \<le> length ms"
  shows "\<exists>r r'. NewUploadReader u source = Inr r \<and> run_reads env r ms = (so_rest source, r')
    \<and> reader_Result r' = Inr \<lparr>vb_Bytes = up_ExpectedBytes u, vb_Digest = up_ExpectedDigest u\<rparr>"
  using assms by (rule good_body_accepted)

section \<open>Samples and witnesses\<close>

definition sample_claimed :: UploadRecord where
  "sample_claimed = sample_upload\<lparr>ur_State := UploadStateUploading\<rparr>"

definition sample_source :: body_source where
  "sample_source = \<lparr>so_rest = sample_body, so_end = IoEOF, so_schedule = [(3, False), (1, True), (7, True)]\<rparr>"

lemma sample_source_good:
  "ur_State sample_claimed = UploadStateUploading" "int (length (so_rest sample_source)) = up_ExpectedBytes sample_claimed"
  "so_end sample_source = IoEOF" "digest_Sum sample_evidence_env (so_rest sample_source) = up_ExpectedDigest sample_claimed"
  "file_signature (up_MediaType sample_claimed) = Some pngSignature" "prefix pngSignature (so_rest sample_source)"
  "progressing sample_source"
  by (simp_all add: sample_claimed_def sample_source_def sample_upload_simps sample_body_def file_signature_def MediaTypeJPEG_def
      MediaTypePNG_def pngSignature_def progressing_def)

lemma sample_destinations:
  "list_all (\<lambda>m. 0 < m) (replicate 9 (4 :: nat))" "length (so_rest sample_source) \<le> length (replicate 9 (4 :: nat))"
  by (simp_all add: list_all_iff sample_source_def sample_body_def)

theorem upload_reader_validates_witness:
  "\<exists>r r'. NewUploadReader sample_claimed sample_source = Inr r \<and> run_reads sample_evidence_env r (replicate 9 4) = (sample_body, r')
     \<and> reader_Result r' = Inr \<lparr>vb_Bytes = 9, vb_Digest = digest_Sum sample_evidence_env sample_body\<rparr>"
  using upload_reader_validates [OF sample_source_good sample_destinations]
  by (simp add: sample_source_def sample_claimed_def sample_upload_simps)

theorem upload_reader_exact_witness:
  "\<exists>r out r'. NewUploadReader sample_claimed sample_source = Inr r \<and> run_reads sample_evidence_env r (replicate 9 4) = (out, r')
     \<and> (\<exists>v. reader_Result r' = Inr v \<and> vb_Bytes v = 9) \<and> prefix pngSignature out \<and> length out = 9"
proof -
  obtain r r' where r: "NewUploadReader sample_claimed sample_source = Inr r"
      "run_reads sample_evidence_env r (replicate 9 4) = (sample_body, r')"
      "reader_Result r' = Inr \<lparr>vb_Bytes = 9, vb_Digest = digest_Sum sample_evidence_env sample_body\<rparr>"
    using good_body_accepted [OF sample_source_good sample_destinations]
    by (auto simp: sample_source_def sample_claimed_def sample_upload_simps)
  have "up_ExpectedBytes sample_claimed = 9" by (simp add: sample_claimed_def sample_upload_simps)
  with upload_reader_exact [OF r(1,2)] r(3) sample_source_good(5) have "prefix pngSignature sample_body" "length sample_body = 9"
    by auto
  with r show ?thesis by auto
qed

end
