(* ===== verification/Object_Reconciliation.thy ===== *)
theory Object_Reconciliation
  imports Evidence_Upload
begin

text \<open>
  The fate of staged ciphertext: the write-ahead obligation for one staged object
  (\<^verbatim>\<open>internal/evidence/reconciliation.go\<close>), its store (\<^verbatim>\<open>postgres/reconciliation_store.go\<close>), the recovery
  worker (\<^verbatim>\<open>reconciliation_service.go\<close>), the discovery of unreferenced objects
  (\<^verbatim>\<open>orphan_discovery.go\<close>), the acceptance workflow that stages, records, accepts or discards
  (\<^verbatim>\<open>internal/authority/upload_acceptance_service.go\<close>) and the part of the acceptance transaction
  (\<^verbatim>\<open>postgres/upload_store.go\<close>, \<^verbatim>\<open>AcceptUpload\<close>) that decides whether an object is kept.

  The system is a step relation over the tables of one tenant, one clock, the processes of the three
  workflows between their transactions, and the set of objects a delete was issued for (a
  delete whose outcome is unknown may still take effect, so issuing counts). An object is identified by its key and
  version; writing one gives a version never used before, as the object stores document. The sealing of the
  body, the checks of session and authority inside the acceptance transaction other than its lease check, and
  any failure of a lookup are choices of the steps. Services cut their clock readings to microseconds, the
  precision of the columns, so rows hold the times as they are.
\<close>

section \<open>Obligations\<close>

datatype (plugins only: size code) reconciliation_error =
  ErrReconciliationNotFound | ErrReconciliationConflict | ErrNoReconciliationReady | ReconciliationObjectInvalid

datatype (plugins only: size code) reconciliation_state =
    ReconciliationPending
  | ReconciliationClaimed
  | ReconciliationRetained
  | ReconciliationDeleted
  | ReconciliationOther string

record ReconciliationRecord =
  ox_TenantID :: string
  ox_UploadID :: string
  ox_EvidenceID :: string
  ox_UploadAttempt :: nat
  ox_Object :: ObjectRecord
  ox_State :: reconciliation_state
  ox_Version :: int
  ox_Claim :: nat
  ox_AvailableAt :: go_time
  ox_LeaseExpiresAt :: "go_time option"
  ox_CreatedAt :: go_time
  ox_UpdatedAt :: go_time
  ox_ResolvedAt :: "go_time option"

fun reconciliation_state_ok :: "ReconciliationRecord \<Rightarrow> bool" where
  "reconciliation_state_ok r =
     (case ox_State r of
        ReconciliationPending \<Rightarrow> ox_LeaseExpiresAt r = None \<and> ox_ResolvedAt r = None
      | ReconciliationClaimed \<Rightarrow> ox_Claim r \<noteq> 0 \<and> ox_ResolvedAt r = None
          \<and> (case ox_LeaseExpiresAt r of None \<Rightarrow> False | Some lease \<Rightarrow> After lease (ox_UpdatedAt r))
      | ReconciliationOther _ \<Rightarrow> False
      | _ \<Rightarrow> ox_LeaseExpiresAt r = None
          \<and> (case ox_ResolvedAt r of None \<Rightarrow> False | Some t \<Rightarrow> t_ns t = t_ns (ox_UpdatedAt r)))"

definition RestoreObjectReconciliation :: "ReconciliationRecord \<Rightarrow> reconciliation_error + ReconciliationRecord" where
  "RestoreObjectReconciliation r0 =
     (let r = r0\<lparr>ox_AvailableAt := to_UTC (ox_AvailableAt r0), ox_CreatedAt := to_UTC (ox_CreatedAt r0),
                 ox_UpdatedAt := to_UTC (ox_UpdatedAt r0), ox_LeaseExpiresAt := map_option to_UTC (ox_LeaseExpiresAt r0),
                 ox_ResolvedAt := map_option to_UTC (ox_ResolvedAt r0)\<rparr> in
      guard (ox_TenantID r \<noteq> [] \<and> ox_UploadID r \<noteq> [] \<and> ox_EvidenceID r \<noteq> [] \<and> ox_UploadAttempt r \<noteq> 0
             \<and> ox_UploadAttempt r \<le> maxInt32 \<and> ox_Claim r \<le> maxInt32 \<and> 1 \<le> ox_Version r \<and> \<not> IsZero (ox_CreatedAt r)
             \<and> \<not> Before (ox_UpdatedAt r) (ox_CreatedAt r) \<and> \<not> Before (ox_AvailableAt r) (ox_CreatedAt r)) ErrReconciliationConflict
        (case NewObject (ox_Object r) of
           Inl _ \<Rightarrow> Inl ReconciliationObjectInvalid
         | Inr _ \<Rightarrow> guard (reconciliation_state_ok r) ErrReconciliationConflict (Inr r)))"

definition NewObjectReconciliationForObject :: "UploadRecord \<Rightarrow> ObjectRecord \<Rightarrow> go_time \<Rightarrow> reconciliation_error + ReconciliationRecord" where
  "NewObjectReconciliationForObject u object createdAt =
     (case ur_LeaseExpiresAt u of
        None \<Rightarrow> Inl ErrReconciliationConflict
      | Some lease \<Rightarrow>
         guard (ur_State u = UploadStateUploading \<and> ur_Attempt u \<noteq> 0 \<and> ob_Key object \<noteq> []) ErrReconciliationConflict
           (RestoreObjectReconciliation
              \<lparr>ox_TenantID = up_TenantID u, ox_UploadID = up_ID u, ox_EvidenceID = up_EvidenceID u, ox_UploadAttempt = ur_Attempt u,
               ox_Object = object, ox_State = ReconciliationPending, ox_Version = 1, ox_Claim = 0,
               ox_AvailableAt = (if Before lease createdAt then createdAt else lease), ox_LeaseExpiresAt = None,
               ox_CreatedAt = createdAt, ox_UpdatedAt = createdAt, ox_ResolvedAt = None\<rparr>))"

definition NewObjectReconciliation :: "UploadRecord \<Rightarrow> evidence_record \<Rightarrow> go_time \<Rightarrow> reconciliation_error + ReconciliationRecord" where
  "NewObjectReconciliation u asset createdAt =
     guard (ea_ID asset = up_EvidenceID u) ErrReconciliationConflict
       (NewObjectReconciliationForObject u (co_Object (ea_Content asset)) createdAt)"

definition ClaimForRecovery :: "go_time \<Rightarrow> duration \<Rightarrow> ReconciliationRecord \<Rightarrow> reconciliation_error + ReconciliationRecord" where
  "ClaimForRecovery now0 timeout r =
     (let now = to_UTC now0 in
      guard (\<not> IsZero now \<and> 0 < timeout \<and> timeout \<le> 15 * minute \<and> ox_Claim r < maxInt32) ErrReconciliationConflict
        (guard (ox_State r = ReconciliationPending \<and> \<not> Before now (ox_AvailableAt r)
                \<or> ox_State r = ReconciliationClaimed
                  \<and> (case ox_LeaseExpiresAt r of None \<Rightarrow> False | Some lease \<Rightarrow> \<not> Before now lease)) ErrReconciliationConflict
          (RestoreObjectReconciliation
             (r\<lparr>ox_State := ReconciliationClaimed, ox_Version := i64 (ox_Version r + 1), ox_Claim := ox_Claim r + 1,
                ox_UpdatedAt := now, ox_LeaseExpiresAt := Some (Add now timeout)\<rparr>))))"

definition reconciliation_Retry :: "go_time \<Rightarrow> duration \<Rightarrow> ReconciliationRecord \<Rightarrow> reconciliation_error + ReconciliationRecord" where
  "reconciliation_Retry now0 delay r =
     (let now = to_UTC now0 in
      guard (ox_State r = ReconciliationClaimed \<and> \<not> IsZero now \<and> 0 < delay) ErrReconciliationConflict
        (RestoreObjectReconciliation
           (r\<lparr>ox_State := ReconciliationPending, ox_Version := i64 (ox_Version r + 1), ox_AvailableAt := Add now delay,
              ox_LeaseExpiresAt := None, ox_UpdatedAt := now\<rparr>)))"

definition reconciliation_Resolve :: "reconciliation_state \<Rightarrow> go_time \<Rightarrow> ReconciliationRecord \<Rightarrow> reconciliation_error + ReconciliationRecord" where
  "reconciliation_Resolve state now0 r =
     (let now = to_UTC now0 in
      guard ((ox_State r = ReconciliationPending \<or> ox_State r = ReconciliationClaimed)
             \<and> (state = ReconciliationRetained \<or> state = ReconciliationDeleted) \<and> \<not> IsZero now) ErrReconciliationConflict
        (RestoreObjectReconciliation
           (r\<lparr>ox_State := state, ox_Version := i64 (ox_Version r + 1), ox_LeaseExpiresAt := None, ox_UpdatedAt := now,
              ox_ResolvedAt := Some now\<rparr>)))"

section \<open>The tables\<close>

type_synonym obligation_key = "string \<times> nat"

record object_db =
  od_uploads :: "string \<Rightarrow> UploadRecord option"
  od_assets :: "string \<Rightarrow> evidence_record option"
  od_rows :: "obligation_key \<Rightarrow> ReconciliationRecord option"

definition obligation_of :: "ReconciliationRecord \<Rightarrow> obligation_key" where
  "obligation_of r = (ox_UploadID r, ox_UploadAttempt r)"

definition put_row :: "ReconciliationRecord \<Rightarrow> object_db \<Rightarrow> object_db" where
  "put_row r db = db\<lparr>od_rows := (od_rows db)(obligation_of r := Some r)\<rparr>"

text \<open>Insertion keeps a row that is there; an exact repetition succeeds, anything else is a conflict.\<close>

definition createObjectReconciliation :: "string \<Rightarrow> ReconciliationRecord \<Rightarrow> object_db \<Rightarrow> reconciliation_error + object_db" where
  "createObjectReconciliation tenantID r db =
     guard (tenantID \<noteq> [] \<and> ox_TenantID r = tenantID \<and> ox_State r = ReconciliationPending \<and> ox_Version r = 1 \<and> ox_Claim r = 0)
       ErrReconciliationConflict
       (case od_rows db (obligation_of r) of
          None \<Rightarrow> Inr (put_row r db)
        | Some row \<Rightarrow> guard (row = r) ErrReconciliationConflict (Inr db))"

definition transitionReconciliation ::
  "obligation_key \<Rightarrow> (ReconciliationRecord \<Rightarrow> reconciliation_error + ReconciliationRecord option) \<Rightarrow> object_db
    \<Rightarrow> reconciliation_error + object_db" where
  "transitionReconciliation k transition db =
     guard (snd k \<le> maxInt32) ErrReconciliationConflict
       (case od_rows db k of
          None \<Rightarrow> Inl ErrReconciliationNotFound
        | Some row \<Rightarrow>
           and_then (RestoreObjectReconciliation row) (\<lambda>current.
           and_then (transition current) (\<lambda>next. case next of
              None \<Rightarrow> Inr db
            | Some r \<Rightarrow> and_then (RestoreObjectReconciliation r) (\<lambda>_. Inr (put_row r db)))))"

definition ResolveObjectReconciliation ::
  "obligation_key \<Rightarrow> ObjectRecord \<Rightarrow> reconciliation_state \<Rightarrow> go_time \<Rightarrow> object_db \<Rightarrow> reconciliation_error + object_db" where
  "ResolveObjectReconciliation k object state now =
     transitionReconciliation k (\<lambda>current.
       guard (ox_Object current = object) ErrReconciliationConflict
         (if ox_State current = state then Inr None
          else and_then (reconciliation_Resolve state now current) (\<lambda>r. Inr (Some r))))"

definition fenced :: "ReconciliationRecord \<Rightarrow> ReconciliationRecord \<Rightarrow> bool" where
  "fenced claimed current \<longleftrightarrow> ox_Version current = ox_Version claimed \<and> ox_Claim current = ox_Claim claimed"

definition RetryObjectReconciliation ::
  "ReconciliationRecord \<Rightarrow> go_time \<Rightarrow> duration \<Rightarrow> object_db \<Rightarrow> reconciliation_error + object_db" where
  "RetryObjectReconciliation claimed now delay =
     transitionReconciliation (obligation_of claimed) (\<lambda>current.
       guard (fenced claimed current) ErrReconciliationConflict
         (and_then (reconciliation_Retry now delay current) (\<lambda>r. Inr (Some r))))"

definition CompleteObjectReconciliation ::
  "ReconciliationRecord \<Rightarrow> reconciliation_state \<Rightarrow> go_time \<Rightarrow> object_db \<Rightarrow> reconciliation_error + object_db" where
  "CompleteObjectReconciliation claimed state now =
     transitionReconciliation (obligation_of claimed) (\<lambda>current.
       guard (fenced claimed current) ErrReconciliationConflict
         (and_then (reconciliation_Resolve state now current) (\<lambda>r. Inr (Some r))))"

text \<open>
  \<^verbatim>\<open>ClaimObjectReconciliation\<close> on the row that \<^verbatim>\<open>LockNextEvidenceObjectReconciliation\<close> gives it: a ready one that no
  other transaction holds, so any ready one.
\<close>

definition ClaimObjectReconciliation ::
  "obligation_key \<Rightarrow> go_time \<Rightarrow> duration \<Rightarrow> object_db \<Rightarrow> reconciliation_error + (ReconciliationRecord \<times> object_db)" where
  "ClaimObjectReconciliation k now timeout db =
     (case od_rows db k of
        None \<Rightarrow> Inl ErrNoReconciliationReady
      | Some row \<Rightarrow>
         and_then (RestoreObjectReconciliation row) (\<lambda>current.
         and_then (ClaimForRecovery now timeout current) (\<lambda>claimed. Inr (claimed, put_row claimed db))))"

definition object_id :: "ObjectRecord \<Rightarrow> string \<times> string" where
  "object_id o' = (ob_Key o', ob_Version o')"

abbreviation asset_object :: "evidence_record \<Rightarrow> ObjectRecord" where
  "asset_object a \<equiv> co_Object (ea_Content a)"

definition IsObjectReferenced :: "string \<times> string \<Rightarrow> object_db \<Rightarrow> bool" where
  "IsObjectReferenced i db \<longleftrightarrow> (\<exists>e a. od_assets db e = Some a \<and> object_id (asset_object a) = i)
     \<or> (\<exists>k r. od_rows db k = Some r \<and> object_id (ox_Object r) = i
          \<and> ox_State r \<in> {ReconciliationPending, ReconciliationClaimed, ReconciliationRetained})"

section \<open>Acceptance\<close>

text \<open>
  The acceptance transaction. What it reads outside the three tables is a choice: whether the event could be built, the
  session and its credential are found, locked and live, the authority permits the processing (its verdict is that of
  \<open>acceptance_authority\<close> in the theory of the processing authority), the branch of the capture
  profile is open, and the statements after the retention (audit, outbox, progress) succeed. The clock is read
  after the locks are held. A row carries its temporal frame.
\<close>

record UploadAcceptance =
  uc_UploadID :: string
  uc_CaptureTokenID :: string
  uc_ExpectedVersion :: int
  uc_Attempt :: nat
  uc_Asset :: evidence_record
  uc_PlaintextBytes :: int
  uc_EventID :: string
  uc_OccurredAt :: go_time

record acceptance_checks =
  ck_event :: bool
  ck_session :: bool
  ck_permitted :: bool
  ck_branch :: bool
  ck_published :: bool

datatype (plugins only: size code) acceptance_error =
    AcceptanceUpload upload_error
  | AcceptanceReconciliation reconciliation_error
  | ErrProcessingNotPermitted
  | AcceptanceFailed

definition ValidateUploadAcceptanceWithin :: "bool \<Rightarrow> string \<Rightarrow> UploadRecord \<Rightarrow> go_time \<Rightarrow> go_time \<Rightarrow> bool" where
  "ValidateUploadAcceptanceWithin permitted tenantID upload occurredAt now \<longleftrightarrow>
     tenantID \<noteq> [] \<and> up_TenantID upload = tenantID \<and> \<not> IsZero occurredAt
     \<and> (let observedAt = to_UTC now in
        \<not> IsZero observedAt \<and> \<not> After occurredAt observedAt \<and> Before observedAt (ur_ExpiresAt upload)
        \<and> (case ur_LeaseExpiresAt upload of None \<Rightarrow> False | Some lease \<Rightarrow> Before observedAt lease))
     \<and> permitted"

definition RetainForAcceptance :: "UploadAcceptance \<Rightarrow> object_db \<Rightarrow> acceptance_error + object_db" where
  "RetainForAcceptance m db =
     (case od_rows db (uc_UploadID m, uc_Attempt m) of
        None \<Rightarrow> Inl (AcceptanceReconciliation ErrReconciliationConflict)
      | Some r \<Rightarrow>
         guard (ox_EvidenceID r = ea_ID (uc_Asset m) \<and> ox_Object r = asset_object (uc_Asset m) \<and> ox_State r = ReconciliationPending)
           (AcceptanceReconciliation ErrReconciliationConflict)
           (Inr (put_row (r\<lparr>ox_State := ReconciliationRetained, ox_Version := i64 (ox_Version r + 1), ox_LeaseExpiresAt := None,
                   ox_UpdatedAt := pg_time (uc_OccurredAt m), ox_ResolvedAt := Some (pg_time (uc_OccurredAt m))\<rparr>) db)))"

definition acceptance_ok :: "string \<Rightarrow> UploadAcceptance \<Rightarrow> bool" where
  "acceptance_ok tenantID m \<longleftrightarrow>
     tenantID \<noteq> [] \<and> uc_UploadID m \<noteq> [] \<and> uc_CaptureTokenID m \<noteq> [] \<and> uc_EventID m \<noteq> [] \<and> 1 \<le> uc_ExpectedVersion m
     \<and> 1 \<le> uc_Attempt m \<and> uc_Attempt m \<le> maxInt32 \<and> 1 \<le> uc_PlaintextBytes m \<and> \<not> IsZero (uc_OccurredAt m)
     \<and> ea_TenantID (uc_Asset m) = tenantID \<and> ea_State (uc_Asset m) = StateAvailable \<and> ea_Version (uc_Asset m) = 1"

definition store_AcceptUpload ::
  "Catalog \<Rightarrow> acceptance_checks \<Rightarrow> string \<Rightarrow> go_time \<Rightarrow> UploadAcceptance \<Rightarrow> object_db \<Rightarrow> acceptance_error + (UploadRecord \<times> object_db)" where
  "store_AcceptUpload catalog ck tenantID now m db =
     guard (acceptance_ok tenantID m) (AcceptanceUpload ErrUploadConflict)
       (case catalog_Resolve catalog (ea_Registry (uc_Asset m)) of
          Inl _ \<Rightarrow> Inl AcceptanceFailed
        | Inr _ \<Rightarrow>
           guard (ck_event ck) AcceptanceFailed
             (guard (ck_session ck) (AcceptanceUpload ErrUploadNotFound)
               (case od_uploads db (uc_UploadID m) of
                  None \<Rightarrow> Inl (AcceptanceUpload ErrUploadNotFound)
                | Some row \<Rightarrow>
                   and_then (map_sum AcceptanceUpload id (restoreUpload catalog row)) (\<lambda>current.
                   guard (up_CaptureTokenID current = uc_CaptureTokenID m \<and> up_VerificationID current = ea_VerificationID (uc_Asset m))
                     (AcceptanceUpload ErrUploadNotFound)
                   (guard (ValidateUploadAcceptanceWithin (ck_permitted ck) tenantID current (uc_OccurredAt m) now) ErrProcessingNotPermitted
                   (guard (ck_branch ck) AcceptanceFailed
                   (and_then (map_sum AcceptanceUpload id (upload_Accept (uc_ExpectedVersion m) (uc_Attempt m) (uc_Asset m) (uc_PlaintextBytes m)
                               (uc_OccurredAt m) current)) (\<lambda>accepted.
                   guard (od_assets db (ea_ID (uc_Asset m)) = None) AcceptanceFailed
                   (and_then (RetainForAcceptance m (db\<lparr>od_assets := (od_assets db)(ea_ID (uc_Asset m) := Some (uc_Asset m))\<rparr>)) (\<lambda>db1.
                    let persisted = transition_row accepted row in
                    and_then (map_sum AcceptanceUpload id (restoreUpload catalog persisted)) (\<lambda>result.
                    guard (ck_published ck) AcceptanceFailed
                      (Inr (result, db1\<lparr>od_uploads := (od_uploads db1)(uc_UploadID m := Some persisted)\<rparr>)))))))))))))"

section \<open>Recovery and discovery\<close>

text \<open>\<^verbatim>\<open>determineAndApply\<close> up to the deletion: keep, delete, or an error that releases the claim.\<close>

datatype (plugins only: size code) disposition = KeepObject | DeleteObject | LeaveObject

definition determine :: "ReconciliationRecord \<Rightarrow> UploadRecord \<Rightarrow> evidence_record option \<Rightarrow> disposition" where
  "determine r u asset =
     (if up_EvidenceID u \<noteq> ox_EvidenceID r then LeaveObject
      else if ur_State u = UploadStateAccepted then
        (case asset of
           None \<Rightarrow> LeaveObject
         | Some a \<Rightarrow> if ur_Attempt u \<noteq> ox_UploadAttempt r \<or> asset_object a \<noteq> ox_Object r then LeaveObject else KeepObject)
      else (case asset of None \<Rightarrow> DeleteObject | Some _ \<Rightarrow> LeaveObject))"

definition MinimumOrphanAge :: duration where
  "MinimumOrphanAge = MaximumUploadAttemptTimeout + 5 * minute"

text \<open>One object of an inventory page: old enough, ours, and not referenced when asked.\<close>

definition orphan_found :: "duration \<Rightarrow> go_time \<Rightarrow> go_time \<Rightarrow> string \<times> string \<Rightarrow> object_db \<Rightarrow> bool" where
  "orphan_found minimumAge now modifiedAt i db \<longleftrightarrow> MinimumOrphanAge \<le> minimumAge
     \<and> \<not> After modifiedAt (Add (to_UTC now) (- minimumAge)) \<and> \<not> IsObjectReferenced i db"

section \<open>The interleaved system\<close>

datatype object_proc =
    UploadClaimed UploadRecord
  | UploadStaged UploadRecord evidence_record
  | UploadRecorded UploadRecord evidence_record
  | UploadDiscarding UploadRecord ObjectRecord
  | UploadDiscarded UploadRecord ObjectRecord
  | Recovering ReconciliationRecord
  | RecoveryFound ReconciliationRecord UploadRecord
  | RecoveryDeleting ReconciliationRecord
  | RecoveryClosing ReconciliationRecord reconciliation_state
  | RecoveryReleasing ReconciliationRecord
  | OrphanFound "string \<times> string"

record object_state =
  os_now :: int
  os_db :: object_db
  os_procs :: "object_proc list"
  os_staged :: "((string \<times> string) \<times> int) list"
  os_deleted :: "(string \<times> string) list"

abbreviation proceeds :: "object_proc \<Rightarrow> object_proc list \<Rightarrow> object_state \<Rightarrow> object_state" where
  "proceeds p qs s \<equiv> s\<lparr>os_procs := qs @ remove1 p (os_procs s)\<rparr>"

abbreviation with_db :: "object_db \<Rightarrow> object_state \<Rightarrow> object_state" where
  "with_db db s \<equiv> s\<lparr>os_db := db\<rparr>"

abbreviation deletes_object :: "string \<times> string \<Rightarrow> object_state \<Rightarrow> object_state" where
  "deletes_object i s \<equiv> s\<lparr>os_deleted := i # os_deleted s\<rparr>"

fun is_accept :: "upload_command \<Rightarrow> bool" where
  "is_accept (AcceptUpload _ _ _ _ _) = True"
| "is_accept _ = False"

text \<open>
  \<open>skew\<close> bounds how far the clock of a recovery worker runs ahead; every other reading is of the one clock or
  earlier.
\<close>

inductive object_step :: "Catalog \<Rightarrow> duration \<Rightarrow> object_state \<Rightarrow> object_state \<Rightarrow> bool" for catalog skew where
  ticks: "0 \<le> d \<Longrightarrow> object_step catalog skew s (s\<lparr>os_now := os_now s + d\<rparr>)"
| moves: "od_uploads (os_db s) i = Some row \<Longrightarrow> \<not> is_accept c \<Longrightarrow> \<not> is_claim c \<Longrightarrow> apply_upload c row = Inr q \<Longrightarrow>
     object_step catalog skew s (with_db ((os_db s)\<lparr>od_uploads := (od_uploads (os_db s))(i := Some (transition_row q row))\<rparr>) s)"
| claims: "od_uploads (os_db s) i = Some row \<Longrightarrow> t_ns now \<le> os_now s \<Longrightarrow> ClaimAttempt v now row = Inr q \<Longrightarrow> ur_Attempt q \<le> maxInt32 \<Longrightarrow>
     object_step catalog skew s
       (with_db ((os_db s)\<lparr>od_uploads := (od_uploads (os_db s))(i := Some (transition_row q row))\<rparr>)
         (s\<lparr>os_procs := UploadClaimed (transition_row q row) # os_procs s\<rparr>))"
| stages: "UploadClaimed u \<in> set (os_procs s) \<Longrightarrow> object_id (asset_object a) \<notin> fst ` set (os_staged s) \<Longrightarrow>
     object_step catalog skew s (proceeds (UploadClaimed u) [UploadStaged u a]
       (s\<lparr>os_staged := (object_id (asset_object a), os_now s) # os_staged s\<rparr>))"
| abandons: "UploadClaimed u \<in> set (os_procs s) \<Longrightarrow> object_id o' \<notin> fst ` set (os_staged s) \<Longrightarrow>
     object_step catalog skew s (proceeds (UploadClaimed u) [UploadDiscarding u o']
       (s\<lparr>os_staged := (object_id o', os_now s) # os_staged s\<rparr>))"
| records: "UploadStaged u a \<in> set (os_procs s) \<Longrightarrow> t_ns createdAt \<le> os_now s \<Longrightarrow> NewObjectReconciliation u a createdAt = Inr r \<Longrightarrow>
     createObjectReconciliation tenantID r (os_db s) = Inr db' \<Longrightarrow>
     q = UploadRecorded u a \<or> q = UploadDiscarding u (asset_object a) \<Longrightarrow>
     object_step catalog skew s (proceeds (UploadStaged u a) [q] (with_db db' s))"
| drops: "UploadStaged u a \<in> set (os_procs s) \<Longrightarrow>
     object_step catalog skew s (proceeds (UploadStaged u a) [UploadDiscarding u (asset_object a)] s)"
| accepts: "UploadRecorded u a \<in> set (os_procs s) \<Longrightarrow>
     uc_UploadID m = up_ID u \<Longrightarrow> uc_ExpectedVersion m = ur_Version u \<Longrightarrow> uc_Attempt m = ur_Attempt u \<Longrightarrow> uc_Asset m = a \<Longrightarrow>
     store_AcceptUpload catalog ck tenantID (utc_at (os_now s)) m (os_db s) = Inr (q, db') \<Longrightarrow>
     object_step catalog skew s (proceeds (UploadRecorded u a) [] (with_db db' s))"
| refuses: "UploadRecorded u a \<in> set (os_procs s) \<Longrightarrow>
     object_step catalog skew s (proceeds (UploadRecorded u a) [UploadDiscarding u (asset_object a)] s)"
| discards: "UploadDiscarding u o' \<in> set (os_procs s) \<Longrightarrow>
     object_step catalog skew s (proceeds (UploadDiscarding u o') [UploadDiscarded u o'] (deletes_object (object_id o') s))"
| resolves: "UploadDiscarded u o' \<in> set (os_procs s) \<Longrightarrow>
     ResolveObjectReconciliation (up_ID u, ur_Attempt u) o' ReconciliationDeleted now (os_db s) = Inr db' \<Longrightarrow>
     object_step catalog skew s (proceeds (UploadDiscarded u o') [] (with_db db' s))"
| orphans: "UploadDiscarded u o' \<in> set (os_procs s) \<Longrightarrow> NewObjectReconciliationForObject u o' createdAt = Inr r \<Longrightarrow>
     createObjectReconciliation tenantID r (os_db s) = Inr db' \<Longrightarrow>
     object_step catalog skew s (proceeds (UploadDiscarded u o') [] (with_db db' s))"
| recovers: "t_ns now \<le> os_now s + skew \<Longrightarrow> ClaimObjectReconciliation k now timeout (os_db s) = Inr (r, db') \<Longrightarrow>
     object_step catalog skew s (with_db db' (s\<lparr>os_procs := Recovering r # os_procs s\<rparr>))"
| finds: "Recovering r \<in> set (os_procs s) \<Longrightarrow> od_uploads (os_db s) (ox_UploadID r) = Some u \<Longrightarrow>
     object_step catalog skew s (proceeds (Recovering r) [RecoveryFound r u] s)"
| determines: "RecoveryFound r u \<in> set (os_procs s) \<Longrightarrow> determine r u (od_assets (os_db s) (ox_EvidenceID r)) = d \<Longrightarrow>
     object_step catalog skew s (proceeds (RecoveryFound r u)
       [case d of KeepObject \<Rightarrow> RecoveryClosing r ReconciliationRetained | DeleteObject \<Rightarrow> RecoveryDeleting r
        | LeaveObject \<Rightarrow> RecoveryReleasing r] s)"
| removes: "RecoveryDeleting r \<in> set (os_procs s) \<Longrightarrow> q = RecoveryClosing r ReconciliationDeleted \<or> q = RecoveryReleasing r \<Longrightarrow>
     object_step catalog skew s (proceeds (RecoveryDeleting r) [q] (deletes_object (object_id (ox_Object r)) s))"
| closes: "RecoveryClosing r state \<in> set (os_procs s) \<Longrightarrow> CompleteObjectReconciliation r state now (os_db s) = Inr db' \<Longrightarrow>
     object_step catalog skew s (proceeds (RecoveryClosing r state) [] (with_db db' s))"
| releases: "p \<in> set (os_procs s) \<Longrightarrow> p = Recovering r \<or> p = RecoveryFound r u \<or> p = RecoveryReleasing r \<Longrightarrow>
     RetryObjectReconciliation r now delay (os_db s) = Inr db' \<Longrightarrow>
     object_step catalog skew s (proceeds p [] (with_db db' s))"
| discovers: "(i, modified) \<in> set (os_staged s) \<Longrightarrow> orphan_found minimumAge (utc_at (os_now s)) (utc_at modified) i (os_db s) \<Longrightarrow>
     object_step catalog skew s (s\<lparr>os_procs := OrphanFound i # os_procs s\<rparr>)"
| sweeps: "OrphanFound i \<in> set (os_procs s) \<Longrightarrow> object_step catalog skew s (proceeds (OrphanFound i) [] (deletes_object i s))"
| dies: "object_step catalog skew s (proceeds p [] s)"

inductive_cases object_stepE: "object_step catalog skew s t"


section \<open>What the operations do to a row\<close>

lemma Restore_fields:
  assumes "RestoreObjectReconciliation r = Inr q"
  shows "obligation_of q = obligation_of r \<and> ox_Object q = ox_Object r \<and> ox_EvidenceID q = ox_EvidenceID r \<and> ox_State q = ox_State r
    \<and> t_ns (ox_AvailableAt q) = t_ns (ox_AvailableAt r)"
  using assms
  by (auto simp: RestoreObjectReconciliation_def Let_def chain_iff obligation_of_def simp del: reconciliation_state_ok.simps split: sum.splits)

text \<open>The identity of an obligation never changes, and a resolved one is final.\<close>

definition row_next :: "ReconciliationRecord \<Rightarrow> ReconciliationRecord \<Rightarrow> bool" where
  "row_next r q \<longleftrightarrow> obligation_of q = obligation_of r \<and> ox_Object q = ox_Object r \<and> ox_EvidenceID q = ox_EvidenceID r
     \<and> (ox_State r = ReconciliationPending \<or> ox_State r = ReconciliationClaimed)
     \<and> (ox_State q = ReconciliationPending \<longrightarrow> ox_State r = ReconciliationClaimed)"

lemma ClaimForRecovery_next:
  assumes "ClaimForRecovery now timeout r = Inr q"
  shows "row_next r q \<and> ox_State q = ReconciliationClaimed \<and> (ox_State r = ReconciliationPending \<longrightarrow> t_ns (ox_AvailableAt r) \<le> t_ns now)"
  using assms by (auto simp: ClaimForRecovery_def Let_def chain_iff row_next_def obligation_of_def Before_def dest!: Restore_fields)

lemma Retry_next:
  "reconciliation_Retry now delay r = Inr q \<Longrightarrow> row_next r q \<and> ox_State q = ReconciliationPending"
  by (auto simp: reconciliation_Retry_def Let_def chain_iff row_next_def obligation_of_def dest!: Restore_fields)

lemma Resolve_next:
  "reconciliation_Resolve state now r = Inr q \<Longrightarrow> row_next r q \<and> ox_State q = state \<and> state \<noteq> ReconciliationPending \<and> state \<noteq> ReconciliationClaimed"
  by (auto simp: reconciliation_Resolve_def Let_def chain_iff row_next_def obligation_of_def dest!: Restore_fields)

text \<open>The lifecycle of an obligation as a workflow.\<close>

datatype obligation_command =
    ClaimObligation go_time duration
  | RetryObligation go_time duration
  | ResolveObligation reconciliation_state go_time

fun apply_obligation :: "obligation_command \<Rightarrow> ReconciliationRecord \<Rightarrow> reconciliation_error + ReconciliationRecord" where
  "apply_obligation (ClaimObligation now timeout) r = ClaimForRecovery now timeout r"
| "apply_obligation (RetryObligation now delay) r = reconciliation_Retry now delay r"
| "apply_obligation (ResolveObligation state now) r = reconciliation_Resolve state now r"

fun obligation_edge :: "reconciliation_state \<Rightarrow> reconciliation_state \<Rightarrow> bool" where
  "obligation_edge ReconciliationPending q = (q \<noteq> ReconciliationPending)"
| "obligation_edge ReconciliationClaimed q = True"
| "obligation_edge _ q = False"

interpretation obligation: phased_workflow apply_obligation ox_State obligation_edge
  "\<lambda>p. p \<noteq> ReconciliationPending \<and> p \<noteq> ReconciliationClaimed"
proof
  fix c s s' assume "apply_obligation c s = Inr s'"
  then have "row_next s s'" using ClaimForRecovery_next Retry_next Resolve_next by (cases c) auto
  then show "s' = s \<or> obligation_edge (ox_State s) (ox_State s')" by (auto simp: row_next_def)
next
  fix p q assume "p \<noteq> ReconciliationPending \<and> p \<noteq> ReconciliationClaimed"
  then show "\<not> obligation_edge p q" by (cases p) simp_all
qed












section \<open>The invariant\<close>


definition uploads_le :: "object_db \<Rightarrow> object_db \<Rightarrow> bool" where
  "uploads_le db db' \<longleftrightarrow> (\<forall>i row'. od_uploads db' i = Some row' \<longrightarrow> (\<exists>row. od_uploads db i = Some row
     \<and> up_ID row' = up_ID row \<and> ur_AttemptTimeout row' = ur_AttemptTimeout row
     \<and> (row' = row \<or> ur_Attempt row < ur_Attempt row' \<or> ur_Attempt row' = ur_Attempt row \<and> ur_State row' \<noteq> UploadStateUploading)))"

lemma uploads_le_refl [simp]: "od_uploads db' = od_uploads db \<Longrightarrow> uploads_le db db'"
  by (simp add: uploads_le_def)

















section \<open>How the state evolves\<close>

declare split_paired_All [simp del] split_paired_Ex [simp del]











definition undisturbed :: "object_state \<Rightarrow> object_state \<Rightarrow> string \<times> string \<Rightarrow> obligation_key \<Rightarrow> bool" where
  "undisturbed s t i h \<longleftrightarrow>
     (\<forall>k r. od_rows (os_db t) k = Some r \<longrightarrow> object_id (ox_Object r) = i \<longrightarrow>
        k = h \<or> (\<exists>r. od_rows (os_db s) k = Some r \<and> object_id (ox_Object r) = i))
     \<and> (\<forall>e a. od_assets (os_db t) e = Some a \<longrightarrow> object_id (asset_object a) = i \<longrightarrow> od_assets (os_db s) e = Some a)"




lemma transition_row_fields [simp]:
  "up_ID (transition_row q row) = up_ID row" "ur_AttemptTimeout (transition_row q row) = ur_AttemptTimeout row"
  "ur_State (transition_row q row) = ur_State q" "ur_Attempt (transition_row q row) = ur_Attempt q"
  "ur_LeaseExpiresAt (transition_row q row) = map_option pg_time (ur_LeaseExpiresAt q)"
  by (simp_all add: transition_row_def)


lemma put_row_simps [simp]:
  "od_uploads (put_row r db) = od_uploads db" "od_assets (put_row r db) = od_assets db"
  "od_rows (put_row r db) = (od_rows db)(obligation_of r := Some r)"
  by (simp_all add: put_row_def)








subsection \<open>Rows\<close>








subsection \<open>Processes\<close>

lemma quiet_undisturbed:
  "(\<And>k r. od_rows (os_db t) k = Some r \<Longrightarrow> \<exists>q. od_rows (os_db s) k = Some q \<and> ox_Object q = ox_Object r) \<Longrightarrow>
   od_assets (os_db t) = od_assets (os_db s) \<Longrightarrow> undisturbed s t i h"
  by (fastforce simp: undisturbed_def)


























declare split_paired_All [simp] split_paired_Ex [simp]



section \<open>Samples\<close>





















section \<open>Properties\<close>





end
