(* ===== verification/Processing_Authority.thy ===== *)
theory Processing_Authority
  imports Evidence_Upload Session_Lifecycle
begin

text \<open>
  Processing authority (\<^verbatim>\<open>internal/authority/authority.go\<close>): immutable notices, the declaration that permits
  processing for one verification, the append-only answers of the subject, and the evaluation of a request against them; the
  authorisation of evidence reads (\<^verbatim>\<open>service.go\<close>), and the store (\<^verbatim>\<open>postgres/store.go\<close>, \<^verbatim>\<open>consent.go\<close>,
  \<^verbatim>\<open>processing.go\<close>, \<^verbatim>\<open>upload_acceptance.go\<close>) with the validation every consequential transaction runs before its effects.

  The tables of one tenant are functions from identifiers, and lists for the declarations and the append-only responses. Transactions are one
  step, except those that validate processing: they hold the lock of the parent session from their
  validation to their commit, and other transactions take steps in between. Those at snapshot isolation validate the tables of their beginning,
  and the version of the session row, which every fenced transaction renews, tells them that their snapshot is stale. The reservation of an idempotency
  key around each command is the business of the idempotency component, and the audit rows, outbox events and webhooks of a command have no bearing on
  the tables modelled. The JSON document of a notice and SHA-256 are parameters.
\<close>

section \<open>Notices\<close>

datatype (plugins only: size code) authority_error =
    ErrNotFound
  | ErrConflict
  | ErrVersionConflict
  | ErrProcessingNotPermitted
  | ErrSubjectResponseRequired
  | AuthorityInvalid

definition maxCodeLength :: nat where
  "maxCodeLength = 200"

definition maxDisplayLength :: nat where
  "maxDisplayLength = 200"

definition maxCopyLength :: nat where
  "maxCopyLength = 8000"

definition maxLocaleLength :: nat where
  "maxLocaleLength = 35"

definition maxScopedValues :: nat where
  "maxScopedValues = 64"

abbreviation valid_text :: "string \<Rightarrow> bool" where
  "valid_text v \<equiv> utf8_runes v \<noteq> None"

definition validateCode :: "string \<Rightarrow> bool" where
  "validateCode v \<longleftrightarrow> v \<noteq> [] \<and> length v \<le> maxCodeLength \<and> valid_text v \<and> \<not> surrounding_space v \<and> classificationExpression v"

text \<open>\<^verbatim>\<open>slices.Compact\<close> drops only adjacent repetitions, and the check is made before sorting.\<close>

definition validateCodeSet :: "string list \<Rightarrow> bool" where
  "validateCodeSet vs \<longleftrightarrow> vs \<noteq> [] \<and> length vs \<le> maxScopedValues \<and> list_all validateCode vs \<and> length (compact vs) = length vs"

definition canonicalSet :: "string list \<Rightarrow> string list" where
  "canonicalSet vs = compact (sort vs)"

definition validateLocale :: "string \<Rightarrow> bool" where
  "validateLocale v \<longleftrightarrow> 2 \<le> length v \<and> length v \<le> maxLocaleLength \<and> \<not> surrounding_space v
     \<and> list_all (\<lambda>c. is_lower c \<or> is_upper c \<or> is_digit c \<or> c = CHR ''-'') v"

definition validateDisplay :: "string \<Rightarrow> bool" where
  "validateDisplay v \<longleftrightarrow> v \<noteq> [] \<and> length v \<le> maxDisplayLength \<and> valid_text v \<and> \<not> surrounding_space v
     \<and> CHR 0x0D \<notin> set v \<and> CHR 0x0A \<notin> set v"

record NoticeCopy =
  nc_Title :: string
  nc_Summary :: string
  nc_Purpose :: string
  nc_Consequences :: string

record NoticeRecord =
  nt_ID :: string
  nt_TenantID :: string
  nt_Key :: string
  nt_Locale :: string
  nt_Controller :: string
  nt_Recipient :: string
  nt_Copy :: NoticeCopy
  nt_EffectiveAt :: go_time
  nt_CreatedAt :: go_time
  nt_CreatedBy :: string
  nt_Digest :: string

definition copy_text_ok :: "string \<Rightarrow> bool" where
  "copy_text_ok v \<longleftrightarrow> v \<noteq> [] \<and> length v \<le> maxCopyLength \<and> valid_text v \<and> \<not> surrounding_space v"

definition validateCopy :: "NoticeCopy \<Rightarrow> bool" where
  "validateCopy c \<longleftrightarrow> copy_text_ok (nc_Title c) \<and> copy_text_ok (nc_Summary c) \<and> copy_text_ok (nc_Purpose c) \<and> copy_text_ok (nc_Consequences c)"

record authority_env =
  ae_json :: "string \<times> string \<times> string \<times> string \<times> NoticeCopy \<times> int \<Rightarrow> string option"
  ae_sha :: "string \<Rightarrow> string"

definition noticeDigest :: "authority_env \<Rightarrow> NoticeRecord \<Rightarrow> authority_error + string" where
  "noticeDigest env r =
     (case ae_json env (nt_Key r, nt_Locale r, nt_Controller r, nt_Recipient r, nt_Copy r, t_ns (nt_EffectiveAt r)) of
        None \<Rightarrow> Inl AuthorityInvalid
      | Some encoded \<Rightarrow> Inr (''sha256:'' @ hex_encode (ae_sha env encoded)))"

definition NewNotice :: "authority_env \<Rightarrow> NoticeRecord \<Rightarrow> authority_error + NoticeRecord" where
  "NewNotice env r0 =
     (let r = r0\<lparr>nt_EffectiveAt := pg_time (nt_EffectiveAt r0), nt_CreatedAt := pg_time (nt_CreatedAt r0), nt_Digest := []\<rparr> in
      guard (nt_ID r \<noteq> [] \<and> nt_TenantID r \<noteq> [] \<and> nt_CreatedBy r \<noteq> [] \<and> \<not> IsZero (nt_EffectiveAt r) \<and> \<not> IsZero (nt_CreatedAt r)) AuthorityInvalid
        (guard (validateCode (nt_Key r) \<and> validateLocale (nt_Locale r) \<and> validateDisplay (nt_Controller r) \<and> validateDisplay (nt_Recipient r)
                \<and> validateCopy (nt_Copy r)) AuthorityInvalid
          (and_then (noticeDigest env r) (\<lambda>digest. Inr (r\<lparr>nt_Digest := digest\<rparr>)))))"

definition RestoreNotice :: "authority_env \<Rightarrow> NoticeRecord \<Rightarrow> authority_error + NoticeRecord" where
  "RestoreNotice env r =
     and_then (NewNotice env r) (\<lambda>n. guard (nt_Digest r \<noteq> [] \<and> nt_Digest n = nt_Digest r) AuthorityInvalid (Inr n))"

section \<open>Declarations\<close>

datatype (plugins only: size code) authority_state =
  AuthorityActive | AuthorityRestricted | AuthorityWithdrawn | AuthoritySuperseded | AuthorityOther string

record AuthorityRecord =
  pa_ID :: string
  pa_TenantID :: string
  pa_SubjectID :: string
  pa_VerificationID :: string
  pa_NoticeID :: string
  pa_Category :: string
  pa_Purpose :: string
  pa_Jurisdiction :: string
  pa_PolicyPack :: string
  pa_IsConsentRequired :: bool
  pa_RequirementPurposes :: "string list"
  pa_EvidenceTypes :: "string list"
  pa_RecipientReference :: string
  pa_RecipientDisplayName :: string
  pa_Regions :: "string list"
  pa_RetentionReference :: string
  pa_State :: authority_state
  pa_Version :: int
  pa_ValidFrom :: go_time
  pa_ExpiresAt :: go_time
  pa_CreatedAt :: go_time
  pa_UpdatedAt :: go_time
  pa_CreatedBy :: string
  pa_WorkloadID :: string
  pa_RestrictedAt :: "go_time option"
  pa_WithdrawnAt :: "go_time option"
  pa_SupersededAt :: "go_time option"

definition validWorkloadPrincipal :: "string \<Rightarrow> bool" where
  "validWorkloadPrincipal v \<longleftrightarrow> take 4 v = ''wld_'' \<and> 8 \<le> length v \<and> length v \<le> 128 \<and> \<not> surrounding_space v
     \<and> list_all (\<lambda>c. is_lower c \<or> is_upper c \<or> is_digit c \<or> c = CHR ''_'' \<or> c = CHR ''-'') (drop 4 v)"

definition authority_validActor :: "AuthorityRecord \<Rightarrow> bool" where
  "authority_validActor r = (if pa_WorkloadID r = [] then pa_CreatedBy r \<noteq> [] else pa_CreatedBy r = [] \<and> validWorkloadPrincipal (pa_WorkloadID r))"

definition ActorID :: "AuthorityRecord \<Rightarrow> string" where
  "ActorID r = (if pa_WorkloadID r \<noteq> [] then pa_WorkloadID r else pa_CreatedBy r)"

definition transition_times :: "AuthorityRecord \<Rightarrow> (authority_state \<times> go_time) list" where
  "transition_times r =
     List.map_filter (\<lambda>(s, t). map_option (Pair s) t)
       [(AuthorityRestricted, pa_RestrictedAt r), (AuthorityWithdrawn, pa_WithdrawnAt r), (AuthoritySuperseded, pa_SupersededAt r)]"

definition validateStateTimes :: "AuthorityRecord \<Rightarrow> bool" where
  "validateStateTimes r \<longleftrightarrow>
     list_all (\<lambda>(s, t). \<not> Before t (pa_CreatedAt r) \<and> t_ns t = t_ns (pa_UpdatedAt r) \<and> s = pa_State r) (transition_times r)
     \<and> length (transition_times r) = (if pa_State r = AuthorityActive then 0 else 1)"

definition authority_restore :: "AuthorityRecord \<Rightarrow> authority_error + AuthorityRecord" where
  "authority_restore r0 =
     (let r1 = r0\<lparr>pa_ValidFrom := to_UTC (pa_ValidFrom r0), pa_ExpiresAt := to_UTC (pa_ExpiresAt r0), pa_CreatedAt := to_UTC (pa_CreatedAt r0),
                  pa_UpdatedAt := to_UTC (pa_UpdatedAt r0)\<rparr> in
      guard (validateCodeSet (pa_RequirementPurposes r1) \<and> validateCodeSet (pa_EvidenceTypes r1) \<and> validateCodeSet (pa_Regions r1)) AuthorityInvalid
        (let r = r1\<lparr>pa_RequirementPurposes := canonicalSet (pa_RequirementPurposes r1), pa_EvidenceTypes := canonicalSet (pa_EvidenceTypes r1),
                    pa_Regions := canonicalSet (pa_Regions r1)\<rparr> in
         guard (pa_ID r \<noteq> [] \<and> pa_TenantID r \<noteq> [] \<and> pa_SubjectID r \<noteq> [] \<and> pa_VerificationID r \<noteq> [] \<and> pa_NoticeID r \<noteq> [] \<and> authority_validActor r)
           AuthorityInvalid
           (guard (list_all validateCode [pa_Category r, pa_Purpose r, pa_Jurisdiction r, pa_PolicyPack r, pa_RecipientReference r, pa_RetentionReference r]
                   \<and> validateDisplay (pa_RecipientDisplayName r)) AuthorityInvalid
             (guard (pa_Purpose r \<in> set (pa_RequirementPurposes r)) AuthorityInvalid
               (guard (1 \<le> pa_Version r \<and> \<not> IsZero (pa_ValidFrom r) \<and> After (pa_ExpiresAt r) (pa_ValidFrom r)
                       \<and> \<not> IsZero (pa_CreatedAt r) \<and> \<not> Before (pa_UpdatedAt r) (pa_CreatedAt r)) AuthorityInvalid
                 (guard (validateStateTimes r) AuthorityInvalid (Inr r)))))))"

definition authority_New :: "AuthorityRecord \<Rightarrow> authority_error + AuthorityRecord" where
  "authority_New r =
     authority_restore (r\<lparr>pa_State := AuthorityActive, pa_Version := 1, pa_RestrictedAt := None, pa_WithdrawnAt := None, pa_SupersededAt := None,
       pa_ValidFrom := to_UTC (pa_ValidFrom r), pa_ExpiresAt := to_UTC (pa_ExpiresAt r), pa_CreatedAt := to_UTC (pa_CreatedAt r),
       pa_UpdatedAt := to_UTC (pa_CreatedAt r)\<rparr>)"

definition authority_transition :: "authority_state \<Rightarrow> go_time \<Rightarrow> AuthorityRecord \<Rightarrow> authority_error + AuthorityRecord" where
  "authority_transition state now0 r =
     guard (pa_ID r \<noteq> [] \<and> pa_State r = AuthorityActive) ErrConflict
       (let now = to_UTC now0 in
        guard (\<not> Before now (pa_UpdatedAt r)) ErrConflict
          (let moved = r\<lparr>pa_State := state, pa_Version := i64 (pa_Version r + 1), pa_UpdatedAt := now\<rparr> in
           (case state of
              AuthorityRestricted \<Rightarrow> Inr (moved\<lparr>pa_RestrictedAt := Some now\<rparr>)
            | AuthorityWithdrawn \<Rightarrow> Inr (moved\<lparr>pa_WithdrawnAt := Some now\<rparr>)
            | AuthoritySuperseded \<Rightarrow> Inr (moved\<lparr>pa_SupersededAt := Some now\<rparr>)
            | _ \<Rightarrow> Inl ErrConflict)))"

section \<open>Responses and evaluation\<close>

datatype (plugins only: size code) response_action = ResponseAcknowledge | ResponseConsent | ResponseRefuse | ResponseOther string

record ResponseRecord =
  sr_ID :: string
  sr_TenantID :: string
  sr_AuthorityID :: string
  sr_NoticeID :: string
  sr_SubjectID :: string
  sr_VerificationID :: string
  sr_CaptureTokenID :: string
  sr_Action :: response_action
  sr_Locale :: string
  sr_RenderedExperienceVersion :: string
  sr_RecordedAt :: go_time

definition NewResponse :: "ResponseRecord \<Rightarrow> authority_error + ResponseRecord" where
  "NewResponse r0 =
     (let r = r0\<lparr>sr_RecordedAt := to_UTC (sr_RecordedAt r0)\<rparr> in
      guard (sr_ID r \<noteq> [] \<and> sr_TenantID r \<noteq> [] \<and> sr_AuthorityID r \<noteq> [] \<and> sr_NoticeID r \<noteq> [] \<and> sr_SubjectID r \<noteq> [] \<and> sr_VerificationID r \<noteq> []
             \<and> sr_CaptureTokenID r \<noteq> [] \<and> \<not> IsZero (sr_RecordedAt r)) AuthorityInvalid
        (guard (sr_Action r = ResponseAcknowledge \<or> sr_Action r = ResponseConsent \<or> sr_Action r = ResponseRefuse) AuthorityInvalid
          (guard (validateLocale (sr_Locale r) \<and> (sr_RenderedExperienceVersion r \<noteq> [] \<longrightarrow> validateCode (sr_RenderedExperienceVersion r)))
            AuthorityInvalid (Inr r))))"

record GrantRequest =
  gq_TenantID :: string
  gq_VerificationID :: string
  gq_SubjectID :: string
  gq_Purpose :: string
  gq_EvidenceType :: string
  gq_RecipientReference :: string
  gq_Region :: string

text \<open>\<^verbatim>\<open>nil\<close> is permission.\<close>

definition Evaluate ::
  "AuthorityRecord \<Rightarrow> NoticeRecord \<Rightarrow> ResponseRecord option \<Rightarrow> GrantRequest \<Rightarrow> go_time \<Rightarrow> authority_error option" where
  "Evaluate r notice response request now =
     (if pa_State r \<noteq> AuthorityActive \<or> Before now (pa_ValidFrom r) \<or> \<not> Before now (pa_ExpiresAt r) then Some ErrProcessingNotPermitted
      else if nt_ID notice \<noteq> pa_NoticeID r \<or> nt_TenantID notice \<noteq> pa_TenantID r \<or> Before now (nt_EffectiveAt notice) then Some ErrProcessingNotPermitted
      else if gq_TenantID request \<noteq> pa_TenantID r \<or> gq_VerificationID request \<noteq> pa_VerificationID r \<or> gq_SubjectID request \<noteq> pa_SubjectID r
           \<or> gq_RecipientReference request \<noteq> pa_RecipientReference r \<or> gq_Purpose request \<notin> set (pa_RequirementPurposes r)
           \<or> gq_EvidenceType request \<notin> set (pa_EvidenceTypes r) \<or> gq_Region request \<notin> set (pa_Regions r) then Some ErrProcessingNotPermitted
      else case response of
        None \<Rightarrow> Some ErrSubjectResponseRequired
      | Some receipt \<Rightarrow>
         if sr_TenantID receipt \<noteq> pa_TenantID r \<or> sr_AuthorityID receipt \<noteq> pa_ID r \<or> sr_NoticeID receipt \<noteq> pa_NoticeID r
            \<or> sr_SubjectID receipt \<noteq> pa_SubjectID r \<or> sr_VerificationID receipt \<noteq> pa_VerificationID r \<or> sr_Action receipt = ResponseRefuse
         then Some ErrProcessingNotPermitted
         else if pa_IsConsentRequired r \<and> sr_Action receipt \<noteq> ResponseConsent then Some ErrSubjectResponseRequired
         else if \<not> pa_IsConsentRequired r \<and> sr_Action receipt \<noteq> ResponseAcknowledge \<and> sr_Action receipt \<noteq> ResponseConsent
         then Some ErrSubjectResponseRequired
         else None)"

section \<open>The tables\<close>

record authority_session =
  ss_State :: session_state
  ss_Requirements :: "(string \<times> string \<times> string) list"
  ss_ExpiresAt :: go_time
  ss_SubjectID :: "string option"
  ss_AuthorityID :: "string option"
  ss_NoticeID :: "string option"
  ss_CaptureCompletedAt :: "go_time option"

record capture_credential =
  ce_VerificationID :: string
  ce_IssuedAt :: go_time
  ce_ExpiresAt :: go_time
  ce_RevokedAt :: "go_time option"

record accepted_binding =
  ub_AuthorityID :: string
  ub_ResponseID :: string
  ub_SubjectID :: string
  ub_Purpose :: string
  ub_EvidenceType :: string
  ub_Region :: string
  ub_AcceptedAt :: "go_time option"
  ub_RetainedFor :: "string list"

record authority_db =
  adb_notices :: "string \<Rightarrow> NoticeRecord option"
  adb_authorities :: "AuthorityRecord list"
  adb_responses :: "ResponseRecord list"
  adb_sessions :: "string \<Rightarrow> authority_session option"
  adb_tokens :: "string \<Rightarrow> capture_credential option"
  adb_accepted :: "string \<Rightarrow> accepted_binding list"
  adb_recovered :: "string \<Rightarrow> string option"
  adb_version :: "string \<Rightarrow> nat"

definition find_authority :: "string \<Rightarrow> authority_db \<Rightarrow> AuthorityRecord option" where
  "find_authority i db = List.find (\<lambda>r. pa_ID r = i) (adb_authorities db)"

definition find_by_verification :: "string \<Rightarrow> authority_db \<Rightarrow> AuthorityRecord option" where
  "find_by_verification v db = List.find (\<lambda>r. pa_VerificationID r = v) (adb_authorities db)"

definition find_response :: "string \<Rightarrow> authority_db \<Rightarrow> ResponseRecord option" where
  "find_response i db = List.find (\<lambda>r. sr_ID r = i) (adb_responses db)"

text \<open>\<^verbatim>\<open>FindLatestSubjectResponse\<close>: ordered by time, then by identifier.\<close>

definition response_after :: "ResponseRecord \<Rightarrow> ResponseRecord \<Rightarrow> bool" where
  "response_after r q \<longleftrightarrow> t_ns (sr_RecordedAt q) < t_ns (sr_RecordedAt r)
     \<or> t_ns (sr_RecordedAt q) = t_ns (sr_RecordedAt r) \<and> sr_ID q < sr_ID r"

fun newest :: "ResponseRecord list \<Rightarrow> ResponseRecord option" where
  "newest [] = None"
| "newest (r # rs) = (case newest rs of None \<Rightarrow> Some r | Some q \<Rightarrow> if response_after r q then Some r else Some q)"

definition latest_response :: "string \<Rightarrow> authority_db \<Rightarrow> ResponseRecord option" where
  "latest_response authorityID db = newest (filter (\<lambda>r. sr_AuthorityID r = authorityID) (adb_responses db))"

text \<open>The values of a declaration at the precision of its columns.\<close>

definition authority_row :: "AuthorityRecord \<Rightarrow> AuthorityRecord" where
  "authority_row r = r\<lparr>pa_ValidFrom := pg_time (pa_ValidFrom r), pa_ExpiresAt := pg_time (pa_ExpiresAt r), pa_CreatedAt := pg_time (pa_CreatedAt r),
     pa_UpdatedAt := pg_time (pa_UpdatedAt r), pa_RestrictedAt := map_option pg_time (pa_RestrictedAt r),
     pa_WithdrawnAt := map_option pg_time (pa_WithdrawnAt r), pa_SupersededAt := map_option pg_time (pa_SupersededAt r)\<rparr>"

definition requirementsMatch :: "(string \<times> string \<times> string) list \<Rightarrow> string list \<Rightarrow> string list \<Rightarrow> bool" where
  "requirementsMatch requirements purposes types \<longleftrightarrow> requirements \<noteq> []
     \<and> compact (sort (map (\<lambda>(k, p, t). p) requirements)) = purposes \<and> compact (sort (map (\<lambda>(k, p, t). t) requirements)) = types"

definition CreateNotice :: "authority_env \<Rightarrow> string \<Rightarrow> NoticeRecord \<Rightarrow> authority_db \<Rightarrow> authority_error + NoticeRecord \<times> authority_db" where
  "CreateNotice env tenantID notice db =
     guard (tenantID \<noteq> [] \<and> nt_TenantID notice = tenantID) ErrConflict
       (guard (adb_notices db (nt_ID notice) = None) AuthorityInvalid
         (and_then (RestoreNotice env notice) (\<lambda>result.
            Inr (result, db\<lparr>adb_notices := (adb_notices db)(nt_ID notice := Some notice)\<rparr>))))"

text \<open>\<open>managed\<close>: the audit shows that the workload created the session for the delegated actor.\<close>

definition store_Declare :: "string \<Rightarrow> bool \<Rightarrow> AuthorityRecord \<Rightarrow> authority_db \<Rightarrow> authority_error + AuthorityRecord \<times> authority_db" where
  "store_Declare tenantID managed r db =
     guard (tenantID \<noteq> [] \<and> pa_TenantID r = tenantID) ErrConflict
       (case adb_sessions db (pa_VerificationID r) of
          None \<Rightarrow> Inl ErrConflict
        | Some s \<Rightarrow>
           guard (ss_AuthorityID s = None) ErrConflict
             (guard (pa_WorkloadID r \<noteq> [] \<longrightarrow> managed) ErrProcessingNotPermitted
               (guard (ss_State s = SessionStateCollecting \<and> \<not> After (pa_ExpiresAt r) (ss_ExpiresAt s)
                       \<and> requirementsMatch (ss_Requirements s) (pa_RequirementPurposes r) (pa_EvidenceTypes r)) ErrConflict
                 (case adb_notices db (pa_NoticeID r) of
                    None \<Rightarrow> Inl ErrNotFound
                  | Some _ \<Rightarrow>
                     guard (find_authority (pa_ID r) db = None \<and> find_by_verification (pa_VerificationID r) db = None) AuthorityInvalid
                       (and_then (authority_restore (authority_row r)) (\<lambda>result.
                        guard (ss_SubjectID s = None \<and> ss_NoticeID s = None) ErrConflict
                          (Inr (result, db\<lparr>adb_authorities := adb_authorities db @ [authority_row r],
                             adb_sessions := (adb_sessions db)(pa_VerificationID r := Some (s\<lparr>ss_SubjectID := Some (pa_SubjectID r),
                               ss_AuthorityID := Some (pa_ID r), ss_NoticeID := Some (pa_NoticeID r)\<rparr>)),
                             adb_version := (adb_version db)(pa_VerificationID r := adb_version db (pa_VerificationID r) + 1)\<rparr>))))))))"

definition lockAuthoritySession :: "string \<Rightarrow> string \<Rightarrow> authority_db \<Rightarrow> authority_error option" where
  "lockAuthoritySession verificationID authorityID db =
     (case adb_sessions db verificationID of
        None \<Rightarrow> Some ErrNotFound
      | Some s \<Rightarrow> if ss_AuthorityID s = Some authorityID then None else Some ErrProcessingNotPermitted)"

text \<open>The no-op write of the locked session gives its row a new version, so that snapshots taken before it are stale.\<close>

definition fence_session :: "string \<Rightarrow> authority_db \<Rightarrow> authority_db" where
  "fence_session v db = db\<lparr>adb_version := (adb_version db)(v := adb_version db v + 1)\<rparr>"

definition put_authority :: "AuthorityRecord \<Rightarrow> authority_db \<Rightarrow> authority_db" where
  "put_authority r db = db\<lparr>adb_authorities := map (\<lambda>q. if pa_ID q = pa_ID r then r else q) (adb_authorities db)\<rparr>"

definition store_Transition :: "string \<Rightarrow> int \<Rightarrow> AuthorityRecord \<Rightarrow> authority_db \<Rightarrow> authority_error + AuthorityRecord \<times> authority_db" where
  "store_Transition tenantID expectedVersion r db =
     guard (tenantID \<noteq> [] \<and> pa_TenantID r = tenantID \<and> 1 \<le> expectedVersion) ErrConflict
       (case lockAuthoritySession (pa_VerificationID r) (pa_ID r) db of
          Some e \<Rightarrow> Inl e
        | None \<Rightarrow>
           (case find_authority (pa_ID r) db of
              None \<Rightarrow> Inl ErrVersionConflict
            | Some row \<Rightarrow>
               guard (pa_Version row = expectedVersion \<and> pa_State row = AuthorityActive) ErrVersionConflict
                 (let moved = row\<lparr>pa_State := pa_State r, pa_Version := pa_Version r, pa_UpdatedAt := pg_time (pa_UpdatedAt r),
                        pa_RestrictedAt := map_option pg_time (pa_RestrictedAt r), pa_WithdrawnAt := map_option pg_time (pa_WithdrawnAt r),
                        pa_SupersededAt := map_option pg_time (pa_SupersededAt r)\<rparr> in
                  and_then (authority_restore moved) (\<lambda>result. Inr (result, put_authority moved (fence_session (pa_VerificationID r) db))))))"

text \<open>\<^verbatim>\<open>Service.Transition\<close> on the row it read (\<open>current\<close>), which may be an old one.\<close>

fun transition_command :: "int \<times> authority_state \<times> go_time \<Rightarrow> AuthorityRecord \<Rightarrow> authority_error + AuthorityRecord" where
  "transition_command (expectedVersion, state, now) r = guard (pa_Version r = expectedVersion) ErrVersionConflict (authority_transition state now r)"

definition service_Transition ::
  "string \<Rightarrow> int \<Rightarrow> authority_state \<Rightarrow> go_time \<Rightarrow> AuthorityRecord \<Rightarrow> authority_db \<Rightarrow> authority_error + AuthorityRecord \<times> authority_db" where
  "service_Transition tenantID expectedVersion state now current db =
     guard (1 \<le> expectedVersion) ErrConflict
       (and_then (authority_restore current) (\<lambda>r.
        and_then (transition_command (expectedVersion, state, now) r) (\<lambda>moved. store_Transition tenantID expectedVersion moved db)))"

definition add_response :: "ResponseRecord \<Rightarrow> authority_db \<Rightarrow> authority_error + ResponseRecord \<times> authority_db" where
  "add_response r db =
     (let row = r\<lparr>sr_RecordedAt := pg_time (sr_RecordedAt r)\<rparr> in
      guard (find_response (sr_ID r) db = None) AuthorityInvalid
        (and_then (NewResponse row) (\<lambda>result. Inr (result, db\<lparr>adb_responses := adb_responses db @ [row]\<rparr>))))"

definition AppendResponse :: "string \<Rightarrow> go_time \<Rightarrow> ResponseRecord \<Rightarrow> authority_db \<Rightarrow> authority_error + ResponseRecord \<times> authority_db" where
  "AppendResponse tenantID clock r db =
     guard (tenantID \<noteq> [] \<and> sr_TenantID r = tenantID) ErrConflict
       (case lockAuthoritySession (sr_VerificationID r) (sr_AuthorityID r) db of
          Some e \<Rightarrow> Inl e
        | None \<Rightarrow>
           (case adb_tokens db (sr_CaptureTokenID r) of
              None \<Rightarrow> Inl ErrProcessingNotPermitted
            | Some credential \<Rightarrow>
               (let now = to_UTC clock in
                guard (ce_VerificationID credential = sr_VerificationID r \<and> ce_RevokedAt credential = None \<and> \<not> After (ce_IssuedAt credential) now
                       \<and> After (ce_ExpiresAt credential) now \<and> \<not> Before (sr_RecordedAt r) (ce_IssuedAt credential)
                       \<and> Before (sr_RecordedAt r) (ce_ExpiresAt credential)) ErrProcessingNotPermitted
                  (case find_authority (sr_AuthorityID r) db of
                     None \<Rightarrow> Inl ErrNotFound
                   | Some row \<Rightarrow>
                      and_then (authority_restore row) (\<lambda>state.
                        guard (pa_State state = AuthorityActive \<and> sr_NoticeID r = pa_NoticeID state \<and> sr_SubjectID r = pa_SubjectID state
                               \<and> sr_VerificationID r = pa_VerificationID state \<and> \<not> Before (sr_RecordedAt r) (pa_ValidFrom state)
                               \<and> Before (sr_RecordedAt r) (pa_ExpiresAt state)) ErrProcessingNotPermitted
                          (add_response r (fence_session (sr_VerificationID r) db)))))))"

definition RevokeConsent :: "string \<Rightarrow> string \<Rightarrow> ResponseRecord \<Rightarrow> authority_db \<Rightarrow> authority_error + ResponseRecord \<times> authority_db" where
  "RevokeConsent tenantID original r db =
     guard (tenantID \<noteq> [] \<and> original \<noteq> [] \<and> sr_Action r = ResponseRefuse) ErrConflict
       (case find_response original db of
          None \<Rightarrow> Inl ErrNotFound
        | Some row \<Rightarrow>
           and_then (NewResponse row) (\<lambda>o'.
             guard (sr_Action o' = ResponseConsent \<and> sr_AuthorityID r = sr_AuthorityID o' \<and> sr_NoticeID r = sr_NoticeID o'
                    \<and> sr_SubjectID r = sr_SubjectID o' \<and> sr_VerificationID r = sr_VerificationID o' \<and> sr_CaptureTokenID r = sr_CaptureTokenID o'
                    \<and> \<not> Before (sr_RecordedAt r) (sr_RecordedAt o')) ErrConflict
               (case latest_response (sr_AuthorityID r) db of
                  None \<Rightarrow> Inl AuthorityInvalid
                | Some latest \<Rightarrow>
                   and_then (NewResponse latest) (\<lambda>l.
                     guard (sr_Action l \<noteq> ResponseRefuse) ErrConflict (add_response r db)))))"

section \<open>Authorisation\<close>

record authority_Snapshot =
  sn_Authority :: AuthorityRecord
  sn_Notice :: NoticeRecord
  sn_Response :: "ResponseRecord option"

definition CaptureSnapshot :: "authority_env \<Rightarrow> string \<Rightarrow> string \<Rightarrow> authority_db \<Rightarrow> authority_error + authority_Snapshot" where
  "CaptureSnapshot env tenantID verificationID db =
     guard (tenantID \<noteq> [] \<and> verificationID \<noteq> []) ErrNotFound
       (case find_by_verification verificationID db of
          None \<Rightarrow> Inl ErrNotFound
        | Some row \<Rightarrow>
           and_then (authority_restore row) (\<lambda>declaration.
           (case adb_notices db (pa_NoticeID declaration) of
              None \<Rightarrow> Inl AuthorityInvalid
            | Some noticeRow \<Rightarrow>
               and_then (RestoreNotice env noticeRow) (\<lambda>notice.
               (case latest_response (pa_ID declaration) db of
                  None \<Rightarrow> Inr \<lparr>sn_Authority = declaration, sn_Notice = notice, sn_Response = None\<rparr>
                | Some responseRow \<Rightarrow>
                   and_then (NewResponse responseRow) (\<lambda>response.
                     Inr \<lparr>sn_Authority = declaration, sn_Notice = notice,
                          sn_Response = (case adb_recovered db verificationID of
                             None \<Rightarrow> Some response
                           | Some token \<Rightarrow> if token = sr_CaptureTokenID response then Some response else None)\<rparr>))))))"

text \<open>\<open>blocked\<close> is what the restriction gate of the privacy boundary says of the subject (\<open>None\<close> when it fails).\<close>

definition AuthorizeEvidence ::
  "authority_env \<Rightarrow> string \<Rightarrow> (string \<Rightarrow> bool option) \<Rightarrow> go_time \<Rightarrow> authority_db \<Rightarrow> ReadAuthorization \<Rightarrow> authority_error + AuthorizationDecision" where
  "AuthorizeEvidence env tenantID blocked now db request =
     guard (tenantID \<noteq> [] \<and> ra_TenantID request = tenantID \<and> ra_SubjectID request \<noteq> [] \<and> ra_VerificationID request \<noteq> [] \<and> ra_EvidenceID request \<noteq> [])
       ErrProcessingNotPermitted
       (case blocked (ra_SubjectID request) of
          None \<Rightarrow> Inl AuthorityInvalid
        | Some b \<Rightarrow>
           guard (\<not> b) ErrProcessingNotPermitted
             (case adb_sessions db (ra_VerificationID request) of
                None \<Rightarrow> Inl ErrProcessingNotPermitted
              | Some s \<Rightarrow>
                 guard ((ra_RequirementKey request, ra_Purpose request, ra_EvidenceType request) \<in> set (ss_Requirements s)) ErrProcessingNotPermitted
                   (and_then (CaptureSnapshot env tenantID (ra_VerificationID request) db) (\<lambda>snapshot.
                      case Evaluate (sn_Authority snapshot) (sn_Notice snapshot) (sn_Response snapshot)
                             \<lparr>gq_TenantID = ra_TenantID request, gq_VerificationID = ra_VerificationID request, gq_SubjectID = ra_SubjectID request,
                              gq_Purpose = ra_Purpose request, gq_EvidenceType = ra_EvidenceType request,
                              gq_RecipientReference = ra_RecipientReference request, gq_Region = ra_Region request\<rparr> now of
                        Some e \<Rightarrow> Inl e
                      | None \<Rightarrow>
                         (case sn_Response snapshot of
                            None \<Rightarrow> Inl ErrSubjectResponseRequired
                          | Some response \<Rightarrow>
                             Inr \<lparr>ad_AuthorityID = pa_ID (sn_Authority snapshot), ad_ResponseID = sr_ID response,
                                  ad_PolicyReference = pa_PolicyPack (sn_Authority snapshot)\<rparr>)))))"

section \<open>The service\<close>

text \<open>
  The commands of \<^verbatim>\<open>service.go\<close> in front of the store: \<open>allowed\<close> is the permission of the caller, the fresh identifiers are those that the generator
  gave (\<open>None\<close> when it fails), and times are those of the clock at whole seconds.
\<close>

definition service_now :: "go_time \<Rightarrow> go_time" where
  "service_now clock = Truncate (to_UTC clock) 1000000000"

definition service_CreateNotice ::
  "authority_env \<Rightarrow> string \<Rightarrow> bool \<Rightarrow> go_time \<Rightarrow> string option \<Rightarrow> string \<Rightarrow> NoticeRecord \<Rightarrow> authority_db
     \<Rightarrow> authority_error + NoticeRecord \<times> authority_db" where
  "service_CreateNotice env tenantID allowed clock fresh actor input db =
     guard allowed ErrProcessingNotPermitted
       (case fresh of
          None \<Rightarrow> Inl AuthorityInvalid
        | Some noticeID \<Rightarrow>
           and_then (NewNotice env (input\<lparr>nt_ID := noticeID, nt_TenantID := tenantID, nt_CreatedAt := service_now clock, nt_CreatedBy := actor\<rparr>))
             (\<lambda>notice. CreateNotice env tenantID notice db))"

definition requirementScope :: "(string \<times> string \<times> string) list \<Rightarrow> string list \<times> string list" where
  "requirementScope requirements = (compact (sort (map (\<lambda>(k, p, t). p) requirements)), compact (sort (map (\<lambda>(k, p, t). t) requirements)))"

text \<open>The input of a declaration carries the fields the caller gives; the others are replaced.\<close>

definition service_declare ::
  "authority_env \<Rightarrow> string \<Rightarrow> go_time \<Rightarrow> (string \<times> string) option \<Rightarrow> string \<Rightarrow> string \<Rightarrow> bool \<Rightarrow> AuthorityRecord \<Rightarrow> authority_db
     \<Rightarrow> authority_error + AuthorityRecord \<times> authority_db" where
  "service_declare env tenantID clock fresh actorKey workloadID managed input db =
     (let now = service_now clock in
      case adb_sessions db (pa_VerificationID input) of
        None \<Rightarrow> Inl ErrNotFound
      | Some s \<Rightarrow>
         guard (ss_State s = SessionStateCollecting \<and> Before now (ss_ExpiresAt s) \<and> \<not> After (pa_ExpiresAt input) (ss_ExpiresAt s)) ErrConflict
           (case requirementScope (ss_Requirements s) of (purposes, evidenceTypes) \<Rightarrow>
            guard (pa_Purpose input \<in> set purposes) ErrConflict
              (case adb_notices db (pa_NoticeID input) of
                 None \<Rightarrow> Inl ErrNotFound
               | Some noticeRow \<Rightarrow>
                  and_then (RestoreNotice env noticeRow) (\<lambda>notice.
                  guard (\<not> Before (pa_ValidFrom input) (nt_EffectiveAt notice) \<and> pa_RecipientDisplayName input = nt_Recipient notice) ErrConflict
                    (case fresh of
                       None \<Rightarrow> Inl AuthorityInvalid
                     | Some (authorityID, subjectID) \<Rightarrow>
                        and_then (authority_New (input\<lparr>pa_ID := authorityID, pa_TenantID := tenantID, pa_SubjectID := subjectID,
                            pa_NoticeID := nt_ID notice, pa_RequirementPurposes := purposes, pa_EvidenceTypes := evidenceTypes,
                            pa_CreatedAt := now, pa_CreatedBy := actorKey, pa_WorkloadID := workloadID\<rparr>))
                          (\<lambda>declaration. store_Declare tenantID managed declaration db))))))"

definition service_CaptureSnapshot :: "authority_env \<Rightarrow> string \<Rightarrow> string \<Rightarrow> string \<Rightarrow> authority_db \<Rightarrow> authority_error + authority_Snapshot" where
  "service_CaptureSnapshot env tenantID verificationID tokenID db =
     and_then (CaptureSnapshot env tenantID verificationID db) (\<lambda>snapshot.
       Inr (case sn_Response snapshot of
              None \<Rightarrow> snapshot
            | Some response \<Rightarrow> if sr_CaptureTokenID response \<noteq> tokenID then snapshot\<lparr>sn_Response := None\<rparr> else snapshot))"

definition service_Respond ::
  "authority_env \<Rightarrow> string \<Rightarrow> string \<Rightarrow> string \<Rightarrow> go_time \<Rightarrow> go_time \<Rightarrow> string option \<Rightarrow> response_action \<Rightarrow> string \<Rightarrow> string \<Rightarrow> authority_db
     \<Rightarrow> authority_error + ResponseRecord \<times> authority_db" where
  "service_Respond env tenantID verificationID tokenID clock storeClock fresh action locale version db =
     and_then (service_CaptureSnapshot env tenantID verificationID tokenID db) (\<lambda>snapshot.
       guard (locale = nt_Locale (sn_Notice snapshot)) ErrProcessingNotPermitted
         (case fresh of
            None \<Rightarrow> Inl AuthorityInvalid
          | Some responseID \<Rightarrow>
             (let r = sn_Authority snapshot in
              and_then (NewResponse \<lparr>sr_ID = responseID, sr_TenantID = pa_TenantID r, sr_AuthorityID = pa_ID r, sr_NoticeID = pa_NoticeID r,
                  sr_SubjectID = pa_SubjectID r, sr_VerificationID = pa_VerificationID r, sr_CaptureTokenID = tokenID, sr_Action = action,
                  sr_Locale = locale, sr_RenderedExperienceVersion = version, sr_RecordedAt = service_now clock\<rparr>)
                (\<lambda>response. AppendResponse tenantID storeClock response db))))"

definition service_RevokeConsent ::
  "string \<Rightarrow> bool \<Rightarrow> go_time \<Rightarrow> string option \<Rightarrow> string \<Rightarrow> string \<Rightarrow> authority_db \<Rightarrow> authority_error + ResponseRecord \<times> authority_db" where
  "service_RevokeConsent tenantID allowed clock fresh reason original db =
     guard (allowed \<and> reason \<noteq> [] \<and> length reason \<le> 500 \<and> \<not> surrounding_space reason) ErrProcessingNotPermitted
       (case find_response original db of
          None \<Rightarrow> Inl ErrNotFound
        | Some row \<Rightarrow>
           (case NewResponse row of
              Inl _ \<Rightarrow> Inl ErrNotFound
            | Inr o' \<Rightarrow>
               guard (sr_Action o' = ResponseConsent) ErrNotFound
                 (case fresh of
                    None \<Rightarrow> Inl AuthorityInvalid
                  | Some responseID \<Rightarrow>
                     and_then (NewResponse (o'\<lparr>sr_ID := responseID, sr_Action := ResponseRefuse, sr_RecordedAt := service_now clock\<rparr>))
                       (\<lambda>revocation. RevokeConsent tenantID original revocation db))))"

section \<open>Validation inside a consequential transaction\<close>

definition executionState :: "session_state \<Rightarrow> session_state \<Rightarrow> bool \<Rightarrow> bool" where
  "executionState persisted expected allowExternalWait \<longleftrightarrow> persisted = expected
     \<or> allowExternalWait \<and> expected = SessionStateProcessing \<and> persisted = SessionStateAwaitingExternal"

definition binding_ok ::
  "string \<Rightarrow> string \<Rightarrow> AuthorityRecord \<Rightarrow> NoticeRecord \<Rightarrow> ResponseRecord \<Rightarrow> go_time \<Rightarrow> go_time \<Rightarrow> accepted_binding \<Rightarrow> bool" where
  "binding_ok tenantID verificationID declaration notice response occurredAt observedAt b \<longleftrightarrow>
     ub_AuthorityID b = pa_ID declaration \<and> (ub_ResponseID b = sr_ID response \<or> sr_CaptureTokenID response \<in> set (ub_RetainedFor b))
     \<and> ub_SubjectID b = pa_SubjectID declaration \<and> (case ub_AcceptedAt b of None \<Rightarrow> False | Some t \<Rightarrow> \<not> After t occurredAt)
     \<and> (let request = \<lparr>gq_TenantID = tenantID, gq_VerificationID = verificationID, gq_SubjectID = pa_SubjectID declaration,
                gq_Purpose = ub_Purpose b, gq_EvidenceType = ub_EvidenceType b, gq_RecipientReference = pa_RecipientReference declaration,
                gq_Region = ub_Region b\<rparr> in
        Evaluate declaration notice (Some response) request occurredAt = None \<and> Evaluate declaration notice (Some response) request observedAt = None)"

definition validateAcceptedProcessing ::
  "string \<Rightarrow> string \<Rightarrow> AuthorityRecord \<Rightarrow> NoticeRecord \<Rightarrow> ResponseRecord \<Rightarrow> go_time \<Rightarrow> go_time \<Rightarrow> authority_db \<Rightarrow> bool" where
  "validateAcceptedProcessing tenantID verificationID declaration notice response occurredAt observedAt db \<longleftrightarrow>
     list_all (binding_ok tenantID verificationID declaration notice response occurredAt observedAt) (adb_accepted db verificationID)
     \<and> adb_accepted db verificationID \<noteq> []"

record processing_call =
  pc_VerificationID :: string
  pc_OccurredAt :: go_time
  pc_ExpectedState :: session_state
  pc_Reconsideration :: bool
  pc_AllowExternalWait :: bool

definition validateProcessingWithin ::
  "authority_env \<Rightarrow> string \<Rightarrow> go_time \<Rightarrow> processing_call \<Rightarrow> authority_db \<Rightarrow> authority_error + ResponseRecord" where
  "validateProcessingWithin env tenantID now c db =
     (let v = pc_VerificationID c; occurredAt = pc_OccurredAt c; observedAt = to_UTC now in
      guard (tenantID \<noteq> [] \<and> v \<noteq> [] \<and> \<not> IsZero occurredAt
             \<and> (pc_ExpectedState c = SessionStateCollecting \<or> pc_ExpectedState c = SessionStateProcessing
                \<or> pc_ExpectedState c = SessionStateManualReview \<or> pc_Reconsideration c \<and> pc_ExpectedState c = SessionStateCompleted))
        ErrProcessingNotPermitted
        (case adb_sessions db v of
           None \<Rightarrow> Inl ErrProcessingNotPermitted
         | Some s \<Rightarrow>
            guard (\<not> IsZero observedAt \<and> \<not> After occurredAt observedAt \<and> executionState (ss_State s) (pc_ExpectedState c) (pc_AllowExternalWait c)
                   \<and> ss_AuthorityID s \<noteq> None \<and> ss_SubjectID s \<noteq> None \<and> ss_NoticeID s \<noteq> None
                   \<and> (pc_Reconsideration c \<or> Before observedAt (ss_ExpiresAt s))
                   \<and> (case ss_CaptureCompletedAt s of None \<Rightarrow> False | Some t \<Rightarrow> \<not> After t occurredAt)) ErrProcessingNotPermitted
              (case find_authority (the (ss_AuthorityID s)) db of
                 None \<Rightarrow> Inl ErrProcessingNotPermitted
               | Some row \<Rightarrow>
                  and_then (authority_restore row) (\<lambda>declaration.
                  guard (ss_SubjectID s = Some (pa_SubjectID row) \<and> ss_NoticeID s = Some (pa_NoticeID row) \<and> pa_VerificationID row = v)
                    ErrProcessingNotPermitted
                  (case adb_notices db (pa_NoticeID row) of
                     None \<Rightarrow> Inl AuthorityInvalid
                   | Some noticeRow \<Rightarrow>
                      and_then (RestoreNotice env noticeRow) (\<lambda>notice.
                      (case latest_response (pa_ID row) db of
                         None \<Rightarrow> Inl ErrProcessingNotPermitted
                       | Some responseRow \<Rightarrow>
                          guard (\<not> After (sr_RecordedAt responseRow) occurredAt) ErrProcessingNotPermitted
                          (and_then (NewResponse responseRow) (\<lambda>response.
                           guard (case adb_recovered db v of None \<Rightarrow> True | Some token \<Rightarrow> token = sr_CaptureTokenID response) ErrSubjectResponseRequired
                             (guard (validateAcceptedProcessing tenantID v declaration notice response occurredAt observedAt db)
                                ErrProcessingNotPermitted (Inr responseRow)))))))))))"

text \<open>What the acceptance of an upload asks of the authority, under the lock of the session.\<close>

definition acceptance_authority ::
  "authority_env \<Rightarrow> string \<Rightarrow> UploadRecord \<Rightarrow> go_time \<Rightarrow> go_time \<Rightarrow> authority_db \<Rightarrow> authority_error + ResponseRecord" where
  "acceptance_authority env tenantID upload occurredAt now db =
     guard (tenantID \<noteq> [] \<and> up_TenantID upload = tenantID \<and> \<not> IsZero occurredAt) ErrProcessingNotPermitted
       (case adb_sessions db (up_VerificationID upload) of
          None \<Rightarrow> Inl ErrProcessingNotPermitted
        | Some s \<Rightarrow>
           guard (ss_State s = SessionStateCollecting \<and> ss_AuthorityID s = Some (up_AuthorityID upload)) ErrProcessingNotPermitted
             (case adb_tokens db (up_CaptureTokenID upload) of
                None \<Rightarrow> Inl ErrProcessingNotPermitted
              | Some token \<Rightarrow>
                 (let observedAt = to_UTC now in
                  guard (ce_VerificationID token = up_VerificationID upload \<and> \<not> IsZero observedAt \<and> \<not> After occurredAt observedAt
                         \<and> Before observedAt (ur_ExpiresAt upload) \<and> (case ur_LeaseExpiresAt upload of None \<Rightarrow> False | Some lease \<Rightarrow> Before observedAt lease)
                         \<and> Before observedAt (ss_ExpiresAt s) \<and> ce_RevokedAt token = None \<and> Before observedAt (ce_ExpiresAt token)) ErrProcessingNotPermitted
                    (case find_authority (up_AuthorityID upload) db of
                       None \<Rightarrow> Inl AuthorityInvalid
                     | Some row \<Rightarrow>
                        and_then (authority_restore row) (\<lambda>declaration.
                        (case adb_notices db (pa_NoticeID row) of
                           None \<Rightarrow> Inl AuthorityInvalid
                         | Some noticeRow \<Rightarrow>
                            and_then (RestoreNotice env noticeRow) (\<lambda>notice.
                            (case latest_response (pa_ID row) db of
                               None \<Rightarrow> Inl ErrSubjectResponseRequired
                             | Some responseRow \<Rightarrow>
                                guard (sr_CaptureTokenID responseRow = up_CaptureTokenID upload \<and> sr_ID responseRow = up_ResponseID upload
                                       \<and> \<not> After (sr_RecordedAt responseRow) occurredAt) ErrProcessingNotPermitted
                                  (and_then (NewResponse responseRow) (\<lambda>response.
                                   (let request = \<lparr>gq_TenantID = tenantID, gq_VerificationID = up_VerificationID upload, gq_SubjectID = up_SubjectID upload,
                                          gq_Purpose = up_Purpose upload, gq_EvidenceType = up_EvidenceType upload,
                                          gq_RecipientReference = pa_RecipientReference declaration, gq_Region = up_Region upload\<rparr> in
                                    (case Evaluate declaration notice (Some response) request occurredAt of
                                       Some e \<Rightarrow> Inl e
                                     | None \<Rightarrow> (case Evaluate declaration notice (Some response) request observedAt of
                                         Some e \<Rightarrow> Inl e
                                       | None \<Rightarrow> Inr responseRow)))))))))))))"

section \<open>The interleaved system\<close>

text \<open>
  A processing transaction between its validation and its end. Most run at read committed and validate against the tables as they are once
  they hold the lock; the planner runs serializable and the model requests at repeatable read, and these validate against the snapshot of their beginning.
\<close>

record processing_tx =
  tx_Call :: processing_call
  tx_Response :: ResponseRecord
  tx_Now :: go_time
  tx_Read :: authority_db
  tx_Snapshot :: bool

record authority_world =
  aw_db :: authority_db
  aw_snapshots :: "authority_db list"
  aw_pending :: "processing_tx list"
  aw_effects :: "(processing_tx \<times> authority_db) list"

text \<open>The lock of a session is free when no transaction between its validation and its end is about it.\<close>

definition unlocked :: "authority_world \<Rightarrow> string \<Rightarrow> bool" where
  "unlocked w v \<longleftrightarrow> list_all (\<lambda>t. pc_VerificationID (tx_Call t) \<noteq> v) (aw_pending w)"

definition same_binding :: "authority_session \<Rightarrow> authority_session \<Rightarrow> bool" where
  "same_binding s t \<longleftrightarrow> ss_SubjectID t = ss_SubjectID s \<and> ss_AuthorityID t = ss_AuthorityID s \<and> ss_NoticeID t = ss_NoticeID s
     \<and> ss_Requirements t = ss_Requirements s"

text \<open>
  What the rest of the program does to the rows modelled here: sessions are created unbound and move on, evidence is accepted and captures
  are recovered (all under the lock of the session), credentials come and go. An update of a session row gives it a new version.
\<close>

definition others_change :: "authority_world \<Rightarrow> authority_db \<Rightarrow> bool" where
  "others_change w db \<longleftrightarrow>
     adb_notices db = adb_notices (aw_db w) \<and> adb_authorities db = adb_authorities (aw_db w) \<and> adb_responses db = adb_responses (aw_db w)
     \<and> (\<forall>v. \<not> unlocked w v \<longrightarrow> adb_sessions db v = adb_sessions (aw_db w) v \<and> adb_accepted db v = adb_accepted (aw_db w) v
          \<and> adb_recovered db v = adb_recovered (aw_db w) v \<and> adb_version db v = adb_version (aw_db w) v)
     \<and> (\<forall>v. adb_version (aw_db w) v \<le> adb_version db v \<and> (adb_version db v = adb_version (aw_db w) v \<longrightarrow> adb_sessions db v = adb_sessions (aw_db w) v))
     \<and> (\<forall>v t. adb_sessions db v = Some t \<longrightarrow>
          (case adb_sessions (aw_db w) v of None \<Rightarrow> ss_AuthorityID t = None | Some s \<Rightarrow> same_binding s t))
     \<and> (\<forall>v s. adb_sessions (aw_db w) v = Some s \<longrightarrow> adb_sessions db v \<noteq> None)"

text \<open>
  The insertion of a revocation waits for the lock through the foreign key of the response to its session, but it writes no
  new version of the session row. A snapshot whose session row has a newer version fails when it takes the lock.
\<close>

inductive authority_step :: "authority_env \<Rightarrow> string \<Rightarrow> authority_world \<Rightarrow> authority_world \<Rightarrow> bool" for env tenantID where
  notices: "CreateNotice env tenantID n (aw_db w) = Inr (n', db') \<Longrightarrow> authority_step env tenantID w (w\<lparr>aw_db := db'\<rparr>)"
| declares: "unlocked w (pa_VerificationID r) \<Longrightarrow> store_Declare tenantID managed r (aw_db w) = Inr (r', db') \<Longrightarrow>
     authority_step env tenantID w (w\<lparr>aw_db := db'\<rparr>)"
| transitions: "unlocked w (pa_VerificationID r) \<Longrightarrow> service_Transition tenantID expected state now r (aw_db w) = Inr (r', db') \<Longrightarrow>
     authority_step env tenantID w (w\<lparr>aw_db := db'\<rparr>)"
| responds: "unlocked w (sr_VerificationID q) \<Longrightarrow> AppendResponse tenantID now q (aw_db w) = Inr (q', db') \<Longrightarrow>
     authority_step env tenantID w (w\<lparr>aw_db := db'\<rparr>)"
| revokes: "unlocked w (sr_VerificationID q) \<Longrightarrow> RevokeConsent tenantID original q (aw_db w) = Inr (q', db') \<Longrightarrow>
     authority_step env tenantID w (w\<lparr>aw_db := db'\<rparr>)"
| begins: "authority_step env tenantID w (w\<lparr>aw_snapshots := aw_db w # aw_snapshots w\<rparr>)"
| validates: "unlocked w (pc_VerificationID c) \<Longrightarrow> validateProcessingWithin env tenantID now c (aw_db w) = Inr q \<Longrightarrow>
     authority_step env tenantID w
       (w\<lparr>aw_pending := \<lparr>tx_Call = c, tx_Response = q, tx_Now = now, tx_Read = aw_db w, tx_Snapshot = False\<rparr> # aw_pending w\<rparr>)"
| validates_snapshot: "unlocked w (pc_VerificationID c) \<Longrightarrow> d \<in> set (aw_snapshots w) \<Longrightarrow>
     adb_version d (pc_VerificationID c) = adb_version (aw_db w) (pc_VerificationID c) \<Longrightarrow> validateProcessingWithin env tenantID now c d = Inr q \<Longrightarrow>
     authority_step env tenantID w
       (w\<lparr>aw_pending := \<lparr>tx_Call = c, tx_Response = q, tx_Now = now, tx_Read = d, tx_Snapshot = True\<rparr> # aw_pending w\<rparr>)"
| commits: "t \<in> set (aw_pending w) \<Longrightarrow>
     authority_step env tenantID w (w\<lparr>aw_pending := remove1 t (aw_pending w), aw_effects := (t, aw_db w) # aw_effects w\<rparr>)"
| rolls_back: "authority_step env tenantID w (w\<lparr>aw_pending := remove1 t (aw_pending w)\<rparr>)"
| others: "others_change w db \<Longrightarrow> authority_step env tenantID w (w\<lparr>aw_db := db\<rparr>)"

inductive_cases authority_stepE: "authority_step env tenantID w w'"

definition authority_start :: "authority_db \<Rightarrow> authority_world" where
  "authority_start db = \<lparr>aw_db = db, aw_snapshots = [], aw_pending = [], aw_effects = []\<rparr>"

section \<open>Facts about the operations\<close>

lemma find_Some_mem: "List.find P xs = Some x \<Longrightarrow> x \<in> set xs \<and> P x"
  by (induction xs) (auto split: if_splits)

lemma find_append: "List.find P (xs @ ys) = (case List.find P xs of None \<Rightarrow> List.find P ys | Some x \<Rightarrow> Some x)"
  by (induction xs) auto

lemma find_unique: "x \<in> set xs \<Longrightarrow> P x \<Longrightarrow> (\<And>y. y \<in> set xs \<Longrightarrow> P y \<Longrightarrow> y = x) \<Longrightarrow> List.find P xs = Some x"
  by (cases "List.find P xs") (use find_None_iff find_Some_mem in \<open>metis+\<close>)

lemma find_map_other: "(\<And>x. x \<in> set xs \<Longrightarrow> P (f x) \<longleftrightarrow> P x) \<Longrightarrow> (\<And>x. x \<in> set xs \<Longrightarrow> P x \<Longrightarrow> f x = x) \<Longrightarrow> List.find P (map f xs) = List.find P xs"
  by (induction xs) auto

lemma response_after_trans: "response_after r q \<Longrightarrow> response_after q p \<Longrightarrow> response_after r p"
  by (auto simp: response_after_def)

lemma response_after_negative: "\<not> response_after r q \<Longrightarrow> \<not> response_after q p \<Longrightarrow> \<not> response_after r p"
  by (auto simp: response_after_def not_less)

lemma newest_snoc:
  "newest (rs @ [r]) = (case newest rs of None \<Rightarrow> Some r | Some q \<Rightarrow> if response_after q r then Some q else Some r)"
proof (induction rs)
  case (Cons x rs)
  then show ?case
    by (cases "newest rs") (auto dest: response_after_trans response_after_negative)
qed simp

lemma set_canonicalSet [simp]: "set (canonicalSet vs) = set vs"
  by (simp add: canonicalSet_def set_compact)

lemma authority_restore_fields:
  assumes "authority_restore r = Inr d"
  shows "pa_ID d = pa_ID r \<and> pa_VerificationID d = pa_VerificationID r \<and> pa_State d = pa_State r \<and> pa_Version d = pa_Version r
    \<and> pa_SubjectID d = pa_SubjectID r \<and> pa_NoticeID d = pa_NoticeID r \<and> pa_TenantID d = pa_TenantID r
    \<and> pa_IsConsentRequired d = pa_IsConsentRequired r \<and> pa_PolicyPack d = pa_PolicyPack r
    \<and> pa_RecipientReference d = pa_RecipientReference r
    \<and> set (pa_RequirementPurposes d) = set (pa_RequirementPurposes r) \<and> set (pa_EvidenceTypes d) = set (pa_EvidenceTypes r)
    \<and> set (pa_Regions d) = set (pa_Regions r) \<and> t_ns (pa_ValidFrom d) = t_ns (pa_ValidFrom r) \<and> t_ns (pa_ExpiresAt d) = t_ns (pa_ExpiresAt r)
    \<and> pa_ID r \<noteq> []"
  using assms by (auto simp: authority_restore_def Let_def chain_iff)

lemma NewResponse_fields:
  assumes "NewResponse r = Inr q"
  shows "q = r\<lparr>sr_RecordedAt := to_UTC (sr_RecordedAt r)\<rparr>"
  using assms by (auto simp: NewResponse_def Let_def chain_iff)

lemma transition_leaves_active:
  "authority_transition state now r = Inr q \<Longrightarrow> pa_State r = AuthorityActive \<and> pa_State q \<noteq> AuthorityActive \<and> pa_ID q = pa_ID r \<and> pa_VerificationID q = pa_VerificationID r"
  by (cases state) (auto simp: authority_transition_def Let_def chain_iff)

definition authority_edge :: "authority_state \<Rightarrow> authority_state \<Rightarrow> bool" where
  "authority_edge p q \<longleftrightarrow> p = AuthorityActive \<and> (q = AuthorityRestricted \<or> q = AuthorityWithdrawn \<or> q = AuthoritySuperseded)"

lemma transition_command_moves:
  "transition_command c r = Inr q \<Longrightarrow> fst c = pa_Version r \<and> pa_Version q = i64 (pa_Version r + 1) \<and> authority_edge (pa_State r) (pa_State q)"
  by (cases c; cases "fst (snd c)") (auto simp: authority_transition_def authority_edge_def Let_def chain_iff)

interpretation authority_row_flow: optimistic_aggregate transition_command pa_Version fst
  by unfold_locales (simp_all add: transition_command_moves)

interpretation authority_row_flow: phased_workflow transition_command pa_State authority_edge "\<lambda>p. p \<noteq> AuthorityActive"
  by unfold_locales (auto simp: authority_edge_def dest: transition_command_moves)

lemma add_response_cases:
  "add_response r db = Inr (q, db') \<Longrightarrow> db' = db\<lparr>adb_responses := adb_responses db @ [r\<lparr>sr_RecordedAt := pg_time (sr_RecordedAt r)\<rparr>]\<rparr>"
  by (auto simp: add_response_def Let_def chain_iff)

lemma AppendResponse_cases:
  assumes "AppendResponse tenantID now r db = Inr (q, db')"
  obtains row where "db' = fence_session (sr_VerificationID r) (db\<lparr>adb_responses := adb_responses db @ [r\<lparr>sr_RecordedAt := pg_time (sr_RecordedAt r)\<rparr>]\<rparr>)"
    "lockAuthoritySession (sr_VerificationID r) (sr_AuthorityID r) db = None" "find_authority (sr_AuthorityID r) db = Some row"
    "pa_State row = AuthorityActive"
  using assms
  by (auto simp: AppendResponse_def fence_session_def Let_def chain_iff split: option.splits dest!: add_response_cases authority_restore_fields)

lemma RevokeConsent_cases:
  assumes "RevokeConsent tenantID original r db = Inr (q, db')"
  obtains o' where "db' = db\<lparr>adb_responses := adb_responses db @ [r\<lparr>sr_RecordedAt := pg_time (sr_RecordedAt r)\<rparr>]\<rparr>"
    "o' \<in> set (adb_responses db)" "sr_AuthorityID o' = sr_AuthorityID r" "sr_VerificationID o' = sr_VerificationID r" "sr_Action r = ResponseRefuse"
proof -
  from assms obtain row o' where a: "find_response original db = Some row" "NewResponse row = Inr o'" "sr_AuthorityID r = sr_AuthorityID o'"
    "sr_VerificationID r = sr_VerificationID o'" "sr_Action r = ResponseRefuse" "add_response r db = Inr (q, db')"
    by (auto simp: RevokeConsent_def chain_iff split: option.splits)
  have row: "row \<in> set (adb_responses db)" using find_Some_mem [OF a(1) [unfolded find_response_def]] by simp
  have "sr_AuthorityID row = sr_AuthorityID r" "sr_VerificationID row = sr_VerificationID r"
    using a(3,4) NewResponse_fields [OF a(2)] by auto
  then show thesis by (rule that [OF add_response_cases [OF a(6)] row _ _ a(5)])
qed

lemma service_Transition_cases:
  assumes "service_Transition tenantID expected state now r db = Inr (q, db')"
  obtains row moved where "lockAuthoritySession (pa_VerificationID r) (pa_ID r) db = None" "find_authority (pa_ID r) db = Some row"
    "pa_State row = AuthorityActive" "pa_State moved \<noteq> AuthorityActive" "pa_ID moved = pa_ID row" "pa_VerificationID moved = pa_VerificationID row"
    "pa_ID row = pa_ID r" "db' = put_authority moved (fence_session (pa_VerificationID r) db)"
proof -
  from assms obtain d m where d: "authority_restore r = Inr d" "authority_transition state now d = Inr m"
      "store_Transition tenantID expected m db = Inr (q, db')"
    by (auto simp: service_Transition_def chain_iff)
  have ids: "pa_ID m = pa_ID r" "pa_VerificationID m = pa_VerificationID r" "pa_State m \<noteq> AuthorityActive"
    using transition_leaves_active [OF d(2)] authority_restore_fields [OF d(1)] by auto
  from d(3) obtain row where row: "lockAuthoritySession (pa_VerificationID m) (pa_ID m) db = None" "find_authority (pa_ID m) db = Some row"
      "pa_State row = AuthorityActive"
      "db' = put_authority (row\<lparr>pa_State := pa_State m, pa_Version := pa_Version m, pa_UpdatedAt := pg_time (pa_UpdatedAt m),
                        pa_RestrictedAt := map_option pg_time (pa_RestrictedAt m), pa_WithdrawnAt := map_option pg_time (pa_WithdrawnAt m),
                        pa_SupersededAt := map_option pg_time (pa_SupersededAt m)\<rparr>) (fence_session (pa_VerificationID m) db)"
    by (auto simp: store_Transition_def Let_def chain_iff split: option.splits)
  have "pa_ID row = pa_ID m" using find_Some_mem [OF row(2) [unfolded find_authority_def]] by simp
  show thesis by (rule that [of row, OF _ _ row(3) _ _ _ _ row(4) [unfolded ids]]) (use row ids \<open>pa_ID row = pa_ID m\<close> in auto)
qed

lemma store_Declare_cases:
  assumes "store_Declare tenantID managed r db = Inr (q, db')"
  obtains s where "adb_sessions db (pa_VerificationID r) = Some s" "ss_AuthorityID s = None" "find_authority (pa_ID r) db = None"
    "find_by_verification (pa_VerificationID r) db = None"
    "db' = db\<lparr>adb_authorities := adb_authorities db @ [authority_row r],
       adb_sessions := (adb_sessions db)(pa_VerificationID r := Some (s\<lparr>ss_SubjectID := Some (pa_SubjectID r),
         ss_AuthorityID := Some (pa_ID r), ss_NoticeID := Some (pa_NoticeID r)\<rparr>)),
       adb_version := (adb_version db)(pa_VerificationID r := adb_version db (pa_VerificationID r) + 1)\<rparr>"
  using assms by (auto simp: store_Declare_def chain_iff split: option.splits)

text \<open>The commands of the service are steps of the system, when the session they are about is not locked.\<close>

lemma service_CreateNotice_step:
  "service_CreateNotice env tenantID allowed clock fresh actor input (aw_db w) = Inr (n, db) \<Longrightarrow> authority_step env tenantID w (w\<lparr>aw_db := db\<rparr>)"
  by (auto simp: service_CreateNotice_def chain_iff split: option.splits intro: notices)

lemma service_declare_step:
  assumes "service_declare env tenantID clock fresh actorKey workloadID managed input (aw_db w) = Inr (r, db)" "unlocked w (pa_VerificationID input)"
  shows "authority_step env tenantID w (w\<lparr>aw_db := db\<rparr>)"
proof -
  from assms(1) obtain x d where d: "authority_New x = Inr d" "pa_VerificationID x = pa_VerificationID input" "store_Declare tenantID managed d (aw_db w) = Inr (r, db)"
    by (auto simp: service_declare_def Let_def chain_iff split: option.splits prod.splits)
  have "pa_VerificationID d = pa_VerificationID input" using d(1,2) authority_restore_fields by (auto simp: authority_New_def)
  then show ?thesis using declares d(3) assms(2) by metis
qed

lemma service_Respond_step:
  assumes "service_Respond env tenantID v tokenID clock storeClock fresh action locale version (aw_db w) = Inr (q, db)" "unlocked w v"
  shows "authority_step env tenantID w (w\<lparr>aw_db := db\<rparr>)"
proof -
  from assms(1) obtain sn x r where a: "service_CaptureSnapshot env tenantID v tokenID (aw_db w) = Inr sn" "NewResponse x = Inr r"
      "sr_VerificationID x = pa_VerificationID (sn_Authority sn)" "AppendResponse tenantID storeClock r (aw_db w) = Inr (q, db)"
    by (auto simp: service_Respond_def Let_def chain_iff split: option.splits)
  from a(1) obtain sn' where sn: "CaptureSnapshot env tenantID v (aw_db w) = Inr sn'" "sn_Authority sn = sn_Authority sn'"
    by (auto simp: service_CaptureSnapshot_def chain_iff split: option.splits if_splits)
  from sn(1) obtain row where row: "find_by_verification v (aw_db w) = Some row" "authority_restore row = Inr (sn_Authority sn')"
    by (auto simp: CaptureSnapshot_def chain_iff split: option.splits)
  have "sr_VerificationID r = v"
    using NewResponse_fields [OF a(2)] a(3) sn(2) authority_restore_fields [OF row(2)] find_Some_mem [OF row(1) [unfolded find_by_verification_def]] by simp
  then show ?thesis using responds a(4) assms(2) by metis
qed

lemma service_RevokeConsent_step:
  assumes "service_RevokeConsent tenantID allowed clock fresh reason original (aw_db w) = Inr (q, db)"
    and "\<forall>row. find_response original (aw_db w) = Some row \<longrightarrow> unlocked w (sr_VerificationID row)"
  shows "authority_step env tenantID w (w\<lparr>aw_db := db\<rparr>)"
proof -
  from assms(1) obtain row o' x r where a: "find_response original (aw_db w) = Some row" "NewResponse row = Inr o'" "NewResponse x = Inr r"
      "sr_VerificationID x = sr_VerificationID o'" "RevokeConsent tenantID original r (aw_db w) = Inr (q, db)"
    by (auto simp: service_RevokeConsent_def chain_iff split: option.splits sum.splits)
  have "sr_VerificationID r = sr_VerificationID row" using NewResponse_fields [OF a(2)] NewResponse_fields [OF a(3)] a(4) by simp
  then show ?thesis using revokes a(1,5) assms(2) by metis
qed

section \<open>Bindings\<close>

definition authority_keys :: "authority_db \<Rightarrow> (string \<times> string) list" where
  "authority_keys db = map (\<lambda>r. (pa_ID r, pa_VerificationID r)) (adb_authorities db)"

text \<open>Every bound session and every response belongs to the one declaration of its verification.\<close>

definition authority_wf :: "authority_db \<Rightarrow> bool" where
  "authority_wf db \<longleftrightarrow> distinct (map fst (authority_keys db)) \<and> distinct (map snd (authority_keys db))
     \<and> (\<forall>v s A. adb_sessions db v = Some s \<longrightarrow> ss_AuthorityID s = Some A \<longrightarrow> (A, v) \<in> set (authority_keys db))
     \<and> (\<forall>(A, v)\<in>set (authority_keys db). \<exists>s. adb_sessions db v = Some s \<and> ss_AuthorityID s = Some A)
     \<and> (\<forall>q\<in>set (adb_responses db). (sr_AuthorityID q, sr_VerificationID q) \<in> set (authority_keys db))"

lemma authority_keys_mem: "(A, v) \<in> set (authority_keys db) \<longleftrightarrow> (\<exists>r\<in>set (adb_authorities db). pa_ID r = A \<and> pa_VerificationID r = v)"
  by (auto simp: authority_keys_def)

lemma wf_same_id: "authority_wf db \<Longrightarrow> r \<in> set (adb_authorities db) \<Longrightarrow> q \<in> set (adb_authorities db) \<Longrightarrow> pa_ID r = pa_ID q \<Longrightarrow> r = q"
  by (simp add: authority_wf_def authority_keys_def distinct_map comp_def inj_on_def)

lemma wf_same_verification:
  "authority_wf db \<Longrightarrow> r \<in> set (adb_authorities db) \<Longrightarrow> q \<in> set (adb_authorities db) \<Longrightarrow> pa_VerificationID r = pa_VerificationID q \<Longrightarrow> r = q"
  by (simp add: authority_wf_def authority_keys_def distinct_map comp_def inj_on_def)

lemma find_authority_mem: "find_authority A db = Some r \<Longrightarrow> r \<in> set (adb_authorities db) \<and> pa_ID r = A"
  unfolding find_authority_def by (rule find_Some_mem)

lemma find_by_verification_mem: "find_by_verification v db = Some r \<Longrightarrow> r \<in> set (adb_authorities db) \<and> pa_VerificationID r = v"
  unfolding find_by_verification_def by (rule find_Some_mem)

lemma locked_session: "lockAuthoritySession v A db = None \<longleftrightarrow> (\<exists>s. adb_sessions db v = Some s \<and> ss_AuthorityID s = Some A)"
  by (auto simp: lockAuthoritySession_def split: option.splits if_splits)

lemma wf_declare:
  assumes wf: "authority_wf db" and "store_Declare tenantID managed r db = Inr (q, db')"
  shows "authority_wf db'"
proof -
  from assms(2) obtain s where s: "adb_sessions db (pa_VerificationID r) = Some s" "ss_AuthorityID s = None"
    and free: "find_authority (pa_ID r) db = None" "find_by_verification (pa_VerificationID r) db = None"
    and db': "db' = db\<lparr>adb_authorities := adb_authorities db @ [authority_row r],
       adb_sessions := (adb_sessions db)(pa_VerificationID r := Some (s\<lparr>ss_SubjectID := Some (pa_SubjectID r),
         ss_AuthorityID := Some (pa_ID r), ss_NoticeID := Some (pa_NoticeID r)\<rparr>)),
       adb_version := (adb_version db)(pa_VerificationID r := adb_version db (pa_VerificationID r) + 1)\<rparr>"
    by (rule store_Declare_cases)
  have keys: "authority_keys db' = authority_keys db @ [(pa_ID r, pa_VerificationID r)]"
    by (simp add: db' authority_keys_def authority_row_def)
  have "pa_ID r \<notin> fst ` set (authority_keys db)" "pa_VerificationID r \<notin> snd ` set (authority_keys db)"
    using free by (auto simp: find_authority_def find_by_verification_def find_None_iff authority_keys_def)
  then show ?thesis using wf s unfolding authority_wf_def keys by (auto simp: db' rev_image_eqI)
qed

lemma wf_put_authority:
  assumes wf: "authority_wf db" and row: "row \<in> set (adb_authorities db)" "pa_ID r = pa_ID row" "pa_VerificationID r = pa_VerificationID row"
  shows "authority_wf (put_authority r db)"
proof -
  have "authority_keys (put_authority r db) = authority_keys db"
    using wf_same_id [OF wf _ row(1)] row(2,3) by (auto simp: authority_keys_def put_authority_def)
  then show ?thesis using wf by (simp add: authority_wf_def put_authority_def)
qed

lemma wf_add_response:
  assumes "authority_wf db" "(sr_AuthorityID q, sr_VerificationID q) \<in> set (authority_keys db)"
  shows "authority_wf (db\<lparr>adb_responses := adb_responses db @ [q\<lparr>sr_RecordedAt := t\<rparr>]\<rparr>)"
  using assms by (auto simp: authority_wf_def authority_keys_def)

lemma CreateNotice_cases:
  assumes "CreateNotice env tenantID n db = Inr (n', db')"
  shows "db' = db\<lparr>adb_notices := (adb_notices db)(nt_ID n := Some n)\<rparr> \<and> adb_notices db (nt_ID n) = None"
  using assms by (auto simp: CreateNotice_def chain_iff)

lemma others_binding:
  assumes "others_change w db"
  shows "(\<exists>t. adb_sessions db v = Some t \<and> ss_AuthorityID t = Some A)
    \<longleftrightarrow> (\<exists>s. adb_sessions (aw_db w) v = Some s \<and> ss_AuthorityID s = Some A)"
  using assms unfolding others_change_def same_binding_def
  by (cases "adb_sessions db v"; cases "adb_sessions (aw_db w) v") fastforce+

lemma wf_others:
  assumes "authority_wf (aw_db w)" "others_change w db"
  shows "authority_wf db"
proof -
  have "adb_authorities db = adb_authorities (aw_db w)" and resp: "adb_responses db = adb_responses (aw_db w)"
    using assms(2) by (simp_all add: others_change_def)
  then have keys: "authority_keys db = authority_keys (aw_db w)" by (simp add: authority_keys_def)
  show ?thesis using assms(1) others_binding [OF assms(2)] unfolding authority_wf_def keys resp by fastforce
qed

section \<open>A validation stays true while its transaction holds the lock\<close>

lemma validate_rows:
  assumes "validateProcessingWithin env tenantID now c db = Inr q"
  obtains s row where "adb_sessions db (pc_VerificationID c) = Some s" "ss_AuthorityID s = Some (pa_ID row)"
    "find_authority (pa_ID row) db = Some row" "pa_VerificationID row = pc_VerificationID c" "adb_notices db (pa_NoticeID row) \<noteq> None"
    "latest_response (pa_ID row) db = Some q"
proof -
  from assms obtain s row where a: "adb_sessions db (pc_VerificationID c) = Some s" "ss_AuthorityID s \<noteq> None"
      "find_authority (the (ss_AuthorityID s)) db = Some row" "pa_VerificationID row = pc_VerificationID c" "adb_notices db (pa_NoticeID row) \<noteq> None"
      "latest_response (pa_ID row) db = Some q"
    by (auto simp: validateProcessingWithin_def Let_def chain_iff split: option.splits)
  then show thesis using that [OF a(1) _ _ a(4-6)] find_authority_mem [OF a(3)] by auto
qed

lemma validate_frame:
  assumes v: "validateProcessingWithin env tenantID now c db = Inr q"
    and same: "adb_sessions db' (pc_VerificationID c) = adb_sessions db (pc_VerificationID c)"
      "adb_accepted db' (pc_VerificationID c) = adb_accepted db (pc_VerificationID c)"
      "adb_recovered db' (pc_VerificationID c) = adb_recovered db (pc_VerificationID c)"
    and rows: "\<And>row. find_authority (pa_ID row) db = Some row \<Longrightarrow> pa_VerificationID row = pc_VerificationID c \<Longrightarrow>
        find_authority (pa_ID row) db' = Some row \<and> latest_response (pa_ID row) db' = latest_response (pa_ID row) db"
    and notices: "\<And>i. adb_notices db i \<noteq> None \<Longrightarrow> adb_notices db' i = adb_notices db i"
  shows "validateProcessingWithin env tenantID now c db' = Inr q"
proof -
  from v obtain s row where r: "adb_sessions db (pc_VerificationID c) = Some s" "ss_AuthorityID s = Some (pa_ID row)"
    "find_authority (pa_ID row) db = Some row" "pa_VerificationID row = pc_VerificationID c" "adb_notices db (pa_NoticeID row) \<noteq> None"
    "latest_response (pa_ID row) db = Some q" by (rule validate_rows)
  from r(5) obtain n where n: "adb_notices db (pa_NoticeID row) = Some n" by auto
  have "validateProcessingWithin env tenantID now c db' = validateProcessingWithin env tenantID now c db"
    using r rows [OF r(3,4)] notices [OF r(5)] n
    by (simp add: validateProcessingWithin_def validateAcceptedProcessing_def Let_def same)
  then show ?thesis using v by simp
qed

lemma latest_response_add:
  "sr_AuthorityID q \<noteq> A \<Longrightarrow> latest_response A (db\<lparr>adb_responses := adb_responses db @ [q\<lparr>sr_RecordedAt := t\<rparr>]\<rparr>) = latest_response A db"
  by (simp add: latest_response_def)

lemma find_put_other: "A \<noteq> pa_ID r \<Longrightarrow> find_authority A (put_authority r db) = find_authority A db"
  unfolding find_authority_def put_authority_def by (simp, rule find_map_other) auto

lemma find_declared: "find_authority A db = Some row \<Longrightarrow> find_authority A (db\<lparr>adb_authorities := adb_authorities db @ xs, adb_sessions := f, adb_version := g\<rparr>) = Some row"
  by (simp add: find_authority_def find_append)

lemma fence_session_simps [simp]:
  "adb_notices (fence_session v db) = adb_notices db" "adb_authorities (fence_session v db) = adb_authorities db"
  "adb_responses (fence_session v db) = adb_responses db" "adb_sessions (fence_session v db) = adb_sessions db"
  "adb_accepted (fence_session v db) = adb_accepted db" "adb_recovered (fence_session v db) = adb_recovered db"
  "find_authority A (fence_session v db) = find_authority A db" "latest_response A (fence_session v db) = latest_response A db"
  "authority_keys (fence_session v db) = authority_keys db" "authority_wf (fence_session v db) = authority_wf db"
  by (simp_all add: fence_session_def find_authority_def latest_response_def authority_keys_def authority_wf_def)

lemma fence_version: "adb_version (fence_session v db) u = (if u = v then adb_version db v + 1 else adb_version db u)"
  by (simp add: fence_session_def)

lemmas tables = find_authority_def find_by_verification_def latest_response_def

text \<open>
  What the version of a session row vouches for: while it is the same, the session and its declaration are as they were, and the responses have
  only been followed by refusals.
\<close>

definition answers_of :: "string \<Rightarrow> authority_db \<Rightarrow> ResponseRecord list" where
  "answers_of A db = filter (\<lambda>q. sr_AuthorityID q = A) (adb_responses db)"

definition only_refused :: "string \<Rightarrow> authority_db \<Rightarrow> authority_db \<Rightarrow> bool" where
  "only_refused A d db \<longleftrightarrow> (\<exists>rs. answers_of A db = answers_of A d @ rs \<and> list_all (\<lambda>q. sr_Action q = ResponseRefuse) rs)"

definition fenced_since :: "authority_db \<Rightarrow> authority_db \<Rightarrow> bool" where
  "fenced_since d db \<longleftrightarrow> (\<forall>v. adb_version d v \<le> adb_version db v
     \<and> (adb_version d v = adb_version db v \<longrightarrow>
          (\<forall>row. find_authority (pa_ID row) d = Some row \<longrightarrow> pa_VerificationID row = v \<longrightarrow>
             find_authority (pa_ID row) db = Some row \<and> only_refused (pa_ID row) d db)))"

lemma only_refused_refl: "only_refused A d d"
  by (simp add: only_refused_def)

lemma only_refused_trans: "only_refused A d e \<Longrightarrow> only_refused A e db \<Longrightarrow> only_refused A d db"
  unfolding only_refused_def by (metis append.assoc list_all_append)

lemma only_refused_same: "adb_responses db = adb_responses d \<Longrightarrow> only_refused A d db"
  by (simp add: only_refused_def answers_of_def)

lemma fenced_since_refl: "fenced_since d d"
  by (simp add: fenced_since_def only_refused_refl)

lemma fenced_since_trans:
  assumes "fenced_since d e" "fenced_since e db"
  shows "fenced_since d db"
  unfolding fenced_since_def
proof (intro allI conjI impI)
  fix v show "adb_version d v \<le> adb_version db v" using assms unfolding fenced_since_def by (meson order_trans)
next
  fix v row assume v: "adb_version d v = adb_version db v" and row: "find_authority (pa_ID row) d = Some row" "pa_VerificationID row = v"
  have "adb_version d v \<le> adb_version e v" "adb_version e v \<le> adb_version db v" using assms by (simp_all add: fenced_since_def)
  then have e: "adb_version d v = adb_version e v" "adb_version e v = adb_version db v" using v by simp_all
  have 1: "find_authority (pa_ID row) e = Some row" "only_refused (pa_ID row) d e" using assms(1) e(1) row unfolding fenced_since_def by blast+
  have 2: "find_authority (pa_ID row) db = Some row" "only_refused (pa_ID row) e db" using assms(2) e(2) 1(1) row(2) unfolding fenced_since_def by blast+
  show "find_authority (pa_ID row) db = Some row" by (rule 2)
  show "only_refused (pa_ID row) d db" by (rule only_refused_trans [OF 1(2) 2(2)])
qed

text \<open>A transaction that has validated, against the tables of the moment.\<close>

definition tx_ok :: "authority_env \<Rightarrow> string \<Rightarrow> processing_tx \<Rightarrow> authority_db \<Rightarrow> bool" where
  "tx_ok env tenantID t db \<longleftrightarrow> authority_wf (tx_Read t)
     \<and> validateProcessingWithin env tenantID (tx_Now t) (tx_Call t) (tx_Read t) = Inr (tx_Response t) \<and> fenced_since (tx_Read t) db
     \<and> adb_version (tx_Read t) (pc_VerificationID (tx_Call t)) = adb_version db (pc_VerificationID (tx_Call t))
     \<and> (\<not> tx_Snapshot t \<longrightarrow> validateProcessingWithin env tenantID (tx_Now t) (tx_Call t) db = Inr (tx_Response t))"

definition authority_inv :: "authority_env \<Rightarrow> string \<Rightarrow> authority_world \<Rightarrow> bool" where
  "authority_inv env tenantID w \<longleftrightarrow> authority_wf (aw_db w)
     \<and> (\<forall>d\<in>set (aw_snapshots w). authority_wf d \<and> fenced_since d (aw_db w))
     \<and> (\<forall>t\<in>set (aw_pending w). tx_ok env tenantID t (aw_db w))
     \<and> (\<forall>(t, db)\<in>set (aw_effects w). authority_wf db \<and> tx_ok env tenantID t db)"

text \<open>A step that only changes the tables keeps the invariant when it keeps the bindings and what the pending validations read.\<close>

lemma inv_db_step:
  assumes inv: "authority_inv env tenantID w" and wf: "authority_wf db" and fenced: "fenced_since (aw_db w) db"
    and same: "\<And>v. \<not> unlocked w v \<Longrightarrow> adb_version db v = adb_version (aw_db w) v"
    and valid: "\<And>c q now. \<not> unlocked w (pc_VerificationID c) \<Longrightarrow> validateProcessingWithin env tenantID now c (aw_db w) = Inr q \<Longrightarrow>
           validateProcessingWithin env tenantID now c db = Inr q"
  shows "authority_inv env tenantID (w\<lparr>aw_db := db\<rparr>)"
proof -
  have "tx_ok env tenantID t db" if t: "t \<in> set (aw_pending w)" for t
  proof -
    have locked: "\<not> unlocked w (pc_VerificationID (tx_Call t))" using t by (auto simp: unlocked_def list_all_iff)
    have "tx_ok env tenantID t (aw_db w)" using inv t by (simp add: authority_inv_def)
    then show ?thesis using same [OF locked] valid [OF locked] fenced_since_trans [OF _ fenced] by (simp add: tx_ok_def)
  qed
  moreover have "fenced_since d db" if "d \<in> set (aw_snapshots w)" for d
    using inv that fenced_since_trans [OF _ fenced] by (simp add: authority_inv_def)
  ultimately show ?thesis using inv wf by (simp add: authority_inv_def)
qed

lemma key_elsewhere:
  assumes "authority_wf db" "(A, v) \<in> set (authority_keys db)" "find_authority (pa_ID row) db = Some row" "pa_VerificationID row \<noteq> v"
  shows "pa_ID row \<noteq> A"
  using assms wf_same_id [OF assms(1)] find_authority_mem [OF assms(3)] by (metis authority_keys_mem)

text \<open>The steps that add a response: \<open>fenced\<close> tells whether they also renew the version of the session.\<close>

lemma inv_add_response:
  assumes inv: "authority_inv env tenantID w" and free: "unlocked w (sr_VerificationID q)"
    and key: "(sr_AuthorityID q, sr_VerificationID q) \<in> set (authority_keys (aw_db w))"
    and db: "db = aw_db w\<lparr>adb_responses := adb_responses (aw_db w) @ [q\<lparr>sr_RecordedAt := t\<rparr>]\<rparr>"
    and out: "db' = fence_session (sr_VerificationID q) db \<or> db' = db \<and> sr_Action q = ResponseRefuse"
  shows "authority_inv env tenantID (w\<lparr>aw_db := db'\<rparr>)"
proof (rule inv_db_step [OF inv])
  have wf: "authority_wf (aw_db w)" using inv by (simp add: authority_inv_def)
  have "authority_wf db" unfolding db by (rule wf_add_response [OF wf key])
  then show "authority_wf db'" using out by auto
  have find: "find_authority A db' = find_authority A (aw_db w)" for A using out by (auto simp: db find_authority_def)
  have refused: "only_refused A (aw_db w) db'" if "sr_AuthorityID q \<noteq> A \<or> sr_Action q = ResponseRefuse" for A
    using out that by (auto simp: only_refused_def answers_of_def db)
  have "sr_AuthorityID q \<noteq> pa_ID row" if "find_authority (pa_ID row) (aw_db w) = Some row" "pa_VerificationID row \<noteq> sr_VerificationID q" for row
    using key_elsewhere [OF wf key that] by simp
  then show "fenced_since (aw_db w) db'"
    using out refused find by (auto simp: fenced_since_def fence_version db split: if_splits)
  show "adb_version db' v = adb_version (aw_db w) v" if "\<not> unlocked w v" for v
    using out free that by (auto simp: fence_version db)
  fix c q' now assume c: "\<not> unlocked w (pc_VerificationID c)" "validateProcessingWithin env tenantID now c (aw_db w) = Inr q'"
  have latest: "latest_response (pa_ID row) db' = latest_response (pa_ID row) (aw_db w)"
    if "find_authority (pa_ID row) (aw_db w) = Some row" "pa_VerificationID row = pc_VerificationID c" for row
  proof -
    have "pa_ID row \<noteq> sr_AuthorityID q" by (rule key_elsewhere [OF wf key that(1)]) (use that(2) c(1) free in auto)
    then show ?thesis using out latest_response_add [of q "pa_ID row"] by (auto simp: db)
  qed
  then show "validateProcessingWithin env tenantID now c db' = Inr q'"
    by (intro validate_frame [OF c(2)]) (use out in \<open>auto simp: find db\<close>)
qed

lemma inv_transition:
  assumes inv: "authority_inv env tenantID w" and free: "unlocked w (pa_VerificationID r)"
    and step: "service_Transition tenantID expected state now r (aw_db w) = Inr (r', db)"
  shows "authority_inv env tenantID (w\<lparr>aw_db := db\<rparr>)"
proof (rule inv_db_step [OF inv])
  have wf: "authority_wf (aw_db w)" using inv by (simp add: authority_inv_def)
  from step obtain row moved where row: "lockAuthoritySession (pa_VerificationID r) (pa_ID r) (aw_db w) = None"
      "find_authority (pa_ID r) (aw_db w) = Some row"
    and moved: "pa_ID moved = pa_ID row" "pa_VerificationID moved = pa_VerificationID row"
      "db = put_authority moved (fence_session (pa_VerificationID r) (aw_db w))"
    by (rule service_Transition_cases)
  show "authority_wf db" unfolding moved(3)
    by (rule wf_put_authority [of _ row]) (use wf find_authority_mem [OF row(2)] moved(1,2) in simp_all)
  have version: "adb_version db v = (if v = pa_VerificationID r then adb_version (aw_db w) v + 1 else adb_version (aw_db w) v)" for v
    by (simp add: moved(3) put_authority_def fence_version)
  have key: "(pa_ID moved, pa_VerificationID r) \<in> set (authority_keys (aw_db w))"
    using wf row(1) moved(1) find_authority_mem [OF row(2)] by (auto simp: authority_wf_def locked_session)
  have find: "find_authority (pa_ID a) db = Some a"
    if "find_authority (pa_ID a) (aw_db w) = Some a" "pa_VerificationID a \<noteq> pa_VerificationID r" for a
    using key_elsewhere [OF wf key that] that(1) by (simp add: moved(3) find_put_other)
  have "adb_responses db = adb_responses (aw_db w)" by (simp add: moved(3) put_authority_def)
  then show "fenced_since (aw_db w) db"
    using find by (auto simp: fenced_since_def version only_refused_same split: if_splits)
  show "adb_version db v = adb_version (aw_db w) v" if "\<not> unlocked w v" for v using version free that by auto
  fix c q' now assume c: "\<not> unlocked w (pc_VerificationID c)" "validateProcessingWithin env tenantID now c (aw_db w) = Inr q'"
  have "find_authority (pa_ID a) db = Some a"
    if "find_authority (pa_ID a) (aw_db w) = Some a" "pa_VerificationID a = pc_VerificationID c" for a
    by (rule find [OF that(1)]) (use that(2) c(1) free in auto)
  then show "validateProcessingWithin env tenantID now c db = Inr q'"
    by (intro validate_frame [OF c(2)]) (simp_all add: moved(3) put_authority_def latest_response_def)
qed

lemma inv_declare:
  assumes inv: "authority_inv env tenantID w" and free: "unlocked w (pa_VerificationID r)"
    and step: "store_Declare tenantID managed r (aw_db w) = Inr (r', db)"
  shows "authority_inv env tenantID (w\<lparr>aw_db := db\<rparr>)"
proof (rule inv_db_step [OF inv])
  show "authority_wf db" using inv by (auto simp: authority_inv_def intro: wf_declare [OF _ step])
  from step obtain s where db: "db = aw_db w\<lparr>adb_authorities := adb_authorities (aw_db w) @ [authority_row r],
       adb_sessions := (adb_sessions (aw_db w))(pa_VerificationID r := Some (s\<lparr>ss_SubjectID := Some (pa_SubjectID r),
         ss_AuthorityID := Some (pa_ID r), ss_NoticeID := Some (pa_NoticeID r)\<rparr>)),
       adb_version := (adb_version (aw_db w))(pa_VerificationID r := adb_version (aw_db w) (pa_VerificationID r) + 1)\<rparr>"
    by (rule store_Declare_cases)
  show "fenced_since (aw_db w) db" by (simp add: fenced_since_def db find_declared only_refused_same)
  show "adb_version db v = adb_version (aw_db w) v" if "\<not> unlocked w v" for v using free that by (auto simp: db)
  fix c q' now assume c: "\<not> unlocked w (pc_VerificationID c)" "validateProcessingWithin env tenantID now c (aw_db w) = Inr q'"
  have "pc_VerificationID c \<noteq> pa_VerificationID r" using c(1) free by auto
  then show "validateProcessingWithin env tenantID now c db = Inr q'"
    by (intro validate_frame [OF c(2)]) (simp_all add: db find_declared, simp_all add: latest_response_def)
qed

lemma inv_notice:
  assumes inv: "authority_inv env tenantID w" and step: "CreateNotice env tenantID n (aw_db w) = Inr (n', db)"
  shows "authority_inv env tenantID (w\<lparr>aw_db := db\<rparr>)"
proof (rule inv_db_step [OF inv])
  note db = CreateNotice_cases [OF step]
  show "authority_wf db" using inv db by (simp add: authority_inv_def authority_wf_def authority_keys_def)
  show "fenced_since (aw_db w) db" using db by (simp add: fenced_since_def find_authority_def only_refused_same)
  show "adb_version db v = adb_version (aw_db w) v" for v using db by simp
  fix c q' now assume c: "validateProcessingWithin env tenantID now c (aw_db w) = Inr q'"
  show "validateProcessingWithin env tenantID now c db = Inr q'"
    by (rule validate_frame [OF c]) (use db in \<open>auto simp: tables\<close>)
qed

lemma inv_others:
  assumes inv: "authority_inv env tenantID w" and step: "others_change w db"
  shows "authority_inv env tenantID (w\<lparr>aw_db := db\<rparr>)"
proof (rule inv_db_step [OF inv])
  show "authority_wf db" by (rule wf_others [OF _ step]) (use inv in \<open>simp add: authority_inv_def\<close>)
  show "fenced_since (aw_db w) db" using step by (simp add: fenced_since_def others_change_def find_authority_def only_refused_same)
  show "adb_version db v = adb_version (aw_db w) v" if "\<not> unlocked w v" for v using step that by (simp add: others_change_def)
  fix c q' now assume c: "\<not> unlocked w (pc_VerificationID c)" "validateProcessingWithin env tenantID now c (aw_db w) = Inr q'"
  show "validateProcessingWithin env tenantID now c db = Inr q'"
    by (rule validate_frame [OF c(2)]) (use step c(1) in \<open>simp_all add: others_change_def tables\<close>)
qed

lemma authority_inv_step:
  assumes "authority_step env tenantID w w'" "authority_inv env tenantID w"
  shows "authority_inv env tenantID w'"
  using assms
proof (induction rule: authority_step.induct)
  case (responds w q now q' db')
  from responds(2) obtain row where db': "db' = fence_session (sr_VerificationID q) (aw_db w\<lparr>adb_responses := adb_responses (aw_db w) @ [q\<lparr>sr_RecordedAt := pg_time (sr_RecordedAt q)\<rparr>]\<rparr>)"
    and "lockAuthoritySession (sr_VerificationID q) (sr_AuthorityID q) (aw_db w) = None" by (rule AppendResponse_cases)
  from this(2) have "(sr_AuthorityID q, sr_VerificationID q) \<in> set (authority_keys (aw_db w))"
    using responds(3) by (auto simp: authority_inv_def authority_wf_def locked_session)
  then show ?case using inv_add_response [OF responds(3,1)] db' by blast
next
  case (revokes w q original q' db')
  from revokes(2) obtain o' where db': "db' = aw_db w\<lparr>adb_responses := adb_responses (aw_db w) @ [q\<lparr>sr_RecordedAt := pg_time (sr_RecordedAt q)\<rparr>]\<rparr>"
    and o': "o' \<in> set (adb_responses (aw_db w))" "sr_AuthorityID o' = sr_AuthorityID q" "sr_VerificationID o' = sr_VerificationID q" "sr_Action q = ResponseRefuse"
    by (rule RevokeConsent_cases)
  have "(sr_AuthorityID o', sr_VerificationID o') \<in> set (authority_keys (aw_db w))"
    using revokes(3) o'(1) by (simp add: authority_inv_def authority_wf_def)
  then show ?case using inv_add_response [OF revokes(3,1)] db' o' by simp
next
  case (rolls_back w t)
  then show ?case using notin_set_remove1 [of _ "aw_pending w" t] unfolding authority_inv_def by (simp, metis)
next
  case (commits t w)
  then show ?case using notin_set_remove1 [of _ "aw_pending w" t] unfolding authority_inv_def by (simp, metis)
next
  case (begins w)
  then show ?case by (simp add: authority_inv_def fenced_since_refl)
next
  case (validates w c now q)
  then show ?case by (simp add: authority_inv_def tx_ok_def fenced_since_refl)
next
  case (validates_snapshot w c d now q)
  then show ?case by (simp add: authority_inv_def tx_ok_def)
qed (rule inv_notice inv_declare inv_transition inv_others; assumption)+

lemma authority_inv_run: "(authority_step env tenantID)\<^sup>*\<^sup>* w w' \<Longrightarrow> authority_inv env tenantID w \<Longrightarrow> authority_inv env tenantID w'"
  by (induction rule: rtranclp_induct) (auto intro: authority_inv_step)

lemma authority_inv_start: "authority_wf db \<Longrightarrow> authority_inv env tenantID (authority_start db)"
  by (simp add: authority_inv_def authority_start_def)

section \<open>What a validated effect rests on\<close>

lemma Evaluate_None:
  assumes "Evaluate r n (Some q) g now = None"
  shows "pa_State r = AuthorityActive \<and> t_ns (pa_ValidFrom r) \<le> t_ns now \<and> t_ns now < t_ns (pa_ExpiresAt r) \<and> gq_Purpose g \<in> set (pa_RequirementPurposes r)
    \<and> gq_EvidenceType g \<in> set (pa_EvidenceTypes r) \<and> gq_Region g \<in> set (pa_Regions r) \<and> sr_Action q \<noteq> ResponseRefuse
    \<and> (pa_IsConsentRequired r \<longrightarrow> sr_Action q = ResponseConsent)"
  using assms by (auto simp: Evaluate_def Before_def split: if_splits)

text \<open>What it means that a declaration and a response grant processing at a time, and that the tables do.\<close>

definition authorises :: "AuthorityRecord \<Rightarrow> ResponseRecord \<Rightarrow> int \<Rightarrow> bool" where
  "authorises r q t \<longleftrightarrow> pa_State r = AuthorityActive \<and> t_ns (pa_ValidFrom r) \<le> t \<and> t < t_ns (pa_ExpiresAt r)
     \<and> sr_Action q \<noteq> ResponseRefuse \<and> (pa_IsConsentRequired r \<longrightarrow> sr_Action q = ResponseConsent)"

definition permitted :: "authority_db \<Rightarrow> string \<Rightarrow> int \<Rightarrow> bool" where
  "permitted db v t \<longleftrightarrow> (\<exists>r\<in>set (adb_authorities db). \<exists>q. pa_VerificationID r = v \<and> latest_response (pa_ID r) db = Some q \<and> authorises r q t)"

definition in_scope :: "AuthorityRecord \<Rightarrow> accepted_binding \<Rightarrow> bool" where
  "in_scope r b \<longleftrightarrow> ub_AuthorityID b = pa_ID r \<and> ub_SubjectID b = pa_SubjectID r \<and> ub_Purpose b \<in> set (pa_RequirementPurposes r)
     \<and> ub_EvidenceType b \<in> set (pa_EvidenceTypes r) \<and> ub_Region b \<in> set (pa_Regions r)"

lemma binding_ok_scope:
  assumes "binding_ok tenantID v d n q occurred observed b" "authority_restore row = Inr d"
  shows "in_scope row b \<and> authorises row q (t_ns observed)"
  using assms(1) authority_restore_fields [OF assms(2)] unfolding binding_ok_def Let_def in_scope_def authorises_def
  by (auto dest!: Evaluate_None)

lemma validate_scope:
  assumes "validateProcessingWithin env tenantID now c db = Inr q"
  obtains row where "find_authority (pa_ID row) db = Some row" "pa_VerificationID row = pc_VerificationID c" "authorises row q (t_ns now)"
    "list_all (in_scope row) (adb_accepted db (pc_VerificationID c))" "latest_response (pa_ID row) db = Some q"
proof -
  from assms obtain A row d n response where a: "find_authority A db = Some row" "pa_VerificationID row = pc_VerificationID c"
      "authority_restore row = Inr d" "latest_response (pa_ID row) db = Some q" "NewResponse q = Inr response"
      "validateAcceptedProcessing tenantID (pc_VerificationID c) d n response (pc_OccurredAt c) (to_UTC now) db"
    by (auto simp: validateProcessingWithin_def Let_def chain_iff split: option.splits)
  have ok: "in_scope row b \<and> authorises row q (t_ns now)" if "b \<in> set (adb_accepted db (pc_VerificationID c))" for b
    using a(6) that binding_ok_scope [OF _ a(3)] NewResponse_fields [OF a(5)]
    unfolding validateAcceptedProcessing_def list_all_iff authorises_def by fastforce
  moreover obtain b where "b \<in> set (adb_accepted db (pc_VerificationID c))"
    using a(6) last_in_set unfolding validateAcceptedProcessing_def by blast
  ultimately have g: "authorises row q (t_ns now)" by blast
  have "find_authority (pa_ID row) db = Some row" using find_authority_mem [OF a(1)] a(1) by simp
  then show thesis by (rule that [OF _ a(2) g _ a(4)]) (simp add: list_all_iff ok)
qed

lemma validate_permitted:
  "validateProcessingWithin env tenantID now c db = Inr q \<Longrightarrow> permitted db (pc_VerificationID c) (t_ns now)"
  by (erule validate_scope) (auto simp: permitted_def dest: find_authority_mem)

text \<open>Accepted evidence is in scope when it is accepted: its binding is one that the validation of processing will find in order.\<close>

definition accepted_as :: "UploadRecord \<Rightarrow> go_time \<Rightarrow> accepted_binding" where
  "accepted_as upload t = \<lparr>ub_AuthorityID = up_AuthorityID upload, ub_ResponseID = up_ResponseID upload, ub_SubjectID = up_SubjectID upload,
     ub_Purpose = up_Purpose upload, ub_EvidenceType = up_EvidenceType upload, ub_Region = up_Region upload, ub_AcceptedAt = Some t, ub_RetainedFor = []\<rparr>"

lemma acceptance_in_scope:
  assumes "acceptance_authority env tenantID upload occurredAt now db = Inr q"
  obtains row where "find_authority (up_AuthorityID upload) db = Some row" "latest_response (pa_ID row) db = Some q" "authorises row q (t_ns now)"
    "in_scope row (accepted_as upload t)"
proof -
  from assms obtain row d n response g where a: "find_authority (up_AuthorityID upload) db = Some row" "authority_restore row = Inr d"
      "latest_response (pa_ID row) db = Some q" "NewResponse q = Inr response" "Evaluate d n (Some response) g (to_UTC now) = None"
      "gq_SubjectID g = up_SubjectID upload" "gq_Purpose g = up_Purpose upload" "gq_EvidenceType g = up_EvidenceType upload" "gq_Region g = up_Region upload"
    by (auto simp: acceptance_authority_def Let_def chain_iff split: option.splits)
  note f = Evaluate_None [OF a(5)] authority_restore_fields [OF a(2)] NewResponse_fields [OF a(4)] find_authority_mem [OF a(1)]
  have "up_SubjectID upload = pa_SubjectID row" using a(5,6) f(2) by (auto simp: Evaluate_def split: if_splits)
  then show thesis using that [OF a(1,3)] f a(7-9) by (simp add: authorises_def in_scope_def accepted_as_def)
qed

text \<open>What holds when a validated transaction commits.\<close>

lemma tx_ok_commit:
  assumes "tx_ok env tenantID t db"
  obtains row where "row \<in> set (adb_authorities db)" "pa_VerificationID row = pc_VerificationID (tx_Call t)" "authorises row (tx_Response t) (t_ns (tx_Now t))"
    "list_all (in_scope row) (adb_accepted (tx_Read t) (pc_VerificationID (tx_Call t)))" "latest_response (pa_ID row) (tx_Read t) = Some (tx_Response t)"
    "only_refused (pa_ID row) (tx_Read t) db"
proof -
  have v: "validateProcessingWithin env tenantID (tx_Now t) (tx_Call t) (tx_Read t) = Inr (tx_Response t)" "fenced_since (tx_Read t) db"
    "adb_version (tx_Read t) (pc_VerificationID (tx_Call t)) = adb_version db (pc_VerificationID (tx_Call t))" using assms by (simp_all add: tx_ok_def)
  from v(1) obtain row where row: "find_authority (pa_ID row) (tx_Read t) = Some row" "pa_VerificationID row = pc_VerificationID (tx_Call t)"
    "authorises row (tx_Response t) (t_ns (tx_Now t))" "list_all (in_scope row) (adb_accepted (tx_Read t) (pc_VerificationID (tx_Call t)))"
    "latest_response (pa_ID row) (tx_Read t) = Some (tx_Response t)" by (rule validate_scope)
  have "find_authority (pa_ID row) db = Some row" "only_refused (pa_ID row) (tx_Read t) db" using v(2,3) row(1,2) unfolding fenced_since_def by blast+
  then show thesis using that [OF _ row(2-5)] find_authority_mem by blast
qed

lemma AuthorizeEvidence_permitted:
  assumes "AuthorizeEvidence env tenantID blocked now db request = Inr d"
  shows "permitted db (ra_VerificationID request) (t_ns now)"
proof -
  from assms obtain sn q g where a: "CaptureSnapshot env tenantID (ra_VerificationID request) db = Inr sn" "sn_Response sn = Some q"
      "Evaluate (sn_Authority sn) (sn_Notice sn) (Some q) g now = None"
    by (auto simp: AuthorizeEvidence_def chain_iff split: option.splits)
  from a(1,2) obtain row d' q' where b: "find_by_verification (ra_VerificationID request) db = Some row" "authority_restore row = Inr d'"
      "sn_Authority sn = d'" "latest_response (pa_ID d') db = Some q'" "NewResponse q' = Inr q"
    by (cases "adb_recovered db (ra_VerificationID request)") (auto simp: CaptureSnapshot_def chain_iff split: option.split_asm if_split_asm)
  have "sr_Action q' = sr_Action q" using NewResponse_fields [OF b(5)] by simp
  then show ?thesis
    using Evaluate_None [OF a(3)] b(3,4) authority_restore_fields [OF b(2)] find_by_verification_mem [OF b(1)] unfolding permitted_def authorises_def by metis
qed

lemma ended_not_permitted:
  "authority_wf db \<Longrightarrow> r \<in> set (adb_authorities db) \<Longrightarrow> pa_State r \<noteq> AuthorityActive \<Longrightarrow> \<not> permitted db (pa_VerificationID r) t"
  unfolding permitted_def authorises_def by (metis wf_same_verification)

lemma refused_not_permitted:
  assumes "authority_wf db" "(A, v) \<in> set (authority_keys db)" "latest_response A db = Some q" "sr_Action q = ResponseRefuse"
  shows "\<not> permitted db v t"
proof -
  obtain r where r: "r \<in> set (adb_authorities db)" "pa_ID r = A" "pa_VerificationID r = v" using assms(2) by (auto simp: authority_keys_mem)
  have "q' = q" if "a \<in> set (adb_authorities db)" "pa_VerificationID a = v" "latest_response (pa_ID a) db = Some q'" for a q'
    using wf_same_verification [OF assms(1) that(1) r(1)] that r assms(3) by simp
  then show ?thesis using assms(4) unfolding permitted_def authorises_def by blast
qed

lemma ended_kept_step:
  assumes "authority_step env tenantID w w'" "authority_wf (aw_db w)" "r \<in> set (adb_authorities (aw_db w))" "pa_State r \<noteq> AuthorityActive"
  shows "r \<in> set (adb_authorities (aw_db w'))"
  using assms
proof (induction rule: authority_step.induct)
  case (transitions w x expected state now x' db')
  from transitions(2) obtain row moved where row: "find_authority (pa_ID x) (aw_db w) = Some row" "pa_State row = AuthorityActive"
    "pa_ID moved = pa_ID row" "pa_ID row = pa_ID x" "db' = put_authority moved (fence_session (pa_VerificationID x) (aw_db w))" by (rule service_Transition_cases)
  have "pa_ID r \<noteq> pa_ID moved"
    using wf_same_id [OF transitions(3,4)] find_authority_mem [OF row(1)] row(2,3) transitions(5) by metis
  then show ?case using transitions(4) by (auto simp: row(5) put_authority_def intro: rev_image_eqI)
next
  case (declares w x managed x' db')
  from declares(2) show ?case by (rule store_Declare_cases) (use declares(4) in simp)
next
  case (responds w q now q' db')
  from responds(2) show ?case by (rule AppendResponse_cases) (use responds(4) in simp)
next
  case (revokes w q original q' db')
  from revokes(2) show ?case by (rule RevokeConsent_cases) (use revokes(4) in simp)
next
  case (notices n w n' db')
  then show ?case using CreateNotice_cases [OF notices(1)] by simp
qed (simp_all add: others_change_def)

lemma ended_kept_run:
  assumes "(authority_step env tenantID)\<^sup>*\<^sup>* w w'" "authority_inv env tenantID w" "r \<in> set (adb_authorities (aw_db w))" "pa_State r \<noteq> AuthorityActive"
  shows "r \<in> set (adb_authorities (aw_db w')) \<and> authority_inv env tenantID w'"
  using assms
proof (induction rule: rtranclp_induct)
  case (step y z)
  then have y: "r \<in> set (adb_authorities (aw_db y))" "authority_inv env tenantID y" by simp_all
  then have "authority_wf (aw_db y)" by (simp add: authority_inv_def)
  then show ?case using ended_kept_step [OF step(2) _ y(1) assms(4)] authority_inv_step [OF step(2) y(2)] by blast
qed simp

lemma ended_no_effect_step:
  assumes "authority_step env tenantID w w'" "authority_inv env tenantID w" "r \<in> set (adb_authorities (aw_db w))" "pa_State r \<noteq> AuthorityActive"
    and "(t, db) \<in> set (aw_effects w')" "pc_VerificationID (tx_Call t) = pa_VerificationID r"
  shows "(t, db) \<in> set (aw_effects w)"
  using assms
proof (induction rule: authority_step.induct)
  case (commits t' w)
  have ok: "tx_ok env tenantID t' (aw_db w)" "authority_wf (aw_db w)" using commits(1,2) by (simp_all add: authority_inv_def)
  have "pc_VerificationID (tx_Call t') \<noteq> pa_VerificationID r"
  proof -
    from ok(1) obtain row where "row \<in> set (adb_authorities (aw_db w))" "pa_VerificationID row = pc_VerificationID (tx_Call t')"
      "authorises row (tx_Response t') (t_ns (tx_Now t'))" by (rule tx_ok_commit)
    then show ?thesis using wf_same_verification [OF ok(2) commits(3), of row] commits(4) by (metis authorises_def)
  qed
  then show ?case using commits(5,6) by auto
qed simp_all

section \<open>Reads of evidence under the authority\<close>

text \<open>
  The controlled read asks the authority between its claim and its object read: a process becomes permitted on a decision of the
  tables of that moment. The reads and the authority's transactions take their steps independently.
\<close>

definition consulted :: "authority_env \<Rightarrow> string \<Rightarrow> authority_db \<Rightarrow> read_state \<Rightarrow> read_state \<Rightarrow> bool" where
  "consulted env tenantID db s s' \<longleftrightarrow> (\<forall>r a d. Permitted r a d \<in> set (rd_procs s') \<longrightarrow> Permitted r a d \<in> set (rd_procs s)
     \<or> (\<exists>blocked now. AuthorizeEvidence env tenantID blocked now db
            (read_authorization tenantID a (gr_Purpose (re_grant r)) (gr_RecipientReference (re_grant r))) = Inr d))"

inductive governed_step :: "authority_env \<Rightarrow> evidence_env \<Rightarrow> string \<Rightarrow> authority_world \<times> read_state \<Rightarrow> authority_world \<times> read_state \<Rightarrow> bool"
  for env eenv tenantID where
  authority: "authority_step env tenantID w w' \<Longrightarrow> governed_step env eenv tenantID (w, s) (w', s)"
| reading: "read_step tenantID eenv s s' \<Longrightarrow> consulted env tenantID (aw_db w) s s' \<Longrightarrow> governed_step env eenv tenantID (w, s) (w, s')"

definition reads_of :: "string \<Rightarrow> read_state \<Rightarrow> (Redemption \<times> evidence_record \<times> AuthorizationDecision) set" where
  "reads_of v s = {(r, a, d). Permitted r a d \<in> set (rd_procs s) \<and> ea_VerificationID a = v}"

definition releases_of :: "string \<Rightarrow> read_state \<Rightarrow> (string \<times> evidence_record \<times> AuthorizationDecision \<times> string) set" where
  "releases_of v s = {(i, a, d, plain). rd_released s i = Some (a, d, plain) \<and> ea_VerificationID a = v}"

lemma consulted_refused:
  assumes "consulted env tenantID db s s'" "\<And>t. \<not> permitted db v t"
  shows "reads_of v s' \<subseteq> reads_of v s"
proof -
  have "Permitted r a d \<in> set (rd_procs s)" if p: "Permitted r a d \<in> set (rd_procs s')" "ea_VerificationID a = v" for r a d
  proof (rule ccontr)
    assume "Permitted r a d \<notin> set (rd_procs s)"
    then obtain blocked now where "AuthorizeEvidence env tenantID blocked now db
        (read_authorization tenantID a (gr_Purpose (re_grant r)) (gr_RecipientReference (re_grant r))) = Inr d"
      using assms(1) p(1) unfolding consulted_def by blast
    from AuthorizeEvidence_permitted [OF this] show False using assms(2) p(2) by (simp add: read_authorization_def)
  qed
  then show ?thesis by (auto simp: reads_of_def)
qed

lemma release_needs_permit:
  assumes "read_step tenantID eenv s s'" "reads_of v s = {}"
  shows "releases_of v s' = releases_of v s"
  using assms
proof (induction rule: read_step.induct)
  case (delivers r a d s opened plain)
  then have "ea_VerificationID a \<noteq> v" by (auto simp: reads_of_def)
  then show ?case using delivers(2) by (auto simp: releases_of_def split: if_splits)
qed (simp_all add: releases_of_def)

lemma governed_run:
  assumes "(governed_step env eenv tenantID)\<^sup>*\<^sup>* x y" "authority_inv env tenantID (fst x)" "r \<in> set (adb_authorities (aw_db (fst x)))"
    "pa_State r \<noteq> AuthorityActive" "reads_of (pa_VerificationID r) (snd x) = {}"
  shows "authority_inv env tenantID (fst y) \<and> r \<in> set (adb_authorities (aw_db (fst y))) \<and> reads_of (pa_VerificationID r) (snd y) = {}
    \<and> releases_of (pa_VerificationID r) (snd y) = releases_of (pa_VerificationID r) (snd x)"
  using assms
proof (induction rule: rtranclp_induct)
  case (step y z)
  then have IH: "authority_inv env tenantID (fst y)" "r \<in> set (adb_authorities (aw_db (fst y)))" "reads_of (pa_VerificationID r) (snd y) = {}"
    "releases_of (pa_VerificationID r) (snd y) = releases_of (pa_VerificationID r) (snd x)" by simp_all
  have wf: "authority_wf (aw_db (fst y))" using IH(1) by (simp add: authority_inv_def)
  from step(2) show ?case
  proof cases
    case (authority w w' s)
    then show ?thesis using IH authority_inv_step [OF authority(3)] ended_kept_step [OF authority(3)] wf step(6) by simp
  next
    case (reading s s' w)
    have "reads_of (pa_VerificationID r) s' = {}"
      using consulted_refused [OF reading(4) ended_not_permitted] wf IH(2,3) step(6) reading(1) by auto
    then show ?thesis using IH release_needs_permit [OF reading(3)] reading(1,2) by simp
  qed
qed simp

section \<open>A sample\<close>

definition sample_authority_env :: authority_env where
  "sample_authority_env = \<lparr>ae_json = (\<lambda>_. Some ''n''), ae_sha = (\<lambda>_. ''d'')\<rparr>"

definition sample_authority_notice :: NoticeRecord where
  "sample_authority_notice = \<lparr>nt_ID = ''nt'', nt_TenantID = ''t'', nt_Key = ''k.n'', nt_Locale = ''en'', nt_Controller = ''c'', nt_Recipient = ''r'',
     nt_Copy = \<lparr>nc_Title = ''a'', nc_Summary = ''b'', nc_Purpose = ''c'', nc_Consequences = ''d''\<rparr>, nt_EffectiveAt = utc_at 1000, nt_CreatedAt = utc_at 1000,
     nt_CreatedBy = ''k'', nt_Digest = ''sha256:'' @ hex_encode ''d''\<rparr>"

definition sample_declaration :: AuthorityRecord where
  "sample_declaration = \<lparr>pa_ID = ''au'', pa_TenantID = ''t'', pa_SubjectID = ''s'', pa_VerificationID = ''v'', pa_NoticeID = ''nt'', pa_Category = ''c.a'',
     pa_Purpose = ''p.u'', pa_Jurisdiction = ''j.u'', pa_PolicyPack = ''p.p'', pa_IsConsentRequired = True, pa_RequirementPurposes = [''p.u''],
     pa_EvidenceTypes = [''e.t''], pa_RecipientReference = ''r.r'', pa_RecipientDisplayName = ''R'', pa_Regions = [''r.g''], pa_RetentionReference = ''r.t'',
     pa_State = AuthorityActive, pa_Version = 1, pa_ValidFrom = utc_at 2000, pa_ExpiresAt = utc_at 90000, pa_CreatedAt = utc_at 2000,
     pa_UpdatedAt = utc_at 2000, pa_CreatedBy = ''k'', pa_WorkloadID = [], pa_RestrictedAt = None, pa_WithdrawnAt = None, pa_SupersededAt = None\<rparr>"

definition sample_consent :: "string \<Rightarrow> int \<Rightarrow> ResponseRecord" where
  "sample_consent i t = \<lparr>sr_ID = i, sr_TenantID = ''t'', sr_AuthorityID = ''au'', sr_NoticeID = ''nt'', sr_SubjectID = ''s'', sr_VerificationID = ''v'',
     sr_CaptureTokenID = ''ct'', sr_Action = ResponseConsent, sr_Locale = ''en'', sr_RenderedExperienceVersion = [], sr_RecordedAt = utc_at t\<rparr>"

definition sample_authority_db :: "ResponseRecord list \<Rightarrow> authority_db" where
  "sample_authority_db responses = \<lparr>adb_notices = [''nt'' \<mapsto> sample_authority_notice], adb_authorities = [sample_declaration], adb_responses = responses,
     adb_sessions = [''v'' \<mapsto> \<lparr>ss_State = SessionStateProcessing, ss_Requirements = [(''face'', ''p.u'', ''e.t'')], ss_ExpiresAt = utc_at 80000,
       ss_SubjectID = Some ''s'', ss_AuthorityID = Some ''au'', ss_NoticeID = Some ''nt'', ss_CaptureCompletedAt = Some (utc_at 5000)\<rparr>],
     adb_tokens = Map.empty,
     adb_accepted = (\<lambda>v. if v = ''v'' then [\<lparr>ub_AuthorityID = ''au'', ub_ResponseID = ''r1'', ub_SubjectID = ''s'', ub_Purpose = ''p.u'', ub_EvidenceType = ''e.t'',
       ub_Region = ''r.g'', ub_AcceptedAt = Some (utc_at 4000), ub_RetainedFor = []\<rparr>] else []),
     adb_recovered = Map.empty, adb_version = (\<lambda>_. 0)\<rparr>"

definition sample_processing :: processing_call where
  "sample_processing = \<lparr>pc_VerificationID = ''v'', pc_OccurredAt = utc_at 6000, pc_ExpectedState = SessionStateProcessing, pc_Reconsideration = False,
     pc_AllowExternalWait = False\<rparr>"


lemma sample_wf: "list_all (\<lambda>q. sr_AuthorityID q = ''au'' \<and> sr_VerificationID q = ''v'') rs \<Longrightarrow> authority_wf (sample_authority_db rs)"
  by (simp add: authority_wf_def authority_keys_def sample_authority_db_def sample_declaration_def list_all_iff)

lemma sample_validated:
  "validateProcessingWithin sample_authority_env ''t'' (utc_at 7000) sample_processing (sample_authority_db [sample_consent ''r1'' 3000]) = Inr (sample_consent ''r1'' 3000)"
  by code_simp

lemma ended_not_transitioned:
  assumes "pa_State r \<noteq> AuthorityActive"
  shows "\<exists>e. service_Transition tenantID expected state now r db = Inl e"
proof (cases "service_Transition tenantID expected state now r db")
  case (Inr x)
  then obtain d m where d: "authority_restore r = Inr d" "transition_command (expected, state, now) d = Inr m"
    by (auto simp: service_Transition_def chain_iff simp del: transition_command.simps)
  have "pa_State d \<noteq> AuthorityActive" using authority_restore_fields [OF d(1)] assms by simp
  then have "m = d" by (rule authority_row_flow.final_absorbing [OF _ d(2)])
  then show ?thesis using authority_row_flow.step_version [OF d(2)] i64_succ_neq [of "pa_Version d"] by simp
qed simp

lemma latest_after_add:
  "sr_AuthorityID q = A \<Longrightarrow> latest_response A (db\<lparr>adb_responses := adb_responses db @ [q\<lparr>sr_RecordedAt := t\<rparr>]\<rparr>) =
    (case latest_response A db of None \<Rightarrow> Some (q\<lparr>sr_RecordedAt := t\<rparr>)
     | Some p \<Rightarrow> if response_after p (q\<lparr>sr_RecordedAt := t\<rparr>) then Some p else Some (q\<lparr>sr_RecordedAt := t\<rparr>))"
  by (simp add: latest_response_def newest_snoc)


lemma only_refused_latest:
  assumes "only_refused A d db" "latest_response A d = Some q"
  shows "latest_response A db = Some q \<or> (\<exists>p\<in>set (answers_of A db). sr_Action p = ResponseRefuse)"
proof -
  obtain rs where rs: "answers_of A db = answers_of A d @ rs" "list_all (\<lambda>q. sr_Action q = ResponseRefuse) rs" using assms(1) by (auto simp: only_refused_def)
  show ?thesis
  proof (cases rs)
    case Nil
    then show ?thesis using rs(1) assms(2) by (simp add: latest_response_def answers_of_def)
  qed (use rs in auto)
qed

text \<open>A revocation that is not older than the latest response, in the tables it leaves.\<close>

lemma revoked_latest:
  assumes "RevokeConsent tenantID original q db = Inr (q', db')"
    and "\<forall>p. latest_response (sr_AuthorityID q) db = Some p \<longrightarrow> \<not> response_after p (q\<lparr>sr_RecordedAt := pg_time (sr_RecordedAt q)\<rparr>)"
  shows "latest_response (sr_AuthorityID q) db' = Some (q\<lparr>sr_RecordedAt := pg_time (sr_RecordedAt q)\<rparr>)"
proof -
  from assms(1) have "db' = db\<lparr>adb_responses := adb_responses db @ [q\<lparr>sr_RecordedAt := pg_time (sr_RecordedAt q)\<rparr>]\<rparr>" by (rule RevokeConsent_cases)
  then show ?thesis using assms(2) by (simp add: latest_after_add split: option.splits)
qed

lemma revoked_not_permitted:
  assumes wf: "authority_wf db" and revoked: "RevokeConsent tenantID original q db = Inr (q', db')"
    and later: "\<forall>p. latest_response (sr_AuthorityID q) db = Some p \<longrightarrow> \<not> response_after p (q\<lparr>sr_RecordedAt := pg_time (sr_RecordedAt q)\<rparr>)"
  shows "\<not> permitted db' (sr_VerificationID q) t"
proof -
  from revoked obtain o' where db': "db' = db\<lparr>adb_responses := adb_responses db @ [q\<lparr>sr_RecordedAt := pg_time (sr_RecordedAt q)\<rparr>]\<rparr>"
    and o': "o' \<in> set (adb_responses db)" "sr_AuthorityID o' = sr_AuthorityID q" "sr_VerificationID o' = sr_VerificationID q" and refuse: "sr_Action q = ResponseRefuse"
    by (rule RevokeConsent_cases)
  have key: "(sr_AuthorityID q, sr_VerificationID q) \<in> set (authority_keys db)" using wf o' by (force simp: authority_wf_def)
  show ?thesis
    by (rule refused_not_permitted [OF _ _ revoked_latest [OF revoked later]])
      (use wf_add_response [OF wf key] key refuse in \<open>simp_all add: db' authority_keys_def\<close>)
qed

section \<open>Properties\<close>

text \<open>
  C11. What a committed effect of a processing transaction rests on. In the tables of its commit the declaration of its verification is active and
  valid at the observed time; the response that was validated is no refusal and is a consent where the
  declaration requires one; every accepted evidence that was validated lies within the declared purposes, types and regions; and unless a transaction that validated a
  snapshot was overtaken by a refusal, the response is still the latest. A transaction that validated the current tables is permitted by the
  tables of its commit, with all the evidence accepted by then.
\<close>

theorem effects_authorised:
  assumes "authority_wf db" "(authority_step env tenantID)\<^sup>*\<^sup>* (authority_start db) w" "(t, db') \<in> set (aw_effects w)"
  shows "\<exists>r\<in>set (adb_authorities db'). pa_VerificationID r = pc_VerificationID (tx_Call t) \<and> authorises r (tx_Response t) (t_ns (tx_Now t))
    \<and> list_all (in_scope r) (adb_accepted (tx_Read t) (pc_VerificationID (tx_Call t))) \<and> latest_response (pa_ID r) (tx_Read t) = Some (tx_Response t)
    \<and> (latest_response (pa_ID r) db' = Some (tx_Response t) \<or> tx_Snapshot t \<and> (\<exists>p\<in>set (answers_of (pa_ID r) db'). sr_Action p = ResponseRefuse))
    \<and> (tx_Snapshot t \<or> permitted db' (pc_VerificationID (tx_Call t)) (t_ns (tx_Now t))
         \<and> list_all (in_scope r) (adb_accepted db' (pc_VerificationID (tx_Call t))))"
proof -
  have ok: "tx_ok env tenantID t db'" "authority_wf db'"
    using authority_inv_run [OF assms(2) authority_inv_start [OF assms(1)]] assms(3) by (auto simp: authority_inv_def)
  from ok(1) obtain r where r: "r \<in> set (adb_authorities db')" "pa_VerificationID r = pc_VerificationID (tx_Call t)" "authorises r (tx_Response t) (t_ns (tx_Now t))"
    "list_all (in_scope r) (adb_accepted (tx_Read t) (pc_VerificationID (tx_Call t)))" "latest_response (pa_ID r) (tx_Read t) = Some (tx_Response t)"
    "only_refused (pa_ID r) (tx_Read t) db'" by (rule tx_ok_commit)
  show ?thesis
  proof (cases "tx_Snapshot t")
    case True
    have "latest_response (pa_ID r) db' = Some (tx_Response t) \<or> (\<exists>p\<in>set (answers_of (pa_ID r) db'). sr_Action p = ResponseRefuse)"
      by (rule only_refused_latest [OF r(6,5)])
    then show ?thesis using r True by blast
  next
    case False
    then have v: "validateProcessingWithin env tenantID (tx_Now t) (tx_Call t) db' = Inr (tx_Response t)" using ok(1) by (simp add: tx_ok_def)
    from v obtain r' where r': "find_authority (pa_ID r') db' = Some r'" "pa_VerificationID r' = pc_VerificationID (tx_Call t)"
      "list_all (in_scope r') (adb_accepted db' (pc_VerificationID (tx_Call t)))" "latest_response (pa_ID r') db' = Some (tx_Response t)" by (rule validate_scope)
    have "r' = r" using wf_same_verification [OF ok(2) _ r(1)] find_authority_mem [OF r'(1)] r'(2) r(2) by simp
    then show ?thesis using r r' validate_permitted [OF v] by blast
  qed
qed

lemma sample_effect_run:
  "(authority_step sample_authority_env ''t'')\<^sup>*\<^sup>* (authority_start (sample_authority_db [sample_consent ''r1'' 3000]))
     \<lparr>aw_db = sample_authority_db [sample_consent ''r1'' 3000], aw_snapshots = [], aw_pending = [],
      aw_effects = [(\<lparr>tx_Call = sample_processing, tx_Response = sample_consent ''r1'' 3000, tx_Now = utc_at 7000,
        tx_Read = sample_authority_db [sample_consent ''r1'' 3000], tx_Snapshot = False\<rparr>, sample_authority_db [sample_consent ''r1'' 3000])]\<rparr>"
    (is "?r\<^sup>*\<^sup>* ?s ?t")
proof -
  let ?p = "\<lparr>tx_Call = sample_processing, tx_Response = sample_consent ''r1'' 3000, tx_Now = utc_at 7000,
        tx_Read = sample_authority_db [sample_consent ''r1'' 3000], tx_Snapshot = False\<rparr>"
  let ?u = "?s\<lparr>aw_pending := [?p]\<rparr>"
  have 1: "authority_step sample_authority_env ''t'' ?s ?u"
    using validates [of ?s sample_processing sample_authority_env "''t''"] sample_validated by (simp add: authority_start_def unlocked_def)
  have 2: "authority_step sample_authority_env ''t'' ?u ?t"
    using commits [of ?p ?u] by (simp add: authority_start_def)
  show ?thesis using 1 2 by (meson converse_rtranclp_into_rtranclp rtranclp.rtrancl_refl)
qed

theorem effects_authorised_witness: "permitted (sample_authority_db [sample_consent ''r1'' 3000]) ''v'' 7000"
proof -
  have wf: "authority_wf (sample_authority_db [sample_consent ''r1'' 3000])" by (rule sample_wf) (simp add: sample_consent_def)
  show ?thesis using effects_authorised [OF wf sample_effect_run, of _ "sample_authority_db [sample_consent ''r1'' 3000]"]
    by (simp add: sample_processing_def) blast
qed

text \<open>
  C13. The end of a declaration is final. Once a declaration is restricted, withdrawn or superseded, whatever happens next it stays as it is, no transition of it
  succeeds, processing of its verification is never permitted again, no further effect about the verification commits, not
  even of a transaction that was under way, and the authorisation of every read of its evidence fails.
\<close>

theorem ended_authority_final:
  assumes "authority_wf db" "(authority_step env tenantID)\<^sup>*\<^sup>* (authority_start db) w" "r \<in> set (adb_authorities (aw_db w))" "pa_State r \<noteq> AuthorityActive"
    and "(authority_step env tenantID)\<^sup>*\<^sup>* w w'"
  shows "r \<in> set (adb_authorities (aw_db w'))
    \<and> (\<forall>expected state now. \<exists>e. service_Transition tenantID expected state now r (aw_db w') = Inl e)
    \<and> (\<forall>t. \<not> permitted (aw_db w') (pa_VerificationID r) t)
    \<and> (\<forall>x e. (x, e) \<in> set (aw_effects w') \<longrightarrow> pc_VerificationID (tx_Call x) = pa_VerificationID r \<longrightarrow> (x, e) \<in> set (aw_effects w))
    \<and> (\<forall>blocked now request. ra_VerificationID request = pa_VerificationID r \<longrightarrow>
         (\<exists>e. AuthorizeEvidence env tenantID blocked now (aw_db w') request = Inl e))"
proof -
  have inv: "authority_inv env tenantID w" by (rule authority_inv_run [OF assms(2) authority_inv_start [OF assms(1)]])
  have kept: "r \<in> set (adb_authorities (aw_db w'))" "authority_inv env tenantID w'" using ended_kept_run [OF assms(5) inv assms(3,4)] by auto
  then have never: "\<not> permitted (aw_db w') (pa_VerificationID r) t" for t
    using ended_not_permitted [OF _ kept(1) assms(4)] by (simp add: authority_inv_def)
  have "\<exists>e. AuthorizeEvidence env tenantID blocked now (aw_db w') request = Inl e" if "ra_VerificationID request = pa_VerificationID r" for blocked now request
    using AuthorizeEvidence_permitted [of env tenantID blocked now "aw_db w'" request] never that
    by (cases "AuthorizeEvidence env tenantID blocked now (aw_db w') request") auto
  moreover have "(x, e) \<in> set (aw_effects w)" if "(x, e) \<in> set (aw_effects w')" "pc_VerificationID (tx_Call x) = pa_VerificationID r" for x e
    using assms(5) that(1)
  proof (induction rule: rtranclp_induct)
    case (step y z)
    then show ?case using ended_no_effect_step [OF step(2) _ _ assms(4) step(4) that(2)] ended_kept_run [OF step(1) inv assms(3,4)] by auto
  qed
  ultimately show ?thesis using kept(1) never ended_not_transitioned [OF assms(4)] by blast
qed

definition sample_withdrawn :: AuthorityRecord where
  "sample_withdrawn = sample_declaration\<lparr>pa_State := AuthorityWithdrawn, pa_Version := 2, pa_UpdatedAt := utc_at 8000, pa_WithdrawnAt := Some (utc_at 8000)\<rparr>"

lemma sample_withdrawal:
  obtains q db where "service_Transition ''t'' 1 AuthorityWithdrawn (utc_at 8000) sample_declaration (sample_authority_db [sample_consent ''r1'' 3000]) = Inr (q, db)"
    "adb_authorities db = [sample_withdrawn]"
proof -
  have "(case service_Transition ''t'' 1 AuthorityWithdrawn (utc_at 8000) sample_declaration (sample_authority_db [sample_consent ''r1'' 3000]) of
      Inl _ \<Rightarrow> False
    | Inr (_, db) \<Rightarrow> adb_authorities db =
        [sample_withdrawn])"
    by code_simp
  then show thesis using that by (auto split: sum.splits)
qed

lemma sample_withdrawal_run:
  obtains w where "(authority_step sample_authority_env ''t'')\<^sup>*\<^sup>* (authority_start (sample_authority_db [sample_consent ''r1'' 3000])) w"
    "sample_withdrawn \<in> set (adb_authorities (aw_db w))"
proof -
  let ?s = "authority_start (sample_authority_db [sample_consent ''r1'' 3000])"
  obtain q db where t: "service_Transition ''t'' 1 AuthorityWithdrawn (utc_at 8000) sample_declaration (sample_authority_db [sample_consent ''r1'' 3000]) = Inr (q, db)"
    "adb_authorities db = [sample_withdrawn]"
    by (rule sample_withdrawal)
  have "authority_step sample_authority_env ''t'' ?s (?s\<lparr>aw_db := db\<rparr>)"
    by (rule transitions [where r = sample_declaration]) (use t(1) in \<open>simp_all add: authority_start_def unlocked_def\<close>)
  then have "(authority_step sample_authority_env ''t'')\<^sup>*\<^sup>* ?s (?s\<lparr>aw_db := db\<rparr>)" by (rule r_into_rtranclp)
  then show thesis by (rule that) (simp add: t(2))
qed

theorem ended_authority_final_witness:
  "\<exists>w. (authority_step sample_authority_env ''t'')\<^sup>*\<^sup>* (authority_start (sample_authority_db [sample_consent ''r1'' 3000])) w
     \<and> sample_withdrawn \<in> set (adb_authorities (aw_db w)) \<and> (\<forall>t. \<not> permitted (aw_db w) ''v'' t)"
proof -
  obtain w where w: "(authority_step sample_authority_env ''t'')\<^sup>*\<^sup>* (authority_start (sample_authority_db [sample_consent ''r1'' 3000])) w"
    "sample_withdrawn \<in> set (adb_authorities (aw_db w))" by (rule sample_withdrawal_run)
  have wf: "authority_wf (sample_authority_db [sample_consent ''r1'' 3000])" by (rule sample_wf) (simp add: sample_consent_def)
  have "pa_State sample_withdrawn \<noteq> AuthorityActive" "pa_VerificationID sample_withdrawn = ''v''"
    by (simp_all add: sample_withdrawn_def sample_declaration_def)
  then show ?thesis using ended_authority_final [OF wf w _ rtranclp.rtrancl_refl] w by auto
qed

text \<open>
  The revocation of a consent takes effect when its time is not before that of the latest response: it becomes the latest response, and from the
  same tables processing of the verification is not permitted at any time, no processing transaction about it passes its validation
  and no read of its evidence is authorised.
\<close>

theorem revocation_effective:
  assumes wf: "authority_wf db" and revoked: "RevokeConsent tenantID original q db = Inr (q', db')"
    and later: "\<forall>p. latest_response (sr_AuthorityID q) db = Some p \<longrightarrow> \<not> response_after p (q\<lparr>sr_RecordedAt := pg_time (sr_RecordedAt q)\<rparr>)"
  shows "latest_response (sr_AuthorityID q) db' = Some (q\<lparr>sr_RecordedAt := pg_time (sr_RecordedAt q)\<rparr>)
    \<and> (\<forall>t. \<not> permitted db' (sr_VerificationID q) t)
    \<and> (\<forall>c now. pc_VerificationID c = sr_VerificationID q \<longrightarrow> (\<exists>e. validateProcessingWithin env tenantID now c db' = Inl e))
    \<and> (\<forall>blocked now request. ra_VerificationID request = sr_VerificationID q \<longrightarrow> (\<exists>e. AuthorizeEvidence env tenantID blocked now db' request = Inl e))"
proof -
  note latest = revoked_latest [OF revoked later]
  have never: "\<not> permitted db' (sr_VerificationID q) t" for t by (rule revoked_not_permitted [OF wf revoked later])
  have "\<exists>e. validateProcessingWithin env tenantID now c db' = Inl e" if "pc_VerificationID c = sr_VerificationID q" for c now
    using never that validate_permitted [of env tenantID now c db'] by (cases "validateProcessingWithin env tenantID now c db'") auto
  moreover have "\<exists>e. AuthorizeEvidence env tenantID blocked now db' request = Inl e" if "ra_VerificationID request = sr_VerificationID q" for blocked now request
    using AuthorizeEvidence_permitted [of env tenantID blocked now db' request] never that
    by (cases "AuthorizeEvidence env tenantID blocked now db' request") auto
  ultimately show ?thesis using latest never by blast
qed

definition sample_refusal :: "string \<Rightarrow> int \<Rightarrow> ResponseRecord" where
  "sample_refusal i t = (sample_consent i t)\<lparr>sr_Action := ResponseRefuse\<rparr>"

lemma sample_refusal_later:
  "\<forall>p. latest_response (sr_AuthorityID (sample_refusal ''r2'' 8000)) (sample_authority_db [sample_consent ''r1'' 3000]) = Some p \<longrightarrow>
      \<not> response_after p (sample_refusal ''r2'' 8000\<lparr>sr_RecordedAt := pg_time (sr_RecordedAt (sample_refusal ''r2'' 8000))\<rparr>)"
  by (simp add: latest_response_def sample_authority_db_def sample_consent_def sample_refusal_def response_after_def pg_time_ns)

lemma sample_revocation:
  obtains q' db' where "RevokeConsent ''t'' ''r1'' (sample_refusal ''r2'' 8000) (sample_authority_db [sample_consent ''r1'' 3000]) = Inr (q', db')"
proof -
  have "\<not> isl (RevokeConsent ''t'' ''r1'' (sample_refusal ''r2'' 8000) (sample_authority_db [sample_consent ''r1'' 3000]))" by code_simp
  then show thesis using that by (cases "RevokeConsent ''t'' ''r1'' (sample_refusal ''r2'' 8000) (sample_authority_db [sample_consent ''r1'' 3000])") auto
qed

theorem revocation_effective_witness:
  "\<exists>q' db'. RevokeConsent ''t'' ''r1'' (sample_refusal ''r2'' 8000) (sample_authority_db [sample_consent ''r1'' 3000]) = Inr (q', db')
     \<and> (\<forall>t. \<not> permitted db' ''v'' t)"
proof -
  obtain q' db' where r: "RevokeConsent ''t'' ''r1'' (sample_refusal ''r2'' 8000) (sample_authority_db [sample_consent ''r1'' 3000]) = Inr (q', db')"
    by (rule sample_revocation)
  have wf: "authority_wf (sample_authority_db [sample_consent ''r1'' 3000])" by (rule sample_wf) (simp add: sample_consent_def)
  from revocation_effective [OF wf r sample_refusal_later] r show ?thesis by (auto simp: sample_refusal_def sample_consent_def)
qed



text \<open>
  C38. A revocation can be overtaken. It renews no version of the session row, unlike a transition or a response of the subject, so a processing transaction
  at snapshot isolation that began before the revocation still takes the lock after it, validates the consent of its snapshot and commits: from
  any tables in which a consent can be revoked and a processing call passes, there is a run in which the effect commits after the revocation
  has, in tables that permit no processing of the verification at any time.
\<close>

theorem revocation_overtaken:
  assumes wf: "authority_wf db" and revoked: "RevokeConsent tenantID original q db = Inr (q', db')"
    and later: "\<forall>p. latest_response (sr_AuthorityID q) db = Some p \<longrightarrow> \<not> response_after p (q\<lparr>sr_RecordedAt := pg_time (sr_RecordedAt q)\<rparr>)"
    and valid: "validateProcessingWithin env tenantID now c db = Inr p" "pc_VerificationID c = sr_VerificationID q"
  shows "\<exists>w t. (authority_step env tenantID)\<^sup>*\<^sup>* (authority_start db) w \<and> (authority_step env tenantID)\<^sup>*\<^sup>* (authority_start db\<lparr>aw_db := db', aw_snapshots := [db]\<rparr>) w
    \<and> aw_effects w = [(t, db')] \<and> tx_Call t = c \<and> tx_Response t = p \<and> (\<forall>i. \<not> permitted db' (pc_VerificationID c) i)"
proof -
  let ?t = "\<lparr>tx_Call = c, tx_Response = p, tx_Now = now, tx_Read = db, tx_Snapshot = True\<rparr>"
  let ?s = "authority_start db"
  let ?s1 = "?s\<lparr>aw_snapshots := [db]\<rparr>"
  let ?s2 = "?s\<lparr>aw_db := db', aw_snapshots := [db]\<rparr>"
  let ?s3 = "?s2\<lparr>aw_pending := [?t]\<rparr>"
  let ?s4 = "?s2\<lparr>aw_effects := [(?t, db')]\<rparr>"
  from revoked have db': "db' = db\<lparr>adb_responses := adb_responses db @ [q\<lparr>sr_RecordedAt := pg_time (sr_RecordedAt q)\<rparr>]\<rparr>" by (rule RevokeConsent_cases)
  have 1: "authority_step env tenantID ?s ?s1" using begins [of env tenantID ?s] by (simp add: authority_start_def)
  have 2: "authority_step env tenantID ?s1 ?s2"
    using revokes [of ?s1 q tenantID original q' db' env] revoked by (simp add: authority_start_def unlocked_def)
  have 3: "authority_step env tenantID ?s2 ?s3"
    using validates_snapshot [of ?s2 c db env tenantID now p] valid(1) by (simp add: authority_start_def unlocked_def db')
  have 4: "authority_step env tenantID ?s3 ?s4" using commits [of ?t ?s3 env tenantID] by (simp add: authority_start_def)
  have b: "(authority_step env tenantID)\<^sup>*\<^sup>* ?s2 ?s4" using 3 4 by (meson converse_rtranclp_into_rtranclp rtranclp.rtrancl_refl)
  have a: "(authority_step env tenantID)\<^sup>*\<^sup>* ?s ?s4" using 1 2 b by (meson converse_rtranclp_into_rtranclp)
  have never: "\<forall>i. \<not> permitted db' (pc_VerificationID c) i" using revoked_not_permitted [OF wf revoked later] valid(2) by simp
  have "aw_effects ?s4 = [(?t, db')]" "tx_Call ?t = c" "tx_Response ?t = p" by simp_all
  then show ?thesis using a b never by blast
qed

theorem revocation_overtaken_witness:
  "\<exists>w t db'. (authority_step sample_authority_env ''t'')\<^sup>*\<^sup>* (authority_start (sample_authority_db [sample_consent ''r1'' 3000])) w
     \<and> aw_effects w = [(t, db')] \<and> tx_Call t = sample_processing \<and> (\<forall>i. \<not> permitted db' ''v'' i)"
proof -
  obtain q' db' where r: "RevokeConsent ''t'' ''r1'' (sample_refusal ''r2'' 8000) (sample_authority_db [sample_consent ''r1'' 3000]) = Inr (q', db')"
    by (rule sample_revocation)
  have wf: "authority_wf (sample_authority_db [sample_consent ''r1'' 3000])" by (rule sample_wf) (simp add: sample_consent_def)
  have v: "pc_VerificationID sample_processing = sr_VerificationID (sample_refusal ''r2'' 8000)"
    by (simp add: sample_processing_def sample_refusal_def sample_consent_def)
  have "pc_VerificationID sample_processing = ''v''" by (simp add: sample_processing_def)
  with revocation_overtaken [OF wf r sample_refusal_later sample_validated v] show ?thesis by metis
qed

end
