(* ===== verification/Spec2Isabelle.thy ===== *)
theory Spec2Isabelle
  imports Circuit_Breaker Aggregate_Contracts Identifiers MRZ_Zone Session_Lifecycle Check_Execution
    Policy_Evaluation Audit_Chain Review_Case Privacy_Request Access_Keys Access_Tokens Provider_Routing Idempotency
    Webhook_Delivery Upload_Body Object_Reconciliation Processing_Authority
begin

text \<open>
  A verification library for the Core of Idenqa, an identity-verification service written in Go.

  \<^bold>\<open>The program.\<close> A tenant calls an HTTP API with an API key, opens a verification session, and a capture
  client uploads evidence into it under a capture token. Workers run checks on the evidence, some of them at an external
  provider; observations become facts, facts are resolved by a policy into a decision, unclear ones go to human
  reviewers, and every step is chained into an audit log and announced by webhooks. Processing needs a declared authority and the
  subject's response to its notice. Evidence is encrypted
  under wrapped keys and read only under a processing grant; retention, legal holds and subject requests govern its
  deletion. Nearly every domain package has the same shape: an aggregate with guarded operations (\<^verbatim>\<open>internal/<domain>\<close>), a
  service that calls it, and a PostgreSQL store that locks one row, applies the operation and writes it back.

  \<^bold>\<open>How the code is modelled.\<close> A Go struct is a \<^verbatim>\<open>record\<close> (its fields prefixed by the initials of the type), a string
  type with constants is a \<^verbatim>\<open>datatype\<close> with one constructor for any other text where the code can meet one, an
  operation with its receiver is a function that returns \<^verbatim>\<open>error + value\<close>: every early return is a branch, in the order of
  the source. \<^verbatim>\<open>int64\<close> results wrap (\<open>i64\<close>), \<^verbatim>\<open>time.Time\<close> is its nanosecond count with the zero value and a
  location that \<^verbatim>\<open>==\<close> sees, columns hold microseconds (\<open>pg_time\<close>), strings are byte lists. A transaction is one
  step on the tables it touches; concurrency is a step relation in which any worker may take its next step, stop, or
  lose its commit. Code outside the repository is an argument or a field of an \<^verbatim>\<open>env\<close> record: the ULID codec, JSON and jsonb,
  SHA-256, HMAC and Ed25519, key wrapping, \<^verbatim>\<open>net/url\<close>, \<^verbatim>\<open>mime\<close>, clocks, entropy, object stores and providers. A
  property that needs a fact about one of them (a decoder inverts its encoder, a parsed ULID prints canonically) has it as
  a hypothesis, and its witness gives a concrete function for it.

  \<^bold>\<open>The theories.\<close>
  \<^item> \<open>Go_Prelude\<close>, \<open>Go_Text\<close>: time, wrap-around, guards, sorting and compaction of slices, binary search, UTF-8, splitting,
    \<^verbatim>\<open>unicode.IsSpace\<close> and \<^verbatim>\<open>IsGraphic\<close> over a table of ranges; the collections of simplification rules.
  \<^item> \<open>Aggregate_Contracts\<close>: the interfaces as locales. \<open>optimistic_aggregate\<close>: a command names the version it was computed
    from, and stale commands fail; \<open>phased_workflow\<close>: the state moves along a graph and terminal states absorb;
    \<open>simulation\<close>: a step relation refines another. They are interpreted for sessions, keys, review cases, appeals, deletions,
    privacy requests, assets, uploads, staged-object obligations, processing declarations, the dispatch ledger and webhook deliveries, each in the
    theory of its component; \<open>token_scheme\<close> in \<open>Access_Tokens\<close> is the contract of signer and verifier.
  \<^item> \<open>Identifiers\<close> (\<^verbatim>\<open>platform/id\<close>), \<open>Circuit_Breaker\<close> (\<^verbatim>\<open>platform/breaker\<close>), \<open>Idempotency\<close> (\<^verbatim>\<open>platform/idempotency\<close>
    and its store): a command under an idempotency key takes effect once; the breaker opens, probes and closes as
    configured and its registry stays bounded.
  \<^item> \<open>Access_Scope\<close>, \<open>Access_Keys\<close>, \<open>Access_Tokens\<close> (\<^verbatim>\<open>internal/access\<close>): a grant allows exactly what its patterns match; an issued
    key authenticates, nothing else does, and a dead key stays dead; capture and outcome tokens round-trip and are
    never confused.
  \<^item> \<open>Session_Lifecycle\<close>, \<open>Check_Execution\<close> (\<^verbatim>\<open>internal/verification\<close>): the session graph with its receipts, and
    the check with fenced, immutable attempts and the aggregation of its outcome.
  \<^item> \<open>Provider_Contract\<close>, \<open>Provider_Dispatch\<close>, \<open>Provider_Routing\<close> (\<^verbatim>\<open>contracts/provider/v1\<close>, \<^verbatim>\<open>internal/provider\<close>): the validated
    contract, the dispatch that calls a provider at most once per attempt and refines a three-state ledger, selection,
    limits and the breaker in front of it.
  \<^item> \<open>Policy_Contract\<close>, \<open>Assurance\<close>, \<open>Policy_Evaluation\<close> (\<^verbatim>\<open>internal/policy\<close>): facts in canonical form, independence of sources as
    connected classes of a union-find, resolution of requirement results, decisions that are earned and reproducible.
  \<^item> \<open>Review_Case\<close> (\<^verbatim>\<open>internal/review\<close>): oversight by one or two reviewers and the fact a resolved case yields.
  \<^item> \<open>Audit_Chain\<close> (\<^verbatim>\<open>internal/audit\<close>): verification accepts exactly the appended chains and detects tampering.
  \<^item> \<open>Privacy_Deletion\<close>, \<open>Privacy_Request\<close> (\<^verbatim>\<open>internal/privacy\<close>): retention, holds, the deletion run with its backup
    boundary, and the history of a subject request.
  \<^item> \<open>Webhook_Event\<close>, \<open>Webhook_Delivery\<close> (\<^verbatim>\<open>contracts/webhook/v1\<close>, \<^verbatim>\<open>internal/delivery\<close>): the catalogue and envelope, signatures,
    and workers that number attempts without gaps and send only what is due.
  \<^item> \<open>Evidence_Registry\<close>, \<open>Protected_Content\<close>, \<open>Evidence_Grant\<close>, \<open>Evidence_Upload\<close>, \<open>Upload_Body\<close>,
    \<open>Object_Reconciliation\<close> (\<^verbatim>\<open>internal/evidence\<close> and its stores): the vocabulary, encrypted content, controlled
    reads that release plaintext only as granted, upload intents, the streaming body check, and the fate of staged
    ciphertext: accepted objects are never deleted.
  \<^item> \<open>Processing_Authority\<close> (\<^verbatim>\<open>internal/authority\<close> and its store): notices, declarations and the subject's responses, the
    transactions over them with the lock and the version of the parent session, and processing transactions that validate the current tables or a
    snapshot. An effect commits only under an active declaration and a granting response, the end of a declaration is
    final, and a revocation of consent takes effect, except in the two ways that are proved: it can be older than the latest
    response, and a snapshot taken before it can still commit.
  \<^item> \<open>MRZ_Zone\<close> (\<^verbatim>\<open>internal/document/mrz\<close>): a machine-readable zone is valid exactly when it conforms.
  \<^item> This theory joins them: the acceptance of uploads under the verdict of the processing authority, and controlled reads under its
    decisions, of which none releases plaintext once the declaration has ended.

  \<^bold>\<open>Termination, bounds and fuel.\<close> Loops are structural recursions or have a measure (\<open>search_loop\<close> the width of the interval,
  \<open>ToValidUTF8\<close> the rest of the text, \<open>peek_loop\<close> the missing bytes). The path walk of the union-find, \<open>uf_root\<close>, could run
  forever on a cyclic table: it is a \<^verbatim>\<open>partial_function\<close> in the option monad, and it is proved to return on every table
  the program builds. The refill of the buffered reader is tried 100 times because \<^verbatim>\<open>bufio\<close> gives up after 100 empty
  reads; the count is the library's, not fuel of the model. No other definition has fuel, and step relations have no
  bound on their length, their number of workers or their clock.

  \<^bold>\<open>What is not modelled, and why.\<close> Generated code (OpenAPI, protobuf, \<^verbatim>\<open>sqlgen\<close>), process wiring, configuration and
  command-line tools, HTTP and gRPC transport, telemetry, client kits, and the adapters of external services: they
  contain I/O and plumbing and no decision that the components above do not take. SQL is modelled where a statement decides
  (its \<^verbatim>\<open>WHERE\<close>, \<^verbatim>\<open>ON CONFLICT\<close> and locking), not as a language. Domain packages that repeat the aggregate pattern
  on other data are left for later extension: key custody and rewrapping, identity and fraud links, models and
  proposals, experience documents, packs, tenant export, support and usage, live capture (\<^verbatim>\<open>realtime\<close>), the task driver, and
  document fields, barcodes and consistency. Go's scheduler, memory model, nil receivers and the redacting formatters are
  outside the model; a mutex or a transaction makes its body one step.
\<close>

section \<open>Acceptance under the authority\<close>

text \<open>
  The acceptance transaction of the staged objects leaves the verdict of the authority open. With the verdict of the processing authority on the
  same locked tables, the lease and the times the transaction checks are those the authority checked, and an accepted upload is in the
  scope of an active declaration under its latest response.
\<close>

lemma acceptance_verdict:
  "acceptance_authority env tenantID upload occurredAt now adb = Inr q \<Longrightarrow> ValidateUploadAcceptanceWithin True tenantID upload occurredAt now"
  by (auto simp: acceptance_authority_def ValidateUploadAcceptanceWithin_def Let_def chain_iff split: option.splits)

lemma accepted_under_authority:
  assumes accepted: "store_AcceptUpload catalog ck tenantID now m db = Inr (result, db')"
    and verdict: "\<And>row current. od_uploads db (uc_UploadID m) = Some row \<Longrightarrow> restoreUpload catalog row = Inr current \<Longrightarrow> ck_permitted ck \<Longrightarrow>
      \<exists>q. acceptance_authority env tenantID current (uc_OccurredAt m) now adb = Inr q"
  shows "\<exists>row current r q. od_uploads db (uc_UploadID m) = Some row \<and> restoreUpload catalog row = Inr current
    \<and> find_authority (up_AuthorityID current) adb = Some r \<and> latest_response (pa_ID r) adb = Some q \<and> authorises r q (t_ns now)
    \<and> in_scope r (accepted_as current (uc_OccurredAt m))"
proof -
  from accepted obtain row current where a: "od_uploads db (uc_UploadID m) = Some row" "restoreUpload catalog row = Inr current" "ck_permitted ck"
    by (auto simp: store_AcceptUpload_def chain_iff Let_def map_sum_def ValidateUploadAcceptanceWithin_def split: sum.splits option.splits)
  obtain q where "acceptance_authority env tenantID current (uc_OccurredAt m) now adb = Inr q" using verdict [OF a] by blast
  then show ?thesis by (rule acceptance_in_scope [where t = "uc_OccurredAt m"]) (use a in blast)
qed

section \<open>Reads under the authority\<close>

text \<open>
  C17. The end of a declaration stops the reads of its evidence. In the system of the authority's transactions and the controlled reads, which ask for a decision
  before every plaintext, once a declaration has ended and no read of its verification has passed its decision, no
  plaintext of the verification's evidence is released any more, however grants, claims and further transactions interleave.
\<close>

theorem ended_authority_stops_reads:
  assumes "authority_wf db" "(authority_step env tenantID)\<^sup>*\<^sup>* (authority_start db) w" "r \<in> set (adb_authorities (aw_db w))" "pa_State r \<noteq> AuthorityActive"
    and "reads_of (pa_VerificationID r) s = {}" "(governed_step env eenv tenantID)\<^sup>*\<^sup>* (w, s) (w', s')"
  shows "releases_of (pa_VerificationID r) s' = releases_of (pa_VerificationID r) s"
proof -
  have "authority_inv env tenantID w" by (rule authority_inv_run [OF assms(2) authority_inv_start [OF assms(1)]])
  then show ?thesis using governed_run [OF assms(6)] assms(3-5) by simp
qed

theorem ended_authority_stops_reads_witness:
  "\<exists>w s'. (governed_step sample_authority_env sample_evidence_env ''t'')\<^sup>*\<^sup>* (w, read_start (\<lambda>_. None)) (w, s')
     \<and> sample_withdrawn \<in> set (adb_authorities (aw_db w)) \<and> releases_of ''v'' s' = {}"
proof -
  obtain w where w: "(authority_step sample_authority_env ''t'')\<^sup>*\<^sup>* (authority_start (sample_authority_db [sample_consent ''r1'' 3000])) w"
    "sample_withdrawn \<in> set (adb_authorities (aw_db w))" by (rule sample_withdrawal_run)
  let ?s = "read_start (\<lambda>_. None)"
  let ?t = "?s\<lparr>rd_db := (rd_db ?s)\<lparr>gd_assets := (\<lambda>_. None)(''e'' \<mapsto> sample_evidence)\<rparr>\<rparr>"
  have wf: "authority_wf (sample_authority_db [sample_consent ''r1'' 3000])" by (rule sample_wf) (simp add: sample_consent_def)
  have fields: "pa_State sample_withdrawn \<noteq> AuthorityActive" "pa_VerificationID sample_withdrawn = ''v''"
    by (simp_all add: sample_withdrawn_def sample_declaration_def)
  have "governed_step sample_authority_env sample_evidence_env ''t'' (w, ?s) (w, ?t)"
    by (rule reading [OF collects]) (simp add: consulted_def)
  then have g: "(governed_step sample_authority_env sample_evidence_env ''t'')\<^sup>*\<^sup>* (w, ?s) (w, ?t)" by (rule r_into_rtranclp)
  have "reads_of (pa_VerificationID sample_withdrawn) ?s = {}" by (simp add: reads_of_def read_start_def)
  from ended_authority_stops_reads [OF wf w fields(1) this g] have "releases_of ''v'' ?t = {}"
    by (simp add: fields releases_of_def read_start_def)
  then show ?thesis using g w(2) by blast
qed

end
